(* ===== verification/Save_Prelude.thy ===== *)
theory Save_Prelude
  imports Main "HOL-Library.Word" "HOL-Library.Sublist" "HOL-Library.Char_ord"
    "HOL-Library.List_Lexorder"
begin

text \<open>
  The shared vocabulary of the development: the machine integers of the source, Rust's string
  and slice operations (\<open>starts_with\<close>, \<open>ends_with\<close>, \<open>contains\<close>, \<open>split\<close>, \<open>rsplit_once\<close>,
  \<open>parse\<close>, decimal formatting), and the generic lemmas the components share: byte-wise
  lexicographic order and prefixes, and association of keys built with a separator.

  A Rust \<open>str\<close> is its UTF-8 bytes, so a string is a list of 8-bit characters: \<open>len()\<close> is the
  length of that list and Rust's string order is the lexicographic order of the bytes.
\<close>

section \<open>Types and theorem collections\<close>

type_synonym u8 = "8 word"
type_synonym u16 = "16 word"
type_synonym u32 = "32 word"
type_synonym u64 = "64 word"

text \<open>The contents of objects, parts and files.\<close>

type_synonym data = "u8 list"

text \<open>Points in time, in nanoseconds of the clock that is read.\<close>

type_synonym instant = int

named_theorems key_inj \<open>injectivity of the keys of the metadata store\<close>
named_theorems key_disj \<open>keys of different kinds are different\<close>

section \<open>Strings and slices\<close>

text \<open>\<open>to_string\<close> and \<open>format!\<close> of an unsigned integer: decimal without leading zeros.\<close>

definition digit_char :: "nat \<Rightarrow> char" where
  "digit_char d = char_of (48 + d)"

fun nat_str :: "nat \<Rightarrow> string" where
  "nat_str n = (if n < 10 then [digit_char n] else nat_str (n div 10) @ [digit_char (n mod 10)])"

declare nat_str.simps [simp del]

text \<open>A string between single quotation marks, as \<open>format!("'{}'", s)\<close> writes it.\<close>

definition quoted :: "string \<Rightarrow> string" where
  "quoted s = CHR 0x27 # s @ [CHR 0x27]"

definition starts_with :: "'a list \<Rightarrow> 'a list \<Rightarrow> bool" where
  "starts_with s p = prefix p s"

definition ends_with :: "'a list \<Rightarrow> 'a list \<Rightarrow> bool" where
  "ends_with s p = suffix p s"

fun contains :: "'a list \<Rightarrow> 'a list \<Rightarrow> bool" where
  "contains [] p = (p = [])"
| "contains (c # s) p = (prefix p (c # s) \<or> contains s p)"

text \<open>\<open>s.split(c)\<close>: the pieces between the separators, never the empty list.\<close>

fun split_on :: "'a \<Rightarrow> 'a list \<Rightarrow> 'a list list" where
  "split_on c [] = [[]]"
| "split_on c (x # s) =
     (if x = c then [] # split_on c s
      else (case split_on c s of [] \<Rightarrow> [[x]] | p # ps \<Rightarrow> (x # p) # ps))"

text \<open>\<open>join\<close>: the pieces with the separator between them.\<close>

fun join :: "string \<Rightarrow> string list \<Rightarrow> string" where
  "join sep [] = []"
| "join sep [s] = s"
| "join sep (s # ss) = s @ sep @ join sep ss"

text \<open>\<open>s.rsplit_once(c)\<close>: the parts before and after the last separator.\<close>

fun rsplit_once :: "'a \<Rightarrow> 'a list \<Rightarrow> ('a list \<times> 'a list) option" where
  "rsplit_once c [] = None"
| "rsplit_once c (x # s) =
     (case rsplit_once c s of
        Some (a, b) \<Rightarrow> Some (x # a, b)
      | None \<Rightarrow> if x = c then Some ([], s) else None)"

definition ascii_lower :: "char \<Rightarrow> char" where
  "ascii_lower c = (if 65 \<le> (of_char c :: nat) \<and> (of_char c :: nat) \<le> 90 then char_of ((of_char c :: nat) + 32) else c)"

definition to_lowercase :: "string \<Rightarrow> string" where
  "to_lowercase = map ascii_lower"

section \<open>Parsing unsigned integers\<close>

definition digit_val :: "char \<Rightarrow> nat option" where
  "digit_val c =
     (let n = of_char c :: nat in if 48 \<le> n \<and> n \<le> 57 then Some (n - 48) else None)"

fun digits_val :: "nat \<Rightarrow> string \<Rightarrow> nat option" where
  "digits_val acc [] = Some acc"
| "digits_val acc (c # s) =
     (case digit_val c of None \<Rightarrow> None | Some d \<Rightarrow> digits_val (acc * 10 + d) s)"

text \<open>
  Rust's \<open>str::parse\<close> for an unsigned integer type of the given width: one optional plus sign,
  at least one digit, only digits, and a value below \<open>2 ^ width\<close>.
\<close>

definition parse_uint :: "nat \<Rightarrow> string \<Rightarrow> nat option" where
  "parse_uint w s =
     (let ds = (case s of [] \<Rightarrow> [] | c # r \<Rightarrow> if c = CHR ''+'' then r else s)
      in if ds = [] then None
         else (case digits_val 0 ds of
                 None \<Rightarrow> None
               | Some n \<Rightarrow> if n < 2 ^ w then Some n else None))"

section \<open>Lemmas on strings\<close>

lemma nat_str_not_Nil [simp]: "nat_str n \<noteq> []"
  by (subst nat_str.simps) simp

lemma of_char_digit [simp]: "d < 10 \<Longrightarrow> (of_char (digit_char d) :: nat) = 48 + d"
  by (simp add: digit_char_def)

lemma digit_val_digit [simp]: "d < 10 \<Longrightarrow> digit_val (digit_char d) = Some d"
  by (simp add: digit_val_def Let_def)

lemma digit_char_0_9:
  "digit_char 0 = CHR ''0''" "digit_char 1 = CHR ''1''" "digit_char (Suc 0) = CHR ''1''" "digit_char 2 = CHR ''2''"
  "digit_char 3 = CHR ''3''" "digit_char 4 = CHR ''4''" "digit_char 5 = CHR ''5''" "digit_char 6 = CHR ''6''"
  "digit_char 7 = CHR ''7''" "digit_char 8 = CHR ''8''"
  "digit_char 9 = CHR ''9''"
  by code_simp+

lemma digits_val_append:
  "digits_val acc (s @ t) =
     (case digits_val acc s of None \<Rightarrow> None | Some a \<Rightarrow> digits_val a t)"
  by (induction s arbitrary: acc) (auto split: option.splits)

lemma digits_val_nat_str: "digits_val 0 (nat_str n) = Some n"
proof (induction n rule: nat_str.induct)
  case (1 n)
  show ?case
  proof (cases "n < 10")
    case True
    then show ?thesis by (subst nat_str.simps) simp
  next
    case False
    with "1.IH" have "digits_val 0 (nat_str (n div 10)) = Some (n div 10)" by simp
    with False show ?thesis by (subst nat_str.simps) (simp add: digits_val_append)
  qed
qed

lemma nat_str_inject [simp]: "nat_str m = nat_str n \<longleftrightarrow> m = n"
  by (metis digits_val_nat_str option.inject)

lemma nat_str_digits: "c \<in> set (nat_str n) \<Longrightarrow> \<exists>d < 10. c = digit_char d"
proof (induction n rule: nat_str.induct)
  case (1 n)
  show ?case
  proof (cases "n < 10")
    case True
    with 1 show ?thesis by (subst (asm) (2) nat_str.simps) auto
  next
    case False
    with "1.prems" have "c \<in> set (nat_str (n div 10)) \<or> c = digit_char (n mod 10)"
      by (subst (asm) nat_str.simps) auto
    with False "1.IH" show ?thesis by (auto intro: exI [of _ "n mod 10"])
  qed
qed

lemma digit_char_neq:
  assumes "d < 10" and "of_char c < (48 :: nat) \<or> 57 < (of_char c :: nat)"
  shows "digit_char d \<noteq> c"
  using assms of_char_digit [of d] by auto

lemma nat_str_no_char:
  assumes "of_char c < (48 :: nat) \<or> 57 < (of_char c :: nat)"
  shows "c \<notin> set (nat_str n)"
proof
  assume "c \<in> set (nat_str n)"
  then obtain d where "d < 10" and "c = digit_char d" using nat_str_digits by blast
  with assms digit_char_neq [of d c] show False by simp
qed

lemma nat_str_no_colon [simp]: "CHR '':'' \<notin> set (nat_str n)"
  by (rule nat_str_no_char) simp

lemma nat_str_hd_not_plus: "hd (nat_str n) \<noteq> CHR ''+''"
proof -
  have "CHR ''+'' \<notin> set (nat_str n)" by (rule nat_str_no_char) simp
  then show ?thesis by (metis hd_in_set nat_str_not_Nil)
qed

lemma parse_uint_nat_str: "n < 2 ^ w \<Longrightarrow> parse_uint w (nat_str n) = Some n"
  using nat_str_hd_not_plus [of n] nat_str_not_Nil [of n] digits_val_nat_str [of n]
  by (cases "nat_str n") (auto simp: parse_uint_def)

lemma parse_uint_bound: "parse_uint w s = Some n \<Longrightarrow> n < 2 ^ w"
  by (auto simp: parse_uint_def Let_def split: option.splits if_splits)

lemma parse_uint_word:
  fixes x :: "'a :: len word"
  shows "parse_uint LENGTH('a) (nat_str (unat x)) = Some (unat x)"
  by (rule parse_uint_nat_str) (metis unsigned_less)

lemma split_on_not_Nil [simp]: "split_on c s \<noteq> []"
  by (induction s) (auto split: list.splits)

lemma split_on_no_sep: "c \<notin> set s \<Longrightarrow> split_on c s = [s]"
  by (induction s) auto

lemma split_on_sep: "c \<notin> set s \<Longrightarrow> split_on c (s @ c # t) = s # split_on c t"
  by (induction s) auto

lemma rsplit_once_no_sep: "c \<notin> set s \<Longrightarrow> rsplit_once c s = None"
  by (induction s) auto

lemma rsplit_once_sep: "c \<notin> set t \<Longrightarrow> rsplit_once c (s @ c # t) = Some (s, t)"
  by (induction s) (auto simp: rsplit_once_no_sep)

lemma contains_append: "contains (s @ p @ t) p"
proof (induction s)
  case Nil
  show ?case
  proof (cases "p @ t")
    case (Cons a r)
    then have "prefix p (a # r)" by (metis prefixI)
    with Cons show ?thesis by simp
  qed simp
qed simp

lemma contains_iff: "contains s p \<longleftrightarrow> (\<exists>a b. s = a @ p @ b)"
proof
  show "contains s p \<Longrightarrow> \<exists>a b. s = a @ p @ b"
  proof (induction s)
    case (Cons c s)
    show ?case
    proof (cases "prefix p (c # s)")
      case True
      then obtain b where "c # s = p @ b" by (auto elim: prefixE)
      then show ?thesis by (intro exI [of _ "[]"] exI [of _ b]) simp
    next
      case False
      with Cons obtain a b where "s = a @ p @ b" by auto
      then show ?thesis by (intro exI [of _ "c # a"] exI [of _ b]) simp
    qed
  qed simp
qed (auto simp: contains_append)

section \<open>Prefixes and the byte order\<close>

lemma prefix_imp_le: "prefix p k \<Longrightarrow> p \<le> (k :: 'a :: linorder list)"
proof (induction p arbitrary: k)
  case (Cons a p)
  then show ?case by (cases k) auto
qed simp

text \<open>Once a key at or above \<open>p\<close> no longer starts with \<open>p\<close>, no later key does.\<close>

lemma prefix_convex:
  fixes p :: "'a :: linorder list"
  assumes "p \<le> k" and "k \<le> k'" and "prefix p k'"
  shows "prefix p k"
  using assms
proof (induction p arbitrary: k k')
  case (Cons a p)
  from Cons.prems(3) obtain k1' where k': "k' = a # k1'" "prefix p k1'"
    by (cases k') auto
  from Cons.prems(1) obtain b k1 where k: "k = b # k1" by (cases k) auto
  with Cons.prems k' have "b = a" by auto
  with Cons k k' show ?case by auto
qed simp

lemma takeWhile_prefix_sorted:
  fixes p :: "'a :: linorder list"
  assumes "sorted (map fst xs)" and "\<forall>x \<in> set xs. p \<le> fst x"
  shows "takeWhile (\<lambda>x. prefix p (fst x)) xs = filter (\<lambda>x. prefix p (fst x)) xs"
  using assms
proof (induction xs)
  case (Cons x xs)
  show ?case
  proof (cases "prefix p (fst x)")
    case False
    with Cons.prems have "\<forall>y \<in> set xs. \<not> prefix p (fst y)"
      by (auto dest: prefix_convex)
    with False show ?thesis by (simp add: filter_empty_conv)
  qed (use Cons in auto)
qed simp

text \<open>Keys built as \<open>a @ [c] @ b\<close>, where the separator \<open>c\<close> is not in \<open>a\<close>, are injective.\<close>

lemma sep_append_inject:
  assumes "c \<notin> set a" and "c \<notin> set a'"
  shows "a @ c # b = a' @ c # b' \<longleftrightarrow> a = a' \<and> b = b'"
  using assms
proof (induction a arbitrary: a')
  case Nil
  then show ?case by (cases a') auto
next
  case (Cons x a)
  then show ?case by (cases a') auto
qed

lemma prefix_sep_append:
  assumes "c \<notin> set a" and "c \<notin> set a'"
  shows "prefix (a @ c # b) (a' @ c # b') \<longleftrightarrow> a = a' \<and> prefix b b'"
proof
  assume "prefix (a @ c # b) (a' @ c # b')"
  then obtain z where "a' @ c # b' = (a @ c # b) @ z" by (rule prefixE)
  then have "a' @ c # b' = a @ c # (b @ z)" by simp
  with sep_append_inject [OF assms(2) assms(1)] show "a = a' \<and> prefix b b'" by auto
qed auto

section \<open>Lists of results\<close>

lemma map_Inr_mem:
  assumes "map f xs = map Inr ys"
  shows "y \<in> set ys \<longleftrightarrow> (\<exists>x \<in> set xs. f x = Inr y)"
proof -
  have "f ` set xs = Inr ` set ys" using assms by (metis list.set_map)
  then show ?thesis by (metis (no_types, lifting) image_iff sum.inject(2))
qed

lemma map_Inr_ex: "map f xs = map Inr ys \<Longrightarrow> x \<in> set xs \<Longrightarrow> \<exists>y. f x = Inr y"
  by (metis (no_types, lifting) image_iff list.set_map)

section \<open>Counting up a machine word\<close>

lemma less_word_succ:
  fixes i n :: "'a :: len word"
  assumes "i < n"
  shows "unat (i + 1) = Suc (unat i)"
proof -
  have lt: "unat i < unat n" using assms by (simp add: word_less_nat_alt)
  have "unat n < 2 ^ LENGTH('a)" by (metis unsigned_less)
  from le_less_trans [OF Suc_leI [OF lt] this]
  have "unat i + unat (1 :: 'a word) < 2 ^ LENGTH('a)" by simp
  then show ?thesis unfolding unat_add_lem by simp
qed

lemma less_word_succ_measure [simp]:
  fixes i n :: "'a :: len word"
  shows "i < n \<Longrightarrow> unat n - unat (i + 1) < unat n - unat i"
  by (simp add: less_word_succ word_less_nat_alt)

end
