(* ===== verification/Common_Validation.thy ===== *)
theory Common_Validation
  imports Save_Prelude
begin

text \<open>
  The name checks of \<open>crates/save-common/src/validation.rs\<close> and the error type of
  \<open>crates/save-common/src/error.rs\<close>. Each check is the source's chain of early returns, with its
  messages. The lemmas characterise the accepted names and draw the consequences the storage
  keys rely on: a valid bucket name holds no separator and a valid object key cannot leave its
  directory.
\<close>

section \<open>Errors\<close>

datatype Error =
    Io string
  | Validation string
  | Config string
  | Toml string

fun Error_to_string :: "Error \<Rightarrow> string" where
  "Error_to_string (Io e) = ''I/O error: '' @ e"
| "Error_to_string (Validation m) = ''Validation error: '' @ m"
| "Error_to_string (Config m) = ''Configuration error: '' @ m"
| "Error_to_string (Toml e) = ''TOML error: '' @ e"

section \<open>Checks\<close>

definition MAX_OBJECT_KEY_LENGTH :: nat where "MAX_OBJECT_KEY_LENGTH = 1024"
definition MIN_BUCKET_NAME_LENGTH :: nat where "MIN_BUCKET_NAME_LENGTH = 3"
definition MAX_BUCKET_NAME_LENGTH :: nat where "MAX_BUCKET_NAME_LENGTH = 63"

definition validate_object_key :: "string \<Rightarrow> Error + unit" where
  "validate_object_key key =
     (if key = [] then Inl (Validation ''Object key cannot be empty'')
      else if length key > MAX_OBJECT_KEY_LENGTH then
        Inl (Validation (''Object key too long: '' @ nat_str (length key) @ '' bytes (max ''
          @ nat_str MAX_OBJECT_KEY_LENGTH @ '')''))
      else if CHR 0x00 \<in> set key then
        Inl (Validation ''Object key cannot contain null bytes'')
      else if contains key ''..'' then
        Inl (Validation (''Object key cannot contain '' @ quoted ''..''))
      else if starts_with key ''/'' \<or> ends_with key ''/'' then
        Inl (Validation (''Object key cannot start or end with '' @ quoted ''/''))
      else Inr ())"

definition is_ascii_lowercase :: "char \<Rightarrow> bool" where
  "is_ascii_lowercase c = (97 \<le> (of_char c :: nat) \<and> (of_char c :: nat) \<le> 122)"

definition is_ascii_digit :: "char \<Rightarrow> bool" where
  "is_ascii_digit c = (48 \<le> (of_char c :: nat) \<and> (of_char c :: nat) \<le> 57)"

definition bucket_char :: "char \<Rightarrow> bool" where
  "bucket_char c =
     (is_ascii_lowercase c \<or> is_ascii_digit c \<or> c = CHR ''-'' \<or> c = CHR ''.'')"

definition validate_bucket_name :: "string \<Rightarrow> Error + unit" where
  "validate_bucket_name name =
     (if length name < MIN_BUCKET_NAME_LENGTH \<or> length name > MAX_BUCKET_NAME_LENGTH then
        Inl (Validation (''Bucket name must be '' @ nat_str MIN_BUCKET_NAME_LENGTH @ ''-''
          @ nat_str MAX_BUCKET_NAME_LENGTH @ '' characters, got '' @ nat_str (length name)))
      else if \<not> list_all bucket_char name then
        Inl (Validation
          ''Bucket name must contain only lowercase letters, numbers, hyphens, and dots'')
      else if starts_with name ''-'' \<or> starts_with name ''.''
           \<or> ends_with name ''-'' \<or> ends_with name ''.'' then
        Inl (Validation ''Bucket name cannot start or end with hyphen or dot'')
      else Inr ())"

section \<open>What the checks accept\<close>

abbreviation valid_bucket :: "string \<Rightarrow> bool" where
  "valid_bucket b \<equiv> validate_bucket_name b = Inr ()"

abbreviation valid_key :: "string \<Rightarrow> bool" where
  "valid_key k \<equiv> validate_object_key k = Inr ()"

lemma starts_with_char: "starts_with s [c] \<longleftrightarrow> s \<noteq> [] \<and> hd s = c"
  by (cases s) (auto simp: starts_with_def)

lemma ends_with_char: "ends_with s [c] \<longleftrightarrow> s \<noteq> [] \<and> last s = c"
  by (cases s rule: rev_cases) (auto simp: ends_with_def)

lemma valid_key_iff:
  "valid_key k \<longleftrightarrow> k \<noteq> [] \<and> length k \<le> 1024 \<and> CHR 0x00 \<notin> set k \<and> \<not> contains k ''..''
     \<and> hd k \<noteq> CHR ''/'' \<and> last k \<noteq> CHR ''/''"
  by (auto simp: validate_object_key_def MAX_OBJECT_KEY_LENGTH_def starts_with_char ends_with_char)

lemma valid_bucket_iff:
  "valid_bucket b \<longleftrightarrow> 3 \<le> length b \<and> length b \<le> 63 \<and> list_all bucket_char b
     \<and> hd b \<notin> {CHR ''-'', CHR ''.''} \<and> last b \<notin> {CHR ''-'', CHR ''.''}"
  by (auto simp: validate_bucket_name_def MIN_BUCKET_NAME_LENGTH_def MAX_BUCKET_NAME_LENGTH_def
      starts_with_char ends_with_char)

lemma valid_bucket_chars: "valid_bucket b \<Longrightarrow> c \<in> set b \<Longrightarrow> bucket_char c"
  by (simp add: valid_bucket_iff list_all_iff)

lemma valid_bucket_no_slash [simp]: "valid_bucket b \<Longrightarrow> CHR ''/'' \<notin> set b"
  by (auto dest: valid_bucket_chars
      simp: bucket_char_def is_ascii_lowercase_def is_ascii_digit_def)

lemma valid_bucket_no_colon [simp]: "valid_bucket b \<Longrightarrow> CHR '':'' \<notin> set b"
  by (auto dest: valid_bucket_chars
      simp: bucket_char_def is_ascii_lowercase_def is_ascii_digit_def)

lemma valid_key_not_Nil [simp]: "valid_key k \<Longrightarrow> k \<noteq> []"
  by (simp add: valid_key_iff)

text \<open>
  No component of a valid key is \<open>..\<close>: splitting a valid key at its slashes yields no parent
  reference, so a path built from it stays below the directory it is joined to.
\<close>

lemma split_on_pieces: "p \<in> set (split_on c s) \<Longrightarrow> \<exists>a b. s = a @ p @ b"
proof (induction s arbitrary: p)
  case (Cons x s)
  show ?case
  proof (cases "x = c")
    case True
    with Cons.prems consider "p = []" | "p \<in> set (split_on c s)" by auto
    then show ?thesis
    proof cases
      case 1
      then show ?thesis by (intro exI [of _ "[]"] exI [of _ "x # s"]) simp
    next
      case 2
      then obtain a b where "s = a @ p @ b" using Cons.IH by blast
      then show ?thesis by (intro exI [of _ "x # a"] exI [of _ b]) simp
    qed
  next
    case False
    obtain q qs where q: "split_on c s = q # qs" by (cases "split_on c s") auto
    with False Cons.prems consider "p = x # q" | "p \<in> set qs" by auto
    then show ?thesis
    proof cases
      case 1
      obtain b where "s = q @ b"
      proof -
        have "\<exists>b. s = q @ b" using q
          by (induction s arbitrary: q qs) (auto split: if_splits list.splits)
        then show thesis using that by blast
      qed
      with 1 show ?thesis by (intro exI [of _ "[]"] exI [of _ b]) auto
    next
      case 2
      then obtain a b where "s = a @ p @ b" using Cons.IH q by fastforce
      then show ?thesis by (intro exI [of _ "x # a"] exI [of _ b]) simp
    qed
  qed
qed auto

lemma valid_key_no_parent: "valid_key k \<Longrightarrow> ''..'' \<notin> set (split_on CHR ''/'' k)"
  using split_on_pieces [of "''..''" "CHR ''/''" k]
  by (auto simp: valid_key_iff contains_iff)

end
