(* ===== verification/Meta_Types.thy ===== *)
theory Meta_Types
  imports Common_Validation
begin

text \<open>
  The data of \<open>crates/save-metadata\<close>: the error type (\<open>error.rs\<close>), the key prefixes
  (\<open>keys.rs\<close>), buckets (\<open>save-common/src/types.rs\<close>), object metadata (\<open>object.rs\<close>),
  multipart uploads (\<open>multipart.rs\<close>), locks (\<open>lock.rs\<close>, \<open>raft/commands.rs\<close>) and the
  commands replicated through Raft (\<open>raft/commands.rs\<close>). A field \<open>f\<close> of a struct keeps its
  name behind a prefix for the struct, since record fields share one name space.
  A \<open>DateTime<Utc>\<close> is an \<^typ>\<open>instant\<close>; a constructor that reads the clock takes the time it
  reads as its argument \<open>now\<close>.
\<close>

section \<open>Errors\<close>

datatype MetadataError =
    Database string
  | Encode string
  | Decode string
  | BucketNotFound string
  | BucketAlreadyExists string
  | ObjectNotFound string string
  | MultipartUploadNotFound string
  | InvalidOperation string
  | TaskCancelled string
  | Raft string
  | AlreadyInitialized
  | NotLeader "u64 option" "string option"
  | Storage string

definition is_recoverable_raft_corruption :: "MetadataError \<Rightarrow> bool" where
  "is_recoverable_raft_corruption e =
     (case e of
        Raft msg \<Rightarrow>
          contains msg ''missing field'' \<or> contains msg ''invalid type''
          \<or> contains msg ''expected'' \<or> contains msg ''JSON'' \<or> contains msg ''deserialize''
      | _ \<Rightarrow> False)"

text \<open>
  The \<open>Display\<close> of the errors. One of them prints options with \<open>{:?}\<close>, which puts a string in
  quotation marks and escapes the marks, backslashes and the usual control characters.
\<close>

definition debug_char :: "char \<Rightarrow> string" where
  "debug_char c =
     (if c = CHR 0x22 then [CHR 0x5C, CHR 0x22]
      else if c = CHR 0x5C then [CHR 0x5C, CHR 0x5C]
      else if c = CHR 0x0A then CHR 0x5C # ''n''
      else if c = CHR 0x0D then CHR 0x5C # ''r''
      else if c = CHR 0x09 then CHR 0x5C # ''t''
      else if c = CHR 0x00 then CHR 0x5C # ''0''
      else [c])"

definition debug_str :: "string \<Rightarrow> string" where
  "debug_str s = CHR 0x22 # concat (map debug_char s) @ [CHR 0x22]"

definition debug_option :: "('a \<Rightarrow> string) \<Rightarrow> 'a option \<Rightarrow> string" where
  "debug_option f x = (case x of None \<Rightarrow> ''None'' | Some y \<Rightarrow> ''Some('' @ f y @ '')'')"

fun MetadataError_to_string :: "MetadataError \<Rightarrow> string" where
  "MetadataError_to_string (Database e) = ''Database error: '' @ e"
| "MetadataError_to_string (Encode e) = ''Serialization encode error: '' @ e"
| "MetadataError_to_string (Decode e) = ''Serialization decode error: '' @ e"
| "MetadataError_to_string (BucketNotFound b) = ''Bucket not found: '' @ b"
| "MetadataError_to_string (BucketAlreadyExists b) = ''Bucket already exists: '' @ b"
| "MetadataError_to_string (ObjectNotFound b k) = ''Object not found: '' @ b @ ''/'' @ k"
| "MetadataError_to_string (MultipartUploadNotFound u) = ''Multipart upload not found: '' @ u"
| "MetadataError_to_string (InvalidOperation m) = ''Invalid operation: '' @ m"
| "MetadataError_to_string (TaskCancelled m) = ''Task cancelled: '' @ m"
| "MetadataError_to_string (Raft m) = ''Raft error: '' @ m"
| "MetadataError_to_string AlreadyInitialized = ''Cluster already initialized''"
| "MetadataError_to_string (NotLeader leader_id leader_addr) =
     ''Not leader, leader is node '' @ debug_option (\<lambda>n. nat_str (unat n)) leader_id @ '' at ''
       @ debug_option debug_str leader_addr"
| "MetadataError_to_string (Storage m) = ''Storage error: '' @ m"

section \<open>Keys\<close>

definition BUCKET_PREFIX :: string where "BUCKET_PREFIX = ''bkt:''"
definition OBJECT_PREFIX :: string where "OBJECT_PREFIX = ''obj:''"
definition MULTIPART_PREFIX :: string where "MULTIPART_PREFIX = ''mpu:''"

definition DATA_PREFIXES :: "string list" where
  "DATA_PREFIXES = [BUCKET_PREFIX, OBJECT_PREFIX, MULTIPART_PREFIX]"

section \<open>Buckets\<close>

record Bucket =
  bkt_name :: string
  bkt_created_at :: instant

definition Bucket_new :: "instant \<Rightarrow> string \<Rightarrow> Bucket" where
  "Bucket_new now name = \<lparr>bkt_name = name, bkt_created_at = now\<rparr>"

definition Bucket_with_timestamp :: "string \<Rightarrow> instant \<Rightarrow> Bucket" where
  "Bucket_with_timestamp name created_at = \<lparr>bkt_name = name, bkt_created_at = created_at\<rparr>"

section \<open>Objects\<close>

record ObjectMetadata =
  obj_bucket :: string
  obj_key :: string
  obj_size :: u64
  obj_etag :: string
  obj_content_type :: "string option"
  obj_created_at :: instant
  obj_modified_at :: instant
  obj_replica_nodes :: "u64 list"

definition ObjectMetadata_new ::
  "instant \<Rightarrow> string \<Rightarrow> string \<Rightarrow> u64 \<Rightarrow> string \<Rightarrow> ObjectMetadata" where
  "ObjectMetadata_new now bucket key sz etag =
     \<lparr>obj_bucket = bucket, obj_key = key, obj_size = sz, obj_etag = etag,
      obj_content_type = None, obj_created_at = now, obj_modified_at = now,
      obj_replica_nodes = []\<rparr>"

definition with_replicas :: "ObjectMetadata \<Rightarrow> u64 list \<Rightarrow> ObjectMetadata" where
  "with_replicas m nodes = m\<lparr>obj_replica_nodes := nodes\<rparr>"

section \<open>Multipart uploads\<close>

record MultipartPart =
  part_number :: u32
  part_etag :: string
  part_size :: u64

text \<open>A \<open>BTreeMap\<close> from part numbers to parts is a map; its iteration is in the order of the keys.\<close>

record MultipartUpload =
  mpu_upload_id :: string
  mpu_bucket :: string
  mpu_key :: string
  mpu_parts :: "u32 \<rightharpoonup> MultipartPart"
  mpu_initiated_at :: instant
  mpu_content_type :: "string option"

record MultipartMetadata =
  mm_upload_id :: string
  mm_bucket :: string
  mm_key :: string
  mm_initiated_at :: instant
  mm_content_type :: "string option"

definition MultipartUpload_new ::
  "instant \<Rightarrow> string \<Rightarrow> string \<Rightarrow> string \<Rightarrow> string option \<Rightarrow> MultipartUpload" where
  "MultipartUpload_new now upload_id bucket key content_type =
     \<lparr>mpu_upload_id = upload_id, mpu_bucket = bucket, mpu_key = key, mpu_parts = Map.empty,
      mpu_initiated_at = now, mpu_content_type = content_type\<rparr>"

section \<open>Locks\<close>

datatype LockType = Read | Write

record LockHolder =
  lh_node_id :: u64
  lh_lock_id :: u64

record LockState =
  ls_lock_type :: LockType
  ls_holders :: "LockHolder list"

section \<open>Commands replicated through Raft\<close>

datatype Command =
    CreateBucket Bucket
  | DeleteBucket string
  | PutObjectMetadata ObjectMetadata
  | DeleteObjectMetadata string string
  | AcquireLock string string LockType LockHolder
  | ReleaseLock string string LockHolder

text \<open>
  The part of openraft's data that the store reads and writes. A log id names the leader that
  created the entry, by its term alone as there is at most one leader in a term
  (\<open>single-term-leader\<close>), and its index; votes and memberships are only stored and handed back, so
  their types are parameters.
\<close>

record LeaderId =
  leader_term :: u64

record LogId =
  log_leader_id :: LeaderId
  log_index :: u64

datatype 'mem EntryPayload = Blank | Normal Command | Membership 'mem

record 'mem Entry =
  entry_log_id :: LogId
  entry_payload :: "'mem EntryPayload"

record 'mem StoredMembership =
  sm_log_id :: "LogId option"
  sm_membership :: 'mem

record 'mem SnapshotMeta =
  snap_last_log_id :: "LogId option"
  snap_last_membership :: "'mem StoredMembership"
  snap_id :: string

end
