(* ===== verification/Meta_Env.thy ===== *)
theory Meta_Env
  imports Meta_Types
begin

text \<open>
  What the metadata crate uses of code outside the repository: the RocksDB key-value store and
  the \<open>bincode\<close> serialisation. Both are the fields of one parameter, a record \<open>env\<close> that every
  operation of the metadata store takes; \<open>'d\<close> is the type of database states and \<open>'v\<close> the type
  of stored byte strings.

  The locale \<open>metadata_env\<close> holds what the code relies on, the documented behaviour of the two
  libraries: an operation may fail with an error, and then a write has no effect; a \<open>get\<close> that
  succeeds returns the value last written under the key; an iterator started at a prefix
  delivers the entries whose keys are at or above the prefix in the order of their bytes, and
  may stop with an error; a value that could be encoded decodes to itself. \<open>contents d cf\<close> is the
  finite map that the column family \<open>cf\<close> holds in the state \<open>d\<close>. The locale
  \<open>reliable_env\<close> adds that no operation fails, for the statements that an operation succeeds.

  The in-memory store \<open>mem_env\<close> at the end satisfies both.
\<close>

section \<open>The parameter\<close>

record ('t, 'v) codec =
  encode :: "'t \<Rightarrow> string + 'v"
  decode :: "'v \<Rightarrow> string + 't"

record ('d, 'v) env =
  db_has_cf :: "'d \<Rightarrow> string \<Rightarrow> bool"
  db_get :: "'d \<Rightarrow> string \<Rightarrow> string \<Rightarrow> string + 'v option"
  db_put :: "'d \<Rightarrow> string \<Rightarrow> string \<Rightarrow> 'v \<Rightarrow> string + 'd"
  db_delete :: "'d \<Rightarrow> string \<Rightarrow> string \<Rightarrow> string + 'd"
  db_prefix_iterator :: "'d \<Rightarrow> string \<Rightarrow> string \<Rightarrow> (string + string \<times> 'v) list"
  bucket_codec :: "(Bucket, 'v) codec"
  object_codec :: "(ObjectMetadata, 'v) codec"
  multipart_codec :: "(MultipartMetadata, 'v) codec"
  part_codec :: "(MultipartPart, 'v) codec"
  lock_codec :: "(LockState, 'v) codec"

text \<open>The column families of \<open>crates/save-metadata/src/lib.rs\<close>.\<close>

definition CF_DEFAULT :: string where "CF_DEFAULT = ''default''"
definition CF_RAFT_LOG :: string where "CF_RAFT_LOG = ''raft_log''"
definition CF_RAFT_STATE :: string where "CF_RAFT_STATE = ''raft_state''"
definition CF_RAFT_SNAPSHOT :: string where "CF_RAFT_SNAPSHOT = ''raft_snapshot''"

lemmas cf_defs = CF_DEFAULT_def CF_RAFT_LOG_def CF_RAFT_STATE_def CF_RAFT_SNAPSHOT_def

definition codec_ok :: "('t, 'v) codec \<Rightarrow> bool" where
  "codec_ok c \<longleftrightarrow> (\<forall>t v. encode c t = Inr v \<longrightarrow> decode c v = Inr t)"

definition codec_total :: "('t, 'v) codec \<Rightarrow> bool" where
  "codec_total c \<longleftrightarrow> (\<forall>t. \<exists>v. encode c t = Inr v)"

lemma codec_okD: "codec_ok c \<Longrightarrow> encode c t = Inr v \<Longrightarrow> decode c v = Inr t"
  by (simp add: codec_ok_def)

text \<open>The entries of a finite map from a start key on, in key order.\<close>

definition entries_from :: "(string \<rightharpoonup> 'v) \<Rightarrow> string \<Rightarrow> (string \<times> 'v) list" where
  "entries_from m p = map (\<lambda>k. (k, the (m k))) (sorted_list_of_set {k \<in> dom m. p \<le> k})"

text \<open>The entries whose keys start with a prefix, in key order.\<close>

definition entries_with_prefix :: "(string \<rightharpoonup> 'v) \<Rightarrow> string \<Rightarrow> (string \<times> 'v) list" where
  "entries_with_prefix m p =
     map (\<lambda>k. (k, the (m k))) (sorted_list_of_set {k \<in> dom m. prefix p k})"

section \<open>What the code relies on\<close>

locale metadata_env =
  fixes E :: "('d, 'v) env"
    and contents :: "'d \<Rightarrow> string \<Rightarrow> string \<rightharpoonup> 'v"
  assumes get_law: "db_get E d cf k = Inr r \<Longrightarrow> contents d cf k = r"
    and put_law: "db_put E d cf k v = Inr d' \<Longrightarrow>
      contents d' = (contents d)(cf := (contents d cf)(k \<mapsto> v))"
    and delete_law: "db_delete E d cf k = Inr d' \<Longrightarrow>
      contents d' = (contents d)(cf := (contents d cf)(k := None))"
    and iter_law: "\<exists>n e. db_prefix_iterator E d cf p = map Inr (entries_from (contents d cf) p)
      \<or> db_prefix_iterator E d cf p = map Inr (take n (entries_from (contents d cf) p)) @ [Inl e]"
    and finite_contents: "finite (dom (contents d cf))"
    and bucket_codec_ok: "codec_ok (bucket_codec E)"
    and object_codec_ok: "codec_ok (object_codec E)"
    and multipart_codec_ok: "codec_ok (multipart_codec E)"
    and part_codec_ok: "codec_ok (part_codec E)"
    and lock_codec_ok: "codec_ok (lock_codec E)"

locale reliable_env = metadata_env +
  assumes cf_ok: "db_has_cf E d cf"
    and get_ok: "\<exists>r. db_get E d cf k = Inr r"
    and put_ok: "\<exists>d'. db_put E d cf k v = Inr d'"
    and delete_ok: "\<exists>d'. db_delete E d cf k = Inr d'"
    and iter_ok: "db_prefix_iterator E d cf p = map Inr (entries_from (contents d cf) p)"
    and bucket_codec_total: "codec_total (bucket_codec E)"
    and object_codec_total: "codec_total (object_codec E)"
    and multipart_codec_total: "codec_total (multipart_codec E)"
    and part_codec_total: "codec_total (part_codec E)"
    and lock_codec_total: "codec_total (lock_codec E)"

section \<open>Iterating over a prefix\<close>

text \<open>
  The loop all listing operations share: take the items of the iterator, stop at the first
  error, and stop quietly at the first key that does not start with the prefix.
\<close>

fun scan_prefix :: "string \<Rightarrow> (string + string \<times> 'v) list \<Rightarrow> string + (string \<times> 'v) list" where
  "scan_prefix p [] = Inr []"
| "scan_prefix p (Inl e # items) = Inl e"
| "scan_prefix p (Inr (k, v) # items) =
     (if \<not> starts_with k p then Inr []
      else (case scan_prefix p items of Inl e \<Rightarrow> Inl e | Inr es \<Rightarrow> Inr ((k, v) # es)))"

lemma scan_prefix_Inr [simp]:
  "scan_prefix p (map Inr es) = Inr (takeWhile (\<lambda>x. prefix p (fst x)) es)"
  by (induction es) (auto simp: starts_with_def)

lemma scan_prefix_truncated:
  "scan_prefix p (map Inr (take n es) @ [Inl e]) = Inr xs \<Longrightarrow>
     xs = takeWhile (\<lambda>x. prefix p (fst x)) es"
  by (induction es arbitrary: n xs)
    (auto simp: starts_with_def take_Cons' split: if_splits sum.splits)

lemma entries_from_sorted:
  "sorted (map fst (entries_from m p))"
  by (simp add: entries_from_def comp_def)

lemma set_entries_from: "finite (dom m) \<Longrightarrow> x \<in> set (entries_from m p) \<Longrightarrow> p \<le> fst x"
  by (auto simp: entries_from_def)

lemma set_entries_with_prefix:
  "finite (dom m) \<Longrightarrow>
     set (entries_with_prefix m p) = {(k, v). m k = Some v \<and> prefix p k}"
  by (force simp: entries_with_prefix_def)

lemma entries_with_prefix_sorted: "sorted (map fst (entries_with_prefix m p))"
  by (simp add: entries_with_prefix_def comp_def)

lemma entries_with_prefix_distinct: "distinct (map fst (entries_with_prefix m p))"
  by (simp add: entries_with_prefix_def comp_def)

lemma takeWhile_entries:
  assumes fin: "finite (dom m)"
  shows "takeWhile (\<lambda>x. prefix p (fst x)) (entries_from m p) = entries_with_prefix m p"
proof -
  have "takeWhile (\<lambda>x. prefix p (fst x)) (entries_from m p)
      = filter (\<lambda>x. prefix p (fst x)) (entries_from m p)"
    using set_entries_from [OF fin] by (intro takeWhile_prefix_sorted entries_from_sorted) blast
  also have "\<dots> = map (\<lambda>k. (k, the (m k)))
      (filter (prefix p) (sorted_list_of_set {k \<in> dom m. p \<le> k}))"
    by (simp add: entries_from_def filter_map comp_def)
  also have "filter (prefix p) (sorted_list_of_set {k \<in> dom m. p \<le> k})
      = sorted_list_of_set {k \<in> dom m. prefix p k}"
  proof (rule sorted_distinct_set_unique)
    show "set (filter (prefix p) (sorted_list_of_set {k \<in> dom m. p \<le> k}))
        = set (sorted_list_of_set {k \<in> dom m. prefix p k})"
      using fin by (auto dest: prefix_imp_le)
  qed (simp_all add: sorted_wrt_filter)
  finally show ?thesis by (simp add: entries_with_prefix_def)
qed

text \<open>
  The loop of the listing operations that decode what they see: the value of each entry under
  the prefix is decoded before the next item is fetched, and the first failure ends the loop.
\<close>

fun collect_prefix ::
  "('t, 'v) codec \<Rightarrow> string \<Rightarrow> (string + string \<times> 'v) list \<Rightarrow> MetadataError + 't list" where
  "collect_prefix c p [] = Inr []"
| "collect_prefix c p (Inl e # items) = Inl (Database e)"
| "collect_prefix c p (Inr (k, v) # items) =
     (if \<not> starts_with k p then Inr []
      else (case decode c v of
              Inl e \<Rightarrow> Inl (Decode e)
            | Inr t \<Rightarrow> (case collect_prefix c p items of Inl e \<Rightarrow> Inl e | Inr ts \<Rightarrow> Inr (t # ts))))"

lemma collect_prefix_scan:
  "collect_prefix c p items = Inr ts \<Longrightarrow>
     \<exists>es. scan_prefix p items = Inr es \<and> map (\<lambda>x. decode c (snd x)) es = map Inr ts"
proof (induction items arbitrary: ts)
  case (Cons i items)
  then show ?case
  proof (cases i)
    case (Inr kv)
    obtain k v where "kv = (k, v)" by fastforce
    with Inr Cons.prems Cons.IH show ?thesis
      by (fastforce split: if_splits sum.splits)
  qed simp
qed simp

lemma collect_prefix_Inr_while:
  "\<forall>x \<in> set (takeWhile (\<lambda>x. prefix p (fst x)) es). decode c (snd x) = Inr (f x) \<Longrightarrow>
     collect_prefix c p (map Inr es) = Inr (map f (takeWhile (\<lambda>x. prefix p (fst x)) es))"
proof (induction es)
  case (Cons e es)
  obtain k v where e: "e = (k, v)" by fastforce
  show ?case
  proof (cases "prefix p k")
    case True
    with Cons e have "decode c v = Inr (f e)"
      and "\<forall>x \<in> set (takeWhile (\<lambda>x. prefix p (fst x)) es). decode c (snd x) = Inr (f x)"
      by auto
    with Cons.IH True e show ?thesis by (simp add: starts_with_def)
  qed (simp add: e starts_with_def)
qed simp

context metadata_env
begin

text \<open>What a completed scan has seen: exactly the entries under the prefix, in key order.\<close>

lemma scan_prefix_result:
  assumes "scan_prefix p (db_prefix_iterator E d cf p) = Inr es"
  shows "es = entries_with_prefix (contents d cf) p"
proof -
  from iter_law [of d cf p] obtain n e where
    "db_prefix_iterator E d cf p = map Inr (entries_from (contents d cf) p)
     \<or> db_prefix_iterator E d cf p = map Inr (take n (entries_from (contents d cf) p)) @ [Inl e]"
    by blast
  with assms have "es = takeWhile (\<lambda>x. prefix p (fst x)) (entries_from (contents d cf) p)"
    by (auto dest: scan_prefix_truncated)
  then show ?thesis by (simp add: takeWhile_entries finite_contents)
qed

lemma collect_prefix_result:
  assumes "collect_prefix c p (db_prefix_iterator E d cf p) = Inr ts"
  shows "map (\<lambda>x. decode c (snd x)) (entries_with_prefix (contents d cf) p) = map Inr ts"
  using collect_prefix_scan [OF assms] scan_prefix_result by blast

lemmas codec_laws =
  codec_okD [OF bucket_codec_ok] codec_okD [OF object_codec_ok]
  codec_okD [OF multipart_codec_ok] codec_okD [OF part_codec_ok] codec_okD [OF lock_codec_ok]

end

context reliable_env
begin

lemma get_eq: "db_get E d cf k = Inr (contents d cf k)"
  using get_ok [of d cf k] get_law by metis

lemma collect_prefix_eq:
  assumes "\<forall>x \<in> set (entries_with_prefix (contents d cf) p). decode c (snd x) = Inr (f x)"
  shows "collect_prefix c p (db_prefix_iterator E d cf p)
    = Inr (map f (entries_with_prefix (contents d cf) p))"
  using assms collect_prefix_Inr_while [of p "entries_from (contents d cf) p" c f]
  by (simp add: iter_ok takeWhile_entries finite_contents)

lemma scan_prefix_eq:
  "scan_prefix p (db_prefix_iterator E d cf p) = Inr (entries_with_prefix (contents d cf) p)"
  by (simp add: iter_ok takeWhile_entries finite_contents)

end

section \<open>An in-memory store\<close>

datatype mem_value =
    VBucket Bucket
  | VObject ObjectMetadata
  | VMultipart MultipartMetadata
  | VPart MultipartPart
  | VLock LockState
  | VLogId LogId
  | VVote nat
  | VMembership "nat StoredMembership"
  | VEntry "nat Entry"
  | VMeta "nat SnapshotMeta"
  | VArchive "(string \<times> (string \<times> mem_value)) list"

type_synonym mem_db = "(string \<times> (string \<times> mem_value)) list"

definition mem_cf :: "mem_db \<Rightarrow> string \<Rightarrow> (string \<times> mem_value) list" where
  "mem_cf d cf = map snd (filter (\<lambda>x. fst x = cf) d)"

definition mem_contents :: "mem_db \<Rightarrow> string \<Rightarrow> string \<rightharpoonup> mem_value" where
  "mem_contents d cf = map_of (mem_cf d cf)"

definition mem_keys :: "mem_db \<Rightarrow> string \<Rightarrow> string \<Rightarrow> string list" where
  "mem_keys d cf p = sort (remdups (filter (\<lambda>k. p \<le> k) (map fst (mem_cf d cf))))"

definition mem_env :: "(mem_db, mem_value) env" where
  "mem_env =
     \<lparr>db_has_cf = (\<lambda>d cf. True),
      db_get = (\<lambda>d cf k. Inr (mem_contents d cf k)),
      db_put = (\<lambda>d cf k v. Inr ((cf, (k, v)) # d)),
      db_delete = (\<lambda>d cf k. Inr (filter (\<lambda>x. fst x = cf \<longrightarrow> fst (snd x) \<noteq> k) d)),
      db_prefix_iterator = (\<lambda>d cf p.
        map (\<lambda>k. Inr (k, the (mem_contents d cf k))) (mem_keys d cf p)),
      bucket_codec = \<lparr>encode = Inr \<circ> VBucket,
        decode = (\<lambda>v. case v of VBucket b \<Rightarrow> Inr b | _ \<Rightarrow> Inl ''invalid'')\<rparr>,
      object_codec = \<lparr>encode = Inr \<circ> VObject,
        decode = (\<lambda>v. case v of VObject b \<Rightarrow> Inr b | _ \<Rightarrow> Inl ''invalid'')\<rparr>,
      multipart_codec = \<lparr>encode = Inr \<circ> VMultipart,
        decode = (\<lambda>v. case v of VMultipart b \<Rightarrow> Inr b | _ \<Rightarrow> Inl ''invalid'')\<rparr>,
      part_codec = \<lparr>encode = Inr \<circ> VPart,
        decode = (\<lambda>v. case v of VPart b \<Rightarrow> Inr b | _ \<Rightarrow> Inl ''invalid'')\<rparr>,
      lock_codec = \<lparr>encode = Inr \<circ> VLock,
        decode = (\<lambda>v. case v of VLock b \<Rightarrow> Inr b | _ \<Rightarrow> Inl ''invalid'')\<rparr>\<rparr>"

lemma mem_contents_put:
  "mem_contents ((cf, (k, v)) # d) = (mem_contents d)(cf := (mem_contents d cf)(k \<mapsto> v))"
  by (auto simp: mem_contents_def mem_cf_def fun_eq_iff)

lemma map_of_filter_key:
  "map_of (filter (\<lambda>x. fst x \<noteq> k) xs) = (map_of xs)(k := None)"
  by (induction xs) (auto simp: fun_eq_iff)

lemma mem_contents_delete:
  "mem_contents (filter (\<lambda>x. fst x = cf \<longrightarrow> fst (snd x) \<noteq> k) d)
     = (mem_contents d)(cf := (mem_contents d cf)(k := None))"
proof (rule ext)
  fix cf'
  have "mem_cf (filter (\<lambda>x. fst x = cf \<longrightarrow> fst (snd x) \<noteq> k) d) cf'
      = (if cf' = cf then filter (\<lambda>x. fst x \<noteq> k) (mem_cf d cf) else mem_cf d cf')"
    by (induction d) (auto simp: mem_cf_def)
  then show "mem_contents (filter (\<lambda>x. fst x = cf \<longrightarrow> fst (snd x) \<noteq> k) d) cf'
      = ((mem_contents d)(cf := (mem_contents d cf)(k := None))) cf'"
    by (simp add: mem_contents_def map_of_filter_key)
qed

lemma mem_iter:
  "map (\<lambda>k. Inr (k, the (mem_contents d cf k))) (mem_keys d cf p)
     = map Inr (entries_from (mem_contents d cf) p)"
proof -
  have dom: "dom (mem_contents d cf) = set (map fst (mem_cf d cf))"
    by (simp add: mem_contents_def dom_map_of_conv_image_fst)
  have "mem_keys d cf p = sorted_list_of_set {k \<in> dom (mem_contents d cf). p \<le> k}"
    unfolding mem_keys_def dom
    by (rule sorted_distinct_set_unique) auto
  then show ?thesis by (simp add: entries_from_def)
qed

lemma finite_mem_contents: "finite (dom (mem_contents d cf))"
  by (simp add: mem_contents_def finite_dom_map_of)

interpretation mem: reliable_env mem_env mem_contents
  by unfold_locales
    (auto simp: mem_env_def mem_contents_put mem_contents_delete mem_iter codec_ok_def
      codec_total_def finite_mem_contents)

text \<open>The in-memory store meets both contracts, and starts empty.\<close>

lemmas mem_is_env = mem.metadata_env_axioms mem.reliable_env_axioms

definition mem_empty :: mem_db where "mem_empty = []"

lemmas mem_eval = mem_env_def mem_contents_def mem_cf_def mem_keys_def mem_empty_def

end
