(* ===== verification/Meta_Bucket.thy ===== *)
theory Meta_Bucket
  imports Meta_Env
begin

text \<open>
  Bucket metadata, \<open>crates/save-metadata/src/bucket.rs\<close>. An operation that may write takes the
  database state and returns its result together with the state it leaves; an operation that
  only reads returns its result. \<open>bucket_view\<close> is the abstraction of the store to a map from
  names to buckets, which the operations refine.
\<close>

section \<open>Operations\<close>

definition bucket_key :: "string \<Rightarrow> string" where
  "bucket_key name = ''bkt:'' @ name"

definition create_bucket ::
  "('d, 'v) env \<Rightarrow> instant \<Rightarrow> 'd \<Rightarrow> string \<Rightarrow> (MetadataError + Bucket) \<times> 'd" where
  "create_bucket E now d name =
     (case validate_bucket_name name of
        Inl e \<Rightarrow> (Inl (InvalidOperation (Error_to_string e)), d)
      | Inr _ \<Rightarrow>
        (let key = bucket_key name in
         case db_get E d CF_DEFAULT key of
           Inl e \<Rightarrow> (Inl (Database e), d)
         | Inr (Some _) \<Rightarrow> (Inl (BucketAlreadyExists name), d)
         | Inr None \<Rightarrow>
           (let bucket = Bucket_new now name in
            case encode (bucket_codec E) bucket of
              Inl e \<Rightarrow> (Inl (Encode e), d)
            | Inr val \<Rightarrow>
              (case db_put E d CF_DEFAULT key val of
                 Inl e \<Rightarrow> (Inl (Database e), d)
               | Inr d' \<Rightarrow> (Inr bucket, d')))))"

definition get_bucket :: "('d, 'v) env \<Rightarrow> 'd \<Rightarrow> string \<Rightarrow> MetadataError + Bucket" where
  "get_bucket E d name =
     (case validate_bucket_name name of
        Inl e \<Rightarrow> Inl (InvalidOperation (Error_to_string e))
      | Inr _ \<Rightarrow>
        (case db_get E d CF_DEFAULT (bucket_key name) of
           Inl e \<Rightarrow> Inl (Database e)
         | Inr (Some val) \<Rightarrow>
           (case decode (bucket_codec E) val of
              Inl e \<Rightarrow> Inl (Decode e)
            | Inr bucket \<Rightarrow> Inr bucket)
         | Inr None \<Rightarrow> Inl (BucketNotFound name)))"

definition delete_bucket ::
  "('d, 'v) env \<Rightarrow> 'd \<Rightarrow> string \<Rightarrow> (MetadataError + unit) \<times> 'd" where
  "delete_bucket E d name =
     (case validate_bucket_name name of
        Inl e \<Rightarrow> (Inl (InvalidOperation (Error_to_string e)), d)
      | Inr _ \<Rightarrow>
        (case db_delete E d CF_DEFAULT (bucket_key name) of
           Inl e \<Rightarrow> (Inl (Database e), d)
         | Inr d' \<Rightarrow> (Inr (), d')))"

definition list_buckets :: "('d, 'v) env \<Rightarrow> 'd \<Rightarrow> MetadataError + Bucket list" where
  "list_buckets E d =
     collect_prefix (bucket_codec E) ''bkt:'' (db_prefix_iterator E d CF_DEFAULT ''bkt:'')"

section \<open>The abstract map of buckets\<close>

definition bucket_view :: "('d, 'v) env \<Rightarrow> (string \<rightharpoonup> 'v) \<Rightarrow> string \<rightharpoonup> Bucket" where
  "bucket_view E m name =
     (case m (bucket_key name) of
        None \<Rightarrow> None
      | Some v \<Rightarrow> (case decode (bucket_codec E) v of Inl _ \<Rightarrow> None | Inr b \<Rightarrow> Some b))"

text \<open>
  The bucket entries are well formed: each decodes to a bucket that carries the name in its key,
  and that name is valid.
\<close>

definition buckets_wf :: "('d, 'v) env \<Rightarrow> (string \<rightharpoonup> 'v) \<Rightarrow> bool" where
  "buckets_wf E m \<longleftrightarrow>
     (\<forall>name v. m (bucket_key name) = Some v \<longrightarrow>
        valid_bucket name \<and> (\<exists>b. decode (bucket_codec E) v = Inr b \<and> bkt_name b = name))"

lemma bucket_key_inject [key_inj, simp]: "bucket_key a = bucket_key b \<longleftrightarrow> a = b"
  by (simp add: bucket_key_def)

lemma bucket_key_prefix: "prefix ''bkt:'' k \<longleftrightarrow> (\<exists>name. k = bucket_key name)"
  by (auto simp: bucket_key_def prefix_def)

lemma bucket_view_cong: "(\<And>n. m (bucket_key n) = m' (bucket_key n)) \<Longrightarrow> bucket_view E m = bucket_view E m'"
  by (simp add: fun_eq_iff bucket_view_def)

lemma buckets_wf_cong: "(\<And>n. m (bucket_key n) = m' (bucket_key n)) \<Longrightarrow> buckets_wf E m = buckets_wf E m'"
  by (simp add: buckets_wf_def)

lemma buckets_wf_view: "buckets_wf E m \<Longrightarrow> bucket_view E m n = Some b \<Longrightarrow> bkt_name b = n \<and> valid_bucket n"
  by (fastforce simp: buckets_wf_def bucket_view_def split: option.splits sum.splits)

lemma buckets_wf_dom: "buckets_wf E m \<Longrightarrow> m (bucket_key n) = Some v \<Longrightarrow> bucket_view E m n \<noteq> None"
  by (fastforce simp: buckets_wf_def bucket_view_def)

section \<open>Behaviour of the operations\<close>

text \<open>The only outcomes of an unsuccessful operation leave the state as it was.\<close>

lemma create_bucket_err: "create_bucket E now d name = (Inl e, d') \<Longrightarrow> d' = d"
  by (auto simp: create_bucket_def Let_def split: sum.splits option.splits)

lemma delete_bucket_err: "delete_bucket E d name = (Inl e, d') \<Longrightarrow> d' = d"
  by (auto simp: delete_bucket_def split: sum.splits)

context metadata_env
begin

abbreviation "buckets d \<equiv> bucket_view E (contents d CF_DEFAULT)"

lemma create_bucket_ok:
  assumes "create_bucket E now d name = (Inr b, d')"
  shows "valid_bucket name \<and> b = Bucket_new now name \<and> contents d CF_DEFAULT (bucket_key name) = None
    \<and> (\<exists>v. encode (bucket_codec E) b = Inr v
        \<and> contents d' = (contents d)(CF_DEFAULT := (contents d CF_DEFAULT)(bucket_key name \<mapsto> v)))"
  using assms
  by (auto simp: create_bucket_def Let_def dest: get_law put_law
      split: sum.splits option.splits)

lemma create_bucket_view:
  assumes "create_bucket E now d name = (Inr b, d')"
  shows "buckets d' = (buckets d)(name \<mapsto> b)"
  using create_bucket_ok [OF assms]
  by (auto simp: bucket_view_def fun_eq_iff codec_laws split: option.splits)

lemma create_bucket_exists:
  assumes "create_bucket E now d name = (Inl (BucketAlreadyExists n), d')"
  shows "n = name \<and> contents d CF_DEFAULT (bucket_key name) \<noteq> None"
  using assms
  by (auto simp: create_bucket_def Let_def dest!: get_law split: sum.splits option.splits)

lemma create_bucket_wf:
  assumes "buckets_wf E (contents d CF_DEFAULT)" and "create_bucket E now d name = (r, d')"
  shows "buckets_wf E (contents d' CF_DEFAULT)"
proof (cases r)
  case (Inl e)
  with assms show ?thesis by (auto dest: create_bucket_err)
next
  case (Inr b)
  with assms create_bucket_ok [of now d name b d'] show ?thesis
    by (auto simp: buckets_wf_def codec_laws Bucket_new_def split: if_splits)
qed

lemma get_bucket_ok:
  assumes "get_bucket E d name = Inr b"
  shows "valid_bucket name \<and> buckets d name = Some b"
  using assms
  by (auto simp: get_bucket_def bucket_view_def dest!: get_law split: sum.splits option.splits)

lemma get_bucket_not_found:
  assumes "get_bucket E d name = Inl (BucketNotFound n)"
  shows "n = name \<and> buckets d name = None"
  using assms
  by (auto simp: get_bucket_def bucket_view_def dest!: get_law split: sum.splits option.splits)

lemma delete_bucket_ok:
  assumes "delete_bucket E d name = (Inr u, d')"
  shows "valid_bucket name
    \<and> contents d' = (contents d)(CF_DEFAULT := (contents d CF_DEFAULT)(bucket_key name := None))"
  using assms by (auto simp: delete_bucket_def dest: delete_law split: sum.splits)

lemma delete_bucket_view:
  assumes "delete_bucket E d name = (Inr u, d')"
  shows "buckets d' = (buckets d)(name := None)"
  using delete_bucket_ok [OF assms] by (auto simp: bucket_view_def fun_eq_iff)

lemma delete_bucket_wf:
  assumes "buckets_wf E (contents d CF_DEFAULT)" and "delete_bucket E d name = (r, d')"
  shows "buckets_wf E (contents d' CF_DEFAULT)"
proof (cases r)
  case (Inl e)
  with assms show ?thesis by (auto dest: delete_bucket_err)
next
  case (Inr u)
  with assms delete_bucket_ok [of d name u d'] show ?thesis
    by (auto simp: buckets_wf_def)
qed

text \<open>Listing: every bucket of a well-formed store once, in the order of the names.\<close>

lemma bucket_entries_names:
  assumes "buckets_wf E m" and fin: "finite (dom m)"
    and dec: "map (\<lambda>x. decode (bucket_codec E) (snd x)) (entries_with_prefix m ''bkt:'') = map Inr bs"
  shows "map bucket_key (map bkt_name bs) = map fst (entries_with_prefix m ''bkt:'')"
proof -
  let ?es = "entries_with_prefix m ''bkt:''"
  have len: "length bs = length ?es" using dec by (metis length_map)
  show ?thesis
  proof (rule nth_equalityI)
    fix i assume "i < length (map bucket_key (map bkt_name bs))"
    then have i: "i < length ?es" using len by simp
    obtain k v where kv: "?es ! i = (k, v)" by fastforce
    with i have "(k, v) \<in> set ?es" by (metis nth_mem)
    then have mk: "m k = Some v" and "prefix ''bkt:'' k"
      using set_entries_with_prefix [OF fin] by auto
    then obtain name where k: "k = bucket_key name" using bucket_key_prefix by blast
    have "decode (bucket_codec E) v = Inr (bs ! i)"
      using dec i len kv by (metis (no_types, lifting) nth_map snd_conv)
    with assms(1) mk k have "bkt_name (bs ! i) = name" by (fastforce simp: buckets_wf_def)
    with i len kv k show "map bucket_key (map bkt_name bs) ! i = map fst ?es ! i" by simp
  qed (use len in simp)
qed

lemma bucket_key_mono: "sorted (map bucket_key ns) \<Longrightarrow> sorted ns"
  by (induction ns) (auto simp: bucket_key_def)

lemma list_buckets_ok:
  assumes wf: "buckets_wf E (contents d CF_DEFAULT)" and ok: "list_buckets E d = Inr bs"
  shows "sorted (map bkt_name bs) \<and> distinct (map bkt_name bs)
    \<and> (\<forall>b. b \<in> set bs \<longleftrightarrow> buckets d (bkt_name b) = Some b)"
proof (intro conjI allI)
  let ?m = "contents d CF_DEFAULT"
  let ?es = "entries_with_prefix ?m ''bkt:''"
  have dec: "map (\<lambda>x. decode (bucket_codec E) (snd x)) ?es = map Inr bs"
    using ok collect_prefix_result by (simp add: list_buckets_def)
  note names = bucket_entries_names [OF wf finite_contents dec]
  show "sorted (map bkt_name bs)"
    using entries_with_prefix_sorted [of ?m "''bkt:''"] names bucket_key_mono by metis
  show "distinct (map bkt_name bs)"
    using entries_with_prefix_distinct [of ?m "''bkt:''"] names by (metis distinct_map)
  fix b
  show "b \<in> set bs \<longleftrightarrow> buckets d (bkt_name b) = Some b"
  proof
    assume "b \<in> set bs"
    then obtain i where i: "i < length bs" "bs ! i = b" by (auto simp: in_set_conv_nth)
    have len: "length bs = length ?es" using dec by (metis length_map)
    have "fst (?es ! i) = bucket_key (bkt_name b)"
      using names i len by (metis length_map nth_map)
    moreover have "?es ! i \<in> set ?es" using i len by simp
    moreover have "decode (bucket_codec E) (snd (?es ! i)) = Inr b"
      using dec i len by (metis (no_types, lifting) nth_map)
    ultimately show "buckets d (bkt_name b) = Some b"
      using set_entries_with_prefix [OF finite_contents, of d CF_DEFAULT "''bkt:''"]
      by (cases "?es ! i") (auto simp: bucket_view_def)
  next
    assume "buckets d (bkt_name b) = Some b"
    then obtain v where v: "?m (bucket_key (bkt_name b)) = Some v"
        "decode (bucket_codec E) v = Inr b"
      by (auto simp: bucket_view_def split: option.splits sum.splits)
    then have "(bucket_key (bkt_name b), v) \<in> set ?es"
      using set_entries_with_prefix [OF finite_contents] by (auto simp: bucket_key_def)
    then have "Inr b \<in> set (map (\<lambda>x. decode (bucket_codec E) (snd x)) ?es)"
      using v(2) by force
    then show "b \<in> set bs" using dec by auto
  qed
qed

end

context reliable_env
begin

lemma create_bucket_fresh:
  assumes "valid_bucket name" and "contents d CF_DEFAULT (bucket_key name) = None"
  shows "\<exists>d'. create_bucket E now d name = (Inr (Bucket_new now name), d')"
proof -
  obtain v where v: "encode (bucket_codec E) (Bucket_new now name) = Inr v"
    using bucket_codec_total by (auto simp: codec_total_def)
  obtain d' where "db_put E d CF_DEFAULT (bucket_key name) v = Inr d'" using put_ok by blast
  with v assms show ?thesis by (simp add: create_bucket_def get_eq)
qed

lemma create_bucket_taken:
  assumes "valid_bucket name" and "contents d CF_DEFAULT (bucket_key name) \<noteq> None"
  shows "create_bucket E now d name = (Inl (BucketAlreadyExists name), d)"
  using assms by (auto simp: create_bucket_def get_eq)

lemma get_bucket_eq:
  assumes "valid_bucket name" and "buckets d name = Some b"
  shows "get_bucket E d name = Inr b"
  using assms
  by (auto simp: get_bucket_def get_eq bucket_view_def split: option.splits sum.splits)

lemma delete_bucket_total:
  assumes "valid_bucket name"
  shows "\<exists>d'. delete_bucket E d name = (Inr (), d')"
  using assms delete_ok [of d CF_DEFAULT "bucket_key name"] by (auto simp: delete_bucket_def)

lemma list_buckets_total:
  assumes wf: "buckets_wf E (contents d CF_DEFAULT)"
  shows "\<exists>bs. list_buckets E d = Inr bs"
proof -
  have "\<forall>x \<in> set (entries_with_prefix (contents d CF_DEFAULT) ''bkt:'').
      \<exists>b. decode (bucket_codec E) (snd x) = Inr b"
    using wf set_entries_with_prefix [OF finite_contents, of d CF_DEFAULT "''bkt:''"]
    by (fastforce simp: buckets_wf_def bucket_key_prefix)
  then obtain f where "\<forall>x \<in> set (entries_with_prefix (contents d CF_DEFAULT) ''bkt:'').
      decode (bucket_codec E) (snd x) = Inr (f x)" by metis
  from collect_prefix_eq [OF this] show ?thesis by (auto simp: list_buckets_def)
qed

end

section \<open>Properties\<close>

text \<open>
  Creating a bucket with a valid, unused name succeeds; reading it back yields the bucket with
  the time of its creation, every other bucket is as before, and creating it once more reports that
  it exists and leaves the store alone.
\<close>

theorem create_bucket_get:
  assumes "reliable_env E contents" and "valid_bucket name"
    and "contents d CF_DEFAULT (bucket_key name) = None"
  shows "\<exists>d'. create_bucket E now d name = (Inr (Bucket_new now name), d')
    \<and> get_bucket E d' name = Inr (Bucket_new now name)
    \<and> (\<forall>n. n \<noteq> name \<longrightarrow>
          bucket_view E (contents d' CF_DEFAULT) n = bucket_view E (contents d CF_DEFAULT) n)
    \<and> create_bucket E later d' name = (Inl (BucketAlreadyExists name), d')"
proof -
  have env: "metadata_env E contents" using assms(1) by (simp add: reliable_env_def)
  obtain d' where c: "create_bucket E now d name = (Inr (Bucket_new now name), d')"
    using reliable_env.create_bucket_fresh [OF assms] by blast
  have "contents d' CF_DEFAULT (bucket_key name) \<noteq> None"
    using metadata_env.create_bucket_ok [OF env c] by auto
  with c assms metadata_env.create_bucket_view [OF env c] show ?thesis
    by (auto intro!: reliable_env.get_bucket_eq reliable_env.create_bucket_taken)
qed

theorem create_bucket_get_witness:
  "\<exists>d'. create_bucket mem_env 7 mem_empty ''photos'' = (Inr (Bucket_new 7 ''photos''), d')
    \<and> get_bucket mem_env d' ''photos'' = Inr (Bucket_new 7 ''photos'')
    \<and> create_bucket mem_env 9 d' ''photos'' = (Inl (BucketAlreadyExists ''photos''), d')"
proof -
  have v: "valid_bucket ''photos''" by code_simp
  have f: "mem_contents mem_empty CF_DEFAULT (bucket_key ''photos'') = None" by code_simp
  from create_bucket_get [OF mem_is_env(2), OF v f, of 7 9] show ?thesis by blast
qed

text \<open>
  Over a well-formed store the listing of buckets succeeds and holds every stored bucket once,
  in the byte order of the names, and nothing else.
\<close>

theorem list_buckets_exact:
  assumes "reliable_env E contents" and "buckets_wf E (contents d CF_DEFAULT)"
  shows "\<exists>bs. list_buckets E d = Inr bs \<and> sorted (map bkt_name bs) \<and> distinct (map bkt_name bs)
    \<and> (\<forall>b. b \<in> set bs \<longleftrightarrow> bucket_view E (contents d CF_DEFAULT) (bkt_name b) = Some b)"
proof -
  have env: "metadata_env E contents" using assms(1) by (simp add: reliable_env_def)
  show ?thesis
    using reliable_env.list_buckets_total [OF assms] metadata_env.list_buckets_ok [OF env assms(2)]
    by blast
qed

theorem list_buckets_exact_witness:
  "let d = [(CF_DEFAULT, (bucket_key ''zoo'', VBucket (Bucket_new 2 ''zoo''))),
            (CF_DEFAULT, (bucket_key ''ant'', VBucket (Bucket_new 1 ''ant'')))]
   in \<exists>bs. list_buckets mem_env d = Inr bs \<and> sorted (map bkt_name bs)
        \<and> Bucket_new 1 ''ant'' \<in> set bs \<and> Bucket_new 2 ''zoo'' \<in> set bs"
proof -
  let ?d = "[(CF_DEFAULT, (bucket_key ''zoo'', VBucket (Bucket_new 2 ''zoo''))),
            (CF_DEFAULT, (bucket_key ''ant'', VBucket (Bucket_new 1 ''ant'')))]"
  have "valid_bucket ''zoo''" "valid_bucket ''ant''" by code_simp+
  then have wf: "buckets_wf mem_env (mem_contents ?d CF_DEFAULT)"
    by (auto simp: buckets_wf_def mem_eval Bucket_new_def)
  from list_buckets_exact [OF mem_is_env(2), OF wf] show ?thesis
    unfolding Let_def by (auto simp: bucket_view_def mem_eval Bucket_new_def)
qed

end
