(* ===== verification/Meta_Object.thy ===== *)
theory Meta_Object
  imports Meta_Bucket
begin

text \<open>
  Object metadata, \<open>crates/save-metadata/src/object.rs\<close>. \<open>object_view\<close> abstracts the store to a
  map from bucket and key to metadata. Since a valid bucket name holds no slash, the key under
  which an object is stored determines bucket and object key, and the entries of one bucket are
  contiguous in the key order; both facts carry the lemmas on listing.
\<close>

section \<open>Operations\<close>

definition object_db_key :: "string \<Rightarrow> string \<Rightarrow> string" where
  "object_db_key bucket key = ''obj:'' @ bucket @ ''/'' @ key"

definition prepare_metadata_write ::
  "('d, 'v) env \<Rightarrow> ObjectMetadata \<Rightarrow> MetadataError + (string \<times> 'v)" where
  "prepare_metadata_write E m =
     (case validate_object_key (obj_key m) of
        Inl e \<Rightarrow> Inl (InvalidOperation (Error_to_string e))
      | Inr _ \<Rightarrow>
        (let key = object_db_key (obj_bucket m) (obj_key m) in
         case encode (object_codec E) m of
           Inl e \<Rightarrow> Inl (Encode e)
         | Inr val \<Rightarrow> Inr (key, val)))"

definition put_object_metadata ::
  "('d, 'v) env \<Rightarrow> 'd \<Rightarrow> ObjectMetadata \<Rightarrow> (MetadataError + unit) \<times> 'd" where
  "put_object_metadata E d m =
     (case prepare_metadata_write E m of
        Inl e \<Rightarrow> (Inl e, d)
      | Inr (key, val) \<Rightarrow>
        (case db_put E d CF_DEFAULT key val of
           Inl e \<Rightarrow> (Inl (Database e), d)
         | Inr d' \<Rightarrow> (Inr (), d')))"

text \<open>
  A write batch is a list of puts that RocksDB applies as one write; this operation builds one of
  a single entry, so the batch write is the put of that entry. The \<open>sync\<close> option concerns
  durability across a crash and does not change the contents.
\<close>

definition commit_object_metadata ::
  "('d, 'v) env \<Rightarrow> 'd \<Rightarrow> ObjectMetadata \<Rightarrow> (MetadataError + unit) \<times> 'd" where
  "commit_object_metadata E d m =
     (case prepare_metadata_write E m of
        Inl e \<Rightarrow> (Inl e, d)
      | Inr (key, val) \<Rightarrow>
        (case db_put E d CF_DEFAULT key val of
           Inl e \<Rightarrow> (Inl (Database e), d)
         | Inr d' \<Rightarrow> (Inr (), d')))"

definition get_object_metadata ::
  "('d, 'v) env \<Rightarrow> 'd \<Rightarrow> string \<Rightarrow> string \<Rightarrow> MetadataError + ObjectMetadata" where
  "get_object_metadata E d bucket key =
     (case validate_object_key key of
        Inl e \<Rightarrow> Inl (InvalidOperation (Error_to_string e))
      | Inr _ \<Rightarrow>
        (case db_get E d CF_DEFAULT (object_db_key bucket key) of
           Inl e \<Rightarrow> Inl (Database e)
         | Inr (Some val) \<Rightarrow>
           (case decode (object_codec E) val of
              Inl e \<Rightarrow> Inl (Decode e)
            | Inr m \<Rightarrow> Inr m)
         | Inr None \<Rightarrow> Inl (ObjectNotFound bucket key)))"

definition delete_object_metadata ::
  "('d, 'v) env \<Rightarrow> 'd \<Rightarrow> string \<Rightarrow> string \<Rightarrow> (MetadataError + unit) \<times> 'd" where
  "delete_object_metadata E d bucket key =
     (case validate_object_key key of
        Inl e \<Rightarrow> (Inl (InvalidOperation (Error_to_string e)), d)
      | Inr _ \<Rightarrow>
        (case db_delete E d CF_DEFAULT (object_db_key bucket key) of
           Inl e \<Rightarrow> (Inl (Database e), d)
         | Inr d' \<Rightarrow> (Inr (), d')))"

definition list_objects ::
  "('d, 'v) env \<Rightarrow> 'd \<Rightarrow> string \<Rightarrow> string option \<Rightarrow> MetadataError + ObjectMetadata list" where
  "list_objects E d bucket pre =
     (let key_prefix =
        (case pre of
           Some p \<Rightarrow> ''obj:'' @ bucket @ ''/'' @ p
         | None \<Rightarrow> ''obj:'' @ bucket @ ''/'')
      in collect_prefix (object_codec E) key_prefix (db_prefix_iterator E d CF_DEFAULT key_prefix))"

section \<open>The abstract map of objects\<close>

definition object_view ::
  "('d, 'v) env \<Rightarrow> (string \<rightharpoonup> 'v) \<Rightarrow> (string \<times> string) \<rightharpoonup> ObjectMetadata" where
  "object_view E m bk =
     (case m (object_db_key (fst bk) (snd bk)) of
        None \<Rightarrow> None
      | Some v \<Rightarrow> (case decode (object_codec E) v of Inl _ \<Rightarrow> None | Inr x \<Rightarrow> Some x))"

text \<open>
  The object entries are well formed: every entry below the object prefix is stored under the
  key of the metadata it decodes to, with a bucket name free of slashes and a valid object key.
\<close>

definition objects_wf :: "('d, 'v) env \<Rightarrow> (string \<rightharpoonup> 'v) \<Rightarrow> bool" where
  "objects_wf E m \<longleftrightarrow>
     (\<forall>k v. m k = Some v \<longrightarrow> prefix ''obj:'' k \<longrightarrow>
        (\<exists>x. decode (object_codec E) v = Inr x \<and> k = object_db_key (obj_bucket x) (obj_key x)
           \<and> CHR ''/'' \<notin> set (obj_bucket x) \<and> valid_key (obj_key x)))"

lemma object_db_key_inject [key_inj]:
  assumes "CHR ''/'' \<notin> set b" and "CHR ''/'' \<notin> set b'"
  shows "object_db_key b k = object_db_key b' k' \<longleftrightarrow> b = b' \<and> k = k'"
  using sep_append_inject [OF assms] by (simp add: object_db_key_def)

lemma object_db_key_prefix_iff:
  assumes "CHR ''/'' \<notin> set b" and "CHR ''/'' \<notin> set b'"
  shows "prefix (object_db_key b p) (object_db_key b' k) \<longleftrightarrow> b = b' \<and> prefix p k"
  using prefix_sep_append [OF assms] by (simp add: object_db_key_def)

lemma object_db_key_prefix [simp]: "prefix ''obj:'' (object_db_key b k)"
  by (simp add: object_db_key_def)

lemma object_key_not_bucket_key [key_disj, simp]: "object_db_key b k \<noteq> bucket_key n"
  by (simp add: object_db_key_def bucket_key_def)

lemmas bucket_key_not_object_key [key_disj, simp] = object_key_not_bucket_key [symmetric]

lemma objects_wf_view:
  assumes "objects_wf E m" and "object_view E m (b, k) = Some x" and "CHR ''/'' \<notin> set b"
  shows "obj_bucket x = b \<and> obj_key x = k \<and> valid_key k"
proof -
  from assms(2) obtain v where v: "m (object_db_key b k) = Some v" "decode (object_codec E) v = Inr x"
    by (auto simp: object_view_def split: option.splits sum.splits)
  with assms(1) have "object_db_key b k = object_db_key (obj_bucket x) (obj_key x)"
    and "CHR ''/'' \<notin> set (obj_bucket x)" and "valid_key (obj_key x)"
    by (fastforce simp: objects_wf_def)+
  with assms(3) show ?thesis by (simp add: object_db_key_inject)
qed

lemma objects_wf_put:
  assumes "objects_wf E m" and "decode (object_codec E) v = Inr x"
    and "CHR ''/'' \<notin> set (obj_bucket x)" and "valid_key (obj_key x)"
  shows "objects_wf E (m(object_db_key (obj_bucket x) (obj_key x) \<mapsto> v))"
  using assms by (auto simp: objects_wf_def)

lemma objects_wf_delete: "objects_wf E m \<Longrightarrow> objects_wf E (m(k := None))"
  by (auto simp: objects_wf_def)

lemma objects_wf_other:
  "objects_wf E m \<Longrightarrow> \<not> prefix ''obj:'' k \<Longrightarrow> objects_wf E (m(k := v))"
  by (auto simp: objects_wf_def)

text \<open>The prefix of the object keys a listing selects.\<close>

definition list_prefix :: "string option \<Rightarrow> string" where
  "list_prefix pre = (case pre of Some p \<Rightarrow> p | None \<Rightarrow> [])"

section \<open>Behaviour of the operations\<close>

lemma put_object_metadata_err: "put_object_metadata E d m = (Inl e, d') \<Longrightarrow> d' = d"
  by (auto simp: put_object_metadata_def split: sum.splits)

lemma delete_object_metadata_err: "delete_object_metadata E d b k = (Inl e, d') \<Longrightarrow> d' = d"
  by (auto simp: delete_object_metadata_def split: sum.splits)

lemma commit_eq_put: "commit_object_metadata E d m = put_object_metadata E d m"
  by (simp add: commit_object_metadata_def put_object_metadata_def)

context metadata_env
begin

abbreviation "objects d \<equiv> object_view E (contents d CF_DEFAULT)"

lemma put_object_metadata_ok:
  assumes "put_object_metadata E d m = (Inr u, d')"
  shows "valid_key (obj_key m) \<and> (\<exists>v. encode (object_codec E) m = Inr v
    \<and> contents d' = (contents d)(CF_DEFAULT :=
        (contents d CF_DEFAULT)(object_db_key (obj_bucket m) (obj_key m) \<mapsto> v)))"
  using assms
  by (auto simp: put_object_metadata_def prepare_metadata_write_def Let_def dest: put_law
      split: sum.splits)

lemma put_object_metadata_view:
  assumes "put_object_metadata E d m = (Inr u, d')"
    and "CHR ''/'' \<notin> set (obj_bucket m)" and "CHR ''/'' \<notin> set b"
  shows "objects d' (b, k) =
    (if (b, k) = (obj_bucket m, obj_key m) then Some m else objects d (b, k))"
  using put_object_metadata_ok [OF assms(1)] assms(2,3)
  by (auto simp: object_view_def codec_laws object_db_key_inject)

lemma put_object_metadata_buckets:
  assumes "put_object_metadata E d m = (r, d')"
  shows "bucket_view E (contents d' CF_DEFAULT) = bucket_view E (contents d CF_DEFAULT)"
proof (cases r)
  case (Inr u)
  with assms put_object_metadata_ok [of d m u d'] show ?thesis
    by (auto intro: bucket_view_cong)
qed (use assms in \<open>auto dest: put_object_metadata_err\<close>)

lemma get_object_metadata_ok:
  "get_object_metadata E d b k = Inr x \<Longrightarrow> valid_key k \<and> objects d (b, k) = Some x"
  by (auto simp: get_object_metadata_def object_view_def dest!: get_law
      split: sum.splits option.splits)

lemma get_object_metadata_not_found:
  "get_object_metadata E d b k = Inl (ObjectNotFound b' k') \<Longrightarrow>
     b' = b \<and> k' = k \<and> objects d (b, k) = None"
  by (auto simp: get_object_metadata_def object_view_def dest!: get_law
      split: sum.splits option.splits)

lemma delete_object_metadata_ok:
  assumes "delete_object_metadata E d b k = (Inr u, d')"
  shows "valid_key k
    \<and> contents d' = (contents d)(CF_DEFAULT := (contents d CF_DEFAULT)(object_db_key b k := None))"
  using assms by (auto simp: delete_object_metadata_def dest: delete_law split: sum.splits)

lemma delete_object_metadata_view:
  assumes "delete_object_metadata E d b k = (Inr u, d')"
    and "CHR ''/'' \<notin> set b" and "CHR ''/'' \<notin> set b'"
  shows "objects d' (b', k') = (if (b', k') = (b, k) then None else objects d (b', k'))"
  using delete_object_metadata_ok [OF assms(1)] assms(2,3)
  by (auto simp: object_view_def object_db_key_inject)

text \<open>The entries a listing visits are the objects of the bucket whose keys have the prefix.\<close>

lemma list_objects_unfold:
  "list_objects E d b pre = collect_prefix (object_codec E) (object_db_key b (list_prefix pre))
     (db_prefix_iterator E d CF_DEFAULT (object_db_key b (list_prefix pre)))"
  by (simp add: list_objects_def list_prefix_def object_db_key_def Let_def split: option.splits)

lemma list_objects_keys:
  assumes wf: "objects_wf E (contents d CF_DEFAULT)" and b: "CHR ''/'' \<notin> set b"
    and ok: "list_objects E d b pre = Inr xs"
  shows "map (\<lambda>x. object_db_key b (obj_key x)) xs
      = map fst (entries_with_prefix (contents d CF_DEFAULT) (object_db_key b (list_prefix pre)))
    \<and> (\<forall>x \<in> set xs. obj_bucket x = b)"
proof -
  let ?m = "contents d CF_DEFAULT" and ?p = "object_db_key b (list_prefix pre)"
  let ?es = "entries_with_prefix ?m ?p"
  have dec: "map (\<lambda>x. decode (object_codec E) (snd x)) ?es = map Inr xs"
    using ok by (auto simp: list_objects_unfold dest: collect_prefix_result)
  have len: "length xs = length ?es" using dec by (metis length_map)
  have step: "object_db_key b (obj_key (xs ! i)) = fst (?es ! i) \<and> obj_bucket (xs ! i) = b"
    if i: "i < length xs" for i
  proof -
    obtain k v where kv: "?es ! i = (k, v)" by fastforce
    with i len have "(k, v) \<in> set ?es" by (metis nth_mem)
    then have mk: "?m k = Some v" and pk: "prefix ?p k"
      using set_entries_with_prefix [OF finite_contents] by auto
    have "prefix ''obj:'' k" using pk object_db_key_prefix prefix_order.trans by blast
    moreover have d: "decode (object_codec E) v = Inr (xs ! i)"
      using dec i len kv by (metis (no_types, lifting) nth_map snd_conv)
    ultimately have "k = object_db_key (obj_bucket (xs ! i)) (obj_key (xs ! i))"
      and "CHR ''/'' \<notin> set (obj_bucket (xs ! i))"
      using wf mk by (fastforce simp: objects_wf_def)+
    with pk b kv show ?thesis by (simp add: object_db_key_prefix_iff)
  qed
  have "map (\<lambda>x. object_db_key b (obj_key x)) xs = map fst ?es"
    by (rule nth_equalityI) (use step len in auto)
  moreover have "\<forall>x \<in> set xs. obj_bucket x = b" using step by (metis in_set_conv_nth)
  ultimately show ?thesis by blast
qed

lemma object_db_key_mono: "sorted (map (object_db_key b) ks) \<Longrightarrow> sorted ks"
proof (induction ks)
  case (Cons k ks)
  have "object_db_key b k \<le> object_db_key b k' \<Longrightarrow> k \<le> k'" for k'
    unfolding object_db_key_def by (induction b) auto
  with Cons show ?case by auto
qed simp

lemma list_objects_ok:
  assumes wf: "objects_wf E (contents d CF_DEFAULT)" and b: "CHR ''/'' \<notin> set b"
    and ok: "list_objects E d b pre = Inr xs"
  shows "sorted (map obj_key xs) \<and> distinct (map obj_key xs)
    \<and> (\<forall>x. x \<in> set xs \<longleftrightarrow> objects d (b, obj_key x) = Some x \<and> prefix (list_prefix pre) (obj_key x))"
proof (intro conjI allI)
  let ?m = "contents d CF_DEFAULT" and ?p = "object_db_key b (list_prefix pre)"
  let ?es = "entries_with_prefix ?m ?p"
  note fin = finite_contents [of d CF_DEFAULT]
  have keys: "map (object_db_key b) (map obj_key xs) = map fst ?es"
    and bs: "\<forall>x \<in> set xs. obj_bucket x = b"
    using list_objects_keys [OF wf b ok] by (simp_all add: comp_def)
  show "sorted (map obj_key xs)"
    using entries_with_prefix_sorted [of ?m ?p] keys object_db_key_mono by metis
  show "distinct (map obj_key xs)"
    using entries_with_prefix_distinct [of ?m ?p] keys by (metis distinct_map)
  have dec: "map (\<lambda>x. decode (object_codec E) (snd x)) ?es = map Inr xs"
    using ok by (auto simp: list_objects_unfold dest: collect_prefix_result)
  fix x
  show "x \<in> set xs \<longleftrightarrow> objects d (b, obj_key x) = Some x \<and> prefix (list_prefix pre) (obj_key x)"
  proof
    assume "x \<in> set xs"
    then obtain i where i: "i < length xs" "xs ! i = x" by (auto simp: in_set_conv_nth)
    have len: "length xs = length ?es" using dec by (metis length_map)
    have "fst (?es ! i) = object_db_key b (obj_key x)" using keys i len by (metis length_map nth_map)
    moreover have "?es ! i \<in> set ?es" using i len by simp
    moreover have "decode (object_codec E) (snd (?es ! i)) = Inr x"
      using dec i len by (metis (no_types, lifting) nth_map)
    ultimately show "objects d (b, obj_key x) = Some x \<and> prefix (list_prefix pre) (obj_key x)"
      using set_entries_with_prefix [OF fin, of ?p] b
      by (cases "?es ! i") (auto simp: object_view_def object_db_key_prefix_iff)
  next
    assume x: "objects d (b, obj_key x) = Some x \<and> prefix (list_prefix pre) (obj_key x)"
    then obtain v where v: "?m (object_db_key b (obj_key x)) = Some v"
        "decode (object_codec E) v = Inr x"
      by (auto simp: object_view_def split: option.splits sum.splits)
    with x b have "(object_db_key b (obj_key x), v) \<in> set ?es"
      using set_entries_with_prefix [OF fin, of ?p] by (auto simp: object_db_key_prefix_iff)
    then have "Inr x \<in> set (map (\<lambda>x. decode (object_codec E) (snd x)) ?es)" using v(2) by force
    then show "x \<in> set xs" using dec by auto
  qed
qed

end

context reliable_env
begin

lemma put_object_metadata_total:
  assumes "valid_key (obj_key m)"
  shows "\<exists>d'. put_object_metadata E d m = (Inr (), d')"
proof -
  obtain v where v: "encode (object_codec E) m = Inr v"
    using object_codec_total by (auto simp: codec_total_def)
  obtain d' where "db_put E d CF_DEFAULT (object_db_key (obj_bucket m) (obj_key m)) v = Inr d'"
    using put_ok by blast
  with v assms show ?thesis by (simp add: put_object_metadata_def prepare_metadata_write_def)
qed

lemma get_object_metadata_eq:
  assumes "valid_key k" and "objects d (b, k) = Some x"
  shows "get_object_metadata E d b k = Inr x"
  using assms
  by (auto simp: get_object_metadata_def get_eq object_view_def split: option.splits sum.splits)

lemma list_objects_total:
  assumes wf: "objects_wf E (contents d CF_DEFAULT)"
  shows "\<exists>xs. list_objects E d b pre = Inr xs"
proof -
  let ?p = "object_db_key b (list_prefix pre)"
  have "\<forall>x \<in> set (entries_with_prefix (contents d CF_DEFAULT) ?p).
      \<exists>y. decode (object_codec E) (snd x) = Inr y"
  proof
    fix x assume x: "x \<in> set (entries_with_prefix (contents d CF_DEFAULT) ?p)"
    obtain k v where kv: "x = (k, v)" by fastforce
    with x have k: "contents d CF_DEFAULT k = Some v" and p: "prefix ?p k"
      using set_entries_with_prefix [OF finite_contents, of d CF_DEFAULT ?p] by auto
    have "prefix ''obj:'' k" using p object_db_key_prefix prefix_order.trans by blast
    with k wf kv show "\<exists>y. decode (object_codec E) (snd x) = Inr y"
      by (auto simp: objects_wf_def)
  qed
  then obtain f where "\<forall>x \<in> set (entries_with_prefix (contents d CF_DEFAULT) ?p).
      decode (object_codec E) (snd x) = Inr (f x)" by metis
  from collect_prefix_eq [OF this] show ?thesis by (auto simp: list_objects_unfold)
qed

end

section \<open>Properties\<close>

text \<open>
  Storing the metadata of an object under a valid key succeeds, reading the object yields
  exactly what was stored, and every other object of every bucket reads as before.
\<close>

theorem put_get_object_metadata:
  assumes "reliable_env E contents" and "valid_key (obj_key m)" and "CHR ''/'' \<notin> set (obj_bucket m)"
  shows "\<exists>d'. put_object_metadata E d m = (Inr (), d')
    \<and> get_object_metadata E d' (obj_bucket m) (obj_key m) = Inr m
    \<and> (\<forall>b k. CHR ''/'' \<notin> set b \<longrightarrow> (b, k) \<noteq> (obj_bucket m, obj_key m) \<longrightarrow>
          get_object_metadata E d' b k = get_object_metadata E d b k)"
proof -
  have env: "metadata_env E contents" using assms(1) by (simp add: reliable_env_def)
  obtain d' where p: "put_object_metadata E d m = (Inr (), d')"
    using reliable_env.put_object_metadata_total [OF assms(1), of m d] assms(2) by blast
  have "object_view E (contents d' CF_DEFAULT) (obj_bucket m, obj_key m) = Some m"
    using metadata_env.put_object_metadata_view [OF env p assms(3) assms(3)] by simp
  then have "get_object_metadata E d' (obj_bucket m) (obj_key m) = Inr m"
    by (intro reliable_env.get_object_metadata_eq [OF assms(1)] assms(2))
  moreover have "get_object_metadata E d' b k = get_object_metadata E d b k"
    if "CHR ''/'' \<notin> set b" and "(b, k) \<noteq> (obj_bucket m, obj_key m)" for b k
  proof -
    have "object_db_key b k \<noteq> object_db_key (obj_bucket m) (obj_key m)"
      using that object_db_key_inject [OF that(1) assms(3)] by auto
    then have "contents d' CF_DEFAULT (object_db_key b k) = contents d CF_DEFAULT (object_db_key b k)"
      using metadata_env.put_object_metadata_ok [OF env p] by auto
    then have "db_get E d' CF_DEFAULT (object_db_key b k) = db_get E d CF_DEFAULT (object_db_key b k)"
      by (simp add: reliable_env.get_eq [OF assms(1)])
    then show ?thesis by (simp only: get_object_metadata_def)
  qed
  ultimately show ?thesis using p by blast
qed

theorem put_get_object_metadata_witness:
  "\<exists>d'. put_object_metadata mem_env mem_empty (ObjectMetadata_new 3 ''photos'' ''a/b.png'' 10 ''e1'') = (Inr (), d')
    \<and> get_object_metadata mem_env d' ''photos'' ''a/b.png''
        = Inr (ObjectMetadata_new 3 ''photos'' ''a/b.png'' 10 ''e1'')"
proof -
  let ?m = "ObjectMetadata_new 3 ''photos'' ''a/b.png'' 10 ''e1''"
  have m: "obj_key ?m = ''a/b.png''" "obj_bucket ?m = ''photos''" by (simp_all add: ObjectMetadata_new_def)
  have "valid_key ''a/b.png''" by code_simp
  then have v: "valid_key (obj_key ?m)" by (simp only: m)
  have s: "CHR ''/'' \<notin> set (obj_bucket ?m)" by (simp add: m)
  from put_get_object_metadata [OF mem_is_env(2), OF v s, of mem_empty] show ?thesis by (auto simp: m)
qed

text \<open>
  C19: Over a well-formed store a listing of a bucket succeeds and returns the objects of that
  bucket whose keys start with the requested prefix: each of them once, in key order, and no other.
\<close>

theorem list_objects_exact:
  assumes "reliable_env E contents" and "objects_wf E (contents d CF_DEFAULT)" and "CHR ''/'' \<notin> set b"
  shows "\<exists>xs. list_objects E d b pre = Inr xs \<and> sorted (map obj_key xs) \<and> distinct (map obj_key xs)
    \<and> (\<forall>x. x \<in> set xs \<longleftrightarrow> object_view E (contents d CF_DEFAULT) (b, obj_key x) = Some x
          \<and> prefix (list_prefix pre) (obj_key x))"
proof -
  have env: "metadata_env E contents" using assms(1) by (simp add: reliable_env_def)
  obtain xs where "list_objects E d b pre = Inr xs"
    using reliable_env.list_objects_total [OF assms(1,2)] by blast
  with metadata_env.list_objects_ok [OF env assms(2,3)] show ?thesis by blast
qed

theorem list_objects_exact_witness:
  "let o1 = ObjectMetadata_new 1 ''photos'' ''img/b'' 10 ''e1'';
       o2 = ObjectMetadata_new 2 ''photos'' ''txt'' 10 ''e1'';
       d = [(CF_DEFAULT, (''obj:photos/img/b'', VObject o1)), (CF_DEFAULT, (''obj:photos/txt'', VObject o2))]
   in \<exists>xs. list_objects mem_env d ''photos'' (Some ''img/'') = Inr xs \<and> o1 \<in> set xs \<and> o2 \<notin> set xs"
proof -
  let ?o1 = "ObjectMetadata_new 1 ''photos'' ''img/b'' 10 ''e1''"
  let ?o2 = "ObjectMetadata_new 2 ''photos'' ''txt'' 10 ''e1''"
  let ?d = "[(CF_DEFAULT, (''obj:photos/img/b'', VObject ?o1)), (CF_DEFAULT, (''obj:photos/txt'', VObject ?o2))]"
  have "valid_key ''img/b''" "valid_key ''txt''" by code_simp+
  then have wf: "objects_wf mem_env (mem_contents ?d CF_DEFAULT)"
    by (auto simp: objects_wf_def mem_eval ObjectMetadata_new_def object_db_key_def split: if_splits)
  have s: "CHR ''/'' \<notin> set ''photos''" by simp
  from list_objects_exact [OF mem_is_env(2), OF wf s, of "Some ''img/''"] show ?thesis
    unfolding Let_def
    by (auto simp: object_view_def mem_eval ObjectMetadata_new_def object_db_key_def list_prefix_def)
qed

end
