(* ===== verification/Lock_Protocol.thy ===== *)
theory Lock_Protocol
  imports Meta_Lock
begin

text \<open>
  Runs of the lock managers of all nodes over one replicated lock table. The commands of the
  replicated log are applied one after the other, so a run is a sequence of steps on one store.
  A node draws a fresh holder for a request (\<open>request\<close>), its acquire commands are applied
  (\<open>attempt\<close>, possibly several times, since the manager retries while the lock is refused), a
  manager may give up after its command was applied (\<open>orphan\<close>, the timeout), a guard is dropped
  (\<open>drop\<close>) and the release that dropping it spawns is applied later (\<open>release\<close>), and other
  commands change the store outside the lock table (\<open>other\<close>).

  The counter of a node is counted as a natural number below \<open>2 ^ 64\<close>: the relation describes runs
  in which no process asks for more locks than its counter has values and none is restarted.
  Without that assumption exclusion fails (\<open>reused_holder_breaks_exclusion\<close>).
\<close>

section \<open>States and steps\<close>

type_synonym lock_request = "string \<times> string \<times> LockType \<times> LockHolder"

record 'd lock_sys =
  sys_db :: 'd
  sys_counter :: "u64 \<Rightarrow> nat"
  sys_pending :: "lock_request set"
  sys_guards :: "lock_request set"
  sys_releasing :: "lock_request set"

definition same_locks :: "('d, 'v) env \<Rightarrow> (string \<rightharpoonup> 'v) \<Rightarrow> (string \<rightharpoonup> 'v) \<Rightarrow> bool" where
  "same_locks E m m' \<longleftrightarrow> lock_view E m = lock_view E m'"

inductive lock_step ::
  "('d, 'v) env \<Rightarrow> ('d \<Rightarrow> string \<Rightarrow> string \<rightharpoonup> 'v) \<Rightarrow> 'd lock_sys \<Rightarrow> 'd lock_sys \<Rightarrow> bool"
  for E contents where
  request: "CHR ''/'' \<notin> set b \<Longrightarrow> Suc (sys_counter s n) < 2 ^ 64 \<Longrightarrow>
    h = fst (next_holder n (of_nat (sys_counter s n))) \<Longrightarrow>
    lock_step E contents s
      (s\<lparr>sys_counter := (sys_counter s)(n := Suc (sys_counter s n)),
         sys_pending := insert (b, k, t, h) (sys_pending s)\<rparr>)"
| attempt: "(b, k, t, h) \<in> sys_pending s \<Longrightarrow>
    acquire_lock E (sys_db s) b k t h = (Inr granted, d') \<Longrightarrow>
    lock_step E contents s
      (if granted
       then s\<lparr>sys_db := d', sys_pending := sys_pending s - {(b, k, t, h)},
              sys_guards := insert (b, k, t, h) (sys_guards s)\<rparr>
       else s\<lparr>sys_db := d'\<rparr>)"
| orphan: "(b, k, t, h) \<in> sys_pending s \<Longrightarrow>
    acquire_lock E (sys_db s) b k t h = (r, d') \<Longrightarrow>
    lock_step E contents s
      (s\<lparr>sys_db := d', sys_pending := sys_pending s - {(b, k, t, h)}\<rparr>)"
| drop: "(b, k, t, h) \<in> sys_guards s \<Longrightarrow>
    lock_step E contents s
      (s\<lparr>sys_guards := sys_guards s - {(b, k, t, h)},
         sys_releasing := insert (b, k, t, h) (sys_releasing s)\<rparr>)"
| release: "(b, k, t, h) \<in> sys_releasing s \<Longrightarrow>
    release_lock E (sys_db s) b k h = (r, d') \<Longrightarrow>
    lock_step E contents s
      (s\<lparr>sys_db := d', sys_releasing := sys_releasing s - {(b, k, t, h)}\<rparr>)"
| other: "same_locks E (contents d' CF_DEFAULT) (contents (sys_db s) CF_DEFAULT) \<Longrightarrow>
    lock_step E contents s (s\<lparr>sys_db := d'\<rparr>)"

definition lock_init :: "('d, 'v) env \<Rightarrow> ('d \<Rightarrow> string \<Rightarrow> string \<rightharpoonup> 'v) \<Rightarrow> 'd lock_sys \<Rightarrow> bool" where
  "lock_init E contents s \<longleftrightarrow>
     lock_view E (contents (sys_db s) CF_DEFAULT) = Map.empty \<and> sys_counter s = (\<lambda>_. 0)
     \<and> sys_pending s = {} \<and> sys_guards s = {} \<and> sys_releasing s = {}"

inductive lock_reachable ::
  "('d, 'v) env \<Rightarrow> ('d \<Rightarrow> string \<Rightarrow> string \<rightharpoonup> 'v) \<Rightarrow> 'd lock_sys \<Rightarrow> bool"
  for E contents where
  init: "lock_init E contents s \<Longrightarrow> lock_reachable E contents s"
| step: "lock_reachable E contents s \<Longrightarrow> lock_step E contents s s' \<Longrightarrow> lock_reachable E contents s'"

section \<open>The invariant\<close>

text \<open>
  Requests carry the holder's place in its node's sequence; different requests have different
  holders; a holder still waiting is in no entry; a holder with a guard is in the entry of its
  object, and the entry has the type it asked for.
\<close>

definition req_holder :: "lock_request \<Rightarrow> LockHolder" where
  "req_holder r = snd (snd (snd r))"

definition active :: "'d lock_sys \<Rightarrow> lock_request set" where
  "active s = sys_pending s \<union> sys_guards s \<union> sys_releasing s"

definition issued :: "'d lock_sys \<Rightarrow> LockHolder \<Rightarrow> bool" where
  "issued s h \<longleftrightarrow> (\<exists>i < sys_counter s (lh_node_id h). lh_lock_id h = of_nat i)"

definition holders_issued :: "('d, 'v) env \<Rightarrow> (string \<rightharpoonup> 'v) \<Rightarrow> 'd lock_sys \<Rightarrow> bool" where
  "holders_issued E m s \<longleftrightarrow>
     (\<forall>bk l h. lock_view E m bk = Some l \<longrightarrow> h \<in> set (ls_holders l) \<longrightarrow>
        issued s h \<and> h \<notin> req_holder ` sys_pending s)"

definition guards_held :: "('d, 'v) env \<Rightarrow> (string \<rightharpoonup> 'v) \<Rightarrow> 'd lock_sys \<Rightarrow> bool" where
  "guards_held E m s \<longleftrightarrow>
     (\<forall>b k t h. (b, k, t, h) \<in> sys_guards s \<longrightarrow>
        (\<exists>l. lock_view E m (b, k) = Some l \<and> ls_lock_type l = t \<and> h \<in> set (ls_holders l)))"

definition requests_wf :: "'d lock_sys \<Rightarrow> bool" where
  "requests_wf s \<longleftrightarrow>
     (\<forall>r \<in> active s. CHR ''/'' \<notin> set (fst r) \<and> issued s (req_holder r))
     \<and> inj_on req_holder (active s)
     \<and> sys_pending s \<inter> sys_guards s = {} \<and> sys_pending s \<inter> sys_releasing s = {}
     \<and> sys_guards s \<inter> sys_releasing s = {} \<and> (\<forall>n. sys_counter s n < 2 ^ 64)"

definition lock_inv :: "('d, 'v) env \<Rightarrow> ('d \<Rightarrow> string \<Rightarrow> string \<rightharpoonup> 'v) \<Rightarrow> 'd lock_sys \<Rightarrow> bool" where
  "lock_inv E contents s \<longleftrightarrow>
     locks_wf E (contents (sys_db s) CF_DEFAULT) \<and> requests_wf s
     \<and> holders_issued E (contents (sys_db s) CF_DEFAULT) s
     \<and> guards_held E (contents (sys_db s) CF_DEFAULT) s"

lemma next_holder_fresh:
  assumes "Suc (sys_counter s n) < 2 ^ 64"
  shows "\<not> issued s (fst (next_holder n (of_nat (sys_counter s n))))"
proof
  assume "issued s (fst (next_holder n (of_nat (sys_counter s n))))"
  then obtain i where i: "i < sys_counter s n" "(of_nat (sys_counter s n) :: u64) = of_nat i"
    by (auto simp: issued_def next_holder_def)
  from i(1) assms have "i < 2 ^ 64" and "sys_counter s n < 2 ^ 64" by simp_all
  then have "unat (of_nat i :: u64) = i" and "unat (of_nat (sys_counter s n) :: u64) = sys_counter s n"
    by (auto intro!: of_nat_inverse [OF refl])
  with i(2) have "sys_counter s n = i" by simp
  with i show False by simp
qed

lemma req_holder_simp [simp]: "req_holder (b, k, t, h) = h"
  by (simp add: req_holder_def)

lemma requests_wf_no_slash:
  "requests_wf s \<Longrightarrow> (b, k, t, h) \<in> active s \<Longrightarrow> CHR ''/'' \<notin> set b \<and> issued s h"
  unfolding requests_wf_def by (metis fst_conv req_holder_simp)

lemma activeI [intro]:
  "r \<in> sys_pending s \<Longrightarrow> r \<in> active s" "r \<in> sys_guards s \<Longrightarrow> r \<in> active s"
  "r \<in> sys_releasing s \<Longrightarrow> r \<in> active s"
  by (auto simp: active_def)

lemma issued_cong: "sys_counter s' = sys_counter s \<Longrightarrow> issued s' h = issued s h"
  by (simp add: issued_def)

lemma lock_init_inv: "lock_init E contents s \<Longrightarrow> lock_inv E contents s"
  by (simp add: lock_init_def lock_inv_def locks_wf_def requests_wf_def active_def
      holders_issued_def guards_held_def)

lemma lock_add_holders:
  "lock_add s t h = Some l' \<Longrightarrow> x \<in> set (ls_holders l') \<Longrightarrow>
     (x = h \<and> lock_granted s t h) \<or> (\<exists>l. s = Some l \<and> x \<in> set (ls_holders l))"
  by (cases s; cases t)
    (auto simp: lock_add_def lock_granted_def split: if_splits intro: LockType.exhaust)

lemma lock_add_keeps:
  "s = Some l \<Longrightarrow> \<exists>l'. lock_add s t h = Some l' \<and> ls_lock_type l' = ls_lock_type l
     \<and> set (ls_holders l) \<subseteq> set (ls_holders l')"
  by (auto simp: lock_add_def)

lemma lock_add_grants:
  assumes "lock_granted s t h" and "\<And>l. s = Some l \<Longrightarrow> h \<notin> set (ls_holders l)"
  shows "\<exists>l'. lock_add s t h = Some l' \<and> ls_lock_type l' = t \<and> h \<in> set (ls_holders l')"
  using assms by (cases s) (auto simp: lock_add_def lock_granted_def)

lemma lock_remove_keeps:
  assumes "s = Some l" and "x \<in> set (ls_holders l)" and "x \<noteq> h"
  shows "\<exists>l'. lock_remove s h = Some l' \<and> ls_lock_type l' = ls_lock_type l \<and> x \<in> set (ls_holders l')"
  using assms by (auto simp: lock_remove_def Let_def filter_empty_conv)

lemma lock_remove_holders:
  "lock_remove s h = Some l' \<Longrightarrow> x \<in> set (ls_holders l') \<Longrightarrow> \<exists>l. s = Some l \<and> x \<in> set (ls_holders l)"
  by (cases s) (auto simp: lock_remove_def Let_def split: if_splits)

context metadata_env
begin

abbreviation "m_of s \<equiv> contents (sys_db s) CF_DEFAULT"

lemma holders_issued_acquire:
  assumes hi: "holders_issued E (m_of s) s" and b: "issued s h"
    and acq: "acquire_lock E (sys_db s) b k t h = (r, d')"
    and s': "sys_counter s' = sys_counter s" "sys_pending s' \<subseteq> sys_pending s"
    and h: "r = Inr True \<Longrightarrow> h \<notin> req_holder ` sys_pending s'"
  shows "holders_issued E (contents d' CF_DEFAULT) s'"
  unfolding holders_issued_def
proof (intro allI impI)
  fix bk l x assume l: "lock_view E (contents d' CF_DEFAULT) bk = Some l" and x: "x \<in> set (ls_holders l)"
  obtain b' k' where bk: "bk = (b', k')" by fastforce
  have old: "issued s' x \<and> x \<notin> req_holder ` sys_pending s'"
    if "lock_view E (m_of s) bk' = Some l0" and "x \<in> set (ls_holders l0)" for bk' l0
    using hi that s' issued_cong [OF s'(1)] unfolding holders_issued_def by blast
  show "issued s' x \<and> x \<notin> req_holder ` sys_pending s'"
  proof (cases r)
    case (Inl e)
    with acq have "d' = sys_db s" by (auto dest: acquire_lock_err)
    with l x show ?thesis using old by blast
  next
    case (Inr g)
    note ok = acquire_lock_ok [OF acq [unfolded Inr]]
    then consider "locks d' (b', k') = locks d' (b, k)"
      | "locks d' (b', k') = locks (sys_db s) (b', k')"
      using locks_entry by blast
    then show ?thesis
    proof cases
      case 1
      with l bk ok have "lock_add (locks (sys_db s) (b, k)) t h = Some l" by simp
      from lock_add_holders [OF this x] consider "x = h" "lock_granted (locks (sys_db s) (b, k)) t h"
        | l0 where "locks (sys_db s) (b, k) = Some l0" "x \<in> set (ls_holders l0)" by blast
      then show ?thesis
      proof cases
        case 1
        with ok Inr h b issued_cong [OF s'(1)] show ?thesis by simp
      next
        case 2
        with old show ?thesis by blast
      qed
    next
      case 2
      with l bk x old show ?thesis by simp
    qed
  qed
qed

lemma guards_held_acquire:
  assumes gh: "guards_held E (m_of s) s" and wf: "requests_wf s" and b: "CHR ''/'' \<notin> set b"
    and acq: "acquire_lock E (sys_db s) b k t h = (r, d')"
    and g: "(b', k', t', h') \<in> sys_guards s"
  shows "\<exists>l. locks d' (b', k') = Some l \<and> ls_lock_type l = t' \<and> h' \<in> set (ls_holders l)"
proof -
  from gh g obtain l where l: "locks (sys_db s) (b', k') = Some l" "ls_lock_type l = t'"
      "h' \<in> set (ls_holders l)"
    unfolding guards_held_def by blast
  have b': "CHR ''/'' \<notin> set b'" using requests_wf_no_slash [OF wf] g by blast
  show ?thesis
  proof (cases r)
    case (Inl e)
    with acq l show ?thesis by (auto dest: acquire_lock_err)
  next
    case (Inr x)
    note ok = acquire_lock_ok [OF acq [unfolded Inr]]
    show ?thesis
    proof (cases "(b', k') = (b, k)")
      case True
      with l lock_add_keeps [of "locks (sys_db s) (b, k)" l t h] ok show ?thesis by auto
    next
      case False
      with ok b b' l locks_frame [of b k d' "sys_db s" b' k'] show ?thesis by auto
    qed
  qed
qed

lemma holders_issued_release:
  assumes hi: "holders_issued E (m_of s) s" and rel: "release_lock E (sys_db s) b k h = (r, d')"
    and s': "sys_counter s' = sys_counter s" "sys_pending s' = sys_pending s"
  shows "holders_issued E (contents d' CF_DEFAULT) s'"
  unfolding holders_issued_def
proof (intro allI impI)
  fix bk l x assume l: "lock_view E (contents d' CF_DEFAULT) bk = Some l" and x: "x \<in> set (ls_holders l)"
  obtain b' k' where bk: "bk = (b', k')" by fastforce
  have "\<exists>bk0 l0. lock_view E (m_of s) bk0 = Some l0 \<and> x \<in> set (ls_holders l0)"
  proof (cases r)
    case (Inl e)
    with rel have "d' = sys_db s" by (auto dest: release_lock_err)
    with l x show ?thesis by blast
  next
    case (Inr u)
    note ok = release_lock_ok [OF rel [unfolded Inr]]
    then consider "locks d' (b', k') = locks d' (b, k)"
      | "locks d' (b', k') = locks (sys_db s) (b', k')"
      using locks_entry by blast
    then show ?thesis
    proof cases
      case 1
      with l bk ok have "lock_remove (locks (sys_db s) (b, k)) h = Some l" by simp
      from lock_remove_holders [OF this x] show ?thesis by blast
    next
      case 2
      with l bk x show ?thesis by metis
    qed
  qed
  with hi s' show "issued s' x \<and> x \<notin> req_holder ` sys_pending s'"
    using issued_cong [OF s'(1)] unfolding holders_issued_def by metis
qed

lemma guards_held_release:
  assumes gh: "guards_held E (m_of s) s" and wf: "requests_wf s"
    and rel: "release_lock E (sys_db s) b k h = (r, d')" and r: "(b, k, t, h) \<in> sys_releasing s"
    and g: "(b', k', t', h') \<in> sys_guards s"
  shows "\<exists>l. locks d' (b', k') = Some l \<and> ls_lock_type l = t' \<and> h' \<in> set (ls_holders l)"
proof -
  from gh g obtain l where l: "locks (sys_db s) (b', k') = Some l" "ls_lock_type l = t'"
      "h' \<in> set (ls_holders l)"
    unfolding guards_held_def by blast
  have b: "CHR ''/'' \<notin> set b" "CHR ''/'' \<notin> set b'"
    using requests_wf_no_slash [OF wf] g r by blast+
  have hh: "h' \<noteq> h"
  proof
    assume "h' = h"
    moreover have "inj_on req_holder (active s)" using wf by (simp add: requests_wf_def)
    ultimately have "(b', k', t', h') = (b, k, t, h)"
      using g r by (intro inj_onD [of req_holder "active s"]) auto
    with wf g r show False by (auto simp: requests_wf_def)
  qed
  show ?thesis
  proof (cases r)
    case (Inl e)
    with rel l show ?thesis by (auto dest: release_lock_err)
  next
    case (Inr u)
    note ok = release_lock_ok [OF rel [unfolded Inr]]
    show ?thesis
    proof (cases "(b', k') = (b, k)")
      case True
      with l hh ok lock_remove_keeps [of "locks (sys_db s) (b, k)" l h' h] show ?thesis by auto
    next
      case False
      with ok b l locks_frame [of b k d' "sys_db s" b' k'] show ?thesis by auto
    qed
  qed
qed

text \<open>Every step keeps the invariant; first the bookkeeping of requests, then the table.\<close>

lemma requests_wf_move:
  assumes "requests_wf s" and "sys_counter s' = sys_counter s" and "active s' \<subseteq> active s"
    and "sys_pending s' \<inter> sys_guards s' = {}" and "sys_pending s' \<inter> sys_releasing s' = {}"
    and "sys_guards s' \<inter> sys_releasing s' = {}"
  shows "requests_wf s'"
  using assms issued_cong [OF assms(2)] inj_on_subset [OF _ assms(3)]
  unfolding requests_wf_def by (metis subsetD)

lemma requests_wf_request:
  assumes wf: "requests_wf s" and b: "CHR ''/'' \<notin> set b" and c: "Suc (sys_counter s n) < 2 ^ 64"
    and h: "h = fst (next_holder n (of_nat (sys_counter s n)))"
    and s': "s' = s\<lparr>sys_counter := (sys_counter s)(n := Suc (sys_counter s n)),
         sys_pending := insert (b, k, t, h) (sys_pending s)\<rparr>"
  shows "requests_wf s'"
proof -
  have new: "\<not> issued s h" using next_holder_fresh [OF c] h by simp
  have mono: "issued s x \<Longrightarrow> issued s' x" for x
    by (auto simp: issued_def s' less_Suc_eq)
  have h': "issued s' h" by (auto simp: issued_def s' h next_holder_def)
  have act: "active s' = insert (b, k, t, h) (active s)" by (auto simp: active_def s')
  have fresh: "h \<notin> req_holder ` active s" using wf new by (auto simp: requests_wf_def)
  then have notin: "(b, k, t, h) \<notin> active s" by (metis image_eqI req_holder_simp)
  show ?thesis
    unfolding requests_wf_def
  proof (intro conjI)
    show "\<forall>r \<in> active s'. CHR ''/'' \<notin> set (fst r) \<and> issued s' (req_holder r)"
      using wf mono h' b act by (auto simp: requests_wf_def)
    show "inj_on req_holder (active s')"
      using wf fresh act notin by (simp add: requests_wf_def)
    show "\<forall>m. sys_counter s' m < 2 ^ 64" using wf c by (simp add: requests_wf_def s')
  qed (use wf notin in \<open>auto simp: requests_wf_def s' active_def\<close>)
qed

lemma lock_step_requests:
  assumes "lock_step E contents s s'" and "requests_wf s"
  shows "requests_wf s'"
  using assms
proof (induction rule: lock_step.induct)
  case (request b s n h k t)
  then show ?case by (intro requests_wf_request [OF request(4,1,2,3) refl])
next
  case (attempt b k t h s granted d')
  then show ?case
    by (intro requests_wf_move [OF attempt(3)]) (auto simp: active_def requests_wf_def)
next
  case (orphan b k t h s r d')
  then show ?case
    by (intro requests_wf_move [OF orphan(3)]) (auto simp: active_def requests_wf_def)
next
  case (drop b k t h s)
  then show ?case
    by (intro requests_wf_move [OF drop(2)]) (auto simp: active_def requests_wf_def)
next
  case (release b k t h s r d')
  then show ?case
    by (intro requests_wf_move [OF release(3)]) (auto simp: active_def requests_wf_def)
next
  case (other d' s)
  then show ?case
    by (intro requests_wf_move [OF other(2)]) (auto simp: active_def requests_wf_def)
qed

lemma requests_unique:
  assumes wf: "requests_wf s" and r: "(b, k, t, h) \<in> sys_pending s"
  shows "h \<notin> req_holder ` (sys_pending s - {(b, k, t, h)})"
proof
  assume "h \<in> req_holder ` (sys_pending s - {(b, k, t, h)})"
  then obtain x where x: "x \<in> sys_pending s" "x \<noteq> (b, k, t, h)" "req_holder x = h" by auto
  have "inj_on req_holder (active s)" using wf by (simp add: requests_wf_def)
  from inj_onD [OF this, of x "(b, k, t, h)"] x r show False by auto
qed

lemma lock_inv_attempt:
  assumes inv: "lock_inv E contents s" and r: "(b, k, t, h) \<in> sys_pending s"
    and acq: "acquire_lock E (sys_db s) b k t h = (Inr True, d')"
    and s': "s' = s\<lparr>sys_db := d', sys_pending := sys_pending s - {(b, k, t, h)},
              sys_guards := insert (b, k, t, h) (sys_guards s)\<rparr>"
  shows "holders_issued E (contents d' CF_DEFAULT) s' \<and> guards_held E (contents d' CF_DEFAULT) s'"
proof
  from inv have wf: "requests_wf s" and hi: "holders_issued E (m_of s) s"
    and gh: "guards_held E (m_of s) s" by (simp_all add: lock_inv_def)
  from requests_wf_no_slash [OF wf] r have b: "CHR ''/'' \<notin> set b" and h: "issued s h" by blast+
  have "h \<notin> req_holder ` (sys_pending s - {(b, k, t, h)})" using requests_unique [OF wf r] .
  then show "holders_issued E (contents d' CF_DEFAULT) s'"
    using holders_issued_acquire [OF hi h acq, of s'] by (auto simp: s')
  have "\<exists>l. locks d' (b, k) = Some l \<and> ls_lock_type l = t \<and> h \<in> set (ls_holders l)"
  proof -
    have "h \<notin> set (ls_holders l)" if "locks (sys_db s) (b, k) = Some l" for l
      using hi that r unfolding holders_issued_def by (metis image_eqI req_holder_simp)
    with lock_add_grants acquire_lock_ok [OF acq] show ?thesis by metis
  qed
  then show "guards_held E (contents d' CF_DEFAULT) s'"
    using guards_held_acquire [OF gh wf b acq] by (auto simp: guards_held_def s')
qed

lemma lock_step_inv:
  assumes "lock_step E contents s s'" and "lock_inv E contents s"
  shows "lock_inv E contents s'"
proof -
  from assms have req: "requests_wf s'"
    by (auto intro: lock_step_requests simp: lock_inv_def)
  from assms(2) have wf: "requests_wf s" and hi: "holders_issued E (m_of s) s"
    and gh: "guards_held E (m_of s) s" and lw: "locks_wf E (m_of s)"
    by (simp_all add: lock_inv_def)
  have "locks_wf E (m_of s') \<and> holders_issued E (m_of s') s' \<and> guards_held E (m_of s') s'"
    using assms(1)
  proof cases
    case (request b n h k t)
    have new: "\<not> issued s h" using next_holder_fresh [OF request(3)] request(4) by simp
    have mono: "issued s x \<Longrightarrow> issued s' x" for x
      using request(1) by (auto simp: issued_def less_Suc_eq)
    have "req_holder ` sys_pending s' = insert h (req_holder ` sys_pending s)"
      using request(1) by simp
    then have "holders_issued E (m_of s) s'"
      using hi new mono by (simp add: holders_issued_def) metis
    with request gh lw show ?thesis by (simp add: guards_held_def)
  next
    case (attempt b k t h granted d')
    have lw': "locks_wf E (contents d' CF_DEFAULT)" using acquire_lock_wf [OF lw attempt(3)] .
    show ?thesis
    proof (cases granted)
      case True
      with attempt lock_inv_attempt [OF assms(2)] lw' show ?thesis by simp
    next
      case False
      have b: "CHR ''/'' \<notin> set b" and h: "issued s h"
        using requests_wf_no_slash [OF wf] attempt(2) by blast+
      have "holders_issued E (contents d' CF_DEFAULT) s'"
        using holders_issued_acquire [OF hi h attempt(3), of s'] attempt(1) False by auto
      moreover have "guards_held E (contents d' CF_DEFAULT) s'"
        using guards_held_acquire [OF gh wf b attempt(3)] attempt(1) False
        by (auto simp: guards_held_def)
      ultimately show ?thesis using lw' attempt(1) False by simp
    qed
  next
    case (orphan b k t h r d')
    have b: "CHR ''/'' \<notin> set b" and h: "issued s h"
      using requests_wf_no_slash [OF wf] orphan(2) by blast+
    have "h \<notin> req_holder ` (sys_pending s - {(b, k, t, h)})"
      using requests_unique [OF wf orphan(2)] .
    then have "holders_issued E (contents d' CF_DEFAULT) s'"
      using holders_issued_acquire [OF hi h orphan(3), of s'] orphan(1) by auto
    moreover have "guards_held E (contents d' CF_DEFAULT) s'"
      using guards_held_acquire [OF gh wf b orphan(3)] orphan(1) by (auto simp: guards_held_def)
    ultimately show ?thesis using acquire_lock_wf [OF lw orphan(3)] orphan(1) by simp
  next
    case (drop b k t h)
    with hi gh lw show ?thesis by (auto simp: holders_issued_def guards_held_def issued_def)
  next
    case (release b k t h r d')
    have "holders_issued E (contents d' CF_DEFAULT) s'"
      using holders_issued_release [OF hi release(3), of s'] release(1) by auto
    moreover have "guards_held E (contents d' CF_DEFAULT) s'"
      using guards_held_release [OF gh wf release(3,2)] release(1) by (auto simp: guards_held_def)
    ultimately show ?thesis using release_lock_wf [OF lw release(3)] release(1) by simp
  next
    case (other d')
    then have "lock_view E (m_of s') = lock_view E (m_of s)" by (simp add: same_locks_def)
    with hi gh lw other(1) show ?thesis
      by (simp add: holders_issued_def guards_held_def locks_wf_def issued_def)
  qed
  with req show ?thesis by (simp add: lock_inv_def)
qed

lemma reachable_lock_inv: "lock_reachable E contents s \<Longrightarrow> lock_inv E contents s"
  by (induction rule: lock_reachable.induct) (auto intro: lock_init_inv lock_step_inv)

text \<open>Two guards on one object are both for reading, or they are the same guard.\<close>

lemma guards_exclusive:
  assumes "lock_reachable E contents s"
    and g: "(b, k, t, h) \<in> sys_guards s" "(b, k, t', h') \<in> sys_guards s"
  shows "(t = Read \<and> t' = Read) \<or> (t, h) = (t', h')"
proof -
  from reachable_lock_inv [OF assms(1)] have inv: "lock_inv E contents s" .
  then have "guards_held E (m_of s) s" by (simp add: lock_inv_def)
  note held = this [unfolded guards_held_def, rule_format]
  from held [OF g(1)] obtain l where l: "locks (sys_db s) (b, k) = Some l" "ls_lock_type l = t"
      "h \<in> set (ls_holders l)" by blast
  from held [OF g(2)] l(1) have l': "ls_lock_type l = t'" "h' \<in> set (ls_holders l)" by auto
  from inv l(1) have "lock_wf l" by (simp add: lock_inv_def locks_wf_def)
  with l l' have "t = Write \<Longrightarrow> h = h'"
    by (auto simp: lock_wf_def length_Suc_conv)
  with l(2) l'(1) show ?thesis by (cases t) auto
qed

end

section \<open>Properties\<close>

text \<open>
  C6: In every run in which no holder is reused, two guards that exist for the same object at the
  same time are both read guards, or they are the same guard: a writer excludes everybody else.
\<close>

theorem guards_are_exclusive:
  assumes "metadata_env E contents" and "lock_reachable E contents s"
    and "(b, k, t, h) \<in> sys_guards s" and "(b, k, t', h') \<in> sys_guards s"
  shows "(t = Read \<and> t' = Read) \<or> (t, h) = (t', h')"
  by (rule metadata_env.guards_exclusive [OF assms])

theorem guards_are_exclusive_witness:
  "\<exists>s :: mem_db lock_sys. lock_reachable mem_env mem_contents s
     \<and> (\<exists>h. (''photos'', ''a'', Write, h) \<in> sys_guards s
          \<and> (\<forall>t' h'. (''photos'', ''a'', t', h') \<in> sys_guards s \<longrightarrow> (t', h') = (Write, h)))"
proof -
  let ?s0 = "\<lparr>sys_db = mem_empty, sys_counter = (\<lambda>_. 0), sys_pending = {}, sys_guards = {}, sys_releasing = {}\<rparr>"
  let ?h = "fst (next_holder 1 (of_nat (sys_counter ?s0 1)))"
  let ?r = "(''photos'', ''a'', Write, ?h)"
  let ?s1 = "?s0\<lparr>sys_counter := (sys_counter ?s0)(1 := Suc (sys_counter ?s0 1)),
    sys_pending := insert ?r (sys_pending ?s0)\<rparr>"
  have r0: "lock_reachable mem_env mem_contents ?s0"
    by (rule lock_reachable.init) (simp add: lock_init_def lock_view_def mem_eval fun_eq_iff)
  have "lock_step mem_env mem_contents ?s0 ?s1" by (rule lock_step.request) simp_all
  with r0 have r1: "lock_reachable mem_env mem_contents ?s1" by (rule lock_reachable.step)
  obtain d' where a: "acquire_lock mem_env (sys_db ?s1) ''photos'' ''a'' Write ?h = (Inr True, d')"
    by (simp add: acquire_lock_def get_lock_state_def mem_eval)
  let ?s2 = "?s1\<lparr>sys_db := d', sys_pending := sys_pending ?s1 - {?r}, sys_guards := insert ?r (sys_guards ?s1)\<rparr>"
  have "lock_step mem_env mem_contents ?s1 ?s2"
    using lock_step.attempt [of "''photos''" "''a''" Write ?h ?s1 mem_env True d' mem_contents] a by simp
  with r1 have r2: "lock_reachable mem_env mem_contents ?s2" by (rule lock_reachable.step)
  have g: "?r \<in> sys_guards ?s2" by simp
  show ?thesis
  proof (intro exI conjI allI impI)
    fix t' h' assume g': "(''photos'', ''a'', t', h') \<in> sys_guards ?s2"
    from guards_are_exclusive [OF mem_is_env(1), OF r2 g g'] show "(t', h') = (Write, ?h)" by auto
  qed (use r2 g in simp_all)
qed

text \<open>
  The hypothesis on holders is needed. The counter that numbers them starts at zero in every
  process, so after a restart a node draws a holder that may still be in the table. Then even a
  write lock is granted while another node holds a read lock on the object.
\<close>

theorem reused_holder_breaks_exclusion:
  "let h1 = fst (next_holder 1 0);
       h2 = fst (next_holder 2 0);
       d1 = snd (acquire_lock mem_env mem_empty ''photos'' ''a'' Read h1);
       d2 = snd (acquire_lock mem_env d1 ''photos'' ''a'' Read h2);
       after_restart = fst (next_holder 1 0)
   in fst (acquire_lock mem_env d2 ''photos'' ''a'' Write after_restart) = Inr True
      \<and> lock_view mem_env (mem_contents (snd (acquire_lock mem_env d2 ''photos'' ''a'' Write after_restart)) CF_DEFAULT)
          (''photos'', ''a'') = Some \<lparr>ls_lock_type = Read, ls_holders = [h1, h2]\<rparr>"
  by code_simp

end
