(* ===== verification/Raft_Log.thy ===== *)
theory Raft_Log
  imports Meta_Lock
begin

text \<open>
  The Raft log, \<open>crates/save-metadata/src/raft/log_store.rs\<close>, and the log and vote operations of
  the storage adapter, \<open>raft/storage.rs\<close>. Entries live in their own column family under the
  eight big-endian bytes of their index; vote, memberships and the log ids that bound the log
  live in the column family for the Raft state.

  The JSON serialisation of openraft's types and the archive format of snapshots are parameters
  (\<open>raft_codecs\<close>); the locale \<open>raft_store\<close> adds their round trips to the contract of the store.
  \<open>log_view\<close> abstracts the log to a map from indices to entries.
\<close>

section \<open>Parameters and errors\<close>

record ('vote, 'mem, 'd, 'v) raft_codecs =
  logid_codec :: "(LogId, 'v) codec"
  vote_codec :: "('vote, 'v) codec"
  membership_codec :: "('mem StoredMembership, 'v) codec"
  entry_codec :: "('mem Entry, 'v) codec"
  meta_codec :: "('mem SnapshotMeta, 'v) codec"
  default_membership :: "'mem StoredMembership"
  checkpoint_archive :: "'d \<Rightarrow> string + 'v"
  unpack_archive :: "'v \<Rightarrow> string + 'd"
  open_unpacked :: "'d \<Rightarrow> string + 'd"

datatype StorageIOError = ReadError string | WriteError string

fun read_err :: "string + 'a \<Rightarrow> StorageIOError + 'a" where
  "read_err (Inl e) = Inl (ReadError e)"
| "read_err (Inr x) = Inr x"

fun write_err :: "string + 'a \<Rightarrow> StorageIOError + 'a" where
  "write_err (Inl e) = Inl (WriteError e)"
| "write_err (Inr x) = Inr x"

definition log_cf :: "('d, 'v) env \<Rightarrow> 'd \<Rightarrow> StorageIOError + string" where
  "log_cf E d = (if db_has_cf E d CF_RAFT_LOG then Inr CF_RAFT_LOG
     else Inl (ReadError ''raft_log CF not found''))"

definition state_cf :: "('d, 'v) env \<Rightarrow> 'd \<Rightarrow> StorageIOError + string" where
  "state_cf E d = (if db_has_cf E d CF_RAFT_STATE then Inr CF_RAFT_STATE
     else Inl (ReadError ''raft_state CF not found''))"

section \<open>The log store\<close>

text \<open>\<open>index.to_be_bytes()\<close>\<close>

definition index_to_key :: "u64 \<Rightarrow> string" where
  "index_to_key index = map (\<lambda>i. char_of (uint index div 256 ^ i)) [7, 6, 5, 4, 3, 2, 1, 0]"

definition read_log_id ::
  "('d, 'v) env \<Rightarrow> ('vote, 'mem, 'd, 'v) raft_codecs \<Rightarrow> 'd \<Rightarrow> string \<Rightarrow> StorageIOError + LogId option" where
  "read_log_id E C d key =
     (case state_cf E d of
        Inl e \<Rightarrow> Inl e
      | Inr cf \<Rightarrow>
        (case read_err (db_get E d cf key) of
           Inl e \<Rightarrow> Inl e
         | Inr (Some bytes) \<Rightarrow>
           (case read_err (decode (logid_codec C) bytes) of
              Inl e \<Rightarrow> Inl e
            | Inr log_id \<Rightarrow> Inr (Some log_id))
         | Inr None \<Rightarrow> Inr None))"

definition write_log_id ::
  "('d, 'v) env \<Rightarrow> ('vote, 'mem, 'd, 'v) raft_codecs \<Rightarrow> 'd \<Rightarrow> string \<Rightarrow> LogId
    \<Rightarrow> (StorageIOError + unit) \<times> 'd" where
  "write_log_id E C d key log_id =
     (case state_cf E d of
        Inl e \<Rightarrow> (Inl e, d)
      | Inr cf \<Rightarrow>
        (case write_err (encode (logid_codec C) log_id) of
           Inl e \<Rightarrow> (Inl e, d)
         | Inr encoded \<Rightarrow>
           (case write_err (db_put E d cf key encoded) of
              Inl e \<Rightarrow> (Inl e, d)
            | Inr d' \<Rightarrow> (Inr (), d'))))"

definition delete_key :: "('d, 'v) env \<Rightarrow> 'd \<Rightarrow> string \<Rightarrow> (StorageIOError + unit) \<times> 'd" where
  "delete_key E d key =
     (case state_cf E d of
        Inl e \<Rightarrow> (Inl e, d)
      | Inr cf \<Rightarrow>
        (case write_err (db_delete E d cf key) of
           Inl e \<Rightarrow> (Inl e, d)
         | Inr d' \<Rightarrow> (Inr (), d')))"

record LogState =
  last_purged_log_id :: "LogId option"
  last_log_id :: "LogId option"

definition get_log_state ::
  "('d, 'v) env \<Rightarrow> ('vote, 'mem, 'd, 'v) raft_codecs \<Rightarrow> 'd \<Rightarrow> StorageIOError + LogState" where
  "get_log_state E C d =
     (case read_log_id E C d ''last_purged_log_id'' of
        Inl e \<Rightarrow> Inl e
      | Inr purged \<Rightarrow>
        (case read_log_id E C d ''last_log_id'' of
           Inl e \<Rightarrow> Inl e
         | Inr last_id \<Rightarrow> Inr \<lparr>last_purged_log_id = purged, last_log_id = last_id\<rparr>))"

datatype Bound = Included u64 | Excluded u64 | Unbounded

text \<open>The loop \<open>for index in start..end\<close>; absent entries are skipped.\<close>

function get_entries_loop ::
  "('d, 'v) env \<Rightarrow> ('vote, 'mem, 'd, 'v) raft_codecs \<Rightarrow> 'd \<Rightarrow> string \<Rightarrow> u64 \<Rightarrow> u64
    \<Rightarrow> StorageIOError + 'mem Entry list" where
  "get_entries_loop E C d cf index stop =
     (if \<not> index < stop then Inr []
      else (case read_err (db_get E d cf (index_to_key index)) of
              Inl e \<Rightarrow> Inl e
            | Inr None \<Rightarrow> get_entries_loop E C d cf (index + 1) stop
            | Inr (Some bytes) \<Rightarrow>
              (case read_err (decode (entry_codec C) bytes) of
                 Inl e \<Rightarrow> Inl e
               | Inr entry \<Rightarrow>
                 (case get_entries_loop E C d cf (index + 1) stop of
                    Inl e \<Rightarrow> Inl e
                  | Inr entries \<Rightarrow> Inr (entry # entries)))))"
  by pat_completeness auto
termination
  by (relation "measure (\<lambda>(E, C, d, cf, index, stop). unat stop - unat index)")
    (auto simp: less_word_succ_measure)

declare get_entries_loop.simps [simp del]

definition get_entries ::
  "('d, 'v) env \<Rightarrow> ('vote, 'mem, 'd, 'v) raft_codecs \<Rightarrow> 'd \<Rightarrow> Bound \<Rightarrow> Bound
    \<Rightarrow> StorageIOError + 'mem Entry list" where
  "get_entries E C d start_bound end_bound =
     (case log_cf E d of
        Inl e \<Rightarrow> Inl e
      | Inr cf \<Rightarrow>
        (let start = (case start_bound of Included n \<Rightarrow> n | Excluded n \<Rightarrow> n + 1 | Unbounded \<Rightarrow> 0);
             stop = (case end_bound of Included n \<Rightarrow> n + 1 | Excluded n \<Rightarrow> n | Unbounded \<Rightarrow> - 1)
         in get_entries_loop E C d cf start stop))"

fun append_loop ::
  "('d, 'v) env \<Rightarrow> ('vote, 'mem, 'd, 'v) raft_codecs \<Rightarrow> 'd \<Rightarrow> string \<Rightarrow> 'mem Entry list \<Rightarrow> LogId option
    \<Rightarrow> (StorageIOError + LogId option) \<times> 'd" where
  "append_loop E C d cf [] last_id = (Inr last_id, d)"
| "append_loop E C d cf (entry # entries) last_id =
     (case write_err (encode (entry_codec C) entry) of
        Inl e \<Rightarrow> (Inl e, d)
      | Inr encoded \<Rightarrow>
        (case write_err (db_put E d cf (index_to_key (log_index (entry_log_id entry))) encoded) of
           Inl e \<Rightarrow> (Inl e, d)
         | Inr d' \<Rightarrow> append_loop E C d' cf entries (Some (entry_log_id entry))))"

definition append_log ::
  "('d, 'v) env \<Rightarrow> ('vote, 'mem, 'd, 'v) raft_codecs \<Rightarrow> 'd \<Rightarrow> 'mem Entry list
    \<Rightarrow> (StorageIOError + LogId option) \<times> 'd" where
  "append_log E C d entries =
     (case log_cf E d of
        Inl e \<Rightarrow> (Inl e, d)
      | Inr cf \<Rightarrow>
        (case append_loop E C d cf entries None of
           (Inl e, d1) \<Rightarrow> (Inl e, d1)
         | (Inr None, d1) \<Rightarrow> (Inr None, d1)
         | (Inr (Some log_id), d1) \<Rightarrow>
           (case write_log_id E C d1 ''last_log_id'' log_id of
              (Inl e, d2) \<Rightarrow> (Inl e, d2)
            | (Inr _, d2) \<Rightarrow> (Inr (Some log_id), d2))))"

text \<open>
  The loop \<open>for index in start..=end\<close>. An inclusive range yields its end as well, without
  stepping past it.
\<close>

function delete_range_loop ::
  "('d, 'v) env \<Rightarrow> 'd \<Rightarrow> string \<Rightarrow> u64 \<Rightarrow> u64 \<Rightarrow> (StorageIOError + unit) \<times> 'd" where
  "delete_range_loop E d cf index stop =
     (if index > stop then (Inr (), d)
      else (case write_err (db_delete E d cf (index_to_key index)) of
              Inl e \<Rightarrow> (Inl e, d)
            | Inr d' \<Rightarrow> if index = stop then (Inr (), d') else delete_range_loop E d' cf (index + 1) stop))"
  by pat_completeness auto
termination
  by (relation "measure (\<lambda>(E, d, cf, index, stop). unat stop - unat index)")
    (auto simp: less_word_succ_measure)

declare delete_range_loop.simps [simp del]

definition delete_range ::
  "('d, 'v) env \<Rightarrow> 'd \<Rightarrow> u64 \<Rightarrow> u64 \<Rightarrow> (StorageIOError + unit) \<times> 'd" where
  "delete_range E d start stop =
     (case log_cf E d of
        Inl e \<Rightarrow> (Inl e, d)
      | Inr cf \<Rightarrow> delete_range_loop E d cf start stop)"

section \<open>The storage adapter\<close>

definition save_vote ::
  "('d, 'v) env \<Rightarrow> ('vote, 'mem, 'd, 'v) raft_codecs \<Rightarrow> 'd \<Rightarrow> 'vote \<Rightarrow> (StorageIOError + unit) \<times> 'd" where
  "save_vote E C d vote =
     (case state_cf E d of
        Inl e \<Rightarrow> (Inl e, d)
      | Inr cf \<Rightarrow>
        (case write_err (encode (vote_codec C) vote) of
           Inl e \<Rightarrow> (Inl e, d)
         | Inr encoded \<Rightarrow>
           (case write_err (db_put E d cf ''vote'' encoded) of
              Inl e \<Rightarrow> (Inl e, d)
            | Inr d' \<Rightarrow> (Inr (), d'))))"

definition read_vote ::
  "('d, 'v) env \<Rightarrow> ('vote, 'mem, 'd, 'v) raft_codecs \<Rightarrow> 'd \<Rightarrow> StorageIOError + 'vote option" where
  "read_vote E C d =
     (case state_cf E d of
        Inl e \<Rightarrow> Inl e
      | Inr cf \<Rightarrow>
        (case read_err (db_get E d cf ''vote'') of
           Inl e \<Rightarrow> Inl e
         | Inr (Some bytes) \<Rightarrow>
           (case read_err (decode (vote_codec C) bytes) of
              Inl e \<Rightarrow> Inl e
            | Inr vote \<Rightarrow> Inr (Some vote))
         | Inr None \<Rightarrow> Inr None))"

definition append_to_log ::
  "('d, 'v) env \<Rightarrow> ('vote, 'mem, 'd, 'v) raft_codecs \<Rightarrow> 'd \<Rightarrow> 'mem Entry list
    \<Rightarrow> (StorageIOError + unit) \<times> 'd" where
  "append_to_log E C d entries =
     (case append_log E C d entries of
        (Inl e, d') \<Rightarrow> (Inl e, d')
      | (Inr _, d') \<Rightarrow> (Inr (), d'))"

definition delete_conflict_logs_since ::
  "('d, 'v) env \<Rightarrow> ('vote, 'mem, 'd, 'v) raft_codecs \<Rightarrow> 'd \<Rightarrow> LogId \<Rightarrow> (StorageIOError + unit) \<times> 'd" where
  "delete_conflict_logs_since E C d log_id =
     (let start_index = log_index log_id in
      case get_log_state E C d of
        Inl e \<Rightarrow> (Inl e, d)
      | Inr current_state \<Rightarrow>
        (case last_log_id current_state of
           None \<Rightarrow> (Inr (), d)
         | Some last_id \<Rightarrow>
           (case delete_range E d start_index (log_index last_id) of
              (Inl e, d1) \<Rightarrow> (Inl e, d1)
            | (Inr _, d1) \<Rightarrow>
              if start_index > 0
              then write_log_id E C d1 ''last_log_id''
                     \<lparr>log_leader_id = log_leader_id log_id, log_index = start_index - 1\<rparr>
              else delete_key E d1 ''last_log_id'')))"

definition purge_logs_upto ::
  "('d, 'v) env \<Rightarrow> ('vote, 'mem, 'd, 'v) raft_codecs \<Rightarrow> 'd \<Rightarrow> LogId \<Rightarrow> (StorageIOError + unit) \<times> 'd" where
  "purge_logs_upto E C d log_id =
     (case get_log_state E C d of
        Inl e \<Rightarrow> (Inl e, d)
      | Inr current_state \<Rightarrow>
        (let start_index =
           (case last_purged_log_id current_state of Some purged \<Rightarrow> log_index purged + 1 | None \<Rightarrow> 0) in
         case delete_range E d start_index (log_index log_id) of
           (Inl e, d1) \<Rightarrow> (Inl e, d1)
         | (Inr _, d1) \<Rightarrow> write_log_id E C d1 ''last_purged_log_id'' log_id))"

definition last_applied_state ::
  "('d, 'v) env \<Rightarrow> ('vote, 'mem, 'd, 'v) raft_codecs \<Rightarrow> 'd
    \<Rightarrow> StorageIOError + (LogId option \<times> 'mem StoredMembership)" where
  "last_applied_state E C d =
     (case read_log_id E C d ''last_applied_log_id'' of
        Inl e \<Rightarrow> Inl e
      | Inr last_applied \<Rightarrow>
        (case state_cf E d of
           Inl e \<Rightarrow> Inl e
         | Inr cf \<Rightarrow>
           (case read_err (db_get E d cf ''membership'') of
              Inl e \<Rightarrow> Inl e
            | Inr (Some data) \<Rightarrow>
              (case read_err (decode (membership_codec C) data) of
                 Inl e \<Rightarrow> Inl e
               | Inr membership \<Rightarrow> Inr (last_applied, membership))
            | Inr None \<Rightarrow> Inr (last_applied, default_membership C))))"

section \<open>The abstract log\<close>

definition log_view ::
  "('vote, 'mem, 'd, 'v) raft_codecs \<Rightarrow> (string \<rightharpoonup> 'v) \<Rightarrow> u64 \<rightharpoonup> 'mem Entry" where
  "log_view C m i =
     (case m (index_to_key i) of
        None \<Rightarrow> None
      | Some v \<Rightarrow> (case decode (entry_codec C) v of Inl _ \<Rightarrow> None | Inr en \<Rightarrow> Some en))"

definition log_id_view ::
  "('vote, 'mem, 'd, 'v) raft_codecs \<Rightarrow> (string \<rightharpoonup> 'v) \<Rightarrow> string \<rightharpoonup> LogId" where
  "log_id_view C m key =
     (case m key of
        None \<Rightarrow> None
      | Some v \<Rightarrow> (case decode (logid_codec C) v of Inl _ \<Rightarrow> None | Inr i \<Rightarrow> Some i))"

text \<open>Every entry decodes, and is stored under its own index.\<close>

definition log_wf :: "('vote, 'mem, 'd, 'v) raft_codecs \<Rightarrow> (string \<rightharpoonup> 'v) \<Rightarrow> bool" where
  "log_wf C m \<longleftrightarrow> (\<forall>i v. m (index_to_key i) = Some v \<longrightarrow>
     (\<exists>en. decode (entry_codec C) v = Inr en \<and> log_index (entry_log_id en) = i))"

locale raft_store = metadata_env E contents
  for E :: "('d, 'v) env" and contents :: "'d \<Rightarrow> string \<Rightarrow> string \<rightharpoonup> 'v" +
  fixes C :: "('vote, 'mem, 'd, 'v) raft_codecs"
  assumes logid_codec_ok: "codec_ok (logid_codec C)"
    and vote_codec_ok: "codec_ok (vote_codec C)"
    and membership_codec_ok: "codec_ok (membership_codec C)"
    and entry_codec_ok: "codec_ok (entry_codec C)"
    and meta_codec_ok: "codec_ok (meta_codec C)"
    and archive_law: "checkpoint_archive C d = Inr a \<Longrightarrow> unpack_archive C a = Inr p \<Longrightarrow>
      open_unpacked C p = Inr d' \<Longrightarrow> contents d' = contents d"

locale reliable_raft = raft_store E contents C + reliable_env E contents
  for E :: "('d, 'v) env" and contents :: "'d \<Rightarrow> string \<Rightarrow> string \<rightharpoonup> 'v"
    and C :: "('vote, 'mem, 'd, 'v) raft_codecs" +
  assumes logid_codec_total: "codec_total (logid_codec C)"
    and vote_codec_total: "codec_total (vote_codec C)"
    and membership_codec_total: "codec_total (membership_codec C)"
    and entry_codec_total: "codec_total (entry_codec C)"
    and meta_codec_total: "codec_total (meta_codec C)"
    and checkpoint_total: "\<exists>a. checkpoint_archive C d = Inr a"
    and archive_total: "checkpoint_archive C d = Inr a \<Longrightarrow>
      \<exists>p. unpack_archive C a = Inr p \<and> (\<exists>d'. open_unpacked C p = Inr d')"

lemma bytes_eq_mod:
  assumes "\<forall>i < k. (n div 256 ^ i) mod 256 = (m div 256 ^ i) mod (256 :: int)"
  shows "n mod 256 ^ k = m mod 256 ^ k"
  using assms
proof (induction k)
  case (Suc k)
  have "x mod 256 ^ Suc k = 256 ^ k * (x div 256 ^ k mod 256) + x mod 256 ^ k" for x :: int
    by (simp add: zmod_zmult2_eq mult.commute [of 256])
  with Suc show ?case by simp
qed simp

lemma index_to_key_inject [key_inj, simp]: "index_to_key i = index_to_key j \<longleftrightarrow> i = j"
proof
  assume eq: "index_to_key i = index_to_key j"
  have "(uint i div 256 ^ k) mod 256 = (uint j div 256 ^ k) mod 256" if "k < 8" for k
  proof -
    have "k \<in> set [7, 6, 5, 4, 3, 2, 1, 0]" using that by (simp; arith)
    with eq have "char_of (uint i div 256 ^ k) = (char_of (uint j div 256 ^ k) :: char)"
      unfolding index_to_key_def map_eq_conv by blast
    then have "(of_char (char_of (uint i div 256 ^ k) :: char) :: int)
        = of_char (char_of (uint j div 256 ^ k) :: char)" by simp
    then show ?thesis by simp
  qed
  then have "uint i mod 256 ^ 8 = uint j mod 256 ^ 8" by (intro bytes_eq_mod) blast
  moreover have "uint i < 256 ^ 8" "uint j < 256 ^ 8" "0 \<le> uint i" "0 \<le> uint j"
    using uint_bounded [of i] uint_bounded [of j] by simp_all
  ultimately have "uint i = uint j" by simp
  then show "i = j" by (simp add: word_uint_eq_iff)
qed simp

lemma read_err_Inr [simp]: "read_err x = Inr y \<longleftrightarrow> x = Inr y"
  by (cases x) auto

lemma write_err_Inr [simp]: "write_err x = Inr y \<longleftrightarrow> x = Inr y"
  by (cases x) auto

section \<open>Behaviour of the operations\<close>

context raft_store
begin

lemmas raft_codec_laws =
  codec_okD [OF logid_codec_ok] codec_okD [OF vote_codec_ok] codec_okD [OF membership_codec_ok]
  codec_okD [OF entry_codec_ok] codec_okD [OF meta_codec_ok]

abbreviation "log d \<equiv> log_view C (contents d CF_RAFT_LOG)"
abbreviation "log_ids d \<equiv> log_id_view C (contents d CF_RAFT_STATE)"

lemma cf_distinct [simp]:
  "CF_RAFT_LOG \<noteq> CF_RAFT_STATE" "CF_RAFT_STATE \<noteq> CF_RAFT_LOG" "CF_DEFAULT \<noteq> CF_RAFT_LOG"
  "CF_DEFAULT \<noteq> CF_RAFT_STATE" "CF_RAFT_LOG \<noteq> CF_DEFAULT" "CF_RAFT_STATE \<noteq> CF_DEFAULT"
  "CF_RAFT_SNAPSHOT \<noteq> CF_DEFAULT" "CF_RAFT_SNAPSHOT \<noteq> CF_RAFT_STATE" "CF_RAFT_SNAPSHOT \<noteq> CF_RAFT_LOG"
  "CF_DEFAULT \<noteq> CF_RAFT_SNAPSHOT" "CF_RAFT_STATE \<noteq> CF_RAFT_SNAPSHOT" "CF_RAFT_LOG \<noteq> CF_RAFT_SNAPSHOT"
  by (simp_all add: cf_defs)

lemma read_log_id_ok: "read_log_id E C d key = Inr r \<Longrightarrow> log_ids d key = r"
  by (auto simp: read_log_id_def state_cf_def log_id_view_def dest!: get_law
      split: sum.splits option.splits if_splits)

lemma write_log_id_ok:
  assumes "write_log_id E C d key i = (Inr u, d')"
  shows "\<exists>v. decode (logid_codec C) v = Inr i
    \<and> contents d' = (contents d)(CF_RAFT_STATE := (contents d CF_RAFT_STATE)(key \<mapsto> v))"
  using assms
  by (auto simp: write_log_id_def state_cf_def dest!: put_law codec_okD [OF logid_codec_ok]
      split: sum.splits if_splits)

lemma write_log_id_view:
  assumes "write_log_id E C d key i = (Inr u, d')"
  shows "log_ids d' = (log_ids d)(key \<mapsto> i) \<and> (\<forall>cf. cf \<noteq> CF_RAFT_STATE \<longrightarrow> contents d' cf = contents d cf)"
  using write_log_id_ok [OF assms] by (auto simp: log_id_view_def fun_eq_iff)

lemma delete_key_view:
  assumes "delete_key E d key = (Inr u, d')"
  shows "log_ids d' = (log_ids d)(key := None) \<and> (\<forall>cf. cf \<noteq> CF_RAFT_STATE \<longrightarrow> contents d' cf = contents d cf)"
  using assms
  by (auto simp: delete_key_def state_cf_def log_id_view_def fun_eq_iff dest!: delete_law
      split: sum.splits if_splits)

lemma get_log_state_ok:
  "get_log_state E C d = Inr s \<Longrightarrow>
     last_purged_log_id s = log_ids d ''last_purged_log_id'' \<and> last_log_id s = log_ids d ''last_log_id''"
  by (auto simp: get_log_state_def dest!: read_log_id_ok split: sum.splits)

text \<open>Reading a range yields the stored entries in the order of their indices.\<close>

lemma get_entries_loop_ok:
  assumes "get_entries_loop E C d CF_RAFT_LOG i n = Inr es"
  shows "map Some es = filter (\<lambda>x. x \<noteq> None) (map (\<lambda>j. log d (of_nat j)) [unat i ..< unat n])"
  using assms
proof (induction "unat n - unat i" arbitrary: i es)
  case 0
  then have "\<not> i < n" by (simp add: word_less_nat_alt)
  with 0 show ?case by (subst (asm) get_entries_loop.simps) simp
next
  case (Suc x)
  then have lt: "i < n" by (simp add: word_less_nat_alt)
  then have x: "x = unat n - unat (i + 1)" using Suc(2) by (simp add: less_word_succ)
  have ups: "[unat i ..< unat n] = unat i # [unat (i + 1) ..< unat n]"
    using lt by (simp add: less_word_succ word_less_nat_alt upt_conv_Cons)
  from Suc(3) lt obtain r where r: "db_get E d CF_RAFT_LOG (index_to_key i) = Inr r"
    by (subst (asm) get_entries_loop.simps) (auto split: sum.splits)
  from get_law [OF r] have c: "contents d CF_RAFT_LOG (index_to_key i) = r" .
  show ?case
  proof (cases r)
    case None
    with Suc(3) lt r have "get_entries_loop E C d CF_RAFT_LOG (i + 1) n = Inr es"
      by (subst (asm) get_entries_loop.simps) simp
    with Suc(1) [OF x] None c show ?thesis by (simp add: ups log_view_def)
  next
    case (Some v)
    with Suc(3) lt r obtain en es' where "decode (entry_codec C) v = Inr en" "es = en # es'"
        "get_entries_loop E C d CF_RAFT_LOG (i + 1) n = Inr es'"
      by (subst (asm) get_entries_loop.simps) (auto split: sum.splits)
    with Suc(1) [OF x] Some c show ?thesis by (simp add: ups log_view_def)
  qed
qed

text \<open>Appending puts every entry at its index; of entries with one index the last one stays.\<close>

definition log_put :: "(u64 \<rightharpoonup> 'mem Entry) \<Rightarrow> 'mem Entry \<Rightarrow> u64 \<rightharpoonup> 'mem Entry" where
  "log_put l en = l(log_index (entry_log_id en) \<mapsto> en)"

lemma append_loop_ok:
  assumes "append_loop E C d CF_RAFT_LOG es lst = (Inr r, d')"
  shows "log d' = foldl log_put (log d) es
    \<and> r = (if es = [] then lst else Some (entry_log_id (List.last es)))
    \<and> (\<forall>cf. cf \<noteq> CF_RAFT_LOG \<longrightarrow> contents d' cf = contents d cf)"
  using assms
proof (induction es arbitrary: d lst)
  case (Cons en es)
  then obtain v d1 where v: "encode (entry_codec C) en = Inr v"
    and d1: "db_put E d CF_RAFT_LOG (index_to_key (log_index (entry_log_id en))) v = Inr d1"
    and ap: "append_loop E C d1 CF_RAFT_LOG es (Some (entry_log_id en)) = (Inr r, d')"
    by (auto split: sum.splits)
  have "log d1 = log_put (log d) en"
    using put_law [OF d1] codec_okD [OF entry_codec_ok v]
    by (auto simp: log_view_def log_put_def fun_eq_iff)
  moreover have "\<forall>cf. cf \<noteq> CF_RAFT_LOG \<longrightarrow> contents d1 cf = contents d cf"
    using put_law [OF d1] by simp
  ultimately show ?case using Cons.IH [OF ap] by auto
qed auto

lemma append_log_ok:
  assumes "append_log E C d es = (Inr r, d')"
  shows "log d' = foldl log_put (log d) es
    \<and> (es \<noteq> [] \<longrightarrow> log_ids d' ''last_log_id'' = Some (entry_log_id (List.last es)))
    \<and> (\<forall>key. key \<noteq> ''last_log_id'' \<or> es = [] \<longrightarrow> log_ids d' key = log_ids d key)
    \<and> contents d' CF_DEFAULT = contents d CF_DEFAULT"
proof -
  from assms obtain r1 d1 where ap: "append_loop E C d CF_RAFT_LOG es None = (Inr r1, d1)"
    and tl: "(r1 = None \<and> d' = d1) \<or> (\<exists>i u. r1 = Some i \<and> write_log_id E C d1 ''last_log_id'' i = (Inr u, d'))"
    by (auto simp: append_log_def log_cf_def split: if_splits prod.splits sum.splits option.splits)
  note ok = append_loop_ok [OF ap]
  from tl show ?thesis
  proof (elim disjE exE conjE)
    assume "r1 = None" "d' = d1"
    with ok show ?thesis by (auto split: if_splits)
  next
    fix i u assume "r1 = Some i" and w: "write_log_id E C d1 ''last_log_id'' i = (Inr u, d')"
    with ok have "es \<noteq> []" "i = entry_log_id (List.last es)" by (auto split: if_splits)
    with ok write_log_id_view [OF w] show ?thesis by auto
  qed
qed

lemma delete_range_loop_ok:
  assumes "delete_range_loop E d CF_RAFT_LOG i n = (Inr u, d')"
  shows "log d' = (\<lambda>j. if i \<le> j \<and> j \<le> n then None else log d j)
    \<and> (\<forall>cf. cf \<noteq> CF_RAFT_LOG \<longrightarrow> contents d' cf = contents d cf)"
  using assms
proof (induction "unat n - unat i" arbitrary: d i)
  case 0
  show ?case
  proof (cases "i > n")
    case True
    with 0 show ?thesis by (subst (asm) delete_range_loop.simps) (auto simp: fun_eq_iff)
  next
    case False
    with 0 have "i = n" by (simp add: word_less_nat_alt word_unat_eq_iff)
    with 0(2) have "db_delete E d CF_RAFT_LOG (index_to_key i) = Inr d'"
      by (subst (asm) delete_range_loop.simps) (auto split: sum.splits)
    from delete_law [OF this] \<open>i = n\<close> show ?thesis by (auto simp: log_view_def fun_eq_iff)
  qed
next
  case (Suc x)
  then have lt: "i < n" by (simp add: word_less_nat_alt)
  then have x: "x = unat n - unat (i + 1)" using Suc(2) by (simp add: less_word_succ)
  from lt have "\<not> n < i" and "i \<noteq> n" by auto
  with Suc(3) obtain d1 where d1: "db_delete E d CF_RAFT_LOG (index_to_key i) = Inr d1"
    and rest: "delete_range_loop E d1 CF_RAFT_LOG (i + 1) n = (Inr u, d')"
    using delete_range_loop.simps [of E d CF_RAFT_LOG i n] by (auto split: sum.splits)
  have le: "i + 1 \<le> j \<longleftrightarrow> i < j" for j
    using lt by (simp add: word_le_nat_alt word_less_nat_alt less_word_succ Suc_le_eq)
  have l1: "log d1 = (log d)(i := None)"
    using delete_law [OF d1] by (auto simp: log_view_def fun_eq_iff)
  have fr: "\<forall>cf. cf \<noteq> CF_RAFT_LOG \<longrightarrow> contents d1 cf = contents d cf"
    using delete_law [OF d1] by simp
  note IH = Suc(1) [OF x rest]
  have "log d' j = (if i \<le> j \<and> j \<le> n then None else log d j)" for j
    using IH lt unfolding le l1 by auto
  with IH fr show ?case by auto
qed

lemma delete_range_ok:
  assumes "delete_range E d i n = (Inr u, d')"
  shows "log d' = (\<lambda>j. if i \<le> j \<and> j \<le> n then None else log d j)
    \<and> (\<forall>cf. cf \<noteq> CF_RAFT_LOG \<longrightarrow> contents d' cf = contents d cf)"
  using assms delete_range_loop_ok by (simp add: delete_range_def log_cf_def split: if_splits)

text \<open>
  Truncating removes the entries from the conflicting one up to the recorded end of the log; the
  new end of the log is the preceding index, with the leader of the conflicting entry.
\<close>

lemma delete_conflict_logs_since_ok:
  assumes "delete_conflict_logs_since E C d i = (Inr u, d')"
    and "log_ids d ''last_log_id'' = Some lst"
  shows "log d' = (\<lambda>j. if log_index i \<le> j \<and> j \<le> log_index lst then None else log d j)
    \<and> log_ids d' ''last_log_id'' = (if log_index i > 0
        then Some \<lparr>log_leader_id = log_leader_id i, log_index = log_index i - 1\<rparr> else None)"
proof -
  from assms obtain s d1 v where s: "get_log_state E C d = Inr s"
    and dr: "delete_range E d (log_index i) (log_index lst) = (Inr v, d1)"
    and w: "(if log_index i > 0
      then write_log_id E C d1 ''last_log_id'' \<lparr>log_leader_id = log_leader_id i, log_index = log_index i - 1\<rparr>
      else delete_key E d1 ''last_log_id'') = (Inr u, d')"
  proof -
    from assms(1) obtain s where s: "get_log_state E C d = Inr s"
      by (auto simp: delete_conflict_logs_since_def Let_def split: sum.splits)
    with get_log_state_ok [OF s] assms that show thesis
      by (auto simp: delete_conflict_logs_since_def Let_def split: sum.splits prod.splits)
  qed
  have "contents d' CF_RAFT_LOG = contents d1 CF_RAFT_LOG
    \<and> log_ids d' ''last_log_id'' = (if log_index i > 0
        then Some \<lparr>log_leader_id = log_leader_id i, log_index = log_index i - 1\<rparr> else None)"
  proof (cases "log_index i > 0")
    case True
    with w have "write_log_id E C d1 ''last_log_id''
        \<lparr>log_leader_id = log_leader_id i, log_index = log_index i - 1\<rparr> = (Inr u, d')" by simp
    from write_log_id_view [OF this] True show ?thesis by simp
  next
    case False
    with w have "delete_key E d1 ''last_log_id'' = (Inr u, d')" by simp
    from delete_key_view [OF this] False show ?thesis by simp
  qed
  with delete_range_ok [OF dr] show ?thesis by simp
qed

lemma purge_logs_upto_ok:
  assumes "purge_logs_upto E C d i = (Inr u, d')"
  shows "log d' = (\<lambda>j. if (case log_ids d ''last_purged_log_id'' of Some p \<Rightarrow> log_index p + 1 | None \<Rightarrow> 0) \<le> j
        \<and> j \<le> log_index i then None else log d j)
    \<and> log_ids d' = (log_ids d)(''last_purged_log_id'' \<mapsto> i)"
proof -
  from assms obtain s d1 v where s: "get_log_state E C d = Inr s"
    and dr: "delete_range E d (case last_purged_log_id s of Some p \<Rightarrow> log_index p + 1 | None \<Rightarrow> 0)
      (log_index i) = (Inr v, d1)"
    and w: "write_log_id E C d1 ''last_purged_log_id'' i = (Inr u, d')"
    by (auto simp: purge_logs_upto_def Let_def split: sum.splits prod.splits)
  have st: "log_ids d1 = log_ids d" using delete_range_ok [OF dr] by (simp add: log_id_view_def fun_eq_iff)
  show ?thesis
    using delete_range_ok [OF dr] write_log_id_view [OF w] get_log_state_ok [OF s] st
    by (simp add: fun_eq_iff log_view_def)
qed

lemma save_vote_read:
  assumes "save_vote E C d vote = (Inr u, d')" and "read_vote E C d' = Inr r"
  shows "r = Some vote"
proof -
  from assms(1) obtain v where "encode (vote_codec C) vote = Inr v"
      "db_put E d CF_RAFT_STATE ''vote'' v = Inr d'"
    by (auto simp: save_vote_def state_cf_def split: sum.splits if_splits)
  then have "contents d' CF_RAFT_STATE ''vote'' = Some v" and "decode (vote_codec C) v = Inr vote"
    using put_law codec_okD [OF vote_codec_ok] by auto
  with assms(2) show ?thesis
    by (auto simp: read_vote_def state_cf_def dest!: get_law split: sum.splits option.splits if_splits)
qed

end

section \<open>The in-memory store\<close>

definition mem_raft :: "(nat, nat, mem_db, mem_value) raft_codecs" where
  "mem_raft =
     \<lparr>logid_codec = \<lparr>encode = Inr \<circ> VLogId,
        decode = (\<lambda>v. case v of VLogId x \<Rightarrow> Inr x | _ \<Rightarrow> Inl ''invalid type'')\<rparr>,
      vote_codec = \<lparr>encode = Inr \<circ> VVote,
        decode = (\<lambda>v. case v of VVote x \<Rightarrow> Inr x | _ \<Rightarrow> Inl ''invalid type'')\<rparr>,
      membership_codec = \<lparr>encode = Inr \<circ> VMembership,
        decode = (\<lambda>v. case v of VMembership x \<Rightarrow> Inr x | _ \<Rightarrow> Inl ''invalid type'')\<rparr>,
      entry_codec = \<lparr>encode = Inr \<circ> VEntry,
        decode = (\<lambda>v. case v of VEntry x \<Rightarrow> Inr x | _ \<Rightarrow> Inl ''invalid type'')\<rparr>,
      meta_codec = \<lparr>encode = Inr \<circ> VMeta,
        decode = (\<lambda>v. case v of VMeta x \<Rightarrow> Inr x | _ \<Rightarrow> Inl ''invalid type'')\<rparr>,
      default_membership = \<lparr>sm_log_id = None, sm_membership = 0\<rparr>,
      checkpoint_archive = Inr \<circ> VArchive,
      unpack_archive = (\<lambda>v. case v of VArchive d \<Rightarrow> Inr d | _ \<Rightarrow> Inl ''invalid gzip header''),
      open_unpacked = Inr\<rparr>"

interpretation mem_raft: reliable_raft mem_env mem_contents mem_raft
  by unfold_locales (auto simp: mem_raft_def codec_ok_def codec_total_def)

lemmas mem_is_raft = mem_raft.raft_store_axioms mem_raft.reliable_raft_axioms

section \<open>Reading back what was appended\<close>

context reliable_raft
begin

lemma append_loop_total: "\<exists>r d'. append_loop E C d CF_RAFT_LOG es lst = (Inr r, d')"
proof (induction es arbitrary: d lst)
  case (Cons en es)
  obtain v where v: "encode (entry_codec C) en = Inr v"
    using entry_codec_total by (auto simp: codec_total_def)
  obtain d1 where "db_put E d CF_RAFT_LOG (index_to_key (log_index (entry_log_id en))) v = Inr d1"
    using put_ok by blast
  with v Cons [of d1] show ?case by simp
qed simp

lemma write_log_id_total: "\<exists>d'. write_log_id E C d key i = (Inr (), d')"
proof -
  obtain v where v: "encode (logid_codec C) i = Inr v"
    using logid_codec_total by (auto simp: codec_total_def)
  obtain d' where "db_put E d CF_RAFT_STATE key v = Inr d'" using put_ok by blast
  with v show ?thesis by (simp add: write_log_id_def state_cf_def cf_ok)
qed

lemma append_log_total: "\<exists>r d'. append_log E C d es = (Inr r, d')"
proof -
  obtain r d1 where 1: "append_loop E C d CF_RAFT_LOG es None = (Inr r, d1)"
    using append_loop_total by blast
  show ?thesis
  proof (cases r)
    case (Some i)
    obtain d2 where "write_log_id E C d1 ''last_log_id'' i = (Inr (), d2)"
      using write_log_id_total by blast
    with 1 Some show ?thesis by (simp add: append_log_def log_cf_def cf_ok)
  qed (use 1 in \<open>simp add: append_log_def log_cf_def cf_ok\<close>)
qed

lemma get_entries_loop_total:
  assumes "\<And>j v. i \<le> j \<Longrightarrow> j < n \<Longrightarrow> contents d CF_RAFT_LOG (index_to_key j) = Some v \<Longrightarrow>
    \<exists>en. decode (entry_codec C) v = Inr en"
  shows "\<exists>es. get_entries_loop E C d CF_RAFT_LOG i n = Inr es"
  using assms
proof (induction "unat n - unat i" arbitrary: i)
  case 0
  then have "\<not> i < n" by (simp add: word_less_nat_alt)
  then show ?case by (subst get_entries_loop.simps) simp
next
  case (Suc x)
  then have lt: "i < n" by (simp add: word_less_nat_alt)
  then have x: "x = unat n - unat (i + 1)" using Suc(2) by (simp add: less_word_succ)
  have le: "i + 1 \<le> j \<Longrightarrow> i \<le> j" for j
    using lt by (simp add: word_le_nat_alt less_word_succ)
  from Suc(1) [OF x] Suc(3) le obtain es where
    es: "get_entries_loop E C d CF_RAFT_LOG (i + 1) n = Inr es" by meson
  show ?case
  proof (cases "contents d CF_RAFT_LOG (index_to_key i)")
    case None
    with lt es show ?thesis by (subst get_entries_loop.simps) (simp add: get_eq)
  next
    case (Some v)
    with Suc(3) [of i v] lt obtain en where "decode (entry_codec C) v = Inr en" by auto
    with Some lt es show ?thesis by (subst get_entries_loop.simps) (simp add: get_eq)
  qed
qed

end

text \<open>Entries with consecutive indices from \<open>i\<close> on, below the end of the index range.\<close>

definition consecutive :: "u64 \<Rightarrow> 'mem Entry list \<Rightarrow> bool" where
  "consecutive i es \<longleftrightarrow> unat i + length es < 2 ^ 64
     \<and> (\<forall>j < length es. log_index (entry_log_id (es ! j)) = of_nat (unat i + j))"

lemma unat_of_nat_small: "n < 2 ^ 64 \<Longrightarrow> unat (of_nat n :: u64) = n"
  by (rule of_nat_inverse [OF refl]) simp

context raft_store
begin

lemma log_put_other:
  "k \<notin> (\<lambda>en. log_index (entry_log_id en)) ` set es \<Longrightarrow> foldl log_put l es k = l k"
  by (induction es arbitrary: l) (auto simp: log_put_def)

lemma log_put_same: "log_put l en (log_index (entry_log_id en)) = Some en"
  by (simp add: log_put_def)

lemma log_put_nth:
  assumes "distinct (map (\<lambda>en. log_index (entry_log_id en)) es)" and "j < length es"
  shows "foldl log_put l es (log_index (entry_log_id (es ! j))) = Some (es ! j)"
  using assms
proof (induction es arbitrary: l j)
  case (Cons en es)
  show ?case
  proof (cases j)
    case 0
    with Cons.prems log_put_other [of _ es "log_put l en"] show ?thesis by (simp add: log_put_same)
  next
    case (Suc j')
    with Cons show ?thesis by simp
  qed
qed simp

lemma consecutive_distinct:
  assumes "consecutive i es"
  shows "distinct (map (\<lambda>en. log_index (entry_log_id en)) es)"
proof -
  have "(of_nat (unat i + j) :: u64) \<noteq> of_nat (unat i + j')"
    if "j < length es" "j' < length es" "j \<noteq> j'" for j j'
  proof
    assume eq: "(of_nat (unat i + j) :: u64) = of_nat (unat i + j')"
    have "unat (of_nat (unat i + j) :: u64) = unat i + j" "unat (of_nat (unat i + j') :: u64) = unat i + j'"
      using that assms by (auto intro!: unat_of_nat_small simp: consecutive_def simp del: of_nat_add)
    with eq that show False by (metis add_left_cancel)
  qed
  then show ?thesis
    using assms by (simp add: distinct_conv_nth consecutive_def del: of_nat_add)
qed

lemma log_after_append:
  assumes "consecutive i es" and "append_log E C d es = (Inr r, d')" and "j < length es"
  shows "log d' (of_nat (unat i + j)) = Some (es ! j)"
proof -
  have "log_index (entry_log_id (es ! j)) = of_nat (unat i + j)"
    using assms by (simp add: consecutive_def)
  with append_log_ok [OF assms(2)] log_put_nth [OF consecutive_distinct [OF assms(1)] assms(3)]
  show ?thesis by metis
qed

end

section \<open>Properties\<close>

text \<open>
  C21: Appending entries with consecutive indices succeeds, the range of their indices reads back
  exactly these entries in order, and the recorded end of the log is the id of the last of them.
\<close>

theorem append_then_read:
  assumes "reliable_raft E contents C" and "consecutive i es" and "es \<noteq> []"
  shows "\<exists>r d'. append_log E C d es = (Inr r, d')
    \<and> get_entries E C d' (Included i) (Excluded (i + of_nat (length es))) = Inr es
    \<and> log_id_view C (contents d' CF_RAFT_STATE) ''last_log_id'' = Some (entry_log_id (last es))"
proof -
  have rs: "raft_store E contents C" and re: "reliable_env E contents"
    using assms(1) by (simp_all add: reliable_raft_def)
  obtain r d' where a: "append_log E C d es = (Inr r, d')"
    using reliable_raft.append_log_total [OF assms(1)] by blast
  let ?n = "i + of_nat (length es)"
  have n: "unat ?n = unat i + length es"
  proof -
    have "?n = of_nat (unat i + length es)" by simp
    then show ?thesis using assms(2) unat_of_nat_small by (metis consecutive_def)
  qed
  have log: "log_view C (contents d' CF_RAFT_LOG) (of_nat (unat i + j)) = Some (es ! j)"
    if "j < length es" for j
    using raft_store.log_after_append [OF rs assms(2) a that] .
  have dec: "\<exists>en. decode (entry_codec C) v = Inr en"
    if "i \<le> j" "j < ?n" "contents d' CF_RAFT_LOG (index_to_key j) = Some v" for j v
  proof -
    have "unat i \<le> unat j" "unat j < unat i + length es"
      using that n by (simp_all add: word_le_nat_alt word_less_nat_alt)
    then have "unat j - unat i < length es" and "of_nat (unat i + (unat j - unat i)) = j"
      by (simp_all del: of_nat_add)
    with log [of "unat j - unat i"] that(3) show ?thesis
      by (auto simp: log_view_def split: option.splits sum.splits)
  qed
  obtain xs where g: "get_entries_loop E C d' CF_RAFT_LOG i ?n = Inr xs"
    using reliable_raft.get_entries_loop_total [OF assms(1), of i ?n d'] dec by blast
  have "map Some xs = map Some es"
  proof -
    have "map (\<lambda>j. log_view C (contents d' CF_RAFT_LOG) (of_nat j)) [unat i ..< unat i + length es] = map Some es"
      by (rule nth_equalityI) (use log in \<open>simp_all del: of_nat_add\<close>)
    with raft_store.get_entries_loop_ok [OF rs g] n show ?thesis by (simp add: filter_empty_conv)
  qed
  then have "xs = es" by (simp add: inj_map_eq_map [OF inj_Some])
  with a g raft_store.append_log_ok [OF rs a] assms(3) reliable_env.cf_ok [OF re] show ?thesis
    by (auto simp: get_entries_def log_cf_def)
qed

text \<open>Entries for the examples.\<close>

definition log_id_at :: "u64 \<Rightarrow> u64 \<Rightarrow> LogId" where
  "log_id_at term index = \<lparr>log_leader_id = \<lparr>leader_term = term\<rparr>, log_index = index\<rparr>"

definition blank_entry :: "u64 \<Rightarrow> u64 \<Rightarrow> nat Entry" where
  "blank_entry term index = \<lparr>entry_log_id = log_id_at term index, entry_payload = Blank\<rparr>"

theorem append_then_read_witness:
  "\<exists>r d'. append_log mem_env mem_raft mem_empty [blank_entry 1 4, blank_entry 2 5] = (Inr r, d')
    \<and> get_entries mem_env mem_raft d' (Included 4) (Excluded (4 + of_nat 2)) = Inr [blank_entry 1 4, blank_entry 2 5]"
proof -
  have c: "consecutive 4 [blank_entry 1 4, blank_entry 2 5]"
    by (auto simp: consecutive_def blank_entry_def log_id_at_def less_Suc_eq)
  have n: "[blank_entry 1 4, blank_entry 2 5] \<noteq> []" by simp
  from append_then_read [OF mem_is_raft(2), OF c n, of mem_empty] show ?thesis by auto
qed

text \<open>
  Purging deletes the entries from the one after the last purged up to the given one, touches
  nothing beyond, and records the new bound.
\<close>

theorem purge_logs_upto_exact:
  assumes "raft_store E contents C" and "purge_logs_upto E C d i = (Inr u, d')"
    and "log_id_view C (contents d CF_RAFT_STATE) ''last_purged_log_id'' = None"
  shows "log_view C (contents d' CF_RAFT_LOG)
      = (\<lambda>j. if j \<le> log_index i then None else log_view C (contents d CF_RAFT_LOG) j)
    \<and> log_id_view C (contents d' CF_RAFT_STATE)
      = (log_id_view C (contents d CF_RAFT_STATE))(''last_purged_log_id'' \<mapsto> i)"
  using raft_store.purge_logs_upto_ok [OF assms(1,2)] assms(3) by simp

theorem purge_logs_upto_exact_witness:
  "\<exists>u d'. purge_logs_upto mem_env mem_raft mem_empty (log_id_at 1 2) = (Inr u, d')
    \<and> log_id_view mem_raft (mem_contents d' CF_RAFT_STATE) ''last_purged_log_id'' = Some (log_id_at 1 2)"
proof -
  let ?r = "purge_logs_upto mem_env mem_raft mem_empty (log_id_at 1 2)"
  have "isl (fst ?r) = False" by code_simp
  then obtain u d' where r: "?r = (Inr u, d')" by (metis prod.collapse sum.collapse(2))
  have n: "log_id_view mem_raft (mem_contents mem_empty CF_RAFT_STATE) ''last_purged_log_id'' = None"
    by code_simp
  from purge_logs_upto_exact [OF mem_is_raft(1), OF r n] r show ?thesis by simp
qed

text \<open>
  A log whose entries at 1 and 2 come from the leaders of terms 1 and 2 is truncated from
  index 2 on. The entry at index 1 of term 1 stays, but the recorded end of the log claims that it
  is of term 2: the leader of the removed entry is written for the entry before it.
\<close>

theorem truncation_records_wrong_leader:
  "let d1 = snd (append_log mem_env mem_raft mem_empty [blank_entry 1 1, blank_entry 2 2]);
       d2 = snd (delete_conflict_logs_since mem_env mem_raft d1 (log_id_at 2 2))
   in get_entries mem_env mem_raft d2 (Included 0) (Included 5) = Inr [blank_entry 1 1]
      \<and> get_log_state mem_env mem_raft d2 = Inr \<lparr>last_purged_log_id = None, last_log_id = Some (log_id_at 2 1)\<rparr>
      \<and> log_id_at 2 1 \<noteq> entry_log_id (blank_entry 1 1)"
  by code_simp

end
