(* ===== verification/Meta_Multipart.thy ===== *)
theory Meta_Multipart
  imports Meta_Lock
begin

text \<open>
  Multipart uploads, \<open>crates/save-metadata/src/multipart.rs\<close>. An upload is one entry for its
  metadata and one entry per recorded part; the keys join bucket, object key, upload id and part
  number with colons. \<open>upload_view\<close> abstracts the store to a map from uploads to their contents.

  The keys are unambiguous for object keys and upload ids without a colon, and that is what the
  lemmas assume (\<open>plain_upload\<close>). The generated upload ids and the valid bucket names never hold
  a colon, but a valid object key may; \<open>list_hides_part_keys\<close> shows what happens to uploads
  whose object key contains the part marker.
\<close>

section \<open>Operations\<close>

definition validate_upload_id :: "string \<Rightarrow> MetadataError + unit" where
  "validate_upload_id upload_id =
     (if upload_id = [] then Inl (InvalidOperation ''Upload ID cannot be empty'')
      else if length upload_id > 256 then
        Inl (InvalidOperation (''Upload ID too long: '' @ nat_str (length upload_id)
          @ '' bytes (max 256)''))
      else Inr ())"

definition upload_db_key :: "string \<Rightarrow> string \<Rightarrow> string \<Rightarrow> string" where
  "upload_db_key bucket key upload_id = ''mpu:'' @ bucket @ '':'' @ key @ '':'' @ upload_id"

definition part_key :: "string \<Rightarrow> string \<Rightarrow> string \<Rightarrow> u32 \<Rightarrow> string" where
  "part_key bucket key upload_id n =
     ''mpu:'' @ bucket @ '':'' @ key @ '':'' @ upload_id @ '':part:'' @ nat_str (unat n)"

definition part_prefix :: "string \<Rightarrow> string \<Rightarrow> string \<Rightarrow> string" where
  "part_prefix bucket key upload_id =
     ''mpu:'' @ bucket @ '':'' @ key @ '':'' @ upload_id @ '':part:''"

text \<open>The two checks that open every operation.\<close>

definition check_names :: "string \<Rightarrow> string \<Rightarrow> MetadataError + unit" where
  "check_names key upload_id =
     (case validate_object_key key of
        Inl e \<Rightarrow> Inl (InvalidOperation (Error_to_string e))
      | Inr _ \<Rightarrow> validate_upload_id upload_id)"

definition initiate_multipart_upload ::
  "('d, 'v) env \<Rightarrow> instant \<Rightarrow> 'd \<Rightarrow> string \<Rightarrow> string \<Rightarrow> string \<Rightarrow> string option
    \<Rightarrow> (MetadataError + MultipartUpload) \<times> 'd" where
  "initiate_multipart_upload E now d bucket key upload_id content_type =
     (case check_names key upload_id of
        Inl e \<Rightarrow> (Inl e, d)
      | Inr _ \<Rightarrow>
        (let meta = \<lparr>mm_upload_id = upload_id, mm_bucket = bucket, mm_key = key,
                     mm_initiated_at = now, mm_content_type = content_type\<rparr>;
             db_key = upload_db_key bucket key upload_id in
         case encode (multipart_codec E) meta of
           Inl e \<Rightarrow> (Inl (Encode e), d)
         | Inr val \<Rightarrow>
           (case db_put E d CF_DEFAULT db_key val of
              Inl e \<Rightarrow> (Inl (Database e), d)
            | Inr d' \<Rightarrow>
              (Inr \<lparr>mpu_upload_id = upload_id, mpu_bucket = bucket, mpu_key = key,
                    mpu_parts = Map.empty, mpu_initiated_at = mm_initiated_at meta,
                    mpu_content_type = content_type\<rparr>, d'))))"

text \<open>The loop over the parts of an upload, which fills a \<open>BTreeMap\<close>.\<close>

fun collect_parts ::
  "(MultipartPart, 'v) codec \<Rightarrow> string \<Rightarrow> (string + string \<times> 'v) list \<Rightarrow> (u32 \<rightharpoonup> MultipartPart)
    \<Rightarrow> MetadataError + (u32 \<rightharpoonup> MultipartPart)" where
  "collect_parts c p [] parts = Inr parts"
| "collect_parts c p (Inl e # items) parts = Inl (Database e)"
| "collect_parts c p (Inr (k, v) # items) parts =
     (if \<not> starts_with k p then Inr parts
      else (case decode c v of
              Inl e \<Rightarrow> Inl (Decode e)
            | Inr part \<Rightarrow> collect_parts c p items (parts(part_number part \<mapsto> part))))"

definition load_upload ::
  "('d, 'v) env \<Rightarrow> 'd \<Rightarrow> string \<Rightarrow> MultipartMetadata \<Rightarrow> MetadataError + MultipartUpload" where
  "load_upload E d pre meta =
     (case collect_parts (part_codec E) pre (db_prefix_iterator E d CF_DEFAULT pre) Map.empty of
        Inl e \<Rightarrow> Inl e
      | Inr parts \<Rightarrow>
        Inr \<lparr>mpu_upload_id = mm_upload_id meta, mpu_bucket = mm_bucket meta,
             mpu_key = mm_key meta, mpu_parts = parts,
             mpu_initiated_at = mm_initiated_at meta, mpu_content_type = mm_content_type meta\<rparr>)"

definition get_multipart_upload ::
  "('d, 'v) env \<Rightarrow> 'd \<Rightarrow> string \<Rightarrow> string \<Rightarrow> string \<Rightarrow> MetadataError + MultipartUpload" where
  "get_multipart_upload E d bucket key upload_id =
     (case check_names key upload_id of
        Inl e \<Rightarrow> Inl e
      | Inr _ \<Rightarrow>
        (case db_get E d CF_DEFAULT (upload_db_key bucket key upload_id) of
           Inl e \<Rightarrow> Inl (Database e)
         | Inr None \<Rightarrow> Inl (MultipartUploadNotFound upload_id)
         | Inr (Some val) \<Rightarrow>
           (case decode (multipart_codec E) val of
              Inl e \<Rightarrow> Inl (Decode e)
            | Inr meta \<Rightarrow> load_upload E d (part_prefix bucket key upload_id) meta)))"

definition record_part ::
  "('d, 'v) env \<Rightarrow> 'd \<Rightarrow> string \<Rightarrow> string \<Rightarrow> string \<Rightarrow> u32 \<Rightarrow> string \<Rightarrow> u64
    \<Rightarrow> (MetadataError + unit) \<times> 'd" where
  "record_part E d bucket key upload_id n etag sz =
     (case check_names key upload_id of
        Inl e \<Rightarrow> (Inl e, d)
      | Inr _ \<Rightarrow>
        (case db_get E d CF_DEFAULT (upload_db_key bucket key upload_id) of
           Inl e \<Rightarrow> (Inl (Database e), d)
         | Inr None \<Rightarrow> (Inl (MultipartUploadNotFound upload_id), d)
         | Inr (Some _) \<Rightarrow>
           (let part = \<lparr>part_number = n, part_etag = etag, part_size = sz\<rparr> in
            case encode (part_codec E) part of
              Inl e \<Rightarrow> (Inl (Encode e), d)
            | Inr val \<Rightarrow>
              (case db_put E d CF_DEFAULT (part_key bucket key upload_id n) val of
                 Inl e \<Rightarrow> (Inl (Database e), d)
               | Inr d' \<Rightarrow> (Inr (), d')))))"

text \<open>Deleting the collected keys one by one; a failure leaves the earlier deletions in place.\<close>

fun delete_keys :: "('d, 'v) env \<Rightarrow> 'd \<Rightarrow> string list \<Rightarrow> (MetadataError + unit) \<times> 'd" where
  "delete_keys E d [] = (Inr (), d)"
| "delete_keys E d (k # ks) =
     (case db_delete E d CF_DEFAULT k of
        Inl e \<Rightarrow> (Inl (Database e), d)
      | Inr d' \<Rightarrow> delete_keys E d' ks)"

text \<open>
  The tail that completing and aborting share: delete the metadata entry, collect the keys of the
  parts, delete them.
\<close>

definition remove_upload ::
  "('d, 'v) env \<Rightarrow> 'd \<Rightarrow> string \<Rightarrow> string \<Rightarrow> string \<Rightarrow> (MetadataError + unit) \<times> 'd" where
  "remove_upload E d bucket key upload_id =
     (case db_delete E d CF_DEFAULT (upload_db_key bucket key upload_id) of
        Inl e \<Rightarrow> (Inl (Database e), d)
      | Inr d1 \<Rightarrow>
        (let pre = part_prefix bucket key upload_id in
         case scan_prefix pre (db_prefix_iterator E d1 CF_DEFAULT pre) of
           Inl e \<Rightarrow> (Inl (Database e), d1)
         | Inr es \<Rightarrow> delete_keys E d1 (map fst es)))"

definition complete_multipart_upload ::
  "('d, 'v) env \<Rightarrow> 'd \<Rightarrow> string \<Rightarrow> string \<Rightarrow> string \<Rightarrow> (MetadataError + MultipartUpload) \<times> 'd" where
  "complete_multipart_upload E d bucket key upload_id =
     (case check_names key upload_id of
        Inl e \<Rightarrow> (Inl e, d)
      | Inr _ \<Rightarrow>
        (case get_multipart_upload E d bucket key upload_id of
           Inl e \<Rightarrow> (Inl e, d)
         | Inr upload \<Rightarrow>
           (case remove_upload E d bucket key upload_id of
              (Inl e, d') \<Rightarrow> (Inl e, d')
            | (Inr _, d') \<Rightarrow> (Inr upload, d'))))"

definition abort_multipart_upload ::
  "('d, 'v) env \<Rightarrow> 'd \<Rightarrow> string \<Rightarrow> string \<Rightarrow> string \<Rightarrow> (MetadataError + unit) \<times> 'd" where
  "abort_multipart_upload E d bucket key upload_id =
     (case check_names key upload_id of
        Inl e \<Rightarrow> (Inl e, d)
      | Inr _ \<Rightarrow> remove_upload E d bucket key upload_id)"

text \<open>The listing loop: entries whose key contains the part marker are skipped.\<close>

fun list_uploads_loop ::
  "('d, 'v) env \<Rightarrow> 'd \<Rightarrow> string \<Rightarrow> (string + string \<times> 'v) list
    \<Rightarrow> MetadataError + MultipartUpload list" where
  "list_uploads_loop E d pre [] = Inr []"
| "list_uploads_loop E d pre (Inl e # items) = Inl (Database e)"
| "list_uploads_loop E d pre (Inr (k, v) # items) =
     (if \<not> starts_with k pre then Inr []
      else if contains k '':part:'' then list_uploads_loop E d pre items
      else (case decode (multipart_codec E) v of
              Inl e \<Rightarrow> Inl (Decode e)
            | Inr meta \<Rightarrow>
              (case load_upload E d (part_prefix (mm_bucket meta) (mm_key meta) (mm_upload_id meta))
                      meta of
                 Inl e \<Rightarrow> Inl e
               | Inr upload \<Rightarrow>
                 (case list_uploads_loop E d pre items of
                    Inl e \<Rightarrow> Inl e
                  | Inr uploads \<Rightarrow> Inr (upload # uploads)))))"

definition list_multipart_uploads_with_prefix ::
  "('d, 'v) env \<Rightarrow> 'd \<Rightarrow> string \<Rightarrow> MetadataError + MultipartUpload list" where
  "list_multipart_uploads_with_prefix E d pre =
     list_uploads_loop E d pre (db_prefix_iterator E d CF_DEFAULT pre)"

definition list_multipart_uploads ::
  "('d, 'v) env \<Rightarrow> 'd \<Rightarrow> string \<Rightarrow> MetadataError + MultipartUpload list" where
  "list_multipart_uploads E d bucket =
     list_multipart_uploads_with_prefix E d (''mpu:'' @ bucket @ '':'')"

definition list_all_multipart_uploads ::
  "('d, 'v) env \<Rightarrow> 'd \<Rightarrow> MetadataError + MultipartUpload list" where
  "list_all_multipart_uploads E d = list_multipart_uploads_with_prefix E d ''mpu:''"

section \<open>Keys of uploads\<close>

definition plain_upload :: "string \<Rightarrow> string \<Rightarrow> string \<Rightarrow> bool" where
  "plain_upload b k u \<longleftrightarrow>
     CHR '':'' \<notin> set b \<and> CHR '':'' \<notin> set k \<and> CHR '':'' \<notin> set u"

lemma split_upload_db_key:
  "plain_upload b k u \<Longrightarrow> split_on CHR '':'' (upload_db_key b k u) = [''mpu'', b, k, u]"
  by (simp add: upload_db_key_def plain_upload_def split_on_sep split_on_no_sep)

lemma split_part_key:
  "plain_upload b k u \<Longrightarrow>
     split_on CHR '':'' (part_key b k u n) = [''mpu'', b, k, u, ''part'', nat_str (unat n)]"
  using split_on_sep [of "CHR '':''" "''part''" "nat_str (unat n)"]
  by (simp add: part_key_def plain_upload_def split_on_sep split_on_no_sep)

lemma split_part_prefix:
  "plain_upload b k u \<Longrightarrow>
     split_on CHR '':'' (part_prefix b k u @ z) = [''mpu'', b, k, u, ''part''] @ split_on CHR '':'' z"
  using split_on_sep [of "CHR '':''" "''part''" z]
  by (simp add: part_prefix_def plain_upload_def split_on_sep)

lemma upload_db_key_inject [key_inj]:
  assumes "plain_upload b k u" and "plain_upload b' k' u'"
  shows "upload_db_key b k u = upload_db_key b' k' u' \<longleftrightarrow> b = b' \<and> k = k' \<and> u = u'"
proof
  assume "upload_db_key b k u = upload_db_key b' k' u'"
  then have "[''mpu'', b, k, u] = [''mpu'', b', k', u']"
    unfolding split_upload_db_key [OF assms(1), symmetric] split_upload_db_key [OF assms(2), symmetric]
    by (rule arg_cong)
  then show "b = b' \<and> k = k' \<and> u = u'" by simp
qed simp

lemma part_key_inject [key_inj]:
  assumes "plain_upload b k u" and "plain_upload b' k' u'"
  shows "part_key b k u n = part_key b' k' u' n' \<longleftrightarrow> b = b' \<and> k = k' \<and> u = u' \<and> n = n'"
proof
  assume "part_key b k u n = part_key b' k' u' n'"
  then have "[''mpu'', b, k, u, ''part'', nat_str (unat n)]
      = [''mpu'', b', k', u', ''part'', nat_str (unat n')]"
    unfolding split_part_key [OF assms(1), symmetric] split_part_key [OF assms(2), symmetric]
    by (rule arg_cong)
  then show "b = b' \<and> k = k' \<and> u = u' \<and> n = n'" by (simp add: word_unat_eq_iff)
qed simp

lemma part_key_not_upload_key [key_disj]:
  assumes "plain_upload b k u" and "plain_upload b' k' u'"
  shows "part_key b k u n \<noteq> upload_db_key b' k' u'"
proof
  assume "part_key b k u n = upload_db_key b' k' u'"
  then have "[''mpu'', b, k, u, ''part'', nat_str (unat n)] = [''mpu'', b', k', u']"
    unfolding split_part_key [OF assms(1), symmetric] split_upload_db_key [OF assms(2), symmetric]
    by (rule arg_cong)
  then show False by simp
qed

lemma part_prefix_part_key:
  assumes "plain_upload b k u" and "plain_upload b' k' u'"
  shows "prefix (part_prefix b k u) (part_key b' k' u' n) \<longleftrightarrow> b = b' \<and> k = k' \<and> u = u'"
proof
  assume "prefix (part_prefix b k u) (part_key b' k' u' n)"
  then obtain z where "part_key b' k' u' n = part_prefix b k u @ z" by (rule prefixE)
  with split_part_key [OF assms(2), of n] split_part_prefix [OF assms(1), of z]
  show "b = b' \<and> k = k' \<and> u = u'" by auto
qed (simp add: part_prefix_def part_key_def)

lemma part_prefix_not_upload_key:
  assumes "plain_upload b k u" and "plain_upload b' k' u'"
  shows "\<not> prefix (part_prefix b k u) (upload_db_key b' k' u')"
proof
  assume "prefix (part_prefix b k u) (upload_db_key b' k' u')"
  then obtain z where "upload_db_key b' k' u' = part_prefix b k u @ z" by (rule prefixE)
  with split_upload_db_key [OF assms(2)] split_part_prefix [OF assms(1), of z] show False by simp
qed

lemma mpu_key_disj [key_disj, simp]:
  "upload_db_key b k u \<noteq> bucket_key n" "upload_db_key b k u \<noteq> object_db_key b' k'"
  "upload_db_key b k u \<noteq> lock_key b' k'" "part_key b k u i \<noteq> bucket_key n"
  "part_key b k u i \<noteq> object_db_key b' k'" "part_key b k u i \<noteq> lock_key b' k'"
  by (simp_all add: upload_db_key_def part_key_def bucket_key_def object_db_key_def lock_key_def)

lemma check_names_ok: "check_names k u = Inr x \<Longrightarrow> valid_key k \<and> u \<noteq> [] \<and> length u \<le> 256"
  by (auto simp: check_names_def validate_upload_id_def split: sum.splits if_splits)

lemma split_on_append: "split_on c (s @ c # t) = split_on c s @ split_on c t"
  by (induction s) (auto split: list.splits)

text \<open>Only uploads in a bucket or of an object named by the part marker are taken for parts.\<close>

lemma upload_key_part_marker:
  assumes "plain_upload b k u"
  shows "contains (upload_db_key b k u) '':part:'' \<longleftrightarrow> b = ''part'' \<or> k = ''part''"
proof
  assume "contains (upload_db_key b k u) '':part:''"
  then obtain x y where "upload_db_key b k u = x @ '':part:'' @ y" by (auto simp: contains_iff)
  then have "upload_db_key b k u = x @ CHR '':'' # (''part'' @ CHR '':'' # y)" by simp
  then have "[''mpu'', b, k, u] = split_on CHR '':'' x @ [''part''] @ split_on CHR '':'' y"
    using split_upload_db_key [OF assms] split_on_append [of "CHR '':''" x "''part'' @ CHR '':'' # y"]
      split_on_sep [of "CHR '':''" "''part''" y] by simp
  then show "b = ''part'' \<or> k = ''part''"
    using split_on_not_Nil [of "CHR '':''" x] split_on_not_Nil [of "CHR '':''" y]
    by (auto simp: Cons_eq_append_conv)
next
  assume "b = ''part'' \<or> k = ''part''"
  then show "contains (upload_db_key b k u) '':part:''"
  proof
    assume "b = ''part''"
    then show ?thesis
      using contains_append [of "''mpu''" "'':part:''" "k @ '':'' @ u"] by (simp add: upload_db_key_def)
  next
    assume "k = ''part''"
    then show ?thesis
      using contains_append [of "''mpu:'' @ b" "'':part:''" u] by (simp add: upload_db_key_def)
  qed
qed

lemma part_key_part_marker: "contains (part_key b k u n) '':part:''"
  using contains_append [of "''mpu:'' @ b @ '':'' @ k @ '':'' @ u" "'':part:''" "nat_str (unat n)"]
  by (simp add: part_key_def)

section \<open>The abstract map of uploads\<close>

definition parts_view ::
  "('d, 'v) env \<Rightarrow> (string \<rightharpoonup> 'v) \<Rightarrow> string \<Rightarrow> string \<Rightarrow> string \<Rightarrow> u32 \<rightharpoonup> MultipartPart" where
  "parts_view E m b k u n =
     (case m (part_key b k u n) of
        None \<Rightarrow> None
      | Some v \<Rightarrow> (case decode (part_codec E) v of Inl _ \<Rightarrow> None | Inr p \<Rightarrow> Some p))"

definition upload_of :: "MultipartMetadata \<Rightarrow> (u32 \<rightharpoonup> MultipartPart) \<Rightarrow> MultipartUpload" where
  "upload_of meta parts =
     \<lparr>mpu_upload_id = mm_upload_id meta, mpu_bucket = mm_bucket meta, mpu_key = mm_key meta,
      mpu_parts = parts, mpu_initiated_at = mm_initiated_at meta,
      mpu_content_type = mm_content_type meta\<rparr>"

definition upload_view ::
  "('d, 'v) env \<Rightarrow> (string \<rightharpoonup> 'v) \<Rightarrow> (string \<times> string \<times> string) \<rightharpoonup> MultipartUpload" where
  "upload_view E m = (\<lambda>(b, k, u).
     case m (upload_db_key b k u) of
       None \<Rightarrow> None
     | Some v \<Rightarrow>
       (case decode (multipart_codec E) v of
          Inl _ \<Rightarrow> None
        | Inr meta \<Rightarrow> Some (upload_of meta (parts_view E m b k u))))"

text \<open>
  The entries below the multipart prefix are well formed: each is the metadata of an upload or one
  of its parts, under the key that belongs to it.
\<close>

definition uploads_wf :: "('d, 'v) env \<Rightarrow> (string \<rightharpoonup> 'v) \<Rightarrow> bool" where
  "uploads_wf E m \<longleftrightarrow>
     (\<forall>x v. m x = Some v \<longrightarrow> prefix ''mpu:'' x \<longrightarrow>
        (\<exists>meta. decode (multipart_codec E) v = Inr meta
           \<and> x = upload_db_key (mm_bucket meta) (mm_key meta) (mm_upload_id meta)
           \<and> plain_upload (mm_bucket meta) (mm_key meta) (mm_upload_id meta))
        \<or> (\<exists>b k u p. decode (part_codec E) v = Inr p \<and> x = part_key b k u (part_number p)
           \<and> plain_upload b k u))"

lemma mpu_prefix [simp]:
  "prefix ''mpu:'' (upload_db_key b k u)" "prefix ''mpu:'' (part_key b k u n)"
  "prefix ''mpu:'' (part_prefix b k u)"
  by (simp_all add: upload_db_key_def part_key_def part_prefix_def)

lemma upload_view_Some:
  "upload_view E m (b, k, u) = Some up \<longleftrightarrow>
     (\<exists>v meta. m (upload_db_key b k u) = Some v \<and> decode (multipart_codec E) v = Inr meta
        \<and> up = upload_of meta (parts_view E m b k u))"
  by (auto simp: upload_view_def split: option.splits sum.splits)

lemma uploads_wfE:
  assumes "uploads_wf E m" and "m x = Some v" and "prefix ''mpu:'' x"
  obtains (upload) meta where "decode (multipart_codec E) v = Inr meta"
      "x = upload_db_key (mm_bucket meta) (mm_key meta) (mm_upload_id meta)"
      "plain_upload (mm_bucket meta) (mm_key meta) (mm_upload_id meta)"
  | (part) b k u p where "decode (part_codec E) v = Inr p" "x = part_key b k u (part_number p)"
      "plain_upload b k u"
  using assms unfolding uploads_wf_def by blast

lemma uploads_wf_upload:
  assumes "uploads_wf E m" and pl: "plain_upload b k u" and "m (upload_db_key b k u) = Some v"
  shows "\<exists>meta. decode (multipart_codec E) v = Inr meta \<and> mm_bucket meta = b \<and> mm_key meta = k
    \<and> mm_upload_id meta = u"
  using assms(1,3) mpu_prefix(1)
proof (cases rule: uploads_wfE)
  case (upload meta)
  with upload_db_key_inject [OF pl upload(3)] show ?thesis by auto
next
  case (part b' k' u' p)
  with part_key_not_upload_key [OF part(3) pl, of "part_number p"] show ?thesis by simp
qed

lemma uploads_wf_part:
  assumes "uploads_wf E m" and pl: "plain_upload b k u" and "m x = Some v"
    and x: "prefix (part_prefix b k u) x"
  shows "\<exists>p. decode (part_codec E) v = Inr p \<and> x = part_key b k u (part_number p)"
proof -
  have "prefix ''mpu:'' x" using x mpu_prefix(3) prefix_order.trans by blast
  with assms(1,3) show ?thesis
  proof (cases rule: uploads_wfE)
    case (upload meta)
    with part_prefix_not_upload_key [OF pl upload(3)] x show ?thesis by simp
  next
    case (part b' k' u' p)
    with part_prefix_part_key [OF pl part(3), of "part_number p"] x show ?thesis by auto
  qed
qed

text \<open>The loop that fills the map of parts, as the decoding loop followed by the insertions.\<close>

abbreviation insert_parts :: "(u32 \<rightharpoonup> MultipartPart) \<Rightarrow> MultipartPart list \<Rightarrow> u32 \<rightharpoonup> MultipartPart" where
  "insert_parts \<equiv> foldl (\<lambda>m p. m(part_number p \<mapsto> p))"

lemma collect_parts_eq:
  "collect_parts c p items acc =
     (case collect_prefix c p items of Inl e \<Rightarrow> Inl e | Inr ps \<Rightarrow> Inr (insert_parts acc ps))"
proof (induction items arbitrary: acc)
  case (Cons i items)
  show ?case
  proof (cases i)
    case (Inr kv)
    obtain k v where "kv = (k, v)" by fastforce
    with Inr Cons.IH show ?thesis by (simp split: sum.splits)
  qed simp
qed simp

lemma insert_parts_Some:
  "insert_parts Map.empty ps n = Some p \<Longrightarrow> p \<in> set ps \<and> part_number p = n"
  by (induction ps rule: rev_induct) (auto split: if_splits)

lemma insert_parts_mem:
  "p \<in> set ps \<Longrightarrow> \<exists>q. insert_parts Map.empty ps (part_number p) = Some q"
  by (induction ps rule: rev_induct) auto

lemma insert_parts_eq:
  assumes "\<And>p. p \<in> set ps \<longleftrightarrow> g (part_number p) = Some p"
    and "\<And>n p. g n = Some p \<Longrightarrow> part_number p = n"
  shows "insert_parts Map.empty ps = g"
proof
  fix n
  show "insert_parts Map.empty ps n = g n"
  proof (cases "insert_parts Map.empty ps n")
    case None
    show ?thesis
    proof (cases "g n")
      case (Some p)
      with assms None insert_parts_mem [of p ps] show ?thesis by auto
    qed (use None in simp)
  next
    case (Some p)
    with insert_parts_Some [OF Some] assms(1) [of p] show ?thesis by auto
  qed
qed

section \<open>Behaviour of the operations\<close>

context metadata_env
begin

abbreviation "uploads d \<equiv> upload_view E (contents d CF_DEFAULT)"

lemma load_upload_ok:
  assumes wf: "uploads_wf E (contents d CF_DEFAULT)" and pl: "plain_upload b k u"
    and ok: "load_upload E d (part_prefix b k u) meta = Inr up"
  shows "up = upload_of meta (parts_view E (contents d CF_DEFAULT) b k u)"
proof -
  let ?m = "contents d CF_DEFAULT" and ?p = "part_prefix b k u"
  let ?es = "entries_with_prefix ?m ?p"
  from ok obtain ps where
    ps: "collect_prefix (part_codec E) ?p (db_prefix_iterator E d CF_DEFAULT ?p) = Inr ps"
    and up: "up = upload_of meta (insert_parts Map.empty ps)"
    by (auto simp: load_upload_def collect_parts_eq upload_of_def split: sum.splits)
  have dec: "map (\<lambda>x. decode (part_codec E) (snd x)) ?es = map Inr ps"
    using collect_prefix_result [OF ps] .
  have mem: "Inr p \<in> set (map (\<lambda>x. decode (part_codec E) (snd x)) ?es) \<longleftrightarrow>
      parts_view E ?m b k u (part_number p) = Some p" for p
  proof
    assume "Inr p \<in> set (map (\<lambda>x. decode (part_codec E) (snd x)) ?es)"
    then obtain x v where xv: "?m x = Some v" "prefix ?p x" "decode (part_codec E) v = Inr p"
      using set_entries_with_prefix [OF finite_contents, of d CF_DEFAULT ?p] by auto
    with uploads_wf_part [OF wf pl xv(1,2)] show "parts_view E ?m b k u (part_number p) = Some p"
      by (auto simp: parts_view_def)
  next
    assume "parts_view E ?m b k u (part_number p) = Some p"
    then obtain v where v: "?m (part_key b k u (part_number p)) = Some v" "decode (part_codec E) v = Inr p"
      by (auto simp: parts_view_def split: option.splits sum.splits)
    have "prefix ?p (part_key b k u (part_number p))" by (simp add: part_prefix_part_key pl)
    with v have "(part_key b k u (part_number p), v) \<in> set ?es"
      using set_entries_with_prefix [OF finite_contents] by auto
    with v(2) show "Inr p \<in> set (map (\<lambda>x. decode (part_codec E) (snd x)) ?es)" by force
  qed
  have "insert_parts Map.empty ps = parts_view E ?m b k u"
  proof (rule insert_parts_eq)
    show "p \<in> set ps \<longleftrightarrow> parts_view E ?m b k u (part_number p) = Some p" for p
      using mem [of p] dec by auto
    fix n p assume "parts_view E ?m b k u n = Some p"
    then obtain v where v: "?m (part_key b k u n) = Some v" "decode (part_codec E) v = Inr p"
      by (auto simp: parts_view_def split: option.splits sum.splits)
    with uploads_wf_part [OF wf pl v(1)] pl show "part_number p = n"
      by (auto simp: part_prefix_part_key part_key_inject)
  qed
  with up show ?thesis by simp
qed

lemma get_multipart_upload_ok:
  assumes wf: "uploads_wf E (contents d CF_DEFAULT)" and pl: "plain_upload b k u"
    and ok: "get_multipart_upload E d b k u = Inr up"
  shows "uploads d (b, k, u) = Some up"
proof -
  from ok obtain v meta where "contents d CF_DEFAULT (upload_db_key b k u) = Some v"
      "decode (multipart_codec E) v = Inr meta"
      "load_upload E d (part_prefix b k u) meta = Inr up"
    by (auto simp: get_multipart_upload_def dest!: get_law split: sum.splits option.splits)
  with load_upload_ok [OF wf pl] show ?thesis by (simp add: upload_view_def)
qed

lemma collect_prefix_error:
  "collect_prefix c p items = Inl e \<Longrightarrow> (\<exists>m. e = Database m) \<or> (\<exists>m. e = Decode m)"
  by (induction c p items rule: collect_prefix.induct) (auto split: if_splits sum.splits)

lemma get_multipart_upload_not_found:
  assumes "get_multipart_upload E d b k u = Inl (MultipartUploadNotFound u')"
  shows "u' = u \<and> uploads d (b, k, u) = None"
  using assms
  by (auto simp: get_multipart_upload_def upload_view_def check_names_def validate_upload_id_def
      load_upload_def collect_parts_eq dest!: get_law collect_prefix_error
      split: sum.splits option.splits if_splits)

lemma initiate_multipart_upload_ok:
  assumes "initiate_multipart_upload E now d b k u ct = (Inr up, d')"
  shows "up = upload_of \<lparr>mm_upload_id = u, mm_bucket = b, mm_key = k, mm_initiated_at = now,
        mm_content_type = ct\<rparr> Map.empty
    \<and> check_names k u = Inr ()
    \<and> (\<exists>v. decode (multipart_codec E) v = Inr \<lparr>mm_upload_id = u, mm_bucket = b, mm_key = k,
          mm_initiated_at = now, mm_content_type = ct\<rparr>
        \<and> contents d' = (contents d)(CF_DEFAULT := (contents d CF_DEFAULT)(upload_db_key b k u \<mapsto> v)))"
  using assms
  by (auto simp: initiate_multipart_upload_def upload_of_def Let_def
      dest!: put_law codec_okD [OF multipart_codec_ok] split: sum.splits)

lemma record_part_ok:
  assumes "record_part E d b k u n etag sz = (Inr x, d')"
  shows "contents d CF_DEFAULT (upload_db_key b k u) \<noteq> None
    \<and> (\<exists>v. decode (part_codec E) v = Inr \<lparr>part_number = n, part_etag = etag, part_size = sz\<rparr>
        \<and> contents d' = (contents d)(CF_DEFAULT := (contents d CF_DEFAULT)(part_key b k u n \<mapsto> v)))"
  using assms
  by (auto simp: record_part_def Let_def dest!: get_law put_law codec_okD [OF part_codec_ok]
      split: sum.splits option.splits)

lemma delete_keys_ok:
  "delete_keys E d ks = (Inr x, d') \<Longrightarrow>
     contents d' = (contents d)(CF_DEFAULT :=
       (\<lambda>k. if k \<in> set ks then None else contents d CF_DEFAULT k))"
proof (induction ks arbitrary: d)
  case (Cons k ks)
  then obtain d1 where d1: "db_delete E d CF_DEFAULT k = Inr d1" "delete_keys E d1 ks = (Inr x, d')"
    by (auto split: sum.splits)
  from Cons.IH [OF d1(2)] delete_law [OF d1(1)] show ?case by (auto simp: fun_eq_iff)
qed (simp add: fun_eq_iff)

lemma remove_upload_ok:
  assumes "remove_upload E d b k u = (Inr x, d')"
  shows "contents d' = (contents d)(CF_DEFAULT := (\<lambda>y.
    if y = upload_db_key b k u \<or> prefix (part_prefix b k u) y then None
    else contents d CF_DEFAULT y))"
proof -
  let ?p = "part_prefix b k u"
  from assms obtain d1 es where d1: "db_delete E d CF_DEFAULT (upload_db_key b k u) = Inr d1"
    and es: "scan_prefix ?p (db_prefix_iterator E d1 CF_DEFAULT ?p) = Inr es"
    and del: "delete_keys E d1 (map fst es) = (Inr x, d')"
    by (auto simp: remove_upload_def Let_def split: sum.splits)
  have "y \<in> set (map fst es) \<longleftrightarrow> contents d1 CF_DEFAULT y \<noteq> None \<and> prefix ?p y" for y
    unfolding scan_prefix_result [OF es] set_map set_entries_with_prefix [OF finite_contents] by force
  with delete_keys_ok [OF del] delete_law [OF d1] show ?thesis by (auto simp: fun_eq_iff)
qed

text \<open>Effects on the abstract map; entries of other uploads are untouched.\<close>

lemma parts_view_upload_put:
  "plain_upload b k u \<Longrightarrow> plain_upload b' k' u' \<Longrightarrow>
     parts_view E (m(upload_db_key b k u \<mapsto> v)) b' k' u' = parts_view E m b' k' u'"
  by (auto simp: parts_view_def fun_eq_iff part_key_not_upload_key)

lemma initiate_multipart_upload_view:
  assumes "initiate_multipart_upload E now d b k u ct = (Inr up, d')"
    and "plain_upload b k u" and "plain_upload b' k' u'"
  shows "uploads d' (b', k', u') =
    (if (b', k', u') = (b, k, u)
     then Some (up\<lparr>mpu_parts := parts_view E (contents d CF_DEFAULT) b k u\<rparr>)
     else uploads d (b', k', u'))"
proof -
  obtain v where v: "decode (multipart_codec E) v = Inr \<lparr>mm_upload_id = u, mm_bucket = b, mm_key = k,
        mm_initiated_at = now, mm_content_type = ct\<rparr>"
    and d': "contents d' CF_DEFAULT = (contents d CF_DEFAULT)(upload_db_key b k u \<mapsto> v)"
    and up: "up = upload_of \<lparr>mm_upload_id = u, mm_bucket = b, mm_key = k, mm_initiated_at = now,
        mm_content_type = ct\<rparr> Map.empty"
    using initiate_multipart_upload_ok [OF assms(1)] by auto
  have "parts_view E (contents d' CF_DEFAULT) b' k' u' = parts_view E (contents d CF_DEFAULT) b' k' u'"
    unfolding d' by (rule parts_view_upload_put [OF assms(2,3)])
  with v up d' assms(2,3) show ?thesis
    by (auto simp: upload_view_def upload_db_key_inject upload_of_def split: option.splits sum.splits)
qed

lemma record_part_view:
  assumes "record_part E d b k u n etag sz = (Inr x, d')"
    and "plain_upload b k u" and "plain_upload b' k' u'"
  shows "uploads d' (b', k', u') =
    (if (b', k', u') = (b, k, u)
     then map_option (\<lambda>up. up\<lparr>mpu_parts := (mpu_parts up)
            (n \<mapsto> \<lparr>part_number = n, part_etag = etag, part_size = sz\<rparr>)\<rparr>) (uploads d (b, k, u))
     else uploads d (b', k', u'))"
proof -
  obtain v where v: "decode (part_codec E) v = Inr \<lparr>part_number = n, part_etag = etag, part_size = sz\<rparr>"
    and d': "contents d' = (contents d)(CF_DEFAULT := (contents d CF_DEFAULT)(part_key b k u n \<mapsto> v))"
    using record_part_ok [OF assms(1)] by blast
  have "parts_view E (contents d' CF_DEFAULT) b' k' u' =
      (if (b', k', u') = (b, k, u)
       then (parts_view E (contents d CF_DEFAULT) b k u)
         (n \<mapsto> \<lparr>part_number = n, part_etag = etag, part_size = sz\<rparr>)
       else parts_view E (contents d CF_DEFAULT) b' k' u')"
    using v d' assms(2,3) by (auto simp: parts_view_def fun_eq_iff part_key_inject)
  moreover have "contents d' CF_DEFAULT (upload_db_key b' k' u') = contents d CF_DEFAULT (upload_db_key b' k' u')"
    using d' part_key_not_upload_key [OF assms(2,3), of n] by simp
  ultimately show ?thesis
    by (auto simp: upload_view_def upload_of_def split: option.splits sum.splits)
qed

lemma remove_upload_view:
  assumes "remove_upload E d b k u = (Inr x, d')"
    and "plain_upload b k u" and "plain_upload b' k' u'"
  shows "uploads d' (b', k', u') = (if (b', k', u') = (b, k, u) then None else uploads d (b', k', u'))
    \<and> (\<forall>y. prefix (part_prefix b k u) y \<longrightarrow> contents d' CF_DEFAULT y = None)"
proof -
  note c = remove_upload_ok [OF assms(1)]
  have "parts_view E (contents d' CF_DEFAULT) b' k' u' = parts_view E (contents d CF_DEFAULT) b' k' u'"
    if "(b', k', u') \<noteq> (b, k, u)"
    using c that assms(2,3)
    by (auto simp: parts_view_def fun_eq_iff part_prefix_part_key part_key_not_upload_key)
  moreover have "contents d' CF_DEFAULT (upload_db_key b' k' u') =
      (if (b', k', u') = (b, k, u) then None else contents d CF_DEFAULT (upload_db_key b' k' u'))"
    using c assms(2,3) by (auto simp: upload_db_key_inject part_prefix_not_upload_key)
  ultimately show ?thesis using c by (auto simp: upload_view_def split: option.splits sum.splits)
qed

lemma complete_multipart_upload_ok:
  assumes "complete_multipart_upload E d b k u = (Inr up, d')"
  shows "get_multipart_upload E d b k u = Inr up \<and> (\<exists>x. remove_upload E d b k u = (Inr x, d'))"
  using assms by (auto simp: complete_multipart_upload_def split: sum.splits prod.splits)

lemma abort_multipart_upload_ok:
  assumes "abort_multipart_upload E d b k u = (Inr x, d')"
  shows "remove_upload E d b k u = (Inr x, d')"
  using assms by (auto simp: abort_multipart_upload_def split: sum.splits)

text \<open>Every operation on a plain upload keeps the entries well formed.\<close>

lemma uploads_wf_initiate:
  assumes wf: "uploads_wf E (contents d CF_DEFAULT)" and "plain_upload b k u"
    and "initiate_multipart_upload E now d b k u ct = (Inr up, d')"
  shows "uploads_wf E (contents d' CF_DEFAULT)"
proof -
  obtain v meta where "decode (multipart_codec E) v = Inr meta"
      "mm_bucket meta = b" "mm_key meta = k" "mm_upload_id meta = u"
    and "contents d' CF_DEFAULT = (contents d CF_DEFAULT)(upload_db_key b k u \<mapsto> v)"
    using initiate_multipart_upload_ok [OF assms(3)] by (metis MultipartMetadata.select_convs(1-3) fun_upd_same)
  with assms(1,2) show ?thesis by (auto simp: uploads_wf_def)
qed

lemma uploads_wf_record:
  assumes "uploads_wf E (contents d CF_DEFAULT)" and "plain_upload b k u"
    and "record_part E d b k u n etag sz = (Inr x, d')"
  shows "uploads_wf E (contents d' CF_DEFAULT)"
proof -
  obtain v p where "decode (part_codec E) v = Inr p" "part_number p = n"
    and "contents d' CF_DEFAULT = (contents d CF_DEFAULT)(part_key b k u n \<mapsto> v)"
    using record_part_ok [OF assms(3)] by (metis MultipartPart.select_convs(1) fun_upd_same)
  with assms(1,2) show ?thesis by (fastforce simp: uploads_wf_def)
qed

lemma uploads_wf_submap: "uploads_wf E m \<Longrightarrow> m' \<subseteq>\<^sub>m m \<Longrightarrow> uploads_wf E m'"
  unfolding uploads_wf_def map_le_def by (metis domI)

lemma uploads_wf_remove:
  assumes "uploads_wf E (contents d CF_DEFAULT)" and "remove_upload E d b k u = (Inr x, d')"
  shows "uploads_wf E (contents d' CF_DEFAULT)"
  using assms(1)
  by (rule uploads_wf_submap) (use remove_upload_ok [OF assms(2)] in \<open>auto simp: map_le_def split: if_splits\<close>)

text \<open>A completed listing has loaded exactly the entries whose key shows no part marker.\<close>

lemma list_uploads_loop_ok:
  "list_uploads_loop E d pre items = Inr ups \<Longrightarrow>
     \<exists>es metas. scan_prefix pre items = Inr es
       \<and> map (\<lambda>x. decode (multipart_codec E) (snd x))
           (filter (\<lambda>x. \<not> contains (fst x) '':part:'') es) = map Inr metas
       \<and> map (\<lambda>meta. load_upload E d (part_prefix (mm_bucket meta) (mm_key meta) (mm_upload_id meta)) meta)
           metas = map Inr ups"
proof (induction items arbitrary: ups)
  case (Cons i items)
  show ?case
  proof (cases i)
    case (Inr kv)
    obtain k v where kv: "kv = (k, v)" by fastforce
    consider "\<not> starts_with k pre" | "starts_with k pre" "contains k '':part:''"
      | "starts_with k pre" "\<not> contains k '':part:''" by blast
    then show ?thesis
    proof cases
      case 2
      with Inr kv Cons show ?thesis by fastforce
    next
      case 3
      with Inr kv Cons.prems obtain meta up ups' where
        "decode (multipart_codec E) v = Inr meta" "list_uploads_loop E d pre items = Inr ups'"
        "load_upload E d (part_prefix (mm_bucket meta) (mm_key meta) (mm_upload_id meta)) meta = Inr up"
        "ups = up # ups'"
        by (auto split: sum.splits)
      with 3 Inr kv Cons.IH show ?thesis by (fastforce intro: exI [of _ "meta # metas" for metas])
    qed (use Inr kv Cons.prems in simp)
  qed (use Cons in simp)
qed simp

text \<open>The entries a listing loads are the metadata of the plain uploads without the marker.\<close>

lemma listed_entries:
  assumes wf: "uploads_wf E (contents d CF_DEFAULT)" and pre: "prefix ''mpu:'' pre"
  shows "(x, v) \<in> set (filter (\<lambda>x. \<not> contains (fst x) '':part:'')
        (entries_with_prefix (contents d CF_DEFAULT) pre)) \<longleftrightarrow>
    (\<exists>meta. contents d CF_DEFAULT x = Some v \<and> prefix pre x
      \<and> x = upload_db_key (mm_bucket meta) (mm_key meta) (mm_upload_id meta)
      \<and> decode (multipart_codec E) v = Inr meta \<and> mm_bucket meta \<noteq> ''part'' \<and> mm_key meta \<noteq> ''part''
      \<and> plain_upload (mm_bucket meta) (mm_key meta) (mm_upload_id meta))" (is "?L \<longleftrightarrow> ?R")
proof
  assume ?L
  then have x: "contents d CF_DEFAULT x = Some v" "prefix pre x" "\<not> contains x '':part:''"
    using set_entries_with_prefix [OF finite_contents, of d CF_DEFAULT pre] by auto
  have "prefix ''mpu:'' x" using pre x(2) prefix_order.trans by blast
  with wf x(1) show ?R
  proof (cases rule: uploads_wfE)
    case (upload meta)
    with x upload_key_part_marker [OF upload(3)] show ?thesis by auto
  qed (use x part_key_part_marker in blast)
next
  assume ?R
  then obtain meta where m: "contents d CF_DEFAULT x = Some v" "prefix pre x"
      "x = upload_db_key (mm_bucket meta) (mm_key meta) (mm_upload_id meta)"
      "decode (multipart_codec E) v = Inr meta" "mm_bucket meta \<noteq> ''part''" "mm_key meta \<noteq> ''part''"
      "plain_upload (mm_bucket meta) (mm_key meta) (mm_upload_id meta)" by (elim exE conjE)
  then have "\<not> contains x '':part:''" by (simp add: upload_key_part_marker)
  with m(1,2) show ?L by (simp add: set_entries_with_prefix finite_contents)
qed

lemma list_uploads_ok:
  assumes wf: "uploads_wf E (contents d CF_DEFAULT)" and pre: "prefix ''mpu:'' pre"
    and ok: "list_multipart_uploads_with_prefix E d pre = Inr ups"
  shows "up \<in> set ups \<longleftrightarrow> (\<exists>b k u. plain_upload b k u \<and> b \<noteq> ''part'' \<and> k \<noteq> ''part''
    \<and> prefix pre (upload_db_key b k u) \<and> uploads d (b, k, u) = Some up)" (is "_ \<longleftrightarrow> ?R")
proof -
  let ?m = "contents d CF_DEFAULT"
  let ?load = "\<lambda>meta. load_upload E d (part_prefix (mm_bucket meta) (mm_key meta) (mm_upload_id meta)) meta"
  let ?es = "filter (\<lambda>x. \<not> contains (fst x) '':part:'') (entries_with_prefix ?m pre)"
  from list_uploads_loop_ok [OF ok [unfolded list_multipart_uploads_with_prefix_def]] obtain es metas where
    scan: "scan_prefix pre (db_prefix_iterator E d CF_DEFAULT pre) = Inr es"
    and metas: "map (\<lambda>x. decode (multipart_codec E) (snd x))
      (filter (\<lambda>x. \<not> contains (fst x) '':part:'') es) = map Inr metas"
    and ups: "map ?load metas = map Inr ups"
    by (elim exE conjE)
  note metas = metas [unfolded scan_prefix_result [OF scan]]
  note es = listed_entries [OF wf pre]
  show ?thesis
  proof
    assume "up \<in> set ups"
    then obtain meta where l: "?load meta = Inr up" and "meta \<in> set metas"
      using map_Inr_mem [OF ups] by blast
    then obtain x v where x: "(x, v) \<in> set ?es" "decode (multipart_codec E) v = Inr meta"
      using map_Inr_mem [OF metas] by (metis prod.collapse)
    from x es have m: "?m x = Some v" "prefix pre x" "mm_bucket meta \<noteq> ''part''" "mm_key meta \<noteq> ''part''"
        "x = upload_db_key (mm_bucket meta) (mm_key meta) (mm_upload_id meta)"
      and pl: "plain_upload (mm_bucket meta) (mm_key meta) (mm_upload_id meta)" by auto
    with x load_upload_ok [OF wf pl l]
    have "uploads d (mm_bucket meta, mm_key meta, mm_upload_id meta) = Some up"
      by (simp add: upload_view_def)
    with m pl show ?R by blast
  next
    assume ?R
    then obtain b k u v meta where pl: "plain_upload b k u" "b \<noteq> ''part''" "k \<noteq> ''part''"
        "prefix pre (upload_db_key b k u)" and v: "?m (upload_db_key b k u) = Some v"
        "decode (multipart_codec E) v = Inr meta" and up: "up = upload_of meta (parts_view E ?m b k u)"
      unfolding upload_view_Some by (elim exE conjE)
    from uploads_wf_upload [OF wf pl(1) v(1)] v(2)
    have meta: "mm_bucket meta = b" "mm_key meta = k" "mm_upload_id meta = u" by auto
    with pl v es have "(upload_db_key b k u, v) \<in> set ?es" by blast
    with v(2) have mm: "meta \<in> set metas" using map_Inr_mem [OF metas] by (metis snd_conv)
    then obtain up' where l: "?load meta = Inr up'" using map_Inr_ex [OF ups] by blast
    with load_upload_ok [OF wf pl(1)] up meta have "up' = up" by simp
    with l mm show "up \<in> set ups" using map_Inr_mem [OF ups] by blast
  qed
qed

end

lemma list_uploads_loop_runs:
  assumes "\<And>k v. (k, v) \<in> set es \<Longrightarrow> prefix pre k \<Longrightarrow> \<not> contains k '':part:'' \<Longrightarrow> \<exists>meta up. decode (multipart_codec E) v = Inr meta
      \<and> load_upload E d (part_prefix (mm_bucket meta) (mm_key meta) (mm_upload_id meta)) meta = Inr up"
  shows "\<exists>ups. list_uploads_loop E d pre (map Inr es) = Inr ups"
  using assms
proof (induction es)
  case (Cons x es)
  obtain k v where x: "x = (k, v)" by fastforce
  obtain ups where "list_uploads_loop E d pre (map Inr es) = Inr ups" using Cons.IH Cons.prems by (metis list.set_intros(2))
  moreover have "\<exists>meta up. decode (multipart_codec E) v = Inr meta
      \<and> load_upload E d (part_prefix (mm_bucket meta) (mm_key meta) (mm_upload_id meta)) meta = Inr up"
    if "prefix pre k" "\<not> contains k '':part:''" using Cons.prems [of k v] that x by simp
  ultimately show ?case by (cases "prefix pre k"; cases "contains k '':part:''") (auto simp: x starts_with_def)
qed simp

context reliable_env
begin

lemma load_upload_runs:
  assumes "uploads_wf E (contents d CF_DEFAULT)" and "plain_upload b k u"
  shows "\<exists>up. load_upload E d (part_prefix b k u) meta = Inr up"
proof -
  let ?es = "entries_with_prefix (contents d CF_DEFAULT) (part_prefix b k u)"
  have "\<exists>p. decode (part_codec E) (snd x) = Inr p" if "x \<in> set ?es" for x
    using that uploads_wf_part [OF assms] set_entries_with_prefix [OF finite_contents, of d CF_DEFAULT "part_prefix b k u"] by fastforce
  then have "\<forall>x \<in> set ?es. decode (part_codec E) (snd x) = Inr (projr (decode (part_codec E) (snd x)))" by fastforce
  from collect_prefix_eq [OF this] show ?thesis by (simp add: load_upload_def collect_parts_eq)
qed

lemma list_all_uploads_runs:
  assumes "uploads_wf E (contents d CF_DEFAULT)"
  shows "\<exists>ups. list_all_multipart_uploads E d = Inr ups"
proof -
  let ?m = "contents d CF_DEFAULT"
  have "\<exists>meta up. decode (multipart_codec E) v = Inr meta
      \<and> load_upload E d (part_prefix (mm_bucket meta) (mm_key meta) (mm_upload_id meta)) meta = Inr up"
    if "(k, v) \<in> set (entries_from ?m ''mpu:'')" "prefix ''mpu:'' k" "\<not> contains k '':part:''" for k v
  proof -
    have "finite {k \<in> dom ?m. ''mpu:'' \<le> k}" using finite_contents by simp
    then have "?m k = Some v" using that(1) by (auto simp: entries_from_def)
    with that(2,3) have "(k, v) \<in> set (filter (\<lambda>x. \<not> contains (fst x) '':part:'') (entries_with_prefix ?m ''mpu:''))"
      by (simp add: set_entries_with_prefix finite_contents)
    then obtain meta where "decode (multipart_codec E) v = Inr meta" "plain_upload (mm_bucket meta) (mm_key meta) (mm_upload_id meta)"
      unfolding listed_entries [OF assms prefix_order.refl] by blast
    with load_upload_runs [OF assms] show ?thesis by blast
  qed
  from list_uploads_loop_runs [of "entries_from ?m ''mpu:''" "''mpu:''" E d, OF this] show ?thesis
    by (simp add: list_all_multipart_uploads_def list_multipart_uploads_with_prefix_def iter_ok)
qed

end

section \<open>Properties\<close>

text \<open>
  Recording a part adds it under its number to the upload, replacing an earlier part of that
  number, and changes no other upload; an upload that is read back holds the recorded part.
\<close>

theorem record_part_get:
  assumes "metadata_env E contents" and "uploads_wf E (contents d CF_DEFAULT)" and "plain_upload b k u"
    and "record_part E d b k u n etag sz = (Inr x, d')" and "get_multipart_upload E d' b k u = Inr up"
  shows "\<exists>old. upload_view E (contents d CF_DEFAULT) (b, k, u) = Some old
    \<and> up = old\<lparr>mpu_parts := (mpu_parts old)(n \<mapsto> \<lparr>part_number = n, part_etag = etag, part_size = sz\<rparr>)\<rparr>
    \<and> (\<forall>b' k' u'. plain_upload b' k' u' \<longrightarrow> (b', k', u') \<noteq> (b, k, u) \<longrightarrow>
          upload_view E (contents d' CF_DEFAULT) (b', k', u') = upload_view E (contents d CF_DEFAULT) (b', k', u'))"
proof -
  have "upload_view E (contents d' CF_DEFAULT) (b, k, u) = Some up"
    using metadata_env.get_multipart_upload_ok [OF assms(1) _ assms(3,5)]
      metadata_env.uploads_wf_record [OF assms(1,2,3,4)] .
  then show ?thesis
    using metadata_env.record_part_view [OF assms(1,4,3)] assms(3) by (simp split: if_splits) blast
qed

text \<open>An upload in the in-memory store, for the examples.\<close>

definition example_upload :: mem_db where
  "example_upload = snd (initiate_multipart_upload mem_env 1 mem_empty ''photos'' ''a'' ''u1'' None)"

lemma example_upload_wf: "uploads_wf mem_env (mem_contents example_upload CF_DEFAULT)"
proof -
  have e: "uploads_wf mem_env (mem_contents mem_empty CF_DEFAULT)" by (simp add: uploads_wf_def mem_eval)
  have "fst (initiate_multipart_upload mem_env 1 mem_empty ''photos'' ''a'' ''u1'' None)
      = Inr (MultipartUpload_new 1 ''u1'' ''photos'' ''a'' None)"
  proof -
    have "check_names ''a'' ''u1'' = Inr ()" by code_simp
    then show ?thesis by (simp add: initiate_multipart_upload_def MultipartUpload_new_def mem_env_def)
  qed
  then have "initiate_multipart_upload mem_env 1 mem_empty ''photos'' ''a'' ''u1'' None
      = (Inr (MultipartUpload_new 1 ''u1'' ''photos'' ''a'' None), example_upload)"
    by (simp add: example_upload_def prod_eq_iff)
  from mem.uploads_wf_initiate [OF e _ this] show ?thesis by (simp add: plain_upload_def)
qed

theorem record_part_get_witness:
  "\<exists>d' up. record_part mem_env example_upload ''photos'' ''a'' ''u1'' 3 ''e3'' 9 = (Inr (), d')
     \<and> get_multipart_upload mem_env d' ''photos'' ''a'' ''u1'' = Inr up
     \<and> mpu_parts up 3 = Some \<lparr>part_number = 3, part_etag = ''e3'', part_size = 9\<rparr>"
proof -
  let ?r = "record_part mem_env example_upload ''photos'' ''a'' ''u1'' 3 ''e3'' 9"
  have "fst ?r = Inr ()" by code_simp
  then obtain d' where r: "?r = (Inr (), d')" by (metis prod.collapse)
  have "isl (get_multipart_upload mem_env (snd ?r) ''photos'' ''a'' ''u1'') = False" by code_simp
  then obtain up where g: "get_multipart_upload mem_env d' ''photos'' ''a'' ''u1'' = Inr up"
    using r by (metis snd_conv sum.collapse(2))
  have p: "plain_upload ''photos'' ''a'' ''u1''" by code_simp
  from record_part_get [OF mem_is_env(1), OF example_upload_wf p r g] have
    "mpu_parts up 3 = Some \<lparr>part_number = 3, part_etag = ''e3'', part_size = 9\<rparr>" by auto
  with r g show ?thesis by blast
qed

text \<open>
  C36: Completing an upload hands over exactly what is stored of it, with all its parts, and removes
  the upload: its entry and every part entry are gone, no other upload changed, and the entries
  that remain are well formed. Bucket, key and identifier of the uploads are free of colons, which
  separate them in the keys of the database.
\<close>

theorem complete_removes_upload:
  assumes "metadata_env E contents" and "uploads_wf E (contents d CF_DEFAULT)" and "plain_upload b k u"
    and "complete_multipart_upload E d b k u = (Inr up, d')"
  shows "upload_view E (contents d CF_DEFAULT) (b, k, u) = Some up
    \<and> upload_view E (contents d' CF_DEFAULT) (b, k, u) = None
    \<and> (\<forall>y. prefix (part_prefix b k u) y \<longrightarrow> contents d' CF_DEFAULT y = None)
    \<and> (\<forall>b' k' u'. plain_upload b' k' u' \<longrightarrow> (b', k', u') \<noteq> (b, k, u) \<longrightarrow>
          upload_view E (contents d' CF_DEFAULT) (b', k', u') = upload_view E (contents d CF_DEFAULT) (b', k', u'))
    \<and> uploads_wf E (contents d' CF_DEFAULT)"
proof -
  from metadata_env.complete_multipart_upload_ok [OF assms(1,4)] obtain x where
    g: "get_multipart_upload E d b k u = Inr up" and r: "remove_upload E d b k u = (Inr x, d')" by blast
  note v = metadata_env.remove_upload_view [OF assms(1) r assms(3)]
  show ?thesis
    using metadata_env.get_multipart_upload_ok [OF assms(1,2,3) g] v [OF assms(3)] v
      metadata_env.uploads_wf_remove [OF assms(1,2) r] by (simp add: assms(3))
qed

theorem complete_removes_upload_witness:
  "\<exists>d' up. complete_multipart_upload mem_env example_upload ''photos'' ''a'' ''u1'' = (Inr up, d')
     \<and> upload_view mem_env (mem_contents d' CF_DEFAULT) (''photos'', ''a'', ''u1'') = None"
proof -
  let ?r = "complete_multipart_upload mem_env example_upload ''photos'' ''a'' ''u1''"
  have "isl (fst ?r) = False" by code_simp
  then obtain up d' where r: "?r = (Inr up, d')" by (metis prod.collapse sum.collapse(2))
  have p: "plain_upload ''photos'' ''a'' ''u1''" by code_simp
  from complete_removes_upload [OF mem_is_env(1), OF example_upload_wf p r] r show ?thesis by blast
qed

text \<open>
  A completed listing of all uploads holds exactly the stored uploads, except those of a bucket
  or of an object that is called \<open>part\<close>, which it never shows.
\<close>

theorem list_all_uploads_exact:
  assumes "metadata_env E contents" and "uploads_wf E (contents d CF_DEFAULT)"
    and "list_all_multipart_uploads E d = Inr ups"
  shows "up \<in> set ups \<longleftrightarrow> (\<exists>b k u. plain_upload b k u \<and> b \<noteq> ''part'' \<and> k \<noteq> ''part''
    \<and> upload_view E (contents d CF_DEFAULT) (b, k, u) = Some up)"
proof -
  have "prefix ''mpu:'' (upload_db_key b k u)" for b k u by simp
  then show ?thesis
    using metadata_env.list_uploads_ok [OF assms(1,2) _ assms(3) [unfolded list_all_multipart_uploads_def]]
    by simp
qed

theorem list_all_uploads_exact_witness:
  "\<exists>ups up. list_all_multipart_uploads mem_env example_upload = Inr ups \<and> up \<in> set ups
     \<and> mpu_key up = ''a''"
proof -
  have "isl (list_all_multipart_uploads mem_env example_upload) = False" by code_simp
  then obtain ups where l: "list_all_multipart_uploads mem_env example_upload = Inr ups"
    by (metis sum.collapse(2))
  have p: "plain_upload ''photos'' ''a'' ''u1''" by code_simp
  have "map_option mpu_key (upload_view mem_env (mem_contents example_upload CF_DEFAULT) (''photos'', ''a'', ''u1''))
      = Some ''a''" by code_simp
  then obtain up where up: "upload_view mem_env (mem_contents example_upload CF_DEFAULT) (''photos'', ''a'', ''u1'') = Some up"
      "mpu_key up = ''a''" by auto
  with p list_all_uploads_exact [OF mem_is_env(1), OF example_upload_wf l, of up] have "up \<in> set ups" by force
  with l up show ?thesis by blast
qed

text \<open>
  The bucket name \<open>part\<close> is valid, an upload into that bucket is accepted and can be read back,
  and no listing ever shows it: the part marker is found in its own key.
\<close>

theorem list_hides_part_keys:
  "let r = initiate_multipart_upload mem_env 1 mem_empty ''part'' ''a'' ''u1'' None; d = snd r in
     valid_bucket ''part'' \<and> \<not> isl (fst r) \<and> \<not> isl (get_multipart_upload mem_env d ''part'' ''a'' ''u1'')
     \<and> map_sum id length (list_all_multipart_uploads mem_env d) = Inr 0
     \<and> map_sum id length (list_multipart_uploads mem_env d ''part'') = Inr 0"
  by code_simp

end
