(* ===== verification/Raft_Apply.thy ===== *)
theory Raft_Apply
  imports Raft_Log Meta_Multipart
begin

text \<open>
  The replicated state machine: applying a command, \<open>raft/state_machine.rs\<close>, applying a batch of
  committed entries, \<open>raft/storage.rs\<close>, and submitting commands with retries, \<open>raft/node.rs\<close>.

  Every replica applies the same entries in the same order, each with its own clock. The lemmas
  show that replicas that start from agreeing stores keep agreeing, on every key and value except
  the creation times of buckets, that applying keeps the entries of the store well formed, and
  how far a batch gets when one of its commands fails.
\<close>

section \<open>Applying commands\<close>

text \<open>Every failure of a command becomes a write error of the storage.\<close>

fun apply_result :: "(MetadataError + 'a) \<times> 'd \<Rightarrow> (StorageIOError + unit) \<times> 'd" where
  "apply_result (Inl e, d) = (Inl (WriteError (MetadataError_to_string e)), d)"
| "apply_result (Inr _, d) = (Inr (), d)"

fun apply_command ::
  "('d, 'v) env \<Rightarrow> instant \<Rightarrow> 'd \<Rightarrow> Command \<Rightarrow> (StorageIOError + unit) \<times> 'd" where
  "apply_command E now d (CreateBucket bucket) = apply_result (create_bucket E now d (bkt_name bucket))"
| "apply_command E now d (DeleteBucket name) = apply_result (delete_bucket E d name)"
| "apply_command E now d (PutObjectMetadata metadata) = apply_result (put_object_metadata E d metadata)"
| "apply_command E now d (DeleteObjectMetadata bucket key) =
     apply_result (delete_object_metadata E d bucket key)"
| "apply_command E now d (AcquireLock bucket key lock_type holder) =
     apply_result (acquire_lock E d bucket key lock_type holder)"
| "apply_command E now d (ReleaseLock bucket key holder) =
     apply_result (release_lock E d bucket key holder)"

text \<open>One iteration of the loop over the committed entries; \<open>now\<close> is the local time then.\<close>

definition apply_entry ::
  "('d, 'v) env \<Rightarrow> ('vote, 'mem, 'd, 'v) raft_codecs \<Rightarrow> instant \<Rightarrow> 'd \<Rightarrow> 'mem Entry
    \<Rightarrow> (StorageIOError + unit) \<times> 'd" where
  "apply_entry E C now d entry =
     (case entry_payload entry of
        Blank \<Rightarrow> (Inr (), d)
      | Normal cmd \<Rightarrow> apply_command E now d cmd
      | Membership membership \<Rightarrow>
        (case state_cf E d of
           Inl e \<Rightarrow> (Inl e, d)
         | Inr cf \<Rightarrow>
           (let stored = \<lparr>sm_log_id = Some (entry_log_id entry), sm_membership = membership\<rparr> in
            case write_err (encode (membership_codec C) stored) of
              Inl e \<Rightarrow> (Inl e, d)
            | Inr encoded \<Rightarrow>
              (case write_err (db_put E d cf ''membership'' encoded) of
                 Inl e \<Rightarrow> (Inl e, d)
               | Inr d' \<Rightarrow> (Inr (), d')))))"

fun apply_loop ::
  "('d, 'v) env \<Rightarrow> ('vote, 'mem, 'd, 'v) raft_codecs \<Rightarrow> 'd \<Rightarrow> (instant \<times> 'mem Entry) list
    \<Rightarrow> LogId option \<Rightarrow> unit list \<Rightarrow> (StorageIOError + LogId option \<times> unit list) \<times> 'd" where
  "apply_loop E C d [] last_applied responses = (Inr (last_applied, responses), d)"
| "apply_loop E C d ((now, entry) # entries) last_applied responses =
     (case apply_entry E C now d entry of
        (Inl e, d') \<Rightarrow> (Inl e, d')
      | (Inr _, d') \<Rightarrow>
        apply_loop E C d' entries (Some (entry_log_id entry)) (responses @ [()]))"

definition apply_to_state_machine ::
  "('d, 'v) env \<Rightarrow> ('vote, 'mem, 'd, 'v) raft_codecs \<Rightarrow> 'd \<Rightarrow> (instant \<times> 'mem Entry) list
    \<Rightarrow> (StorageIOError + unit list) \<times> 'd" where
  "apply_to_state_machine E C d entries =
     (case apply_loop E C d entries None [] of
        (Inl e, d1) \<Rightarrow> (Inl e, d1)
      | (Inr (None, responses), d1) \<Rightarrow> (Inr responses, d1)
      | (Inr (Some log_id, responses), d1) \<Rightarrow>
        (case write_log_id E C d1 ''last_applied_log_id'' log_id of
           (Inl e, d2) \<Rightarrow> (Inl e, d2)
         | (Inr _, d2) \<Rightarrow> (Inr responses, d2)))"

section \<open>Submitting commands\<close>

text \<open>
  What openraft answers to a client write: done, a leader to forward to (if one is known), or
  another error with its message.
\<close>

datatype ClientWriteResult = Written | ForwardToLeader "u64 option" | WriteFailed string

text \<open>
  Waiting for a leader polls openraft until it reports one or the timeout has passed.
  \<open>leader i\<close> is what the \<open>i\<close>-th poll reports and \<open>elapsed i\<close> the milliseconds since the start
  when it is evaluated; the fuel bounds the number of polls.
\<close>

fun wait_for_leader ::
  "nat \<Rightarrow> (nat \<Rightarrow> u64 option) \<Rightarrow> (nat \<Rightarrow> nat) \<Rightarrow> nat \<Rightarrow> nat \<Rightarrow> (MetadataError + u64) option" where
  "wait_for_leader 0 leader elapsed timeout i = None"
| "wait_for_leader (Suc fuel) leader elapsed timeout i =
     (case leader i of
        Some l \<Rightarrow> Some (Inr l)
      | None \<Rightarrow>
        if elapsed i > timeout then Some (Inl (Raft ''timeout waiting for leader''))
        else wait_for_leader fuel leader elapsed timeout (Suc i))"

text \<open>
  The retry loop. The state \<open>'s\<close> is that of the cluster: \<open>client_write\<close> submits the command,
  \<open>await_leader\<close> waits and says whether a leader was found, \<open>http_addr\<close> looks up the address of
  a node in the membership of that state.
\<close>

function write_loop ::
  "('s \<Rightarrow> Command \<Rightarrow> ClientWriteResult \<times> 's) \<Rightarrow> ('s \<Rightarrow> bool \<times> 's) \<Rightarrow> ('s \<Rightarrow> u64 \<Rightarrow> string option)
    \<Rightarrow> u64 \<Rightarrow> Command \<Rightarrow> nat \<Rightarrow> nat \<Rightarrow> MetadataError option \<Rightarrow> 's
    \<Rightarrow> (MetadataError + unit) \<times> 's" where
  "write_loop client_write await_leader http_addr node_id command max_retries attempt last_error s =
     (if \<not> attempt \<le> max_retries then
        (Inl (case last_error of Some e \<Rightarrow> e | None \<Rightarrow> Raft ''Max retries exceeded''), s)
      else (case client_write s command of
              (Written, s') \<Rightarrow> (Inr (), s')
            | (ForwardToLeader leader_id, s') \<Rightarrow>
              (if leader_id = Some node_id \<or> leader_id = None then
                 (case await_leader s' of
                    (False, s'') \<Rightarrow>
                      write_loop client_write await_leader http_addr node_id command max_retries
                        (attempt + 1) (Some (NotLeader None None)) s''
                  | (True, s'') \<Rightarrow>
                      write_loop client_write await_leader http_addr node_id command max_retries
                        (attempt + 1) last_error s'')
               else (Inl (NotLeader leader_id (Option.bind leader_id (http_addr s'))), s'))
            | (WriteFailed e, s') \<Rightarrow> (Inl (Raft e), s')))"
  by pat_completeness auto
termination
  by (relation "measure (\<lambda>(_, _, _, _, _, max_retries, attempt, _). Suc max_retries - attempt)") auto

declare write_loop.simps [simp del]

definition write_with_retry where
  "write_with_retry client_write await_leader http_addr node_id command max_retries s =
     write_loop client_write await_leader http_addr node_id command max_retries 0 None s"

definition raft_write where
  "raft_write client_write await_leader http_addr node_id command s =
     write_with_retry client_write await_leader http_addr node_id command 5 s"

definition raft_put_object_metadata where
  "raft_put_object_metadata client_write await_leader http_addr node_id metadata s =
     raft_write client_write await_leader http_addr node_id (PutObjectMetadata metadata) s"

definition raft_delete_object_metadata where
  "raft_delete_object_metadata client_write await_leader http_addr node_id bucket key s =
     raft_write client_write await_leader http_addr node_id (DeleteObjectMetadata bucket key) s"

definition raft_create_bucket where
  "raft_create_bucket client_write await_leader http_addr node_id now name s =
     raft_write client_write await_leader http_addr node_id (CreateBucket (Bucket_new now name)) s"

definition raft_delete_bucket where
  "raft_delete_bucket client_write await_leader http_addr node_id name s =
     raft_write client_write await_leader http_addr node_id (DeleteBucket name) s"

definition raft_acquire_lock where
  "raft_acquire_lock client_write await_leader http_addr node_id bucket key lock_type holder s =
     raft_write client_write await_leader http_addr node_id (AcquireLock bucket key lock_type holder) s"

definition raft_release_lock where
  "raft_release_lock client_write await_leader http_addr node_id bucket key holder s =
     raft_write client_write await_leader http_addr node_id (ReleaseLock bucket key holder) s"

section \<open>Replicas agree\<close>

text \<open>
  Two stores agree if they hold the same values under all keys other than those of buckets, and
  the same buckets; the values of buckets differ in the creation time.
\<close>

definition stores_agree :: "(string \<rightharpoonup> 'v) \<Rightarrow> (string \<rightharpoonup> 'v) \<Rightarrow> bool" where
  "stores_agree m m' \<longleftrightarrow>
     (\<forall>k. \<not> prefix ''bkt:'' k \<longrightarrow> m k = m' k)
     \<and> (\<forall>n. m (bucket_key n) = None \<longleftrightarrow> m' (bucket_key n) = None)"

lemma stores_agree_put:
  "stores_agree m m' \<Longrightarrow> \<not> prefix ''bkt:'' k \<Longrightarrow> stores_agree (m(k \<mapsto> v)) (m'(k \<mapsto> v))"
  by (auto simp: stores_agree_def bucket_key_prefix)

lemma stores_agree_put_bucket:
  "stores_agree m m' \<Longrightarrow> stores_agree (m(bucket_key n \<mapsto> v)) (m'(bucket_key n \<mapsto> v'))"
  by (auto simp: stores_agree_def bucket_key_prefix)

lemma stores_agree_delete: "stores_agree m m' \<Longrightarrow> stores_agree (m(k := None)) (m'(k := None))"
  by (auto simp: stores_agree_def bucket_key_prefix)

lemma stores_agree_get: "stores_agree m m' \<Longrightarrow> \<not> prefix ''bkt:'' k \<Longrightarrow> m k = m' k"
  by (simp add: stores_agree_def)

lemma not_bucket_key [simp]:
  "\<not> prefix ''bkt:'' (object_db_key b k)" "\<not> prefix ''bkt:'' (lock_key b k)"
  by (simp_all add: object_db_key_def lock_key_def)

lemma fst_apply_result: "fst x = fst y \<Longrightarrow> fst (apply_result x) = fst (apply_result y)"
  by (cases x; cases y; cases "fst x") auto

lemma snd_apply_result [simp]: "snd (apply_result x) = snd x"
  by (cases x; cases "fst x") auto

lemma apply_resultD: "apply_result x = (r, d') \<Longrightarrow> \<exists>y. x = (y, d')"
  by (metis prod.collapse snd_apply_result snd_conv)

context reliable_env
begin

text \<open>In an environment without failures the store behaves as a function of its contents.\<close>

definition put_to :: "'a \<Rightarrow> string \<Rightarrow> string \<Rightarrow> 'b \<Rightarrow> 'a" where
  "put_to d cf k v = projr (db_put E d cf k v)"

definition delete_from :: "'a \<Rightarrow> string \<Rightarrow> string \<Rightarrow> 'a" where
  "delete_from d cf k = projr (db_delete E d cf k)"

lemma put_eq: "db_put E d cf k v = Inr (put_to d cf k v)"
  using put_ok [of d cf k v] by (auto simp: put_to_def)

lemma delete_eq: "db_delete E d cf k = Inr (delete_from d cf k)"
  using delete_ok [of d cf k] by (auto simp: delete_from_def)

lemmas store_eqs = get_eq put_eq delete_eq put_law [OF put_eq] delete_law [OF delete_eq]

lemma acquire_lock_agree:
  assumes "stores_agree (contents d1 CF_DEFAULT) (contents d2 CF_DEFAULT)"
  shows "fst (acquire_lock E d1 b k t h) = fst (acquire_lock E d2 b k t h)
    \<and> stores_agree (contents (snd (acquire_lock E d1 b k t h)) CF_DEFAULT)
        (contents (snd (acquire_lock E d2 b k t h)) CF_DEFAULT)"
proof -
  have "get_lock_state E d1 b k = get_lock_state E d2 b k"
    using stores_agree_get [OF assms, of "lock_key b k"] by (simp add: get_lock_state_def get_eq)
  then show ?thesis
    using stores_agree_put [OF assms, of "lock_key b k"] assms
    by (auto simp: acquire_lock_def Let_def store_eqs split: sum.splits option.splits)
qed

lemma release_lock_agree:
  assumes "stores_agree (contents d1 CF_DEFAULT) (contents d2 CF_DEFAULT)"
  shows "fst (release_lock E d1 b k h) = fst (release_lock E d2 b k h)
    \<and> stores_agree (contents (snd (release_lock E d1 b k h)) CF_DEFAULT)
        (contents (snd (release_lock E d2 b k h)) CF_DEFAULT)"
proof -
  have "get_lock_state E d1 b k = get_lock_state E d2 b k"
    using stores_agree_get [OF assms, of "lock_key b k"] by (simp add: get_lock_state_def get_eq)
  then show ?thesis
    using stores_agree_put [OF assms, of "lock_key b k"] stores_agree_delete [OF assms] assms
    by (auto simp: release_lock_def Let_def store_eqs split: sum.splits option.splits)
qed

lemma create_bucket_agree:
  assumes "stores_agree (contents d1 CF_DEFAULT) (contents d2 CF_DEFAULT)"
  shows "fst (apply_result (create_bucket E now1 d1 n)) = fst (apply_result (create_bucket E now2 d2 n))
    \<and> stores_agree (contents (snd (apply_result (create_bucket E now1 d1 n))) CF_DEFAULT)
        (contents (snd (apply_result (create_bucket E now2 d2 n))) CF_DEFAULT)"
proof (cases "valid_bucket n \<and> contents d1 CF_DEFAULT (bucket_key n) = None")
  case True
  with assms have n: "valid_bucket n" "contents d1 CF_DEFAULT (bucket_key n) = None"
      "contents d2 CF_DEFAULT (bucket_key n) = None" by (auto simp: stores_agree_def)
  from create_bucket_fresh [OF n(1,2), of now1] obtain d1' where
    1: "create_bucket E now1 d1 n = (Inr (Bucket_new now1 n), d1')" by blast
  from create_bucket_fresh [OF n(1,3), of now2] obtain d2' where
    2: "create_bucket E now2 d2 n = (Inr (Bucket_new now2 n), d2')" by blast
  from create_bucket_ok [OF 1] create_bucket_ok [OF 2] assms show ?thesis
    by (auto simp: 1 2 stores_agree_put_bucket)
next
  case False
  show ?thesis
  proof (cases "valid_bucket n")
    case True
    with False assms have "contents d1 CF_DEFAULT (bucket_key n) \<noteq> None"
      "contents d2 CF_DEFAULT (bucket_key n) \<noteq> None" unfolding stores_agree_def by metis+
    with True assms show ?thesis by (simp add: create_bucket_taken)
  next
    case False
    then obtain e where "validate_bucket_name n = Inl e" by (cases "validate_bucket_name n") auto
    with assms show ?thesis by (simp add: create_bucket_def)
  qed
qed

lemma object_commands_agree:
  assumes "stores_agree (contents d1 CF_DEFAULT) (contents d2 CF_DEFAULT)"
  shows "fst (put_object_metadata E d1 m) = fst (put_object_metadata E d2 m)
    \<and> stores_agree (contents (snd (put_object_metadata E d1 m)) CF_DEFAULT)
        (contents (snd (put_object_metadata E d2 m)) CF_DEFAULT)
    \<and> fst (delete_object_metadata E d1 b k) = fst (delete_object_metadata E d2 b k)
    \<and> stores_agree (contents (snd (delete_object_metadata E d1 b k)) CF_DEFAULT)
        (contents (snd (delete_object_metadata E d2 b k)) CF_DEFAULT)
    \<and> fst (delete_bucket E d1 b) = fst (delete_bucket E d2 b)
    \<and> stores_agree (contents (snd (delete_bucket E d1 b)) CF_DEFAULT)
        (contents (snd (delete_bucket E d2 b)) CF_DEFAULT)"
  using assms
  by (auto simp: put_object_metadata_def prepare_metadata_write_def delete_object_metadata_def
      delete_bucket_def store_eqs Let_def stores_agree_put stores_agree_delete split: sum.splits)

lemma apply_command_agree:
  assumes "stores_agree (contents d1 CF_DEFAULT) (contents d2 CF_DEFAULT)"
  shows "fst (apply_command E now1 d1 cmd) = fst (apply_command E now2 d2 cmd)
    \<and> stores_agree (contents (snd (apply_command E now1 d1 cmd)) CF_DEFAULT)
        (contents (snd (apply_command E now2 d2 cmd)) CF_DEFAULT)"
  using create_bucket_agree [OF assms] object_commands_agree [OF assms] acquire_lock_agree [OF assms]
    release_lock_agree [OF assms]
  by (cases cmd) (auto intro: fst_apply_result)

end

context reliable_raft
begin

lemma apply_entry_agree:
  assumes "stores_agree (contents d1 CF_DEFAULT) (contents d2 CF_DEFAULT)"
  shows "fst (apply_entry E C now1 d1 en) = fst (apply_entry E C now2 d2 en)
    \<and> stores_agree (contents (snd (apply_entry E C now1 d1 en)) CF_DEFAULT)
        (contents (snd (apply_entry E C now2 d2 en)) CF_DEFAULT)"
proof (cases "entry_payload en")
  case (Membership x3)
  with assms show ?thesis
    by (auto simp: apply_entry_def state_cf_def cf_ok store_eqs Let_def split: sum.splits)
qed (use assms apply_command_agree [OF assms, of now1 _ now2] in \<open>auto simp: apply_entry_def\<close>)

lemma apply_loop_agree:
  assumes "stores_agree (contents d1 CF_DEFAULT) (contents d2 CF_DEFAULT)" and "map snd es1 = map snd es2"
  shows "fst (apply_loop E C d1 es1 l r) = fst (apply_loop E C d2 es2 l r)
    \<and> stores_agree (contents (snd (apply_loop E C d1 es1 l r)) CF_DEFAULT)
        (contents (snd (apply_loop E C d2 es2 l r)) CF_DEFAULT)"
  using assms
proof (induction es1 arbitrary: es2 d1 d2 l r)
  case (Cons e1 es1)
  then obtain now1 now2 en es2' where e1: "e1 = (now1, en)" and es2: "es2 = (now2, en) # es2'"
    and eq: "map snd es1 = map snd es2'" by (cases e1) auto
  obtain r1 d1' where a1: "apply_entry E C now1 d1 en = (r1, d1')" by fastforce
  obtain r2 d2' where a2: "apply_entry E C now2 d2 en = (r2, d2')" by fastforce
  from apply_entry_agree [OF Cons.prems(1), of now1 en now2] a1 a2
  have "r1 = r2" "stores_agree (contents d1' CF_DEFAULT) (contents d2' CF_DEFAULT)" by auto
  with Cons.IH [OF this(2) eq] show ?case
    by (auto simp: e1 es2 a1 a2 split: sum.splits)
qed auto

lemma apply_to_state_machine_agree:
  assumes "stores_agree (contents d1 CF_DEFAULT) (contents d2 CF_DEFAULT)" and "map snd es1 = map snd es2"
  shows "fst (apply_to_state_machine E C d1 es1) = fst (apply_to_state_machine E C d2 es2)
    \<and> stores_agree (contents (snd (apply_to_state_machine E C d1 es1)) CF_DEFAULT)
        (contents (snd (apply_to_state_machine E C d2 es2)) CF_DEFAULT)"
proof -
  obtain r1 d1' where l1: "apply_loop E C d1 es1 None [] = (r1, d1')" by fastforce
  obtain r2 d2' where l2: "apply_loop E C d2 es2 None [] = (r2, d2')" by fastforce
  from apply_loop_agree [OF assms, of None "[]"] l1 l2
  have "r1 = r2" "stores_agree (contents d1' CF_DEFAULT) (contents d2' CF_DEFAULT)" by auto
  then show ?thesis
    by (auto simp: apply_to_state_machine_def l1 l2 write_log_id_def state_cf_def cf_ok store_eqs
        split: sum.splits option.splits)
qed

end

section \<open>Applying keeps the store well formed\<close>

definition store_wf :: "('d, 'v) env \<Rightarrow> (string \<rightharpoonup> 'v) \<Rightarrow> bool" where
  "store_wf E m \<longleftrightarrow> buckets_wf E m \<and> objects_wf E m \<and> locks_wf E m \<and> uploads_wf E m"

text \<open>Commands are built from requests whose bucket names were checked.\<close>

fun command_ok :: "Command \<Rightarrow> bool" where
  "command_ok (PutObjectMetadata metadata) \<longleftrightarrow> CHR ''/'' \<notin> set (obj_bucket metadata)"
| "command_ok _ \<longleftrightarrow> True"

lemma locks_wf_cong: "(\<And>b k. m (lock_key b k) = m' (lock_key b k)) \<Longrightarrow> locks_wf E m = locks_wf E m'"
  by (simp add: locks_wf_def lock_view_def)

lemma uploads_wf_frame:
  assumes "uploads_wf E m" and "\<And>k. prefix ''mpu:'' k \<Longrightarrow> m' k = m k"
  shows "uploads_wf E m'"
  unfolding uploads_wf_def
proof (intro allI impI)
  fix x v assume "m' x = Some v" and x: "prefix ''mpu:'' x"
  then have "m x = Some v" using assms(2) by simp
  with assms(1) x show "(\<exists>meta. decode (multipart_codec E) v = Inr meta
           \<and> x = upload_db_key (mm_bucket meta) (mm_key meta) (mm_upload_id meta)
           \<and> plain_upload (mm_bucket meta) (mm_key meta) (mm_upload_id meta))
        \<or> (\<exists>b k u p. decode (part_codec E) v = Inr p \<and> x = part_key b k u (part_number p)
           \<and> plain_upload b k u)"
    unfolding uploads_wf_def by blast
qed

lemma uploads_wf_other:
  "uploads_wf E m \<Longrightarrow> \<not> prefix ''mpu:'' k \<Longrightarrow> uploads_wf E (m(k := v))"
  by (erule uploads_wf_frame) auto

lemma objects_wf_frame:
  "objects_wf E m \<Longrightarrow> (\<And>k. prefix ''obj:'' k \<Longrightarrow> m' k = m k) \<Longrightarrow> objects_wf E m'"
  by (auto simp: objects_wf_def)

lemma prefix_of_keys [simp]:
  "\<not> prefix ''mpu:'' (bucket_key n)" "\<not> prefix ''mpu:'' (object_db_key b k)"
  "\<not> prefix ''mpu:'' (lock_key b k)" "\<not> prefix ''obj:'' (bucket_key n)"
  "\<not> prefix ''obj:'' (lock_key b k)"
  by (simp_all add: bucket_key_def object_db_key_def lock_key_def)

context metadata_env
begin

lemma store_wf_bucket:
  assumes "store_wf E m" and "buckets_wf E (m(bucket_key n := v))"
  shows "store_wf E (m(bucket_key n := v))"
  using assms by (auto simp: store_wf_def objects_wf_other uploads_wf_other
      cong: locks_wf_cong)

lemma store_wf_object:
  assumes "store_wf E m" and "objects_wf E (m(object_db_key b k := v))"
  shows "store_wf E (m(object_db_key b k := v))"
  using assms by (auto simp: store_wf_def uploads_wf_other cong: locks_wf_cong buckets_wf_cong)

lemma store_wf_lock:
  assumes "store_wf E (contents d CF_DEFAULT)" and "locks_wf E (contents d' CF_DEFAULT)"
    and "\<forall>cf x. (cf, x) \<noteq> (CF_DEFAULT, lock_key b k) \<longrightarrow> contents d' cf x = contents d cf x"
  shows "store_wf E (contents d' CF_DEFAULT)"
proof -
  have fr: "contents d' CF_DEFAULT x = contents d CF_DEFAULT x" if "\<not> prefix ''lock:'' x" for x
  proof -
    have "x \<noteq> lock_key b k" using that by auto
    with assms(3) show ?thesis by simp
  qed
  have fr': "\<And>x. prefix ''obj:'' x \<Longrightarrow> contents d' CF_DEFAULT x = contents d CF_DEFAULT x"
    "\<And>x. prefix ''mpu:'' x \<Longrightarrow> contents d' CF_DEFAULT x = contents d CF_DEFAULT x"
    "\<And>n. contents d' CF_DEFAULT (bucket_key n) = contents d CF_DEFAULT (bucket_key n)"
    by (rule fr, auto simp: prefix_def bucket_key_def)+
  from assms(1) have "buckets_wf E (contents d CF_DEFAULT)" "objects_wf E (contents d CF_DEFAULT)"
    "uploads_wf E (contents d CF_DEFAULT)" by (simp_all add: store_wf_def)
  with buckets_wf_cong [where E = E and m = "contents d' CF_DEFAULT", OF fr'(3)] assms(2)
    objects_wf_frame [of E "contents d CF_DEFAULT" "contents d' CF_DEFAULT"]
    uploads_wf_frame [of E "contents d CF_DEFAULT" "contents d' CF_DEFAULT"] fr'(1,2)
  show ?thesis by (simp add: store_wf_def)
qed

lemma apply_command_wf:
  assumes wf: "store_wf E (contents d CF_DEFAULT)" and "command_ok cmd"
    and ap: "apply_command E now d cmd = (r, d')"
  shows "store_wf E (contents d' CF_DEFAULT)"
proof (cases cmd)
  case (CreateBucket bucket)
  with ap obtain x where c: "create_bucket E now d (bkt_name bucket) = (x, d')"
    by (auto dest: apply_resultD)
  show ?thesis
  proof (cases x)
    case (Inr b)
    from create_bucket_ok [OF c [unfolded Inr]] obtain v where
      v: "contents d' CF_DEFAULT = (contents d CF_DEFAULT)(bucket_key (bkt_name bucket) \<mapsto> v)" by auto
    have "buckets_wf E (contents d' CF_DEFAULT)"
      using wf by (intro create_bucket_wf [OF _ c]) (simp add: store_wf_def)
    then show ?thesis unfolding v by (rule store_wf_bucket [OF wf])
  qed (use c wf in \<open>auto dest: create_bucket_err\<close>)
next
  case (DeleteBucket name)
  with ap obtain x where c: "delete_bucket E d name = (x, d')" by (auto dest: apply_resultD)
  show ?thesis
  proof (cases x)
    case (Inr b)
    from delete_bucket_ok [OF c [unfolded Inr]] have
      v: "contents d' CF_DEFAULT = (contents d CF_DEFAULT)(bucket_key name := None)" by auto
    have "buckets_wf E (contents d' CF_DEFAULT)"
      using wf by (intro delete_bucket_wf [OF _ c]) (simp add: store_wf_def)
    then show ?thesis unfolding v by (rule store_wf_bucket [OF wf])
  qed (use c wf in \<open>auto dest: delete_bucket_err\<close>)
next
  case (PutObjectMetadata m)
  with ap obtain x where c: "put_object_metadata E d m = (x, d')" by (auto dest: apply_resultD)
  show ?thesis
  proof (cases x)
    case (Inr b)
    from put_object_metadata_ok [OF c [unfolded Inr]] obtain v where
      v: "encode (object_codec E) m = Inr v" "valid_key (obj_key m)"
        "contents d' = (contents d)(CF_DEFAULT :=
          (contents d CF_DEFAULT)(object_db_key (obj_bucket m) (obj_key m) \<mapsto> v))" by blast
    have "objects_wf E (contents d CF_DEFAULT)" using wf by (simp add: store_wf_def)
    from objects_wf_put [OF this codec_okD [OF object_codec_ok v(1)]] v(2) assms(2) PutObjectMetadata
    show ?thesis using store_wf_object [OF wf] v(3) by simp
  qed (use c wf in \<open>auto dest: put_object_metadata_err\<close>)
next
  case (DeleteObjectMetadata b k)
  with ap obtain x where c: "delete_object_metadata E d b k = (x, d')" by (auto dest: apply_resultD)
  show ?thesis
  proof (cases x)
    case (Inr u)
    from delete_object_metadata_ok [OF c [unfolded Inr]] have
      v: "contents d' CF_DEFAULT = (contents d CF_DEFAULT)(object_db_key b k := None)" by auto
    have "objects_wf E (contents d' CF_DEFAULT)"
      using wf unfolding v by (intro objects_wf_delete) (simp add: store_wf_def)
    then show ?thesis unfolding v by (rule store_wf_object [OF wf])
  qed (use c wf in \<open>auto dest: delete_object_metadata_err\<close>)
next
  case (AcquireLock b k t h)
  with ap obtain x where c: "acquire_lock E d b k t h = (x, d')" by (auto dest: apply_resultD)
  show ?thesis
  proof (cases x)
    case (Inr u)
    from acquire_lock_ok [OF c [unfolded Inr]] acquire_lock_wf [OF _ c] wf show ?thesis
      by (intro store_wf_lock [OF wf]) (auto simp: store_wf_def)
  qed (use c wf in \<open>auto dest: acquire_lock_err\<close>)
next
  case (ReleaseLock b k h)
  with ap obtain x where c: "release_lock E d b k h = (x, d')" by (auto dest: apply_resultD)
  show ?thesis
  proof (cases x)
    case (Inr u)
    from release_lock_ok [OF c [unfolded Inr]] release_lock_wf [OF _ c] wf show ?thesis
      by (intro store_wf_lock [OF wf]) (auto simp: store_wf_def)
  qed (use c wf in \<open>auto dest: release_lock_err\<close>)
qed

end

section \<open>Batches\<close>

context raft_store
begin

lemma apply_entry_wf:
  assumes wf: "store_wf E (contents d CF_DEFAULT)"
    and ok: "\<And>cmd. entry_payload en = Normal cmd \<Longrightarrow> command_ok cmd"
    and ap: "apply_entry E C now d en = (r, d')"
  shows "store_wf E (contents d' CF_DEFAULT)"
proof (cases "entry_payload en")
  case (Normal cmd)
  with ap ok apply_command_wf [OF wf, of cmd now r d'] show ?thesis by (simp add: apply_entry_def)
next
  case (Membership m)
  with ap have "contents d' CF_DEFAULT = contents d CF_DEFAULT"
    by (auto simp: apply_entry_def state_cf_def Let_def dest!: put_law split: sum.splits if_splits)
  with wf show ?thesis by simp
qed (use wf ap in \<open>simp add: apply_entry_def\<close>)

lemma apply_loop_wf:
  assumes "store_wf E (contents d CF_DEFAULT)" and "apply_loop E C d es l rs = (r, d')"
    and "\<forall>(now, en) \<in> set es. \<forall>cmd. entry_payload en = Normal cmd \<longrightarrow> command_ok cmd"
  shows "store_wf E (contents d' CF_DEFAULT)"
  using assms
proof (induction es arbitrary: d l rs)
  case (Cons e es)
  obtain now en where e: "e = (now, en)" by fastforce
  obtain x d1 where a: "apply_entry E C now d en = (x, d1)" by fastforce
  have "store_wf E (contents d1 CF_DEFAULT)"
    using Cons.prems e by (intro apply_entry_wf [OF Cons.prems(1) _ a]) auto
  with Cons e a show ?case by (cases x) auto
qed auto

text \<open>
  A batch that succeeds has applied every entry in order and recorded the last; a batch that fails
  has applied a proper prefix of the entries and recorded nothing.
\<close>

lemma apply_loop_ok:
  assumes "apply_loop E C d es l rs = (Inr (l', rs'), d')"
  shows "length rs' = length rs + length es
    \<and> l' = (if es = [] then l else Some (entry_log_id (snd (last es))))"
  using assms
proof (induction es arbitrary: d l rs)
  case (Cons e es)
  obtain now en where e: "e = (now, en)" by fastforce
  obtain x d1 where a: "apply_entry E C now d en = (x, d1)" by fastforce
  with Cons.prems e have "apply_loop E C d1 es (Some (entry_log_id en)) (rs @ [()]) = (Inr (l', rs'), d')"
    by (cases x) auto
  from Cons.IH [OF this] show ?case by (simp add: e)
qed simp

lemma apply_to_state_machine_ok:
  assumes "apply_to_state_machine E C d es = (Inr rs, d')" and "es \<noteq> []"
  shows "length rs = length es
    \<and> log_ids d' ''last_applied_log_id'' = Some (entry_log_id (snd (last es)))"
proof -
  from assms(1) obtain l d1 where lp: "apply_loop E C d es None [] = (Inr (l, rs), d1)"
    and w: "case l of None \<Rightarrow> d' = d1
      | Some i \<Rightarrow> \<exists>u. write_log_id E C d1 ''last_applied_log_id'' i = (Inr u, d')"
    by (auto simp: apply_to_state_machine_def split: prod.splits sum.splits option.splits)
  from apply_loop_ok [OF lp] assms(2) have "length rs = length es"
    and l: "l = Some (entry_log_id (snd (last es)))" by auto
  with w write_log_id_view show ?thesis by fastforce
qed

lemma apply_command_frame:
  assumes ap: "apply_command E now d cmd = (r, d')" and cf: "cf \<noteq> CF_DEFAULT"
  shows "contents d' cf = contents d cf"
proof (cases cmd)
  case (CreateBucket bucket)
  with ap obtain x where "create_bucket E now d (bkt_name bucket) = (x, d')" by (auto dest: apply_resultD)
  with cf show ?thesis by (cases x) (auto dest: create_bucket_err create_bucket_ok)
next
  case (DeleteBucket name)
  with ap obtain x where "delete_bucket E d name = (x, d')" by (auto dest: apply_resultD)
  with cf show ?thesis by (cases x) (auto dest: delete_bucket_err delete_bucket_ok)
next
  case (PutObjectMetadata m)
  with ap obtain x where "put_object_metadata E d m = (x, d')" by (auto dest: apply_resultD)
  with cf show ?thesis by (cases x) (auto dest: put_object_metadata_err put_object_metadata_ok)
next
  case (DeleteObjectMetadata b k)
  with ap obtain x where "delete_object_metadata E d b k = (x, d')" by (auto dest: apply_resultD)
  with cf show ?thesis by (cases x) (auto dest: delete_object_metadata_err delete_object_metadata_ok)
next
  case (AcquireLock b k t h)
  with ap obtain x where "acquire_lock E d b k t h = (x, d')" by (auto dest: apply_resultD)
  with cf show ?thesis by (cases x) (auto dest: acquire_lock_err dest!: acquire_lock_ok)
next
  case (ReleaseLock b k h)
  with ap obtain x where "release_lock E d b k h = (x, d')" by (auto dest: apply_resultD)
  with cf show ?thesis by (cases x) (auto dest: release_lock_err dest!: release_lock_ok)
qed

lemma apply_entry_log_ids:
  assumes "apply_entry E C now d en = (r, d')"
  shows "log_ids d' ''last_applied_log_id'' = log_ids d ''last_applied_log_id''"
proof (cases "entry_payload en")
  case (Normal cmd)
  with assms apply_command_frame [of now d cmd r d' CF_RAFT_STATE] show ?thesis
    by (simp add: apply_entry_def log_id_view_def)
next
  case (Membership m)
  with assms show ?thesis
    by (auto simp: apply_entry_def state_cf_def log_id_view_def Let_def dest!: put_law
        split: sum.splits if_splits)
qed (use assms in \<open>simp add: apply_entry_def\<close>)

lemma apply_loop_log_ids:
  assumes "apply_loop E C d es l rs = (r, d')"
  shows "log_ids d' ''last_applied_log_id'' = log_ids d ''last_applied_log_id''"
  using assms
proof (induction es arbitrary: d l rs)
  case (Cons e es)
  obtain now en where e: "e = (now, en)" by fastforce
  obtain x d1 where a: "apply_entry E C now d en = (x, d1)" by fastforce
  from apply_entry_log_ids [OF a] Cons e a show ?case by (cases x) auto
qed simp

lemma write_log_id_err: "write_log_id E C d key i = (Inl e, d') \<Longrightarrow> d' = d"
  by (auto simp: write_log_id_def state_cf_def split: sum.splits if_splits)

lemma apply_to_state_machine_failed:
  assumes "apply_to_state_machine E C d es = (Inl e, d')"
  shows "log_ids d' ''last_applied_log_id'' = log_ids d ''last_applied_log_id''"
proof -
  obtain r d1 where lp: "apply_loop E C d es None [] = (r, d1)" by fastforce
  have "d' = d1"
  proof (cases r)
    case (Inr x)
    with assms lp show ?thesis
      by (cases x) (auto simp: apply_to_state_machine_def dest: write_log_id_err
          split: prod.splits sum.splits option.splits)
  qed (use assms lp in \<open>simp add: apply_to_state_machine_def\<close>)
  with apply_loop_log_ids [OF lp] show ?thesis by simp
qed

end

section \<open>Retries\<close>

text \<open>With a clock that advances by the sleep between two polls, waiting for a leader ends.\<close>

lemma wait_for_leader_ends:
  assumes "\<And>j. 100 * j \<le> elapsed j" and "timeout < 100 * (i + fuel)"
  shows "\<exists>r. wait_for_leader (Suc fuel) leader elapsed timeout i = Some r"
  using assms(2)
proof (induction fuel arbitrary: i)
  case 0
  with assms(1) [of i] show ?case by (auto split: option.splits)
next
  case (Suc fuel)
  with Suc.IH [of "Suc i"] show ?case by (auto split: option.splits)
qed

text \<open>
  The loop reports success only when its last submission was accepted, and it submits the command
  at most \<open>max_retries + 1\<close> times: \<open>count\<close> is a counter of the submissions in the state.
\<close>

lemma write_loop_cases:
  assumes "write_loop client_write await_leader http_addr node_id cmd max_retries attempt le s = (Inr u, s')"
  shows "\<exists>s0. client_write s0 cmd = (Written, s')"
  using assms
proof (induction "Suc max_retries - attempt" arbitrary: attempt le s)
  case 0
  then show ?case by (subst (asm) write_loop.simps) auto
next
  case (Suc n)
  then have le: "attempt \<le> max_retries" and n: "n = Suc max_retries - (attempt + 1)" by auto
  obtain r s1 where r: "client_write s cmd = (r, s1)" by fastforce
  show ?case
  proof (cases r)
    case Written
    with Suc(3) le r show ?thesis by (subst (asm) write_loop.simps) auto
  next
    case (ForwardToLeader l)
    obtain w s2 where w: "await_leader s1 = (w, s2)" by fastforce
    show ?thesis
    proof (cases "l = Some node_id \<or> l = None")
      case True
      with Suc(3) le r w ForwardToLeader obtain le' where
        "write_loop client_write await_leader http_addr node_id cmd max_retries (attempt + 1) le' s2 = (Inr u, s')"
        by (subst (asm) write_loop.simps) (cases w; auto)
      with Suc(1) [OF n] show ?thesis by blast
    next
      case False
      with Suc(3) le r ForwardToLeader show ?thesis by (subst (asm) write_loop.simps) auto
    qed
  next
    case (WriteFailed e)
    with Suc(3) le r show ?thesis by (subst (asm) write_loop.simps) auto
  qed
qed

lemma write_loop_bounded:
  assumes cw: "\<And>s r s'. client_write s cmd = (r, s') \<Longrightarrow> count s' = Suc (count s)"
    and aw: "\<And>s b s'. await_leader s = (b, s') \<Longrightarrow> count s' = (count s :: nat)"
    and "write_loop client_write await_leader http_addr node_id cmd max_retries attempt le s = (x, s')"
  shows "count s' \<le> count s + (Suc max_retries - attempt)"
  using assms(3)
proof (induction "Suc max_retries - attempt" arbitrary: attempt le s)
  case 0
  then show ?case by (subst (asm) write_loop.simps) auto
next
  case (Suc n)
  then have le: "attempt \<le> max_retries" and n: "n = Suc max_retries - (attempt + 1)" by auto
  obtain r s1 where r: "client_write s cmd = (r, s1)" by fastforce
  from cw [OF r] le have c1: "count s1 = Suc (count s)" and pos: "0 < Suc max_retries - attempt" by auto
  note step = Suc(3) [unfolded write_loop.simps
      [of client_write await_leader http_addr node_id cmd max_retries attempt le s]]
  consider "s' = s1" | le' s2 where "count s2 = count s1"
      "write_loop client_write await_leader http_addr node_id cmd max_retries (attempt + 1) le' s2 = (x, s')"
  proof (cases "\<exists>l. r = ForwardToLeader l \<and> (l = Some node_id \<or> l = None)")
    case True
    obtain w s2 where w: "await_leader s1 = (w, s2)" by fastforce
    from True step le r w that(2) [OF aw [OF w]] show thesis by (cases w) auto
  next
    case False
    with step le r have "s' = s1" by (cases r) (auto split: if_splits)
    then show thesis by (rule that)
  qed
  then show ?case
  proof cases
    case 1
    with c1 pos show ?thesis by simp
  next
    case 2
    from Suc(1) [OF n 2(2)] 2(1) c1 le show ?thesis by simp
  qed
qed

section \<open>Properties\<close>

text \<open>
  C7: Replicas agree. Two replicas whose stores agree apply the same committed entries, each at its
  own times: they return the same result, and their stores agree again, so they hold the same
  objects, the same locks and buckets of the same names.
\<close>

theorem replicas_agree:
  assumes "reliable_raft E contents C" and "stores_agree (contents d1 CF_DEFAULT) (contents d2 CF_DEFAULT)"
    and "map snd es1 = map snd es2"
    and "apply_to_state_machine E C d1 es1 = (r1, d1')" and "apply_to_state_machine E C d2 es2 = (r2, d2')"
  shows "r1 = r2 \<and> stores_agree (contents d1' CF_DEFAULT) (contents d2' CF_DEFAULT)
    \<and> object_view E (contents d1' CF_DEFAULT) = object_view E (contents d2' CF_DEFAULT)
    \<and> lock_view E (contents d1' CF_DEFAULT) = lock_view E (contents d2' CF_DEFAULT)"
proof -
  have "r1 = r2" and a: "stores_agree (contents d1' CF_DEFAULT) (contents d2' CF_DEFAULT)"
    using reliable_raft.apply_to_state_machine_agree [OF assms(1-3)] assms(4,5) by auto
  then show ?thesis
    using stores_agree_get [OF a] by (simp add: object_view_def lock_view_def fun_eq_iff)
qed

definition example_entry :: "u64 \<Rightarrow> Command \<Rightarrow> nat Entry" where
  "example_entry index cmd = \<lparr>entry_log_id = log_id_at 1 index, entry_payload = Normal cmd\<rparr>"

theorem replicas_agree_witness:
  "let es = [example_entry 1 (CreateBucket (Bucket_new 0 ''photos'')),
             example_entry 2 (PutObjectMetadata (ObjectMetadata_new 0 ''photos'' ''a'' 1 ''e''))];
       d1 = snd (apply_to_state_machine mem_env mem_raft mem_empty (zip [5, 6] es));
       d2 = snd (apply_to_state_machine mem_env mem_raft mem_empty (zip [7, 9] es))
   in object_view mem_env (mem_contents d1 CF_DEFAULT) = object_view mem_env (mem_contents d2 CF_DEFAULT)"
proof -
  let ?es = "[example_entry 1 (CreateBucket (Bucket_new 0 ''photos'')),
             example_entry 2 (PutObjectMetadata (ObjectMetadata_new 0 ''photos'' ''a'' 1 ''e''))]"
  have a: "stores_agree (mem_contents mem_empty CF_DEFAULT) (mem_contents mem_empty CF_DEFAULT)"
    by (simp add: stores_agree_def)
  have m: "map snd (zip [5, 6] ?es) = map snd (zip [7, 9] ?es)" by simp
  show ?thesis
    unfolding Let_def
    using replicas_agree [OF mem_is_raft(2), OF a m prod.collapse [symmetric] prod.collapse [symmetric]]
    by blast
qed

text \<open>
  Replicas do not agree on when a bucket was created. The bucket a replica stores for a create
  command carries the time at which this replica applied the command; the time in the command,
  which all replicas share, is not used.
\<close>

theorem create_ignores_command_time:
  assumes "metadata_env E contents" and "apply_command E now d (CreateBucket bucket) = (Inr (), d')"
  shows "bucket_view E (contents d' CF_DEFAULT) (bkt_name bucket) = Some (Bucket_new now (bkt_name bucket))"
proof -
  obtain b where "create_bucket E now d (bkt_name bucket) = (Inr b, d')"
    using assms(2) apply_resultD [of "create_bucket E now d (bkt_name bucket)" "Inr ()" d']
    by (cases "fst (create_bucket E now d (bkt_name bucket))"; cases "create_bucket E now d (bkt_name bucket)") auto
  then show ?thesis
    using metadata_env.create_bucket_ok [OF assms(1)] metadata_env.create_bucket_view [OF assms(1)]
    by fastforce
qed

theorem create_ignores_command_time_witness:
  "let d' = snd (apply_command mem_env 8 mem_empty (CreateBucket (Bucket_with_timestamp ''photos'' 3)))
   in bucket_view mem_env (mem_contents d' CF_DEFAULT) ''photos'' = Some (Bucket_new 8 ''photos'')"
proof -
  let ?c = "CreateBucket (Bucket_with_timestamp ''photos'' 3)"
  have "fst (apply_command mem_env 8 mem_empty ?c) = Inr ()" by code_simp
  then obtain d' where r: "apply_command mem_env 8 mem_empty ?c = (Inr (), d')" by (metis prod.collapse)
  from create_ignores_command_time [OF mem_is_env(1), OF r] r show ?thesis
    by (simp add: Let_def Bucket_with_timestamp_def)
qed

text \<open>
  A batch of entries that was applied has one response per entry and records its last entry as
  applied; a batch that fails leaves the record of the last applied entry as it was, although the
  commands before the failing one have taken effect.
\<close>

theorem batch_records_last_applied:
  assumes "raft_store E contents C" and "apply_to_state_machine E C d es = (r, d')" and "es \<noteq> []"
  shows "case r of
      Inr rs \<Rightarrow> length rs = length es
        \<and> log_id_view C (contents d' CF_RAFT_STATE) ''last_applied_log_id'' = Some (entry_log_id (snd (last es)))
    | Inl e \<Rightarrow> log_id_view C (contents d' CF_RAFT_STATE) ''last_applied_log_id''
        = log_id_view C (contents d CF_RAFT_STATE) ''last_applied_log_id''"
  using raft_store.apply_to_state_machine_ok [OF assms(1)] raft_store.apply_to_state_machine_failed [OF assms(1)]
    assms(2,3) by (cases r) auto

theorem batch_records_last_applied_witness:
  "let b = CreateBucket (Bucket_new 0 ''photos'');
       es = [(5, example_entry 1 b), (6, example_entry 2 b)];
       d' = snd (apply_to_state_machine mem_env mem_raft mem_empty es)
   in fst (apply_to_state_machine mem_env mem_raft mem_empty es) = Inl (WriteError ''Bucket already exists: photos'')
      \<and> bucket_view mem_env (mem_contents d' CF_DEFAULT) ''photos'' = Some (Bucket_new 5 ''photos'')
      \<and> log_id_view mem_raft (mem_contents d' CF_RAFT_STATE) ''last_applied_log_id'' = None"
proof -
  let ?b = "CreateBucket (Bucket_new 0 ''photos'')"
  let ?es = "[(5, example_entry 1 ?b), (6, example_entry 2 ?b)]"
  let ?r = "apply_to_state_machine mem_env mem_raft mem_empty ?es"
  have f: "fst ?r = Inl (WriteError ''Bucket already exists: photos'')" by code_simp
  have v: "bucket_view mem_env (mem_contents (snd ?r) CF_DEFAULT) ''photos'' = Some (Bucket_new 5 ''photos'')"
    by code_simp
  have n: "?es \<noteq> []" by simp
  from batch_records_last_applied [OF mem_is_raft(1), OF prod.collapse [symmetric] n, of mem_empty] f
  have "log_id_view mem_raft (mem_contents (snd ?r) CF_RAFT_STATE) ''last_applied_log_id''
      = log_id_view mem_raft (mem_contents mem_empty CF_RAFT_STATE) ''last_applied_log_id''" by simp
  also have "\<dots> = None" by code_simp
  finally show ?thesis using f v unfolding Let_def by blast
qed

text \<open>
  C18: Applying any command, successfully or not, keeps the store well formed: bucket, object, lock
  and upload entries stay under the keys that belong to them and writers stay alone.
\<close>

theorem apply_keeps_store_wf:
  assumes "metadata_env E contents" and "store_wf E (contents d CF_DEFAULT)" and "command_ok cmd"
    and "apply_command E now d cmd = (r, d')"
  shows "store_wf E (contents d' CF_DEFAULT)"
  by (rule metadata_env.apply_command_wf [OF assms])

theorem apply_keeps_store_wf_witness:
  "store_wf mem_env (mem_contents (snd (apply_command mem_env 1 mem_empty
     (CreateBucket (Bucket_new 0 ''photos'')))) CF_DEFAULT)"
proof -
  have wf: "store_wf mem_env (mem_contents mem_empty CF_DEFAULT)"
    by (simp add: store_wf_def buckets_wf_def objects_wf_def locks_wf_def lock_view_def uploads_wf_def mem_eval)
  have c: "command_ok (CreateBucket (Bucket_new 0 ''photos''))" by simp
  from apply_keeps_store_wf [OF mem_is_env(1), OF wf c prod.collapse [symmetric]] show ?thesis .
qed

text \<open>
  Submitting a command with retries reports success only if the last submission was accepted,
  and submits it at most six times, whatever the cluster answers.
\<close>

theorem raft_write_bounded:
  assumes "\<And>s r s'. client_write s cmd = (r, s') \<Longrightarrow> count s' = Suc (count s)"
    and "\<And>s b s'. await_leader s = (b, s') \<Longrightarrow> count s' = (count s :: nat)"
    and "raft_write client_write await_leader http_addr node_id cmd s = (x, s')"
  shows "count s' \<le> count s + 6 \<and> (x = Inr () \<longrightarrow> (\<exists>s0. client_write s0 cmd = (Written, s')))"
proof -
  have w: "write_loop client_write await_leader http_addr node_id cmd 5 0 None s = (x, s')"
    using assms(3) by (simp add: raft_write_def write_with_retry_def)
  have "count s' \<le> count s + (Suc 5 - 0)"
    by (rule write_loop_bounded [where client_write = client_write and await_leader = await_leader])
      (use assms(1,2) w in blast)+
  moreover have "x = Inr () \<longrightarrow> (\<exists>s0. client_write s0 cmd = (Written, s'))"
    using write_loop_cases [of client_write await_leader http_addr node_id cmd 5 0 None s] w by blast
  ultimately show ?thesis by simp
qed

theorem raft_write_bounded_witness:
  "snd (raft_write (\<lambda>n cmd. (if n < 9 then ForwardToLeader None else Written, Suc n)) (\<lambda>n. (False, n))
     (\<lambda>_ _. None) 1 (DeleteBucket ''photos'') (0 :: nat)) \<le> 6"
proof -
  let ?cw = "\<lambda>n cmd. (if n < 9 then ForwardToLeader None else Written, Suc n)"
  let ?w = "raft_write ?cw (\<lambda>n. (False, n)) (\<lambda>_ _. None) 1 (DeleteBucket ''photos'') (0 :: nat)"
  have "id (snd ?w) \<le> id 0 + 6 \<and> (fst ?w = Inr () \<longrightarrow> (\<exists>s0. ?cw s0 (DeleteBucket ''photos'') = (Written, snd ?w)))"
    by (rule raft_write_bounded [where count = id and await_leader = "\<lambda>n. (False, n)"
          and http_addr = "\<lambda>_ _. None" and node_id = 1]) simp_all
  then show ?thesis by simp
qed

end
