(* ===== verification/Raft_Snapshot.thy ===== *)
theory Raft_Snapshot
  imports Raft_Apply
begin

text \<open>
  Snapshots of the metadata store, \<open>crates/save-metadata/src/raft/snapshot.rs\<close>, and the recovery
  operation \<open>clear_raft_state\<close> of \<open>lib.rs\<close>. Building a snapshot packs a RocksDB checkpoint into
  an archive; installing one unpacks it and copies the entries under the data prefixes. The
  packing is outside code, the fields \<open>checkpoint_archive\<close>, \<open>unpack_archive\<close> and
  \<open>open_unpacked\<close> of the parameter.

  The lemmas show what a store that installed a snapshot holds: under the three data prefixes
  exactly the entries of the store the snapshot was built from, under every other key what it
  held before. Lock entries are of the second kind.
\<close>

section \<open>Building and reading snapshots\<close>

definition SNAPSHOT_META_KEY :: string where "SNAPSHOT_META_KEY = ''snapshot_meta''"
definition SNAPSHOT_DATA_KEY :: string where "SNAPSHOT_DATA_KEY = ''snapshot_data''"

record ('mem, 'v) Snapshot =
  snapshot_meta :: "'mem SnapshotMeta"
  snapshot_data :: 'v

definition snapshot_cf :: "('d, 'v) env \<Rightarrow> 'd \<Rightarrow> StorageIOError + string" where
  "snapshot_cf E d = (if db_has_cf E d CF_RAFT_SNAPSHOT then Inr CF_RAFT_SNAPSHOT
     else Inl (ReadError ''raft_snapshot CF not found''))"

text \<open>A decimal rendering of a signed integer.\<close>

definition int_str :: "int \<Rightarrow> string" where
  "int_str i = (if i < 0 then ''-'' @ nat_str (nat (- i)) else nat_str (nat i))"

definition read_applied_state ::
  "('d, 'v) env \<Rightarrow> ('vote, 'mem, 'd, 'v) raft_codecs \<Rightarrow> 'd
    \<Rightarrow> StorageIOError + (LogId option \<times> 'mem StoredMembership)" where
  "read_applied_state E C d =
     (case state_cf E d of
        Inl e \<Rightarrow> Inl e
      | Inr cf \<Rightarrow>
        (case (case read_err (db_get E d cf ''last_applied_log_id'') of
                 Inl e \<Rightarrow> Inl e
               | Inr (Some bytes) \<Rightarrow>
                 (case read_err (decode (logid_codec C) bytes) of Inl e \<Rightarrow> Inl e | Inr i \<Rightarrow> Inr (Some i))
               | Inr None \<Rightarrow> Inr None) of
           Inl e \<Rightarrow> Inl e
         | Inr last_applied \<Rightarrow>
           (case read_err (db_get E d cf ''membership'') of
              Inl e \<Rightarrow> Inl e
            | Inr (Some data) \<Rightarrow>
              (case read_err (decode (membership_codec C) data) of
                 Inl e \<Rightarrow> Inl e
               | Inr membership \<Rightarrow> Inr (last_applied, membership))
            | Inr None \<Rightarrow> Inr (last_applied, default_membership C))))"

text \<open>Storing metadata and archive, which building and installing a snapshot end with.\<close>

definition store_snapshot ::
  "('d, 'v) env \<Rightarrow> ('vote, 'mem, 'd, 'v) raft_codecs \<Rightarrow> 'd \<Rightarrow> 'mem SnapshotMeta \<Rightarrow> 'v
    \<Rightarrow> (StorageIOError + unit) \<times> 'd" where
  "store_snapshot E C d meta data =
     (case write_err (encode (meta_codec C) meta) of
        Inl e \<Rightarrow> (Inl e, d)
      | Inr meta_bytes \<Rightarrow>
        (case write_err (db_put E d CF_RAFT_SNAPSHOT SNAPSHOT_META_KEY meta_bytes) of
           Inl e \<Rightarrow> (Inl e, d)
         | Inr d1 \<Rightarrow>
           (case write_err (db_put E d1 CF_RAFT_SNAPSHOT SNAPSHOT_DATA_KEY data) of
              Inl e \<Rightarrow> (Inl e, d1)
            | Inr d2 \<Rightarrow> (Inr (), d2))))"

definition build_snapshot ::
  "('d, 'v) env \<Rightarrow> ('vote, 'mem, 'd, 'v) raft_codecs \<Rightarrow> instant \<Rightarrow> 'd
    \<Rightarrow> (StorageIOError + ('mem, 'v) Snapshot) \<times> 'd" where
  "build_snapshot E C now d =
     (case read_applied_state E C d of
        Inl e \<Rightarrow> (Inl e, d)
      | Inr (last_applied, membership) \<Rightarrow>
        (case write_err (checkpoint_archive C d) of
           Inl e \<Rightarrow> (Inl e, d)
         | Inr data \<Rightarrow>
           (let snapshot_id = nat_str (unat (case last_applied of Some i \<Rightarrow> log_index i | None \<Rightarrow> 0))
                  @ ''-'' @ int_str (now div 1000000);
                meta = \<lparr>snap_last_log_id = last_applied, snap_last_membership = membership,
                        snap_id = snapshot_id\<rparr> in
            case snapshot_cf E d of
              Inl e \<Rightarrow> (Inl e, d)
            | Inr cf \<Rightarrow>
              (case store_snapshot E C d meta data of
                 (Inl e, d') \<Rightarrow> (Inl e, d')
               | (Inr _, d') \<Rightarrow> (Inr \<lparr>snapshot_meta = meta, snapshot_data = data\<rparr>, d')))))"

definition get_current_snapshot ::
  "('d, 'v) env \<Rightarrow> ('vote, 'mem, 'd, 'v) raft_codecs \<Rightarrow> 'd \<Rightarrow> StorageIOError + ('mem, 'v) Snapshot option" where
  "get_current_snapshot E C d =
     (case snapshot_cf E d of
        Inl e \<Rightarrow> Inl e
      | Inr cf \<Rightarrow>
        (case read_err (db_get E d cf SNAPSHOT_META_KEY) of
           Inl e \<Rightarrow> Inl e
         | Inr None \<Rightarrow> Inr None
         | Inr (Some meta_bytes) \<Rightarrow>
           (case read_err (db_get E d cf SNAPSHOT_DATA_KEY) of
              Inl e \<Rightarrow> Inl e
            | Inr None \<Rightarrow> Inr None
            | Inr (Some data) \<Rightarrow>
              (case read_err (decode (meta_codec C) meta_bytes) of
                 Inl e \<Rightarrow> Inl e
               | Inr meta \<Rightarrow> Inr (Some \<lparr>snapshot_meta = meta, snapshot_data = data\<rparr>)))))"

section \<open>Installing a snapshot\<close>

text \<open>
  The two loops of \<open>restore_default_cf\<close>. A RocksDB iterator reads from the state at its creation,
  so deleting while iterating does not disturb it.
\<close>

fun clear_items ::
  "('d, 'v) env \<Rightarrow> string \<Rightarrow> 'd \<Rightarrow> (string + string \<times> 'v) list \<Rightarrow> (StorageIOError + unit) \<times> 'd" where
  "clear_items E p d [] = (Inr (), d)"
| "clear_items E p d (Inl e # items) = (Inl (WriteError e), d)"
| "clear_items E p d (Inr (k, v) # items) =
     (if \<not> starts_with k p then (Inr (), d)
      else (case write_err (db_delete E d CF_DEFAULT k) of
              Inl e \<Rightarrow> (Inl e, d)
            | Inr d' \<Rightarrow> clear_items E p d' items))"

fun clear_prefixes :: "('d, 'v) env \<Rightarrow> 'd \<Rightarrow> string list \<Rightarrow> (StorageIOError + unit) \<times> 'd" where
  "clear_prefixes E d [] = (Inr (), d)"
| "clear_prefixes E d (p # ps) =
     (case clear_items E p d (db_prefix_iterator E d CF_DEFAULT p) of
        (Inl e, d') \<Rightarrow> (Inl e, d')
      | (Inr _, d') \<Rightarrow> clear_prefixes E d' ps)"

fun copy_items ::
  "('d, 'v) env \<Rightarrow> string \<Rightarrow> 'd \<Rightarrow> (string + string \<times> 'v) list \<Rightarrow> (StorageIOError + unit) \<times> 'd" where
  "copy_items E p d [] = (Inr (), d)"
| "copy_items E p d (Inl e # items) = (Inl (ReadError e), d)"
| "copy_items E p d (Inr (k, v) # items) =
     (if \<not> starts_with k p then (Inr (), d)
      else (case write_err (db_put E d CF_DEFAULT k v) of
              Inl e \<Rightarrow> (Inl e, d)
            | Inr d' \<Rightarrow> copy_items E p d' items))"

fun copy_prefixes :: "('d, 'v) env \<Rightarrow> 'd \<Rightarrow> 'd \<Rightarrow> string list \<Rightarrow> (StorageIOError + unit) \<times> 'd" where
  "copy_prefixes E d src [] = (Inr (), d)"
| "copy_prefixes E d src (p # ps) =
     (case copy_items E p d (db_prefix_iterator E src CF_DEFAULT p) of
        (Inl e, d') \<Rightarrow> (Inl e, d')
      | (Inr _, d') \<Rightarrow> copy_prefixes E d' src ps)"

definition restore_default_cf :: "('d, 'v) env \<Rightarrow> 'd \<Rightarrow> 'd \<Rightarrow> (StorageIOError + unit) \<times> 'd" where
  "restore_default_cf E target_db source_db =
     (case clear_prefixes E target_db DATA_PREFIXES of
        (Inl e, d) \<Rightarrow> (Inl e, d)
      | (Inr _, d) \<Rightarrow> copy_prefixes E d source_db DATA_PREFIXES)"

definition update_raft_state_from_snapshot ::
  "('d, 'v) env \<Rightarrow> ('vote, 'mem, 'd, 'v) raft_codecs \<Rightarrow> 'd \<Rightarrow> 'mem SnapshotMeta
    \<Rightarrow> (StorageIOError + unit) \<times> 'd" where
  "update_raft_state_from_snapshot E C d meta =
     (if \<not> db_has_cf E d CF_RAFT_STATE then (Inl (WriteError ''raft_state CF not found''), d)
      else
        (case (case snap_last_log_id meta of
                 None \<Rightarrow> (Inr (), d)
               | Some log_id \<Rightarrow>
                 (case write_err (encode (logid_codec C) log_id) of
                    Inl e \<Rightarrow> (Inl e, d)
                  | Inr encoded \<Rightarrow>
                    (case write_err (db_put E d CF_RAFT_STATE ''last_applied_log_id'' encoded) of
                       Inl e \<Rightarrow> (Inl e, d)
                     | Inr d' \<Rightarrow> (Inr (), d')))) of
           (Inl e, d1) \<Rightarrow> (Inl e, d1)
         | (Inr _, d1) \<Rightarrow>
           (case write_err (encode (membership_codec C) (snap_last_membership meta)) of
              Inl e \<Rightarrow> (Inl e, d1)
            | Inr membership_bytes \<Rightarrow>
              (case write_err (db_put E d1 CF_RAFT_STATE ''membership'' membership_bytes) of
                 Inl e \<Rightarrow> (Inl e, d1)
               | Inr d2 \<Rightarrow> (Inr (), d2)))))"

definition install_snapshot ::
  "('d, 'v) env \<Rightarrow> ('vote, 'mem, 'd, 'v) raft_codecs \<Rightarrow> 'd \<Rightarrow> 'mem SnapshotMeta \<Rightarrow> 'v
    \<Rightarrow> (StorageIOError + unit) \<times> 'd" where
  "install_snapshot E C d meta data =
     (case write_err (unpack_archive C data) of
        Inl e \<Rightarrow> (Inl e, d)
      | Inr path \<Rightarrow>
        (case read_err (open_unpacked C path) of
           Inl e \<Rightarrow> (Inl e, d)
         | Inr extracted_db \<Rightarrow>
           (case restore_default_cf E d extracted_db of
              (Inl e, d1) \<Rightarrow> (Inl e, d1)
            | (Inr _, d1) \<Rightarrow>
              (case update_raft_state_from_snapshot E C d1 meta of
                 (Inl e, d2) \<Rightarrow> (Inl e, d2)
               | (Inr _, d2) \<Rightarrow>
                 if \<not> db_has_cf E d2 CF_RAFT_SNAPSHOT
                 then (Inl (WriteError ''raft_snapshot CF not found''), d2)
                 else store_snapshot E C d2 meta data))))"

section \<open>Clearing the Raft state\<close>

text \<open>
  A raw iterator placed at the first key visits every entry of the column family, and is no
  longer valid after an error, which ends the collection of keys without reporting it.
\<close>

fun raw_keys :: "(string + string \<times> 'v) list \<Rightarrow> string list" where
  "raw_keys [] = []"
| "raw_keys (Inl e # items) = []"
| "raw_keys (Inr (k, v) # items) = k # raw_keys items"

fun delete_all :: "('d, 'v) env \<Rightarrow> string \<Rightarrow> 'd \<Rightarrow> string list \<Rightarrow> (MetadataError + unit) \<times> 'd" where
  "delete_all E cf d [] = (Inr (), d)"
| "delete_all E cf d (k # ks) =
     (case db_delete E d cf k of
        Inl e \<Rightarrow> (Inl (Storage e), d)
      | Inr d' \<Rightarrow> delete_all E cf d' ks)"

fun clear_families :: "('d, 'v) env \<Rightarrow> 'd \<Rightarrow> string list \<Rightarrow> (MetadataError + unit) \<times> 'd" where
  "clear_families E d [] = (Inr (), d)"
| "clear_families E d (cf # cfs) =
     (if db_has_cf E d cf
      then (case delete_all E cf d (raw_keys (db_prefix_iterator E d cf [])) of
              (Inl e, d') \<Rightarrow> (Inl e, d')
            | (Inr _, d') \<Rightarrow> clear_families E d' cfs)
      else clear_families E d cfs)"

definition clear_raft_state :: "('d, 'v) env \<Rightarrow> 'd \<Rightarrow> (MetadataError + unit) \<times> 'd" where
  "clear_raft_state E d = clear_families E d [CF_RAFT_LOG, CF_RAFT_STATE, CF_RAFT_SNAPSHOT]"

section \<open>What an installed snapshot holds\<close>

abbreviation under :: "string list \<Rightarrow> string \<Rightarrow> bool" where
  "under ps k \<equiv> (\<exists>p \<in> set ps. prefix p k)"

lemma map_of_rev_entries:
  assumes "finite (dom m)"
  shows "map_of (rev (entries_with_prefix m p)) k = (if prefix p k then m k else None)"
proof (cases "map_of (rev (entries_with_prefix m p)) k")
  case None
  then have "k \<notin> fst ` set (entries_with_prefix m p)" by (simp add: map_of_eq_None_iff)
  with None show ?thesis
    using set_entries_with_prefix [OF assms, of p] by (cases "m k") force+
next
  case (Some v)
  then have "(k, v) \<in> set (entries_with_prefix m p)" by (metis map_of_SomeD set_rev)
  with Some show ?thesis using set_entries_with_prefix [OF assms, of p] by auto
qed

context metadata_env
begin

lemma clear_items_ok:
  assumes "clear_items E p d items = (Inr u, d')"
  shows "\<exists>es. scan_prefix p items = Inr es
    \<and> contents d' = (contents d)(CF_DEFAULT := (\<lambda>k. if k \<in> fst ` set es then None else contents d CF_DEFAULT k))"
  using assms
proof (induction items arbitrary: d)
  case (Cons i items)
  show ?case
  proof (cases i)
    case (Inr kv)
    obtain k v where kv: "kv = (k, v)" by fastforce
    show ?thesis
    proof (cases "starts_with k p")
      case True
      with Cons.prems Inr kv obtain d1 where d1: "db_delete E d CF_DEFAULT k = Inr d1"
        and rest: "clear_items E p d1 items = (Inr u, d')" by (auto split: sum.splits)
      from Cons.IH [OF rest] obtain es where "scan_prefix p items = Inr es"
        "contents d' = (contents d1)(CF_DEFAULT := (\<lambda>k. if k \<in> fst ` set es then None else contents d1 CF_DEFAULT k))"
        by blast
      with True Inr kv delete_law [OF d1] show ?thesis
        by (intro exI [of _ "(k, v) # es"]) (auto simp: fun_eq_iff)
    qed (use Cons.prems Inr kv in \<open>auto simp: fun_eq_iff\<close>)
  qed (use Cons.prems in simp)
qed (auto simp: fun_eq_iff)

lemma clear_prefixes_ok:
  assumes "clear_prefixes E d ps = (Inr u, d')"
  shows "contents d' = (contents d)(CF_DEFAULT := (\<lambda>k. if under ps k then None else contents d CF_DEFAULT k))"
  using assms
proof (induction ps arbitrary: d)
  case (Cons p ps)
  then obtain x d1 where c: "clear_items E p d (db_prefix_iterator E d CF_DEFAULT p) = (Inr x, d1)"
    and rest: "clear_prefixes E d1 ps = (Inr u, d')" by (auto split: sum.splits prod.splits)
  from clear_items_ok [OF c] obtain es where
    es: "scan_prefix p (db_prefix_iterator E d CF_DEFAULT p) = Inr es" and
    d1: "contents d1 = (contents d)(CF_DEFAULT := (\<lambda>k. if k \<in> fst ` set es then None else contents d CF_DEFAULT k))"
    by blast
  have "k \<in> fst ` set es \<longleftrightarrow> contents d CF_DEFAULT k \<noteq> None \<and> prefix p k" for k
    unfolding scan_prefix_result [OF es] set_entries_with_prefix [OF finite_contents] by force
  with Cons.IH [OF rest] d1 show ?case by (auto simp: fun_eq_iff)
qed (simp add: fun_eq_iff)

lemma copy_items_ok:
  assumes "copy_items E p d items = (Inr u, d')"
  shows "\<exists>es. scan_prefix p items = Inr es
    \<and> contents d' = (contents d)(CF_DEFAULT := contents d CF_DEFAULT ++ map_of (rev es))"
  using assms
proof (induction items arbitrary: d)
  case (Cons i items)
  show ?case
  proof (cases i)
    case (Inr kv)
    obtain k v where kv: "kv = (k, v)" by fastforce
    show ?thesis
    proof (cases "starts_with k p")
      case True
      with Cons.prems Inr kv obtain d1 where d1: "db_put E d CF_DEFAULT k v = Inr d1"
        and rest: "copy_items E p d1 items = (Inr u, d')" by (auto split: sum.splits)
      from Cons.IH [OF rest] obtain es where "scan_prefix p items = Inr es"
        "contents d' = (contents d1)(CF_DEFAULT := contents d1 CF_DEFAULT ++ map_of (rev es))"
        by blast
      with True Inr kv put_law [OF d1] show ?thesis
        by (intro exI [of _ "(k, v) # es"]) simp
    qed (use Cons.prems Inr kv in auto)
  qed (use Cons.prems in simp)
qed auto

lemma copy_prefixes_ok:
  assumes "copy_prefixes E d src ps = (Inr u, d')"
  shows "contents d' = (contents d)(CF_DEFAULT := (\<lambda>k. if under ps k \<and> contents src CF_DEFAULT k \<noteq> None
    then contents src CF_DEFAULT k else contents d CF_DEFAULT k))"
  using assms
proof (induction ps arbitrary: d)
  case (Cons p ps)
  then obtain x d1 where c: "copy_items E p d (db_prefix_iterator E src CF_DEFAULT p) = (Inr x, d1)"
    and rest: "copy_prefixes E d1 src ps = (Inr u, d')" by (auto split: sum.splits prod.splits)
  from copy_items_ok [OF c] obtain es where
    es: "scan_prefix p (db_prefix_iterator E src CF_DEFAULT p) = Inr es" and
    d1: "contents d1 = (contents d)(CF_DEFAULT := contents d CF_DEFAULT ++ map_of (rev es))" by blast
  have "(contents d CF_DEFAULT ++ map_of (rev es)) k =
      (if prefix p k \<and> contents src CF_DEFAULT k \<noteq> None then contents src CF_DEFAULT k else contents d CF_DEFAULT k)" for k
    unfolding scan_prefix_result [OF es] map_add_def map_of_rev_entries [OF finite_contents]
    by (auto split: option.splits)
  with Cons.IH [OF rest] d1 show ?case by (auto simp: fun_eq_iff)
qed (simp add: fun_eq_iff)

lemma restore_default_cf_ok:
  assumes "restore_default_cf E d src = (Inr u, d')"
  shows "contents d' = (contents d)(CF_DEFAULT := (\<lambda>k. if under DATA_PREFIXES k
    then contents src CF_DEFAULT k else contents d CF_DEFAULT k))"
proof -
  from assms obtain x d1 where "clear_prefixes E d DATA_PREFIXES = (Inr x, d1)"
    and "copy_prefixes E d1 src DATA_PREFIXES = (Inr u, d')"
    by (auto simp: restore_default_cf_def split: sum.splits prod.splits)
  from clear_prefixes_ok [OF this(1)] copy_prefixes_ok [OF this(2)] show ?thesis
    by (auto simp: fun_eq_iff)
qed

end

context raft_store
begin

lemma store_snapshot_ok:
  assumes "store_snapshot E C d meta data = (Inr u, d')"
  shows "(\<forall>cf. cf \<noteq> CF_RAFT_SNAPSHOT \<longrightarrow> contents d' cf = contents d cf)
    \<and> (\<exists>v. decode (meta_codec C) v = Inr meta
        \<and> contents d' CF_RAFT_SNAPSHOT SNAPSHOT_META_KEY = Some v
        \<and> contents d' CF_RAFT_SNAPSHOT SNAPSHOT_DATA_KEY = Some data)"
  using assms
  by (auto simp: store_snapshot_def SNAPSHOT_META_KEY_def SNAPSHOT_DATA_KEY_def
      dest!: put_law codec_okD [OF meta_codec_ok] split: sum.splits)

lemma update_raft_state_ok:
  assumes "update_raft_state_from_snapshot E C d meta = (Inr u, d')"
  shows "(\<forall>cf. cf \<noteq> CF_RAFT_STATE \<longrightarrow> contents d' cf = contents d cf)
    \<and> log_ids d' ''last_applied_log_id'' =
        (case snap_last_log_id meta of Some i \<Rightarrow> Some i | None \<Rightarrow> log_ids d ''last_applied_log_id'')
    \<and> (\<exists>v. decode (membership_codec C) v = Inr (snap_last_membership meta)
        \<and> contents d' CF_RAFT_STATE ''membership'' = Some v)"
  using assms
  by (cases "snap_last_log_id meta")
    (auto simp: update_raft_state_from_snapshot_def log_id_view_def
      dest!: put_law codec_okD [OF logid_codec_ok] codec_okD [OF membership_codec_ok]
      split: sum.splits if_splits)

lemma install_snapshot_ok:
  assumes inst: "install_snapshot E C d meta data = (Inr u, d')"
    and src: "checkpoint_archive C src = Inr data"
  shows "contents d' CF_DEFAULT = (\<lambda>k. if under DATA_PREFIXES k
        then contents src CF_DEFAULT k else contents d CF_DEFAULT k)
    \<and> contents d' CF_RAFT_LOG = contents d CF_RAFT_LOG
    \<and> (snap_last_log_id meta \<noteq> None \<longrightarrow> log_ids d' ''last_applied_log_id'' = snap_last_log_id meta)"
proof -
  from inst obtain p db x1 d1 x2 d2 where "unpack_archive C data = Inr p" "open_unpacked C p = Inr db"
    and r: "restore_default_cf E d db = (Inr x1, d1)"
    and s: "update_raft_state_from_snapshot E C d1 meta = (Inr x2, d2)"
    and st: "store_snapshot E C d2 meta data = (Inr u, d')"
    by (auto simp: install_snapshot_def split: sum.splits prod.splits if_splits)
  with archive_law [OF src] have "contents db = contents src" by blast
  with restore_default_cf_ok [OF r] update_raft_state_ok [OF s] store_snapshot_ok [OF st]
  show ?thesis by (auto simp: log_id_view_def split: option.splits)
qed

lemma build_snapshot_ok:
  assumes "build_snapshot E C now d = (Inr snap, d')"
  shows "checkpoint_archive C d = Inr (snapshot_data snap)
    \<and> snap_last_log_id (snapshot_meta snap) = log_ids d ''last_applied_log_id''
    \<and> store_snapshot E C d (snapshot_meta snap) (snapshot_data snap) = (Inr (), d')"
proof -
  from assms obtain l m where l: "read_applied_state E C d = Inr (l, m)"
    and rest: "checkpoint_archive C d = Inr (snapshot_data snap)" "snap_last_log_id (snapshot_meta snap) = l"
      "store_snapshot E C d (snapshot_meta snap) (snapshot_data snap) = (Inr (), d')"
    by (auto simp: build_snapshot_def Let_def split: sum.splits prod.splits)
  from l have "log_ids d ''last_applied_log_id'' = l"
    by (auto simp: read_applied_state_def state_cf_def log_id_view_def dest!: get_law
        split: sum.splits option.splits if_splits)
  with rest show ?thesis by simp
qed

text \<open>The stored snapshot is the one that was built.\<close>

lemma current_after_build:
  assumes "build_snapshot E C now d = (Inr snap, d')" and "get_current_snapshot E C d' = Inr r"
  shows "r = Some snap"
proof -
  from build_snapshot_ok [OF assms(1)]
  have "store_snapshot E C d (snapshot_meta snap) (snapshot_data snap) = (Inr (), d')" by simp
  from store_snapshot_ok [OF this] obtain v where "decode (meta_codec C) v = Inr (snapshot_meta snap)"
      "contents d' CF_RAFT_SNAPSHOT SNAPSHOT_META_KEY = Some v"
      "contents d' CF_RAFT_SNAPSHOT SNAPSHOT_DATA_KEY = Some (snapshot_data snap)" by blast
  with assms(2) show ?thesis
    by (auto simp: get_current_snapshot_def snapshot_cf_def dest!: get_law
        split: sum.splits option.splits if_splits)
qed

end

section \<open>Clearing\<close>

lemma raw_keys_Inr [simp]: "raw_keys (map Inr es) = map fst es"
  by (induction es) auto

context reliable_env
begin

lemma delete_all_eq:
  "\<exists>d'. delete_all E cf d ks = (Inr (), d')
     \<and> contents d' = (contents d)(cf := (\<lambda>k. if k \<in> set ks then None else contents d cf k))"
proof (induction ks arbitrary: d)
  case (Cons k ks)
  from Cons [of "delete_from d cf k"] obtain d' where
    "delete_all E cf (delete_from d cf k) ks = (Inr (), d')"
    "contents d' = (contents (delete_from d cf k))(cf := (\<lambda>x. if x \<in> set ks then None
      else contents (delete_from d cf k) cf x))" by blast
  then show ?case by (auto simp: store_eqs fun_eq_iff)
qed (auto simp: fun_eq_iff)

lemma clear_families_eq:
  "\<exists>d'. clear_families E d cfs = (Inr (), d')
     \<and> contents d' = (\<lambda>cf. if cf \<in> set cfs then Map.empty else contents d cf)"
proof (induction cfs arbitrary: d)
  case (Cons cf cfs)
  have "{k \<in> dom (contents d cf). [] \<le> k} = dom (contents d cf)" by auto
  then have keys: "k \<in> set (raw_keys (db_prefix_iterator E d cf [])) \<longleftrightarrow> contents d cf k \<noteq> None" for k
    using finite_contents unfolding iter_ok raw_keys_Inr by (simp add: entries_from_def comp_def domIff)
  from delete_all_eq [of cf d "raw_keys (db_prefix_iterator E d cf [])"] obtain d1 where
    d1: "delete_all E cf d (raw_keys (db_prefix_iterator E d cf [])) = (Inr (), d1)"
    and c1: "contents d1 = (contents d)(cf := (\<lambda>k. if k \<in> set (raw_keys (db_prefix_iterator E d cf []))
      then None else contents d cf k))" by blast
  have "contents d1 = (contents d)(cf := Map.empty)" using c1 keys by (auto simp: fun_eq_iff)
  with Cons [of d1] d1 show ?case by (auto simp: cf_ok fun_eq_iff)
qed auto

end

section \<open>Properties\<close>

text \<open>
  C10: A snapshot carries the data. When a node installs a snapshot built by another one, it then
  holds exactly the buckets, objects and uploads the other node held, and continues from the log
  entry that node had applied last; its own log is untouched.
\<close>

theorem install_transfers_data:
  assumes "raft_store E contents C" and "build_snapshot E C now src = (Inr snap, src')"
    and "install_snapshot E C d (snapshot_meta snap) (snapshot_data snap) = (Inr u, d')"
  shows "bucket_view E (contents d' CF_DEFAULT) = bucket_view E (contents src CF_DEFAULT)
    \<and> object_view E (contents d' CF_DEFAULT) = object_view E (contents src CF_DEFAULT)
    \<and> upload_view E (contents d' CF_DEFAULT) = upload_view E (contents src CF_DEFAULT)
    \<and> (log_id_view C (contents src CF_RAFT_STATE) ''last_applied_log_id'' \<noteq> None \<longrightarrow>
         log_id_view C (contents d' CF_RAFT_STATE) ''last_applied_log_id''
           = log_id_view C (contents src CF_RAFT_STATE) ''last_applied_log_id'')
    \<and> contents d' CF_RAFT_LOG = contents d CF_RAFT_LOG"
proof -
  note b = raft_store.build_snapshot_ok [OF assms(1,2)]
  have i: "contents d' CF_DEFAULT = (\<lambda>k. if under DATA_PREFIXES k
        then contents src CF_DEFAULT k else contents d CF_DEFAULT k)"
    and rest: "contents d' CF_RAFT_LOG = contents d CF_RAFT_LOG
    \<and> (snap_last_log_id (snapshot_meta snap) \<noteq> None \<longrightarrow>
       log_id_view C (contents d' CF_RAFT_STATE) ''last_applied_log_id'' = snap_last_log_id (snapshot_meta snap))"
    using raft_store.install_snapshot_ok [OF assms(1,3)] b by blast+
  have u: "under DATA_PREFIXES (bucket_key n)" "under DATA_PREFIXES (object_db_key x k)"
    "under DATA_PREFIXES (upload_db_key x k v)" "under DATA_PREFIXES (part_key x k v w)" for n x k v w
    by (auto simp: DATA_PREFIXES_def BUCKET_PREFIX_def OBJECT_PREFIX_def MULTIPART_PREFIX_def bucket_key_def)
  have pv: "parts_view E (contents d' CF_DEFAULT) = parts_view E (contents src CF_DEFAULT)"
    unfolding i by (simp add: parts_view_def fun_eq_iff u)
  have kv: "contents d' CF_DEFAULT (upload_db_key x k v) = contents src CF_DEFAULT (upload_db_key x k v)" for x k v
    unfolding i by (simp add: u)
  have "upload_view E (contents d' CF_DEFAULT) = upload_view E (contents src CF_DEFAULT)"
    unfolding upload_view_def pv kv by (rule refl)
  moreover have "bucket_view E (contents d' CF_DEFAULT) = bucket_view E (contents src CF_DEFAULT)"
    "object_view E (contents d' CF_DEFAULT) = object_view E (contents src CF_DEFAULT)"
    unfolding i by (simp_all add: bucket_view_def object_view_def fun_eq_iff u)
  ultimately show ?thesis using b rest by simp
qed

theorem install_transfers_data_witness:
  "let d = snd (create_bucket mem_env 1 mem_empty ''photos'');
       snap = projr (fst (build_snapshot mem_env mem_raft 0 d));
       d' = snd (install_snapshot mem_env mem_raft mem_empty (snapshot_meta snap) (snapshot_data snap))
   in bucket_view mem_env (mem_contents d' CF_DEFAULT) = bucket_view mem_env (mem_contents d CF_DEFAULT)"
proof -
  let ?d = "snd (create_bucket mem_env 1 mem_empty ''photos'')"
  let ?b = "build_snapshot mem_env mem_raft 0 ?d"
  let ?i = "install_snapshot mem_env mem_raft mem_empty (snapshot_meta (projr (fst ?b))) (snapshot_data (projr (fst ?b)))"
  have "isl (fst ?b) = False" by code_simp
  then have b: "?b = (Inr (projr (fst ?b)), snd ?b)" by (simp add: prod_eq_iff)
  have "fst ?i = Inr ()" by code_simp
  then have i: "?i = (Inr (), snd ?i)" by (metis prod.collapse)
  from install_transfers_data [OF mem_is_raft(1), OF b i] show ?thesis unfolding Let_def by blast
qed

text \<open>
  A snapshot does not carry the locks. Installing one leaves the lock table of the node as it
  was, whatever locks the node that built it had: the lock entries are not under the prefixes
  that are cleared and copied.
\<close>

theorem install_keeps_own_locks:
  assumes "raft_store E contents C" and "build_snapshot E C now src = (Inr snap, src')"
    and "install_snapshot E C d (snapshot_meta snap) (snapshot_data snap) = (Inr u, d')"
  shows "lock_view E (contents d' CF_DEFAULT) = lock_view E (contents d CF_DEFAULT)"
proof -
  have i: "contents d' CF_DEFAULT = (\<lambda>k. if under DATA_PREFIXES k
        then contents src CF_DEFAULT k else contents d CF_DEFAULT k)"
    using raft_store.install_snapshot_ok [OF assms(1,3)] raft_store.build_snapshot_ok [OF assms(1,2)] by blast
  have "\<not> under DATA_PREFIXES (lock_key b k)" for b k
    by (auto simp: DATA_PREFIXES_def BUCKET_PREFIX_def OBJECT_PREFIX_def MULTIPART_PREFIX_def lock_key_def)
  then show ?thesis unfolding i by (simp add: lock_view_def fun_eq_iff)
qed

theorem install_keeps_own_locks_witness:
  "let d = snd (acquire_lock mem_env mem_empty ''photos'' ''a'' Write \<lparr>lh_node_id = 1, lh_lock_id = 0\<rparr>);
       snap = projr (fst (build_snapshot mem_env mem_raft 0 d));
       d' = snd (install_snapshot mem_env mem_raft mem_empty (snapshot_meta snap) (snapshot_data snap))
   in lock_view mem_env (mem_contents d CF_DEFAULT) (''photos'', ''a'') \<noteq> None
      \<and> lock_view mem_env (mem_contents d' CF_DEFAULT) (''photos'', ''a'') = None"
proof -
  let ?d = "snd (acquire_lock mem_env mem_empty ''photos'' ''a'' Write \<lparr>lh_node_id = 1, lh_lock_id = 0\<rparr>)"
  let ?b = "build_snapshot mem_env mem_raft 0 ?d"
  let ?i = "install_snapshot mem_env mem_raft mem_empty (snapshot_meta (projr (fst ?b))) (snapshot_data (projr (fst ?b)))"
  have "isl (fst ?b) = False" by code_simp
  then have b: "?b = (Inr (projr (fst ?b)), snd ?b)" by (simp add: prod_eq_iff)
  have "fst ?i = Inr ()" by code_simp
  then have i: "?i = (Inr (), snd ?i)" by (metis prod.collapse)
  have "lock_view mem_env (mem_contents mem_empty CF_DEFAULT) (''photos'', ''a'') = None" by code_simp
  moreover have "lock_view mem_env (mem_contents ?d CF_DEFAULT) (''photos'', ''a'') \<noteq> None" by code_simp
  ultimately show ?thesis using install_keeps_own_locks [OF mem_is_raft(1), OF b i] unfolding Let_def by simp
qed

text \<open>
  Clearing the Raft state succeeds, empties the log, the Raft state and the stored snapshot,
  and keeps all metadata.
\<close>

theorem clear_raft_state_keeps_data:
  assumes "reliable_env E contents"
  shows "\<exists>d'. clear_raft_state E d = (Inr (), d') \<and> contents d' CF_DEFAULT = contents d CF_DEFAULT
    \<and> contents d' CF_RAFT_LOG = Map.empty \<and> contents d' CF_RAFT_STATE = Map.empty
    \<and> contents d' CF_RAFT_SNAPSHOT = Map.empty"
proof -
  have "CF_DEFAULT \<notin> set [CF_RAFT_LOG, CF_RAFT_STATE, CF_RAFT_SNAPSHOT]" by (simp add: cf_defs)
  with reliable_env.clear_families_eq [OF assms, of d "[CF_RAFT_LOG, CF_RAFT_STATE, CF_RAFT_SNAPSHOT]"]
  show ?thesis unfolding clear_raft_state_def by auto
qed

theorem clear_raft_state_keeps_data_witness:
  "\<exists>d'. clear_raft_state mem_env [(CF_RAFT_STATE, (''vote'', VVote 1))] = (Inr (), d')
     \<and> mem_contents d' CF_RAFT_STATE = Map.empty"
  using clear_raft_state_keeps_data [OF mem_is_env(2), of "[(CF_RAFT_STATE, (''vote'', VVote 1))]"] by blast

end
