(* ===== verification/Std_Fs.thy ===== *)
theory Std_Fs
  imports Save_Prelude "HOL-Library.AList"
begin

text \<open>
  The part of the file system interface of the standard library that the storage crate uses
  (\<open>std::fs\<close> and its asynchronous wrappers): files with contents and modification time,
  directories, and the operations on them, each of which may fail.

  A path is the list of its components. Failures are part of the state: \<open>fs_faults\<close> says for each
  operation to come whether it fails and with which error, and for a write how many bytes got to
  the file before; when the list is used up no operation fails for reasons of its own. A theorem
  that holds for every state therefore holds for every pattern of failures.
\<close>

section \<open>State and errors\<close>

datatype ErrorKind = NotFoundKind | OtherKind

record IoError =
  io_kind :: ErrorKind
  io_msg :: string

type_synonym path = "string list"

record File =
  f_data :: data
  f_mtime :: instant

record fs =
  fs_files :: "(path \<times> File) list"
  fs_dirs :: "path list"
  fs_clock :: instant
  fs_faults :: "(IoError \<times> nat) option list"

definition no_such_file :: IoError where
  "no_such_file = \<lparr>io_kind = NotFoundKind, io_msg = ''No such file or directory (os error 2)''\<rparr>"

definition not_a_directory :: IoError where
  "not_a_directory = \<lparr>io_kind = OtherKind, io_msg = ''Not a directory (os error 20)''\<rparr>"

definition io_other :: "string \<Rightarrow> IoError" where
  "io_other m = \<lparr>io_kind = OtherKind, io_msg = m\<rparr>"

definition next_fault :: "fs \<Rightarrow> (IoError \<times> nat) option \<times> fs" where
  "next_fault s =
     (case fs_faults s of
        [] \<Rightarrow> (None, s)
      | f # fs \<Rightarrow> (f, s\<lparr>fs_faults := fs\<rparr>))"

section \<open>Operations\<close>

abbreviation file_at :: "fs \<Rightarrow> path \<Rightarrow> File option" where
  "file_at s p \<equiv> map_of (fs_files s) p"

definition fs_exists :: "fs \<Rightarrow> path \<Rightarrow> bool" where
  "fs_exists s p = (file_at s p \<noteq> None \<or> p \<in> set (fs_dirs s))"

text \<open>Creating a directory with its ancestors, which must not be files.\<close>

definition create_dir_all :: "fs \<Rightarrow> path \<Rightarrow> (IoError + unit) \<times> fs" where
  "create_dir_all s p =
     (case next_fault s of
        (Some (e, _), s') \<Rightarrow> (Inl e, s')
      | (None, s') \<Rightarrow>
        if list_ex (\<lambda>q. file_at s' q \<noteq> None) (prefixes p) then (Inl not_a_directory, s')
        else (Inr (), s'\<lparr>fs_dirs := remdups (prefixes p @ fs_dirs s')\<rparr>))"

text \<open>\<open>File::create\<close>: an empty file, in a directory that exists.\<close>

definition file_create :: "fs \<Rightarrow> path \<Rightarrow> (IoError + unit) \<times> fs" where
  "file_create s p =
     (case next_fault s of
        (Some (e, _), s') \<Rightarrow> (Inl e, s')
      | (None, s') \<Rightarrow>
        if butlast p \<notin> set (fs_dirs s') then (Inl no_such_file, s')
        else (Inr (), s'\<lparr>fs_files := AList.update p \<lparr>f_data = [], f_mtime = fs_clock s'\<rparr> (fs_files s')\<rparr>))"

text \<open>Appending bytes to an open file; a failure may leave some of them written.\<close>

definition append_bytes :: "fs \<Rightarrow> path \<Rightarrow> data \<Rightarrow> fs" where
  "append_bytes s p bs =
     (case file_at s p of
        None \<Rightarrow> s
      | Some f \<Rightarrow> s\<lparr>fs_files := AList.update p \<lparr>f_data = f_data f @ bs, f_mtime = fs_clock s\<rparr> (fs_files s)\<rparr>)"

definition file_write :: "fs \<Rightarrow> path \<Rightarrow> data \<Rightarrow> (IoError + unit) \<times> fs" where
  "file_write s p bs =
     (case next_fault s of
        (Some (e, n), s') \<Rightarrow> (Inl e, append_bytes s' p (take n bs))
      | (None, s') \<Rightarrow> (Inr (), append_bytes s' p bs))"

text \<open>Flushing and syncing change no contents.\<close>

definition file_sync :: "fs \<Rightarrow> (IoError + unit) \<times> fs" where
  "file_sync s =
     (case next_fault s of
        (Some (e, _), s') \<Rightarrow> (Inl e, s')
      | (None, s') \<Rightarrow> (Inr (), s'))"

text \<open>Reading an opened file to its end.\<close>

definition file_read :: "fs \<Rightarrow> data \<Rightarrow> (IoError + data) \<times> fs" where
  "file_read s d =
     (case next_fault s of
        (Some (e, _), s') \<Rightarrow> (Inl e, s')
      | (None, s') \<Rightarrow> (Inr d, s'))"

definition fs_rename :: "fs \<Rightarrow> path \<Rightarrow> path \<Rightarrow> (IoError + unit) \<times> fs" where
  "fs_rename s p q =
     (case next_fault s of
        (Some (e, _), s') \<Rightarrow> (Inl e, s')
      | (None, s') \<Rightarrow>
        (case file_at s' p of
           None \<Rightarrow> (Inl no_such_file, s')
         | Some f \<Rightarrow>
           if butlast q \<notin> set (fs_dirs s') then (Inl no_such_file, s')
           else (Inr (), s'\<lparr>fs_files := AList.update q f (AList.delete p (fs_files s'))\<rparr>)))"

definition remove_file :: "fs \<Rightarrow> path \<Rightarrow> (IoError + unit) \<times> fs" where
  "remove_file s p =
     (case next_fault s of
        (Some (e, _), s') \<Rightarrow> (Inl e, s')
      | (None, s') \<Rightarrow>
        (case file_at s' p of
           None \<Rightarrow> (Inl no_such_file, s')
         | Some _ \<Rightarrow> (Inr (), s'\<lparr>fs_files := AList.delete p (fs_files s')\<rparr>)))"

text \<open>Opening for reading; the handle yields the contents of the file.\<close>

definition file_open :: "fs \<Rightarrow> path \<Rightarrow> (IoError + data) \<times> fs" where
  "file_open s p =
     (case next_fault s of
        (Some (e, _), s') \<Rightarrow> (Inl e, s')
      | (None, s') \<Rightarrow>
        (case file_at s' p of
           None \<Rightarrow> (Inl no_such_file, s')
         | Some f \<Rightarrow> (Inr (f_data f), s')))"

datatype metadata = IsFile u64 | IsDir

definition fs_metadata :: "fs \<Rightarrow> path \<Rightarrow> (IoError + metadata) \<times> fs" where
  "fs_metadata s p =
     (case next_fault s of
        (Some (e, _), s') \<Rightarrow> (Inl e, s')
      | (None, s') \<Rightarrow>
        (case file_at s' p of
           Some f \<Rightarrow> (Inr (IsFile (of_nat (length (f_data f)))), s')
         | None \<Rightarrow> if p \<in> set (fs_dirs s') then (Inr IsDir, s') else (Inl no_such_file, s')))"

text \<open>
  Directories: their entries, removing an empty one, and removing one with everything below it. The
  latter stops at the first file it cannot remove; the fault says how many went before.
\<close>

definition dir_entries :: "fs \<Rightarrow> path \<Rightarrow> path list" where
  "dir_entries s p =
     filter (\<lambda>q. q \<noteq> [] \<and> butlast q = p) (map fst (fs_files s)) @ filter (\<lambda>q. q \<noteq> [] \<and> butlast q = p) (fs_dirs s)"

definition read_dir :: "fs \<Rightarrow> path \<Rightarrow> (IoError + path list) \<times> fs" where
  "read_dir s p =
     (case next_fault s of
        (Some (e, _), s') \<Rightarrow> (Inl e, s')
      | (None, s') \<Rightarrow> if p \<notin> set (fs_dirs s') then (Inl no_such_file, s') else (Inr (dir_entries s' p), s'))"

definition directory_not_empty :: IoError where
  "directory_not_empty = \<lparr>io_kind = OtherKind, io_msg = ''Directory not empty (os error 39)''\<rparr>"

definition remove_dir :: "fs \<Rightarrow> path \<Rightarrow> (IoError + unit) \<times> fs" where
  "remove_dir s p =
     (case next_fault s of
        (Some (e, _), s') \<Rightarrow> (Inl e, s')
      | (None, s') \<Rightarrow>
        if p \<notin> set (fs_dirs s') then (Inl (if file_at s' p = None then no_such_file else not_a_directory), s')
        else if dir_entries s' p \<noteq> [] then (Inl directory_not_empty, s')
        else (Inr (), s'\<lparr>fs_dirs := removeAll p (fs_dirs s')\<rparr>))"

definition remove_files :: "path list \<Rightarrow> fs \<Rightarrow> fs" where
  "remove_files ps s = s\<lparr>fs_files := filter (\<lambda>(q, _). q \<notin> set ps) (fs_files s)\<rparr>"

definition files_below :: "fs \<Rightarrow> path \<Rightarrow> path list" where
  "files_below s p = filter (\<lambda>q. prefix p q) (map fst (fs_files s))"

definition remove_dir_all :: "fs \<Rightarrow> path \<Rightarrow> (IoError + unit) \<times> fs" where
  "remove_dir_all s p =
     (case next_fault s of
        (Some (e, n), s') \<Rightarrow> (Inl e, remove_files (take n (files_below s' p)) s')
      | (None, s') \<Rightarrow>
        if p \<notin> set (fs_dirs s') then (Inl (if file_at s' p = None then no_such_file else not_a_directory), s')
        else (Inr (), (remove_files (files_below s' p) s')\<lparr>fs_dirs := filter (\<lambda>q. \<not> prefix p q) (fs_dirs s')\<rparr>))"

section \<open>Effects\<close>

text \<open>The files as a map, and states that differ only in pending faults and directories.\<close>

abbreviation files :: "fs \<Rightarrow> path \<rightharpoonup> File" where
  "files s \<equiv> map_of (fs_files s)"

lemma next_fault_files [simp]:
  "fs_files (snd (next_fault s)) = fs_files s" "fs_dirs (snd (next_fault s)) = fs_dirs s"
  "fs_clock (snd (next_fault s)) = fs_clock s"
  by (auto simp: next_fault_def split: list.splits)

lemma next_fault_eq:
  "next_fault s = (f, s') \<Longrightarrow> fs_files s' = fs_files s \<and> fs_dirs s' = fs_dirs s \<and> fs_clock s' = fs_clock s"
  by (metis next_fault_files snd_conv)

lemma next_fault_none [simp]: "fs_faults s = [] \<Longrightarrow> next_fault s = (None, s)"
  by (simp add: next_fault_def)

lemma create_dir_all_effect:
  "create_dir_all s p = (r, s') \<Longrightarrow> fs_files s' = fs_files s \<and> fs_clock s' = fs_clock s
     \<and> set (fs_dirs s) \<subseteq> set (fs_dirs s')
     \<and> (r = Inr () \<longrightarrow> (\<forall>q. prefix q p \<longrightarrow> q \<in> set (fs_dirs s')))"
  by (auto simp: create_dir_all_def dest!: next_fault_eq split: prod.splits option.splits if_splits)

lemma file_create_effect:
  "file_create s p = (r, s') \<Longrightarrow> fs_dirs s' = fs_dirs s \<and> fs_clock s' = fs_clock s
     \<and> files s' = (case r of Inl _ \<Rightarrow> files s | Inr _ \<Rightarrow> (files s)(p \<mapsto> \<lparr>f_data = [], f_mtime = fs_clock s\<rparr>))"
  by (auto simp: file_create_def update_conv' dest!: next_fault_eq split: prod.splits option.splits if_splits)

lemma append_bytes_effect:
  "fs_dirs (append_bytes s p bs) = fs_dirs s \<and> fs_clock (append_bytes s p bs) = fs_clock s
   \<and> files (append_bytes s p bs) = (case files s p of None \<Rightarrow> files s
       | Some f \<Rightarrow> (files s)(p \<mapsto> \<lparr>f_data = f_data f @ bs, f_mtime = fs_clock s\<rparr>))"
  by (auto simp: append_bytes_def update_conv' split: option.splits)

lemma file_write_effect:
  assumes "file_write s p bs = (r, s')" and "files s p = Some f"
  shows "fs_dirs s' = fs_dirs s \<and> fs_clock s' = fs_clock s
     \<and> (\<exists>n. files s' = (files s)(p \<mapsto> \<lparr>f_data = f_data f @ take n bs, f_mtime = fs_clock s\<rparr>))
     \<and> (r = Inr () \<longrightarrow> files s' = (files s)(p \<mapsto> \<lparr>f_data = f_data f @ bs, f_mtime = fs_clock s\<rparr>))"
proof -
  obtain x s1 where n: "next_fault s = (x, s1)" by fastforce
  have f: "files s1 p = Some f" "fs_dirs s1 = fs_dirs s" "fs_clock s1 = fs_clock s" "files s1 = files s"
    using next_fault_eq [OF n] assms(2) by auto
  show ?thesis
  proof (cases x)
    case None
    with n assms f append_bytes_effect [of s1 p bs] show ?thesis
      by (auto simp: file_write_def intro: exI [of _ "length bs"])
  next
    case (Some en)
    obtain e m where "en = (e, m)" by fastforce
    with Some n assms f append_bytes_effect [of s1 p "take m bs"] show ?thesis
      by (auto simp: file_write_def)
  qed
qed

lemma file_sync_effect:
  "file_sync s = (r, s') \<Longrightarrow> fs_files s' = fs_files s \<and> fs_dirs s' = fs_dirs s \<and> fs_clock s' = fs_clock s"
  by (auto simp: file_sync_def dest!: next_fault_eq split: prod.splits option.splits)

lemma file_read_effect:
  "file_read s d = (r, s') \<Longrightarrow> fs_files s' = fs_files s \<and> fs_dirs s' = fs_dirs s \<and> fs_clock s' = fs_clock s
     \<and> (\<forall>d'. r = Inr d' \<longrightarrow> d' = d)"
  by (auto simp: file_read_def dest!: next_fault_eq split: prod.splits option.splits)

lemma fs_rename_effect:
  "fs_rename s p q = (r, s') \<Longrightarrow> fs_dirs s' = fs_dirs s \<and> fs_clock s' = fs_clock s
     \<and> (case r of Inl _ \<Rightarrow> files s' = files s
        | Inr _ \<Rightarrow> \<exists>f. files s p = Some f \<and> files s' = (files s)(p := None, q \<mapsto> f))"
  by (auto simp: fs_rename_def update_conv' delete_conv' dest!: next_fault_eq
      split: prod.splits option.splits if_splits)

lemma remove_file_effect:
  "remove_file s p = (r, s') \<Longrightarrow> fs_dirs s' = fs_dirs s \<and> fs_clock s' = fs_clock s
     \<and> (case r of Inl _ \<Rightarrow> files s' = files s
        | Inr _ \<Rightarrow> files s p \<noteq> None \<and> files s' = (files s)(p := None))"
  by (auto simp: remove_file_def delete_conv' dest!: next_fault_eq
      split: prod.splits option.splits if_splits)

lemma file_open_effect:
  "file_open s p = (r, s') \<Longrightarrow> fs_files s' = fs_files s \<and> fs_dirs s' = fs_dirs s \<and> fs_clock s' = fs_clock s
     \<and> (\<forall>d. r = Inr d \<longrightarrow> (\<exists>f. files s p = Some f \<and> d = f_data f))"
  by (auto simp: file_open_def dest!: next_fault_eq split: prod.splits option.splits if_splits)

lemma fs_metadata_effect:
  "fs_metadata s p = (r, s') \<Longrightarrow> fs_files s' = fs_files s \<and> fs_dirs s' = fs_dirs s \<and> fs_clock s' = fs_clock s
     \<and> (\<forall>n. r = Inr (IsFile n) \<longrightarrow> (\<exists>f. files s p = Some f \<and> n = of_nat (length (f_data f))))"
  by (auto simp: fs_metadata_def dest!: next_fault_eq split: prod.splits option.splits if_splits)

lemma map_of_filter_keys: "map_of (filter (\<lambda>(q, _). q \<notin> X) xs) p = (if p \<in> X then None else map_of xs p)"
  by (induction xs) auto

lemma remove_files_effect:
  "fs_clock (remove_files ps s) = fs_clock s \<and> files (remove_files ps s) p = (if p \<in> set ps then None else files s p)"
  by (simp add: remove_files_def map_of_filter_keys)

lemma remove_dir_effect: "remove_dir s p = (r, s') \<Longrightarrow> fs_files s' = fs_files s \<and> fs_clock s' = fs_clock s"
  by (auto simp: remove_dir_def dest!: next_fault_eq split: prod.splits option.splits if_splits)

lemma read_dir_effect:
  "read_dir s p = (r, s') \<Longrightarrow> fs_files s' = fs_files s \<and> fs_dirs s' = fs_dirs s \<and> fs_clock s' = fs_clock s
     \<and> (\<forall>qs. r = Inr qs \<longrightarrow> qs = dir_entries s p)"
  by (auto simp: read_dir_def dir_entries_def dest!: next_fault_eq split: prod.splits option.splits if_splits)

lemma remove_dir_all_effect:
  assumes "remove_dir_all s p = (r, s')"
  shows "(\<forall>q. \<not> prefix p q \<longrightarrow> files s' q = files s q) \<and> (\<forall>q. files s' q = None \<or> files s' q = files s q)
    \<and> (\<forall>q. r = Inr () \<longrightarrow> prefix p q \<longrightarrow> files s' q = None)"
proof -
  obtain x s1 where n: "next_fault s = (x, s1)" by fastforce
  have f: "fs_files s1 = fs_files s" using next_fault_eq [OF n] by simp
  have below: "prefix p q" if "q \<in> set (files_below s1 p)" for q using that by (simp add: files_below_def)
  have all: "files s q = None" if "q \<notin> set (files_below s1 p)" "prefix p q" for q
    using that f by (auto simp: files_below_def map_of_eq_None_iff)
  show ?thesis
  proof (cases x)
    case None
    with assms n f below all show ?thesis
      by (auto simp: remove_dir_all_def remove_files_effect [THEN conjunct2] remove_files_def map_of_filter_keys split: if_splits)
  next
    case (Some en)
    with assms n f below show ?thesis
      by (cases en) (auto simp: remove_dir_all_def remove_files_effect [THEN conjunct2] dest!: in_set_takeD)
  qed
qed

end
