(* ===== verification/Object_Storage.thy ===== *)
theory Object_Storage
  imports Std_Fs Meta_Types
begin

text \<open>
  The local object store, \<open>crates/save-storage/src/lib.rs\<close> and \<open>layout.rs\<close>, and the local
  backend, \<open>local_backend.rs\<close>. An object is one file below the directory for objects, named by the
  SHA-256 of its key. Writing goes to a temporary file that is renamed into place; a handle to a
  temporary file removes it when it is dropped without having been committed, which happens at
  every early return.

  SHA-256 is outside code: the parameter \<open>sha256_hex\<close>, of which the locale \<open>object_ids\<close> uses that
  it yields 64 hexadecimal digits and does not collide on the keys in use.
\<close>

section \<open>Errors and layout\<close>

datatype StorageError =
    StorageIo IoError
  | NotFound string
  | InvalidKey string
  | InvalidPath string
  | QuorumNotAchieved nat nat
  | StorageTls string

fun StorageError_to_string :: "StorageError \<Rightarrow> string" where
  "StorageError_to_string (StorageIo e) = ''IO error: '' @ io_msg e"
| "StorageError_to_string (NotFound k) = ''Object not found: '' @ k"
| "StorageError_to_string (InvalidKey m) = ''Invalid key: '' @ m"
| "StorageError_to_string (InvalidPath m) = ''Invalid path: '' @ m"
| "StorageError_to_string (QuorumNotAchieved achieved required) =
     ''Quorum not achieved: '' @ nat_str achieved @ '' of '' @ nat_str required @ '' nodes''"
| "StorageError_to_string (StorageTls m) = ''TLS error: '' @ m"

definition as_bytes :: "string \<Rightarrow> data" where
  "as_bytes s = map (\<lambda>c. of_nat (of_char c)) s"

record StorageLayout =
  base_path :: path

definition object_id :: "(data \<Rightarrow> string) \<Rightarrow> string \<Rightarrow> StorageError + string" where
  "object_id sha256_hex key =
     (case validate_object_key key of
        Inl e \<Rightarrow> Inl (InvalidKey (Error_to_string e))
      | Inr _ \<Rightarrow> Inr (sha256_hex (as_bytes key)))"

definition object_path_from_id :: "StorageLayout \<Rightarrow> string \<Rightarrow> path" where
  "object_path_from_id l i = base_path l @ [''objects'', take 2 i, i]"

definition temp_path_from_id :: "StorageLayout \<Rightarrow> string \<Rightarrow> path" where
  "temp_path_from_id l i = base_path l @ [''temp'', i @ ''.tmp'']"

definition object_path :: "(data \<Rightarrow> string) \<Rightarrow> StorageLayout \<Rightarrow> string \<Rightarrow> StorageError + path" where
  "object_path sha256_hex l key =
     (case object_id sha256_hex key of Inl e \<Rightarrow> Inl e | Inr i \<Rightarrow> Inr (object_path_from_id l i))"

definition objects_dir :: "StorageLayout \<Rightarrow> path" where
  "objects_dir l = base_path l @ [''objects'']"

definition temp_dir :: "StorageLayout \<Rightarrow> path" where
  "temp_dir l = base_path l @ [''temp'']"

section \<open>Temporary objects\<close>

record TempObject =
  temp_path :: path
  final_path :: path
  committed :: bool

definition TempObject_new :: "path \<Rightarrow> path \<Rightarrow> TempObject" where
  "TempObject_new tp fp = \<lparr>temp_path = tp, final_path = fp, committed = False\<rparr>"

definition mark_committed :: "TempObject \<Rightarrow> TempObject" where
  "mark_committed t = t\<lparr>committed := True\<rparr>"

text \<open>Dropping the handle; a failure to remove the file is only logged.\<close>

definition drop_temp :: "fs \<Rightarrow> TempObject \<Rightarrow> fs" where
  "drop_temp s t =
     (if \<not> committed t \<and> fs_exists s (temp_path t) then snd (remove_file s (temp_path t)) else s)"

section \<open>The object store\<close>

record ObjectStorage =
  layout :: StorageLayout
  fsync_mode :: string

definition path_str :: "path \<Rightarrow> string" where
  "path_str p = concat (map (\<lambda>c. ''/'' @ c) p)"

text \<open>Opening and syncing a file or directory; both report the path in their errors.\<close>

definition fsync_path :: "string \<Rightarrow> string \<Rightarrow> fs \<Rightarrow> path \<Rightarrow> bool \<Rightarrow> (StorageError + unit) \<times> fs" where
  "fsync_path open_msg sync_msg s p is_there =
     (case next_fault s of
        (Some (e, _), s') \<Rightarrow>
          (Inl (StorageIo (e\<lparr>io_msg := open_msg @ debug_str (path_str p) @ '': '' @ io_msg e\<rparr>)), s')
      | (None, s') \<Rightarrow>
        if \<not> is_there then
          (Inl (StorageIo (no_such_file\<lparr>io_msg := open_msg @ debug_str (path_str p) @ '': '' @ io_msg no_such_file\<rparr>)), s')
        else
          (case file_sync s' of
             (Inl e, s'') \<Rightarrow>
               (Inl (StorageIo (e\<lparr>io_msg := sync_msg @ debug_str (path_str p) @ '': '' @ io_msg e\<rparr>)), s'')
           | (Inr _, s'') \<Rightarrow> (Inr (), s'')))"

definition fsync_file :: "fs \<Rightarrow> path \<Rightarrow> (StorageError + unit) \<times> fs" where
  "fsync_file s p =
     fsync_path ''Failed to open file for fsync at '' ''Failed to fsync file at '' s p (fs_exists s p)"

definition fsync_dir :: "fs \<Rightarrow> path \<Rightarrow> (StorageError + unit) \<times> fs" where
  "fsync_dir s p =
     fsync_path ''Failed to open directory for fsync at '' ''Failed to fsync directory at '' s p (fs_exists s p)"

definition new_with_fsync_mode :: "fs \<Rightarrow> path \<Rightarrow> string \<Rightarrow> (StorageError + ObjectStorage) \<times> fs" where
  "new_with_fsync_mode s base mode =
     (let l = \<lparr>base_path = base\<rparr> in
      case create_dir_all s (objects_dir l) of
        (Inl e, s1) \<Rightarrow> (Inl (StorageIo e), s1)
      | (Inr _, s1) \<Rightarrow>
        (case create_dir_all s1 (temp_dir l) of
           (Inl e, s2) \<Rightarrow> (Inl (StorageIo e), s2)
         | (Inr _, s2) \<Rightarrow> (Inr \<lparr>layout = l, fsync_mode = mode\<rparr>, s2)))"

definition create_temp_object ::
  "(data \<Rightarrow> string) \<Rightarrow> ObjectStorage \<Rightarrow> fs \<Rightarrow> string \<Rightarrow> (StorageError + TempObject) \<times> fs" where
  "create_temp_object sha256_hex st s key =
     (case object_id sha256_hex key of
        Inl e \<Rightarrow> (Inl e, s)
      | Inr i \<Rightarrow>
        (let tp = temp_path_from_id (layout st) i;
             fp = object_path_from_id (layout st) i in
         case create_dir_all s (butlast tp) of
           (Inl e, s') \<Rightarrow> (Inl (StorageIo e), s')
         | (Inr _, s') \<Rightarrow> (Inr (TempObject_new tp fp), s')))"

text \<open>
  The reader delivers the bytes and then ends (\<open>Inr\<close>) or fails (\<open>Inl\<close>); what it delivered before
  a failure has been copied.
\<close>

record reader =
  rd_bytes :: data
  rd_end :: "IoError + unit"

text \<open>From the creation of the file on, every failure drops the handle and so removes the file.\<close>

definition write_temp_object ::
  "(data \<Rightarrow> string) \<Rightarrow> ObjectStorage \<Rightarrow> fs \<Rightarrow> string \<Rightarrow> reader \<Rightarrow> (StorageError + TempObject) \<times> fs" where
  "write_temp_object sha256_hex st s key rd =
     (case create_temp_object sha256_hex st s key of
        (Inl e, s1) \<Rightarrow> (Inl e, s1)
      | (Inr t, s1) \<Rightarrow>
        (case file_create s1 (temp_path t) of
           (Inl e, s2) \<Rightarrow> (Inl (StorageIo e), drop_temp s2 t)
         | (Inr _, s2) \<Rightarrow>
           (case file_write s2 (temp_path t) (rd_bytes rd) of
              (Inl e, s3) \<Rightarrow> (Inl (StorageIo e), drop_temp s3 t)
            | (Inr _, s3) \<Rightarrow>
              (case rd_end rd of
                 Inl e \<Rightarrow> (Inl (StorageIo e), drop_temp s3 t)
               | Inr _ \<Rightarrow>
                 (case file_sync s3 of
                    (Inl e, s4) \<Rightarrow> (Inl (StorageIo e), drop_temp s4 t)
                  | (Inr _, s4) \<Rightarrow>
                    if fsync_mode st \<noteq> ''none'' then
                      (case file_sync s4 of
                         (Inl e, s5) \<Rightarrow> (Inl (StorageIo e), drop_temp s5 t)
                       | (Inr _, s5) \<Rightarrow> (Inr t, s5))
                    else (Inr t, s4))))))"

text \<open>The handle is consumed: dropped uncommitted on a failure, committed on success.\<close>

definition commit_object :: "ObjectStorage \<Rightarrow> fs \<Rightarrow> TempObject \<Rightarrow> (StorageError + unit) \<times> fs" where
  "commit_object st s t =
     (case create_dir_all s (butlast (final_path t)) of
        (Inl e, s1) \<Rightarrow> (Inl (StorageIo e), drop_temp s1 t)
      | (Inr _, s1) \<Rightarrow>
        (case fs_rename s1 (temp_path t) (final_path t) of
           (Inl e, s2) \<Rightarrow> (Inl (StorageIo e), drop_temp s2 t)
         | (Inr _, s2) \<Rightarrow>
           if fsync_mode st = ''full'' then
             (case fsync_dir s2 (butlast (final_path t)) of
                (Inl e, s3) \<Rightarrow> (Inl e, drop_temp s3 t)
              | (Inr _, s3) \<Rightarrow> (Inr (), drop_temp s3 (mark_committed t)))
           else (Inr (), drop_temp s2 (mark_committed t))))"

definition put_object ::
  "(data \<Rightarrow> string) \<Rightarrow> ObjectStorage \<Rightarrow> fs \<Rightarrow> string \<Rightarrow> reader \<Rightarrow> (StorageError + unit) \<times> fs" where
  "put_object sha256_hex st s key rd =
     (case write_temp_object sha256_hex st s key rd of
        (Inl e, s1) \<Rightarrow> (Inl e, s1)
      | (Inr t, s1) \<Rightarrow> commit_object st s1 t)"

definition get_object ::
  "(data \<Rightarrow> string) \<Rightarrow> ObjectStorage \<Rightarrow> fs \<Rightarrow> string \<Rightarrow> (StorageError + data) \<times> fs" where
  "get_object sha256_hex st s key =
     (case object_path sha256_hex (layout st) key of
        Inl e \<Rightarrow> (Inl e, s)
      | Inr p \<Rightarrow>
        (case file_open s p of
           (Inr d, s') \<Rightarrow> (Inr d, s')
         | (Inl e, s') \<Rightarrow>
           (Inl (if io_kind e = NotFoundKind then NotFound key else StorageIo e), s')))"

definition delete_object ::
  "(data \<Rightarrow> string) \<Rightarrow> ObjectStorage \<Rightarrow> fs \<Rightarrow> string \<Rightarrow> (StorageError + unit) \<times> fs" where
  "delete_object sha256_hex st s key =
     (case object_path sha256_hex (layout st) key of
        Inl e \<Rightarrow> (Inl e, s)
      | Inr p \<Rightarrow>
        (case remove_file s p of
           (Inr _, s') \<Rightarrow> (Inr (), s')
         | (Inl e, s') \<Rightarrow>
           (Inl (if io_kind e = NotFoundKind then NotFound key else StorageIo e), s')))"

text \<open>
  Size and checksum. The file is hashed in blocks of 64 KiB, which yields the hash of its contents;
  one fault may hit the opening and one the reading.
\<close>

definition object_info ::
  "(data \<Rightarrow> string) \<Rightarrow> ObjectStorage \<Rightarrow> fs \<Rightarrow> string \<Rightarrow> (StorageError + u64 \<times> string) \<times> fs" where
  "object_info sha256_hex st s key =
     (case object_path sha256_hex (layout st) key of
        Inl e \<Rightarrow> (Inl e, s)
      | Inr p \<Rightarrow>
        (case fs_metadata s p of
           (Inl e, s1) \<Rightarrow>
             (Inl (if io_kind e = NotFoundKind then NotFound key else StorageIo e), s1)
         | (Inr m, s1) \<Rightarrow>
           (let sz = (case m of IsFile n \<Rightarrow> n | IsDir \<Rightarrow> 0) in
            case file_open s1 p of
              (Inl e, s2) \<Rightarrow> (Inl (StorageIo e), s2)
            | (Inr d, s2) \<Rightarrow>
              (case file_read s2 d of
                 (Inl e, s3) \<Rightarrow> (Inl (StorageIo e), s3)
               | (Inr bytes, s3) \<Rightarrow> (Inr (sz, sha256_hex bytes), s3)))))"

definition remove_if_exists :: "fs \<Rightarrow> path \<Rightarrow> (StorageError + bool) \<times> fs" where
  "remove_if_exists s p =
     (case remove_file s p of
        (Inr _, s') \<Rightarrow> (Inr True, s')
      | (Inl e, s') \<Rightarrow> if io_kind e = NotFoundKind then (Inr False, s') else (Inl (StorageIo e), s'))"

section \<open>The local backend\<close>

datatype HealthStatus = Healthy | Degraded string | Unhealthy string

definition health_check_local :: "ObjectStorage \<Rightarrow> fs \<Rightarrow> HealthStatus \<times> fs" where
  "health_check_local st s =
     (case fs_metadata s (temp_dir (layout st)) of
        (Inr IsDir, s') \<Rightarrow> (Healthy, s')
      | (Inr (IsFile _), s') \<Rightarrow>
          (Unhealthy ''Temp directory path exists but is not a directory'', s')
      | (Inl e, s') \<Rightarrow> (Unhealthy (''Cannot access temp directory: '' @ io_msg e), s'))"

section \<open>The contract of a storage backend\<close>

text \<open>
  What the trait \<open>StorageBackend\<close> promises its callers: objects are written completely or not at
  all, a successful write is what reads return until the next write or deletion, and an operation
  on one key does not touch another. A write that reports a failure may still have happened.
\<close>

locale object_backend =
  fixes put :: "'s \<Rightarrow> string \<Rightarrow> reader \<Rightarrow> (StorageError + unit) \<times> 's"
    and get :: "'s \<Rightarrow> string \<Rightarrow> (StorageError + data) \<times> 's"
    and del :: "'s \<Rightarrow> string \<Rightarrow> (StorageError + unit) \<times> 's"
    and view :: "'s \<Rightarrow> string \<rightharpoonup> data"
    and keys :: "string set"
  assumes put_ok: "key \<in> keys \<Longrightarrow> put s key rd = (Inr u, s') \<Longrightarrow> k \<in> keys \<Longrightarrow>
      rd_end rd = Inr () \<and> view s' k = (if k = key then Some (rd_bytes rd) else view s k)"
    and put_err: "key \<in> keys \<Longrightarrow> put s key rd = (Inl e, s') \<Longrightarrow> k \<in> keys \<Longrightarrow>
      view s' k = view s k \<or> (k = key \<and> view s' k = Some (rd_bytes rd))"
    and get_ok: "key \<in> keys \<Longrightarrow> get s key = (Inr d, s') \<Longrightarrow> view s key = Some d"
    and get_same: "key \<in> keys \<Longrightarrow> get s key = (r, s') \<Longrightarrow> k \<in> keys \<Longrightarrow> view s' k = view s k"
    and del_ok: "key \<in> keys \<Longrightarrow> del s key = (Inr u, s') \<Longrightarrow> k \<in> keys \<Longrightarrow>
      view s' k = (if k = key then None else view s k)"
    and del_err: "key \<in> keys \<Longrightarrow> del s key = (Inl e, s') \<Longrightarrow> k \<in> keys \<Longrightarrow> view s' k = view s k"

datatype storage_call = PutCall string reader | GetCall string | DeleteCall string

fun call_key :: "storage_call \<Rightarrow> string" where
  "call_key (PutCall k _) = k" | "call_key (GetCall k) = k" | "call_key (DeleteCall k) = k"

fun run_call ::
  "('s \<Rightarrow> string \<Rightarrow> reader \<Rightarrow> (StorageError + unit) \<times> 's) \<Rightarrow>
   ('s \<Rightarrow> string \<Rightarrow> (StorageError + data) \<times> 's) \<Rightarrow> ('s \<Rightarrow> string \<Rightarrow> (StorageError + unit) \<times> 's)
   \<Rightarrow> 's \<Rightarrow> storage_call \<Rightarrow> 's" where
  "run_call put get del s (PutCall k rd) = snd (put s k rd)"
| "run_call put get del s (GetCall k) = snd (get s k)"
| "run_call put get del s (DeleteCall k) = snd (del s k)"

context object_backend
begin

abbreviation "call \<equiv> run_call put get del"

lemma read_your_write:
  assumes "key \<in> keys" and "put s key rd = (Inr u, s1)" and "get s1 key = (Inr d, s2)"
  shows "d = rd_bytes rd"
  using put_ok [OF assms(1,2,1)] get_ok [OF assms(1,3)] by simp

lemma run_call_view:
  assumes "call_key c \<in> keys" and "k \<in> keys"
  shows "view (call s c) k = view s k \<or> view (call s c) k = None
    \<or> (\<exists>rd. c = PutCall k rd \<and> view (call s c) k = Some (rd_bytes rd))"
proof (cases c)
  case (PutCall key rd)
  obtain r s' where p: "put s key rd = (r, s')" by fastforce
  with PutCall assms put_ok [of key s rd _ s' k] put_err [of key s rd _ s' k] show ?thesis
    by (cases r) auto
next
  case (GetCall key)
  with assms get_same [of key s _ _ k] show ?thesis by (metis call_key.simps(2) prod.collapse run_call.simps(2))
next
  case (DeleteCall key)
  obtain r s' where p: "del s key = (r, s')" by fastforce
  with DeleteCall assms del_ok [of key s _ s' k] del_err [of key s _ s' k] show ?thesis
    by (cases r) auto
qed

text \<open>Nothing is torn: what a key holds after any calls was there before or written by one put.\<close>

lemma run_calls_whole:
  assumes "\<forall>c \<in> set cs. call_key c \<in> keys" and "k \<in> keys" and "view (foldl call s cs) k = Some d"
  shows "view s k = Some d \<or> (\<exists>rd. PutCall k rd \<in> set cs \<and> rd_bytes rd = d)"
  using assms
proof (induction cs arbitrary: s)
  case (Cons c cs)
  then have "view (call s c) k = Some d \<or> (\<exists>rd. PutCall k rd \<in> set cs \<and> rd_bytes rd = d)" by auto
  with run_call_view [of c k s] Cons.prems show ?case by auto
qed simp

end

section \<open>The local store meets the contract\<close>

definition object_view_fs :: "(data \<Rightarrow> string) \<Rightarrow> ObjectStorage \<Rightarrow> fs \<Rightarrow> string \<rightharpoonup> data" where
  "object_view_fs sha256_hex st s key =
     map_option f_data (files s (object_path_from_id (layout st) (sha256_hex (as_bytes key))))"

text \<open>What is used of SHA-256: 64 hexadecimal digits, and no collision among the keys in use.\<close>

locale object_ids =
  fixes sha256_hex :: "data \<Rightarrow> string" and keys :: "string set" and st :: ObjectStorage
  assumes id_length: "length (sha256_hex d) = 64"
    and id_inj: "k \<in> keys \<Longrightarrow> k' \<in> keys \<Longrightarrow> sha256_hex (as_bytes k) = sha256_hex (as_bytes k') \<Longrightarrow> k = k'"
    and keys_valid: "k \<in> keys \<Longrightarrow> valid_key k"

lemma object_path_not_temp [simp]:
  "object_path_from_id l i \<noteq> temp_path_from_id l j" "temp_path_from_id l j \<noteq> object_path_from_id l i"
  by (simp_all add: object_path_from_id_def temp_path_from_id_def)

lemma object_path_inject [simp]:
  "object_path_from_id l i = object_path_from_id l j \<longleftrightarrow> i = j"
  by (auto simp: object_path_from_id_def)

lemma drop_temp_effect:
  "files (drop_temp s t) = files s \<or> files (drop_temp s t) = (files s)(temp_path t := None)"
proof (cases "\<not> committed t \<and> fs_exists s (temp_path t)")
  case True
  obtain r s' where r: "remove_file s (temp_path t) = (r, s')" by fastforce
  with remove_file_effect [OF r] True show ?thesis by (cases r) (auto simp: drop_temp_def)
qed (auto simp: drop_temp_def)

lemma drop_temp_other: "p \<noteq> temp_path t \<Longrightarrow> files (drop_temp s t) p = files s p"
  using drop_temp_effect [of s t] by auto

lemma drop_committed [simp]: "drop_temp s (mark_committed t) = s"
  by (simp add: drop_temp_def mark_committed_def)

lemma create_temp_object_ok:
  assumes "create_temp_object sha st s key = (r, s')"
  shows "fs_files s' = fs_files s \<and> fs_clock s' = fs_clock s \<and> (\<forall>t. r = Inr t \<longrightarrow>
    t = TempObject_new (temp_path_from_id (layout st) (sha (as_bytes key)))
          (object_path_from_id (layout st) (sha (as_bytes key))))"
proof (cases "object_id sha key")
  case (Inr i)
  then have i: "i = sha (as_bytes key)" by (auto simp: object_id_def split: sum.splits)
  obtain x s1 where c: "create_dir_all s (butlast (temp_path_from_id (layout st) i)) = (x, s1)" by fastforce
  from assms Inr c create_dir_all_effect [OF c] i show ?thesis
    by (auto simp: create_temp_object_def Let_def split: sum.splits)
qed (use assms in \<open>auto simp: create_temp_object_def\<close>)

lemma write_temp_object_ok:
  assumes "write_temp_object sha st s key rd = (r, s')"
  shows "(\<forall>p. p \<noteq> temp_path_from_id (layout st) (sha (as_bytes key)) \<longrightarrow> files s' p = files s p)
    \<and> (\<forall>t. r = Inr t \<longrightarrow> rd_end rd = Inr ()
        \<and> t = TempObject_new (temp_path_from_id (layout st) (sha (as_bytes key)))
              (object_path_from_id (layout st) (sha (as_bytes key)))
        \<and> files s' (temp_path t) = Some \<lparr>f_data = rd_bytes rd, f_mtime = fs_clock s\<rparr>)"
proof -
  let ?tp = "temp_path_from_id (layout st) (sha (as_bytes key))"
  obtain x1 s1 where c1: "create_temp_object sha st s key = (x1, s1)" by fastforce
  note e1 = create_temp_object_ok [OF c1]
  show ?thesis
  proof (cases x1)
    case (Inl e)
    with assms c1 e1 show ?thesis by (auto simp: write_temp_object_def)
  next
    case (Inr t)
    with e1 have tp: "temp_path t = ?tp" and t: "t = TempObject_new ?tp
        (object_path_from_id (layout st) (sha (as_bytes key)))" by (auto simp: TempObject_new_def)
    obtain x2 s2 where c2: "file_create s1 ?tp = (x2, s2)" by fastforce
    note e2 = file_create_effect [OF c2]
    show ?thesis
    proof (cases x2)
      case (Inl e)
      with assms c1 Inr c2 e1 e2 tp show ?thesis
        by (auto simp: write_temp_object_def drop_temp_other)
    next
      case x2: (Inr u)
      with e2 have f2: "files s2 ?tp = Some \<lparr>f_data = [], f_mtime = fs_clock s1\<rparr>"
        and o2: "\<forall>p. p \<noteq> ?tp \<longrightarrow> files s2 p = files s p" using e1 by auto
      obtain x3 s3 where c3: "file_write s2 ?tp (rd_bytes rd) = (x3, s3)" by fastforce
      note e3 = file_write_effect [OF c3 f2]
      have o3: "\<forall>p. p \<noteq> ?tp \<longrightarrow> files s3 p = files s p" using e3 o2 by auto
      obtain x4 s4 where c4: "file_sync s3 = (x4, s4)" by fastforce
      obtain x5 s5 where c5: "file_sync s4 = (x5, s5)" by fastforce
      note e45 = file_sync_effect [OF c4] file_sync_effect [OF c5]
      show ?thesis
      proof (cases "x3 = Inr () \<and> rd_end rd = Inr () \<and> x4 = Inr () \<and> (fsync_mode st \<noteq> ''none'' \<longrightarrow> x5 = Inr ())")
        case True
        with assms c1 Inr c2 x2 c3 c4 c5 tp have "r = Inr t" "s' = s4 \<or> s' = s5"
          by (auto simp: write_temp_object_def split: if_splits)
        with True e3 e45 o3 t tp e1 e2 show ?thesis by (auto simp: TempObject_new_def)
      next
        case False
        then have "(\<exists>e. r = Inl e) \<and> (s' = drop_temp s3 t \<or> s' = drop_temp s4 t \<or> s' = drop_temp s5 t)"
          using assms c1 Inr c2 x2 c3 c4 c5 tp
          by (cases x3; cases "rd_end rd"; cases x4; cases x5)
            (auto simp: write_temp_object_def split: if_splits)
        with o3 e45 tp show ?thesis by (auto simp: drop_temp_other)
      qed
    qed
  qed
qed

lemma fsync_dir_effect: "fsync_dir s p = (r, s') \<Longrightarrow> fs_files s' = fs_files s"
  by (auto simp: fsync_dir_def fsync_path_def dest!: next_fault_eq file_sync_effect
      split: prod.splits option.splits sum.splits if_splits)

text \<open>
  Committing replaces the final file by the temporary one, or leaves the final file alone; only
  when syncing the directory fails after the rename is a failure reported for a commit that took
  place.
\<close>

lemma commit_object_ok:
  assumes "commit_object st s t = (r, s')" and "temp_path t \<noteq> final_path t"
  shows "(\<forall>p. p \<noteq> temp_path t \<longrightarrow> p \<noteq> final_path t \<longrightarrow> files s' p = files s p)
    \<and> (r = Inr () \<longrightarrow> files s' (final_path t) = files s (temp_path t) \<and> files s (temp_path t) \<noteq> None
         \<and> files s' (temp_path t) = None)
    \<and> (\<forall>e. r = Inl e \<longrightarrow> files s' (final_path t) = files s (final_path t)
         \<or> (files s (temp_path t) \<noteq> None \<and> files s' (final_path t) = files s (temp_path t)))"
proof -
  obtain x1 s1 where c1: "create_dir_all s (butlast (final_path t)) = (x1, s1)" by fastforce
  from create_dir_all_effect [OF c1] have f1: "files s1 = files s" by simp
  show ?thesis
  proof (cases x1)
    case (Inl e)
    with assms c1 f1 show ?thesis by (auto simp: commit_object_def drop_temp_other)
  next
    case x1: (Inr u)
    obtain x2 s2 where c2: "fs_rename s1 (temp_path t) (final_path t) = (x2, s2)" by fastforce
    note e2 = fs_rename_effect [OF c2]
    show ?thesis
    proof (cases x2)
      case (Inl e)
      with assms c1 x1 c2 e2 f1 show ?thesis by (auto simp: commit_object_def drop_temp_other)
    next
      case x2: (Inr u')
      with e2 f1 obtain f where f: "files s (temp_path t) = Some f"
        "files s2 = (files s)(temp_path t := None, final_path t \<mapsto> f)" by auto
      obtain x3 s3 where c3: "fsync_dir s2 (butlast (final_path t)) = (x3, s3)" by fastforce
      note e3 = fsync_dir_effect [OF c3]
      from assms c1 x1 c2 x2 c3 have "s' = s2 \<or> s' = s3 \<or> s' = drop_temp s3 t"
        by (auto simp: commit_object_def split: if_splits sum.splits)
      with f e3 assms(2) drop_temp_effect [of s3 t] show ?thesis by (auto simp: fun_upd_def)
    qed
  qed
qed

context object_ids
begin

abbreviation "stored \<equiv> object_view_fs sha256_hex st"

lemma object_id_eq: "key \<in> keys \<Longrightarrow> object_id sha256_hex key = Inr (sha256_hex (as_bytes key))"
  using keys_valid by (simp add: object_id_def)

lemma put_object_cases:
  assumes key: "key \<in> keys" and k: "k \<in> keys" and p: "put_object sha256_hex st s key rd = (r, s')"
  shows "(r = Inr () \<longrightarrow> rd_end rd = Inr () \<and> stored s' k = (if k = key then Some (rd_bytes rd) else stored s k))
    \<and> (stored s' k = stored s k \<or> (k = key \<and> stored s' k = Some (rd_bytes rd)))"
proof -
  let ?op = "\<lambda>k. object_path_from_id (layout st) (sha256_hex (as_bytes k))"
  obtain x s1 where w: "write_temp_object sha256_hex st s key rd = (x, s1)" by fastforce
  note ew = write_temp_object_ok [OF w]
  have same: "files s1 (?op k) = files s (?op k)" using ew by simp
  have inj: "?op k = ?op key \<longleftrightarrow> k = key" using id_inj [OF k key] by auto
  show ?thesis
  proof (cases x)
    case (Inl e)
    with p w same show ?thesis by (auto simp: put_object_def object_view_fs_def)
  next
    case (Inr t)
    with ew have t: "t = TempObject_new (temp_path_from_id (layout st) (sha256_hex (as_bytes key))) (?op key)"
      and tf: "files s1 (temp_path t) = Some \<lparr>f_data = rd_bytes rd, f_mtime = fs_clock s\<rparr>"
      and rd: "rd_end rd = Inr ()" by auto
    have fp: "final_path t = ?op key" and ne: "temp_path t \<noteq> final_path t"
      and tk: "?op k \<noteq> temp_path t" by (simp_all add: t TempObject_new_def)
    from p w Inr have "commit_object st s1 t = (r, s')" by (simp add: put_object_def)
    from commit_object_ok [OF this ne] fp tk inj same tf rd
    show ?thesis by (cases r) (auto simp: object_view_fs_def)
  qed
qed

lemma stored_get: "get_object sha256_hex st s key = (r, s') \<Longrightarrow> key \<in> keys \<Longrightarrow>
    files s' = files s \<and> (\<forall>d. r = Inr d \<longrightarrow> stored s key = Some d)"
  by (auto simp: get_object_def object_path_def object_id_eq object_view_fs_def dest!: file_open_effect
      split: prod.splits sum.splits)

lemma stored_delete:
  assumes "delete_object sha256_hex st s key = (r, s')" and "key \<in> keys"
  shows "files s' = (if r = Inr () then (files s)
    (object_path_from_id (layout st) (sha256_hex (as_bytes key)) := None) else files s)"
  using assms
  by (auto simp: delete_object_def object_path_def object_id_eq dest!: remove_file_effect
      split: prod.splits sum.splits)

end

sublocale object_ids \<subseteq> local: object_backend "put_object sha256_hex st" "get_object sha256_hex st"
  "delete_object sha256_hex st" "object_view_fs sha256_hex st" keys
proof
  fix key k s rd u s'
  assume "key \<in> keys" "put_object sha256_hex st s key rd = (Inr u, s')" "k \<in> keys"
  then show "rd_end rd = Inr () \<and> stored s' k = (if k = key then Some (rd_bytes rd) else stored s k)"
    using put_object_cases by (metis (full_types) old.unit.exhaust)
next
  fix key k s rd e s'
  assume "key \<in> keys" "put_object sha256_hex st s key rd = (Inl e, s')" "k \<in> keys"
  then show "stored s' k = stored s k \<or> (k = key \<and> stored s' k = Some (rd_bytes rd))"
    using put_object_cases by blast
next
  fix key s d s' assume "key \<in> keys" "get_object sha256_hex st s key = (Inr d, s')"
  then show "stored s key = Some d" using stored_get by blast
next
  fix key k s r s' assume "key \<in> keys" "get_object sha256_hex st s key = (r, s')" "k \<in> keys"
  then show "stored s' k = stored s k" using stored_get by (simp add: object_view_fs_def)
next
  fix key k s u s'
  assume "key \<in> keys" "delete_object sha256_hex st s key = (Inr u, s')" "k \<in> keys"
  then show "stored s' k = (if k = key then None else stored s k)"
    using stored_delete [of s key "Inr u" s'] id_inj [of k key] by (auto simp: object_view_fs_def)
next
  fix key k s e s'
  assume "key \<in> keys" "delete_object sha256_hex st s key = (Inl e, s')" "k \<in> keys"
  then show "stored s' k = stored s k"
    using stored_delete [of s key "Inl e" s'] by (simp add: object_view_fs_def)
qed

context object_ids
begin

lemmas axioms_backend = local.object_backend_axioms

end

lemma local_is_backend:
  "object_ids sha256_hex keys \<Longrightarrow> object_backend (put_object sha256_hex st) (get_object sha256_hex st)
     (delete_object sha256_hex st) (object_view_fs sha256_hex st) keys"
  by (rule object_ids.axioms_backend)

section \<open>Success without faults\<close>

text \<open>No failure is pending and no file is in the place of a directory of the store.\<close>

definition fs_ready :: "(data \<Rightarrow> string) \<Rightarrow> ObjectStorage \<Rightarrow> fs \<Rightarrow> string \<Rightarrow> bool" where
  "fs_ready sha256_hex st s key \<longleftrightarrow>
     fs_faults s = []
     \<and> list_all (\<lambda>q. file_at s q = None)
         (prefixes (temp_dir (layout st))
          @ prefixes (butlast (object_path_from_id (layout st) (sha256_hex (as_bytes key)))))"

lemma butlast_paths:
  "butlast (temp_path_from_id l i) = temp_dir l"
  "butlast (object_path_from_id l i) = base_path l @ [''objects'', take 2 i]"
  by (simp_all add: temp_path_from_id_def object_path_from_id_def temp_dir_def butlast_append)

lemma create_dir_all_ok:
  "fs_faults s = [] \<Longrightarrow> list_all (\<lambda>q. file_at s q = None) (prefixes p) \<Longrightarrow>
     create_dir_all s p = (Inr (), s\<lparr>fs_dirs := remdups (prefixes p @ fs_dirs s)\<rparr>)"
  by (auto simp: create_dir_all_def list_ex_iff list_all_iff)

lemma write_temp_object_runs:
  assumes "valid_key key" and "fs_ready sha st s key"
  shows "\<exists>s'. write_temp_object sha st s key rd = (case rd_end rd of
      Inr _ \<Rightarrow> (Inr (TempObject_new (temp_path_from_id (layout st) (sha (as_bytes key)))
                 (object_path_from_id (layout st) (sha (as_bytes key)))), s')
    | Inl e \<Rightarrow> (Inl (StorageIo e), s'))
    \<and> fs_faults s' = []
    \<and> (\<forall>p. p \<noteq> temp_path_from_id (layout st) (sha (as_bytes key)) \<longrightarrow> files s' p = files s p)
    \<and> files s' (temp_path_from_id (layout st) (sha (as_bytes key)))
        = (case rd_end rd of Inr _ \<Rightarrow> Some \<lparr>f_data = rd_bytes rd, f_mtime = fs_clock s\<rparr> | Inl _ \<Rightarrow> None)"
proof -
  let ?tp = "temp_path_from_id (layout st) (sha (as_bytes key))"
  let ?s1 = "s\<lparr>fs_dirs := remdups (prefixes (temp_dir (layout st)) @ fs_dirs s)\<rparr>"
  from assms(2) have c: "create_dir_all s (temp_dir (layout st)) = (Inr (), ?s1)" and ff: "fs_faults s = []"
    by (auto simp: fs_ready_def intro!: create_dir_all_ok)
  have d: "temp_dir (layout st) \<in> set (prefixes (temp_dir (layout st)))" by simp
  show ?thesis
  proof (cases "rd_end rd")
    case (Inl e)
    with assms(1) c ff d show ?thesis
      by (auto simp: write_temp_object_def create_temp_object_def object_id_def butlast_paths Let_def
          file_create_def file_write_def append_bytes_def drop_temp_def remove_file_def fs_exists_def
          TempObject_new_def update_conv' delete_conv')
  next
    case (Inr u)
    with assms(1) c ff d show ?thesis
      by (auto simp: write_temp_object_def create_temp_object_def object_id_def butlast_paths Let_def
          file_create_def file_write_def append_bytes_def file_sync_def TempObject_new_def update_conv')
  qed
qed

lemma put_object_runs:
  assumes "valid_key key" and "fs_ready sha st s key" and "rd_end rd = Inr ()"
  shows "\<exists>s'. put_object sha st s key rd = (Inr (), s') \<and> fs_faults s' = []
    \<and> files s' (temp_path_from_id (layout st) (sha (as_bytes key))) = None
    \<and> files s' (object_path_from_id (layout st) (sha (as_bytes key)))
        = Some \<lparr>f_data = rd_bytes rd, f_mtime = fs_clock s\<rparr>"
proof -
  let ?tp = "temp_path_from_id (layout st) (sha (as_bytes key))"
  let ?fp = "object_path_from_id (layout st) (sha (as_bytes key))"
  let ?t = "TempObject_new ?tp ?fp"
  from write_temp_object_runs [OF assms(1,2), of rd] assms(3) obtain s1 where
    w: "write_temp_object sha st s key rd = (Inr ?t, s1)" and ff: "fs_faults s1 = []"
    and o: "\<forall>p. p \<noteq> ?tp \<longrightarrow> files s1 p = files s p"
    and tp: "files s1 ?tp = Some \<lparr>f_data = rd_bytes rd, f_mtime = fs_clock s\<rparr>" by auto
  have "?tp \<notin> set (prefixes (butlast ?fp))"
    by (auto simp: butlast_paths temp_path_from_id_def prefix_def)
  then have "list_all (\<lambda>q. file_at s1 q = None) (prefixes (butlast ?fp))"
    using assms(2) o unfolding fs_ready_def list_all_iff set_append by (metis UnCI)
  then have c: "create_dir_all s1 (butlast ?fp)
      = (Inr (), s1\<lparr>fs_dirs := remdups (prefixes (butlast ?fp) @ fs_dirs s1)\<rparr>)"
    using ff by (intro create_dir_all_ok)
  have d: "butlast ?fp \<in> set (prefixes (butlast ?fp))" by simp
  show ?thesis
    using w c ff tp d
    by (auto simp: put_object_def commit_object_def TempObject_new_def fs_rename_def fsync_dir_def
        fsync_path_def fs_exists_def file_sync_def drop_temp_def mark_committed_def update_conv' delete_conv')
qed

section \<open>Properties\<close>

text \<open>
  C23: No torn objects. After any sequence of writes, reads and deletions through the local store,
  with any of the file operations failing, an object holds what it held at the start or the complete
  contents of one of the writes to its key.
\<close>

theorem local_objects_never_torn:
  assumes "object_ids sha256_hex keys" and "\<forall>c \<in> set cs. call_key c \<in> keys" and "k \<in> keys"
    and "object_view_fs sha256_hex st (foldl (run_call (put_object sha256_hex st)
        (get_object sha256_hex st) (delete_object sha256_hex st)) s cs) k = Some d"
  shows "object_view_fs sha256_hex st s k = Some d \<or> (\<exists>rd. PutCall k rd \<in> set cs \<and> rd_bytes rd = d)"
  by (rule object_backend.run_calls_whole
      [OF local_is_backend [OF assms(1)] assms(2-4)])

text \<open>A store and a hash for the examples.\<close>

definition example_storage :: ObjectStorage where
  "example_storage = \<lparr>layout = \<lparr>base_path = [''data'']\<rparr>, fsync_mode = ''full''\<rparr>"

definition example_fs :: fs where
  "example_fs = \<lparr>fs_files = [], fs_dirs = [], fs_clock = 4, fs_faults = []\<rparr>"

definition example_sha :: "data \<Rightarrow> string" where
  "example_sha d = replicate 64 (if d = as_bytes ''b/one'' then CHR ''1'' else CHR ''2'')"

lemma example_ids: "object_ids example_sha {''b/one'', ''b/two''}"
proof
  show "length (example_sha d) = 64" for d by (simp add: example_sha_def)
  have "as_bytes ''b/one'' \<noteq> as_bytes ''b/two''" by code_simp
  then show "k \<in> {''b/one'', ''b/two''} \<Longrightarrow> k' \<in> {''b/one'', ''b/two''} \<Longrightarrow>
      example_sha (as_bytes k) = example_sha (as_bytes k') \<Longrightarrow> k = k'" for k k'
    by (auto simp: example_sha_def)
  have "valid_key ''b/one''" "valid_key ''b/two''" by code_simp+
  then show "k \<in> {''b/one'', ''b/two''} \<Longrightarrow> valid_key k" for k by blast
qed

interpretation ex_ids: object_ids example_sha "{''b/one'', ''b/two''}" example_storage
  by (rule example_ids)

text \<open>A first write that succeeds and a second one to the same key that fails after one byte.\<close>

definition torn_calls :: "storage_call list" where
  "torn_calls = [PutCall ''b/one'' \<lparr>rd_bytes = [1, 2], rd_end = Inr ()\<rparr>, PutCall ''b/one'' \<lparr>rd_bytes = [3, 4, 5], rd_end = Inr ()\<rparr>]"

definition torn_start :: fs where
  "torn_start = example_fs\<lparr>fs_faults := replicate 11 None @ [Some (io_other ''disk full'', 1)]\<rparr>"

lemma torn_calls_run:
  "object_view_fs example_sha example_storage (foldl (run_call (put_object example_sha example_storage)
     (get_object example_sha example_storage) (delete_object example_sha example_storage)) torn_start torn_calls) ''b/one'' = Some [1, 2]"
  by code_simp

theorem local_objects_never_torn_witness:
  "\<exists>d. object_view_fs example_sha example_storage (foldl (run_call (put_object example_sha example_storage)
        (get_object example_sha example_storage) (delete_object example_sha example_storage)) torn_start torn_calls) ''b/one'' = Some d
     \<and> object_view_fs example_sha example_storage torn_start ''b/one'' \<noteq> Some d
     \<and> (\<exists>rd. PutCall ''b/one'' rd \<in> set torn_calls \<and> rd_bytes rd = d)"
proof -
  have c: "\<forall>c \<in> set torn_calls. call_key c \<in> {''b/one'', ''b/two''}" by (simp add: torn_calls_def)
  have k: "''b/one'' \<in> {''b/one'', ''b/two''}" by simp
  have n: "object_view_fs example_sha example_storage torn_start ''b/one'' = None"
    by (simp add: object_view_fs_def torn_start_def example_fs_def)
  from local_objects_never_torn [OF example_ids c k torn_calls_run] n torn_calls_run show ?thesis by auto
qed

text \<open>
  With a failing disk the report of a write and its effect may differ: if the directory cannot be
  synchronised after the renaming, the write reports the error and the object is installed.
\<close>

theorem unsynced_put_installs:
  "case put_object example_sha example_storage (example_fs\<lparr>fs_faults := replicate 8 None @ [Some (io_other ''EIO'', 0)]\<rparr>)
      ''b/one'' \<lparr>rd_bytes = [1, 2], rd_end = Inr ()\<rparr> of
     (r, s) \<Rightarrow> isl r \<and> object_view_fs example_sha example_storage s ''b/one'' = Some [1, 2]"
  by code_simp

text \<open>
  Without faults a write through a reader that ends normally succeeds; the object then reads
  back as the bytes of the reader and no temporary file is left.
\<close>

theorem local_put_get:
  assumes "valid_key key" and "fs_ready sha256_hex st s key" and "rd_end rd = Inr ()"
  shows "\<exists>s'. put_object sha256_hex st s key rd = (Inr (), s')
    \<and> fst (get_object sha256_hex st s' key) = Inr (rd_bytes rd)
    \<and> files s' (temp_path_from_id (layout st) (sha256_hex (as_bytes key))) = None"
proof -
  obtain s' where p: "put_object sha256_hex st s key rd = (Inr (), s')" and f: "fs_faults s' = []"
    and t: "files s' (temp_path_from_id (layout st) (sha256_hex (as_bytes key))) = None"
    and o: "files s' (object_path_from_id (layout st) (sha256_hex (as_bytes key)))
        = Some \<lparr>f_data = rd_bytes rd, f_mtime = fs_clock s\<rparr>"
    using put_object_runs [OF assms] by blast
  from f o assms(1) have "fst (get_object sha256_hex st s' key) = Inr (rd_bytes rd)"
    by (simp add: get_object_def object_path_def object_id_def file_open_def)
  with p t show ?thesis by blast
qed

theorem local_put_get_witness:
  "\<exists>s'. put_object example_sha example_storage example_fs ''b/one'' \<lparr>rd_bytes = [1, 2], rd_end = Inr ()\<rparr> = (Inr (), s')
    \<and> fst (get_object example_sha example_storage s' ''b/one'') = Inr [1, 2]"
proof -
  have v: "valid_key ''b/one''" by code_simp
  have r: "fs_ready example_sha example_storage example_fs ''b/one''"
    by (simp add: fs_ready_def example_fs_def list_all_iff)
  from local_put_get [OF v r, of "\<lparr>rd_bytes = [1, 2], rd_end = Inr ()\<rparr>"] show ?thesis by auto
qed

text \<open>
  C27: When the source of the data fails in the middle of a write, the store reports the failure,
  removes the temporary file, and keeps every object as it was.
\<close>

theorem failed_write_leaves_nothing:
  assumes "valid_key key" and "fs_ready sha256_hex st s key" and "rd_end rd = Inl e"
  shows "\<exists>s'. put_object sha256_hex st s key rd = (Inl (StorageIo e), s')
    \<and> files s' (temp_path_from_id (layout st) (sha256_hex (as_bytes key))) = None
    \<and> (\<forall>k. object_view_fs sha256_hex st s' k = object_view_fs sha256_hex st s k)"
proof -
  obtain s' where w: "write_temp_object sha256_hex st s key rd = (Inl (StorageIo e), s')"
    and o: "\<forall>p. p \<noteq> temp_path_from_id (layout st) (sha256_hex (as_bytes key)) \<longrightarrow> files s' p = files s p"
    and t: "files s' (temp_path_from_id (layout st) (sha256_hex (as_bytes key))) = None"
    using write_temp_object_runs [OF assms(1,2), of rd] assms(3) by auto
  then show ?thesis by (simp add: put_object_def object_view_fs_def)
qed

theorem failed_write_leaves_nothing_witness:
  "\<exists>s'. put_object example_sha example_storage example_fs ''b/one''
      \<lparr>rd_bytes = [1, 2], rd_end = Inl (io_other ''connection reset'')\<rparr>
      = (Inl (StorageIo (io_other ''connection reset'')), s')
    \<and> (\<forall>k. object_view_fs example_sha example_storage s' k = object_view_fs example_sha example_storage example_fs k)"
proof -
  have v: "valid_key ''b/one''" by code_simp
  have r: "fs_ready example_sha example_storage example_fs ''b/one''"
    by (simp add: fs_ready_def example_fs_def list_all_iff)
  from failed_write_leaves_nothing [OF v r, of "\<lparr>rd_bytes = [1, 2], rd_end = Inl (io_other ''connection reset'')\<rparr>"]
  show ?thesis by auto
qed

end
