(* ===== verification/Repl_Service.thy ===== *)
theory Repl_Service
  imports Object_Storage
begin

text \<open>
  The replication service of a node, \<open>crates/save-storage/src/replication/service.rs\<close>: what a node
  does with the requests of other nodes to prepare, commit, abort, read and delete copies of
  objects. Its state is the table of prepared writes, each with the handle of a temporary file, and
  the file system of the node. A handle that leaves the table without being committed is dropped,
  which removes its temporary file.
\<close>

section \<open>Messages\<close>

text \<open>The requests \<open>WriteObjectRequest\<close> and \<open>PrepareObjectRequest\<close> have the same fields.\<close>

record WriteObjectRequest =
  wr_key :: string
  wr_data :: data
  wr_checksum :: string
  wr_request_id :: u64

type_synonym PrepareObjectRequest = WriteObjectRequest

record WriteObjectResponse =
  wresp_success :: bool
  wresp_error :: string
  bytes_written :: u64

record PrepareObjectResponse =
  presp_success :: bool
  presp_error :: string
  presp_temp_id :: string

record PrepareChunkRequest =
  pc_key :: string
  pc_request_id :: u64
  pc_chunk :: data
  pc_is_last :: bool
  pc_checksum :: string

record CommitObjectRequest =
  cm_key :: string
  cm_temp_id :: string
  cm_request_id :: u64

type_synonym AbortObjectRequest = CommitObjectRequest

record CommitObjectResponse =
  cresp_success :: bool
  cresp_error :: string

record ReadObjectResponse =
  rd_chunk :: data
  rd_is_last :: bool
  rd_total_size :: u64

record ObjectExistsResponse =
  ex_exists :: bool
  ex_size :: u64
  ex_checksum :: string

record DeleteObjectResponse =
  dresp_success :: bool
  dresp_error :: string
  was_present :: bool

datatype HealthCode = HEALTHY | DEGRADED | UNHEALTHY

record HealthCheckResponse =
  hresp_status :: HealthCode
  hresp_message :: string
  uptime_seconds :: u64

text \<open>The percentage is a floating-point number in the source, where it is always zero.\<close>

record GetStatsResponse =
  total_objects :: u64
  total_bytes :: u64
  temp_objects :: u64
  disk_usage_percent :: int

section \<open>State\<close>

record PendingPrepare =
  temp_object :: TempObject
  pp_checksum :: string
  pp_created_at :: instant

record ReplicationService =
  svc_storage :: ObjectStorage
  start_time :: instant
  pending_prepares :: "(string \<times> PendingPrepare) list"
  svc_fs :: fs

definition ReplicationService_new :: "ObjectStorage \<Rightarrow> fs \<Rightarrow> ReplicationService" where
  "ReplicationService_new st s =
     \<lparr>svc_storage = st, start_time = fs_clock s, pending_prepares = [], svc_fs = s\<rparr>"

text \<open>Inserting into the table drops the entry that had the same identifier.\<close>

definition insert_pending :: "ReplicationService \<Rightarrow> string \<Rightarrow> PendingPrepare \<Rightarrow> ReplicationService" where
  "insert_pending svc tid p =
     svc\<lparr>pending_prepares := AList.update tid p (pending_prepares svc),
         svc_fs := (case map_of (pending_prepares svc) tid of
                      None \<Rightarrow> svc_fs svc
                    | Some old \<Rightarrow> drop_temp (svc_fs svc) (temp_object old))\<rparr>"

definition make_temp_id :: "u64 \<Rightarrow> string \<Rightarrow> string" where
  "make_temp_id request_id key = nat_str (unat request_id) @ '':'' @ key"

definition checksum_mismatch :: "string \<Rightarrow> string \<Rightarrow> string" where
  "checksum_mismatch expected actual = ''checksum mismatch: expected '' @ expected @ '', got '' @ actual"

definition prepare_failed :: "string \<Rightarrow> PrepareObjectResponse" where
  "prepare_failed msg = \<lparr>presp_success = False, presp_error = msg, presp_temp_id = []\<rparr>"

definition prepare_done :: "string \<Rightarrow> PrepareObjectResponse" where
  "prepare_done tid = \<lparr>presp_success = True, presp_error = [], presp_temp_id = tid\<rparr>"

section \<open>Writing\<close>

definition whole :: "data \<Rightarrow> reader" where
  "whole d = \<lparr>rd_bytes = d, rd_end = Inr ()\<rparr>"

definition service_write_object ::
  "(data \<Rightarrow> string) \<Rightarrow> ReplicationService \<Rightarrow> WriteObjectRequest \<Rightarrow> WriteObjectResponse \<times> ReplicationService" where
  "service_write_object sha256_hex svc req =
     (if wr_checksum req \<noteq> [] \<and> sha256_hex (wr_data req) \<noteq> wr_checksum req then
        (\<lparr>wresp_success = False,
          wresp_error = checksum_mismatch (wr_checksum req) (sha256_hex (wr_data req)),
          bytes_written = 0\<rparr>, svc)
      else
        (case put_object sha256_hex (svc_storage svc) (svc_fs svc) (wr_key req) (whole (wr_data req)) of
           (Inr _, s) \<Rightarrow>
             (\<lparr>wresp_success = True, wresp_error = [], bytes_written = of_nat (length (wr_data req))\<rparr>,
              svc\<lparr>svc_fs := s\<rparr>)
         | (Inl e, s) \<Rightarrow>
             (\<lparr>wresp_success = False, wresp_error = StorageError_to_string e, bytes_written = 0\<rparr>,
              svc\<lparr>svc_fs := s\<rparr>)))"

definition service_prepare_object ::
  "(data \<Rightarrow> string) \<Rightarrow> ReplicationService \<Rightarrow> PrepareObjectRequest \<Rightarrow> PrepareObjectResponse \<times> ReplicationService" where
  "service_prepare_object sha256_hex svc req =
     (if wr_checksum req \<noteq> [] \<and> sha256_hex (wr_data req) \<noteq> wr_checksum req then
        (prepare_failed (checksum_mismatch (wr_checksum req) (sha256_hex (wr_data req))), svc)
      else
        (case write_temp_object sha256_hex (svc_storage svc) (svc_fs svc) (wr_key req) (whole (wr_data req)) of
           (Inr t, s) \<Rightarrow>
             (let tid = make_temp_id (wr_request_id req) (wr_key req);
                  p = \<lparr>temp_object = t, pp_checksum = wr_checksum req, pp_created_at = fs_clock s\<rparr> in
              (prepare_done tid, insert_pending (svc\<lparr>svc_fs := s\<rparr>) tid p))
         | (Inl e, s) \<Rightarrow> (prepare_failed (StorageError_to_string e), svc\<lparr>svc_fs := s\<rparr>)))"

text \<open>
  The loop over the chunks: empty chunks are not written, and the last non-empty checksum of a
  final chunk is the expected one. The hasher is the bytes fed to it.
\<close>

fun write_chunks ::
  "fs \<Rightarrow> path \<Rightarrow> PrepareChunkRequest list \<Rightarrow> data \<Rightarrow> string \<Rightarrow> (IoError + data \<times> string) \<times> fs" where
  "write_chunks s p [] hashed expected = (Inr (hashed, expected), s)"
| "write_chunks s p (c # cs) hashed expected =
     (let expected' = (if pc_is_last c \<and> pc_checksum c \<noteq> [] then pc_checksum c else expected) in
      if pc_chunk c = [] then write_chunks s p cs hashed expected'
      else
        (case file_write s p (pc_chunk c) of
           (Inl e, s') \<Rightarrow> (Inl e, s')
         | (Inr _, s') \<Rightarrow> write_chunks s' p cs (hashed @ pc_chunk c) expected'))"

definition service_stream_prepare_object ::
  "(data \<Rightarrow> string) \<Rightarrow> ReplicationService \<Rightarrow> PrepareChunkRequest list
     \<Rightarrow> PrepareObjectResponse \<times> ReplicationService" where
  "service_stream_prepare_object sha256_hex svc chunks =
     (case chunks of
        [] \<Rightarrow> (prepare_failed ''no chunks received'', svc)
      | first_chunk # _ \<Rightarrow>
        (let key = pc_key first_chunk; request_id = pc_request_id first_chunk in
         if key = [] then (prepare_failed ''missing key in first chunk'', svc)
         else
           (case create_temp_object sha256_hex (svc_storage svc) (svc_fs svc) key of
              (Inl e, s1) \<Rightarrow>
                (prepare_failed (''failed to create temp object: '' @ StorageError_to_string e),
                 svc\<lparr>svc_fs := s1\<rparr>)
            | (Inr t, s1) \<Rightarrow>
              (case file_create s1 (temp_path t) of
                 (Inl e, s2) \<Rightarrow>
                   (prepare_failed (''failed to create temp file: '' @ io_msg e),
                    svc\<lparr>svc_fs := drop_temp s2 t\<rparr>)
               | (Inr _, s2) \<Rightarrow>
                 (case write_chunks s2 (temp_path t) chunks [] [] of
                    (Inl e, s3) \<Rightarrow>
                      (prepare_failed (''failed to write chunk: '' @ io_msg e),
                       svc\<lparr>svc_fs := drop_temp s3 t\<rparr>)
                  | (Inr (hashed, expected), s3) \<Rightarrow>
                    (case file_sync s3 of
                       (Inl e, s4) \<Rightarrow>
                         (prepare_failed (''failed to flush: '' @ io_msg e),
                          svc\<lparr>svc_fs := drop_temp s4 t\<rparr>)
                     | (Inr _, s4) \<Rightarrow>
                       if expected \<noteq> [] \<and> sha256_hex hashed \<noteq> expected then
                         (prepare_failed (checksum_mismatch expected (sha256_hex hashed)),
                          svc\<lparr>svc_fs := drop_temp s4 t\<rparr>)
                       else
                         (let tid = make_temp_id request_id key;
                              p = \<lparr>temp_object = t, pp_checksum = expected, pp_created_at = fs_clock s4\<rparr> in
                          (prepare_done tid, insert_pending (svc\<lparr>svc_fs := s4\<rparr>) tid p))))))))"

section \<open>Committing and aborting\<close>

definition remove_pending :: "ReplicationService \<Rightarrow> string \<Rightarrow> ReplicationService" where
  "remove_pending svc tid = svc\<lparr>pending_prepares := AList.delete tid (pending_prepares svc)\<rparr>"

definition service_commit_object ::
  "ReplicationService \<Rightarrow> CommitObjectRequest \<Rightarrow> CommitObjectResponse \<times> ReplicationService" where
  "service_commit_object svc req =
     (let svc' = remove_pending svc (cm_temp_id req) in
      case map_of (pending_prepares svc) (cm_temp_id req) of
        Some p \<Rightarrow>
          (case commit_object (svc_storage svc) (svc_fs svc) (temp_object p) of
             (Inr _, s) \<Rightarrow> (\<lparr>cresp_success = True, cresp_error = []\<rparr>, svc'\<lparr>svc_fs := s\<rparr>)
           | (Inl e, s) \<Rightarrow>
               (\<lparr>cresp_success = False, cresp_error = StorageError_to_string e\<rparr>, svc'\<lparr>svc_fs := s\<rparr>))
      | None \<Rightarrow>
          (\<lparr>cresp_success = False,
            cresp_error = ''no pending prepare for temp_id: '' @ cm_temp_id req\<rparr>, svc'))"

definition service_abort_object ::
  "ReplicationService \<Rightarrow> AbortObjectRequest \<Rightarrow> CommitObjectResponse \<times> ReplicationService" where
  "service_abort_object svc req =
     (let svc' = remove_pending svc (cm_temp_id req) in
      case map_of (pending_prepares svc) (cm_temp_id req) of
        Some p \<Rightarrow>
          (\<lparr>cresp_success = True, cresp_error = []\<rparr>,
           svc'\<lparr>svc_fs := drop_temp (svc_fs svc) (temp_object p)\<rparr>)
      | None \<Rightarrow> (\<lparr>cresp_success = True, cresp_error = []\<rparr>, svc'))"

section \<open>Reading, deleting and the rest\<close>

definition CHUNK_SIZE :: nat where
  "CHUNK_SIZE = 64 * 1024"

text \<open>
  Reading the open file block by block. A failing read ends the loop as the end of the file does;
  only at the end of the file an empty list is replaced by one empty chunk.
\<close>

function read_chunks :: "fs \<Rightarrow> data \<Rightarrow> ReadObjectResponse list \<Rightarrow> ReadObjectResponse list \<times> fs" where
  "read_chunks s d chunks =
     (case next_fault s of
        (Some _, s') \<Rightarrow> (chunks, s')
      | (None, s') \<Rightarrow>
        if d = [] then
          (if chunks = [] then [\<lparr>rd_chunk = [], rd_is_last = True, rd_total_size = 0\<rparr>] else chunks, s')
        else
          read_chunks s' (drop CHUNK_SIZE d)
            (chunks @ [\<lparr>rd_chunk = take CHUNK_SIZE d, rd_is_last = False, rd_total_size = 0\<rparr>]))"
  by pat_completeness auto
termination
  by (relation "measure (\<lambda>(_, d, _). length d)") (auto simp: CHUNK_SIZE_def)

declare read_chunks.simps [simp del]

definition mark_ends :: "ReadObjectResponse list \<Rightarrow> ReadObjectResponse list" where
  "mark_ends chunks =
     (let total = of_nat (sum_list (map (\<lambda>c. length (rd_chunk c)) chunks));
          chunks1 = (case chunks of [] \<Rightarrow> [] | c # cs \<Rightarrow> c\<lparr>rd_total_size := total\<rparr> # cs) in
      if chunks1 = [] then []
      else butlast chunks1 @ [(List.last chunks1)\<lparr>rd_is_last := True\<rparr>])"

definition service_read_object ::
  "(data \<Rightarrow> string) \<Rightarrow> ReplicationService \<Rightarrow> string
     \<Rightarrow> (StorageError + ReadObjectResponse list) \<times> ReplicationService" where
  "service_read_object sha256_hex svc key =
     (case get_object sha256_hex (svc_storage svc) (svc_fs svc) key of
        (Inl e, s) \<Rightarrow> (Inl e, svc\<lparr>svc_fs := s\<rparr>)
      | (Inr d, s) \<Rightarrow>
        (case read_chunks s d [] of (chunks, s') \<Rightarrow> (Inr (mark_ends chunks), svc\<lparr>svc_fs := s'\<rparr>)))"

definition service_object_exists ::
  "(data \<Rightarrow> string) \<Rightarrow> ReplicationService \<Rightarrow> string \<Rightarrow> ObjectExistsResponse \<times> ReplicationService" where
  "service_object_exists sha256_hex svc key =
     (case object_info sha256_hex (svc_storage svc) (svc_fs svc) key of
        (Inr (sz, checksum), s) \<Rightarrow>
          (\<lparr>ex_exists = True, ex_size = sz, ex_checksum = checksum\<rparr>, svc\<lparr>svc_fs := s\<rparr>)
      | (Inl _, s) \<Rightarrow> (\<lparr>ex_exists = False, ex_size = 0, ex_checksum = []\<rparr>, svc\<lparr>svc_fs := s\<rparr>))"

definition service_delete_object ::
  "(data \<Rightarrow> string) \<Rightarrow> ReplicationService \<Rightarrow> string \<Rightarrow> DeleteObjectResponse \<times> ReplicationService" where
  "service_delete_object sha256_hex svc key =
     (case get_object sha256_hex (svc_storage svc) (svc_fs svc) key of
        (g, s1) \<Rightarrow>
        (let present = (\<not> isl g) in
         case delete_object sha256_hex (svc_storage svc) s1 key of
           (Inr _, s2) \<Rightarrow>
             (\<lparr>dresp_success = True, dresp_error = [], was_present = present\<rparr>, svc\<lparr>svc_fs := s2\<rparr>)
         | (Inl (NotFound _), s2) \<Rightarrow>
             (\<lparr>dresp_success = True, dresp_error = [], was_present = False\<rparr>, svc\<lparr>svc_fs := s2\<rparr>)
         | (Inl e, s2) \<Rightarrow>
             (\<lparr>dresp_success = False, dresp_error = StorageError_to_string e, was_present = present\<rparr>,
              svc\<lparr>svc_fs := s2\<rparr>)))"

definition as_secs :: "int \<Rightarrow> u64" where
  "as_secs ns = of_int (ns div 1000000000)"

definition service_health_check :: "ReplicationService \<Rightarrow> HealthCheckResponse" where
  "service_health_check svc =
     \<lparr>hresp_status = HEALTHY, hresp_message = [],
      uptime_seconds = as_secs (fs_clock (svc_fs svc) - start_time svc)\<rparr>"

definition get_stats :: "ReplicationService \<Rightarrow> GetStatsResponse" where
  "get_stats svc =
     \<lparr>total_objects = 0, total_bytes = 0, temp_objects = of_nat (length (pending_prepares svc)),
      disk_usage_percent = 0\<rparr>"

definition pending_prepare_count :: "ReplicationService \<Rightarrow> nat" where
  "pending_prepare_count svc = length (pending_prepares svc)"

text \<open>\<open>duration_since\<close> yields zero for an instant that is later.\<close>

definition is_stale :: "instant \<Rightarrow> u64 \<Rightarrow> PendingPrepare \<Rightarrow> bool" where
  "is_stale now max_age_secs p \<longleftrightarrow> max_age_secs \<le> as_secs (max 0 (now - pp_created_at p))"

definition cleanup_stale_prepares :: "ReplicationService \<Rightarrow> u64 \<Rightarrow> nat \<times> ReplicationService" where
  "cleanup_stale_prepares svc max_age_secs =
     (let now = fs_clock (svc_fs svc);
          stale = filter (\<lambda>(_, p). is_stale now max_age_secs p) (pending_prepares svc);
          kept = filter (\<lambda>(_, p). \<not> is_stale now max_age_secs p) (pending_prepares svc) in
      (length (pending_prepares svc) - length kept,
       svc\<lparr>pending_prepares := kept,
           svc_fs := foldl (\<lambda>s (_, p). drop_temp s (temp_object p)) (svc_fs svc) stale\<rparr>))"

section \<open>Prepare requests of both kinds\<close>

datatype prepare_request = PrepareWhole PrepareObjectRequest | PrepareStream "PrepareChunkRequest list"

fun service_prepare ::
  "(data \<Rightarrow> string) \<Rightarrow> ReplicationService \<Rightarrow> prepare_request \<Rightarrow> PrepareObjectResponse \<times> ReplicationService" where
  "service_prepare sha256_hex svc (PrepareWhole req) = service_prepare_object sha256_hex svc req"
| "service_prepare sha256_hex svc (PrepareStream chunks) = service_stream_prepare_object sha256_hex svc chunks"

fun prepare_key :: "prepare_request \<Rightarrow> string" where
  "prepare_key (PrepareWhole req) = wr_key req"
| "prepare_key (PrepareStream []) = []"
| "prepare_key (PrepareStream (c # _)) = pc_key c"

fun prepare_id :: "prepare_request \<Rightarrow> u64" where
  "prepare_id (PrepareWhole req) = wr_request_id req"
| "prepare_id (PrepareStream []) = 0"
| "prepare_id (PrepareStream (c # _)) = pc_request_id c"

fun prepare_data :: "prepare_request \<Rightarrow> data" where
  "prepare_data (PrepareWhole req) = wr_data req"
| "prepare_data (PrepareStream cs) = concat (map pc_chunk cs)"

section \<open>The file system below the service\<close>

definition temp_of :: "(data \<Rightarrow> string) \<Rightarrow> ObjectStorage \<Rightarrow> string \<Rightarrow> TempObject" where
  "temp_of sha256_hex st key = TempObject_new (temp_path_from_id (layout st) (sha256_hex (as_bytes key)))
     (object_path_from_id (layout st) (sha256_hex (as_bytes key)))"

abbreviation temp_file :: "(data \<Rightarrow> string) \<Rightarrow> ObjectStorage \<Rightarrow> string \<Rightarrow> path" where
  "temp_file sha256_hex st key \<equiv> temp_path_from_id (layout st) (sha256_hex (as_bytes key))"

lemma temp_of_simps [simp]:
  "temp_path (temp_of sha st key) = temp_file sha st key"
  "final_path (temp_of sha st key) = object_path_from_id (layout st) (sha (as_bytes key))"
  "\<not> committed (temp_of sha st key)"
  by (simp_all add: temp_of_def TempObject_new_def)

lemma drop_temp_no_fault:
  assumes "fs_faults s = []" and "\<not> committed t"
  shows "fs_faults (drop_temp s t) = [] \<and> files (drop_temp s t) = (files s)(temp_path t := None)
    \<and> fs_dirs (drop_temp s t) = fs_dirs s"
proof (cases "files s (temp_path t)")
  case None
  then have "(files s)(temp_path t := None) = files s" by (simp add: fun_upd_idem)
  with None assms show ?thesis by (simp add: drop_temp_def fs_exists_def remove_file_def)
next
  case (Some f)
  with assms show ?thesis by (simp add: drop_temp_def fs_exists_def remove_file_def delete_conv')
qed

lemma write_chunks_no_fault:
  assumes "fs_faults s = []" and "files s p = Some f"
  shows "\<exists>s' e f'. write_chunks s p cs h ex = (Inr (h @ concat (map pc_chunk cs), e), s')
    \<and> fs_faults s' = [] \<and> fs_dirs s' = fs_dirs s \<and> files s' = (files s)(p \<mapsto> f')
    \<and> f_data f' = f_data f @ concat (map pc_chunk cs)"
  using assms
proof (induction cs arbitrary: s f h ex)
  case Nil
  then have "files s = (files s)(p \<mapsto> f)" by (simp add: fun_upd_idem)
  with Nil show ?case by (simp del: fun_upd_apply) blast
next
  case (Cons c cs)
  show ?case
  proof (cases "pc_chunk c = []")
    case True
    with Cons show ?thesis by (auto simp: Let_def)
  next
    case False
    let ?s1 = "append_bytes s p (pc_chunk c)"
    from Cons.prems have w: "file_write s p (pc_chunk c) = (Inr (), ?s1)" by (simp add: file_write_def)
    from Cons.prems have 1: "fs_faults ?s1 = []" by (simp add: append_bytes_def)
    from Cons.prems have 2: "files ?s1 p = Some \<lparr>f_data = f_data f @ pc_chunk c, f_mtime = fs_clock s\<rparr>"
      "\<forall>v. (files ?s1)(p \<mapsto> v) = (files s)(p \<mapsto> v)" "fs_dirs ?s1 = fs_dirs s"
      by (auto simp: append_bytes_def update_conv')
    define ex' where "ex' = (if pc_is_last c \<and> pc_checksum c \<noteq> [] then pc_checksum c else ex)"
    have "write_chunks s p (c # cs) h ex = write_chunks ?s1 p cs (h @ pc_chunk c) ex'"
      using w False by (simp add: Let_def ex'_def)
    with Cons.IH [OF 1 2(1), of "h @ pc_chunk c" ex'] 2(2,3) show ?thesis
      by (simp del: fun_upd_apply write_chunks.simps)
  qed
qed


lemma create_temp_object_no_fault:
  assumes "fs_faults s = []"
  shows "(\<exists>e. create_temp_object sha st s key = (Inl e, s))
    \<or> (valid_key key \<and> (\<exists>ds. create_temp_object sha st s key = (Inr (temp_of sha st key), s\<lparr>fs_dirs := ds\<rparr>)
         \<and> temp_dir (layout st) \<in> set ds))"
  using assms
  by (auto simp: create_temp_object_def object_id_def Let_def create_dir_all_def temp_of_def butlast_paths
      split: sum.splits)

lemma write_temp_object_no_fault:
  assumes "fs_faults s = []"
  shows "(\<exists>e. write_temp_object sha st s key (whole d) = (Inl e, s))
    \<or> (valid_key key \<and> (\<exists>s' f. write_temp_object sha st s key (whole d) = (Inr (temp_of sha st key), s')
         \<and> fs_faults s' = [] \<and> files s' = (files s)(temp_file sha st key \<mapsto> f) \<and> f_data f = d))"
  using create_temp_object_no_fault [OF assms, of sha st key]
proof (elim disjE exE conjE)
  fix ds
  assume "valid_key key" "create_temp_object sha st s key = (Inr (temp_of sha st key), s\<lparr>fs_dirs := ds\<rparr>)"
    "temp_dir (layout st) \<in> set ds"
  then show ?thesis
    by (intro disjI2)
      (auto simp: write_temp_object_def file_create_def file_write_def append_bytes_def file_sync_def
        assms butlast_paths whole_def update_conv')
qed (simp add: write_temp_object_def)

definition well_formed_pending :: "(data \<Rightarrow> string) \<Rightarrow> string set \<Rightarrow> ReplicationService \<Rightarrow> bool" where
  "well_formed_pending sha256_hex keys svc \<longleftrightarrow>
     distinct (map fst (pending_prepares svc))
     \<and> (\<forall>(tid, p) \<in> set (pending_prepares svc). \<exists>k \<in> keys. \<exists>i.
          tid = make_temp_id i k \<and> temp_object p = temp_of sha256_hex (svc_storage svc) k)"

lemma make_temp_id_inject [simp]: "make_temp_id i k = make_temp_id j l \<longleftrightarrow> i = j \<and> k = l"
  unfolding make_temp_id_def
  using sep_append_inject [of "CHR '':''" "nat_str (unat i)" "nat_str (unat j)" k l]
  by (auto simp: word_unat_eq_iff)

lemma pending_entry:
  assumes "well_formed_pending sha keys svc" and "map_of (pending_prepares svc) (make_temp_id i k) = Some p"
  shows "temp_object p = temp_of sha (svc_storage svc) k" and "k \<in> keys"
  using assms map_of_SomeD [OF assms(2)] by (fastforce simp: well_formed_pending_def)+

text \<open>
  A prepare without faults: it changes at most the temporary file of its key, and adds its entry
  when it succeeds. If the identifier was pending already, dropping the old handle removes the
  file that has just been written, since both handles name the same path.
\<close>

lemma insert_pending_no_fault:
  assumes "well_formed_pending sha keys svc" and "fs_faults (svc_fs svc) = []"
  shows "svc_storage (insert_pending svc (make_temp_id i k) p) = svc_storage svc
    \<and> pending_prepares (insert_pending svc (make_temp_id i k) p)
        = AList.update (make_temp_id i k) p (pending_prepares svc)
    \<and> fs_faults (svc_fs (insert_pending svc (make_temp_id i k) p)) = []
    \<and> files (svc_fs (insert_pending svc (make_temp_id i k) p))
        = (if map_of (pending_prepares svc) (make_temp_id i k) = None then files (svc_fs svc)
           else (files (svc_fs svc))(temp_file sha (svc_storage svc) k := None))"
proof (cases "map_of (pending_prepares svc) (make_temp_id i k)")
  case None
  with assms show ?thesis by (simp add: insert_pending_def)
next
  case (Some old)
  with pending_entry(1) [OF assms(1) Some] drop_temp_no_fault [OF assms(2), of "temp_object old"]
  show ?thesis by (simp add: insert_pending_def)
qed


lemma well_formed_fs_update [simp]:
  "well_formed_pending sha keys (svc\<lparr>svc_fs := s\<rparr>) \<longleftrightarrow> well_formed_pending sha keys svc"
  by (simp add: well_formed_pending_def)

definition prepare_outcome ::
  "(data \<Rightarrow> string) \<Rightarrow> ReplicationService \<Rightarrow> prepare_request \<Rightarrow> PrepareObjectResponse \<Rightarrow> ReplicationService \<Rightarrow> bool" where
  "prepare_outcome sha svc r resp svc' \<longleftrightarrow>
     (let tp = temp_file sha (svc_storage svc) (prepare_key r); tid = make_temp_id (prepare_id r) (prepare_key r) in
      svc_storage svc' = svc_storage svc \<and> fs_faults (svc_fs svc') = []
      \<and> (if presp_success resp then
           valid_key (prepare_key r) \<and> presp_temp_id resp = tid
           \<and> (\<exists>p f. pending_prepares svc' = AList.update tid p (pending_prepares svc)
                \<and> temp_object p = temp_of sha (svc_storage svc) (prepare_key r) \<and> f_data f = prepare_data r
                \<and> files (svc_fs svc') = (if map_of (pending_prepares svc) tid = None
                    then (files (svc_fs svc))(tp \<mapsto> f) else (files (svc_fs svc))(tp := None)))
         else pending_prepares svc' = pending_prepares svc
           \<and> (files (svc_fs svc') = files (svc_fs svc)
              \<or> valid_key (prepare_key r) \<and> files (svc_fs svc') = (files (svc_fs svc))(tp := None))))"

lemma prepare_outcome_ok:
  assumes "well_formed_pending sha keys svc" and "fs_faults s = []" and "valid_key (prepare_key r)"
    and "files s = (files (svc_fs svc))(temp_file sha (svc_storage svc) (prepare_key r) \<mapsto> f)"
    and "f_data f = prepare_data r" and "temp_object p = temp_of sha (svc_storage svc) (prepare_key r)"
    and "tid = make_temp_id (prepare_id r) (prepare_key r)"
  shows "prepare_outcome sha svc r (prepare_done tid) (insert_pending (svc\<lparr>svc_fs := s\<rparr>) tid p)"
  using assms insert_pending_no_fault [of sha keys "svc\<lparr>svc_fs := s\<rparr>" "prepare_id r" "prepare_key r" p]
  by (auto simp: prepare_outcome_def prepare_done_def Let_def intro!: exI [of _ p] exI [of _ f])

lemma prepare_outcome_fail:
  assumes "fs_faults s = []" and "files s = files (svc_fs svc) \<or> valid_key (prepare_key r)
    \<and> files s = (files (svc_fs svc))(temp_file sha (svc_storage svc) (prepare_key r) := None)"
  shows "prepare_outcome sha svc r (prepare_failed m) (svc\<lparr>svc_fs := s\<rparr>)"
  using assms by (auto simp: prepare_outcome_def prepare_failed_def Let_def)

lemma prepare_outcome_rejected:
  assumes "fs_faults (svc_fs svc) = []"
  shows "prepare_outcome sha svc r (prepare_failed m) svc"
  using prepare_outcome_fail [of "svc_fs svc" svc r sha m] assms by simp

lemma prepare_object_outcome:
  assumes "well_formed_pending sha keys svc" and nf: "fs_faults (svc_fs svc) = []"
  shows "prepare_outcome sha svc (PrepareWhole req) (fst (service_prepare_object sha svc req))
    (snd (service_prepare_object sha svc req))"
proof (cases "wr_checksum req \<noteq> [] \<and> sha (wr_data req) \<noteq> wr_checksum req")
  case True
  with nf show ?thesis by (simp add: service_prepare_object_def prepare_outcome_rejected)
next
  case False
  from write_temp_object_no_fault [OF nf, of sha "svc_storage svc" "wr_key req" "wr_data req"] show ?thesis
  proof (elim disjE exE conjE)
    fix e
    assume "write_temp_object sha (svc_storage svc) (svc_fs svc) (wr_key req) (whole (wr_data req)) = (Inl e, svc_fs svc)"
    with False nf show ?thesis by (simp add: service_prepare_object_def prepare_outcome_rejected)
  next
    fix s f
    assume "valid_key (wr_key req)" "fs_faults s = []" "f_data f = wr_data req"
      "write_temp_object sha (svc_storage svc) (svc_fs svc) (wr_key req) (whole (wr_data req))
         = (Inr (temp_of sha (svc_storage svc) (wr_key req)), s)"
      "files s = (files (svc_fs svc))(temp_file sha (svc_storage svc) (wr_key req) \<mapsto> f)"
    with False show ?thesis
      by (auto simp: service_prepare_object_def Let_def intro!: prepare_outcome_ok [OF assms(1)])
  qed
qed

lemma stream_prepare_outcome:
  assumes wf: "well_formed_pending sha keys svc" and nf: "fs_faults (svc_fs svc) = []"
  shows "prepare_outcome sha svc (PrepareStream chunks) (fst (service_stream_prepare_object sha svc chunks))
    (snd (service_stream_prepare_object sha svc chunks))"
proof (cases "chunks = [] \<or> pc_key (hd chunks) = []")
  case True
  with nf show ?thesis
    by (cases chunks) (auto simp: service_stream_prepare_object_def Let_def prepare_outcome_rejected)
next
  case False
  then obtain c cs where ch: "chunks = c # cs" and key: "pc_key c \<noteq> []" by (cases chunks) auto
  let ?st = "svc_storage svc" and ?k = "pc_key c" and ?r = "PrepareStream chunks"
  let ?t = "temp_of sha ?st ?k"
  from create_temp_object_no_fault [OF nf, of sha ?st ?k] show ?thesis
  proof (elim disjE exE conjE)
    fix e assume "create_temp_object sha ?st (svc_fs svc) ?k = (Inl e, svc_fs svc)"
    with ch key nf show ?thesis by (simp add: service_stream_prepare_object_def prepare_outcome_rejected)
  next
    fix ds
    assume v: "valid_key ?k" and c1: "create_temp_object sha ?st (svc_fs svc) ?k = (Inr ?t, svc_fs svc\<lparr>fs_dirs := ds\<rparr>)"
      and d: "temp_dir (layout ?st) \<in> set ds"
    define s2 where "s2 = snd (file_create (svc_fs svc\<lparr>fs_dirs := ds\<rparr>) (temp_path ?t))"
    have c2: "file_create (svc_fs svc\<lparr>fs_dirs := ds\<rparr>) (temp_path ?t) = (Inr (), s2)"
      and nf2: "fs_faults s2 = []"
      and f2: "files s2 = (files (svc_fs svc))(temp_file sha ?st ?k \<mapsto> \<lparr>f_data = [], f_mtime = fs_clock (svc_fs svc)\<rparr>)"
      using nf d by (auto simp: s2_def file_create_def butlast_paths update_conv')
    from write_chunks_no_fault [OF nf2, of "temp_path ?t" _ chunks "[]" "[]"] f2 obtain s3 e f where
      c3: "write_chunks s2 (temp_path ?t) chunks [] [] = (Inr (concat (map pc_chunk chunks), e), s3)"
      and nf3: "fs_faults s3 = []" and f3: "files s3 = (files (svc_fs svc))(temp_file sha ?st ?k \<mapsto> f)"
      and fd: "f_data f = concat (map pc_chunk chunks)" by auto
    have c4: "file_sync s3 = (Inr (), s3)" using nf3 by (simp add: file_sync_def)
    have fail: "prepare_outcome sha svc ?r (prepare_failed m) (svc\<lparr>svc_fs := drop_temp s3 ?t\<rparr>)" for m
      using drop_temp_no_fault [OF nf3, of ?t] f3 v ch by (intro prepare_outcome_fail) auto
    have ok: "prepare_outcome sha svc ?r (prepare_done (make_temp_id (pc_request_id c) ?k))
        (insert_pending (svc\<lparr>svc_fs := s3\<rparr>) (make_temp_id (pc_request_id c) ?k) p)"
      if "temp_object p = ?t" for p
      using prepare_outcome_ok [OF wf nf3, of ?r f p] that v f3 fd ch by simp
    from ch key c1 c2 c3 c4 fail ok show ?thesis
      by (auto simp: service_stream_prepare_object_def Let_def)
  qed
qed

lemma service_prepare_outcome:
  assumes "well_formed_pending sha keys svc" and "fs_faults (svc_fs svc) = []"
    and "service_prepare sha svc r = (resp, svc')"
  shows "prepare_outcome sha svc r resp svc'"
  using assms prepare_object_outcome [OF assms(1,2)] stream_prepare_outcome [OF assms(1,2)]
  by (cases r) (metis fst_conv service_prepare.simps snd_conv)+


section \<open>The contract of a participant\<close>

text \<open>
  What a coordinator relies on in a node that takes part in two-phase writes: preparing and
  aborting change no object; committing an identifier changes at most the object that was staged
  under it, to exactly the staged contents; and only a prepare stages contents, its own.
\<close>

datatype replica_step =
    PrepareStep prepare_request
  | CommitStep CommitObjectRequest
  | AbortStep AbortObjectRequest
  | DeleteStep string

fun is_commit :: "replica_step \<Rightarrow> bool" where
  "is_commit (CommitStep _) = True" | "is_commit _ = False"

fun is_delete :: "replica_step \<Rightarrow> bool" where
  "is_delete (DeleteStep _) = True" | "is_delete _ = False"

fun step_in :: "string set \<Rightarrow> replica_step \<Rightarrow> bool" where
  "step_in keys (PrepareStep r) \<longleftrightarrow> prepare_key r \<in> insert [] keys"
| "step_in keys (DeleteStep k) \<longleftrightarrow> k \<in> keys"
| "step_in keys _ \<longleftrightarrow> True"

fun run_step :: "('s \<Rightarrow> prepare_request \<Rightarrow> 's) \<Rightarrow> ('s \<Rightarrow> CommitObjectRequest \<Rightarrow> 's)
    \<Rightarrow> ('s \<Rightarrow> AbortObjectRequest \<Rightarrow> 's) \<Rightarrow> ('s \<Rightarrow> string \<Rightarrow> 's) \<Rightarrow> 's \<Rightarrow> replica_step \<Rightarrow> 's" where
  "run_step prepare commit abort del s (PrepareStep r) = prepare s r"
| "run_step prepare commit abort del s (CommitStep c) = commit s c"
| "run_step prepare commit abort del s (AbortStep c) = abort s c"
| "run_step prepare commit abort del s (DeleteStep k) = del s k"

locale participant =
  fixes prepare :: "'s \<Rightarrow> prepare_request \<Rightarrow> 's"
    and commit :: "'s \<Rightarrow> CommitObjectRequest \<Rightarrow> 's"
    and abort :: "'s \<Rightarrow> AbortObjectRequest \<Rightarrow> 's"
    and del :: "'s \<Rightarrow> string \<Rightarrow> 's"
    and view :: "'s \<Rightarrow> string \<rightharpoonup> data"
    and staged :: "'s \<Rightarrow> string \<Rightarrow> string \<rightharpoonup> data"
    and inv :: "'s \<Rightarrow> bool"
    and keys :: "string set"
  assumes step_inv: "inv s \<Longrightarrow> step_in keys x \<Longrightarrow> inv (run_step prepare commit abort del s x)"
    and prepare_view: "inv s \<Longrightarrow> k \<in> keys \<Longrightarrow> view (prepare s r) k = view s k"
    and prepare_staged: "inv s \<Longrightarrow> prepare_key r \<in> insert [] keys \<Longrightarrow> k \<in> keys \<Longrightarrow>
      staged (prepare s r) tid k = Some d \<Longrightarrow>
      staged s tid k = Some d \<or> (k = prepare_key r \<and> d = prepare_data r)"
    and commit_view: "inv s \<Longrightarrow> k \<in> keys \<Longrightarrow> view (commit s c) k = view s k
      \<or> (staged s (cm_temp_id c) k \<noteq> None \<and> view (commit s c) k = staged s (cm_temp_id c) k)"
    and commit_staged: "inv s \<Longrightarrow> staged (commit s c) tid k = Some d \<Longrightarrow> staged s tid k = Some d"
    and abort_view: "inv s \<Longrightarrow> k \<in> keys \<Longrightarrow> view (abort s c) k = view s k"
    and abort_staged: "inv s \<Longrightarrow> staged (abort s c) tid k = Some d \<Longrightarrow> staged s tid k = Some d"
    and del_view: "inv s \<Longrightarrow> key \<in> keys \<Longrightarrow> k \<in> keys \<Longrightarrow> view (del s key) k = view s k
      \<or> (k = key \<and> view (del s key) k = None)"
    and del_staged: "inv s \<Longrightarrow> key \<in> keys \<Longrightarrow> staged (del s key) tid k = staged s tid k"

context participant
begin

abbreviation "step \<equiv> run_step prepare commit abort del"

lemma step_staged:
  assumes "inv s" and "step_in keys x" and "k \<in> keys" and "staged (step s x) tid k = Some d"
  shows "staged s tid k = Some d \<or> (\<exists>r. x = PrepareStep r \<and> prepare_key r = k \<and> prepare_data r = d)"
proof (cases x)
  case (PrepareStep r)
  with assms prepare_staged [of s r k tid d] show ?thesis by auto
qed (use assms commit_staged abort_staged del_staged in auto)

lemma step_view:
  assumes "inv s" and "step_in keys x" and "k \<in> keys"
  shows "view (step s x) k = view s k \<or> (is_delete x \<and> view (step s x) k = None)
    \<or> (is_commit x \<and> (\<exists>tid d. staged s tid k = Some d \<and> view (step s x) k = Some d))"
proof (cases x)
  case (CommitStep c)
  with commit_view [OF assms(1,3), of c] show ?thesis by auto
next
  case (DeleteStep key)
  with assms del_view [of s key k] show ?thesis by auto
qed (use assms in \<open>simp_all add: prepare_view abort_view\<close>)

lemma run_inv: "inv s \<Longrightarrow> \<forall>x \<in> set xs. step_in keys x \<Longrightarrow> inv (foldl step s xs)"
  by (induction xs arbitrary: s) (simp_all add: step_inv)

text \<open>Without a commit or deletion the objects stay.\<close>

lemma run_no_commit:
  assumes "inv s" and "\<forall>x \<in> set xs. step_in keys x \<and> \<not> is_commit x \<and> \<not> is_delete x" and "k \<in> keys"
  shows "view (foldl step s xs) k = view s k"
  using assms
proof (induction xs arbitrary: s)
  case (Cons x xs)
  then show ?case using step_view [of s x k] step_inv [of s x] by simp
qed simp

text \<open>Without a deletion no object disappears.\<close>

lemma run_view:
  assumes "inv s" and "\<forall>x \<in> set xs. step_in keys x \<and> \<not> is_delete x" and "k \<in> keys"
  shows "view (foldl step s xs) k = view s k \<or> view (foldl step s xs) k \<noteq> None"
  using assms
proof (induction xs arbitrary: s)
  case (Cons x xs)
  then have "inv (step s x)" by (simp add: step_inv)
  from Cons.IH [OF this] Cons.prems step_view [of s x k] show ?case by auto
qed simp

text \<open>Whatever is committed is the complete contents of some prepare, of this run or before.\<close>

lemma run_whole:
  assumes "inv s" and "\<forall>x \<in> set xs. step_in keys x" and "k \<in> keys"
    and "view (foldl step s xs) k = Some d"
  shows "view s k = Some d \<or> (\<exists>tid. staged s tid k = Some d)
    \<or> (\<exists>r. PrepareStep r \<in> set xs \<and> prepare_key r = k \<and> prepare_data r = d)"
  using assms
proof (induction xs arbitrary: s)
  case (Cons x xs)
  then have i: "inv (step s x)" and x: "step_in keys x" by (simp_all add: step_inv)
  from Cons.IH [OF i] Cons.prems have "view (step s x) k = Some d \<or> (\<exists>tid. staged (step s x) tid k = Some d)
    \<or> (\<exists>r. PrepareStep r \<in> set xs \<and> prepare_key r = k \<and> prepare_data r = d)" by simp
  then show ?case
    using step_view [OF Cons.prems(1) x Cons.prems(3)] step_staged [OF Cons.prems(1) x Cons.prems(3)]
    by (elim disjE exE) fastforce+
qed simp

end

section \<open>The service is a participant\<close>

definition service_view :: "(data \<Rightarrow> string) \<Rightarrow> ReplicationService \<Rightarrow> string \<rightharpoonup> data" where
  "service_view sha256_hex svc = object_view_fs sha256_hex (svc_storage svc) (svc_fs svc)"

definition service_staged :: "(data \<Rightarrow> string) \<Rightarrow> ReplicationService \<Rightarrow> string \<Rightarrow> string \<rightharpoonup> data" where
  "service_staged sha256_hex svc tid key =
     (case map_of (pending_prepares svc) tid of
        None \<Rightarrow> None
      | Some p \<Rightarrow> if temp_object p = temp_of sha256_hex (svc_storage svc) key
                   then map_option f_data (files (svc_fs svc) (temp_path (temp_object p))) else None)"

definition service_ok :: "(data \<Rightarrow> string) \<Rightarrow> string set \<Rightarrow> ReplicationService \<Rightarrow> bool" where
  "service_ok sha256_hex keys svc \<longleftrightarrow>
     well_formed_pending sha256_hex keys svc \<and> fs_faults (svc_fs svc) = []"

abbreviation "prepare_step sha256_hex svc r \<equiv> snd (service_prepare sha256_hex svc r)"
abbreviation "commit_step svc c \<equiv> snd (service_commit_object svc c)"
abbreviation "abort_step svc c \<equiv> snd (service_abort_object svc c)"
abbreviation "delete_step sha256_hex svc k \<equiv> snd (service_delete_object sha256_hex svc k)"


lemma temp_path_inject [simp]:
  "temp_path_from_id l i = temp_path_from_id l j \<longleftrightarrow> i = j"
  by (auto simp: temp_path_from_id_def)

lemma set_alist_update: "x \<in> set (AList.update k v al) \<Longrightarrow> x \<in> set al \<or> x = (k, v)"
  by (induction al) (auto split: if_splits)

lemma well_formed_update:
  assumes "well_formed_pending sha keys svc" and "k \<in> keys" and "temp_object p = temp_of sha (svc_storage svc) k"
    and "svc_storage svc' = svc_storage svc"
    and "pending_prepares svc' = AList.update (make_temp_id i k) p (pending_prepares svc)"
  shows "well_formed_pending sha keys svc'"
  unfolding well_formed_pending_def
proof (intro conjI ballI)
  show "distinct (map fst (pending_prepares svc'))"
    using assms by (simp add: well_formed_pending_def distinct_update)
  fix x assume "x \<in> set (pending_prepares svc')"
  then have "x \<in> set (pending_prepares svc) \<or> x = (make_temp_id i k, p)"
    using assms(5) set_alist_update by metis
  with assms show "case x of (tid, p) \<Rightarrow> \<exists>k \<in> keys. \<exists>i. tid = make_temp_id i k
      \<and> temp_object p = temp_of sha (svc_storage svc') k"
    by (fastforce simp: well_formed_pending_def)
qed

lemma well_formed_delete:
  assumes "well_formed_pending sha keys svc" and "svc_storage svc' = svc_storage svc"
    and "pending_prepares svc' = AList.delete tid (pending_prepares svc)"
  shows "well_formed_pending sha keys svc'"
  using assms by (auto simp: well_formed_pending_def distinct_map_filter AList.delete_eq)

lemma commit_object_no_fault:
  assumes "fs_faults s = []" and "\<not> committed t" and "temp_path t \<noteq> final_path t"
    and "commit_object st s t = (r, s')"
  shows "fs_faults s' = [] \<and> (if r = Inr () then \<exists>f. files s (temp_path t) = Some f
      \<and> files s' = (files s)(temp_path t := None, final_path t \<mapsto> f)
    else files s' = (files s)(temp_path t := None))"
proof (cases "list_ex (\<lambda>q. file_at s q \<noteq> None) (prefixes (butlast (final_path t)))")
  case True
  with assms drop_temp_no_fault [OF assms(1,2)] show ?thesis
    by (auto simp: commit_object_def create_dir_all_def)
next
  case False
  define s1 where "s1 = s\<lparr>fs_dirs := remdups (prefixes (butlast (final_path t)) @ fs_dirs s)\<rparr>"
  have c: "create_dir_all s (butlast (final_path t)) = (Inr (), s1)"
    using False assms(1) by (simp add: create_dir_all_def s1_def)
  have nf: "fs_faults s1 = []" and f1: "fs_files s1 = fs_files s"
    and d: "butlast (final_path t) \<in> set (fs_dirs s1)" using assms(1) by (simp_all add: s1_def)
  show ?thesis
  proof (cases "files s (temp_path t)")
    case None
    with c nf f1 d assms(4) drop_temp_no_fault [OF nf assms(2)] show ?thesis
      by (auto simp: commit_object_def fs_rename_def)
  next
    case (Some f)
    with c nf f1 d assms(4) show ?thesis
      by (auto simp: commit_object_def fs_rename_def fsync_dir_def fsync_path_def fs_exists_def
          file_sync_def update_conv' delete_conv' split: if_splits)
  qed
qed


lemma temp_of_eq [simp]:
  "temp_of sha st k = temp_of sha st l \<longleftrightarrow> sha (as_bytes k) = sha (as_bytes l)"
  by (auto simp: temp_of_def TempObject_new_def)

lemma service_staged_iff:
  "service_staged sha svc tid k = Some d \<longleftrightarrow>
     (\<exists>p f. map_of (pending_prepares svc) tid = Some p \<and> temp_object p = temp_of sha (svc_storage svc) k
       \<and> files (svc_fs svc) (temp_file sha (svc_storage svc) k) = Some f \<and> f_data f = d)"
  by (auto simp: service_staged_def split: option.splits)

context object_ids
begin

lemma prepare_no_fault:
  assumes ok: "service_ok sha256_hex keys svc" and p: "service_prepare sha256_hex svc r = (resp, svc')"
  shows "service_view sha256_hex svc' k = service_view sha256_hex svc k"
    and "prepare_key r \<in> insert [] keys \<Longrightarrow> service_ok sha256_hex keys svc'"
    and "prepare_key r \<in> insert [] keys \<Longrightarrow> k \<in> keys \<Longrightarrow> service_staged sha256_hex svc' tid k = Some d \<Longrightarrow>
      service_staged sha256_hex svc tid k = Some d \<or> (k = prepare_key r \<and> d = prepare_data r)"
proof -
  from ok have wf: "well_formed_pending sha256_hex keys svc" and nf: "fs_faults (svc_fs svc) = []"
    by (simp_all add: service_ok_def)
  have o: "prepare_outcome sha256_hex svc r resp svc'" by (rule service_prepare_outcome [OF wf nf p])
  then show "service_view sha256_hex svc' k = service_view sha256_hex svc k"
    by (auto simp: prepare_outcome_def Let_def service_view_def object_view_fs_def split: if_splits)
  assume key: "prepare_key r \<in> insert [] keys"
  from o show "service_ok sha256_hex keys svc'"
  proof (cases "presp_success resp")
    case True
    with o obtain p where "pending_prepares svc' = AList.update (make_temp_id (prepare_id r) (prepare_key r)) p (pending_prepares svc)"
        "temp_object p = temp_of sha256_hex (svc_storage svc) (prepare_key r)" "prepare_key r \<noteq> []"
        "svc_storage svc' = svc_storage svc" "fs_faults (svc_fs svc') = []"
      by (auto simp: prepare_outcome_def Let_def)
    with key show ?thesis by (auto simp: service_ok_def intro!: well_formed_update [OF wf])
  next
    case False
    with o wf show ?thesis
      by (auto simp: prepare_outcome_def Let_def service_ok_def well_formed_pending_def)
  qed
  assume k: "k \<in> keys" and "service_staged sha256_hex svc' tid k = Some d"
  then obtain p f where p: "map_of (pending_prepares svc') tid = Some p"
      "temp_object p = temp_of sha256_hex (svc_storage svc') k" and f: "f_data f = d"
      "files (svc_fs svc') (temp_file sha256_hex (svc_storage svc') k) = Some f"
    by (auto simp: service_staged_iff)
  show "service_staged sha256_hex svc tid k = Some d \<or> (k = prepare_key r \<and> d = prepare_data r)"
  proof (cases "presp_success resp \<and> k = prepare_key r")
    case True
    with o f p show ?thesis by (auto simp: prepare_outcome_def Let_def split: if_splits)
  next
    case False
    have "map_of (pending_prepares svc) tid = Some p"
      using False o p k key id_inj [of k "prepare_key r"] keys_valid
      by (auto simp: prepare_outcome_def Let_def update_conv' split: if_splits)
    moreover have "files (svc_fs svc) (temp_file sha256_hex (svc_storage svc) k) = Some f"
      using False o f k key id_inj [of k "prepare_key r"] keys_valid
      by (auto simp: prepare_outcome_def Let_def split: if_splits)
    ultimately show ?thesis using p f o
      by (auto simp: service_staged_iff prepare_outcome_def Let_def)
  qed
qed


lemma abort_no_fault:
  assumes ok: "service_ok sha256_hex keys svc"
  shows "service_view sha256_hex (abort_step svc c) k = service_view sha256_hex svc k"
    and "service_ok sha256_hex keys (abort_step svc c)"
    and "service_staged sha256_hex (abort_step svc c) tid k = Some d \<Longrightarrow> service_staged sha256_hex svc tid k = Some d"
proof -
  let ?svc' = "abort_step svc c"
  from ok have wf: "well_formed_pending sha256_hex keys svc" and nf: "fs_faults (svc_fs svc) = []"
    by (simp_all add: service_ok_def)
  have pend: "pending_prepares ?svc' = AList.delete (cm_temp_id c) (pending_prepares svc)"
    and st: "svc_storage ?svc' = svc_storage svc"
    by (simp_all add: service_abort_object_def remove_pending_def Let_def split: option.splits)
  have f: "fs_faults (svc_fs ?svc') = [] \<and> (files (svc_fs ?svc') = files (svc_fs svc)
      \<or> (\<exists>key \<in> keys. files (svc_fs ?svc') = (files (svc_fs svc))(temp_file sha256_hex (svc_storage svc) key := None)))"
  proof (cases "map_of (pending_prepares svc) (cm_temp_id c)")
    case None
    with nf show ?thesis by (simp add: service_abort_object_def remove_pending_def)
  next
    case (Some p)
    with wf obtain key where "key \<in> keys" "temp_object p = temp_of sha256_hex (svc_storage svc) key"
      by (fastforce simp: well_formed_pending_def dest: map_of_SomeD)
    with Some drop_temp_no_fault [OF nf, of "temp_object p"] show ?thesis
      by (auto simp: service_abort_object_def remove_pending_def)
  qed
  then show "service_view sha256_hex ?svc' k = service_view sha256_hex svc k"
    using st by (auto simp: service_view_def object_view_fs_def)
  show "service_ok sha256_hex keys ?svc'" using f well_formed_delete [OF wf st pend] by (simp add: service_ok_def)
  assume "service_staged sha256_hex ?svc' tid k = Some d"
  with f pend st show "service_staged sha256_hex svc tid k = Some d"
    by (auto simp: service_staged_iff delete_conv' split: if_splits)
qed

lemma commit_no_fault:
  assumes ok: "service_ok sha256_hex keys svc"
  shows "service_ok sha256_hex keys (commit_step svc c)"
    and "service_staged sha256_hex (commit_step svc c) tid k = Some d \<Longrightarrow> service_staged sha256_hex svc tid k = Some d"
    and "k \<in> keys \<Longrightarrow> service_view sha256_hex (commit_step svc c) k = service_view sha256_hex svc k
      \<or> (service_staged sha256_hex svc (cm_temp_id c) k \<noteq> None
         \<and> service_view sha256_hex (commit_step svc c) k = service_staged sha256_hex svc (cm_temp_id c) k)"
proof -
  let ?svc' = "commit_step svc c" and ?st = "svc_storage svc"
  let ?op = "\<lambda>k. object_path_from_id (layout ?st) (sha256_hex (as_bytes k))"
  from ok have wf: "well_formed_pending sha256_hex keys svc" and nf: "fs_faults (svc_fs svc) = []"
    by (simp_all add: service_ok_def)
  have pend: "pending_prepares ?svc' = AList.delete (cm_temp_id c) (pending_prepares svc)"
    and st: "svc_storage ?svc' = ?st"
    by (simp_all add: service_commit_object_def remove_pending_def Let_def split: option.splits prod.splits sum.splits)
  have f: "fs_faults (svc_fs ?svc') = [] \<and> (files (svc_fs ?svc') = files (svc_fs svc)
      \<or> (\<exists>key \<in> keys. files (svc_fs ?svc') = (files (svc_fs svc))(temp_file sha256_hex ?st key := None)
         \<or> (\<exists>f. service_staged sha256_hex svc (cm_temp_id c) key = Some (f_data f)
            \<and> files (svc_fs ?svc') = (files (svc_fs svc))(temp_file sha256_hex ?st key := None, ?op key \<mapsto> f))))"
  proof (cases "map_of (pending_prepares svc) (cm_temp_id c)")
    case None
    with nf show ?thesis by (simp add: service_commit_object_def remove_pending_def)
  next
    case (Some p)
    with wf obtain key where k: "key \<in> keys" "temp_object p = temp_of sha256_hex ?st key"
      by (fastforce simp: well_formed_pending_def dest: map_of_SomeD)
    obtain r s' where co: "commit_object ?st (svc_fs svc) (temp_object p) = (r, s')" by fastforce
    have "svc_fs ?svc' = s'"
      using Some co by (auto simp: service_commit_object_def remove_pending_def Let_def split: sum.splits)
    with commit_object_no_fault [OF nf, of "temp_object p" ?st r s'] k co Some show ?thesis
      by (auto simp: service_staged_iff split: if_splits)
  qed
  show "service_ok sha256_hex keys ?svc'" using f well_formed_delete [OF wf st pend] by (simp add: service_ok_def)
  show "service_staged sha256_hex svc tid k = Some d" if "service_staged sha256_hex ?svc' tid k = Some d"
    using f pend st that by (auto simp: service_staged_iff delete_conv' split: if_splits)
  assume k: "k \<in> keys"
  show "service_view sha256_hex ?svc' k = service_view sha256_hex svc k
      \<or> (service_staged sha256_hex svc (cm_temp_id c) k \<noteq> None
         \<and> service_view sha256_hex ?svc' k = service_staged sha256_hex svc (cm_temp_id c) k)"
    using f st id_inj [OF k] by (fastforce simp: service_view_def object_view_fs_def)
qed

lemma delete_no_fault:
  assumes ok: "service_ok sha256_hex keys svc" and key: "key \<in> keys"
  shows "service_ok sha256_hex keys (delete_step sha256_hex svc key)"
    and "service_staged sha256_hex (delete_step sha256_hex svc key) tid k = service_staged sha256_hex svc tid k"
    and "k \<in> keys \<Longrightarrow> service_view sha256_hex (delete_step sha256_hex svc key) k = service_view sha256_hex svc k
      \<or> (k = key \<and> service_view sha256_hex (delete_step sha256_hex svc key) k = None)"
proof -
  let ?svc' = "delete_step sha256_hex svc key" and ?st = "svc_storage svc"
  let ?op = "object_path_from_id (layout ?st) (sha256_hex (as_bytes key))"
  from ok have nf: "fs_faults (svc_fs svc) = []" by (simp add: service_ok_def)
  have "pending_prepares ?svc' = pending_prepares svc" and "svc_storage ?svc' = ?st"
    and "fs_faults (svc_fs ?svc') = [] \<and> files (svc_fs ?svc') = (files (svc_fs svc))(?op := None)"
    using nf keys_valid [OF key]
    by (auto simp: service_delete_object_def get_object_def delete_object_def object_path_def object_id_def
        file_open_def remove_file_def Let_def no_such_file_def delete_conv' split: option.splits)
  note e = this
  from e ok show "service_ok sha256_hex keys ?svc'" by (simp add: service_ok_def well_formed_pending_def)
  from e show "service_staged sha256_hex ?svc' tid k = service_staged sha256_hex svc tid k"
    by (auto simp: service_staged_def split: option.splits)
  assume "k \<in> keys"
  with e key id_inj [of k key] show "service_view sha256_hex ?svc' k = service_view sha256_hex svc k
      \<or> (k = key \<and> service_view sha256_hex ?svc' k = None)"
    by (auto simp: service_view_def object_view_fs_def)
qed

end

sublocale object_ids \<subseteq> replica: participant "prepare_step sha256_hex" commit_step abort_step
  "delete_step sha256_hex" "service_view sha256_hex" "service_staged sha256_hex" "service_ok sha256_hex keys" keys
proof
  fix s x assume "service_ok sha256_hex keys s" "step_in keys x"
  then show "service_ok sha256_hex keys (run_step (prepare_step sha256_hex) commit_step abort_step (delete_step sha256_hex) s x)"
    using prepare_no_fault(2) [of s] commit_no_fault(1) abort_no_fault(2) delete_no_fault(1)
    by (cases x) (auto simp: prod_eq_iff)
qed (use prepare_no_fault(1,3) commit_no_fault(2,3) abort_no_fault(1,3) delete_no_fault(2,3) in \<open>auto simp: prod_eq_iff\<close>)


context object_ids
begin

lemmas replica_run_whole = replica.run_whole
lemmas replica_run_no_commit = replica.run_no_commit
lemmas replica_run_inv = replica.run_inv
lemmas replica_run_view = replica.run_view

end

section \<open>Facts on single requests\<close>

lemma commit_response:
  assumes "map_of (pending_prepares svc) (cm_temp_id c) = Some p" and "fs_faults (svc_fs svc) = []"
    and "temp_object p = temp_of sha (svc_storage svc) key"
    and "service_commit_object svc c = (resp, svc')"
  shows "svc_storage svc' = svc_storage svc
    \<and> pending_prepares svc' = AList.delete (cm_temp_id c) (pending_prepares svc)
    \<and> fs_faults (svc_fs svc') = []
    \<and> (if cresp_success resp then
        (\<exists>f. files (svc_fs svc) (temp_file sha (svc_storage svc) key) = Some f
          \<and> files (svc_fs svc') = (files (svc_fs svc))(temp_file sha (svc_storage svc) key := None,
              object_path_from_id (layout (svc_storage svc)) (sha (as_bytes key)) \<mapsto> f))
      else files (svc_fs svc') = (files (svc_fs svc))(temp_file sha (svc_storage svc) key := None))"
proof -
  obtain r s' where co: "commit_object (svc_storage svc) (svc_fs svc) (temp_object p) = (r, s')" by fastforce
  from commit_object_no_fault [OF assms(2) _ _ co] assms(3)
  have "fs_faults s' = []" "if r = Inr () then \<exists>f. files (svc_fs svc) (temp_file sha (svc_storage svc) key) = Some f
      \<and> files s' = (files (svc_fs svc))(temp_file sha (svc_storage svc) key := None,
          object_path_from_id (layout (svc_storage svc)) (sha (as_bytes key)) \<mapsto> f)
    else files s' = (files (svc_fs svc))(temp_file sha (svc_storage svc) key := None)"
    by (auto split: if_splits)
  with assms(1,4) co show ?thesis
    by (cases r) (auto simp: service_commit_object_def remove_pending_def Let_def)
qed

lemma prepare_success:
  assumes "service_ok sha keys svc" and "service_prepare sha svc r = (resp, svc')" and "presp_success resp"
    and "prepare_key r \<in> keys"
  obtains p f where "presp_temp_id resp = make_temp_id (prepare_id r) (prepare_key r)"
    and "service_ok sha keys svc'" and "svc_storage svc' = svc_storage svc"
    and "temp_object p = temp_of sha (svc_storage svc) (prepare_key r)" and "f_data f = prepare_data r"
    and "pending_prepares svc' = AList.update (presp_temp_id resp) p (pending_prepares svc)"
    and "files (svc_fs svc') = (if map_of (pending_prepares svc) (presp_temp_id resp) = None
      then (files (svc_fs svc))(temp_file sha (svc_storage svc) (prepare_key r) \<mapsto> f)
      else (files (svc_fs svc))(temp_file sha (svc_storage svc) (prepare_key r) := None))"
proof -
  have wf: "well_formed_pending sha keys svc" and nf: "fs_faults (svc_fs svc) = []"
    using assms(1) by (simp_all add: service_ok_def)
  from service_prepare_outcome [OF wf nf assms(2)] assms(3) obtain p f where
    1: "presp_temp_id resp = make_temp_id (prepare_id r) (prepare_key r)" "svc_storage svc' = svc_storage svc"
      "fs_faults (svc_fs svc') = []"
    and 2: "pending_prepares svc' = AList.update (make_temp_id (prepare_id r) (prepare_key r)) p (pending_prepares svc)"
      "temp_object p = temp_of sha (svc_storage svc) (prepare_key r)" "f_data f = prepare_data r"
      "files (svc_fs svc') = (if map_of (pending_prepares svc) (make_temp_id (prepare_id r) (prepare_key r)) = None
        then (files (svc_fs svc))(temp_file sha (svc_storage svc) (prepare_key r) \<mapsto> f)
        else (files (svc_fs svc))(temp_file sha (svc_storage svc) (prepare_key r) := None))"
    by (auto simp: prepare_outcome_def Let_def)
  from well_formed_update [OF wf assms(4) 2(2) 1(2) 2(1)] 1(3) have "service_ok sha keys svc'"
    by (simp add: service_ok_def)
  with 1 2 that show ?thesis by metis
qed

section \<open>Properties\<close>

text \<open>
  C22: A replica whose disk works never shows a torn object. After any sequence of prepare, commit,
  abort and delete requests to a node on which nothing was pending, with correct or wrong checksums,
  in any order and any number of times, every object is what it was before or the complete contents
  of one prepare request for its key. No operation on the disk of the node fails meanwhile: all
  prepares of a key share one temporary file, so that the statement is false with a failing disk.
\<close>

theorem replica_objects_whole:
  assumes "object_ids sha256_hex keys" and "fs_faults (svc_fs svc) = []" and "pending_prepares svc = []"
    and "\<forall>x \<in> set xs. step_in keys x" and "k \<in> keys"
    and "service_view sha256_hex (foldl (run_step (prepare_step sha256_hex) commit_step abort_step
        (delete_step sha256_hex)) svc xs) k = Some d"
  shows "service_view sha256_hex svc k = Some d
    \<or> (\<exists>r. PrepareStep r \<in> set xs \<and> prepare_key r = k \<and> prepare_data r = d)"
proof -
  have "service_ok sha256_hex keys svc" using assms(2,3) by (simp add: service_ok_def well_formed_pending_def)
  from object_ids.replica_run_whole [OF assms(1) this assms(4-6)] assms(3) show ?thesis by (auto simp: service_staged_def)
qed

definition example_service :: ReplicationService where
  "example_service = ReplicationService_new example_storage example_fs"

definition example_prepare :: "u64 \<Rightarrow> data \<Rightarrow> prepare_request" where
  "example_prepare i d = PrepareWhole \<lparr>wr_key = ''b/one'', wr_data = d, wr_checksum = [], wr_request_id = i\<rparr>"

definition example_commit :: "u64 \<Rightarrow> CommitObjectRequest" where
  "example_commit i = \<lparr>cm_key = ''b/one'', cm_temp_id = make_temp_id i ''b/one'', cm_request_id = i\<rparr>"

lemma example_service_ok: "service_ok example_sha {''b/one'', ''b/two''} example_service"
  by (simp add: service_ok_def well_formed_pending_def example_service_def ReplicationService_new_def example_fs_def)

theorem replica_objects_whole_witness:
  "service_view example_sha (foldl (run_step (prepare_step example_sha) commit_step abort_step
      (delete_step example_sha)) example_service
      [PrepareStep (example_prepare 7 [1, 2]), CommitStep (example_commit 7)]) ''b/one'' = Some [1, 2]
   \<and> (\<exists>r. PrepareStep r \<in> set [PrepareStep (example_prepare 7 [1, 2]), CommitStep (example_commit 7)]
        \<and> prepare_data r = [1, 2])"
proof -
  have v: "service_view example_sha (foldl (run_step (prepare_step example_sha) commit_step abort_step
      (delete_step example_sha)) example_service
      [PrepareStep (example_prepare 7 [1, 2]), CommitStep (example_commit 7)]) ''b/one'' = Some [1, 2]"
    by code_simp
  have p: "fs_faults (svc_fs example_service) = []" "pending_prepares example_service = []"
    "service_view example_sha example_service ''b/one'' = None"
    by code_simp+
  show ?thesis
    using replica_objects_whole [OF example_ids p(1,2) _ _ v] p(3) v
    by (auto simp: example_prepare_def)
qed

text \<open>
  With a failing disk a replica can show a torn object. A second prepare of the key fails after its
  first byte and its temporary file, which is that of the first prepare too, cannot be removed; the
  commit of the first prepare then succeeds and installs that one byte.
\<close>

theorem failed_prepare_tears_object:
  "let svc = foldl (run_step (prepare_step example_sha) commit_step abort_step (delete_step example_sha))
         (ReplicationService_new example_storage
           (example_fs\<lparr>fs_faults := replicate 7 None @ [Some (io_other ''disk full'', 1), Some (io_other ''EIO'', 0)]\<rparr>))
         [PrepareStep (example_prepare 7 [1, 2]), PrepareStep (example_prepare 8 [3, 4, 5]), CommitStep (example_commit 7)]
   in service_view example_sha svc ''b/one'' = Some [3]"
  by code_simp


text \<open>
  Two-phase write at a node. A prepare with a fresh identifier and a right checksum succeeds and
  changes no object; the commit of the identifier it returned then succeeds, the object reads as
  the prepared data, and no entry or temporary file is left behind for it.
\<close>

theorem prepare_then_commit:
  assumes "service_ok sha256_hex keys svc" and "valid_key key" and "key \<in> keys"
    and "fs_ready sha256_hex (svc_storage svc) (svc_fs svc) key"
    and "checksum = [] \<or> checksum = sha256_hex d"
    and "map_of (pending_prepares svc) (make_temp_id i key) = None"
  shows "\<exists>svc1 svc2. service_prepare_object sha256_hex svc
        \<lparr>wr_key = key, wr_data = d, wr_checksum = checksum, wr_request_id = i\<rparr>
      = (prepare_done (make_temp_id i key), svc1)
    \<and> service_view sha256_hex svc1 = service_view sha256_hex svc
    \<and> service_commit_object svc1 \<lparr>cm_key = key, cm_temp_id = make_temp_id i key, cm_request_id = i\<rparr>
      = (\<lparr>cresp_success = True, cresp_error = []\<rparr>, svc2)
    \<and> service_view sha256_hex svc2 key = Some d
    \<and> map_of (pending_prepares svc2) = map_of (pending_prepares svc)
    \<and> files (svc_fs svc2) (temp_file sha256_hex (svc_storage svc) key) = None"
proof -
  let ?st = "svc_storage svc" and ?tp = "temp_file sha256_hex (svc_storage svc) key"
  let ?fp = "object_path_from_id (layout ?st) (sha256_hex (as_bytes key))"
  let ?req = "\<lparr>wr_key = key, wr_data = d, wr_checksum = checksum, wr_request_id = i\<rparr>"
  obtain s1 where w: "write_temp_object sha256_hex ?st (svc_fs svc) key (whole d) = (Inr (temp_of sha256_hex ?st key), s1)"
    and nf: "fs_faults s1 = []" and o: "\<forall>p. p \<noteq> ?tp \<longrightarrow> files s1 p = files (svc_fs svc) p"
    and tp: "files s1 ?tp = Some \<lparr>f_data = d, f_mtime = fs_clock (svc_fs svc)\<rparr>"
    using write_temp_object_runs [OF assms(2,4), of "whole d"] by (auto simp: whole_def temp_of_def)
  define p where "p = \<lparr>temp_object = temp_of sha256_hex ?st key, pp_checksum = checksum, pp_created_at = fs_clock s1\<rparr>"
  define svc1 where "svc1 = svc\<lparr>pending_prepares := AList.update (make_temp_id i key) p (pending_prepares svc), svc_fs := s1\<rparr>"
  have prep: "service_prepare_object sha256_hex svc ?req = (prepare_done (make_temp_id i key), svc1)"
    using w assms(5,6) by (auto simp: service_prepare_object_def Let_def insert_pending_def svc1_def p_def)
  have view1: "service_view sha256_hex svc1 = service_view sha256_hex svc"
    using o by (auto simp: service_view_def object_view_fs_def svc1_def)
  have "?tp \<notin> set (prefixes (butlast ?fp))"
    by (auto simp: butlast_paths temp_path_from_id_def prefix_def)
  then have "list_all (\<lambda>q. file_at s1 q = None) (prefixes (butlast ?fp))"
    using assms(4) o unfolding fs_ready_def list_all_iff set_append by (metis UnCI)
  from create_dir_all_ok [OF nf this] obtain s2 where
    c: "commit_object ?st s1 (temp_of sha256_hex ?st key) = (Inr (), s2)"
    using tp nf by (auto simp: commit_object_def fs_rename_def fsync_dir_def fsync_path_def fs_exists_def file_sync_def)
  have "files s2 ?fp = files s1 ?tp \<and> files s2 ?tp = None"
    using commit_object_ok [OF c] by simp
  with prep view1 c tp assms(6) show ?thesis
    by (auto simp: service_commit_object_def Let_def remove_pending_def svc1_def p_def service_view_def
        object_view_fs_def update_conv' delete_conv')
qed

theorem prepare_then_commit_witness:
  "\<exists>svc1 svc2. service_prepare_object example_sha example_service
        \<lparr>wr_key = ''b/one'', wr_data = [1, 2], wr_checksum = example_sha [1, 2], wr_request_id = 7\<rparr>
      = (prepare_done (make_temp_id 7 ''b/one''), svc1)
    \<and> service_commit_object svc1 (example_commit 7) = (\<lparr>cresp_success = True, cresp_error = []\<rparr>, svc2)
    \<and> service_view example_sha svc2 ''b/one'' = Some [1, 2]"
proof -
  have v: "valid_key ''b/one''" by code_simp
  have k: "''b/one'' \<in> {''b/one'', ''b/two''}" by simp
  have r: "fs_ready example_sha (svc_storage example_service) (svc_fs example_service) ''b/one''"
    by (simp add: fs_ready_def example_fs_def list_all_iff example_service_def ReplicationService_new_def)
  have c: "example_sha [1, 2] = [] \<or> example_sha [1, 2] = example_sha [1, 2]" by simp
  have p: "map_of (pending_prepares example_service) (make_temp_id 7 ''b/one'') = None"
    by (simp add: example_service_def ReplicationService_new_def)
  from prepare_then_commit [OF example_service_ok v k r c p] show ?thesis
    by (auto simp: example_commit_def)
qed

text \<open>
  A prepare that is delivered twice loses its data. The identifier of the second is already
  pending, so the table drops the handle of the first, which removes the temporary file that both
  share: both prepares report success, and the commit fails and leaves every object as it was.
\<close>

theorem repeated_prepare_cannot_commit:
  assumes "service_ok sha256_hex keys svc" and "prepare_key r \<in> keys"
    and "service_prepare sha256_hex svc r = (resp1, svc1)" and "presp_success resp1"
    and "service_prepare sha256_hex svc1 r = (resp2, svc2)" and "presp_success resp2"
    and "service_commit_object svc2 \<lparr>cm_key = prepare_key r, cm_temp_id = presp_temp_id resp2, cm_request_id = prepare_id r\<rparr>
      = (resp3, svc3)"
  shows "presp_temp_id resp1 = presp_temp_id resp2 \<and> \<not> cresp_success resp3
    \<and> service_view sha256_hex svc3 = service_view sha256_hex svc"
proof -
  let ?st = "svc_storage svc"
  obtain p1 f1 where 1: "presp_temp_id resp1 = make_temp_id (prepare_id r) (prepare_key r)"
    "service_ok sha256_hex keys svc1" "svc_storage svc1 = ?st"
    "pending_prepares svc1 = AList.update (presp_temp_id resp1) p1 (pending_prepares svc)"
    "\<forall>q. q \<noteq> temp_file sha256_hex ?st (prepare_key r) \<longrightarrow> files (svc_fs svc1) q = files (svc_fs svc) q"
    using prepare_success [OF assms(1,3,4,2)] by (smt (verit) fun_upd_other)
  obtain p2 f2 where 2: "presp_temp_id resp2 = make_temp_id (prepare_id r) (prepare_key r)"
    "service_ok sha256_hex keys svc2" "svc_storage svc2 = ?st"
    "temp_object p2 = temp_of sha256_hex ?st (prepare_key r)"
    "pending_prepares svc2 = AList.update (presp_temp_id resp2) p2 (pending_prepares svc1)"
    "files (svc_fs svc2) = (files (svc_fs svc1))(temp_file sha256_hex ?st (prepare_key r) := None)"
    using prepare_success [OF 1(2) assms(5,6,2)] 1(1,3,4) by (auto simp: update_conv' split: if_splits)
  have m: "map_of (pending_prepares svc2) (presp_temp_id resp2) = Some p2" using 2(5) by (simp add: update_conv')
  have nf: "fs_faults (svc_fs svc2) = []" using 2(2) by (simp add: service_ok_def)
  from commit_response [OF _ nf _ assms(7), of p2 sha256_hex "prepare_key r"] m 2 1 show ?thesis
    by (auto simp: service_view_def object_view_fs_def split: if_splits)
qed

theorem repeated_prepare_cannot_commit_witness:
  "presp_success (fst (service_prepare example_sha example_service (example_prepare 7 [1, 2])))
   \<and> presp_success (fst (service_prepare example_sha
        (snd (service_prepare example_sha example_service (example_prepare 7 [1, 2]))) (example_prepare 7 [1, 2])))
   \<and> \<not> cresp_success (fst (service_commit_object (snd (service_prepare example_sha
        (snd (service_prepare example_sha example_service (example_prepare 7 [1, 2]))) (example_prepare 7 [1, 2])))
        (example_commit 7)))"
proof -
  let ?r = "example_prepare 7 [1, 2]"
  let ?p1 = "service_prepare example_sha example_service ?r"
  let ?p2 = "service_prepare example_sha (snd ?p1) ?r"
  have k: "prepare_key ?r \<in> {''b/one'', ''b/two''}" by (simp add: example_prepare_def)
  have s1: "presp_success (fst ?p1)" by code_simp
  have s2: "presp_success (fst ?p2)" by code_simp
  have e: "\<lparr>cm_key = prepare_key ?r, cm_temp_id = presp_temp_id (fst ?p2), cm_request_id = prepare_id ?r\<rparr> = example_commit 7"
    by code_simp
  from repeated_prepare_cannot_commit [OF example_service_ok k surjective_pairing s1 surjective_pairing s2 surjective_pairing]
  have "\<not> cresp_success (fst (service_commit_object (snd ?p2) (example_commit 7)))" unfolding e by blast
  with s1 s2 show ?thesis by blast
qed


text \<open>
  Overlapping writes of one key share the temporary file. When two prepares of a key with
  different identifiers are pending, the commit of the first installs the data of the second, and
  the commit of the second then fails.
\<close>

theorem overlapping_prepares_mix:
  assumes "service_ok sha256_hex keys svc" and "key \<in> keys"
    and "prepare_key r1 = key" and "prepare_key r2 = key" and "prepare_id r1 \<noteq> prepare_id r2"
    and "map_of (pending_prepares svc) (make_temp_id (prepare_id r2) key) = None"
    and "service_prepare sha256_hex svc r1 = (resp1, svc1)" and "presp_success resp1"
    and "service_prepare sha256_hex svc1 r2 = (resp2, svc2)" and "presp_success resp2"
    and "service_commit_object svc2 \<lparr>cm_key = key, cm_temp_id = presp_temp_id resp1, cm_request_id = i\<rparr> = (resp3, svc3)"
    and "cresp_success resp3"
    and "service_commit_object svc3 \<lparr>cm_key = key, cm_temp_id = presp_temp_id resp2, cm_request_id = j\<rparr> = (resp4, svc4)"
  shows "service_view sha256_hex svc3 key = Some (prepare_data r2) \<and> \<not> cresp_success resp4
    \<and> service_view sha256_hex svc4 key = Some (prepare_data r2)"
proof -
  let ?st = "svc_storage svc"
  obtain p1 where 1: "presp_temp_id resp1 = make_temp_id (prepare_id r1) key"
    "service_ok sha256_hex keys svc1" "svc_storage svc1 = ?st" "temp_object p1 = temp_of sha256_hex ?st key"
    "pending_prepares svc1 = AList.update (presp_temp_id resp1) p1 (pending_prepares svc)"
    using prepare_success [OF assms(1,7,8)] assms(2,3) by metis
  have new: "map_of (pending_prepares svc1) (make_temp_id (prepare_id r2) key) = None"
    using 1 assms(5,6) by (simp add: update_conv')
  obtain p2 f where 2: "presp_temp_id resp2 = make_temp_id (prepare_id r2) key"
    "service_ok sha256_hex keys svc2" "svc_storage svc2 = ?st" "temp_object p2 = temp_of sha256_hex ?st key"
    "f_data f = prepare_data r2"
    "pending_prepares svc2 = AList.update (presp_temp_id resp2) p2 (pending_prepares svc1)"
    "files (svc_fs svc2) (temp_file sha256_hex ?st key) = Some f"
    using prepare_success [OF 1(2) assms(9,10)] assms(2,4) 1(3) new by (smt (verit) fun_upd_same)
  have m: "map_of (pending_prepares svc2) (presp_temp_id resp1) = Some p1"
    using 1 2 assms(5) by (simp add: update_conv')
  have nf: "fs_faults (svc_fs svc2) = []" using 2(2) by (simp add: service_ok_def)
  from commit_response [OF _ nf _ assms(11), of p1 sha256_hex key] m 1 2 assms(12)
  have 3: "svc_storage svc3 = ?st" "fs_faults (svc_fs svc3) = []"
    "pending_prepares svc3 = AList.delete (presp_temp_id resp1) (pending_prepares svc2)"
    "files (svc_fs svc3) (temp_file sha256_hex ?st key) = None"
    "files (svc_fs svc3) (object_path_from_id (layout ?st) (sha256_hex (as_bytes key))) = Some f" by auto
  have m2: "map_of (pending_prepares svc3) (presp_temp_id resp2) = Some p2"
    using 1 2 3 assms(5) by (simp add: update_conv' delete_conv')
  from commit_response [OF _ 3(2) _ assms(13), of p2 sha256_hex key] m2 2 3 show ?thesis
    by (auto simp: service_view_def object_view_fs_def split: if_splits)
qed

theorem overlapping_prepares_mix_witness:
  "let svc1 = snd (service_prepare example_sha example_service (example_prepare 7 [1, 2]));
       svc2 = snd (service_prepare example_sha svc1 (example_prepare 8 [3]));
       svc3 = snd (service_commit_object svc2 (example_commit 7))
   in cresp_success (fst (service_commit_object svc2 (example_commit 7)))
      \<and> service_view example_sha svc3 ''b/one'' = Some [3]
      \<and> \<not> cresp_success (fst (service_commit_object svc3 (example_commit 8)))"
proof -
  let ?r1 = "example_prepare 7 [1, 2]" and ?r2 = "example_prepare 8 [3]"
  let ?p1 = "service_prepare example_sha example_service ?r1"
  let ?p2 = "service_prepare example_sha (snd ?p1) ?r2"
  let ?c1 = "service_commit_object (snd ?p2) (example_commit 7)"
  have k: "prepare_key ?r1 = ''b/one''" "prepare_key ?r2 = ''b/one''" "prepare_id ?r1 \<noteq> prepare_id ?r2"
    "prepare_data ?r2 = [3]" by (simp_all add: example_prepare_def)
  have s: "presp_success (fst ?p1)" "presp_success (fst ?p2)" "cresp_success (fst ?c1)" by code_simp+
  have e: "\<lparr>cm_key = ''b/one'', cm_temp_id = presp_temp_id (fst ?p1), cm_request_id = 7\<rparr> = example_commit 7"
    "\<lparr>cm_key = ''b/one'', cm_temp_id = presp_temp_id (fst ?p2), cm_request_id = 8\<rparr> = example_commit 8"
    by code_simp+
  have n: "map_of (pending_prepares example_service) (make_temp_id (prepare_id ?r2) ''b/one'') = None"
    by (simp add: example_service_def ReplicationService_new_def)
  note m = overlapping_prepares_mix [OF example_service_ok _ k(1,2,3) n surjective_pairing s(1) surjective_pairing s(2),
      of 7 "fst ?c1" "snd ?c1" 8]
  show ?thesis unfolding Let_def
    using m [unfolded e k(4), OF _ surjective_pairing s(3) surjective_pairing] s(3) by simp
qed

end
