(* ===== verification/Common_Retry.thy ===== *)
theory Common_Retry
  imports Save_Prelude
begin

text \<open>
  Retrying an operation, \<open>crates/save-common/src/retry.rs\<close>. The operation is a state transformer
  that may fail; the delays between attempts only pass time and are the subject of
  \<open>Common_Backoff\<close>.
\<close>

section \<open>The loop\<close>

record RetryConfig =
  max_retries :: u32
  initial_delay_ms :: nat
  max_delay_ms :: nat

definition RetryConfig_default :: RetryConfig where
  "RetryConfig_default = \<lparr>max_retries = 3, initial_delay_ms = 100, max_delay_ms = 5000\<rparr>"

definition no_retry :: RetryConfig where
  "no_retry = RetryConfig_default\<lparr>max_retries := 0\<rparr>"

definition with_max_retries :: "u32 \<Rightarrow> RetryConfig" where
  "with_max_retries n = RetryConfig_default\<lparr>max_retries := n\<rparr>"

function retry_loop ::
  "('s \<Rightarrow> ('e + 't) \<times> 's) \<Rightarrow> ('e \<Rightarrow> bool) \<Rightarrow> u32 \<Rightarrow> u32 \<Rightarrow> 's \<Rightarrow> ('e + 't) \<times> 's" where
  "retry_loop operation is_retryable maxr attempt s =
     (case operation s of
        (Inr result, s') \<Rightarrow> (Inr result, s')
      | (Inl e, s') \<Rightarrow>
        if attempt < maxr \<and> is_retryable e
        then retry_loop operation is_retryable maxr (attempt + 1) s'
        else (Inl e, s'))"
  by pat_completeness auto
termination
  by (relation "measure (\<lambda>(_, _, maxr, attempt, _). unat maxr - unat attempt)") auto

declare retry_loop.simps [simp del]

definition retry_with_backoff ::
  "RetryConfig \<Rightarrow> ('s \<Rightarrow> ('e + 't) \<times> 's) \<Rightarrow> ('e \<Rightarrow> bool) \<Rightarrow> 's \<Rightarrow> ('e + 't) \<times> 's" where
  "retry_with_backoff config operation is_retryable s =
     retry_loop operation is_retryable (max_retries config) 0 s"

section \<open>What it returns\<close>

text \<open>An invariant of the operation is kept, and the result is that of its last execution.\<close>

lemma retry_loop_invariant:
  assumes "\<And>s r s'. I s \<Longrightarrow> operation s = (r, s') \<Longrightarrow> I s'" and "I s"
    and "retry_loop operation is_retryable maxr attempt s = (r, s')"
  shows "I s' \<and> (\<exists>s0. I s0 \<and> operation s0 = (r, s'))"
  using assms(2,3)
proof (induction "unat maxr - unat attempt" arbitrary: attempt s rule: less_induct)
  case less
  obtain x s1 where o: "operation s = (x, s1)" by fastforce
  with assms(1) less.prems(1) have i: "I s1" by blast
  show ?case
  proof (cases "\<exists>e. x = Inl e \<and> attempt < maxr \<and> is_retryable e")
    case True
    then have lt: "attempt < maxr" by blast
    have "retry_loop operation is_retryable maxr (attempt + 1) s1 = (r, s')"
      using less.prems(2) True o by (subst (asm) retry_loop.simps) auto
    from less.hyps [OF less_word_succ_measure [OF lt] i this] show ?thesis .
  next
    case False
    then have "(r, s') = (x, s1)"
      using less.prems(2) o by (subst (asm) retry_loop.simps) (auto split: sum.splits if_splits)
    with o i less.prems(1) show ?thesis by auto
  qed
qed

lemma retry_loop_bounded:
  assumes step: "\<And>s r s'. operation s = (r, s') \<Longrightarrow> count s' = Suc (count s)"
    and "retry_loop operation is_retryable maxr attempt s = (r, s')" and "attempt \<le> maxr"
  shows "count s' \<le> count s + Suc (unat maxr - unat attempt)"
  using assms(2,3)
proof (induction "unat maxr - unat attempt" arbitrary: attempt s rule: less_induct)
  case less
  obtain x s1 where o: "operation s = (x, s1)" by fastforce
  from step [OF o] have c: "count s1 = Suc (count s)" .
  show ?case
  proof (cases "\<exists>e. x = Inl e \<and> attempt < maxr \<and> is_retryable e")
    case True
    then have lt: "attempt < maxr" by blast
    then have u: "unat (attempt + 1) = Suc (unat attempt)" and l: "unat attempt < unat maxr"
      by (simp_all add: less_word_succ word_less_nat_alt)
    have "retry_loop operation is_retryable maxr (attempt + 1) s1 = (r, s')"
      using less.prems(1) True o by (subst (asm) retry_loop.simps) auto
    moreover have "attempt + 1 \<le> maxr" using u l by (simp add: word_le_nat_alt)
    ultimately have "count s' \<le> count s1 + Suc (unat maxr - unat (attempt + 1))"
      using less.hyps [OF less_word_succ_measure [OF lt]] by blast
    with c u l show ?thesis by simp
  next
    case False
    then have "(r, s') = (x, s1)"
      using less.prems(1) o by (subst (asm) retry_loop.simps) (auto split: sum.splits if_splits)
    with c show ?thesis by simp
  qed
qed

section \<open>Properties\<close>

text \<open>
  Retrying runs the operation at least once and at most \<open>max_retries + 1\<close> times, ends, and
  returns the result of the last run; every invariant of the operation holds afterwards.
\<close>

theorem retry_bounded:
  assumes "\<And>s r s'. operation s = (r, s') \<Longrightarrow> count s' = Suc (count s)"
    and "retry_with_backoff config operation is_retryable s = (r, s')"
  shows "count s < count s' \<and> count s' \<le> count s + Suc (unat (max_retries config))
    \<and> (\<exists>s0. operation s0 = (r, s'))"
proof -
  have r: "retry_loop operation is_retryable (max_retries config) 0 s = (r, s')"
    using assms(2) by (simp add: retry_with_backoff_def)
  have "count s' \<le> count s + Suc (unat (max_retries config) - unat (0 :: u32))"
    by (rule retry_loop_bounded [where operation = operation]) (use assms(1) r in \<open>auto simp: word_le_nat_alt\<close>)
  moreover have "count s \<le> count s' \<and> (\<exists>s0. count s \<le> count s0 \<and> operation s0 = (r, s'))"
    by (rule retry_loop_invariant [where operation = operation and I = "\<lambda>x. count s \<le> count x"])
      (use assms(1) r in \<open>force+\<close>)
  ultimately show ?thesis using assms(1) by fastforce
qed

theorem retry_bounded_witness:
  "snd (retry_with_backoff (with_max_retries 2) (\<lambda>n. (if n < 9 then Inl n else Inr n, Suc n)) (\<lambda>_. True) (0 :: nat)) \<le> 3"
proof -
  let ?op = "\<lambda>n. (if n < 9 then Inl n else Inr n, Suc n)"
  let ?r = "retry_with_backoff (with_max_retries 2) ?op (\<lambda>_. True) (0 :: nat)"
  have "id 0 < id (snd ?r) \<and> id (snd ?r) \<le> id 0 + Suc (unat (max_retries (with_max_retries 2)))
    \<and> (\<exists>s0. ?op s0 = (fst ?r, snd ?r))"
    by (rule retry_bounded [where count = id and is_retryable = "\<lambda>_. True"]) simp_all
  then show ?thesis by (simp add: with_max_retries_def)
qed

end
