(* ===== verification/Repl_Client.thy ===== *)
theory Repl_Client
  imports Repl_Service Common_Retry
begin

text \<open>
  The client for the replication service of another node,
  \<open>crates/save-storage/src/replication/client.rs\<close>, and the health checker, \<open>health.rs\<close>.

  A peer is the client together with the node it talks to and the network between them. The
  network is part of the state: \<open>p_link\<close> says for each connection attempt and each call to come
  whether it gets through, is lost on the way there, or is carried out while its answer is lost;
  when the list is used up everything gets through. The text of the error is that of the transport
  library. A theorem for every state therefore holds for every pattern of failures of the network.
\<close>

section \<open>Clients and peers\<close>

record ReplicationClient =
  cl_node_id :: u64
  cl_addr :: string
  cl_retry_config :: RetryConfig
  cl_channel :: bool

definition ReplicationClient_new :: "u64 \<Rightarrow> string \<Rightarrow> ReplicationClient" where
  "ReplicationClient_new node_id addr =
     \<lparr>cl_node_id = node_id, cl_addr = addr, cl_retry_config = RetryConfig_default, cl_channel = False\<rparr>"

datatype delivery = Delivered | RequestLost string | ResponseLost string

record peer =
  p_client :: ReplicationClient
  p_service :: ReplicationService
  p_link :: "delivery list"

definition next_delivery :: "peer \<Rightarrow> delivery \<times> peer" where
  "next_delivery p = (case p_link p of [] \<Rightarrow> (Delivered, p) | d # ds \<Rightarrow> (d, p\<lparr>p_link := ds\<rparr>))"

definition set_channel :: "bool \<Rightarrow> peer \<Rightarrow> peer" where
  "set_channel b p = p\<lparr>p_client := (p_client p)\<lparr>cl_channel := b\<rparr>\<rparr>"

text \<open>ASCII letters to lower case.\<close>

definition lower_char :: "char \<Rightarrow> char" where
  "lower_char c = (let n = of_char c :: nat in if 65 \<le> n \<and> n \<le> 90 then char_of (n + 32) else c)"

fun is_transport_error :: "StorageError \<Rightarrow> bool" where
  "is_transport_error (StorageIo io_err) =
     (let msg = map lower_char (io_msg io_err) in
      contains msg ''connection'' \<or> contains msg ''unavailable'' \<or> contains msg ''transport''
      \<or> contains msg ''timeout'' \<or> contains msg ''reset'' \<or> contains msg ''broken pipe'')"
| "is_transport_error _ = False"

section \<open>Calls\<close>

definition do_connect :: "peer \<Rightarrow> (StorageError + unit) \<times> peer" where
  "do_connect p =
     (case next_delivery p of
        (Delivered, p') \<Rightarrow> (Inr (), p')
      | (RequestLost m, p') \<Rightarrow> (Inl (StorageIo (io_other m)), p')
      | (ResponseLost m, p') \<Rightarrow> (Inl (StorageIo (io_other m)), p'))"

definition get_channel :: "peer \<Rightarrow> (StorageError + unit) \<times> peer" where
  "get_channel p =
     (if cl_channel (p_client p) then (Inr (), p)
      else
        (case retry_with_backoff (cl_retry_config (p_client p)) do_connect is_transport_error p of
           (Inl e, p') \<Rightarrow> (Inl e, p')
         | (Inr _, p') \<Rightarrow> (Inr (), set_channel True p')))"

text \<open>One call over an open channel: the handler runs on the node unless the request is lost.\<close>

definition transmit ::
  "(ReplicationService \<Rightarrow> 'r \<times> ReplicationService) \<Rightarrow> peer \<Rightarrow> (StorageError + 'r) \<times> peer" where
  "transmit handler p =
     (case next_delivery p of
        (RequestLost m, p') \<Rightarrow> (Inl (StorageIo (io_other m)), p')
      | (ResponseLost m, p') \<Rightarrow>
          (Inl (StorageIo (io_other m)), p'\<lparr>p_service := snd (handler (p_service p'))\<rparr>)
      | (Delivered, p') \<Rightarrow>
          (Inr (fst (handler (p_service p'))), p'\<lparr>p_service := snd (handler (p_service p'))\<rparr>))"

definition do_call_unary ::
  "(ReplicationService \<Rightarrow> 'r \<times> ReplicationService) \<Rightarrow> peer \<Rightarrow> (StorageError + 'r) \<times> peer" where
  "do_call_unary handler p =
     (case get_channel p of
        (Inl e, p') \<Rightarrow> (Inl e, p')
      | (Inr _, p') \<Rightarrow> transmit handler p')"

text \<open>A transport error closes the channel, so that the next attempt connects again.\<close>

definition call_attempt ::
  "(ReplicationService \<Rightarrow> 'r \<times> ReplicationService) \<Rightarrow> peer \<Rightarrow> (StorageError + 'r) \<times> peer" where
  "call_attempt handler p =
     (case do_call_unary handler p of
        (Inl e, p') \<Rightarrow> (Inl e, if is_transport_error e then set_channel False p' else p')
      | (Inr r, p') \<Rightarrow> (Inr r, p'))"

definition call_unary ::
  "(ReplicationService \<Rightarrow> 'r \<times> ReplicationService) \<Rightarrow> peer \<Rightarrow> (StorageError + 'r) \<times> peer" where
  "call_unary handler p =
     retry_with_backoff (cl_retry_config (p_client p)) (call_attempt handler) is_transport_error p"

section \<open>Requests\<close>

definition client_prepare_object ::
  "(data \<Rightarrow> string) \<Rightarrow> peer \<Rightarrow> string \<Rightarrow> data \<Rightarrow> string \<Rightarrow> u64 \<Rightarrow> (StorageError + string) \<times> peer" where
  "client_prepare_object sha256_hex p key d checksum request_id =
     (case call_unary (\<lambda>svc. service_prepare_object sha256_hex svc
             \<lparr>wr_key = key, wr_data = d, wr_checksum = checksum, wr_request_id = request_id\<rparr>) p of
        (Inl e, p') \<Rightarrow> (Inl e, p')
      | (Inr resp, p') \<Rightarrow>
        if presp_success resp then (Inr (presp_temp_id resp), p')
        else (Inl (StorageIo (io_other (presp_error resp))), p'))"

definition client_commit_object ::
  "peer \<Rightarrow> string \<Rightarrow> string \<Rightarrow> u64 \<Rightarrow> (StorageError + unit) \<times> peer" where
  "client_commit_object p key temp_id request_id =
     (case call_unary (\<lambda>svc. service_commit_object svc
             \<lparr>cm_key = key, cm_temp_id = temp_id, cm_request_id = request_id\<rparr>) p of
        (Inl e, p') \<Rightarrow> (Inl e, p')
      | (Inr resp, p') \<Rightarrow>
        if cresp_success resp then (Inr (), p')
        else (Inl (StorageIo (io_other (cresp_error resp))), p'))"

definition client_abort_object ::
  "peer \<Rightarrow> string \<Rightarrow> string \<Rightarrow> u64 \<Rightarrow> (StorageError + unit) \<times> peer" where
  "client_abort_object p key temp_id request_id =
     (case call_unary (\<lambda>svc. service_abort_object svc
             \<lparr>cm_key = key, cm_temp_id = temp_id, cm_request_id = request_id\<rparr>) p of
        (Inl e, p') \<Rightarrow> (Inl e, p')
      | (Inr resp, p') \<Rightarrow>
        if cresp_success resp then (Inr (), p')
        else (Inl (StorageIo (io_other (cresp_error resp))), p'))"

definition client_delete_object ::
  "(data \<Rightarrow> string) \<Rightarrow> peer \<Rightarrow> string \<Rightarrow> u64 \<Rightarrow> (StorageError + bool) \<times> peer" where
  "client_delete_object sha256_hex p key request_id =
     (case call_unary (\<lambda>svc. service_delete_object sha256_hex svc key) p of
        (Inl e, p') \<Rightarrow> (Inl e, p')
      | (Inr resp, p') \<Rightarrow>
        if dresp_success resp then (Inr (was_present resp), p')
        else (Inl (StorageIo (io_other (dresp_error resp))), p'))"

definition client_object_exists ::
  "(data \<Rightarrow> string) \<Rightarrow> peer \<Rightarrow> string \<Rightarrow> (StorageError + bool \<times> u64 \<times> string) \<times> peer" where
  "client_object_exists sha256_hex p key =
     (case call_unary (\<lambda>svc. service_object_exists sha256_hex svc key) p of
        (Inl e, p') \<Rightarrow> (Inl e, p')
      | (Inr resp, p') \<Rightarrow> (Inr (ex_exists resp, ex_size resp, ex_checksum resp), p'))"

definition client_health_check :: "peer \<Rightarrow> (StorageError + HealthCheckResponse) \<times> peer" where
  "client_health_check p = call_unary (\<lambda>svc. (service_health_check svc, svc)) p"

text \<open>
  The task that reads the local file and sends it in chunks. The first chunk carries the key and the
  request identifier, the final marker the checksum; a failing read ends the loop like the end of
  the file.
\<close>

function send_chunks :: "fs \<Rightarrow> data \<Rightarrow> bool \<Rightarrow> string \<Rightarrow> u64 \<Rightarrow> PrepareChunkRequest list \<times> fs" where
  "send_chunks s d is_first key request_id =
     (case next_fault s of
        (Some _, s') \<Rightarrow> ([], s')
      | (None, s') \<Rightarrow>
        if d = [] then ([], s')
        else
          (case send_chunks s' (drop CHUNK_SIZE d) False key request_id of
             (cs, s'') \<Rightarrow>
               (\<lparr>pc_key = (if is_first then key else []), pc_request_id = (if is_first then request_id else 0),
                 pc_chunk = take CHUNK_SIZE d, pc_is_last = False, pc_checksum = []\<rparr> # cs, s'')))"
  by pat_completeness auto
termination
  by (relation "measure (\<lambda>(_, d, _). length d)") (auto simp: CHUNK_SIZE_def)

declare send_chunks.simps [simp del]

definition file_chunks ::
  "fs \<Rightarrow> path \<Rightarrow> string \<Rightarrow> u64 \<Rightarrow> string \<Rightarrow> PrepareChunkRequest list \<times> fs" where
  "file_chunks s file_path key request_id checksum =
     (case file_open s file_path of
        (Inl _, s1) \<Rightarrow> ([], s1)
      | (Inr d, s1) \<Rightarrow>
        (case send_chunks s1 d True key request_id of
           (cs, s2) \<Rightarrow>
             (cs @ [\<lparr>pc_key = [], pc_request_id = 0, pc_chunk = [], pc_is_last = True, pc_checksum = checksum\<rparr>], s2)))"

text \<open>The streaming call itself is not retried; only connecting is.\<close>

definition client_stream_prepare_object ::
  "(data \<Rightarrow> string) \<Rightarrow> peer \<Rightarrow> fs \<Rightarrow> string \<Rightarrow> u64 \<Rightarrow> path \<Rightarrow> string \<Rightarrow> (StorageError + string) \<times> peer \<times> fs" where
  "client_stream_prepare_object sha256_hex p s key request_id file_path checksum =
     (case get_channel p of
        (Inl e, p') \<Rightarrow> (Inl e, p', s)
      | (Inr _, p') \<Rightarrow>
        (case file_chunks s file_path key request_id checksum of
           (chunks, s') \<Rightarrow>
             (case transmit (\<lambda>svc. service_stream_prepare_object sha256_hex svc chunks) p' of
                (Inl e, p'') \<Rightarrow> (Inl e, p'', s')
              | (Inr resp, p'') \<Rightarrow>
                if presp_success resp then (Inr (presp_temp_id resp), p'', s')
                else (Inl (StorageIo (io_other (presp_error resp))), p'', s'))))"

text \<open>
  What the reader over the response stream delivers: the chunks up to the first that is marked as
  the last, or to the end of the stream.
\<close>

fun streaming_reader :: "ReadObjectResponse list \<Rightarrow> data" where
  "streaming_reader [] = []"
| "streaming_reader (c # cs) = rd_chunk c @ (if rd_is_last c then [] else streaming_reader cs)"

definition client_read_object_stream ::
  "(data \<Rightarrow> string) \<Rightarrow> peer \<Rightarrow> string \<Rightarrow> (StorageError + data) \<times> peer" where
  "client_read_object_stream sha256_hex p key =
     (case get_channel p of
        (Inl e, p') \<Rightarrow> (Inl e, p')
      | (Inr _, p') \<Rightarrow>
        (case transmit (\<lambda>svc. service_read_object sha256_hex svc key) p' of
           (Inl e, p'') \<Rightarrow> (Inl e, p'')
         | (Inr (Inl e), p'') \<Rightarrow> (Inl (StorageIo (io_other (StorageError_to_string e))), p'')
         | (Inr (Inr chunks), p'') \<Rightarrow> (Inr (streaming_reader chunks), p'')))"

section \<open>Health checks\<close>

text \<open>A check that takes longer than the timeout counts as failed: an attempt whose answer is lost.\<close>

definition is_healthy :: "peer \<Rightarrow> bool \<times> peer" where
  "is_healthy p =
     (case client_health_check p of
        (Inr resp, p') \<Rightarrow> (hresp_status resp = HEALTHY \<or> hresp_status resp = DEGRADED, p')
      | (Inl _, p') \<Rightarrow> (False, p'))"

record HealthCheckResult =
  hc_node_id :: u64
  hc_status :: HealthCode
  hc_error :: "string option"

definition check_health :: "peer \<Rightarrow> HealthCheckResult \<times> peer" where
  "check_health p =
     (case client_health_check p of
        (Inr resp, p') \<Rightarrow>
          (\<lparr>hc_node_id = cl_node_id (p_client p), hc_status = hresp_status resp, hc_error = None\<rparr>, p')
      | (Inl e, p') \<Rightarrow>
          (\<lparr>hc_node_id = cl_node_id (p_client p), hc_status = UNHEALTHY,
            hc_error = Some (StorageError_to_string e)\<rparr>, p'))"

definition is_available :: "HealthCode \<Rightarrow> bool" where
  "is_available c \<longleftrightarrow> c = HEALTHY \<or> c = DEGRADED"

section \<open>What calls do to the node\<close>

text \<open>The node went through some steps, each of which satisfies \<open>P\<close>.\<close>

abbreviation "replica_step_fun sha256_hex \<equiv>
  run_step (prepare_step sha256_hex) commit_step abort_step (delete_step sha256_hex)"

definition service_steps ::
  "(data \<Rightarrow> string) \<Rightarrow> (replica_step \<Rightarrow> bool) \<Rightarrow> ReplicationService \<Rightarrow> ReplicationService \<Rightarrow> bool" where
  "service_steps sha256_hex P svc svc' \<longleftrightarrow>
     (\<exists>xs. (\<forall>x \<in> set xs. P x) \<and> svc' = foldl (replica_step_fun sha256_hex) svc xs)"

lemma service_steps_refl [simp]: "service_steps sha P svc svc"
  unfolding service_steps_def by (rule exI [of _ "[]"]) simp

lemma service_steps_one: "P x \<Longrightarrow> service_steps sha P svc (replica_step_fun sha svc x)"
  unfolding service_steps_def by (rule exI [of _ "[x]"]) simp

lemma service_steps_trans:
  assumes "service_steps sha P svc svc1" and "service_steps sha P svc1 svc2"
  shows "service_steps sha P svc svc2"
proof -
  from assms obtain xs ys where "\<forall>x \<in> set (xs @ ys). P x" "svc2 = foldl (replica_step_fun sha) svc (xs @ ys)"
    by (auto simp: service_steps_def)
  then show ?thesis unfolding service_steps_def by blast
qed

lemma service_steps_mono:
  "service_steps sha P svc svc' \<Longrightarrow> (\<And>x. P x \<Longrightarrow> Q x) \<Longrightarrow> service_steps sha Q svc svc'"
  unfolding service_steps_def by blast

lemma next_delivery_service [simp]: "p_service (snd (next_delivery p)) = p_service p"
  by (simp add: next_delivery_def split: list.splits)

lemma set_channel_service [simp]: "p_service (set_channel b p) = p_service p"
  by (simp add: set_channel_def)

lemma do_connect_service: "do_connect p = (r, p') \<Longrightarrow> p_service p' = p_service p"
  by (auto simp: do_connect_def split: prod.splits delivery.splits)
    (metis next_delivery_service snd_conv)+

lemma get_channel_service:
  assumes "get_channel p = (r, p')"
  shows "p_service p' = p_service p"
proof (cases "cl_channel (p_client p)")
  case True
  with assms show ?thesis by (simp add: get_channel_def)
next
  case False
  obtain x q where q: "retry_with_backoff (cl_retry_config (p_client p)) do_connect is_transport_error p = (x, q)"
    by fastforce
  have "p_service q = p_service p \<and> (\<exists>s0. p_service s0 = p_service p \<and> do_connect s0 = (x, q))"
    using q unfolding retry_with_backoff_def
    by (rule retry_loop_invariant [where I = "\<lambda>q. p_service q = p_service p", rotated 2])
      (simp_all add: do_connect_service)
  with assms False q show ?thesis by (auto simp: get_channel_def split: sum.splits)
qed

lemma transmit_steps:
  assumes "\<And>svc. service_steps sha P svc (snd (handler svc))" and "transmit handler p = (r, p')"
  shows "service_steps sha P (p_service p) (p_service p')"
  using assms(2) assms(1) [of "p_service p"] next_delivery_service [of p]
  by (cases "next_delivery p"; cases "fst (next_delivery p)") (auto simp: transmit_def simp del: next_delivery_service)

lemma call_attempt_steps:
  assumes "\<And>svc. service_steps sha P svc (snd (handler svc))" and "call_attempt handler p = (r, p')"
  shows "service_steps sha P (p_service p) (p_service p')"
proof -
  obtain x q where q: "get_channel p = (x, q)" by fastforce
  obtain y t where t: "transmit handler q = (y, t)" by fastforce
  have "p_service p' = p_service q \<or> p_service p' = p_service t"
    using assms(2) q t by (auto simp: call_attempt_def do_call_unary_def split: sum.splits if_splits)
  with get_channel_service [OF q] transmit_steps [where handler = handler, OF assms(1) t] show ?thesis by auto
qed

lemma call_unary_steps:
  assumes "\<And>svc. service_steps sha P svc (snd (handler svc))" and "call_unary handler p = (r, p')"
  shows "service_steps sha P (p_service p) (p_service p')"
proof -
  have "service_steps sha P (p_service p) (p_service p') \<and> (\<exists>q. service_steps sha P (p_service p) (p_service q)
      \<and> call_attempt handler q = (r, p'))"
    using assms(2) unfolding call_unary_def retry_with_backoff_def
    by (rule retry_loop_invariant [where I = "\<lambda>q. service_steps sha P (p_service p) (p_service q)", rotated 2])
      (auto intro: service_steps_trans call_attempt_steps [where handler = handler, OF assms(1)])
  then show ?thesis by simp
qed

lemma prepare_steps:
  assumes "client_prepare_object sha p key d checksum i = (r, p')"
    and "P (PrepareStep (PrepareWhole \<lparr>wr_key = key, wr_data = d, wr_checksum = checksum, wr_request_id = i\<rparr>))"
  shows "service_steps sha P (p_service p) (p_service p')"
  using assms service_steps_one [of P _ sha, OF assms(2)]
  by (auto simp: client_prepare_object_def split: prod.splits sum.splits if_splits
      dest!: call_unary_steps [where sha = sha and P = P, rotated])

lemma commit_steps:
  assumes "client_commit_object p key t i = (r, p')"
    and "P (CommitStep \<lparr>cm_key = key, cm_temp_id = t, cm_request_id = i\<rparr>)"
  shows "service_steps sha P (p_service p) (p_service p')"
  using assms service_steps_one [of P _ sha, OF assms(2)]
  by (auto simp: client_commit_object_def split: prod.splits sum.splits if_splits
      dest!: call_unary_steps [where sha = sha and P = P, rotated])

lemma abort_steps:
  assumes "client_abort_object p key t i = (r, p')"
    and "P (AbortStep \<lparr>cm_key = key, cm_temp_id = t, cm_request_id = i\<rparr>)"
  shows "service_steps sha P (p_service p) (p_service p')"
  using assms service_steps_one [of P _ sha, OF assms(2)]
  by (auto simp: client_abort_object_def split: prod.splits sum.splits if_splits
      dest!: call_unary_steps [where sha = sha and P = P, rotated])

lemma delete_steps:
  assumes "client_delete_object sha p key i = (r, p')" and "P (DeleteStep key)"
  shows "service_steps sha P (p_service p) (p_service p')"
  using assms service_steps_one [of P _ sha, OF assms(2)]
  by (auto simp: client_delete_object_def split: prod.splits sum.splits if_splits
      dest!: call_unary_steps [where sha = sha and P = P, rotated])

lemma is_healthy_service: "is_healthy p = (b, p') \<Longrightarrow> p_service p' = p_service p"
proof -
  have "service_steps sha (\<lambda>_. False) svc svc' \<longleftrightarrow> svc' = svc" for sha svc svc'
    by (auto simp: service_steps_def)
  then show "is_healthy p = (b, p') \<Longrightarrow> p_service p' = p_service p"
    by (auto simp: is_healthy_def client_health_check_def split: prod.splits sum.splits
        dest!: call_unary_steps [where P = "\<lambda>_. False", rotated])
qed

lemma stream_prepare_steps:
  assumes "client_stream_prepare_object sha p s key i path checksum = (r, p', s')"
    and "P (PrepareStep (PrepareStream (fst (file_chunks s path key i checksum))))"
  shows "service_steps sha P (p_service p) (p_service p')"
    and "s' = s \<or> s' = snd (file_chunks s path key i checksum)"
proof -
  let ?cs = "fst (file_chunks s path key i checksum)"
  let ?h = "\<lambda>svc. service_stream_prepare_object sha svc ?cs"
  obtain x q where q: "get_channel p = (x, q)" by fastforce
  obtain y t where t: "transmit ?h q = (y, t)" by fastforce
  have "service_steps sha P (p_service q) (p_service t)"
    using service_steps_one [of P _ sha, OF assms(2)] by (intro transmit_steps [OF _ t]) simp
  moreover have "p_service p' = p_service q \<or> p_service p' = p_service t"
    using assms(1) q t
    by (auto simp: client_stream_prepare_object_def split: prod.splits sum.splits if_splits)
  ultimately show "service_steps sha P (p_service p) (p_service p')" using get_channel_service [OF q] by auto
  show "s' = s \<or> s' = snd (file_chunks s path key i checksum)"
    using assms(1) q t
    by (auto simp: client_stream_prepare_object_def split: prod.splits sum.splits if_splits)
qed

section \<open>Chunks\<close>

lemma CHUNK_SIZE_pos [simp]: "CHUNK_SIZE > 0" "CHUNK_SIZE \<noteq> 0"
  by (simp_all add: CHUNK_SIZE_def)

lemma send_chunks_no_fault:
  assumes "fs_faults s = []"
  shows "\<exists>cs. send_chunks s d first key i = (cs, s) \<and> concat (map pc_chunk cs) = d \<and> (cs = [] \<longleftrightarrow> d = [])
    \<and> (cs \<noteq> [] \<longrightarrow> first \<longrightarrow> pc_key (hd cs) = key \<and> pc_request_id (hd cs) = i)"
  using assms
proof (induction "length d" arbitrary: d first rule: less_induct)
  case less
  show ?case
  proof (cases "d = []")
    case True
    with less.prems show ?thesis by (subst send_chunks.simps) simp
  next
    case False
    then have "length (drop CHUNK_SIZE d) < length d" by (simp add: CHUNK_SIZE_def)
    from less.hyps [OF this less.prems, of False] obtain cs where
      "send_chunks s (drop CHUNK_SIZE d) False key i = (cs, s)" "concat (map pc_chunk cs) = drop CHUNK_SIZE d" by blast
    with False less.prems show ?thesis by (subst send_chunks.simps) simp
  qed
qed

lemma file_chunks_no_fault:
  assumes "fs_faults s = []" and "files s p = Some f"
  shows "snd (file_chunks s p key i checksum) = s"
    and "prepare_data (PrepareStream (fst (file_chunks s p key i checksum))) = f_data f"
    and "prepare_key (PrepareStream (fst (file_chunks s p key i checksum))) = (if f_data f = [] then [] else key)"
    and "f_data f \<noteq> [] \<Longrightarrow> prepare_id (PrepareStream (fst (file_chunks s p key i checksum))) = i"
proof -
  from send_chunks_no_fault [OF assms(1), of "f_data f" True key i] obtain cs where
    cs: "send_chunks s (f_data f) True key i = (cs, s)" "concat (map pc_chunk cs) = f_data f" "cs = [] \<longleftrightarrow> f_data f = []"
      "cs \<noteq> [] \<longrightarrow> pc_key (hd cs) = key \<and> pc_request_id (hd cs) = i" by blast
  have e: "file_chunks s p key i checksum = (cs @ [\<lparr>pc_key = [], pc_request_id = 0, pc_chunk = [],
      pc_is_last = True, pc_checksum = checksum\<rparr>], s)"
    using assms cs(1) by (simp add: file_chunks_def file_open_def)
  show "snd (file_chunks s p key i checksum) = s" by (simp add: e)
  show "prepare_data (PrepareStream (fst (file_chunks s p key i checksum))) = f_data f" using cs(2) by (simp add: e)
  show "prepare_key (PrepareStream (fst (file_chunks s p key i checksum))) = (if f_data f = [] then [] else key)"
    using cs(3,4) by (cases cs) (auto simp: e)
  show "prepare_id (PrepareStream (fst (file_chunks s p key i checksum))) = i" if "f_data f \<noteq> []"
    using cs(3,4) that by (cases cs) (auto simp: e)
qed

lemma streaming_reader_all:
  "\<forall>c \<in> set (butlast cs). \<not> rd_is_last c \<Longrightarrow> streaming_reader cs = concat (map rd_chunk cs)"
  by (induction cs) (auto split: if_splits)

lemma mark_ends_facts:
  assumes "\<forall>c \<in> set cs. \<not> rd_is_last c \<or> cs = [c]"
  shows "streaming_reader (mark_ends cs) = concat (map rd_chunk cs)"
    and "cs \<noteq> [] \<Longrightarrow> rd_is_last (List.last (mark_ends cs))"
    and "cs \<noteq> [] \<Longrightarrow> rd_total_size (hd (mark_ends cs)) = of_nat (length (concat (map rd_chunk cs)))"
    and "map rd_chunk (mark_ends cs) = map rd_chunk cs"
proof -
  consider "cs = []" | c where "cs = [c]" | c ys y where "cs = c # ys @ [y]"
    by (metis append_butlast_last_id list.exhaust)
  then show "streaming_reader (mark_ends cs) = concat (map rd_chunk cs)"
    and "cs \<noteq> [] \<Longrightarrow> rd_is_last (List.last (mark_ends cs))"
    and "cs \<noteq> [] \<Longrightarrow> rd_total_size (hd (mark_ends cs)) = of_nat (length (concat (map rd_chunk cs)))"
    and "map rd_chunk (mark_ends cs) = map rd_chunk cs"
    using assms by (cases; auto simp: mark_ends_def Let_def butlast_append length_concat comp_def
        streaming_reader_all)+
qed

lemma read_chunks_run:
  assumes "fs_faults s = replicate m None @ fa" and "m * CHUNK_SIZE \<le> length d"
  shows "\<exists>cs. read_chunks s d acc = read_chunks (s\<lparr>fs_faults := fa\<rparr>) (drop (m * CHUNK_SIZE) d) (acc @ cs)
    \<and> concat (map rd_chunk cs) = take (m * CHUNK_SIZE) d \<and> (\<forall>c \<in> set cs. \<not> rd_is_last c)"
  using assms
proof (induction m arbitrary: s d acc)
  case 0
  then have "s\<lparr>fs_faults := fa\<rparr> = s" by simp
  then show ?case by (intro exI [of _ "[]"]) simp
next
  case (Suc m)
  let ?c = "\<lparr>rd_chunk = take CHUNK_SIZE d, rd_is_last = False, rd_total_size = 0\<rparr>"
  have "d \<noteq> []" using Suc.prems(2) by (auto simp: CHUNK_SIZE_def)
  then have "read_chunks s d acc = read_chunks (s\<lparr>fs_faults := replicate m None @ fa\<rparr>) (drop CHUNK_SIZE d) (acc @ [?c])"
    using Suc.prems(1) by (subst read_chunks.simps) (simp add: next_fault_def)
  moreover from Suc.prems(2) have "m * CHUNK_SIZE \<le> length (drop CHUNK_SIZE d)" by simp
  from Suc.IH [OF _ this, of "s\<lparr>fs_faults := replicate m None @ fa\<rparr>" "acc @ [?c]"] obtain cs where
    "read_chunks (s\<lparr>fs_faults := replicate m None @ fa\<rparr>) (drop CHUNK_SIZE d) (acc @ [?c])
       = read_chunks (s\<lparr>fs_faults := fa\<rparr>) (drop (m * CHUNK_SIZE) (drop CHUNK_SIZE d)) ((acc @ [?c]) @ cs)"
    "concat (map rd_chunk cs) = take (m * CHUNK_SIZE) (drop CHUNK_SIZE d)" "\<forall>c \<in> set cs. \<not> rd_is_last c"
    by auto
  ultimately show ?case
    by (intro exI [of _ "?c # cs"]) (simp add: add.commute take_add [symmetric])
qed

lemma read_chunks_no_fault:
  assumes "fs_faults s = []"
  shows "\<exists>cs. read_chunks s d acc = (if acc @ cs = [] then [\<lparr>rd_chunk = [], rd_is_last = True, rd_total_size = 0\<rparr>]
      else acc @ cs, s) \<and> concat (map rd_chunk cs) = d
    \<and> (\<forall>c \<in> set cs. \<not> rd_is_last c \<and> length (rd_chunk c) \<le> CHUNK_SIZE)"
proof (induction "length d" arbitrary: d acc rule: less_induct)
  case less
  show ?case
  proof (cases "d = []")
    case True
    with assms show ?thesis by (subst read_chunks.simps) (simp add: exI [of _ "[]"])
  next
    case False
    let ?c = "\<lparr>rd_chunk = take CHUNK_SIZE d, rd_is_last = False, rd_total_size = 0\<rparr>"
    from False have "length (drop CHUNK_SIZE d) < length d" by (simp add: CHUNK_SIZE_def)
    from less.hyps [OF this, of "acc @ [?c]"] obtain cs where
      "read_chunks s (drop CHUNK_SIZE d) (acc @ [?c]) = ((acc @ [?c]) @ cs, s)"
      "concat (map rd_chunk cs) = drop CHUNK_SIZE d"
      "\<forall>c \<in> set cs. \<not> rd_is_last c \<and> length (rd_chunk c) \<le> CHUNK_SIZE" by auto
    with False assms show ?thesis
      by (subst read_chunks.simps) (auto intro!: exI [of _ "?c # cs"])
  qed
qed

section \<open>Properties\<close>

lemma get_object_stored:
  assumes "valid_key key" and "service_view sha svc key = Some d"
    and "fs_faults (svc_fs svc) = [] \<or> fs_faults (svc_fs svc) = None # fa"
  shows "get_object sha (svc_storage svc) (svc_fs svc) key = (Inr d, (svc_fs svc)\<lparr>fs_faults := tl (fs_faults (svc_fs svc))\<rparr>)"
  using assms
  by (auto simp: get_object_def object_path_def object_id_def file_open_def service_view_def object_view_fs_def
      next_fault_def)

text \<open>
  C26: Reading an object from another node. Without faults the service answers with chunks of at most
  64 KiB; what the client's reader delivers from them is exactly the object, for an empty object too,
  and the first chunk announces its size.
\<close>

theorem remote_read_complete:
  assumes "valid_key key" and "service_view sha256_hex svc key = Some d" and "fs_faults (svc_fs svc) = []"
  shows "\<exists>chunks. service_read_object sha256_hex svc key = (Inr chunks, svc) \<and> streaming_reader chunks = d
    \<and> chunks \<noteq> [] \<and> rd_total_size (hd chunks) = of_nat (length d)
    \<and> (\<forall>c \<in> set chunks. length (rd_chunk c) \<le> CHUNK_SIZE)"
proof -
  define s where "s = svc_fs svc"
  have g: "get_object sha256_hex (svc_storage svc) (svc_fs svc) key = (Inr d, s)"
    using get_object_stored [OF assms(1,2), of "[]"] assms(3) by (simp add: s_def)
  obtain cs where r: "read_chunks s d [] = (if cs = [] then [\<lparr>rd_chunk = [], rd_is_last = True, rd_total_size = 0\<rparr>] else cs, s)"
    and d: "concat (map rd_chunk cs) = d" and c: "\<forall>c \<in> set cs. \<not> rd_is_last c \<and> length (rd_chunk c) \<le> CHUNK_SIZE"
    using read_chunks_no_fault [of s d "[]"] assms(3) unfolding s_def append_Nil by blast
  define cs' where "cs' = (if cs = [] then [\<lparr>rd_chunk = [], rd_is_last = True, rd_total_size = 0\<rparr>] else cs)"
  have cs': "\<forall>c \<in> set cs'. \<not> rd_is_last c \<or> cs' = [c]" "concat (map rd_chunk cs') = d" "cs' \<noteq> []"
    "\<forall>x \<in> set (map rd_chunk cs'). length x \<le> CHUNK_SIZE" using c d by (auto simp: cs'_def)
  note m = mark_ends_facts [OF cs'(1)]
  have "service_read_object sha256_hex svc key = (Inr (mark_ends cs'), svc)"
    using g r by (simp add: service_read_object_def cs'_def s_def)
  moreover have "\<forall>c \<in> set (mark_ends cs'). length (rd_chunk c) \<le> CHUNK_SIZE" using m(4) cs'(4) by (metis image_eqI set_map)
  moreover have "mark_ends cs' \<noteq> []" using m(4) cs'(3) by auto
  ultimately show ?thesis using m cs' by auto
qed

definition example_stored :: "data \<Rightarrow> ReplicationService" where
  "example_stored d = example_service\<lparr>svc_fs := example_fs\<lparr>fs_files :=
     [(object_path_from_id (layout example_storage) (example_sha (as_bytes ''b/one'')), \<lparr>f_data = d, f_mtime = 4\<rparr>)]\<rparr>\<rparr>"

lemma example_stored_view: "service_view example_sha (example_stored d) ''b/one'' = Some d"
  by (simp add: service_view_def object_view_fs_def example_stored_def example_service_def ReplicationService_new_def)

theorem remote_read_complete_witness:
  "\<exists>chunks. service_read_object example_sha (example_stored [1, 2, 3]) ''b/one'' = (Inr chunks, example_stored [1, 2, 3])
    \<and> streaming_reader chunks = [1, 2, 3]"
proof -
  have v: "valid_key ''b/one''" by code_simp
  have f: "fs_faults (svc_fs (example_stored [1, 2, 3])) = []"
    by (simp add: example_stored_def example_service_def ReplicationService_new_def example_fs_def)
  from remote_read_complete [OF v example_stored_view f] show ?thesis by blast
qed

text \<open>
  A read error on the replica is not reported. When reading the file fails after some complete
  blocks, the service answers with these blocks, marks the last of them as the end of the object,
  and the client's reader ends normally with the truncated contents.
\<close>

theorem failed_read_looks_complete:
  assumes "valid_key key" and "service_view sha256_hex svc key = Some d"
    and "fs_faults (svc_fs svc) = None # replicate m None @ Some e # fa"
    and "0 < m" and "m * CHUNK_SIZE \<le> length d"
  shows "\<exists>chunks svc'. service_read_object sha256_hex svc key = (Inr chunks, svc')
    \<and> streaming_reader chunks = take (m * CHUNK_SIZE) d \<and> rd_is_last (List.last chunks)
    \<and> rd_total_size (hd chunks) = of_nat (m * CHUNK_SIZE)"
proof -
  define s where "s = (svc_fs svc)\<lparr>fs_faults := replicate m None @ Some e # fa\<rparr>"
  have g: "get_object sha256_hex (svc_storage svc) (svc_fs svc) key = (Inr d, s)"
    using get_object_stored [OF assms(1,2)] assms(3) by (simp add: s_def)
  from read_chunks_run [of s m "Some e # fa" d "[]"] assms(5) obtain cs where
    cs: "read_chunks s d [] = read_chunks (s\<lparr>fs_faults := Some e # fa\<rparr>) (drop (m * CHUNK_SIZE) d) cs"
      "concat (map rd_chunk cs) = take (m * CHUNK_SIZE) d" "\<forall>c \<in> set cs. \<not> rd_is_last c" by (auto simp: s_def)
  have r: "read_chunks s d [] = (cs, s\<lparr>fs_faults := fa\<rparr>)"
    unfolding cs(1) by (subst read_chunks.simps) (simp add: next_fault_def)
  have "cs \<noteq> []"
  proof
    assume "cs = []"
    with cs(2) have "m * CHUNK_SIZE = 0 \<or> d = []" by auto
    with assms(4,5) show False by auto
  qed
  with mark_ends_facts [of cs] cs(2,3) g r assms(5) show ?thesis
    by (simp add: service_read_object_def)
qed

theorem failed_read_looks_complete_witness:
  "let svc = example_stored (replicate (2 * CHUNK_SIZE) 0);
       faulty = svc\<lparr>svc_fs := (svc_fs svc)\<lparr>fs_faults := [None, None, Some (io_other ''input/output error'', 0)]\<rparr>\<rparr>
   in \<exists>chunks svc'. service_read_object example_sha faulty ''b/one'' = (Inr chunks, svc')
        \<and> streaming_reader chunks = replicate CHUNK_SIZE 0 \<and> rd_is_last (List.last chunks)"
proof -
  let ?d = "replicate (2 * CHUNK_SIZE) (0 :: u8)"
  let ?f = "(example_stored ?d)\<lparr>svc_fs := (svc_fs (example_stored ?d))
    \<lparr>fs_faults := [None, None, Some (io_other ''input/output error'', 0)]\<rparr>\<rparr>"
  have v: "valid_key ''b/one''" by code_simp
  have w: "service_view example_sha ?f ''b/one'' = Some ?d"
    using example_stored_view [of ?d] by (simp add: service_view_def object_view_fs_def)
  have f: "fs_faults (svc_fs ?f) = None # replicate 1 None @ Some (io_other ''input/output error'', 0) # []" by simp
  have t: "take (1 * CHUNK_SIZE) ?d = replicate CHUNK_SIZE 0" by simp
  from failed_read_looks_complete [OF v w f] show ?thesis unfolding t Let_def by auto
qed

end
