(* ===== verification/Repl_Coordinator.thy ===== *)
theory Repl_Coordinator
  imports Repl_Client
begin

text \<open>
  The coordinator of replicated writes, \<open>crates/save-storage/src/replication/coordinator.rs\<close>. A write is prepared on the selected
  replicas, and when enough of them have it, installed locally and committed on them; otherwise it
  is aborted.

  The table of clients is a list in the order in which the source's hash table happens to be
  iterated. Tasks that the source spawns for different nodes act on different nodes, so they are
  run here one after the other; the abort tasks, which are not waited for, run before the operation
  returns, and an abort that has not run yet is one whose request is lost.
\<close>

section \<open>Configuration and state\<close>

record QuorumConfig =
  replication_factor :: nat
  write_quorum :: nat
  read_quorum :: nat

definition with_replication_factor :: "nat \<Rightarrow> QuorumConfig" where
  "with_replication_factor n = \<lparr>replication_factor = n, write_quorum = n div 2 + 1, read_quorum = 1\<rparr>"

definition QuorumConfig_default :: QuorumConfig where
  "QuorumConfig_default = with_replication_factor 3"

record ReplicationResult =
  success_count :: nat
  failure_count :: nat
  quorum_achieved :: bool
  successful_nodes :: "u64 list"
  failed_nodes :: "(u64 \<times> string) list"

record PreparedWrite =
  pw_key :: string
  pw_checksum :: string
  pw_request_id :: u64
  temp_ids :: "(u64 \<times> string) list"

record PreparePhaseResult =
  pr_prepared :: PreparedWrite
  pr_success_count :: nat
  pr_successful_nodes :: "u64 list"
  pr_failed_nodes :: "(u64 \<times> string) list"

text \<open>\<open>co_tls\<close> is the outcome of loading the TLS configuration, when there is one.\<close>

record ReplicationCoordinator =
  local_node_id :: u64
  co_config :: QuorumConfig
  co_retry_config :: RetryConfig
  co_tls :: "(StorageError + unit) option"
  clients :: "(u64 \<times> peer) list"
  request_counter :: u64

definition ReplicationCoordinator_new :: "u64 \<Rightarrow> QuorumConfig \<Rightarrow> ReplicationCoordinator" where
  "ReplicationCoordinator_new node_id config =
     \<lparr>local_node_id = node_id, co_config = config, co_retry_config = RetryConfig_default, co_tls = None,
      clients = [], request_counter = 1\<rparr>"

section \<open>Membership\<close>

text \<open>\<open>reach\<close> is the node that answers at an address, with the network to it.\<close>

definition add_node ::
  "(string \<Rightarrow> ReplicationService \<times> delivery list) \<Rightarrow> ReplicationCoordinator \<Rightarrow> u64 \<Rightarrow> string
     \<Rightarrow> (StorageError + unit) \<times> ReplicationCoordinator" where
  "add_node reach co node_id addr =
     (if node_id = local_node_id co then (Inr (), co)
      else
        (let client = (ReplicationClient_new node_id addr)\<lparr>cl_retry_config := co_retry_config co\<rparr>;
             p = \<lparr>p_client = client, p_service = fst (reach addr), p_link = snd (reach addr)\<rparr> in
         case co_tls co of
           Some (Inl e) \<Rightarrow> (Inl e, co)
         | _ \<Rightarrow> (Inr (), co\<lparr>clients := AList.update node_id p (clients co)\<rparr>)))"

definition remove_node :: "ReplicationCoordinator \<Rightarrow> u64 \<Rightarrow> ReplicationCoordinator" where
  "remove_node co node_id = co\<lparr>clients := AList.delete node_id (clients co)\<rparr>"

definition connected_nodes :: "ReplicationCoordinator \<Rightarrow> u64 list" where
  "connected_nodes co = map fst (clients co)"

fun add_new_nodes ::
  "(string \<Rightarrow> ReplicationService \<times> delivery list) \<Rightarrow> u64 list \<Rightarrow> ReplicationCoordinator \<Rightarrow> (u64 \<times> string) list
     \<Rightarrow> (StorageError + unit) \<times> ReplicationCoordinator" where
  "add_new_nodes reach current co [] = (Inr (), co)"
| "add_new_nodes reach current co ((node_id, addr) # nodes) =
     (if node_id \<in> set current then add_new_nodes reach current co nodes
      else
        (case add_node reach co node_id addr of
           (Inl e, co') \<Rightarrow> (Inl e, co')
         | (Inr _, co') \<Rightarrow> add_new_nodes reach current co' nodes))"

definition sync_nodes ::
  "(string \<Rightarrow> ReplicationService \<times> delivery list) \<Rightarrow> ReplicationCoordinator \<Rightarrow> (u64 \<times> string) list
     \<Rightarrow> (StorageError + unit) \<times> ReplicationCoordinator" where
  "sync_nodes reach co nodes =
     (let current = connected_nodes co;
          gone = filter (\<lambda>n. n \<notin> fst ` set nodes) current in
      add_new_nodes reach current (foldl remove_node co gone) nodes)"

section \<open>Choosing nodes and reading\<close>

text \<open>The loops visit the clients in order; a visited peer may have used up some of its link.\<close>

fun select_loop :: "nat \<Rightarrow> u64 list \<Rightarrow> (u64 \<times> peer) list \<Rightarrow> u64 list \<times> (u64 \<times> peer) list" where
  "select_loop needed healthy [] = (healthy, [])"
| "select_loop needed healthy ((node_id, p) # ps) =
     (if length healthy \<ge> needed then (healthy, (node_id, p) # ps)
      else
        (case is_healthy p of
           (ok, p') \<Rightarrow>
             (case select_loop needed (if ok then healthy @ [node_id] else healthy) ps of
                (sel, ps') \<Rightarrow> (sel, (node_id, p') # ps'))))"

definition select_replica_nodes :: "ReplicationCoordinator \<Rightarrow> nat \<Rightarrow> u64 list \<times> ReplicationCoordinator" where
  "select_replica_nodes co count =
     (let needed = count - 1 in
      if needed = 0 then ([], co)
      else (case select_loop needed [] (clients co) of (sel, ps) \<Rightarrow> (sel, co\<lparr>clients := ps\<rparr>)))"

definition coordinator_health_check ::
  "ReplicationCoordinator \<Rightarrow> u64 \<Rightarrow> (StorageError + bool) \<times> ReplicationCoordinator" where
  "coordinator_health_check co node_id =
     (case map_of (clients co) node_id of
        Some p \<Rightarrow>
          (case is_healthy p of (b, p') \<Rightarrow> (Inr b, co\<lparr>clients := AList.update node_id p' (clients co)\<rparr>))
      | None \<Rightarrow>
          (Inl (StorageIo (io_other (''Node '' @ nat_str (unat node_id) @ '' not found''))), co))"

fun read_loop ::
  "(data \<Rightarrow> string) \<Rightarrow> string \<Rightarrow> nat \<Rightarrow> nat \<Rightarrow> (u64 \<times> peer) list \<Rightarrow> data option \<times> (u64 \<times> peer) list" where
  "read_loop sha256_hex key required attempts [] = (None, [])"
| "read_loop sha256_hex key required attempts ((node_id, p) # ps) =
     (case is_healthy p of
        (False, p') \<Rightarrow>
          (case read_loop sha256_hex key required attempts ps of (r, ps') \<Rightarrow> (r, (node_id, p') # ps'))
      | (True, p') \<Rightarrow>
          (case client_read_object_stream sha256_hex p' key of
             (Inr d, p'') \<Rightarrow>
               if attempts + 1 \<ge> required then (Some d, (node_id, p'') # ps)
               else
                 (case read_loop sha256_hex key required (attempts + 1) ps of
                    (r, ps') \<Rightarrow> (r, (node_id, p'') # ps'))
           | (Inl _, p'') \<Rightarrow>
               (case read_loop sha256_hex key required attempts ps of
                  (r, ps') \<Rightarrow> (r, (node_id, p'') # ps'))))"

definition read_from_replica ::
  "(data \<Rightarrow> string) \<Rightarrow> ReplicationCoordinator \<Rightarrow> string \<Rightarrow> data option \<times> ReplicationCoordinator" where
  "read_from_replica sha256_hex co key =
     (case read_loop sha256_hex key (read_quorum (co_config co)) 0 (clients co) of
        (r, ps) \<Rightarrow> (r, co\<lparr>clients := ps\<rparr>))"

section \<open>The phases of a write\<close>

fun prepare_all ::
  "(data \<Rightarrow> string) \<Rightarrow> (u64 \<times> peer) list \<Rightarrow> u64 list \<Rightarrow> string \<Rightarrow> data \<Rightarrow> string \<Rightarrow> u64
     \<Rightarrow> (u64 \<times> (StorageError + string)) list \<times> (u64 \<times> peer) list" where
  "prepare_all sha256_hex ps [] key d checksum request_id = ([], ps)"
| "prepare_all sha256_hex ps (node_id # nodes) key d checksum request_id =
     (case map_of ps node_id of
        None \<Rightarrow> prepare_all sha256_hex ps nodes key d checksum request_id
      | Some p \<Rightarrow>
        (case client_prepare_object sha256_hex p key d checksum request_id of
           (r, p') \<Rightarrow>
             (case prepare_all sha256_hex (AList.update node_id p' ps) nodes key d checksum request_id of
                (rs, ps') \<Rightarrow> ((node_id, r) # rs, ps'))))"

fun stream_prepare_all ::
  "(data \<Rightarrow> string) \<Rightarrow> (u64 \<times> peer) list \<Rightarrow> fs \<Rightarrow> u64 list \<Rightarrow> string \<Rightarrow> path \<Rightarrow> string \<Rightarrow> u64
     \<Rightarrow> (u64 \<times> (StorageError + string)) list \<times> (u64 \<times> peer) list \<times> fs" where
  "stream_prepare_all sha256_hex ps s [] key file_path checksum request_id = ([], ps, s)"
| "stream_prepare_all sha256_hex ps s (node_id # nodes) key file_path checksum request_id =
     (case map_of ps node_id of
        None \<Rightarrow> stream_prepare_all sha256_hex ps s nodes key file_path checksum request_id
      | Some p \<Rightarrow>
        (case client_stream_prepare_object sha256_hex p s key request_id file_path checksum of
           (r, p', s') \<Rightarrow>
             (case stream_prepare_all sha256_hex (AList.update node_id p' ps) s' nodes key file_path checksum request_id of
                (rs, ps', s'') \<Rightarrow> ((node_id, r) # rs, ps', s''))))"

fun commit_all ::
  "(u64 \<times> peer) list \<Rightarrow> (u64 \<times> string) list \<Rightarrow> string \<Rightarrow> u64
     \<Rightarrow> (u64 \<times> (StorageError + unit)) list \<times> (u64 \<times> peer) list" where
  "commit_all ps [] key request_id = ([], ps)"
| "commit_all ps ((node_id, temp_id) # ts) key request_id =
     (case map_of ps node_id of
        None \<Rightarrow> commit_all ps ts key request_id
      | Some p \<Rightarrow>
        (case client_commit_object p key temp_id request_id of
           (r, p') \<Rightarrow>
             (case commit_all (AList.update node_id p' ps) ts key request_id of
                (rs, ps') \<Rightarrow> ((node_id, r) # rs, ps'))))"

fun abort_all :: "(u64 \<times> peer) list \<Rightarrow> (u64 \<times> string) list \<Rightarrow> string \<Rightarrow> u64 \<Rightarrow> (u64 \<times> peer) list" where
  "abort_all ps [] key request_id = ps"
| "abort_all ps ((node_id, temp_id) # ts) key request_id =
     (case map_of ps node_id of
        None \<Rightarrow> abort_all ps ts key request_id
      | Some p \<Rightarrow>
        (case client_abort_object p key temp_id request_id of
           (_, p') \<Rightarrow> abort_all (AList.update node_id p' ps) ts key request_id))"

fun process_loop :: "PreparePhaseResult \<Rightarrow> (u64 \<times> (StorageError + string)) list \<Rightarrow> PreparePhaseResult" where
  "process_loop acc [] = acc"
| "process_loop acc ((node_id, Inr temp_id) # rs) =
     process_loop (acc\<lparr>pr_prepared := (pr_prepared acc)\<lparr>temp_ids := AList.update node_id temp_id (temp_ids (pr_prepared acc))\<rparr>,
                       pr_successful_nodes := pr_successful_nodes acc @ [node_id],
                       pr_success_count := pr_success_count acc + 1\<rparr>) rs"
| "process_loop acc ((node_id, Inl e) # rs) =
     process_loop (acc\<lparr>pr_failed_nodes := pr_failed_nodes acc @ [(node_id, StorageError_to_string e)]\<rparr>) rs"

definition process_prepare_results ::
  "ReplicationCoordinator \<Rightarrow> string \<Rightarrow> string \<Rightarrow> u64 \<Rightarrow> (u64 \<times> (StorageError + string)) list \<Rightarrow> PreparePhaseResult" where
  "process_prepare_results co key checksum request_id prepare_results =
     process_loop
       \<lparr>pr_prepared = \<lparr>pw_key = key, pw_checksum = checksum, pw_request_id = request_id, temp_ids = []\<rparr>,
        pr_success_count = 1, pr_successful_nodes = [local_node_id co], pr_failed_nodes = []\<rparr>
       prepare_results"

text \<open>
  The local write is a future: it is run, or dropped without having run, which drops what it owns.
\<close>

record local_op =
  run_local :: "fs \<Rightarrow> (StorageError + unit) \<times> fs"
  drop_local :: "fs \<Rightarrow> fs"

definition phase_result :: "PreparePhaseResult \<Rightarrow> bool \<Rightarrow> ReplicationResult" where
  "phase_result pr achieved =
     \<lparr>success_count = pr_success_count pr, failure_count = length (pr_failed_nodes pr),
      quorum_achieved = achieved, successful_nodes = pr_successful_nodes pr, failed_nodes = pr_failed_nodes pr\<rparr>"

definition complete_2pc_write ::
  "ReplicationCoordinator \<Rightarrow> fs \<Rightarrow> PreparePhaseResult \<Rightarrow> local_op
     \<Rightarrow> (StorageError + ReplicationResult) \<times> ReplicationCoordinator \<times> fs" where
  "complete_2pc_write co s pr local_write =
     (let prepared = pr_prepared pr in
      if pr_success_count pr < write_quorum (co_config co) then
        (Inr (phase_result pr False),
         co\<lparr>clients := abort_all (clients co) (temp_ids prepared) (pw_key prepared) (pw_request_id prepared)\<rparr>,
         drop_local local_write s)
      else
        (case run_local local_write s of
           (Inl e, s') \<Rightarrow>
             (Inl e,
              co\<lparr>clients := abort_all (clients co) (temp_ids prepared) (pw_key prepared) (pw_request_id prepared)\<rparr>, s')
         | (Inr _, s') \<Rightarrow>
             (Inr (phase_result pr True),
              co\<lparr>clients := snd (commit_all (clients co) (temp_ids prepared) (pw_key prepared) (pw_request_id prepared))\<rparr>,
              s')))"

section \<open>Replicated operations\<close>

definition next_request_id :: "ReplicationCoordinator \<Rightarrow> u64 \<times> ReplicationCoordinator" where
  "next_request_id co = (request_counter co, co\<lparr>request_counter := request_counter co + 1\<rparr>)"

definition replicate_write ::
  "(data \<Rightarrow> string) \<Rightarrow> ReplicationCoordinator \<Rightarrow> fs \<Rightarrow> string \<Rightarrow> data \<Rightarrow> local_op
     \<Rightarrow> (StorageError + ReplicationResult) \<times> ReplicationCoordinator \<times> fs" where
  "replicate_write sha256_hex co s key d local_write =
     (case next_request_id co of
        (request_id, co1) \<Rightarrow>
        (let checksum = sha256_hex d in
         case select_replica_nodes co1 (replication_factor (co_config co1)) of
           (nodes, co2) \<Rightarrow>
           (case prepare_all sha256_hex (clients co2) nodes key d checksum request_id of
              (results, ps) \<Rightarrow>
                complete_2pc_write (co2\<lparr>clients := ps\<rparr>) s
                  (process_prepare_results co2 key checksum request_id results) local_write)))"

definition replicate_write_streaming ::
  "(data \<Rightarrow> string) \<Rightarrow> ReplicationCoordinator \<Rightarrow> fs \<Rightarrow> string \<Rightarrow> path \<Rightarrow> string \<Rightarrow> local_op
     \<Rightarrow> (StorageError + ReplicationResult) \<times> ReplicationCoordinator \<times> fs" where
  "replicate_write_streaming sha256_hex co s key file_path checksum local_write =
     (case next_request_id co of
        (request_id, co1) \<Rightarrow>
        (case select_replica_nodes co1 (replication_factor (co_config co1)) of
           (nodes, co2) \<Rightarrow>
           (case stream_prepare_all sha256_hex (clients co2) s nodes key file_path checksum request_id of
              (results, ps, s1) \<Rightarrow>
                complete_2pc_write (co2\<lparr>clients := ps\<rparr>) s1
                  (process_prepare_results co2 key checksum request_id results) local_write)))"

fun delete_all_replicas ::
  "(data \<Rightarrow> string) \<Rightarrow> (u64 \<times> peer) list \<Rightarrow> string \<Rightarrow> u64
     \<Rightarrow> (u64 \<times> (StorageError + bool)) list \<times> (u64 \<times> peer) list" where
  "delete_all_replicas sha256_hex [] key request_id = ([], [])"
| "delete_all_replicas sha256_hex ((node_id, p) # ps) key request_id =
     (case client_delete_object sha256_hex p key request_id of
        (r, p') \<Rightarrow>
        (case delete_all_replicas sha256_hex ps key request_id of
           (rs, ps') \<Rightarrow> ((node_id, r) # rs, (node_id, p') # ps')))"

fun delete_loop :: "ReplicationResult \<Rightarrow> (u64 \<times> (StorageError + bool)) list \<Rightarrow> ReplicationResult" where
  "delete_loop acc [] = acc"
| "delete_loop acc ((node_id, Inr _) # rs) =
     delete_loop (acc\<lparr>success_count := success_count acc + 1,
                      successful_nodes := successful_nodes acc @ [node_id]\<rparr>) rs"
| "delete_loop acc ((node_id, Inl e) # rs) =
     delete_loop (acc\<lparr>failed_nodes := failed_nodes acc @ [(node_id, StorageError_to_string e)]\<rparr>) rs"

definition replicate_delete ::
  "(data \<Rightarrow> string) \<Rightarrow> ReplicationCoordinator \<Rightarrow> fs \<Rightarrow> string \<Rightarrow> (fs \<Rightarrow> (StorageError + unit) \<times> fs)
     \<Rightarrow> (StorageError + ReplicationResult) \<times> ReplicationCoordinator \<times> fs" where
  "replicate_delete sha256_hex co s key local_delete =
     (case next_request_id co of
        (request_id, co1) \<Rightarrow>
        (case local_delete s of
           (Inl e, s') \<Rightarrow> (Inl e, co1, s')
         | (Inr _, s') \<Rightarrow>
           (case delete_all_replicas sha256_hex (clients co1) key request_id of
              (rs, ps) \<Rightarrow>
              (let acc = delete_loop \<lparr>success_count = 1, failure_count = 0, quorum_achieved = False,
                           successful_nodes = [local_node_id co1], failed_nodes = []\<rparr> rs in
               (Inr (acc\<lparr>failure_count := length (failed_nodes acc),
                         quorum_achieved := (success_count acc \<ge> write_quorum (co_config co1))\<rparr>),
                co1\<lparr>clients := ps\<rparr>, s')))))"

section \<open>What the operations do to the nodes\<close>

text \<open>The clients stay the same, and each node goes through steps that satisfy \<open>P\<close>.\<close>

definition peers_steps ::
  "(data \<Rightarrow> string) \<Rightarrow> (replica_step \<Rightarrow> bool) \<Rightarrow> (u64 \<times> peer) list \<Rightarrow> (u64 \<times> peer) list \<Rightarrow> bool" where
  "peers_steps sha256_hex P = list_all2 (\<lambda>a b. fst a = fst b
     \<and> service_steps sha256_hex P (p_service (snd a)) (p_service (snd b)))"

lemma peers_steps_refl [simp]: "peers_steps sha P ps ps"
  by (simp add: peers_steps_def list_all2_same)

lemma peers_steps_trans: "peers_steps sha P ps qs \<Longrightarrow> peers_steps sha P qs rs \<Longrightarrow> peers_steps sha P ps rs"
  unfolding peers_steps_def by (erule list_all2_trans [rotated, rotated]) (auto intro: service_steps_trans)

lemma peers_steps_mono: "peers_steps sha P ps qs \<Longrightarrow> (\<And>x. P x \<Longrightarrow> Q x) \<Longrightarrow> peers_steps sha Q ps qs"
  unfolding peers_steps_def by (erule list_all2_mono) (auto elim: service_steps_mono)

lemma peers_steps_fst: "peers_steps sha P ps qs \<Longrightarrow> map fst qs = map fst ps"
  unfolding peers_steps_def by (induction rule: list_all2_induct) auto

lemma peers_steps_lookup:
  assumes "peers_steps sha P ps qs" and "map_of qs n = Some q"
  shows "\<exists>p. map_of ps n = Some p \<and> service_steps sha P (p_service p) (p_service q)"
  using assms unfolding peers_steps_def by (induction rule: list_all2_induct) (auto split: if_splits)

lemma peers_steps_update:
  "map_of ps n = Some p \<Longrightarrow> service_steps sha P (p_service p) (p_service p') \<Longrightarrow>
     peers_steps sha P ps (AList.update n p' ps)"
  by (induction ps) (auto simp: peers_steps_def list_all2_same split: if_splits)

lemma select_loop_facts:
  "select_loop needed healthy ps = (sel, qs) \<Longrightarrow> peers_steps sha P ps qs
     \<and> (\<exists>xs. sel = healthy @ xs \<and> subseq xs (map fst ps)) \<and> length sel \<le> max needed (length healthy)"
proof (induction needed healthy ps arbitrary: sel qs rule: select_loop.induct)
  case (2 needed healthy n p ps)
  show ?case
  proof (cases "needed \<le> length healthy")
    case True
    with 2 show ?thesis by auto
  next
    case False
    obtain b p' where h: "is_healthy p = (b, p')" by fastforce
    obtain sel' ps' where r: "select_loop needed (if b then healthy @ [n] else healthy) ps = (sel', ps')" by fastforce
    from 2(1) [OF False h [symmetric] r] is_healthy_service [OF h] 2(2) h r False
    show ?thesis by (auto simp: peers_steps_def split: if_splits)
  qed
qed (simp add: peers_steps_def)

lemma select_replica_nodes_facts:
  assumes "select_replica_nodes co count = (sel, co')"
  shows "peers_steps sha P (clients co) (clients co') \<and> subseq sel (map fst (clients co)) \<and> length sel \<le> count - 1
    \<and> local_node_id co' = local_node_id co \<and> co_config co' = co_config co"
proof (cases "count - 1 = 0")
  case False
  obtain qs where q: "select_loop (count - 1) [] (clients co) = (sel, qs)" "co' = co\<lparr>clients := qs\<rparr>"
    using assms False by (auto simp: select_replica_nodes_def split: prod.splits)
  from select_loop_facts [OF q(1)] q(2) show ?thesis by auto
qed (use assms in \<open>auto simp: select_replica_nodes_def\<close>)

lemma prepare_all_facts:
  assumes "prepare_all sha ps nodes key d checksum i = (rs, qs)"
    and "P (PrepareStep (PrepareWhole \<lparr>wr_key = key, wr_data = d, wr_checksum = checksum, wr_request_id = i\<rparr>))"
  shows "peers_steps sha P ps qs \<and> subseq (map fst rs) nodes"
  using assms
proof (induction nodes arbitrary: ps rs qs)
  case (Cons n nodes)
  show ?case
  proof (cases "map_of ps n")
    case None
    with Cons show ?thesis by auto
  next
    case (Some p)
    obtain r p' where c: "client_prepare_object sha p key d checksum i = (r, p')" by fastforce
    obtain rs' where r: "prepare_all sha (AList.update n p' ps) nodes key d checksum i = (rs', qs)" "rs = (n, r) # rs'"
      using Cons.prems(1) Some c by (auto split: prod.splits)
    from Cons.IH [OF r(1) Cons.prems(2)] r(2)
      peers_steps_update [OF Some prepare_steps [OF c, of P, OF Cons.prems(2)]] show ?thesis
      by (auto intro: peers_steps_trans)
  qed
qed simp

lemma stream_prepare_all_facts:
  assumes "stream_prepare_all sha ps s nodes key path checksum i = (rs, qs, s')"
    and "fs_faults s = []" and "files s path = Some f"
    and "\<And>r. prepare_data r = f_data f \<Longrightarrow> prepare_key r \<in> {[], key} \<Longrightarrow> P (PrepareStep r)"
  shows "peers_steps sha P ps qs \<and> subseq (map fst rs) nodes \<and> s' = s"
  using assms(1)
proof (induction nodes arbitrary: ps rs qs)
  case (Cons n nodes)
  show ?case
  proof (cases "map_of ps n")
    case None
    with Cons show ?thesis by auto
  next
    case (Some p)
    obtain r p' s1 where c: "client_stream_prepare_object sha p s key i path checksum = (r, p', s1)" by (cases rule: prod_cases3)
    have "P (PrepareStep (PrepareStream (fst (file_chunks s path key i checksum))))"
      using file_chunks_no_fault [OF assms(2,3), of key i checksum] by (intro assms(4)) (auto split: if_splits)
    note st = stream_prepare_steps [OF c, of P, OF this]
    with file_chunks_no_fault(1) [OF assms(2,3)] have s1: "s1 = s" by metis
    obtain rs' where r: "stream_prepare_all sha (AList.update n p' ps) s nodes key path checksum i = (rs', qs, s')"
      "rs = (n, r) # rs'" using Cons.prems(1) Some c s1 by (auto split: prod.splits)
    from Cons.IH [OF r(1)] r(2) peers_steps_update [OF Some st(1)] show ?thesis
      by (auto intro: peers_steps_trans)
  qed
qed simp

lemma commit_all_steps:
  assumes "commit_all ps ts key i = (rs, qs)"
    and "\<And>t. P (CommitStep \<lparr>cm_key = key, cm_temp_id = t, cm_request_id = i\<rparr>)"
  shows "peers_steps sha P ps qs"
  using assms(1)
proof (induction ts arbitrary: ps rs qs)
  case (Cons nt ts)
  obtain n t where nt: "nt = (n, t)" by fastforce
  show ?case
  proof (cases "map_of ps n")
    case None
    with Cons nt show ?thesis by auto
  next
    case (Some p)
    obtain r p' where c: "client_commit_object p key t i = (r, p')" by fastforce
    obtain rs' where r: "commit_all (AList.update n p' ps) ts key i = (rs', qs)"
      using Cons.prems nt Some c by (auto split: prod.splits)
    have "service_steps sha P (p_service p) (p_service p')" by (rule commit_steps [OF c]) (rule assms(2))
    from peers_steps_trans [OF peers_steps_update [OF Some this] Cons.IH [OF r]] show ?thesis .
  qed
qed simp

lemma abort_all_steps:
  assumes "\<And>t. P (AbortStep \<lparr>cm_key = key, cm_temp_id = t, cm_request_id = i\<rparr>)"
  shows "peers_steps sha P ps (abort_all ps ts key i)"
proof (induction ts arbitrary: ps)
  case (Cons nt ts)
  obtain n t where nt: "nt = (n, t)" by fastforce
  show ?case
  proof (cases "map_of ps n")
    case None
    with Cons nt show ?thesis by auto
  next
    case (Some p)
    obtain r p' where c: "client_abort_object p key t i = (r, p')" by fastforce
    have "service_steps sha P (p_service p) (p_service p')" by (rule abort_steps [OF c]) (rule assms)
    from peers_steps_trans [OF peers_steps_update [OF Some this] Cons.IH] nt Some c show ?thesis by simp
  qed
qed simp

lemma process_loop_facts:
  "pr_success_count (process_loop acc rs) = pr_success_count acc + length (filter (\<lambda>(_, r). \<not> isl r) rs)
   \<and> pr_successful_nodes (process_loop acc rs) = pr_successful_nodes acc @ map fst (filter (\<lambda>(_, r). \<not> isl r) rs)
   \<and> length (pr_failed_nodes (process_loop acc rs)) = length (pr_failed_nodes acc) + length (filter (\<lambda>(_, r). isl r) rs)
   \<and> pw_key (pr_prepared (process_loop acc rs)) = pw_key (pr_prepared acc)
   \<and> pw_request_id (pr_prepared (process_loop acc rs)) = pw_request_id (pr_prepared acc)"
  by (induction acc rs rule: process_loop.induct) auto

lemma process_prepare_results_facts:
  "pr_success_count (process_prepare_results co key checksum i rs) = Suc (length (filter (\<lambda>(_, r). \<not> isl r) rs))"
  "pr_successful_nodes (process_prepare_results co key checksum i rs)
     = local_node_id co # map fst (filter (\<lambda>(_, r). \<not> isl r) rs)"
  "length (pr_failed_nodes (process_prepare_results co key checksum i rs)) = length (filter (\<lambda>(_, r). isl r) rs)"
  "pw_key (pr_prepared (process_prepare_results co key checksum i rs)) = key"
  "pw_request_id (pr_prepared (process_prepare_results co key checksum i rs)) = i"
  by (simp_all add: process_prepare_results_def process_loop_facts)

text \<open>The end of a write: nothing is committed unless the quorum is reached and the local write succeeds.\<close>

lemma complete_2pc_write_facts:
  assumes "complete_2pc_write co s pr lw = (r, co', s')"
    and "\<And>t. P (AbortStep \<lparr>cm_key = pw_key (pr_prepared pr), cm_temp_id = t, cm_request_id = pw_request_id (pr_prepared pr)\<rparr>)"
    and "\<And>t. Q (CommitStep \<lparr>cm_key = pw_key (pr_prepared pr), cm_temp_id = t, cm_request_id = pw_request_id (pr_prepared pr)\<rparr>)"
  shows "(pr_success_count pr < write_quorum (co_config co) \<and> r = Inr (phase_result pr False)
      \<and> s' = drop_local lw s \<and> peers_steps sha P (clients co) (clients co'))
    \<or> (write_quorum (co_config co) \<le> pr_success_count pr \<and> (\<exists>e. r = Inl e \<and> run_local lw s = (Inl e, s'))
      \<and> peers_steps sha P (clients co) (clients co'))
    \<or> (write_quorum (co_config co) \<le> pr_success_count pr \<and> r = Inr (phase_result pr True)
      \<and> run_local lw s = (Inr (), s') \<and> peers_steps sha Q (clients co) (clients co'))"
proof -
  let ?w = "pr_prepared pr"
  have a: "peers_steps sha P (clients co) (abort_all (clients co) (temp_ids ?w) (pw_key ?w) (pw_request_id ?w))"
    by (rule abort_all_steps) (rule assms(2))
  have c: "peers_steps sha Q (clients co) (snd (commit_all (clients co) (temp_ids ?w) (pw_key ?w) (pw_request_id ?w)))"
    by (rule commit_all_steps [OF surjective_pairing]) (rule assms(3))
  show ?thesis
  proof (cases "pr_success_count pr < write_quorum (co_config co)")
    case True
    with assms(1) a show ?thesis by (auto simp: complete_2pc_write_def Let_def)
  next
    case False
    obtain x s1 where x: "run_local lw s = (x, s1)" by fastforce
    with False assms(1) a c show ?thesis by (cases x) (auto simp: complete_2pc_write_def Let_def)
  qed
qed

section \<open>Membership and quorums\<close>

definition coordinator_inv :: "ReplicationCoordinator \<Rightarrow> bool" where
  "coordinator_inv co \<longleftrightarrow> distinct (map fst (clients co)) \<and> local_node_id co \<notin> set (map fst (clients co))"

lemma remove_nodes_clients:
  "clients (foldl remove_node co ns) = filter (\<lambda>(n, _). n \<notin> set ns) (clients co)
   \<and> local_node_id (foldl remove_node co ns) = local_node_id co"
  by (induction ns arbitrary: co)
    (auto simp: remove_node_def AList.delete_eq filter_filter intro!: filter_cong)

lemma add_node_facts:
  assumes "add_node reach co n addr = (Inr (), co')" and "coordinator_inv co"
  shows "coordinator_inv co' \<and> local_node_id co' = local_node_id co
    \<and> set (map fst (clients co')) = set (map fst (clients co)) \<union> ({n} - {local_node_id co})
    \<and> (\<forall>m. m \<noteq> n \<longrightarrow> map_of (clients co') m = map_of (clients co) m)"
proof (cases "n = local_node_id co")
  case True
  with assms show ?thesis by (simp add: add_node_def)
next
  case False
  then obtain p where "co' = co\<lparr>clients := AList.update n p (clients co)\<rparr>"
    using assms(1) by (auto simp: add_node_def Let_def split: option.splits sum.splits)
  moreover have "fst ` set (AList.update n p (clients co)) = insert n (fst ` set (clients co))" for p
    using dom_update [of n p "clients co"] by simp
  ultimately show ?thesis
    using False assms(2) by (simp add: coordinator_inv_def distinct_update update_conv')
qed

lemma add_new_nodes_facts:
  assumes "add_new_nodes reach current co nodes = (Inr (), co')" and "coordinator_inv co"
  shows "coordinator_inv co'
    \<and> set (map fst (clients co')) = set (map fst (clients co)) \<union> (fst ` set nodes - set current - {local_node_id co})
    \<and> (\<forall>m \<in> set current. map_of (clients co') m = map_of (clients co) m)"
  using assms
proof (induction nodes arbitrary: co)
  case (Cons na nodes)
  obtain n addr where na: "na = (n, addr)" by fastforce
  show ?case
  proof (cases "n \<in> set current")
    case True
    with Cons na show ?thesis by auto
  next
    case False
    with Cons.prems na obtain co1 where a: "add_node reach co n addr = (Inr (), co1)"
      and r: "add_new_nodes reach current co1 nodes = (Inr (), co')" by (auto split: prod.splits sum.splits)
    from add_node_facts [OF a Cons.prems(2)] have f: "coordinator_inv co1" "local_node_id co1 = local_node_id co"
      "set (map fst (clients co1)) = set (map fst (clients co)) \<union> ({n} - {local_node_id co})"
      "\<forall>m. m \<noteq> n \<longrightarrow> map_of (clients co1) m = map_of (clients co) m" by auto
    from Cons.IH [OF r f(1)] have g: "coordinator_inv co'"
      "set (map fst (clients co')) = set (map fst (clients co1)) \<union> (fst ` set nodes - set current - {local_node_id co1})"
      "\<forall>m \<in> set current. map_of (clients co') m = map_of (clients co1) m" by auto
    have "set (map fst (clients co')) = set (map fst (clients co)) \<union> (fst ` set (na # nodes) - set current - {local_node_id co})"
      unfolding g(2) f(2,3) na using False by (simp, blast)
    moreover have "\<forall>m \<in> set current. map_of (clients co') m = map_of (clients co) m" using g(3) f(4) False by metis
    ultimately show ?thesis using g(1) by blast
  qed
qed auto

lemma map_of_filter_fst: "P n \<Longrightarrow> map_of (filter (\<lambda>(n, _). P n) xs) n = map_of xs n"
  by (induction xs) auto

text \<open>
  After the coordinator has been synchronised with a list of members, it has clients for
  exactly these nodes without its own, one each, and the clients of nodes that were and remain
  members are kept as they are.
\<close>

theorem sync_nodes_membership:
  assumes "coordinator_inv co" and "sync_nodes reach co nodes = (Inr (), co')"
  shows "coordinator_inv co' \<and> set (connected_nodes co') = fst ` set nodes - {local_node_id co}
    \<and> (\<forall>n \<in> set (connected_nodes co) \<inter> fst ` set nodes. map_of (clients co') n = map_of (clients co) n)"
proof -
  let ?gone = "filter (\<lambda>n. n \<notin> fst ` set nodes) (connected_nodes co)"
  define co1 where "co1 = foldl remove_node co ?gone"
  have c1: "clients co1 = filter (\<lambda>(n, _). n \<notin> set ?gone) (clients co)" "local_node_id co1 = local_node_id co"
    using remove_nodes_clients [of co ?gone] by (simp_all add: co1_def)
  have s1: "set (map fst (clients co1)) = set (map fst (clients co)) \<inter> fst ` set nodes"
    by (force simp: c1 connected_nodes_def)
  have i1: "coordinator_inv co1"
    using assms(1) by (auto simp: coordinator_inv_def c1 distinct_map_filter)
  have m1: "map_of (clients co1) n = map_of (clients co) n" if "n \<notin> set ?gone" for n
    unfolding c1 using that by (rule map_of_filter_fst)
  from assms(2) have "add_new_nodes reach (connected_nodes co) co1 nodes = (Inr (), co')"
    by (simp add: sync_nodes_def Let_def co1_def)
  note f = add_new_nodes_facts [OF this i1, unfolded s1 c1(2)]
  have "set (connected_nodes co') = fst ` set nodes - {local_node_id co}"
    using f assms(1) unfolding coordinator_inv_def connected_nodes_def by blast
  moreover have "map_of (clients co') n = map_of (clients co) n"
    if "n \<in> set (connected_nodes co) \<inter> fst ` set nodes" for n
    using f m1 [of n] that by simp
  ultimately show ?thesis using f by blast
qed

theorem sync_nodes_membership_witness:
  "let co = ReplicationCoordinator_new 1 (with_replication_factor 3);
       co' = snd (sync_nodes (\<lambda>_. (example_service, [])) co [(1, ''a:1''), (2, ''b:1''), (3, ''c:1'')])
   in set (connected_nodes co') = {2, 3}"
proof -
  let ?co = "ReplicationCoordinator_new 1 (with_replication_factor 3)"
  let ?nodes = "[(1 :: u64, ''a:1''), (2, ''b:1''), (3, ''c:1'')]"
  have i: "coordinator_inv ?co" by code_simp
  have "fst (sync_nodes (\<lambda>_. (example_service, [])) ?co ?nodes) = Inr ()"
    by (simp add: sync_nodes_def add_node_def ReplicationCoordinator_new_def connected_nodes_def Let_def)
  then have s: "sync_nodes (\<lambda>_. (example_service, [])) ?co ?nodes
      = (Inr (), snd (sync_nodes (\<lambda>_. (example_service, [])) ?co ?nodes))" by (simp add: prod_eq_iff)
  from sync_nodes_membership [OF i s] show ?thesis
    by (auto simp: Let_def ReplicationCoordinator_new_def)
qed

lemma stream_prepare_all_nodes:
  "stream_prepare_all sha ps s nodes key path checksum i = (rs, qs, s') \<Longrightarrow> subseq (map fst rs) nodes"
proof (induction nodes arbitrary: ps s rs qs s')
  case (Cons n nodes)
  show ?case
  proof (cases "map_of ps n")
    case None
    with Cons show ?thesis by auto
  next
    case (Some p)
    obtain r p' s1 where c: "client_stream_prepare_object sha p s key i path checksum = (r, p', s1)" by (cases rule: prod_cases3)
    obtain rs' where r: "stream_prepare_all sha (AList.update n p' ps) s1 nodes key path checksum i = (rs', qs, s')"
      "rs = (n, r) # rs'" using Cons.prems Some c by (auto split: prod.splits)
    from Cons.IH [OF r(1)] r(2) show ?thesis by simp
  qed
qed simp

text \<open>The figures in the result of a write, from the results of its prepares.\<close>

definition accounted :: "ReplicationCoordinator \<Rightarrow> ReplicationResult \<Rightarrow> bool" where
  "accounted co res \<longleftrightarrow>
     success_count res = length (successful_nodes res) \<and> failure_count res = length (failed_nodes res)
     \<and> distinct (successful_nodes res)
     \<and> local_node_id co \<in> set (successful_nodes res)
     \<and> set (successful_nodes res) \<subseteq> insert (local_node_id co) (set (connected_nodes co))
     \<and> success_count res + failure_count res \<le> max 1 (replication_factor (co_config co))
     \<and> (quorum_achieved res \<longleftrightarrow> write_quorum (co_config co) \<le> success_count res)"

lemma subseq_set_distinct: "subseq xs ys \<Longrightarrow> set xs \<subseteq> set ys \<and> (distinct ys \<longrightarrow> distinct xs)"
  by (induction rule: list_emb.induct) auto

lemma filter_not_count: "length (filter (\<lambda>(_, r). \<not> isl r) rs) + length (filter (\<lambda>(_, r). isl r) rs) = length rs"
  by (induction rs) auto

lemma complete_accounted:
  assumes "coordinator_inv co" and "subseq nodes (map fst (clients co))" and "length nodes \<le> replication_factor (co_config co) - 1"
    and "subseq (map fst rs) nodes" and "local_node_id co1 = local_node_id co"
    and "co_config co2 = co_config co"
    and "complete_2pc_write co2 s (process_prepare_results co1 key checksum i rs) lw = (Inr res, co', s')"
  shows "accounted co res"
proof -
  let ?pr = "process_prepare_results co1 key checksum i rs"
  have r: "res = phase_result ?pr (write_quorum (co_config co) \<le> pr_success_count ?pr)"
    using complete_2pc_write_facts [OF assms(7), where P = "\<lambda>_. True" and Q = "\<lambda>_. True" and sha = "\<lambda>_. []"]
      assms(6) by auto
  have sub: "subseq (map fst rs) (map fst (clients co))" using assms(2,4) by (rule subseq_order.trans [rotated])
  then have d: "distinct (map fst rs)" "set (map fst rs) \<subseteq> set (map fst (clients co))"
    using assms(1) subseq_set_distinct [OF sub] by (auto simp: coordinator_inv_def)
  let ?ok = "filter (\<lambda>(_, r). \<not> isl r) rs"
  have "set (map fst ?ok) \<subseteq> set (map fst rs)" by auto
  with d(2) have n: "set (map fst ?ok) \<subseteq> set (map fst (clients co))" by (rule subset_trans [rotated])
  have "length rs \<le> length nodes" using list_emb_length [OF assms(4)] by simp
  with assms(3) filter_not_count [of rs]
  have c: "Suc (length ?ok) + length (filter (\<lambda>(_, r). isl r) rs) \<le> max 1 (replication_factor (co_config co))" by simp
  from r n c d(1) assms(1,5) show ?thesis
    by (auto simp: accounted_def phase_result_def process_prepare_results_facts coordinator_inv_def
        connected_nodes_def distinct_map_filter)
qed

lemma write_accounted_of_stream:
  assumes "coordinator_inv co" and w: "replicate_write_streaming sha256_hex co s key path checksum lw = (Inr res, co', s')"
  shows "accounted co res"
proof -
  let ?co1 = "co\<lparr>request_counter := request_counter co + 1\<rparr>"
  obtain nodes co2 where sel: "select_replica_nodes ?co1 (replication_factor (co_config co)) = (nodes, co2)" by fastforce
  obtain rs ps s1 where pr: "stream_prepare_all sha256_hex (clients co2) s nodes key path checksum (request_counter co) = (rs, ps, s1)"
    by (cases rule: prod_cases3)
  from w sel pr have c: "complete_2pc_write (co2\<lparr>clients := ps\<rparr>) s1
      (process_prepare_results co2 key checksum (request_counter co) rs) lw = (Inr res, co', s')"
    by (simp add: replicate_write_streaming_def next_request_id_def)
  from select_replica_nodes_facts [OF sel] stream_prepare_all_nodes [OF pr] show ?thesis
    by (intro complete_accounted [where nodes = nodes, OF assms(1) _ _ _ _ _ c]) auto
qed

lemma write_accounted_of_whole:
  assumes "coordinator_inv co" and w: "replicate_write sha256_hex co s key d lw = (Inr res, co', s')"
  shows "accounted co res"
proof -
  let ?co1 = "co\<lparr>request_counter := request_counter co + 1\<rparr>"
  obtain nodes co2 where sel: "select_replica_nodes ?co1 (replication_factor (co_config co)) = (nodes, co2)" by fastforce
  obtain rs ps where pr: "prepare_all sha256_hex (clients co2) nodes key d (sha256_hex d) (request_counter co) = (rs, ps)"
    by fastforce
  from w sel pr have c: "complete_2pc_write (co2\<lparr>clients := ps\<rparr>) s
      (process_prepare_results co2 key (sha256_hex d) (request_counter co) rs) lw = (Inr res, co', s')"
    by (simp add: replicate_write_def next_request_id_def Let_def)
  from select_replica_nodes_facts [OF sel] prepare_all_facts [OF pr, of "\<lambda>_. True"] show ?thesis
    by (intro complete_accounted [where nodes = nodes, OF assms(1) _ _ _ _ _ c]) auto
qed


definition example_peer :: "u64 \<Rightarrow> delivery list \<Rightarrow> peer" where
  "example_peer n link = \<lparr>p_client = ReplicationClient_new n ''peer:9000'', p_service = example_service, p_link = link\<rparr>"

definition example_coordinator :: "delivery list \<Rightarrow> ReplicationCoordinator" where
  "example_coordinator link =
     (ReplicationCoordinator_new 1 (with_replication_factor 3))\<lparr>clients := [(2, example_peer 2 []), (3, example_peer 3 link)]\<rparr>"

definition example_local :: local_op where
  "example_local = \<lparr>run_local = (\<lambda>s. (Inr (), s)), drop_local = (\<lambda>s. s)\<rparr>"


lemma majorities_meet:
  assumes "finite N" and "card N \<le> n" and "A \<subseteq> N" and "B \<subseteq> N" and "n div 2 + 1 \<le> card A" and "n div 2 + 1 \<le> card B"
  shows "A \<inter> B \<noteq> {}"
proof
  assume "A \<inter> B = {}"
  then have "card A + card B = card (A \<union> B)"
    using assms(1,3,4) by (simp add: card_Un_disjoint finite_subset)
  also have "\<dots> \<le> n" using assms(1-4) by (meson Un_least card_mono le_trans)
  finally show False using assms(5,6) by linarith
qed

text \<open>
  C25: Two writes, from any two nodes of a cluster of at most as many nodes as the replication factor,
  that both report the quorum as achieved have a node in common on which both were prepared.
\<close>

theorem write_quorums_intersect:
  assumes "coordinator_inv co1" and "coordinator_inv co2"
    and "co_config co1 = with_replication_factor n" and "co_config co2 = with_replication_factor n"
    and "card (set (local_node_id co1 # connected_nodes co1 @ local_node_id co2 # connected_nodes co2)) \<le> n"
    and "replicate_write_streaming sha256_hex co1 s1 key path1 checksum1 lw1 = (Inr res1, co1', s1')
      \<or> replicate_write sha256_hex co1 s1 key d1 lw1 = (Inr res1, co1', s1')" and "quorum_achieved res1"
    and "replicate_write_streaming sha256_hex co2 s2 key path2 checksum2 lw2 = (Inr res2, co2', s2')
      \<or> replicate_write sha256_hex co2 s2 key d2 lw2 = (Inr res2, co2', s2')" and "quorum_achieved res2"
  shows "\<exists>node. node \<in> set (successful_nodes res1) \<and> node \<in> set (successful_nodes res2)"
proof -
  let ?N = "set (local_node_id co1 # connected_nodes co1 @ local_node_id co2 # connected_nodes co2)"
  have "accounted co1 res1" "accounted co2 res2"
    using write_accounted_of_stream write_accounted_of_whole assms(1,2,6,8) by blast+
  then have a: "set (successful_nodes res1) \<subseteq> ?N" "set (successful_nodes res2) \<subseteq> ?N"
    "n div 2 + 1 \<le> card (set (successful_nodes res1))" "n div 2 + 1 \<le> card (set (successful_nodes res2))"
    using assms(3,4,7,9) by (auto simp: accounted_def with_replication_factor_def distinct_card)
  from majorities_meet [OF _ assms(5) a] show ?thesis by blast
qed

theorem write_quorums_intersect_witness:
  "\<exists>res1 res2 node. fst (replicate_write example_sha ((ReplicationCoordinator_new 1 (with_replication_factor 2))
        \<lparr>clients := [(2, example_peer 2 [])]\<rparr>) example_fs ''b/one'' [1] example_local) = Inr res1
    \<and> fst (replicate_write example_sha ((ReplicationCoordinator_new 2 (with_replication_factor 2))
        \<lparr>clients := [(1, example_peer 1 [])]\<rparr>) example_fs ''b/one'' [2] example_local) = Inr res2
    \<and> node \<in> set (successful_nodes res1) \<and> node \<in> set (successful_nodes res2)"
proof -
  let ?co1 = "(ReplicationCoordinator_new 1 (with_replication_factor 2))\<lparr>clients := [(2, example_peer 2 [])]\<rparr>"
  let ?co2 = "(ReplicationCoordinator_new 2 (with_replication_factor 2))\<lparr>clients := [(1, example_peer 1 [])]\<rparr>"
  let ?w1 = "replicate_write example_sha ?co1 example_fs ''b/one'' [1] example_local"
  let ?w2 = "replicate_write example_sha ?co2 example_fs ''b/one'' [2] example_local"
  have "case fst ?w1 of Inr res \<Rightarrow> quorum_achieved res | Inl _ \<Rightarrow> False" by code_simp
  then obtain res1 where r1: "fst ?w1 = Inr res1" and q1: "quorum_achieved res1" by (auto split: sum.splits)
  have "case fst ?w2 of Inr res \<Rightarrow> quorum_achieved res | Inl _ \<Rightarrow> False" by code_simp
  then obtain res2 where r2: "fst ?w2 = Inr res2" and q2: "quorum_achieved res2" by (auto split: sum.splits)
  have w: "?w1 = (Inr res1, fst (snd ?w1), snd (snd ?w1))" "?w2 = (Inr res2, fst (snd ?w2), snd (snd ?w2))"
    using r1 r2 by (simp_all add: prod_eq_iff)
  have i: "coordinator_inv ?co1" "coordinator_inv ?co2" by code_simp+
  have c: "co_config ?co1 = with_replication_factor 2" "co_config ?co2 = with_replication_factor 2"
    by (simp_all add: ReplicationCoordinator_new_def)
  have n: "card (set (local_node_id ?co1 # connected_nodes ?co1 @ local_node_id ?co2 # connected_nodes ?co2)) \<le> 2"
    by (simp add: ReplicationCoordinator_new_def connected_nodes_def card_insert_if)
  from write_quorums_intersect [OF i c n disjI2 [OF w(1)] q1 disjI2 [OF w(2)] q2] r1 r2 show ?thesis by blast
qed

text \<open>
  A reported quorum counts prepares, not commits. There is a run in which all commit requests
  are lost after the prepares: the write reports its quorum as achieved and no failed node, and no
  replica holds the object.
\<close>

theorem quorum_reported_without_copies:
  "\<exists>co. coordinator_inv co \<and> write_quorum (co_config co) = 2
     \<and> (case replicate_write example_sha co example_fs ''b/one'' [1, 2] example_local of
          (Inr res, co', _) \<Rightarrow> quorum_achieved res \<and> success_count res = 2 \<and> failed_nodes res = []
            \<and> list_all (\<lambda>(_, p). service_view example_sha (p_service p) ''b/one'' = None) (clients co')
        | _ \<Rightarrow> False)"
proof (rule exI)
  let ?co = "(ReplicationCoordinator_new 1 (with_replication_factor 2))
    \<lparr>clients := [(2, example_peer 2 [Delivered, Delivered, Delivered, RequestLost ''deadline''])]\<rparr>"
  show "coordinator_inv ?co \<and> write_quorum (co_config ?co) = 2
     \<and> (case replicate_write example_sha ?co example_fs ''b/one'' [1, 2] example_local of
          (Inr res, co', _) \<Rightarrow> quorum_achieved res \<and> success_count res = 2 \<and> failed_nodes res = []
            \<and> list_all (\<lambda>(_, p). service_view example_sha (p_service p) ''b/one'' = None) (clients co')
        | _ \<Rightarrow> False)" by code_simp
qed

end
