(* ===== verification/Common_Cluster.thy ===== *)
theory Common_Cluster
  imports Common_Validation
begin

text \<open>
  Peers and their addresses, \<open>crates/save-common/src/cluster.rs\<close>: reading a peer from the form
  \<open>node_id:host:raft_port:http_port:replication_port\<close> of the configuration, and the addresses
  derived from it.
\<close>

section \<open>Peers\<close>

record PeerInfo =
  pi_node_id :: u64
  pi_host :: string
  raft_port :: u16
  http_port :: u16
  replication_port :: u16

definition http_url :: "string \<Rightarrow> u16 \<Rightarrow> string" where
  "http_url host port = ''http://'' @ host @ '':'' @ nat_str (unat port)"

definition raft_addr :: "PeerInfo \<Rightarrow> string" where
  "raft_addr p = http_url (pi_host p) (raft_port p)"

definition http_addr :: "PeerInfo \<Rightarrow> string" where
  "http_addr p = http_url (pi_host p) (http_port p)"

definition replication_addr :: "PeerInfo \<Rightarrow> string" where
  "replication_addr p = http_url (pi_host p) (replication_port p)"

definition to_tuple :: "PeerInfo \<Rightarrow> u64 \<times> string \<times> string \<times> string" where
  "to_tuple p = (pi_node_id p, raft_addr p, http_addr p, replication_addr p)"

text \<open>Rust's \<open>str::parse\<close> at the two widths.\<close>

definition parse_u16 :: "string \<Rightarrow> u16 option" where
  "parse_u16 s = map_option of_nat (parse_uint 16 s)"

definition parse_u64 :: "string \<Rightarrow> u64 option" where
  "parse_u64 s = map_option of_nat (parse_uint 64 s)"

definition parse_bind_addr :: "string \<Rightarrow> Error + string \<times> u16" where
  "parse_bind_addr addr =
     (case rsplit_once CHR '':'' addr of
        None \<Rightarrow>
          Inl (Validation (''Invalid bind address '' @ quoted addr @ ''. Expected '' @ quoted ''host:port'' @ '' format''))
      | Some (host, port_str) \<Rightarrow>
          (case parse_u16 port_str of
             None \<Rightarrow>
               Inl (Validation (''Invalid port in bind address '' @ quoted addr @ ''. Expected numeric value 1-65535''))
           | Some port \<Rightarrow> Inr (host, port)))"

definition from_bind_addrs :: "u64 \<Rightarrow> string \<Rightarrow> string \<Rightarrow> string \<Rightarrow> Error + PeerInfo" where
  "from_bind_addrs node_id raft_bind http_bind replication_bind =
     (case parse_bind_addr raft_bind of
        Inl e \<Rightarrow> Inl e
      | Inr (host, rp) \<Rightarrow>
        (case parse_bind_addr http_bind of
           Inl e \<Rightarrow> Inl e
         | Inr (_, hp) \<Rightarrow>
           (case parse_bind_addr replication_bind of
              Inl e \<Rightarrow> Inl e
            | Inr (_, pp) \<Rightarrow>
                Inr \<lparr>pi_node_id = node_id, pi_host = host, raft_port = rp, http_port = hp, replication_port = pp\<rparr>)))"

definition invalid_peer :: "string \<Rightarrow> string \<Rightarrow> string \<Rightarrow> Error" where
  "invalid_peer what peer expected =
     Validation (''Invalid '' @ what @ '' in peer '' @ quoted peer @ ''. Expected '' @ expected)"

definition parse_peer :: "string \<Rightarrow> Error + PeerInfo" where
  "parse_peer peer =
     (case split_on CHR '':'' peer of
        [p0, p1, p2, p3, p4] \<Rightarrow>
          (case parse_u64 p0 of
             None \<Rightarrow> Inl (invalid_peer ''node_id'' peer ''numeric value'')
           | Some node_id \<Rightarrow>
             (case parse_u16 p2 of
                None \<Rightarrow> Inl (invalid_peer ''raft_port'' peer ''numeric value 1-65535'')
              | Some rp \<Rightarrow>
                (case parse_u16 p3 of
                   None \<Rightarrow> Inl (invalid_peer ''http_port'' peer ''numeric value 1-65535'')
                 | Some hp \<Rightarrow>
                   (case parse_u16 p4 of
                      None \<Rightarrow> Inl (invalid_peer ''replication_port'' peer ''numeric value 1-65535'')
                    | Some pp \<Rightarrow>
                        Inr \<lparr>pi_node_id = node_id, pi_host = p1, raft_port = rp, http_port = hp,
                             replication_port = pp\<rparr>))))
      | _ \<Rightarrow>
          Inl (Validation (''Invalid peer format '' @ quoted peer @ ''. Expected ''
            @ quoted ''node_id:host:raft_port:http_port:replication_port'')))"

text \<open>Collecting results stops at the first error.\<close>

fun parse_peers :: "string list \<Rightarrow> Error + PeerInfo list" where
  "parse_peers [] = Inr []"
| "parse_peers (p # ps) =
     (case parse_peer p of
        Inl e \<Rightarrow> Inl e
      | Inr i \<Rightarrow> (case parse_peers ps of Inl e \<Rightarrow> Inl e | Inr is \<Rightarrow> Inr (i # is)))"

section \<open>Reading back\<close>

text \<open>The form in which a peer is written in the configuration.\<close>

definition peer_str :: "PeerInfo \<Rightarrow> string" where
  "peer_str p = nat_str (unat (pi_node_id p)) @ CHR '':'' # pi_host p @ CHR '':'' # nat_str (unat (raft_port p))
     @ CHR '':'' # nat_str (unat (http_port p)) @ CHR '':'' # nat_str (unat (replication_port p))"

lemma parse_u16_str [simp]: "parse_u16 (nat_str (unat p)) = Some p"
  using parse_uint_word [of p] by (simp add: parse_u16_def)

lemma parse_u64_str [simp]: "parse_u64 (nat_str (unat i)) = Some i"
  using parse_uint_word [of i] by (simp add: parse_u64_def)

lemma split_peer_str:
  "CHR '':'' \<notin> set (pi_host p) \<Longrightarrow> split_on CHR '':'' (peer_str p)
     = [nat_str (unat (pi_node_id p)), pi_host p, nat_str (unat (raft_port p)), nat_str (unat (http_port p)),
        nat_str (unat (replication_port p))]"
  by (simp add: peer_str_def split_on_sep split_on_no_sep)

lemma split_on_length: "length (split_on c s) = Suc (count_list s c)"
  by (induction s) (auto split: list.splits)

lemma split_on_piece_no_sep: "p \<in> set (split_on c s) \<Longrightarrow> c \<notin> set p"
  by (induction s arbitrary: p) (auto split: list.splits if_splits)

lemma parse_peer_str: "CHR '':'' \<notin> set (pi_host p) \<Longrightarrow> parse_peer (peer_str p) = Inr p"
  by (simp add: parse_peer_def split_peer_str)

section \<open>Properties\<close>

text \<open>
  Every list of peers whose hosts contain no colon, written in the form of the configuration, is
  read back as it was; and a peer string is refused unless it has exactly four colons, so a host
  with a colon, such as an IPv6 address, cannot be written.
\<close>

theorem parse_peers_print:
  "((\<forall>p \<in> set ps. CHR '':'' \<notin> set (pi_host p)) \<longrightarrow> parse_peers (map peer_str ps) = Inr ps)
   \<and> (parse_peer s = Inr p \<longrightarrow> count_list s CHR '':'' = 4 \<and> CHR '':'' \<notin> set (pi_host p))"
proof
  show "(\<forall>p \<in> set ps. CHR '':'' \<notin> set (pi_host p)) \<longrightarrow> parse_peers (map peer_str ps) = Inr ps"
    by (induction ps) (auto simp: parse_peer_str)
  show "parse_peer s = Inr p \<longrightarrow> count_list s CHR '':'' = 4 \<and> CHR '':'' \<notin> set (pi_host p)"
  proof
    assume "parse_peer s = Inr p"
    then obtain p0 p1 p2 p3 p4 where sp: "split_on CHR '':'' s = [p0, p1, p2, p3, p4]" and h: "pi_host p = p1"
      by (auto simp: parse_peer_def split: list.splits option.splits)
    with split_on_length [of "CHR '':''" s] split_on_piece_no_sep [of p1 "CHR '':''" s]
    show "count_list s CHR '':'' = 4 \<and> CHR '':'' \<notin> set (pi_host p)" by auto
  qed
qed

theorem parse_peers_print_witness:
  "let p = \<lparr>pi_node_id = 1, pi_host = ''10.0.0.1'', raft_port = 9001, http_port = 9000, replication_port = 9002\<rparr>
   in peer_str p = ''1:10.0.0.1:9001:9000:9002'' \<and> parse_peers [peer_str p] = Inr [p]"
proof -
  let ?p = "\<lparr>pi_node_id = 1, pi_host = ''10.0.0.1'', raft_port = 9001, http_port = 9000, replication_port = 9002\<rparr>"
  have "peer_str ?p = ''1:10.0.0.1:9001:9000:9002''"
    by (simp add: peer_str_def nat_str.simps digit_char_0_9)
  moreover have "parse_peers (map peer_str [?p]) = Inr [?p]" using parse_peers_print [of "[?p]"] by simp
  ultimately show ?thesis by (simp add: Let_def)
qed

end
