(* ===== verification/Cluster_Manager.thy ===== *)
theory Cluster_Manager
  imports Repl_Coordinator Common_Cluster
begin

text \<open>
  The cluster manager, \<open>crates/save-storage/src/cluster/state.rs\<close> and \<open>manager.rs\<close>: which nodes
  are known and available, whether they are a majority, and the heartbeat that keeps this up to
  date. The events that are sent to subscribers are the list \<open>cm_events\<close>, oldest first. What the
  clock shows is an argument: the current time, and for each node whether its health check takes
  longer than the timeout and how long it takes.
\<close>

section \<open>Node and cluster state\<close>

datatype NodeHealth = NodeHealthy | NodeDegraded | NodeUnreachable | NodeUnknown

datatype PartitionStatus = Connected | PossibleMinority | Minority | PartitionUnknown

fun NodeHealth_is_available :: "NodeHealth \<Rightarrow> bool" where
  "NodeHealth_is_available NodeHealthy = True"
| "NodeHealth_is_available NodeDegraded = True"
| "NodeHealth_is_available _ = False"

record NodeState =
  ns_node_id :: u64
  ns_address :: string
  health :: NodeHealth
  last_seen :: "instant option"
  last_check :: "instant option"
  consecutive_failures :: u32
  latency_ms :: "u64 option"

definition NodeState_new :: "u64 \<Rightarrow> string \<Rightarrow> NodeState" where
  "NodeState_new node_id address =
     \<lparr>ns_node_id = node_id, ns_address = address, health = NodeUnknown, last_seen = None, last_check = None,
      consecutive_failures = 0, latency_ms = None\<rparr>"

definition mark_healthy :: "instant \<Rightarrow> u64 \<Rightarrow> NodeState \<Rightarrow> NodeState" where
  "mark_healthy now latency n =
     n\<lparr>health := NodeHealthy, last_seen := Some now, last_check := Some now, consecutive_failures := 0,
       latency_ms := Some latency\<rparr>"

definition mark_degraded :: "instant \<Rightarrow> u64 \<Rightarrow> NodeState \<Rightarrow> NodeState" where
  "mark_degraded now latency n =
     n\<lparr>health := NodeDegraded, last_seen := Some now, last_check := Some now, consecutive_failures := 0,
       latency_ms := Some latency\<rparr>"

definition mark_unreachable :: "instant \<Rightarrow> NodeState \<Rightarrow> NodeState" where
  "mark_unreachable now n =
     n\<lparr>health := NodeUnreachable, last_check := Some now, consecutive_failures := consecutive_failures n + 1,
       latency_ms := None\<rparr>"

record ClusterState =
  cs_local_node_id :: u64
  nodes :: "(u64 \<times> NodeState) list"
  leader_id :: "u64 option"
  has_quorum :: bool
  partition_status :: PartitionStatus
  last_updated :: instant

definition ClusterState_new :: "u64 \<Rightarrow> instant \<Rightarrow> ClusterState" where
  "ClusterState_new local_id now =
     \<lparr>cs_local_node_id = local_id, nodes = [], leader_id = None, has_quorum = False,
      partition_status = PartitionUnknown, last_updated = now\<rparr>"

abbreviation node_available :: "u64 \<times> NodeState \<Rightarrow> bool" where
  "node_available x \<equiv> NodeHealth_is_available (health (snd x))"

definition available_node_count :: "ClusterState \<Rightarrow> nat" where
  "available_node_count s = length (filter node_available (nodes s))"

definition total_node_count :: "ClusterState \<Rightarrow> nat" where
  "total_node_count s = length (nodes s) + 1"

definition check_quorum :: "ClusterState \<Rightarrow> bool" where
  "check_quorum s \<longleftrightarrow> available_node_count s + 1 > total_node_count s div 2"

definition healthy_nodes :: "ClusterState \<Rightarrow> u64 list" where
  "healthy_nodes s = map (\<lambda>x. ns_node_id (snd x)) (filter (\<lambda>x. health (snd x) = NodeHealthy) (nodes s))"

definition available_nodes :: "ClusterState \<Rightarrow> u64 list" where
  "available_nodes s = map (\<lambda>x. ns_node_id (snd x)) (filter node_available (nodes s))"

definition unreachable_nodes :: "ClusterState \<Rightarrow> u64 list" where
  "unreachable_nodes s = map (\<lambda>x. ns_node_id (snd x)) (filter (\<lambda>x. health (snd x) = NodeUnreachable) (nodes s))"

definition detect_partition :: "ClusterState \<Rightarrow> PartitionStatus" where
  "detect_partition s =
     (let total = total_node_count s;
          unreachable = length (filter (\<lambda>x. \<not> node_available x) (nodes s)) in
      if unreachable = 0 then Connected
      else if check_quorum s then Connected
      else if total > 1 then Minority
      else PartitionUnknown)"

definition is_possibly_partitioned :: "ClusterState \<Rightarrow> instant \<Rightarrow> int \<Rightarrow> bool" where
  "is_possibly_partitioned s now stale_threshold =
     list_ex (\<lambda>x. health (snd x) = NodeUnreachable
       \<and> (case last_seen (snd x) of None \<Rightarrow> False | Some t \<Rightarrow> max 0 (now - t) > stale_threshold)) (nodes s)"

definition should_accept_writes :: "ClusterState \<Rightarrow> bool" where
  "should_accept_writes s \<longleftrightarrow> has_quorum s \<and> partition_status s \<noteq> Minority"

definition ClusterState_is_leader :: "ClusterState \<Rightarrow> bool" where
  "ClusterState_is_leader s \<longleftrightarrow> leader_id s = Some (cs_local_node_id s)"

section \<open>The manager\<close>

record ClusterManagerConfig =
  failure_threshold :: u32
  degraded_latency_threshold_ms :: u64

definition ClusterManagerConfig_default :: ClusterManagerConfig where
  "ClusterManagerConfig_default = \<lparr>failure_threshold = 3, degraded_latency_threshold_ms = 500\<rparr>"

datatype ClusterEvent =
    NodeHealthChanged u64 NodeHealth
  | LeaderChanged "u64 option"
  | QuorumChanged bool
  | PartitionChanged PartitionStatus
  | NodeAdded u64
  | NodeRemoved u64

record ClusterManager =
  cm_local_node_id :: u64
  cm_coordinator :: ReplicationCoordinator
  cm_state :: ClusterState
  cm_config :: ClusterManagerConfig
  cm_events :: "ClusterEvent list"
  cm_heartbeat :: bool

definition with_coordinator :: "u64 \<Rightarrow> ReplicationCoordinator \<Rightarrow> ClusterManagerConfig \<Rightarrow> instant \<Rightarrow> ClusterManager" where
  "with_coordinator local_id co config now =
     \<lparr>cm_local_node_id = local_id, cm_coordinator = co, cm_state = ClusterState_new local_id now,
      cm_config = config, cm_events = [], cm_heartbeat = False\<rparr>"

definition ClusterManager_new :: "u64 \<Rightarrow> QuorumConfig \<Rightarrow> ClusterManagerConfig \<Rightarrow> instant \<Rightarrow> ClusterManager" where
  "ClusterManager_new local_id quorum_config config now =
     with_coordinator local_id (ReplicationCoordinator_new local_id quorum_config) config now"

record probe =
  timed_out :: bool
  elapsed_ms :: u64

definition send_events :: "ClusterEvent list \<Rightarrow> ClusterManager \<Rightarrow> ClusterManager" where
  "send_events es cm = cm\<lparr>cm_events := cm_events cm @ es\<rparr>"

text \<open>A health check with its time limit; \<open>None\<close> when the limit is exceeded.\<close>

definition timed_health_check ::
  "(u64 \<Rightarrow> probe) \<Rightarrow> ReplicationCoordinator \<Rightarrow> u64 \<Rightarrow> (StorageError + bool) option \<times> ReplicationCoordinator" where
  "timed_health_check timing co node_id =
     (case coordinator_health_check co node_id of
        (r, co') \<Rightarrow> (if timed_out (timing node_id) then None else Some r, co'))"

definition check_node_health ::
  "(u64 \<Rightarrow> probe) \<Rightarrow> ClusterManager \<Rightarrow> u64 \<Rightarrow> u64 option \<times> ClusterManager" where
  "check_node_health timing cm node_id =
     (case timed_health_check timing (cm_coordinator cm) node_id of
        (Some (Inr True), co) \<Rightarrow> (Some (elapsed_ms (timing node_id)), cm\<lparr>cm_coordinator := co\<rparr>)
      | (_, co) \<Rightarrow> (None, cm\<lparr>cm_coordinator := co\<rparr>))"

definition manager_add_node ::
  "(string \<Rightarrow> ReplicationService \<times> delivery list) \<Rightarrow> (u64 \<Rightarrow> probe) \<Rightarrow> instant \<Rightarrow> ClusterManager \<Rightarrow> u64 \<Rightarrow> string
     \<Rightarrow> (StorageError + unit) \<times> ClusterManager" where
  "manager_add_node reach timing now cm node_id address =
     (if node_id = cm_local_node_id cm then (Inl (StorageIo (io_other ''Cannot add self as peer'')), cm)
      else
        (case add_node reach (cm_coordinator cm) node_id address of
           (Inl e, co) \<Rightarrow> (Inl e, cm\<lparr>cm_coordinator := co\<rparr>)
         | (Inr _, co) \<Rightarrow>
           (case check_node_health timing (cm\<lparr>cm_coordinator := co\<rparr>) node_id of
              (h, cm1) \<Rightarrow>
              (let fresh = NodeState_new node_id address;
                   node_state =
                     (case h of
                        Some latency \<Rightarrow>
                          if latency > degraded_latency_threshold_ms (cm_config cm)
                          then mark_degraded now latency fresh else mark_healthy now latency fresh
                      | None \<Rightarrow> mark_unreachable now fresh);
                   s = cm_state cm1;
                   s1 = s\<lparr>nodes := AList.update node_id node_state (nodes s)\<rparr>;
                   s2 = s1\<lparr>has_quorum := check_quorum s1, last_updated := now\<rparr> in
               (Inr (),
                send_events ([NodeAdded node_id, NodeHealthChanged node_id (health node_state)]
                    @ (if has_quorum s \<noteq> has_quorum s2 then [QuorumChanged (has_quorum s2)] else []))
                  (cm1\<lparr>cm_state := s2\<rparr>))))))"

definition manager_remove_node :: "instant \<Rightarrow> ClusterManager \<Rightarrow> u64 \<Rightarrow> ClusterManager" where
  "manager_remove_node now cm node_id =
     (let s = cm_state cm;
          s1 = s\<lparr>nodes := AList.delete node_id (nodes s)\<rparr>;
          s2 = s1\<lparr>has_quorum := check_quorum s1\<rparr>;
          s3 = s2\<lparr>partition_status := detect_partition s2, last_updated := now\<rparr> in
      send_events (NodeRemoved node_id
          # (if has_quorum s \<noteq> has_quorum s3 then [QuorumChanged (has_quorum s3)] else []))
        (cm\<lparr>cm_coordinator := remove_node (cm_coordinator cm) node_id, cm_state := s3\<rparr>))"

definition can_remove_node :: "ClusterManager \<Rightarrow> u64 \<Rightarrow> bool" where
  "can_remove_node cm node_id =
     (let s = cm_state cm in
      case map_of (nodes s) node_id of
        None \<Rightarrow> True
      | Some node \<Rightarrow>
        if \<not> NodeHealth_is_available (health node) then True
        else (available_node_count s - 1 + 1 > (total_node_count s - 1) div 2))"

record ClusterTopology =
  ct_local_node_id :: u64
  total_nodes :: nat
  ct_healthy_nodes :: nat
  degraded_nodes :: nat
  ct_unreachable_nodes :: nat
  ct_has_quorum :: bool
  ct_partition_status :: PartitionStatus
  ct_leader_id :: "u64 option"

definition topology :: "ClusterManager \<Rightarrow> ClusterTopology" where
  "topology cm =
     (let s = cm_state cm in
      \<lparr>ct_local_node_id = cs_local_node_id s, total_nodes = total_node_count s,
       ct_healthy_nodes = length (healthy_nodes s) + 1,
       degraded_nodes = length (filter (\<lambda>x. health (snd x) = NodeDegraded) (nodes s)),
       ct_unreachable_nodes = length (unreachable_nodes s), ct_has_quorum = has_quorum s,
       ct_partition_status = partition_status s, ct_leader_id = leader_id s\<rparr>)"

definition update_leader :: "instant \<Rightarrow> ClusterManager \<Rightarrow> u64 option \<Rightarrow> ClusterManager" where
  "update_leader now cm leader =
     (let s = cm_state cm in
      if leader_id s \<noteq> leader then
        send_events [LeaderChanged leader] (cm\<lparr>cm_state := s\<lparr>leader_id := leader, last_updated := now\<rparr>\<rparr>)
      else cm)"

definition can_write :: "ClusterManager \<Rightarrow> bool" where
  "can_write cm = should_accept_writes (cm_state cm)"

definition is_in_minority_partition :: "ClusterManager \<Rightarrow> bool" where
  "is_in_minority_partition cm \<longleftrightarrow> partition_status (cm_state cm) = Minority"

definition validate_config :: "nat \<Rightarrow> StorageError + unit" where
  "validate_config rf =
     (if rf div 2 + 1 < 1
      then Inl (StorageIo (io_other ''Invalid replication factor: quorum must be at least 1'')) else Inr ())"

definition start_heartbeat :: "ClusterManager \<Rightarrow> ClusterManager" where
  "start_heartbeat cm = (if cm_heartbeat cm then cm else cm\<lparr>cm_heartbeat := True\<rparr>)"

definition stop_heartbeat :: "ClusterManager \<Rightarrow> ClusterManager" where
  "stop_heartbeat cm = cm\<lparr>cm_heartbeat := False\<rparr>"

section \<open>Discovery\<close>

text \<open>A peer that cannot be added is kept with unknown health.\<close>

fun discover_loop ::
  "(string \<Rightarrow> ReplicationService \<times> delivery list) \<Rightarrow> (u64 \<Rightarrow> probe) \<Rightarrow> instant \<Rightarrow> ClusterManager \<Rightarrow> PeerInfo list
     \<Rightarrow> ClusterManager" where
  "discover_loop reach timing now cm [] = cm"
| "discover_loop reach timing now cm (p # ps) =
     (if pi_node_id p = cm_local_node_id cm then discover_loop reach timing now cm ps
      else
        (case manager_add_node reach timing now cm (pi_node_id p) (http_addr p) of
           (Inr _, cm') \<Rightarrow> discover_loop reach timing now cm' ps
         | (Inl _, cm') \<Rightarrow>
             (let s = cm_state cm' in
              discover_loop reach timing now
                (cm'\<lparr>cm_state := s\<lparr>nodes := AList.update (pi_node_id p)
                   (NodeState_new (pi_node_id p) (http_addr p)) (nodes s)\<rparr>\<rparr>) ps)))"

definition discover_peers ::
  "(string \<Rightarrow> ReplicationService \<times> delivery list) \<Rightarrow> (u64 \<Rightarrow> probe) \<Rightarrow> instant \<Rightarrow> ClusterManager \<Rightarrow> string list
     \<Rightarrow> (StorageError + unit) \<times> ClusterManager" where
  "discover_peers reach timing now cm peer_strings =
     (if peer_strings = [] then (Inr (), cm)
      else
        (case parse_peers peer_strings of
           Inl e \<Rightarrow> (Inl (StorageIo (io_other (''Failed to parse peers: '' @ Error_to_string e))), cm)
         | Inr peers \<Rightarrow>
           (let cm1 = discover_loop reach timing now cm peers;
                s = cm_state cm1;
                s1 = s\<lparr>has_quorum := check_quorum s, last_updated := now\<rparr> in
            (Inr (), send_events (if has_quorum s1 \<noteq> has_quorum s then [QuorumChanged (has_quorum s1)] else [])
               (cm1\<lparr>cm_state := s1\<rparr>)))))"

section \<open>Heartbeat\<close>

text \<open>What one health check does to the state of the node.\<close>

definition heartbeat_mark ::
  "ClusterManagerConfig \<Rightarrow> instant \<Rightarrow> probe \<Rightarrow> (StorageError + bool) option \<Rightarrow> NodeState \<Rightarrow> NodeState" where
  "heartbeat_mark config now t result n =
     (case result of
        Some (Inr True) \<Rightarrow>
          if elapsed_ms t > degraded_latency_threshold_ms config
          then mark_degraded now (elapsed_ms t) n else mark_healthy now (elapsed_ms t) n
      | Some (Inr False) \<Rightarrow> mark_degraded now (elapsed_ms t) n
      | Some (Inl _) \<Rightarrow> mark_unreachable now n
      | None \<Rightarrow> mark_unreachable now n)"

definition heartbeat_node ::
  "(string \<Rightarrow> ReplicationService \<times> delivery list) \<Rightarrow> (u64 \<Rightarrow> probe) \<Rightarrow> instant \<Rightarrow> ClusterManager \<Rightarrow> u64 \<times> string
     \<Rightarrow> ClusterManager" where
  "heartbeat_node reach timing now cm = (\<lambda>(node_id, address).
     (case timed_health_check timing (cm_coordinator cm) node_id of
        (result, co) \<Rightarrow>
        (let cm1 = cm\<lparr>cm_coordinator := co\<rparr>; s = cm_state cm1 in
         case map_of (nodes s) node_id of
           None \<Rightarrow> cm1
         | Some node \<Rightarrow>
           (let node' = heartbeat_mark (cm_config cm) now (timing node_id) result node;
                s1 = s\<lparr>nodes := AList.update node_id node' (nodes s)\<rparr> in
            if (case result of Some (Inl _) \<Rightarrow> True | _ \<Rightarrow> False) \<and> consecutive_failures node' \<ge> failure_threshold (cm_config cm) then
              cm1\<lparr>cm_state := s1, cm_coordinator := snd (add_node reach co node_id address)\<rparr>
            else
              (let s2 = s1\<lparr>has_quorum := check_quorum s1\<rparr>;
                   s3 = s2\<lparr>partition_status := detect_partition s2, last_updated := now\<rparr> in
               send_events
                 ((if health node \<noteq> health node' then [NodeHealthChanged node_id (health node')] else [])
                  @ (if has_quorum s \<noteq> has_quorum s3 then [QuorumChanged (has_quorum s3)] else [])
                  @ (if partition_status s \<noteq> partition_status s3 then [PartitionChanged (partition_status s3)] else []))
                 (cm1\<lparr>cm_state := s3\<rparr>))))))"

text \<open>One round of the heartbeat loop over the nodes known at its start.\<close>

definition heartbeat_round ::
  "(string \<Rightarrow> ReplicationService \<times> delivery list) \<Rightarrow> (u64 \<Rightarrow> probe) \<Rightarrow> instant \<Rightarrow> ClusterManager \<Rightarrow> ClusterManager" where
  "heartbeat_round reach timing now cm =
     foldl (heartbeat_node reach timing now) cm (map (\<lambda>(i, n). (i, ns_address n)) (nodes (cm_state cm)))"

section \<open>Well-formed managers\<close>

definition cluster_wf :: "ClusterState \<Rightarrow> bool" where
  "cluster_wf s \<longleftrightarrow> distinct (map fst (nodes s)) \<and> cs_local_node_id s \<notin> set (map fst (nodes s))
     \<and> (\<forall>(i, n) \<in> set (nodes s). ns_node_id n = i)"

definition manager_inv :: "ClusterManager \<Rightarrow> bool" where
  "manager_inv cm \<longleftrightarrow> cluster_wf (cm_state cm) \<and> coordinator_inv (cm_coordinator cm)
     \<and> cs_local_node_id (cm_state cm) = cm_local_node_id cm
     \<and> local_node_id (cm_coordinator cm) = cm_local_node_id cm"

text \<open>What a subscriber believes about the quorum after the events.\<close>

fun event_quorum :: "bool \<Rightarrow> ClusterEvent \<Rightarrow> bool" where
  "event_quorum b (QuorumChanged q) = q"
| "event_quorum b _ = b"

definition told_quorum :: "ClusterManager \<Rightarrow> bool" where
  "told_quorum cm = foldl event_quorum False (cm_events cm)"

definition subscribers_right :: "ClusterManager \<Rightarrow> bool" where
  "subscribers_right cm \<longleftrightarrow> told_quorum cm = has_quorum (cm_state cm)"

lemma node_ids_update:
  assumes "cluster_wf s" and "ns_node_id n = i" and "i \<noteq> cs_local_node_id s"
  shows "cluster_wf (s\<lparr>nodes := AList.update i n (nodes s)\<rparr>)"
proof -
  have "fst ` set (AList.update i n (nodes s)) = insert i (fst ` set (nodes s))"
    using dom_update [of i n "nodes s"] by simp
  with assms show ?thesis
    by (auto simp: cluster_wf_def distinct_update dest!: set_alist_update)
qed

lemma node_ids_delete: "cluster_wf s \<Longrightarrow> cluster_wf (s\<lparr>nodes := AList.delete i (nodes s)\<rparr>)"
  by (auto simp: cluster_wf_def AList.delete_eq distinct_map_filter)

lemma cluster_wf_flags [simp]:
  "cluster_wf (s\<lparr>has_quorum := b\<rparr>) = cluster_wf s" "cluster_wf (s\<lparr>partition_status := ps\<rparr>) = cluster_wf s"
  "cluster_wf (s\<lparr>last_updated := t\<rparr>) = cluster_wf s" "cluster_wf (s\<lparr>leader_id := l\<rparr>) = cluster_wf s"
  by (simp_all add: cluster_wf_def)

lemma check_quorum_flags [simp]:
  "check_quorum (s\<lparr>has_quorum := b\<rparr>) = check_quorum s" "check_quorum (s\<lparr>partition_status := ps\<rparr>) = check_quorum s"
  "check_quorum (s\<lparr>last_updated := t\<rparr>) = check_quorum s"
  by (simp_all add: check_quorum_def available_node_count_def total_node_count_def)

lemma marks_node_id [simp]:
  "ns_node_id (mark_healthy now l n) = ns_node_id n" "ns_node_id (mark_degraded now l n) = ns_node_id n"
  "ns_node_id (mark_unreachable now n) = ns_node_id n" "ns_node_id (NodeState_new i a) = i"
  "ns_node_id (heartbeat_mark c now t r n) = ns_node_id n"
  by (simp_all add: mark_healthy_def mark_degraded_def mark_unreachable_def NodeState_new_def heartbeat_mark_def
      split: option.splits sum.splits bool.splits)

lemma coordinator_health_check_inv:
  assumes "coordinator_health_check co n = (r, co')"
  shows "connected_nodes co' = connected_nodes co \<and> local_node_id co' = local_node_id co"
    and "coordinator_inv co \<Longrightarrow> coordinator_inv co'"
proof -
  show keep: "connected_nodes co' = connected_nodes co \<and> local_node_id co' = local_node_id co"
  proof (cases "map_of (clients co) n")
    case (Some p)
    then have "n \<in> set (map fst (clients co))" by (force dest: map_of_SomeD)
    then have "map fst (AList.update n q (clients co)) = map fst (clients co)" for q by (simp add: update_keys)
    with Some assms show ?thesis by (auto simp: coordinator_health_check_def connected_nodes_def split: prod.splits)
  qed (use assms in \<open>simp add: coordinator_health_check_def\<close>)
  show "coordinator_inv co'" if "coordinator_inv co"
    using that keep by (simp add: coordinator_inv_def connected_nodes_def)
qed

lemma timed_health_check_inv:
  "timed_health_check timing co n = (r, co') \<Longrightarrow> coordinator_inv co \<Longrightarrow>
     coordinator_inv co' \<and> local_node_id co' = local_node_id co \<and> connected_nodes co' = connected_nodes co"
  by (auto simp: timed_health_check_def split: prod.splits dest: coordinator_health_check_inv)

lemma add_node_inv:
  assumes "coordinator_inv co"
  shows "coordinator_inv (snd (add_node reach co n addr)) \<and> local_node_id (snd (add_node reach co n addr)) = local_node_id co"
proof (cases "add_node reach co n addr")
  case (Pair r co')
  show ?thesis
  proof (cases r)
    case (Inl e)
    with Pair assms show ?thesis by (auto simp: add_node_def Let_def split: if_splits option.splits sum.splits)
  next
    case (Inr u)
    with Pair add_node_facts [of reach co n addr co'] assms show ?thesis by simp
  qed
qed

lemma remove_node_inv: "coordinator_inv co \<Longrightarrow> coordinator_inv (remove_node co n)"
  by (auto simp: coordinator_inv_def remove_node_def AList.delete_eq distinct_map_filter)

lemma send_events_simps [simp]:
  "cm_state (send_events es cm) = cm_state cm" "cm_coordinator (send_events es cm) = cm_coordinator cm"
  "cm_local_node_id (send_events es cm) = cm_local_node_id cm" "cm_events (send_events es cm) = cm_events cm @ es"
  "cm_config (send_events es cm) = cm_config cm"
  by (simp_all add: send_events_def)

lemma check_node_health_frame:
  assumes "check_node_health timing cm n = (h, cm')" and "coordinator_inv (cm_coordinator cm)"
  shows "cm_state cm' = cm_state cm \<and> cm_events cm' = cm_events cm \<and> cm_local_node_id cm' = cm_local_node_id cm
    \<and> cm_config cm' = cm_config cm
    \<and> coordinator_inv (cm_coordinator cm') \<and> local_node_id (cm_coordinator cm') = local_node_id (cm_coordinator cm)"
proof -
  obtain r co where t: "timed_health_check timing (cm_coordinator cm) n = (r, co)" by fastforce
  with assms timed_health_check_inv [OF t] show ?thesis
    by (auto simp: check_node_health_def split: option.splits sum.splits bool.splits)
qed

section \<open>Every operation keeps the invariant and tells its subscribers\<close>

lemma told_append: "foldl event_quorum b (es @ fs) = foldl event_quorum (foldl event_quorum b es) fs"
  by simp

lemma manager_add_node_inv:
  assumes "manager_inv cm" and "subscribers_right cm"
    and "manager_add_node reach timing now cm n addr = (r, cm')"
  shows "manager_inv cm' \<and> subscribers_right cm' \<and> cm_local_node_id cm' = cm_local_node_id cm
    \<and> (r = Inr () \<longrightarrow> has_quorum (cm_state cm') = check_quorum (cm_state cm'))"
proof (cases "n = cm_local_node_id cm")
  case True
  with assms show ?thesis by (auto simp: manager_add_node_def)
next
  case False
  obtain x co where a: "add_node reach (cm_coordinator cm) n addr = (x, co)" by fastforce
  with add_node_inv [of "cm_coordinator cm" reach n addr] assms(1)
  have co: "coordinator_inv co" "local_node_id co = cm_local_node_id cm" by (auto simp: manager_inv_def)
  show ?thesis
  proof (cases x)
    case (Inl e)
    with False a assms co show ?thesis
      by (auto simp: manager_add_node_def manager_inv_def subscribers_right_def told_quorum_def)
  next
    case (Inr u)
    obtain h cm1 where h: "check_node_health timing (cm\<lparr>cm_coordinator := co\<rparr>) n = (h, cm1)" by fastforce
    note f = check_node_health_frame [OF h, simplified, OF co(1)] co
    have wf: "cluster_wf ((cm_state cm)\<lparr>nodes := AList.update n ns (nodes (cm_state cm))\<rparr>)" if "ns_node_id ns = n" for ns
      using assms(1) False that by (auto simp: manager_inv_def intro: node_ids_update)
    define ns where "ns = (case h of
        Some latency \<Rightarrow> if latency > degraded_latency_threshold_ms (cm_config cm)
          then mark_degraded now latency (NodeState_new n addr) else mark_healthy now latency (NodeState_new n addr)
      | None \<Rightarrow> mark_unreachable now (NodeState_new n addr))"
    have ns: "ns_node_id ns = n" by (simp add: ns_def split: option.splits)
    let ?s1 = "(cm_state cm)\<lparr>nodes := AList.update n ns (nodes (cm_state cm))\<rparr>"
    have r: "r = Inr ()" and cm': "cm' = send_events ([NodeAdded n, NodeHealthChanged n (health ns)]
          @ (if has_quorum (cm_state cm) \<noteq> check_quorum ?s1 then [QuorumChanged (check_quorum ?s1)] else []))
        (cm1\<lparr>cm_state := ?s1\<lparr>has_quorum := check_quorum ?s1, last_updated := now\<rparr>\<rparr>)"
      using assms(3) False a Inr h f unfolding ns_def by (auto simp: manager_add_node_def Let_def)
    show ?thesis
      using assms f wf [OF ns] unfolding cm' r
      by (simp add: manager_inv_def subscribers_right_def told_quorum_def)
  qed
qed

lemma manager_remove_node_inv:
  assumes "manager_inv cm" and "subscribers_right cm"
  shows "manager_inv (manager_remove_node now cm n) \<and> subscribers_right (manager_remove_node now cm n)
    \<and> has_quorum (cm_state (manager_remove_node now cm n)) = check_quorum (cm_state (manager_remove_node now cm n))"
  using assms remove_node_inv [of "cm_coordinator cm" n] node_ids_delete [of "cm_state cm" n]
  by (auto simp: manager_remove_node_def Let_def manager_inv_def subscribers_right_def told_quorum_def remove_node_def)

lemma update_leader_inv:
  "manager_inv cm \<Longrightarrow> subscribers_right cm \<Longrightarrow>
     manager_inv (update_leader now cm l) \<and> subscribers_right (update_leader now cm l)"
  by (auto simp: update_leader_def Let_def manager_inv_def subscribers_right_def told_quorum_def)

lemma heartbeat_node_inv:
  assumes "manager_inv cm" and "subscribers_right cm"
  shows "manager_inv (heartbeat_node reach timing now cm x) \<and> subscribers_right (heartbeat_node reach timing now cm x)"
proof -
  obtain n addr where x: "x = (n, addr)" by fastforce
  obtain r co where t: "timed_health_check timing (cm_coordinator cm) n = (r, co)" by fastforce
  have co: "coordinator_inv co" "local_node_id co = cm_local_node_id cm"
    using timed_health_check_inv [OF t] assms(1) by (auto simp: manager_inv_def)
  show ?thesis
  proof (cases "map_of (nodes (cm_state cm)) n")
    case None
    with x t co assms show ?thesis
      by (auto simp: heartbeat_node_def Let_def manager_inv_def subscribers_right_def told_quorum_def)
  next
    case (Some node)
    then have "n \<noteq> cs_local_node_id (cm_state cm)" "ns_node_id node = n"
      using assms(1) map_of_SomeD [OF Some] by (force simp: manager_inv_def cluster_wf_def)+
    then have wf: "cluster_wf ((cm_state cm)\<lparr>nodes := AList.update n ns (nodes (cm_state cm))\<rparr>)" if "ns_node_id ns = n" for ns
      using assms(1) that by (auto simp: manager_inv_def intro: node_ids_update)
    from Some x t co assms wf \<open>ns_node_id node = n\<close> add_node_inv [OF co(1), of reach n addr] show ?thesis
      by (auto simp: heartbeat_node_def Let_def manager_inv_def subscribers_right_def told_quorum_def)
  qed
qed

lemma heartbeat_round_inv:
  assumes "manager_inv cm" and "subscribers_right cm"
  shows "manager_inv (heartbeat_round reach timing now cm) \<and> subscribers_right (heartbeat_round reach timing now cm)"
proof -
  have "manager_inv (foldl (heartbeat_node reach timing now) cm xs) \<and> subscribers_right (foldl (heartbeat_node reach timing now) cm xs)" for xs
    using assms by (induction xs arbitrary: cm) (simp_all add: heartbeat_node_inv)
  then show ?thesis by (simp add: heartbeat_round_def)
qed

lemma discover_loop_inv:
  "manager_inv cm \<Longrightarrow> subscribers_right cm \<Longrightarrow>
     manager_inv (discover_loop reach timing now cm ps) \<and> subscribers_right (discover_loop reach timing now cm ps)"
proof (induction ps arbitrary: cm)
  case (Cons p ps)
  show ?case
  proof (cases "pi_node_id p = cm_local_node_id cm")
    case True
    with Cons show ?thesis by simp
  next
    case False
    obtain r cm1 where a: "manager_add_node reach timing now cm (pi_node_id p) (http_addr p) = (r, cm1)" by fastforce
    note i = manager_add_node_inv [OF Cons.prems a]
    show ?thesis
    proof (cases r)
      case (Inr u)
      with False a i Cons.IH show ?thesis by simp
    next
      case (Inl e)
      let ?cm2 = "cm1\<lparr>cm_state := (cm_state cm1)\<lparr>nodes := AList.update (pi_node_id p)
         (NodeState_new (pi_node_id p) (http_addr p)) (nodes (cm_state cm1))\<rparr>\<rparr>"
      have "cluster_wf (cm_state ?cm2)"
        using i False by (auto simp: manager_inv_def intro: node_ids_update)
      with i have "manager_inv ?cm2" "subscribers_right ?cm2"
        by (auto simp: manager_inv_def subscribers_right_def told_quorum_def)
      with Cons.IH Inl False a show ?thesis by (simp add: Let_def)
    qed
  qed
qed simp

lemma discover_peers_inv:
  assumes "manager_inv cm" and "subscribers_right cm"
  shows "manager_inv (snd (discover_peers reach timing now cm ss))
    \<and> subscribers_right (snd (discover_peers reach timing now cm ss))"
proof (cases "parse_peers ss")
  case (Inr ps)
  from discover_loop_inv [OF assms, of reach timing now ps] Inr assms show ?thesis
    by (auto simp: discover_peers_def Let_def manager_inv_def subscribers_right_def told_quorum_def)
qed (use assms in \<open>auto simp: discover_peers_def\<close>)

section \<open>Runs\<close>

datatype manager_op =
    OpAdd u64 string
  | OpRemove u64
  | OpHeartbeat
  | OpLeader "u64 option"
  | OpDiscover "string list"

record surroundings =
  su_reach :: "string \<Rightarrow> ReplicationService \<times> delivery list"
  su_timing :: "u64 \<Rightarrow> probe"
  su_now :: instant

fun run_op :: "ClusterManager \<Rightarrow> surroundings \<times> manager_op \<Rightarrow> ClusterManager" where
  "run_op cm (e, OpAdd n a) = snd (manager_add_node (su_reach e) (su_timing e) (su_now e) cm n a)"
| "run_op cm (e, OpRemove n) = manager_remove_node (su_now e) cm n"
| "run_op cm (e, OpHeartbeat) = heartbeat_round (su_reach e) (su_timing e) (su_now e) cm"
| "run_op cm (e, OpLeader l) = update_leader (su_now e) cm l"
| "run_op cm (e, OpDiscover ss) = snd (discover_peers (su_reach e) (su_timing e) (su_now e) cm ss)"

lemma run_op_inv: "manager_inv cm \<Longrightarrow> subscribers_right cm \<Longrightarrow> manager_inv (run_op cm x) \<and> subscribers_right (run_op cm x)"
  by (cases "(cm, x)" rule: run_op.cases)
    (auto simp: manager_remove_node_inv update_leader_inv heartbeat_round_inv discover_peers_inv
      dest: manager_add_node_inv [OF _ _ surjective_pairing])

lemma filter_node_delete:
  assumes "distinct (map fst xs)" and "map_of xs i = Some n"
  shows "length (AList.delete i xs) = length xs - 1 \<and> 0 < length xs
    \<and> length (filter P (AList.delete i xs)) = (if P (i, n) then length (filter P xs) - 1 else length (filter P xs))
    \<and> (P (i, n) \<longrightarrow> 0 < length (filter P xs))"
  using assms
proof (induction xs)
  case (Cons x xs)
  obtain j m where x: "x = (j, m)" by fastforce
  show ?case
  proof (cases "j = i")
    case True
    then have "i \<notin> fst ` set xs" using Cons.prems x by auto
    then have "AList.delete i xs = xs" by (induction xs) auto
    with True Cons.prems x show ?thesis by simp
  next
    case False
    with Cons x have "length (AList.delete i xs) = length xs - 1 \<and> 0 < length xs
      \<and> length (filter P (AList.delete i xs)) = (if P (i, n) then length (filter P xs) - 1 else length (filter P xs))
      \<and> (P (i, n) \<longrightarrow> 0 < length (filter P xs))" by simp
    with False x show ?thesis by (auto split: if_splits)
  qed
qed simp

section \<open>A round of the heartbeat\<close>

text \<open>
  The coordinator has a client for every node that the manager knows. A check of a node without a
  client fails at once, and when it has failed often enough the heartbeat reconnects and skips the
  update of the flags.
\<close>

definition all_connected :: "ClusterManager \<Rightarrow> bool" where
  "all_connected cm \<longleftrightarrow> fst ` set (nodes (cm_state cm)) \<subseteq> set (connected_nodes (cm_coordinator cm))"

definition flags_fresh :: "ClusterState \<Rightarrow> bool" where
  "flags_fresh s \<longleftrightarrow> has_quorum s = check_quorum s \<and> partition_status s = detect_partition s"

definition counted :: "ClusterState \<Rightarrow> u64 \<Rightarrow> bool" where
  "counted s i \<longleftrightarrow> (case map_of (nodes s) i of None \<Rightarrow> False | Some n \<Rightarrow> NodeHealth_is_available (health n))"

lemma detect_partition_flags [simp]:
  "detect_partition (s\<lparr>has_quorum := b\<rparr>) = detect_partition s" "detect_partition (s\<lparr>partition_status := ps\<rparr>) = detect_partition s"
  "detect_partition (s\<lparr>last_updated := t\<rparr>) = detect_partition s"
  by (simp_all add: detect_partition_def total_node_count_def Let_def)

lemma fresh_can_write:
  assumes "flags_fresh (cm_state cm)"
  shows "can_write cm \<longleftrightarrow> check_quorum (cm_state cm)"
  using assms by (auto simp: flags_fresh_def can_write_def should_accept_writes_def detect_partition_def Let_def split: if_splits)

lemma available_count:
  assumes "distinct (map fst (nodes s))"
  shows "available_node_count s = length (filter (counted s) (map fst (nodes s)))"
proof -
  have "filter node_available (nodes s) = filter (\<lambda>x. counted s (fst x)) (nodes s)"
    using assms by (intro filter_cong) (auto simp: counted_def)
  then show ?thesis by (simp add: available_node_count_def filter_map comp_def)
qed

lemma heartbeat_mark_available:
  "NodeHealth_is_available (health (heartbeat_mark config now t (Some (Inr b)) n))"
  "\<not> NodeHealth_is_available (health (heartbeat_mark config now t None n))"
  by (auto simp: heartbeat_mark_def mark_healthy_def mark_degraded_def mark_unreachable_def split: bool.splits)

lemma timed_health_check_connected:
  assumes "n \<in> set (connected_nodes co)" and "timed_health_check timing co n = (r, co')"
  shows "(r = None \<and> timed_out (timing n) \<or> (\<exists>b. r = Some (Inr b)) \<and> \<not> timed_out (timing n)) \<and> connected_nodes co' = connected_nodes co"
proof -
  obtain p where p: "map_of (clients co) n = Some p"
    using assms(1) map_of_eq_None_iff [of "clients co" n] by (auto simp: connected_nodes_def simp del: map_of_eq_None_iff)
  obtain x co1 where c: "coordinator_health_check co n = (x, co1)" by fastforce
  moreover have "\<exists>b. x = Inr b" using c p by (auto simp: coordinator_health_check_def split: prod.splits)
  ultimately show ?thesis
    using assms(2) coordinator_health_check_inv(1) [OF c] by (cases "timed_out (timing n)") (auto simp: timed_health_check_def)
qed

lemma heartbeat_node_connected:
  assumes "all_connected cm" and "n \<in> fst ` set (nodes (cm_state cm))" and "heartbeat_node reach timing now cm (n, addr) = cm'"
  shows "all_connected cm' \<and> map fst (nodes (cm_state cm')) = map fst (nodes (cm_state cm)) \<and> flags_fresh (cm_state cm')
    \<and> counted (cm_state cm') = (counted (cm_state cm))(n := \<not> timed_out (timing n))
    \<and> cm_local_node_id cm' = cm_local_node_id cm"
proof -
  let ?s = "cm_state cm"
  obtain r co where t: "timed_health_check timing (cm_coordinator cm) n = (r, co)" by fastforce
  have "n \<in> set (connected_nodes (cm_coordinator cm))" using assms(1,2) by (auto simp: all_connected_def)
  note c = timed_health_check_connected [OF this t]
  obtain node where node: "map_of (nodes ?s) n = Some node" using assms(2) by (metis map_of_eq_None_iff not_Some_eq)
  let ?node = "heartbeat_mark (cm_config cm) now (timing n) r node"
  let ?s1 = "?s\<lparr>nodes := AList.update n ?node (nodes ?s)\<rparr>"
  have k: "map fst (AList.update n ?node (nodes ?s)) = map fst (nodes ?s)" using assms(2) by (simp add: update_keys)
  have a: "NodeHealth_is_available (health ?node) \<longleftrightarrow> \<not> timed_out (timing n)" using c heartbeat_mark_available by auto
  have "(case r of Some (Inl _) \<Rightarrow> True | _ \<Rightarrow> False) = False" using c by auto
  then have s': "cm_state cm' = ?s1\<lparr>has_quorum := check_quorum ?s1, partition_status := detect_partition ?s1, last_updated := now\<rparr>"
    and f: "cm_coordinator cm' = co" "cm_local_node_id cm' = cm_local_node_id cm"
    using assms(3) t node by (auto simp: heartbeat_node_def Let_def)
  have "fst ` set (AList.update n ?node (nodes ?s)) = fst ` set (nodes ?s)" using k by (metis list.set_map)
  with assms(1) c f s' have "all_connected cm'" by (simp add: all_connected_def)
  moreover have "counted (cm_state cm') = (counted ?s)(n := \<not> timed_out (timing n))"
    using a by (auto simp: s' counted_def update_conv' fun_eq_iff)
  moreover have "flags_fresh (cm_state cm')" by (simp add: s' flags_fresh_def)
  ultimately show ?thesis using k f(2) s' by simp
qed

lemma heartbeat_nodes_connected:
  assumes "all_connected cm" and "fst ` set xs \<subseteq> fst ` set (nodes (cm_state cm))"
    and "foldl (heartbeat_node reach timing now) cm xs = cm'"
  shows "map fst (nodes (cm_state cm')) = map fst (nodes (cm_state cm)) \<and> (xs \<noteq> [] \<longrightarrow> flags_fresh (cm_state cm'))
    \<and> (\<forall>i. counted (cm_state cm') i = (if i \<in> fst ` set xs then \<not> timed_out (timing i) else counted (cm_state cm) i))
    \<and> cm_local_node_id cm' = cm_local_node_id cm"
  using assms
proof (induction xs arbitrary: cm)
  case (Cons x xs)
  obtain n addr where x: "x = (n, addr)" by fastforce
  let ?cm1 = "heartbeat_node reach timing now cm x"
  have n: "n \<in> fst ` set (nodes (cm_state cm))" using Cons.prems(2) x by simp
  note h = heartbeat_node_connected [OF Cons.prems(1) n, of reach timing now addr ?cm1, unfolded x, OF refl, folded x]
  then have "fst ` set (nodes (cm_state ?cm1)) = fst ` set (nodes (cm_state cm))" by (metis list.set_map)
  then have i: "fst ` set xs \<subseteq> fst ` set (nodes (cm_state ?cm1))" using Cons.prems(2) by simp
  have "foldl (heartbeat_node reach timing now) ?cm1 xs = cm'" using Cons.prems(3) by simp
  note IH = Cons.IH [OF _ i this]
  show ?case
  proof (cases "xs = []")
    case True
    with Cons.prems(3) h x show ?thesis by auto
  next
    case False
    with IH h x show ?thesis by auto
  qed
qed simp

lemma heartbeat_round_exact:
  assumes "manager_inv cm" and "all_connected cm" and "nodes (cm_state cm) \<noteq> []"
    and "cm' = heartbeat_round reach timing now cm"
  shows "flags_fresh (cm_state cm') \<and> map fst (nodes (cm_state cm')) = map fst (nodes (cm_state cm))
    \<and> (\<forall>i \<in> fst ` set (nodes (cm_state cm)). counted (cm_state cm') i \<longleftrightarrow> \<not> timed_out (timing i))
    \<and> (can_write cm' \<longleftrightarrow>
        length (filter (\<lambda>i. \<not> timed_out (timing i)) (map fst (nodes (cm_state cm)))) + 1 > total_node_count (cm_state cm) div 2)"
proof -
  let ?xs = "map (\<lambda>(i, n). (i, ns_address n)) (nodes (cm_state cm))"
  have k: "fst ` set ?xs = fst ` set (nodes (cm_state cm))" by force
  note h = heartbeat_nodes_connected [OF assms(2), of ?xs reach timing now cm', unfolded k, OF subset_refl]
  have f: "foldl (heartbeat_node reach timing now) cm ?xs = cm'" using assms(4) by (simp add: heartbeat_round_def)
  have fr: "flags_fresh (cm_state cm')" and m: "map fst (nodes (cm_state cm')) = map fst (nodes (cm_state cm))"
    and c: "\<forall>i \<in> fst ` set (nodes (cm_state cm)). counted (cm_state cm') i \<longleftrightarrow> \<not> timed_out (timing i)"
    using h [OF f] assms(3) by simp_all
  have "distinct (map fst (nodes (cm_state cm')))" using assms(1) m by (simp add: manager_inv_def cluster_wf_def)
  then have "available_node_count (cm_state cm') = length (filter (\<lambda>i. \<not> timed_out (timing i)) (map fst (nodes (cm_state cm))))"
    unfolding available_count [OF \<open>distinct _\<close>] m using c by (intro arg_cong [where f = length] filter_cong) auto
  moreover have "total_node_count (cm_state cm') = total_node_count (cm_state cm)"
    using m by (metis length_map total_node_count_def)
  ultimately show ?thesis using fr m c fresh_can_write [OF fr] by (simp add: check_quorum_def)
qed

section \<open>Properties\<close>

text \<open>
  C28: Writes follow the heartbeat. After any run of the cluster manager, with any operations in any
  surroundings, followed by a round of the heartbeat over nodes that the coordinator has clients for,
  the quorum flag and the partition status are those of the table of nodes, the quorum events sent so
  far tell a subscriber the same, and writes are accepted exactly if the local node and the nodes whose
  check ended within its time limit are more than half of all nodes. In between the flags may lag
  behind the table: the initial state and a reconnection leave them as they are. A check that ends in
  time counts whatever its outcome, a refused connection too.
\<close>

theorem manager_runs_consistent:
  assumes "cm = foldl run_op (ClusterManager_new i qc config now) xs" and "all_connected cm" and "nodes (cm_state cm) \<noteq> []"
    and "cm' = run_op cm (e, OpHeartbeat)"
  shows "has_quorum (cm_state cm') = check_quorum (cm_state cm') \<and> partition_status (cm_state cm') = detect_partition (cm_state cm')
    \<and> told_quorum cm' = has_quorum (cm_state cm')
    \<and> (can_write cm' \<longleftrightarrow>
        length (filter (\<lambda>n. \<not> timed_out (su_timing e n)) (map fst (nodes (cm_state cm)))) + 1 > (length (nodes (cm_state cm)) + 1) div 2)"
proof -
  have "manager_inv (ClusterManager_new i qc config now)" "subscribers_right (ClusterManager_new i qc config now)"
    by (simp_all add: ClusterManager_new_def with_coordinator_def ClusterState_new_def ReplicationCoordinator_new_def
        manager_inv_def cluster_wf_def coordinator_inv_def subscribers_right_def told_quorum_def)
  then have inv: "manager_inv cm \<and> subscribers_right cm"
    unfolding assms(1) by (induction xs rule: rev_induct) (simp_all add: run_op_inv)
  with run_op_inv [of cm "(e, OpHeartbeat)"] have "subscribers_right cm'" using assms(4) by blast
  moreover have "cm' = heartbeat_round (su_reach e) (su_timing e) (su_now e) cm" using assms(4) by simp
  note heartbeat_round_exact [OF conjunct1 [OF inv] assms(2,3) this]
  ultimately show ?thesis by (simp add: flags_fresh_def subscribers_right_def total_node_count_def)
qed

text \<open>
  C30: Removing a node that the manager says can be removed keeps a quorum. If the available nodes are
  a majority and the check allows the removal, they are a majority of the remaining nodes, the
  recorded flag says so, and the node is gone.
\<close>

theorem safe_removal_keeps_quorum:
  assumes "manager_inv cm" and "check_quorum (cm_state cm)" and "can_remove_node cm n"
  shows "has_quorum (cm_state (manager_remove_node now cm n)) \<and> check_quorum (cm_state (manager_remove_node now cm n))
    \<and> map_of (nodes (cm_state (manager_remove_node now cm n))) n = None"
proof -
  let ?xs = "nodes (cm_state cm)"
  have "check_quorum ((cm_state cm)\<lparr>nodes := AList.delete n ?xs\<rparr>)"
  proof (cases "map_of ?xs n")
    case None
    then have "AList.delete n ?xs = ?xs" unfolding AList.delete_eq map_of_eq_None_iff filter_id_conv by force
    with assms(2) show ?thesis by simp
  next
    case (Some node)
    have "distinct (map fst ?xs)" using assms(1) by (simp add: manager_inv_def cluster_wf_def)
    from filter_node_delete [OF this Some, of node_available] assms(2,3) Some show ?thesis
      by (auto simp: check_quorum_def available_node_count_def total_node_count_def can_remove_node_def Let_def
          split: if_splits)
  qed
  then show ?thesis by (simp add: manager_remove_node_def Let_def delete_conv')
qed

definition example_node :: "NodeHealth \<Rightarrow> u64 \<Rightarrow> u64 \<times> NodeState" where
  "example_node h i = (i, (NodeState_new i ''http://peer:9000'')\<lparr>health := h\<rparr>)"

definition example_manager :: "u64 \<Rightarrow> (u64 \<times> NodeState) list \<Rightarrow> ClusterManager" where
  "example_manager i ns = (ClusterManager_new i QuorumConfig_default ClusterManagerConfig_default 0)
     \<lparr>cm_state := (ClusterState_new i 0)\<lparr>nodes := ns, has_quorum := True\<rparr>\<rparr>"

theorem safe_removal_keeps_quorum_witness:
  "let cm = example_manager 1 [example_node NodeHealthy 2, example_node NodeHealthy 3]
   in can_remove_node cm 3 \<and> has_quorum (cm_state (manager_remove_node 5 cm 3))"
proof -
  let ?cm = "example_manager 1 [example_node NodeHealthy 2, example_node NodeHealthy 3]"
  have i: "manager_inv ?cm" by code_simp
  have q: "check_quorum (cm_state ?cm)" by code_simp
  have r: "can_remove_node ?cm 3" by code_simp
  from safe_removal_keeps_quorum [OF i q r, of 5] r show ?thesis by (simp add: Let_def)
qed

text \<open>
  C29: No split brain between managers that do not hear the same nodes. Take two managers of the same
  set of nodes, with clients for all of them, and a round of the heartbeat of each. If no node, each
  manager's own included, has been heard in time by both, then at most one of the two accepts writes.
  A node is heard if its check ends within the time limit, whatever the outcome: a node that refuses
  the connection is heard.
\<close>

theorem no_split_brain:
  assumes "manager_inv cm1" and "manager_inv cm2" and "all_connected cm1" and "all_connected cm2"
    and "insert (cm_local_node_id cm1) (set (map fst (nodes (cm_state cm1))))
       = insert (cm_local_node_id cm2) (set (map fst (nodes (cm_state cm2))))"
    and "heard1 = insert (cm_local_node_id cm1) {i \<in> fst ` set (nodes (cm_state cm1)). \<not> timed_out (timing1 i)}"
    and "heard2 = insert (cm_local_node_id cm2) {i \<in> fst ` set (nodes (cm_state cm2)). \<not> timed_out (timing2 i)}"
    and "heard1 \<inter> heard2 = {}"
  shows "\<not> (can_write (heartbeat_round reach1 timing1 now1 cm1) \<and> can_write (heartbeat_round reach2 timing2 now2 cm2))"
proof
  assume w: "can_write (heartbeat_round reach1 timing1 now1 cm1) \<and> can_write (heartbeat_round reach2 timing2 now2 cm2)"
  let ?N = "\<lambda>cm. insert (cm_local_node_id cm) (set (map fst (nodes (cm_state cm))))"
  have side: "card (?N cm) = total_node_count (cm_state cm)
      \<and> total_node_count (cm_state cm) div 2 + 1 \<le> card (insert (cm_local_node_id cm) {i \<in> fst ` set (nodes (cm_state cm)). \<not> timed_out (timing i)})"
    if i: "manager_inv cm" "all_connected cm" "nodes (cm_state cm) \<noteq> []" "can_write (heartbeat_round reach timing now cm)" for cm reach timing now
  proof -
    let ?ks = "map fst (nodes (cm_state cm))"
    have d: "distinct ?ks" "cm_local_node_id cm \<notin> set ?ks" using i(1) unfolding manager_inv_def cluster_wf_def by metis+
    have e: "{i \<in> fst ` set (nodes (cm_state cm)). \<not> timed_out (timing i)} = set (filter (\<lambda>i. \<not> timed_out (timing i)) ?ks)" by auto
    have c: "card (set (filter (\<lambda>i. \<not> timed_out (timing i)) ?ks)) = length (filter (\<lambda>i. \<not> timed_out (timing i)) ?ks)"
      using d(1) by (intro distinct_card distinct_filter)
    have "cm_local_node_id cm \<notin> set (filter (\<lambda>i. \<not> timed_out (timing i)) ?ks)" using d(2) by auto
    then have "card (insert (cm_local_node_id cm) (set (filter (\<lambda>i. \<not> timed_out (timing i)) ?ks)))
        = length (filter (\<lambda>i. \<not> timed_out (timing i)) ?ks) + 1" by (subst card_insert_disjoint) (simp_all only: c finite_set Suc_eq_plus1 not_False_eq_True)
    moreover have "card (?N cm) = total_node_count (cm_state cm)"
      using d distinct_card [OF d(1)] by (subst card_insert_disjoint) (simp_all only: finite_set total_node_count_def length_map Suc_eq_plus1 not_False_eq_True)
    ultimately show ?thesis using heartbeat_round_exact [OF i(1-3) refl, of reach timing now] i(4) unfolding e by simp
  qed
  have ne: "cm_local_node_id cm1 \<noteq> cm_local_node_id cm2" using assms(6-8) by auto
  with assms(5) have "nodes (cm_state cm1) \<noteq> []" "nodes (cm_state cm2) \<noteq> []" by auto
  with side [of cm1 reach1 timing1 now1] side [of cm2 reach2 timing2 now2] w assms(1-5)
  have s: "card (?N cm1) = total_node_count (cm_state cm1)" "total_node_count (cm_state cm1) div 2 + 1 \<le> card heard1"
    "total_node_count (cm_state cm1) div 2 + 1 \<le> card heard2" unfolding assms(6,7) by simp_all
  have "heard1 \<subseteq> ?N cm1" "heard2 \<subseteq> ?N cm1" unfolding assms(5) using assms(5) by (auto simp: assms(6,7))
  from majorities_meet [OF _ _ this s(2,3)] s(1) assms(8) show False by auto
qed

text \<open>Managers for the examples: nodes 1 and 3 of a cluster of three, where some checks take too long.\<close>

definition silent :: "u64 list \<Rightarrow> surroundings" where
  "silent slow = \<lparr>su_reach = (\<lambda>_. (example_service, [])), su_timing = (\<lambda>n. \<lparr>timed_out = n \<in> set slow, elapsed_ms = 1\<rparr>), su_now = 5\<rparr>"

definition three_nodes :: "u64 \<Rightarrow> u64 \<Rightarrow> u64 \<Rightarrow> ClusterManager" where
  "three_nodes i j k = foldl run_op (ClusterManager_new i QuorumConfig_default ClusterManagerConfig_default 0)
     [(silent [], OpAdd j ''http://peer:9000''), (silent [], OpAdd k ''http://peer:9000'')]"

lemma check_node_health_tables:
  assumes "check_node_health timing cm n = (h, cm')"
  shows "connected_nodes (cm_coordinator cm') = connected_nodes (cm_coordinator cm) \<and> co_tls (cm_coordinator cm') = co_tls (cm_coordinator cm)
    \<and> cm_state cm' = cm_state cm \<and> cm_local_node_id cm' = cm_local_node_id cm"
proof -
  obtain x co where c: "coordinator_health_check (cm_coordinator cm) n = (x, co)" by fastforce
  from c have "co_tls co = co_tls (cm_coordinator cm)"
    by (auto simp: coordinator_health_check_def split: option.splits prod.splits)
  with assms c coordinator_health_check_inv(1) [OF c] show ?thesis
    by (auto simp: check_node_health_def timed_health_check_def split: option.splits sum.splits bool.splits if_splits)
qed

lemma add_tables:
  assumes "n \<noteq> cm_local_node_id cm" and "local_node_id (cm_coordinator cm) = cm_local_node_id cm" and "co_tls (cm_coordinator cm) = None"
    and "connected_nodes (cm_coordinator cm) = map fst (nodes (cm_state cm))" and "cm' = run_op cm (e, OpAdd n a)"
  shows "map fst (nodes (cm_state cm')) = (if n \<in> set (map fst (nodes (cm_state cm))) then map fst (nodes (cm_state cm))
        else map fst (nodes (cm_state cm)) @ [n])
    \<and> connected_nodes (cm_coordinator cm') = map fst (nodes (cm_state cm')) \<and> co_tls (cm_coordinator cm') = None
    \<and> cm_local_node_id cm' = cm_local_node_id cm"
proof -
  obtain co where a: "add_node (su_reach e) (cm_coordinator cm) n a = (Inr (), co)" "co_tls co = None"
    and k: "connected_nodes co = map fst (AList.update n undefined (clients (cm_coordinator cm)))"
    using assms(1-3) by (simp add: add_node_def connected_nodes_def update_keys)
  obtain h cm1 where h: "check_node_health (su_timing e) (cm\<lparr>cm_coordinator := co\<rparr>) n = (h, cm1)" by fastforce
  show ?thesis
    using assms a k check_node_health_tables [OF h] h by (simp add: manager_add_node_def Let_def connected_nodes_def update_keys)
qed

lemma three_nodes_tables:
  assumes "i \<noteq> j" and "i \<noteq> k" and "j \<noteq> k"
  shows "manager_inv (three_nodes i j k)" and "all_connected (three_nodes i j k)"
    and "map fst (nodes (cm_state (three_nodes i j k))) = [j, k]" and "cm_local_node_id (three_nodes i j k) = i"
proof -
  let ?cm = "ClusterManager_new i QuorumConfig_default ClusterManagerConfig_default 0"
  let ?cm1 = "run_op ?cm (silent [], OpAdd j ''http://peer:9000'')"
  have i: "manager_inv ?cm \<and> subscribers_right ?cm"
    by (simp add: ClusterManager_new_def with_coordinator_def ClusterState_new_def ReplicationCoordinator_new_def
        manager_inv_def cluster_wf_def coordinator_inv_def subscribers_right_def told_quorum_def)
  have n: "connected_nodes (cm_coordinator ?cm) = map fst (nodes (cm_state ?cm))" "co_tls (cm_coordinator ?cm) = None"
    "cm_local_node_id ?cm = i" "local_node_id (cm_coordinator ?cm) = cm_local_node_id ?cm" "nodes (cm_state ?cm) = []"
    by (simp_all add: ClusterManager_new_def with_coordinator_def ClusterState_new_def ReplicationCoordinator_new_def connected_nodes_def)
  have i1: "manager_inv ?cm1 \<and> subscribers_right ?cm1" using i run_op_inv by blast
  have t: "three_nodes i j k = run_op ?cm1 (silent [], OpAdd k ''http://peer:9000'')" by (simp add: three_nodes_def)
  show "manager_inv (three_nodes i j k)" unfolding t using i1 run_op_inv by blast
  note a = add_tables [OF _ n(4,2,1) refl, of j "silent []" "''http://peer:9000''"]
  have "local_node_id (cm_coordinator ?cm1) = cm_local_node_id ?cm1" using i1 by (simp add: manager_inv_def)
  note b = add_tables [OF _ this _ _ t]
  have a1: "map fst (nodes (cm_state ?cm1)) = [j]" "connected_nodes (cm_coordinator ?cm1) = map fst (nodes (cm_state ?cm1))"
    "co_tls (cm_coordinator ?cm1) = None" "cm_local_node_id ?cm1 = i"
    using a assms n by simp_all
  have b1: "map fst (nodes (cm_state (three_nodes i j k))) = [j, k] \<and> connected_nodes (cm_coordinator (three_nodes i j k)) = [j, k]
      \<and> cm_local_node_id (three_nodes i j k) = i"
    using b a1 assms unfolding a1(1) by (simp del: set_map run_op.simps)
  then show "map fst (nodes (cm_state (three_nodes i j k))) = [j, k]" "cm_local_node_id (three_nodes i j k) = i" by simp_all
  from b1 have "fst ` set (nodes (cm_state (three_nodes i j k))) = {j, k}" by (metis list.set_map set_simps(1,2) list.simps(15) empty_set)
  with b1 show "all_connected (three_nodes i j k)" by (simp add: all_connected_def)
qed

lemmas three_nodes_1 = three_nodes_tables [of 1 2 3, simplified]
  and three_nodes_3 = three_nodes_tables [of 3 1 2, simplified]

lemma slow_nodes: "timed_out (su_timing (silent slow) n) \<longleftrightarrow> n \<in> set slow"
  by (simp add: silent_def)

theorem manager_runs_consistent_witness:
  "can_write (run_op (three_nodes 1 2 3) (silent [3], OpHeartbeat)) \<and> \<not> can_write (run_op (three_nodes 1 2 3) (silent [2, 3], OpHeartbeat))
   \<and> told_quorum (run_op (three_nodes 1 2 3) (silent [2, 3], OpHeartbeat)) = has_quorum (cm_state (run_op (three_nodes 1 2 3) (silent [2, 3], OpHeartbeat)))"
proof -
  have n: "nodes (cm_state (three_nodes 1 2 3)) \<noteq> []" "length (nodes (cm_state (three_nodes 1 2 3))) = 2"
    using three_nodes_1(3) by (auto dest: arg_cong [where f = length])
  note m = manager_runs_consistent [OF three_nodes_def three_nodes_1(2) n(1) refl]
  show ?thesis using m [of "silent [3]"] m [of "silent [2, 3]"] by (simp add: three_nodes_1(3) n(2) slow_nodes)
qed

theorem no_split_brain_witness:
  "can_write (heartbeat_round (su_reach (silent [])) (su_timing (silent [3])) 5 (three_nodes 1 2 3))
   \<and> \<not> can_write (heartbeat_round (su_reach (silent [])) (su_timing (silent [1, 2])) 5 (three_nodes 3 1 2))"
proof -
  have k: "fst ` set (nodes (cm_state (three_nodes 1 2 3))) = {2, 3}" "fst ` set (nodes (cm_state (three_nodes 3 1 2))) = {1, 2}"
    using three_nodes_1(3) three_nodes_3(3) by (metis list.set_map list.simps(15) empty_set)+
  have i: "insert (cm_local_node_id (three_nodes 1 2 3)) (set (map fst (nodes (cm_state (three_nodes 1 2 3)))))
      = insert (cm_local_node_id (three_nodes 3 1 2)) (set (map fst (nodes (cm_state (three_nodes 3 1 2)))))"
    unfolding three_nodes_1 three_nodes_3 by auto
  have n: "nodes (cm_state (three_nodes 1 2 3)) \<noteq> []" "length (nodes (cm_state (three_nodes 1 2 3))) = 2"
    using three_nodes_1(3) by (auto dest: arg_cong [where f = length])
  have "can_write (heartbeat_round (su_reach (silent [])) (su_timing (silent [3])) 5 (three_nodes 1 2 3))"
    using heartbeat_round_exact [OF three_nodes_1(1,2) n(1) refl] by (simp add: three_nodes_1(3) n(2) slow_nodes total_node_count_def)
  moreover have "insert (cm_local_node_id (three_nodes 1 2 3)) {i \<in> fst ` set (nodes (cm_state (three_nodes 1 2 3))). \<not> timed_out (su_timing (silent [3]) i)}
      \<inter> insert (cm_local_node_id (three_nodes 3 1 2)) {i \<in> fst ` set (nodes (cm_state (three_nodes 3 1 2))). \<not> timed_out (su_timing (silent [1, 2]) i)} = {}"
    unfolding k three_nodes_1 three_nodes_3 slow_nodes by auto
  note no_split_brain [OF three_nodes_1(1) three_nodes_3(1) three_nodes_1(2) three_nodes_3(2) i refl refl this]
  ultimately show ?thesis by blast
qed

text \<open>
  A node that refuses connections keeps counting as available. The coordinator's health check
  answers that the node is not healthy instead of failing, and the heartbeat marks such a node as
  degraded, which counts for the quorum; only a check that exceeds its time limit marks a node as
  unreachable.
\<close>

theorem dead_node_counts_as_available:
  assumes "manager_inv cm" and "map_of (nodes (cm_state cm)) n = Some node"
    and "map_of (clients (cm_coordinator cm)) n = Some p" and "is_healthy p = (False, p')"
    and "\<not> timed_out (timing n)"
  shows "n \<in> set (available_nodes (cm_state (heartbeat_node reach timing now cm (n, addr))))"
proof -
  let ?node = "heartbeat_mark (cm_config cm) now (timing n) (Some (Inr False)) node"
  have t: "fst (timed_health_check timing (cm_coordinator cm) n) = Some (Inr False)"
    using assms(3-5) by (simp add: timed_health_check_def coordinator_health_check_def)
  have i: "ns_node_id node = n"
    using assms(1) map_of_SomeD [OF assms(2)] by (auto simp: manager_inv_def cluster_wf_def)
  have e: "nodes (cm_state (heartbeat_node reach timing now cm (n, addr))) = AList.update n ?node (nodes (cm_state cm))"
    using t assms(2) by (auto simp: heartbeat_node_def Let_def split: prod.splits)
  have "(n, ?node) \<in> set (AList.update n ?node (nodes (cm_state cm)))"
    by (rule map_of_SomeD) (simp add: update_conv')
  moreover have "NodeHealth_is_available (health ?node)" by (simp add: heartbeat_mark_def mark_degraded_def)
  ultimately have "(n, ?node) \<in> set (filter node_available (AList.update n ?node (nodes (cm_state cm))))" by simp
  then show ?thesis
    unfolding available_nodes_def e using i by (intro image_eqI [where x = "(n, ?node)", THEN set_map [THEN equalityD2, THEN subsetD]]) simp_all
qed

theorem dead_node_counts_as_available_witness:
  "let cm = (example_manager 1 [example_node NodeHealthy 2])
         \<lparr>cm_coordinator := (ReplicationCoordinator_new 1 QuorumConfig_default)
            \<lparr>clients := [(2, example_peer 2 [RequestLost ''refused''])]\<rparr>\<rparr>
   in 2 \<in> set (available_nodes (cm_state (heartbeat_node (\<lambda>_. (example_service, [])) (\<lambda>_. \<lparr>timed_out = False, elapsed_ms = 1\<rparr>)
        7 cm (2, ''http://peer:9000''))))"
proof -
  let ?p = "example_peer 2 [RequestLost ''refused'']"
  let ?cm = "(example_manager 1 [example_node NodeHealthy 2])
    \<lparr>cm_coordinator := (ReplicationCoordinator_new 1 QuorumConfig_default)\<lparr>clients := [(2, ?p)]\<rparr>\<rparr>"
  have i: "manager_inv ?cm" by code_simp
  have m: "map_of (nodes (cm_state ?cm)) 2 = Some (snd (example_node NodeHealthy 2))"
    by (simp add: example_manager_def example_node_def)
  have c: "map_of (clients (cm_coordinator ?cm)) 2 = Some ?p" by simp
  have "\<not> fst (is_healthy ?p)" by code_simp
  then have h: "is_healthy ?p = (False, snd (is_healthy ?p))" by (simp add: prod_eq_iff)
  have t: "\<not> timed_out ((\<lambda>_. \<lparr>timed_out = False, elapsed_ms = 1\<rparr>) (2 :: u64))" by simp
  from dead_node_counts_as_available [OF i m c h t] show ?thesis by (simp add: Let_def)
qed

end
