(* ===== verification/Common_Grpc.thy ===== *)
theory Common_Grpc
  imports Save_Prelude
begin

text \<open>
  The framing of messages between nodes, \<open>crates/save-common/src/grpc.rs\<close> and the copies of it in
  \<open>save-metadata/src/raft/server.rs\<close> and \<open>save-storage/src/replication/server.rs\<close>: one byte that
  says whether the message is compressed, its length as four bytes with the highest first, and the
  message. The encoding of the messages themselves (prost) is a parameter.
\<close>

section \<open>Statuses and responses\<close>

datatype Code =
    CodeOk | Cancelled | Unknown | InvalidArgument | DeadlineExceeded | CodeNotFound | AlreadyExists
  | PermissionDenied | ResourceExhausted | FailedPrecondition | Aborted | OutOfRange | Unimplemented
  | CodeInternal | Unavailable | DataLoss | Unauthenticated

text \<open>The number of a code on the wire; the table of \<open>status_to_code\<close> in \<open>internal_api/server.rs\<close>.\<close>

fun status_to_code :: "Code \<Rightarrow> string" where
  "status_to_code CodeOk = ''0''"
| "status_to_code Cancelled = ''1''"
| "status_to_code Unknown = ''2''"
| "status_to_code InvalidArgument = ''3''"
| "status_to_code DeadlineExceeded = ''4''"
| "status_to_code CodeNotFound = ''5''"
| "status_to_code AlreadyExists = ''6''"
| "status_to_code PermissionDenied = ''7''"
| "status_to_code ResourceExhausted = ''8''"
| "status_to_code FailedPrecondition = ''9''"
| "status_to_code Aborted = ''10''"
| "status_to_code OutOfRange = ''11''"
| "status_to_code Unimplemented = ''12''"
| "status_to_code CodeInternal = ''13''"
| "status_to_code Unavailable = ''14''"
| "status_to_code DataLoss = ''15''"
| "status_to_code Unauthenticated = ''16''"

record Status =
  st_code :: Code
  st_message :: string

definition invalid_argument :: "string \<Rightarrow> Status" where
  "invalid_argument msg = \<lparr>st_code = InvalidArgument, st_message = msg\<rparr>"

definition status_internal :: "string \<Rightarrow> Status" where
  "status_internal msg = \<lparr>st_code = CodeInternal, st_message = msg\<rparr>"

definition unimplemented :: "string \<Rightarrow> Status" where
  "unimplemented msg = \<lparr>st_code = Unimplemented, st_message = msg\<rparr>"

definition status_not_found :: "string \<Rightarrow> Status" where
  "status_not_found msg = \<lparr>st_code = CodeNotFound, st_message = msg\<rparr>"

record grpc_response =
  gr_status :: nat
  gr_headers :: "(string \<times> string) list"
  gr_body :: data
  gr_trailers :: "(string \<times> string) list"

text \<open>The encoding of one type of messages.\<close>

record 'm message =
  ms_encode :: "'m \<Rightarrow> data"
  ms_decode :: "data \<Rightarrow> string + 'm"

text \<open>A message that can be sent: it is read back from its encoding, which is shorter than four gibibytes.\<close>

definition fits :: "'m message \<Rightarrow> 'm \<Rightarrow> bool" where
  "fits c m \<longleftrightarrow> ms_decode c (ms_encode c m) = Inr m \<and> length (ms_encode c m) < 2 ^ 32"

section \<open>Frames\<close>

definition GRPC_HEADER_LEN :: nat where
  "GRPC_HEADER_LEN = 5"

text \<open>\<open>u32::from_be_bytes\<close> and \<open>u32::to_be_bytes\<close>.\<close>

definition from_be_bytes :: "data \<Rightarrow> u32" where
  "from_be_bytes bs = foldl (\<lambda>a b. push_bit 8 a + ucast b) 0 bs"

definition to_be_bytes :: "u32 \<Rightarrow> data" where
  "to_be_bytes w = map (\<lambda>i. ucast (drop_bit i w)) [24, 16, 8, 0]"

text \<open>The length in the header of the frame at an offset.\<close>

definition frame_len :: "data \<Rightarrow> nat \<Rightarrow> nat" where
  "frame_len body offset =
     unat (from_be_bytes [body ! (offset + 1), body ! (offset + 2), body ! (offset + 3), body ! (offset + 4)])"

definition parse_grpc_frame :: "data \<Rightarrow> Status + data" where
  "parse_grpc_frame body =
     (if length body < GRPC_HEADER_LEN then Inl (invalid_argument ''incomplete grpc frame header'')
      else
        (let len = frame_len body 0 in
         if length body < GRPC_HEADER_LEN + len then Inl (invalid_argument ''incomplete grpc frame body'')
         else Inr (take len (drop GRPC_HEADER_LEN body))))"

text \<open>The bytes the responses write for one message; the length is cast to 32 bits.\<close>

definition grpc_frame :: "data \<Rightarrow> data" where
  "grpc_frame msg = 0 # to_be_bytes (of_nat (length msg)) @ msg"

definition create_grpc_response :: "'m message \<Rightarrow> 'm \<Rightarrow> grpc_response" where
  "create_grpc_response c msg =
     \<lparr>gr_status = 200, gr_headers = [(''content-type'', ''application/grpc'')],
      gr_body = grpc_frame (ms_encode c msg), gr_trailers = [(''grpc-status'', ''0'')]\<rparr>"

definition create_grpc_streaming_response :: "'m message \<Rightarrow> 'm list \<Rightarrow> grpc_response" where
  "create_grpc_streaming_response c msgs =
     \<lparr>gr_status = 200, gr_headers = [(''content-type'', ''application/grpc'')],
      gr_body = concat (map (\<lambda>m. grpc_frame (ms_encode c m)) msgs), gr_trailers = [(''grpc-status'', ''0'')]\<rparr>"

text \<open>
  A header value must not hold control characters, the tab apart; building a response with such a
  message fails, and the \<open>unwrap\<close> at the end panics: the result is \<open>None\<close>.
\<close>

definition header_value :: "string \<Rightarrow> bool" where
  "header_value v \<longleftrightarrow> list_all (\<lambda>c. c = CHR 0x09 \<or> 32 \<le> (of_char c :: nat) \<and> (of_char c :: nat) \<noteq> 127) v"

definition create_grpc_error_response :: "Status \<Rightarrow> grpc_response option" where
  "create_grpc_error_response status =
     (if \<not> header_value (st_message status) then None
      else Some
        \<lparr>gr_status = 200,
         gr_headers = [(''content-type'', ''application/grpc''), (''grpc-status'', status_to_code (st_code status))]
           @ (if st_message status \<noteq> [] then [(''grpc-message'', st_message status)] else []),
         gr_body = [], gr_trailers = []\<rparr>)"

text \<open>
  Reading the frames of a streaming request, each decoded as it is found. Two versions are in the
  code: one reports an incomplete frame, the other stops at it.
\<close>

function parse_streaming_frames :: "'m message \<Rightarrow> data \<Rightarrow> nat \<Rightarrow> 'm list \<Rightarrow> Status + 'm list" where
  "parse_streaming_frames c body offset frames =
     (if \<not> offset < length body then Inr frames
      else if length body - offset < GRPC_HEADER_LEN then Inl (invalid_argument ''incomplete grpc frame header'')
      else
        (let len = frame_len body offset in
         if length body - offset < GRPC_HEADER_LEN + len then Inl (invalid_argument ''incomplete grpc frame body'')
         else
           (case ms_decode c (take len (drop (offset + GRPC_HEADER_LEN) body)) of
              Inl e \<Rightarrow> Inl (invalid_argument e)
            | Inr m \<Rightarrow> parse_streaming_frames c body (offset + (GRPC_HEADER_LEN + len)) (frames @ [m]))))"
  by pat_completeness auto
termination
  by (relation "measure (\<lambda>(c, body, offset, frames). length body - offset)") (auto simp: GRPC_HEADER_LEN_def)

function collect_frames :: "'m message \<Rightarrow> data \<Rightarrow> nat \<Rightarrow> 'm list \<Rightarrow> Status + 'm list" where
  "collect_frames c body offset chunks =
     (if \<not> offset < length body then Inr chunks
      else if length body - offset < GRPC_HEADER_LEN then Inr chunks
      else
        (let len = frame_len body offset in
         if length body - offset < GRPC_HEADER_LEN + len then Inr chunks
         else
           (case ms_decode c (take len (drop (offset + GRPC_HEADER_LEN) body)) of
              Inl e \<Rightarrow> Inl (invalid_argument e)
            | Inr m \<Rightarrow> collect_frames c body (offset + (GRPC_HEADER_LEN + len)) (chunks @ [m]))))"
  by pat_completeness auto
termination
  by (relation "measure (\<lambda>(c, body, offset, chunks). length body - offset)") (auto simp: GRPC_HEADER_LEN_def)

declare parse_streaming_frames.simps [simp del] collect_frames.simps [simp del]

text \<open>The frame and the message of a request, and the answer to it.\<close>

definition decode_request :: "'m message \<Rightarrow> data \<Rightarrow> Status + 'm" where
  "decode_request c body =
     (case parse_grpc_frame body of
        Inl e \<Rightarrow> Inl e
      | Inr d \<Rightarrow> (case ms_decode c d of Inl e \<Rightarrow> Inl (invalid_argument e) | Inr req \<Rightarrow> Inr req))"

definition handle_unary ::
  "'q message \<Rightarrow> 'r message \<Rightarrow> ('s \<Rightarrow> 'q \<Rightarrow> 'r \<times> 's) \<Rightarrow> data \<Rightarrow> 's \<Rightarrow> grpc_response option \<times> 's" where
  "handle_unary cq cr op body svc =
     (case decode_request cq body of
        Inl e \<Rightarrow> (create_grpc_error_response e, svc)
      | Inr req \<Rightarrow> (case op svc req of (resp, svc') \<Rightarrow> (Some (create_grpc_response cr resp), svc')))"

section \<open>What the protocol says\<close>

text \<open>
  What a caller makes of a response: the status is in the headers or the trailers, and if it is zero
  the message is in the first frame of the body. The text of an error is percent-decoded.
\<close>

definition hex_value :: "char \<Rightarrow> nat option" where
  "hex_value c =
     (let n = (of_char c :: nat) in
      if 48 \<le> n \<and> n \<le> 57 then Some (n - 48)
      else if 65 \<le> n \<and> n \<le> 70 then Some (n - 55)
      else if 97 \<le> n \<and> n \<le> 102 then Some (n - 87)
      else None)"

fun percent_decode :: "string \<Rightarrow> string" where
  "percent_decode (c # h # l # cs) =
     (if c \<noteq> CHR ''%'' then c # percent_decode (h # l # cs)
      else
        (case (hex_value h, hex_value l) of
           (Some m, Some n) \<Rightarrow> char_of (16 * m + n) # percent_decode cs
         | _ \<Rightarrow> c # percent_decode (h # l # cs)))"
| "percent_decode cs = cs"

definition code_of :: "string \<Rightarrow> Code" where
  "code_of n =
     (case find (\<lambda>c. status_to_code c = n)
        [CodeOk, Cancelled, Unknown, InvalidArgument, DeadlineExceeded, CodeNotFound, AlreadyExists, PermissionDenied,
         ResourceExhausted, FailedPrecondition, Aborted, OutOfRange, Unimplemented, CodeInternal, Unavailable, DataLoss,
         Unauthenticated] of
        Some c \<Rightarrow> c | None \<Rightarrow> Unknown)"

definition read_response :: "'m message \<Rightarrow> grpc_response option \<Rightarrow> Status + 'm" where
  "read_response c r =
     (case r of
        None \<Rightarrow> Inl \<lparr>st_code = Unavailable, st_message = ''connection closed''\<rparr>
      | Some resp \<Rightarrow>
        (let hs = gr_headers resp @ gr_trailers resp in
         case map_of hs ''grpc-status'' of
           None \<Rightarrow> Inl \<lparr>st_code = Unknown, st_message = ''no status''\<rparr>
         | Some n \<Rightarrow>
           if n \<noteq> ''0'' then
             Inl \<lparr>st_code = code_of n, st_message = (case map_of hs ''grpc-message'' of Some m \<Rightarrow> percent_decode m | None \<Rightarrow> [])\<rparr>
           else
             (case parse_grpc_frame (gr_body resp) of
                Inl e \<Rightarrow> Inl e
              | Inr d \<Rightarrow> (case ms_decode c d of Inl e \<Rightarrow> Inl (status_internal e) | Inr m \<Rightarrow> Inr m))))"

section \<open>Lemmas\<close>

lemma be_bytes_length [simp]: "length (to_be_bytes w) = 4"
  by (simp add: to_be_bytes_def)

lemma from_be_bytes_value:
  "unat (from_be_bytes [a, b, c, d]) = ((unat a * 256 + unat b) * 256 + unat c) * 256 + unat d"
proof -
  have "from_be_bytes [a, b, c, d] = of_nat (((unat a * 256 + unat b) * 256 + unat c) * 256 + unat d)"
    by (simp add: from_be_bytes_def push_bit_eq_mult algebra_simps)
  moreover have "((unat a * 256 + unat b) * 256 + unat c) * 256 + unat d < 2 ^ 32"
    using unsigned_less [of a, where 'a = nat] unsigned_less [of b, where 'a = nat] unsigned_less [of c, where 'a = nat]
      unsigned_less [of d, where 'a = nat] by simp
  ultimately show ?thesis by (simp only: unat_of_nat) simp
qed

lemma be_bytes_roundtrip [simp]: "from_be_bytes (to_be_bytes w) = w"
proof -
  let ?x = "unat w"
  have b: "unat (ucast (drop_bit i w) :: u8) = ?x div 2 ^ i mod 256" for i
    by (simp add: unsigned_ucast_eq take_bit_eq_mod unat_drop_bit_eq) (simp add: drop_bit_eq_div)
  have x: "?x < 256 * (256 * (256 * 256))" using unsigned_less [of w, where 'a = nat] by simp
  have d: "?x div 65536 = ?x div 256 div 256" "?x div 16777216 = ?x div 256 div 256 div 256"
    by (simp_all add: div_mult2_eq [symmetric])
  have t: "?x div 256 div 256 div 256 < 256" using x by (simp add: less_mult_imp_div_less)
  have "unat (from_be_bytes (to_be_bytes w)) = ?x"
    using t by (simp add: to_be_bytes_def from_be_bytes_value b [of 24, simplified] b [of 16, simplified] b [of 8, simplified]
        b [of 0, simplified] d)
  then show ?thesis by (rule unsigned_word_eqI)
qed

text \<open>A frame at the start of the bytes is found, whatever follows.\<close>

lemma frame_length: "length (grpc_frame m) = 5 + length m"
  by (simp add: grpc_frame_def)

lemma frame_header:
  assumes "length m < 2 ^ 32"
  shows "frame_len (pre @ grpc_frame m @ post) (length pre) = length m"
proof -
  obtain a b c d where t: "to_be_bytes (of_nat (length m)) = [a, b, c, d]" by (simp add: to_be_bytes_def)
  have "unat (from_be_bytes [a, b, c, d]) = length m"
    using assms be_bytes_roundtrip [of "of_nat (length m)"] by (simp add: t unat_of_nat)
  then show ?thesis by (simp add: frame_len_def nth_append grpc_frame_def t)
qed

lemma frame_body: "take (length m) (drop (length pre + 5) (pre @ grpc_frame m @ post)) = m"
  by (simp add: grpc_frame_def to_be_bytes_def)

lemma parse_grpc_frame_ok:
  assumes "length m < 2 ^ 32"
  shows "parse_grpc_frame (grpc_frame m @ post) = Inr m"
  using frame_header [OF assms, of "[]" post] frame_body [of m "[]" post]
  by (simp add: parse_grpc_frame_def GRPC_HEADER_LEN_def Let_def frame_length del: drop_append take_append)

lemma parse_streaming_frames_step:
  assumes "length m < 2 ^ 32"
  shows "parse_streaming_frames c (pre @ grpc_frame m @ post) (length pre) fs =
    (case ms_decode c m of Inl e \<Rightarrow> Inl (invalid_argument e)
     | Inr x \<Rightarrow> parse_streaming_frames c (pre @ grpc_frame m @ post) (length (pre @ grpc_frame m)) (fs @ [x]))"
  using frame_header [OF assms, of pre post] frame_body [of m pre post]
  by (subst parse_streaming_frames.simps) (simp add: GRPC_HEADER_LEN_def Let_def frame_length add.assoc cong: sum.case_cong del: drop_append take_append)

lemma collect_frames_step:
  assumes "length m < 2 ^ 32"
  shows "collect_frames c (pre @ grpc_frame m @ post) (length pre) fs =
    (case ms_decode c m of Inl e \<Rightarrow> Inl (invalid_argument e)
     | Inr x \<Rightarrow> collect_frames c (pre @ grpc_frame m @ post) (length (pre @ grpc_frame m)) (fs @ [x]))"
  using frame_header [OF assms, of pre post] frame_body [of m pre post]
  by (subst collect_frames.simps) (simp add: GRPC_HEADER_LEN_def Let_def frame_length add.assoc cong: sum.case_cong del: drop_append take_append)

text \<open>A stream of frames is read back as the messages that were written.\<close>

lemma parse_streaming_frames_ok:
  assumes "\<And>m. m \<in> set ms \<Longrightarrow> fits c m"
  shows "parse_streaming_frames c (pre @ concat (map (\<lambda>m. grpc_frame (ms_encode c m)) ms)) (length pre) fs = Inr (fs @ ms)"
  using assms
proof (induction ms arbitrary: pre fs)
  case Nil
  then show ?case by (simp add: parse_streaming_frames.simps)
next
  case (Cons m ms)
  let ?f = "grpc_frame (ms_encode c m)"
  have "parse_streaming_frames c ((pre @ ?f) @ concat (map (\<lambda>m. grpc_frame (ms_encode c m)) ms)) (length (pre @ ?f)) (fs @ [m])
      = Inr ((fs @ [m]) @ ms)" using Cons.prems by (intro Cons.IH) simp
  with parse_streaming_frames_step [of "ms_encode c m" c pre] Cons.prems show ?case by (simp add: fits_def)
qed

lemma collect_frames_ok:
  assumes "\<And>m. m \<in> set ms \<Longrightarrow> fits c m"
  shows "collect_frames c (pre @ concat (map (\<lambda>m. grpc_frame (ms_encode c m)) ms)) (length pre) fs = Inr (fs @ ms)"
  using assms
proof (induction ms arbitrary: pre fs)
  case Nil
  then show ?case by (simp add: collect_frames.simps)
next
  case (Cons m ms)
  let ?f = "grpc_frame (ms_encode c m)"
  have "collect_frames c ((pre @ ?f) @ concat (map (\<lambda>m. grpc_frame (ms_encode c m)) ms)) (length (pre @ ?f)) (fs @ [m])
      = Inr ((fs @ [m]) @ ms)" using Cons.prems by (intro Cons.IH) simp
  with collect_frames_step [of "ms_encode c m" c pre] Cons.prems show ?case by (simp add: fits_def)
qed

lemma read_response_ok:
  assumes "fits c m"
  shows "read_response c (Some (create_grpc_response c m)) = Inr m"
  using parse_grpc_frame_ok [of "ms_encode c m" "[]"] assms by (simp add: read_response_def create_grpc_response_def fits_def)

lemma parse_frame_fits: "fits c m \<Longrightarrow> parse_grpc_frame (grpc_frame (ms_encode c m)) = Inr (ms_encode c m)"
  using parse_grpc_frame_ok [of "ms_encode c m" "[]"] by (simp add: fits_def)

text \<open>A text that arrives as it was sent.\<close>

definition plain_text :: "string \<Rightarrow> bool" where
  "plain_text v \<longleftrightarrow> header_value v \<and> CHR ''%'' \<notin> set v"

lemma percent_decode_plain: "CHR ''%'' \<notin> set v \<Longrightarrow> percent_decode v = v"
  by (induction v rule: percent_decode.induct) auto

lemma read_response_error:
  assumes "plain_text (st_message e)" and "st_code e \<noteq> CodeOk"
  shows "read_response c (create_grpc_error_response e) = Inl e"
  using assms
  by (cases e; cases "st_code e")
    (auto simp: read_response_def create_grpc_error_response_def code_of_def plain_text_def percent_decode_plain)

text \<open>
  An error whose message holds a line break does not become a response: the key of a missing object
  is in the message, and a key may hold any character but the zero byte.
\<close>

lemma error_response_panics:
  "\<not> header_value msg \<Longrightarrow> create_grpc_error_response \<lparr>st_code = c, st_message = msg\<rparr> = None"
  by (simp add: create_grpc_error_response_def)

text \<open>The answer a caller reads, and the state of the service after it.\<close>

definition answer :: "'r message \<Rightarrow> grpc_response option \<times> 's \<Rightarrow> (Status + 'r) \<times> 's" where
  "answer c r = (case r of (x, s) \<Rightarrow> (read_response c x, s))"

lemma decode_request_fits: "fits c m \<Longrightarrow> decode_request c (grpc_frame (ms_encode c m)) = Inr m"
  by (simp add: decode_request_def parse_frame_fits) (simp add: fits_def)

lemma handle_unary_answer:
  assumes "fits cq req" and "op svc req = (resp, svc')" and "fits cr resp"
  shows "answer cr (handle_unary cq cr op (grpc_frame (ms_encode cq req)) svc) = (Inr resp, svc')"
  using assms by (simp add: handle_unary_def decode_request_fits answer_def read_response_ok)

text \<open>A request that cannot be taken apart changes nothing.\<close>

lemma malformed_keeps_service:
  assumes "decode_request cq body = Inl e"
  shows "snd (handle_unary cq cr op body svc) = svc"
  using assms by (simp add: handle_unary_def)

text \<open>A table of messages as an encoding, for examples: a message is sent as its place in the table.\<close>

definition table :: "'m list \<Rightarrow> 'm message" where
  "table ms =
     \<lparr>ms_encode = (\<lambda>m. [of_nat (length (takeWhile (\<lambda>x. x \<noteq> m) ms))]),
      ms_decode = (\<lambda>d. if length d = 1 \<and> unat (hd d) < length ms then Inr (ms ! unat (hd d)) else Inl ''unknown message'')\<rparr>"

lemma table_fits_0: "fits (table (m # ms)) m"
  by (simp add: fits_def table_def)

end
