(* ===== verification/Repl_Server.thy ===== *)
theory Repl_Server
  imports Common_Grpc Repl_Service
begin

text \<open>
  The server in front of the replication service, \<open>crates/save-storage/src/replication/server.rs\<close>:
  it takes the frames of a request apart, decodes them and calls the service. The encoding of the
  messages is a parameter. A response is \<open>None\<close> if building it panics.
\<close>

section \<open>The server\<close>

text \<open>The requests to read, to look for and to delete an object are modelled by their key.\<close>

record repl_codecs =
  rp_write :: "WriteObjectRequest message"
  rp_write_response :: "WriteObjectResponse message"
  rp_prepare :: "PrepareObjectRequest message"
  rp_prepare_response :: "PrepareObjectResponse message"
  rp_chunk :: "PrepareChunkRequest message"
  rp_commit :: "CommitObjectRequest message"
  rp_commit_response :: "CommitObjectResponse message"
  rp_abort :: "AbortObjectRequest message"
  rp_read :: "string message"
  rp_read_response :: "ReadObjectResponse message"
  rp_exists :: "string message"
  rp_exists_response :: "ObjectExistsResponse message"
  rp_delete :: "string message"
  rp_delete_response :: "DeleteObjectResponse message"
  rp_health_response :: "HealthCheckResponse message"
  rp_stats :: "unit message"
  rp_stats_response :: "GetStatsResponse message"

definition handle_write_object where
  "handle_write_object sha256_hex cs = handle_unary (rp_write cs) (rp_write_response cs) (service_write_object sha256_hex)"

definition handle_prepare_object where
  "handle_prepare_object sha256_hex cs = handle_unary (rp_prepare cs) (rp_prepare_response cs) (service_prepare_object sha256_hex)"

definition handle_commit_object where
  "handle_commit_object cs = handle_unary (rp_commit cs) (rp_commit_response cs) service_commit_object"

definition handle_abort_object where
  "handle_abort_object cs = handle_unary (rp_abort cs) (rp_commit_response cs) service_abort_object"

definition handle_stream_prepare_object ::
  "(data \<Rightarrow> string) \<Rightarrow> repl_codecs \<Rightarrow> data \<Rightarrow> ReplicationService \<Rightarrow> grpc_response option \<times> ReplicationService" where
  "handle_stream_prepare_object sha256_hex cs body svc =
     (case collect_frames (rp_chunk cs) body 0 [] of
        Inl e \<Rightarrow> (create_grpc_error_response e, svc)
      | Inr chunks \<Rightarrow>
        (case service_stream_prepare_object sha256_hex svc chunks of
           (resp, svc') \<Rightarrow> (Some (create_grpc_response (rp_prepare_response cs) resp), svc')))"

definition handle_read_object ::
  "(data \<Rightarrow> string) \<Rightarrow> repl_codecs \<Rightarrow> data \<Rightarrow> ReplicationService \<Rightarrow> grpc_response option \<times> ReplicationService" where
  "handle_read_object sha256_hex cs body svc =
     (case decode_request (rp_read cs) body of
        Inl e \<Rightarrow> (create_grpc_error_response e, svc)
      | Inr key \<Rightarrow>
        (case service_read_object sha256_hex svc key of
           (Inr chunks, svc') \<Rightarrow> (Some (create_grpc_streaming_response (rp_read_response cs) chunks), svc')
         | (Inl (NotFound k), svc') \<Rightarrow> (create_grpc_error_response (status_not_found (''Object not found: '' @ k)), svc')
         | (Inl e, svc') \<Rightarrow> (create_grpc_error_response (status_internal (StorageError_to_string e)), svc')))"

definition handle_object_exists where
  "handle_object_exists sha256_hex cs = handle_unary (rp_exists cs) (rp_exists_response cs) (service_object_exists sha256_hex)"

definition handle_delete_object where
  "handle_delete_object sha256_hex cs = handle_unary (rp_delete cs) (rp_delete_response cs) (service_delete_object sha256_hex)"

definition handle_health_check :: "repl_codecs \<Rightarrow> ReplicationService \<Rightarrow> grpc_response option \<times> ReplicationService" where
  "handle_health_check cs svc = (Some (create_grpc_response (rp_health_response cs) (service_health_check svc)), svc)"

definition handle_get_stats where
  "handle_get_stats cs = handle_unary (rp_stats cs) (rp_stats_response cs) (\<lambda>svc _. (get_stats svc, svc))"

text \<open>The body is read first; then the path decides.\<close>

definition replication_server_call ::
  "(data \<Rightarrow> string) \<Rightarrow> repl_codecs \<Rightarrow> string \<Rightarrow> data option \<Rightarrow> ReplicationService
    \<Rightarrow> grpc_response option \<times> ReplicationService" where
  "replication_server_call sha256_hex cs p collected svc =
     (case collected of
        None \<Rightarrow> (create_grpc_error_response (status_internal ''failed to read body''), svc)
      | Some body \<Rightarrow>
        if p = ''/replication.WriteReplica/WriteObject'' then handle_write_object sha256_hex cs body svc
        else if p = ''/replication.WriteReplica/PrepareObject'' then handle_prepare_object sha256_hex cs body svc
        else if p = ''/replication.WriteReplica/CommitObject'' then handle_commit_object cs body svc
        else if p = ''/replication.WriteReplica/AbortObject'' then handle_abort_object cs body svc
        else if p = ''/replication.WriteReplica/StreamPrepareObject'' then handle_stream_prepare_object sha256_hex cs body svc
        else if p = ''/replication.ReadReplica/ReadObject'' then handle_read_object sha256_hex cs body svc
        else if p = ''/replication.ReadReplica/ObjectExists'' then handle_object_exists sha256_hex cs body svc
        else if p = ''/replication.DeleteReplica/DeleteObject'' then handle_delete_object sha256_hex cs body svc
        else if p = ''/replication.ReplicationHealth/HealthCheck'' then handle_health_check cs svc
        else if p = ''/replication.ReplicationHealth/GetStats'' then handle_get_stats cs body svc
        else (create_grpc_error_response (unimplemented ''unknown method''), svc))"

section \<open>The server is transparent\<close>

lemma stream_prepare_answer:
  assumes "\<And>c. c \<in> set chunks \<Longrightarrow> fits (rp_chunk cs) c"
    and "service_stream_prepare_object sha256_hex svc chunks = (resp, svc')" and "fits (rp_prepare_response cs) resp"
  shows "answer (rp_prepare_response cs)
     (handle_stream_prepare_object sha256_hex cs (concat (map (\<lambda>c. grpc_frame (ms_encode (rp_chunk cs) c)) chunks)) svc)
    = (Inr resp, svc')"
  using collect_frames_ok [OF assms(1), where pre = "[]" and fs = "[]"] assms(2,3)
  by (simp add: handle_stream_prepare_object_def answer_def read_response_ok)

text \<open>Every unary call of the service goes through unchanged.\<close>

lemmas server_calls = replication_server_call_def handle_write_object_def handle_prepare_object_def handle_commit_object_def
  handle_abort_object_def handle_object_exists_def handle_delete_object_def

lemma prepare_over_wire:
  assumes "fits (rp_prepare cs) req" and "service_prepare_object sha256_hex svc req = (resp, svc')" and "fits (rp_prepare_response cs) resp"
  shows "answer (rp_prepare_response cs) (replication_server_call sha256_hex cs ''/replication.WriteReplica/PrepareObject''
      (Some (grpc_frame (ms_encode (rp_prepare cs) req))) svc) = (Inr resp, svc')"
  using assms by (simp add: server_calls handle_unary_answer)

lemma commit_over_wire:
  assumes "fits (rp_commit cs) req" and "service_commit_object svc req = (resp, svc')" and "fits (rp_commit_response cs) resp"
  shows "answer (rp_commit_response cs) (replication_server_call sha256_hex cs ''/replication.WriteReplica/CommitObject''
      (Some (grpc_frame (ms_encode (rp_commit cs) req))) svc) = (Inr resp, svc')"
  using assms by (simp add: server_calls handle_unary_answer)

lemma abort_over_wire:
  assumes "fits (rp_abort cs) req" and "service_abort_object svc req = (resp, svc')" and "fits (rp_commit_response cs) resp"
  shows "answer (rp_commit_response cs) (replication_server_call sha256_hex cs ''/replication.WriteReplica/AbortObject''
      (Some (grpc_frame (ms_encode (rp_abort cs) req))) svc) = (Inr resp, svc')"
  using assms by (simp add: server_calls handle_unary_answer)

text \<open>
  A stream that breaks off within a frame is taken for complete: the chunks before the break are
  prepared as if they were all.
\<close>

theorem truncated_stream_prepared:
  assumes "fits (rp_chunk cs) c" and "length rest < 5"
  shows "collect_frames (rp_chunk cs) (grpc_frame (ms_encode (rp_chunk cs) c) @ rest) 0 [] = Inr [c]"
proof -
  have "collect_frames (rp_chunk cs) ([] @ grpc_frame (ms_encode (rp_chunk cs) c) @ rest) (length ([] :: data)) [] =
      collect_frames (rp_chunk cs) (grpc_frame (ms_encode (rp_chunk cs) c) @ rest) (length (grpc_frame (ms_encode (rp_chunk cs) c))) [c]"
    using assms(1) collect_frames_step [of "ms_encode (rp_chunk cs) c" "rp_chunk cs" "[]" rest "[]"] by (simp add: fits_def)
  then show ?thesis using assms(2) by (simp add: collect_frames.simps [of _ _ "length _"] GRPC_HEADER_LEN_def)
qed

text \<open>Asking for an object that is not there and whose key holds a control character panics.\<close>

theorem missing_key_panics:
  assumes "fits (rp_read cs) key" and "service_read_object sha256_hex svc key = (Inl (NotFound key), svc')" and "\<not> header_value key"
  shows "handle_read_object sha256_hex cs (grpc_frame (ms_encode (rp_read cs) key)) svc = (None, svc')"
proof -
  have "\<not> header_value (''Object not found: '' @ key)"
    using assms(3) unfolding header_value_def list_all_append by simp
  then have "create_grpc_error_response (status_not_found (''Object not found: '' @ key)) = None"
    unfolding status_not_found_def by (rule error_response_panics)
  with assms(1,2) show ?thesis by (simp add: handle_read_object_def decode_request_fits)
qed

end
