(* ===== verification/Replicated_Backend.thy ===== *)
theory Replicated_Backend
  imports Repl_Coordinator
begin

text \<open>
  The storage backend that replicates, \<open>crates/save-storage/src/replicated_backend.rs\<close>: objects
  are written to a local temporary file, streamed to replicas by the coordinator, and installed
  locally once a quorum of nodes has them; reads prefer the local copy. The theorems say what a
  write leaves on every node of the cluster whatever the network does.
\<close>

section \<open>Operations\<close>

record ReplicatedBackend =
  rb_local :: ObjectStorage
  rb_coordinator :: ReplicationCoordinator
  rb_quorum_config :: QuorumConfig

text \<open>The hash of the file, read in blocks; opening and reading may fail.\<close>

definition compute_file_checksum :: "(data \<Rightarrow> string) \<Rightarrow> fs \<Rightarrow> path \<Rightarrow> (StorageError + string) \<times> fs" where
  "compute_file_checksum sha256_hex s p =
     (case file_open s p of
        (Inl e, s1) \<Rightarrow> (Inl (StorageIo e), s1)
      | (Inr d, s1) \<Rightarrow>
        (case file_read s1 d of
           (Inl e, s2) \<Rightarrow> (Inl (StorageIo e), s2)
         | (Inr bytes, s2) \<Rightarrow> (Inr (sha256_hex bytes), s2)))"

definition commit_future :: "ObjectStorage \<Rightarrow> TempObject \<Rightarrow> local_op" where
  "commit_future st t = \<lparr>run_local = (\<lambda>s. commit_object st s t), drop_local = (\<lambda>s. drop_temp s t)\<rparr>"

text \<open>The common end of \<open>put_object\<close> and \<open>commit_object\<close>.\<close>

definition replicate_temp ::
  "(data \<Rightarrow> string) \<Rightarrow> ReplicatedBackend \<Rightarrow> fs \<Rightarrow> string \<Rightarrow> TempObject \<Rightarrow> (StorageError + unit) \<times> ReplicatedBackend \<times> fs" where
  "replicate_temp sha256_hex rb s key t =
     (case compute_file_checksum sha256_hex s (temp_path t) of
        (Inl e, s1) \<Rightarrow> (Inl e, rb, drop_temp s1 t)
      | (Inr checksum, s1) \<Rightarrow>
        (case replicate_write_streaming sha256_hex (rb_coordinator rb) s1 key (temp_path t) checksum
                (commit_future (rb_local rb) t) of
           (Inl e, co, s2) \<Rightarrow> (Inl e, rb\<lparr>rb_coordinator := co\<rparr>, s2)
         | (Inr result, co, s2) \<Rightarrow>
             (if \<not> quorum_achieved result
              then Inl (QuorumNotAchieved (success_count result) (write_quorum (rb_quorum_config rb)))
              else Inr (),
              rb\<lparr>rb_coordinator := co\<rparr>, s2)))"

definition replicated_put_object ::
  "(data \<Rightarrow> string) \<Rightarrow> ReplicatedBackend \<Rightarrow> fs \<Rightarrow> string \<Rightarrow> reader \<Rightarrow> (StorageError + unit) \<times> ReplicatedBackend \<times> fs" where
  "replicated_put_object sha256_hex rb s key rd =
     (case write_temp_object sha256_hex (rb_local rb) s key rd of
        (Inl e, s1) \<Rightarrow> (Inl e, rb, s1)
      | (Inr t, s1) \<Rightarrow> replicate_temp sha256_hex rb s1 key t)"

record ReplicatedTempHandle =
  rt_inner :: TempObject
  rt_key :: string

definition replicated_write_temp_object ::
  "(data \<Rightarrow> string) \<Rightarrow> ReplicatedBackend \<Rightarrow> fs \<Rightarrow> string \<Rightarrow> reader \<Rightarrow> (StorageError + ReplicatedTempHandle) \<times> fs" where
  "replicated_write_temp_object sha256_hex rb s key rd =
     (case write_temp_object sha256_hex (rb_local rb) s key rd of
        (Inl e, s1) \<Rightarrow> (Inl e, s1)
      | (Inr t, s1) \<Rightarrow> (Inr \<lparr>rt_inner = t, rt_key = key\<rparr>, s1))"

definition replicated_commit_object ::
  "(data \<Rightarrow> string) \<Rightarrow> ReplicatedBackend \<Rightarrow> fs \<Rightarrow> ReplicatedTempHandle \<Rightarrow> (StorageError + unit) \<times> ReplicatedBackend \<times> fs" where
  "replicated_commit_object sha256_hex rb s h = replicate_temp sha256_hex rb s (rt_key h) (rt_inner h)"

definition replicated_get_object ::
  "(data \<Rightarrow> string) \<Rightarrow> ReplicatedBackend \<Rightarrow> fs \<Rightarrow> string \<Rightarrow> (StorageError + data) \<times> ReplicatedBackend \<times> fs" where
  "replicated_get_object sha256_hex rb s key =
     (case get_object sha256_hex (rb_local rb) s key of
        (Inr d, s') \<Rightarrow> (Inr d, rb, s')
      | (Inl (NotFound _), s') \<Rightarrow>
          (case read_from_replica sha256_hex (rb_coordinator rb) key of
             (Some d, co) \<Rightarrow> (Inr d, rb\<lparr>rb_coordinator := co\<rparr>, s')
           | (None, co) \<Rightarrow> (Inl (NotFound key), rb\<lparr>rb_coordinator := co\<rparr>, s'))
      | (Inl e, s') \<Rightarrow> (Inl e, rb, s'))"

definition replicated_delete_object ::
  "(data \<Rightarrow> string) \<Rightarrow> ReplicatedBackend \<Rightarrow> fs \<Rightarrow> string \<Rightarrow> (StorageError + unit) \<times> ReplicatedBackend \<times> fs" where
  "replicated_delete_object sha256_hex rb s key =
     (case replicate_delete sha256_hex (rb_coordinator rb) s key (\<lambda>s. delete_object sha256_hex (rb_local rb) s key) of
        (Inl e, co, s') \<Rightarrow> (Inl e, rb\<lparr>rb_coordinator := co\<rparr>, s')
      | (Inr result, co, s') \<Rightarrow>
          (if success_count result = 0 then Inl (NotFound key) else Inr (), rb\<lparr>rb_coordinator := co\<rparr>, s'))"

definition replicated_health_check :: "ReplicatedBackend \<Rightarrow> fs \<Rightarrow> HealthStatus \<times> fs" where
  "replicated_health_check rb s =
     (case fs_metadata s (temp_dir (layout (rb_local rb))) of
        (Inr IsDir, s') \<Rightarrow>
          (let n = length (connected_nodes (rb_coordinator rb));
               min_replicas = write_quorum (rb_quorum_config rb) - 1 in
           if n < min_replicas then
             (Degraded (''Only '' @ nat_str n @ '' replica nodes connected, need '' @ nat_str min_replicas
                @ '' for quorum''), s')
           else (Healthy, s'))
      | (Inr (IsFile _), s') \<Rightarrow> (Unhealthy ''Temp directory path exists but is not a directory'', s')
      | (Inl e, s') \<Rightarrow> (Unhealthy (''Cannot access temp directory: '' @ io_msg e), s'))"

section \<open>What a write leaves on the nodes\<close>

text \<open>The steps of one write: prepares of the given contents, commits and aborts.\<close>

fun write_steps :: "string \<Rightarrow> data \<Rightarrow> replica_step \<Rightarrow> bool" where
  "write_steps key d (PrepareStep r) \<longleftrightarrow> prepare_data r = d \<and> prepare_key r \<in> {[], key}"
| "write_steps key d (DeleteStep _) \<longleftrightarrow> False"
| "write_steps key d _ \<longleftrightarrow> True"

abbreviation "undone_steps key d x \<equiv> write_steps key d x \<and> \<not> is_commit x"

text \<open>All nodes are well-formed, without faults, and have nothing prepared.\<close>

definition peers_idle :: "(data \<Rightarrow> string) \<Rightarrow> string set \<Rightarrow> (u64 \<times> peer) list \<Rightarrow> bool" where
  "peers_idle sha256_hex keys ps \<longleftrightarrow>
     (\<forall>(n, p) \<in> set ps. service_ok sha256_hex keys (p_service p) \<and> pending_prepares (p_service p) = [])"

abbreviation "peer_view sha256_hex p \<equiv> service_view sha256_hex (p_service p)"

lemma peers_after_write:
  assumes "object_ids sha keys" and "peers_idle sha keys ps" and "peers_steps sha (write_steps key d) ps qs"
    and "key \<in> keys" and "map_of qs n = Some q" and "k \<in> keys"
  shows "\<exists>p. map_of ps n = Some p
    \<and> (peer_view sha q k = peer_view sha p k \<or> (k = key \<and> peer_view sha q k = Some d))"
proof -
  from peers_steps_lookup [OF assms(3,5)] obtain p xs where p: "map_of ps n = Some p"
    and xs: "\<forall>x \<in> set xs. write_steps key d x" "p_service q = foldl (replica_step_fun sha) (p_service p) xs"
    by (auto simp: service_steps_def)
  from assms(2) map_of_SomeD [OF p] have ok: "service_ok sha keys (p_service p)"
    and none: "pending_prepares (p_service p) = []" by (auto simp: peers_idle_def)
  have inx: "\<forall>x \<in> set xs. step_in keys x \<and> \<not> is_delete x"
  proof
    fix x assume "x \<in> set xs"
    with xs(1) have "write_steps key d x" by blast
    with assms(4) show "step_in keys x \<and> \<not> is_delete x" by (cases x) auto
  qed
  then have inx': "\<forall>x \<in> set xs. step_in keys x" by blast
  show ?thesis
  proof (cases "peer_view sha q k = peer_view sha p k")
    case False
    from object_ids.replica_run_view [OF assms(1) ok] inx assms(6) xs(2) False none obtain d' where
      v: "peer_view sha q k = Some d'" by (metis not_None_eq)
    with object_ids.replica_run_whole [OF assms(1) ok inx' assms(6), of d'] xs(2) False none obtain r where
      "PrepareStep r \<in> set xs" "prepare_key r = k" "prepare_data r = d'" by (auto simp: service_staged_def)
    with xs(1) v object_ids.keys_valid [OF assms(1,6)] p show ?thesis by fastforce
  qed (use p in blast)
qed

lemma peers_after_abort:
  assumes "object_ids sha keys" and "peers_idle sha keys ps" and "peers_steps sha (undone_steps key d) ps qs"
    and "key \<in> keys" and "map_of qs n = Some q" and "k \<in> keys"
  shows "\<exists>p. map_of ps n = Some p \<and> peer_view sha q k = peer_view sha p k"
proof -
  from peers_steps_lookup [OF assms(3,5)] obtain p xs where p: "map_of ps n = Some p"
    and xs: "\<forall>x \<in> set xs. undone_steps key d x" "p_service q = foldl (replica_step_fun sha) (p_service p) xs"
    by (auto simp: service_steps_def)
  from assms(2) map_of_SomeD [OF p] have ok: "service_ok sha keys (p_service p)" by (auto simp: peers_idle_def)
  have "\<forall>x \<in> set xs. step_in keys x \<and> \<not> is_commit x \<and> \<not> is_delete x"
  proof
    fix x assume "x \<in> set xs"
    with xs(1) have "undone_steps key d x" by blast
    with assms(4) show "step_in keys x \<and> \<not> is_commit x \<and> \<not> is_delete x" by (cases x) auto
  qed
  from object_ids.replica_run_no_commit [OF assms(1) ok this assms(6)] p xs(2) show ?thesis by auto
qed

lemma replicate_write_streaming_facts:
  assumes w: "replicate_write_streaming sha co s key path checksum lw = (r, co', s')"
    and nf: "fs_faults s = []" and f: "files s path = Some f"
  shows "((\<exists>res. r = Inr res \<and> \<not> quorum_achieved res \<and> success_count res < write_quorum (co_config co))
      \<and> s' = drop_local lw s \<and> peers_steps sha (undone_steps key (f_data f)) (clients co) (clients co'))
    \<or> ((\<exists>e. r = Inl e \<and> run_local lw s = (Inl e, s'))
      \<and> peers_steps sha (undone_steps key (f_data f)) (clients co) (clients co'))
    \<or> ((\<exists>res. r = Inr res \<and> quorum_achieved res) \<and> run_local lw s = (Inr (), s')
      \<and> peers_steps sha (write_steps key (f_data f)) (clients co) (clients co'))"
proof -
  let ?U = "undone_steps key (f_data f)" and ?W = "write_steps key (f_data f)"
  let ?co1 = "co\<lparr>request_counter := request_counter co + 1\<rparr>"
  obtain nodes co2 where sel: "select_replica_nodes ?co1 (replication_factor (co_config co)) = (nodes, co2)" by fastforce
  obtain rs ps s1 where pr: "stream_prepare_all sha (clients co2) s nodes key path checksum (request_counter co) = (rs, ps, s1)"
    by (cases rule: prod_cases3)
  let ?pr = "process_prepare_results co2 key checksum (request_counter co) rs"
  from w sel pr have c: "complete_2pc_write (co2\<lparr>clients := ps\<rparr>) s1 ?pr lw = (r, co', s')"
    by (simp add: replicate_write_streaming_def next_request_id_def)
  have "peers_steps sha ?U (clients co2) ps \<and> subseq (map fst rs) nodes \<and> s1 = s"
    by (rule stream_prepare_all_facts [OF pr nf f]) simp
  moreover have "peers_steps sha ?U (clients co) (clients co2)" "co_config co2 = co_config co"
    using select_replica_nodes_facts [OF sel, of sha ?U] by auto
  ultimately have pre: "peers_steps sha ?U (clients co) ps" and s1: "s1 = s" and cfg: "co_config co2 = co_config co"
    by (auto intro: peers_steps_trans)
  have preW: "peers_steps sha ?W (clients co) ps" using pre by (rule peers_steps_mono) blast
  from complete_2pc_write_facts [OF c, where P = ?U and Q = ?W and sha = sha] show ?thesis
    using peers_steps_trans [OF pre] peers_steps_trans [OF preW] s1 cfg
    by (auto simp: phase_result_def)
qed

text \<open>Without local faults the temporary file is written and hashed, and the replication starts from it.\<close>

lemma compute_file_checksum_no_fault:
  "fs_faults s = [] \<Longrightarrow> files s p = Some f \<Longrightarrow> compute_file_checksum sha s p = (Inr (sha (f_data f)), s)"
  by (simp add: compute_file_checksum_def file_open_def file_read_def)

lemma replicated_put_object_cases:
  assumes put: "replicated_put_object sha rb s key rd = (r, rb', s')" and nf: "fs_faults s = []"
  obtains e where "r = Inl e" "\<forall>a b. e \<noteq> QuorumNotAchieved a b" "rb' = rb"
      "\<forall>p. p \<noteq> temp_file sha (rb_local rb) key \<longrightarrow> files s' p = files s p"
  | s1 f res co' where "valid_key key" "f_data f = rd_bytes rd" "fs_faults s1 = []"
      "files s1 = (files s)(temp_file sha (rb_local rb) key \<mapsto> f)"
      "replicate_write_streaming sha (rb_coordinator rb) s1 key (temp_file sha (rb_local rb) key) (sha (rd_bytes rd))
         (commit_future (rb_local rb) (temp_of sha (rb_local rb) key)) = (res, co', s')"
      "rb' = rb\<lparr>rb_coordinator := co'\<rparr>"
      "r = (case res of Inl e \<Rightarrow> Inl e | Inr result \<Rightarrow> if quorum_achieved result then Inr ()
         else Inl (QuorumNotAchieved (success_count result) (write_quorum (rb_quorum_config rb))))"
proof -
  obtain x s1 where w: "write_temp_object sha (rb_local rb) s key rd = (x, s1)" by fastforce
  note e = write_temp_object_ok [OF w]
  show thesis
  proof (cases x)
    case (Inl err)
    moreover have "\<forall>a b. err \<noteq> QuorumNotAchieved a b"
      using w Inl by (auto simp: write_temp_object_def create_temp_object_def object_id_def Let_def
          split: prod.splits sum.splits if_splits)
    ultimately show thesis using that(1) put w e by (auto simp: replicated_put_object_def)
  next
    case (Inr t)
    with e have "rd = whole (rd_bytes rd)" by (simp add: whole_def)
    with write_temp_object_no_fault [OF nf, of sha "rb_local rb" key "rd_bytes rd"] w Inr obtain f where
      t: "t = temp_of sha (rb_local rb) key" and v: "valid_key key" and nf1: "fs_faults s1 = []"
      and f: "files s1 = (files s)(temp_file sha (rb_local rb) key \<mapsto> f)" "f_data f = rd_bytes rd" by auto
    obtain res co' s2 where rw: "replicate_write_streaming sha (rb_coordinator rb) s1 key (temp_file sha (rb_local rb) key)
        (sha (rd_bytes rd)) (commit_future (rb_local rb) t) = (res, co', s2)" by (cases rule: prod_cases3)
    from put w Inr t rw compute_file_checksum_no_fault [OF nf1, of "temp_file sha (rb_local rb) key" f sha] f
    have "rb' = rb\<lparr>rb_coordinator := co'\<rparr>" "s' = s2"
      "r = (case res of Inl e \<Rightarrow> Inl e | Inr result \<Rightarrow> if quorum_achieved result then Inr ()
         else Inl (QuorumNotAchieved (success_count result) (write_quorum (rb_quorum_config rb))))"
      by (auto simp: replicated_put_object_def replicate_temp_def split: sum.splits if_splits)
    with that(2) v f nf1 rw t show thesis by blast
  qed
qed

text \<open>The empty file: only the final marker is sent, which has no key, and every node refuses it.\<close>

lemma empty_stream_refused:
  assumes "client_stream_prepare_object sha p s key i path checksum = (r, p', s')"
    and "fs_faults s = []" and "files s path = Some f" and "f_data f = []"
  shows "isl r \<and> s' = s"
proof -
  have c: "file_chunks s path key i checksum = ([\<lparr>pc_key = [], pc_request_id = 0, pc_chunk = [], pc_is_last = True,
      pc_checksum = checksum\<rparr>], s)"
    using assms(2-4) by (simp add: file_chunks_def file_open_def, subst send_chunks.simps, simp)
  obtain x q where "get_channel p = (x, q)" by fastforce
  with assms(1) c show ?thesis
    by (cases x) (auto simp: client_stream_prepare_object_def transmit_def service_stream_prepare_object_def
        prepare_failed_def split: prod.splits delivery.splits sum.splits if_splits)
qed

lemma empty_stream_all_refused:
  assumes "stream_prepare_all sha ps s nodes key path checksum i = (rs, qs, s')"
    and "fs_faults s = []" and "files s path = Some f" and "f_data f = []"
  shows "\<forall>(n, r) \<in> set rs. isl r"
  using assms(1)
proof (induction nodes arbitrary: ps rs qs)
  case (Cons n nodes)
  show ?case
  proof (cases "map_of ps n")
    case None
    with Cons show ?thesis by auto
  next
    case (Some p)
    obtain r p' s1 where c: "client_stream_prepare_object sha p s key i path checksum = (r, p', s1)" by (cases rule: prod_cases3)
    from empty_stream_refused [OF c assms(2-4)] have l: "isl r" and s1: "s1 = s" by auto
    obtain rs' where "stream_prepare_all sha (AList.update n p' ps) s nodes key path checksum i = (rs', qs, s')"
      "rs = (n, r) # rs'" using Cons.prems Some c s1 by (auto split: prod.splits)
    with Cons.IH l show ?thesis by auto
  qed
qed simp

lemma empty_stream_write:
  assumes w: "replicate_write_streaming sha co s key path checksum lw = (r, co', s')"
    and f: "fs_faults s = []" "files s path = Some f" "f_data f = []" and q: "1 < write_quorum (co_config co)"
  shows "\<exists>res. r = Inr res \<and> \<not> quorum_achieved res \<and> success_count res = 1"
proof -
  let ?co1 = "co\<lparr>request_counter := request_counter co + 1\<rparr>"
  obtain nodes co2 where sel: "select_replica_nodes ?co1 (replication_factor (co_config co)) = (nodes, co2)" by fastforce
  obtain rs ps s1 where pr: "stream_prepare_all sha (clients co2) s nodes key path checksum (request_counter co) = (rs, ps, s1)"
    by (cases rule: prod_cases3)
  let ?pr = "process_prepare_results co2 key checksum (request_counter co) rs"
  have "filter (\<lambda>(_, r). \<not> isl r) rs = []"
    using empty_stream_all_refused [OF pr f] by (auto simp: filter_empty_conv)
  then have c: "pr_success_count ?pr = 1" by (simp add: process_prepare_results_facts)
  have cfg: "co_config co2 = co_config co" using select_replica_nodes_facts [OF sel, of sha "\<lambda>_. True"] by simp
  from w sel pr have "complete_2pc_write (co2\<lparr>clients := ps\<rparr>) s1 ?pr lw = (r, co', s')"
    by (simp add: replicate_write_streaming_def next_request_id_def)
  with c cfg q show ?thesis by (auto simp: complete_2pc_write_def Let_def phase_result_def)
qed

section \<open>Properties\<close>

text \<open>
  C9: A replicated write is atomic on every node as long as the disks work. Assumed are that no
  operation on the local disk and on the disks of the replicas fails, and that no write is pending on
  a replica when the put starts (\<open>peers_idle\<close>). Then, whatever the network loses, repeats or delays,
  after a put every object on every replica is unchanged, or is the written one with exactly the
  written contents, and that only if the put reported success. On the local node the put took
  effect exactly if it reported success. A put that missed its quorum leaves no temporary file.
\<close>

theorem replicated_put_atomic:
  assumes ids: "object_ids sha256_hex keys" and key: "key \<in> keys" and nf: "fs_faults s = []"
    and idle: "peers_idle sha256_hex keys (clients (rb_coordinator rb))"
    and put: "replicated_put_object sha256_hex rb s key rd = (r, rb', s')"
  shows "(\<forall>k \<in> keys. \<forall>n q. map_of (clients (rb_coordinator rb')) n = Some q \<longrightarrow>
        (\<exists>p. map_of (clients (rb_coordinator rb)) n = Some p
          \<and> (peer_view sha256_hex q k = peer_view sha256_hex p k
             \<or> (r = Inr () \<and> k = key \<and> peer_view sha256_hex q k = Some (rd_bytes rd)))))
    \<and> (\<forall>k \<in> keys. object_view_fs sha256_hex (rb_local rb) s' k
        = (if r = Inr () \<and> k = key then Some (rd_bytes rd) else object_view_fs sha256_hex (rb_local rb) s k))
    \<and> (\<forall>a b. r = Inl (QuorumNotAchieved a b) \<longrightarrow> files s' (temp_file sha256_hex (rb_local rb) key) = None)"
  using put nf
proof (cases rule: replicated_put_object_cases)
  case (1 e)
  then show ?thesis by (auto simp: object_view_fs_def)
next
  case (2 s1 f res co')
  let ?t = "temp_of sha256_hex (rb_local rb) key" and ?co = "rb_coordinator rb"
  let ?op = "\<lambda>k. object_path_from_id (layout (rb_local rb)) (sha256_hex (as_bytes k))"
  have f1: "files s1 (temp_file sha256_hex (rb_local rb) key) = Some f" using 2(4) by simp
  have inj: "?op k = ?op key \<longleftrightarrow> k = key" if "k \<in> keys" for k
    using object_ids.id_inj [OF ids that key] by auto
  have fin: "fs_faults s' = [] \<and> (if x = Inr () then files s' = (files s1)(temp_path ?t := None, final_path ?t \<mapsto> f)
      else files s' = (files s1)(temp_path ?t := None))" if "commit_object (rb_local rb) s1 ?t = (x, s')" for x
    using commit_object_no_fault [OF 2(3) _ _ that] f1 by (auto split: if_splits)
  have gone: "files (drop_temp s1 ?t) = (files s1)(temp_path ?t := None)"
    using drop_temp_no_fault [OF 2(3), of ?t] by simp
  note ab = peers_after_abort [OF ids idle _ key] and wr = peers_after_write [OF ids idle _ key]
  from replicate_write_streaming_facts [OF 2(5,3) f1] show ?thesis
  proof (elim disjE conjE exE)
    fix result
    assume r: "res = Inr result" "\<not> quorum_achieved result"
      and st: "peers_steps sha256_hex (undone_steps key (f_data f)) (clients ?co) (clients co')"
      and s': "s' = drop_local (commit_future (rb_local rb) ?t) s1"
    have "files s' = (files s1)(temp_path ?t := None)" using s' gone by (simp add: commit_future_def)
    with 2 r ab [OF st] show ?thesis by (auto simp: object_view_fs_def)
  next
    fix e
    assume r: "res = Inl e" and st: "peers_steps sha256_hex (undone_steps key (f_data f)) (clients ?co) (clients co')"
      and run: "run_local (commit_future (rb_local rb) ?t) s1 = (Inl e, s')"
    from run fin [of "Inl e"] have "files s' = (files s1)(temp_path ?t := None)" by (simp add: commit_future_def)
    with 2 r ab [OF st] show ?thesis by (auto simp: object_view_fs_def)
  next
    fix result
    assume r: "res = Inr result" "quorum_achieved result"
      and st: "peers_steps sha256_hex (write_steps key (f_data f)) (clients ?co) (clients co')"
      and run: "run_local (commit_future (rb_local rb) ?t) s1 = (Inr (), s')"
    from run fin [of "Inr ()"] have "files s' = (files s1)(temp_path ?t := None, final_path ?t \<mapsto> f)"
      by (simp add: commit_future_def)
    with 2 r wr [OF st] inj show ?thesis by (auto simp: object_view_fs_def)
  qed
qed

definition example_backend :: "delivery list \<Rightarrow> ReplicatedBackend" where
  "example_backend link = \<lparr>rb_local = example_storage, rb_coordinator = example_coordinator link,
     rb_quorum_config = with_replication_factor 3\<rparr>"

lemma example_idle: "peers_idle example_sha {''b/one'', ''b/two''} (clients (rb_coordinator (example_backend link)))"
  using example_service_ok
  by (simp add: peers_idle_def example_backend_def example_coordinator_def example_peer_def
      example_service_def ReplicationService_new_def)

theorem replicated_put_atomic_witness:
  "let put = replicated_put_object example_sha (example_backend [Delivered, Delivered, ResponseLost ''connection reset''])
         example_fs ''b/one'' (whole [1, 2])
   in \<forall>q. map_of (clients (rb_coordinator (fst (snd put)))) 3 = Some q \<longrightarrow>
        peer_view example_sha q ''b/one'' \<in> {None, Some [1, 2]} \<and> peer_view example_sha q ''b/two'' = None"
proof -
  let ?rb = "example_backend [Delivered, Delivered, ResponseLost ''connection reset'']"
  let ?put = "replicated_put_object example_sha ?rb example_fs ''b/one'' (whole [1, 2])"
  have p: "?put = (fst ?put, fst (snd ?put), snd (snd ?put))" by simp
  have k: "''b/one'' \<in> {''b/one'', ''b/two''}" by simp
  have f: "fs_faults example_fs = []" by (simp add: example_fs_def)
  note w = replicated_put_atomic [OF example_ids k f example_idle p]
  have none: "map_of (clients (rb_coordinator ?rb)) 3 = Some pr \<Longrightarrow> peer_view example_sha pr x = None" for pr x
    by (auto simp: example_backend_def example_coordinator_def example_peer_def example_service_def
        ReplicationService_new_def service_view_def object_view_fs_def example_fs_def)
  show ?thesis
  proof (unfold Let_def, intro allI impI)
    fix q assume q: "map_of (clients (rb_coordinator (fst (snd ?put)))) 3 = Some q"
    obtain pr where "map_of (clients (rb_coordinator ?rb)) 3 = Some pr" "peer_view example_sha q ''b/one'' = peer_view example_sha pr ''b/one''
        \<or> peer_view example_sha q ''b/one'' = Some [1, 2]"
      using bspec [OF conjunct1 [OF w] k, rule_format, OF q] by (auto simp: whole_def)
    with none have "peer_view example_sha q ''b/one'' \<in> {None, Some [1, 2]}" by auto
    moreover obtain pr where "map_of (clients (rb_coordinator ?rb)) 3 = Some pr"
        "peer_view example_sha q ''b/two'' = peer_view example_sha pr ''b/two''"
      using bspec [OF conjunct1 [OF w], of "''b/two''", rule_format, OF _ q] by auto
    with none have "peer_view example_sha q ''b/two'' = None" by simp
    ultimately show "peer_view example_sha q ''b/one'' \<in> {None, Some [1, 2]} \<and> peer_view example_sha q ''b/two'' = None" ..
  qed
qed

text \<open>
  An empty object cannot be replicated. The stream for an empty file consists of the final marker
  alone, which carries no key, so every replica refuses it; when the write quorum is more than one
  node, the put fails for lack of a quorum although the network and all nodes work.
\<close>

theorem empty_put_misses_quorum:
  assumes "valid_key key" and "fs_ready sha256_hex (rb_local rb) s key"
    and "1 < write_quorum (co_config (rb_coordinator rb))"
  shows "fst (replicated_put_object sha256_hex rb s key (whole []))
    = Inl (QuorumNotAchieved 1 (write_quorum (rb_quorum_config rb)))"
proof -
  let ?t = "temp_of sha256_hex (rb_local rb) key" and ?co = "rb_coordinator rb"
  have nf: "fs_faults s = []" using assms(2) by (simp add: fs_ready_def)
  obtain s1 where w: "write_temp_object sha256_hex (rb_local rb) s key (whole []) = (Inr ?t, s1)"
    using write_temp_object_runs [OF assms(1,2), of "whole []"] by (auto simp: whole_def temp_of_def)
  with write_temp_object_no_fault [OF nf, of sha256_hex "rb_local rb" key "[]"] obtain f where
    f: "fs_faults s1 = []" "files s1 (temp_path ?t) = Some f" "f_data f = []" by auto
  obtain res co' s2 where rw: "replicate_write_streaming sha256_hex ?co s1 key (temp_path ?t) (sha256_hex [])
      (commit_future (rb_local rb) ?t) = (res, co', s2)" by (cases rule: prod_cases3)
  from empty_stream_write [OF rw f assms(3)] obtain result where
    "res = Inr result" "\<not> quorum_achieved result" "success_count result = 1" by blast
  with w rw compute_file_checksum_no_fault [OF f(1,2), of sha256_hex] f(3) show ?thesis
    by (simp add: replicated_put_object_def replicate_temp_def)
qed

theorem empty_put_misses_quorum_witness:
  "fst (replicated_put_object example_sha (example_backend []) example_fs ''b/one'' (whole []))
    = Inl (QuorumNotAchieved 1 2)"
proof -
  have v: "valid_key ''b/one''" by code_simp
  have r: "fs_ready example_sha (rb_local (example_backend [])) example_fs ''b/one''"
    by (simp add: fs_ready_def example_fs_def list_all_iff)
  have q: "1 < write_quorum (co_config (rb_coordinator (example_backend [])))" by code_simp
  have e: "write_quorum (rb_quorum_config (example_backend [])) = 2" by code_simp
  from empty_put_misses_quorum [OF v r q] show ?thesis unfolding e .
qed

end
