(* ===== verification/Storage_Backend.thy ===== *)
theory Storage_Backend
  imports Replicated_Backend
begin

text \<open>
  The trait \<open>StorageBackend\<close> of \<open>crates/save-storage/src/backend.rs\<close> as the request handlers use
  it: a record of operations on the state of a backend and the local file system, with the local
  backend (\<open>local_backend.rs\<close>) and the replicated one (\<open>replicated_backend.rs\<close>) as its two values.

  The locale \<open>staged_backend\<close> is the contract of the two-step write: writing to a temporary object
  changes no object, and committing the handle installs exactly the staged contents, or reports a
  failure and installs them or nothing. Both backends satisfy it for every pattern of local faults
  and whatever the network does.
\<close>

section \<open>The trait and its implementations\<close>

record ('r, 'h) storage_backend =
  be_put_object :: "'r \<Rightarrow> fs \<Rightarrow> string \<Rightarrow> reader \<Rightarrow> (StorageError + unit) \<times> 'r \<times> fs"
  be_get_object :: "'r \<Rightarrow> fs \<Rightarrow> string \<Rightarrow> (StorageError + data) \<times> 'r \<times> fs"
  be_delete_object :: "'r \<Rightarrow> fs \<Rightarrow> string \<Rightarrow> (StorageError + unit) \<times> 'r \<times> fs"
  be_write_temp_object :: "'r \<Rightarrow> fs \<Rightarrow> string \<Rightarrow> reader \<Rightarrow> (StorageError + 'h) \<times> 'r \<times> fs"
  be_commit_object :: "'r \<Rightarrow> fs \<Rightarrow> 'h \<Rightarrow> (StorageError + unit) \<times> 'r \<times> fs"
  be_health_check :: "'r \<Rightarrow> fs \<Rightarrow> HealthStatus \<times> 'r \<times> fs"
  be_temp_dir :: "'r \<Rightarrow> path"

text \<open>An operation that leaves the state of the backend alone.\<close>

definition keeping :: "'r \<Rightarrow> 'a \<times> fs \<Rightarrow> 'a \<times> 'r \<times> fs" where
  "keeping r x = (fst x, r, snd x)"

definition local_backend :: "(data \<Rightarrow> string) \<Rightarrow> (ObjectStorage, TempObject) storage_backend" where
  "local_backend sha256_hex =
     \<lparr>be_put_object = \<lambda>st s key rd. keeping st (put_object sha256_hex st s key rd),
      be_get_object = \<lambda>st s key. keeping st (get_object sha256_hex st s key),
      be_delete_object = \<lambda>st s key. keeping st (delete_object sha256_hex st s key),
      be_write_temp_object = \<lambda>st s key rd. keeping st (write_temp_object sha256_hex st s key rd),
      be_commit_object = \<lambda>st s h. keeping st (commit_object st s h),
      be_health_check = \<lambda>st s. keeping st (health_check_local st s),
      be_temp_dir = \<lambda>st. temp_dir (layout st)\<rparr>"

definition replicated_backend ::
  "(data \<Rightarrow> string) \<Rightarrow> (ReplicatedBackend, ReplicatedTempHandle) storage_backend" where
  "replicated_backend sha256_hex =
     \<lparr>be_put_object = replicated_put_object sha256_hex,
      be_get_object = replicated_get_object sha256_hex,
      be_delete_object = replicated_delete_object sha256_hex,
      be_write_temp_object = \<lambda>rb s key rd. keeping rb (replicated_write_temp_object sha256_hex rb s key rd),
      be_commit_object = replicated_commit_object sha256_hex,
      be_health_check = \<lambda>rb s. keeping rb (replicated_health_check rb s),
      be_temp_dir = \<lambda>rb. temp_dir (layout (rb_local rb))\<rparr>"

section \<open>The contract of the two-step write\<close>

text \<open>
  \<open>view\<close> is what the node itself stores, \<open>staged\<close> says that a handle stands for the contents to be
  installed under a key, and \<open>root\<close> is the data directory: objects are the files below its
  directory for objects, and the parts of multipart uploads, which are kept beside them, are not touched.
\<close>

locale staged_backend =
  fixes B :: "('r, 'h) storage_backend"
    and view :: "'r \<Rightarrow> fs \<Rightarrow> string \<rightharpoonup> data"
    and staged :: "'r \<Rightarrow> fs \<Rightarrow> 'h \<Rightarrow> string \<Rightarrow> data \<Rightarrow> bool"
    and root :: "'r \<Rightarrow> path"
    and keys :: "string set"
  assumes keys_ok: "k \<in> keys \<Longrightarrow> valid_key k"
    and view_objects: "(\<And>p. prefix (root r @ [''objects'']) p \<Longrightarrow> files s p = files s' p) \<Longrightarrow> view r s k = view r s' k"
    and write_temp_view: "key \<in> keys \<Longrightarrow> be_write_temp_object B r s key rd = (x, r', s') \<Longrightarrow> k \<in> keys \<Longrightarrow>
      view r' s' k = view r s k"
    and write_temp_ok: "key \<in> keys \<Longrightarrow> be_write_temp_object B r s key rd = (Inr h, r', s') \<Longrightarrow>
      rd_end rd = Inr () \<and> staged r' s' h key (rd_bytes rd)"
    and commit_ok: "key \<in> keys \<Longrightarrow> staged r s h key d \<Longrightarrow> be_commit_object B r s h = (Inr u, r', s') \<Longrightarrow>
      k \<in> keys \<Longrightarrow> view r' s' k = (if k = key then Some d else view r s k)"
    and commit_err: "key \<in> keys \<Longrightarrow> staged r s h key d \<Longrightarrow> be_commit_object B r s h = (Inl e, r', s') \<Longrightarrow>
      k \<in> keys \<Longrightarrow> view r' s' k = view r s k \<or> (k = key \<and> view r' s' k = Some d)"
    and get_view: "key \<in> keys \<Longrightarrow> be_get_object B r s key = (z, r', s') \<Longrightarrow> k \<in> keys \<Longrightarrow> view r' s' k = view r s k"
    and get_ok: "key \<in> keys \<Longrightarrow> fs_faults s = [] \<Longrightarrow> view r s key = Some d \<Longrightarrow> be_get_object B r s key = (Inr d, r, s)"
    and delete_ok: "key \<in> keys \<Longrightarrow> be_delete_object B r s key = (Inr u, r', s') \<Longrightarrow> k \<in> keys \<Longrightarrow>
      view r' s' k = (if k = key then None else view r s k)"
    and delete_err: "key \<in> keys \<Longrightarrow> be_delete_object B r s key = (Inl e, r', s') \<Longrightarrow> k \<in> keys \<Longrightarrow>
      view r' s' k = view r s k"
    and root_same: "be_write_temp_object B r s key rd = (x, r', s') \<Longrightarrow> root r' = root r"
      "be_commit_object B r s h = (y, r', s') \<Longrightarrow> root r' = root r"
      "be_get_object B r s key = (z, r', s') \<Longrightarrow> root r' = root r"
      "be_delete_object B r s key = (y, r', s') \<Longrightarrow> root r' = root r"

section \<open>Both backends keep it\<close>

definition local_staged :: "(data \<Rightarrow> string) \<Rightarrow> ObjectStorage \<Rightarrow> fs \<Rightarrow> TempObject \<Rightarrow> string \<Rightarrow> data \<Rightarrow> bool" where
  "local_staged sha256_hex st s t key d \<longleftrightarrow>
     t = temp_of sha256_hex st key \<and> (\<exists>f. files s (temp_path t) = Some f \<and> f_data f = d)"

abbreviation local_root :: "ObjectStorage \<Rightarrow> path" where
  "local_root st \<equiv> base_path (layout st)"

lemma object_view_local:
  "(\<And>p. prefix (local_root st @ [''objects'']) p \<Longrightarrow> files s p = files s' p) \<Longrightarrow>
     object_view_fs sha st s k = object_view_fs sha st s' k"
  by (simp add: object_view_fs_def object_path_from_id_def)

lemma object_view_files: "files s' = files s \<Longrightarrow> object_view_fs sha st s' k = object_view_fs sha st s k"
  by (simp add: object_view_fs_def)

context object_ids
begin

lemma write_temp_object_view:
  "write_temp_object sha256_hex st s key rd = (x, s') \<Longrightarrow> object_view_fs sha256_hex st s' k = object_view_fs sha256_hex st s k"
  by (drule write_temp_object_ok) (simp add: object_view_fs_def)

lemma write_temp_object_staged:
  "write_temp_object sha256_hex st s key rd = (Inr t, s') \<Longrightarrow>
     rd_end rd = Inr () \<and> local_staged sha256_hex st s' t key (rd_bytes rd)"
  by (drule write_temp_object_ok) (auto simp: local_staged_def temp_of_def)

lemma commit_object_view:
  assumes "key \<in> keys" and "k \<in> keys" and "local_staged sha256_hex st s t key d" and "commit_object st s t = (x, s')"
  shows "(x = Inr () \<longrightarrow> object_view_fs sha256_hex st s' k = (if k = key then Some d else object_view_fs sha256_hex st s k))
    \<and> (object_view_fs sha256_hex st s' k = object_view_fs sha256_hex st s k
       \<or> (k = key \<and> object_view_fs sha256_hex st s' k = Some d))"
proof -
  let ?op = "\<lambda>k. object_path_from_id (layout st) (sha256_hex (as_bytes k))"
  from assms(3) obtain f where t: "t = temp_of sha256_hex st key" and f: "files s (temp_path t) = Some f" "f_data f = d"
    by (auto simp: local_staged_def)
  have p: "temp_path t \<noteq> final_path t" "final_path t = ?op key" "?op k \<noteq> temp_path t"
    by (simp_all add: t temp_of_def TempObject_new_def)
  have inj: "?op k = ?op key \<longleftrightarrow> k = key" using id_inj [OF assms(2,1)] by auto
  from commit_object_ok [OF assms(4) p(1)] p inj f show ?thesis
    by (cases x) (auto simp: object_view_fs_def)
qed

lemma drop_temp_view: "object_view_fs sha256_hex st (drop_temp s (temp_of sha256_hex st key)) k = object_view_fs sha256_hex st s k"
  by (simp add: object_view_fs_def drop_temp_other temp_of_def TempObject_new_def)

end

lemma keeping_eq [simp]: "keeping r x = (y, r', s') \<longleftrightarrow> r' = r \<and> x = (y, s')"
  by (auto simp: keeping_def)

lemma local_backend_simps [simp]:
  "be_get_object (local_backend sha) = (\<lambda>st s key. keeping st (get_object sha st s key))"
  "be_delete_object (local_backend sha) = (\<lambda>st s key. keeping st (delete_object sha st s key))"
  "be_write_temp_object (local_backend sha) = (\<lambda>st s key rd. keeping st (write_temp_object sha st s key rd))"
  "be_commit_object (local_backend sha) = (\<lambda>st s h. keeping st (commit_object st s h))"
  by (simp_all add: local_backend_def)

context object_ids
begin

lemma get_object_found:
  "key \<in> keys \<Longrightarrow> fs_faults s = [] \<Longrightarrow> object_view_fs sha256_hex st s key = Some d \<Longrightarrow>
     get_object sha256_hex st s key = (Inr d, s)"
  by (auto simp: get_object_def object_path_def object_id_eq file_open_def object_view_fs_def)

lemma delete_object_view:
  assumes "key \<in> keys" and "k \<in> keys" and "delete_object sha256_hex st s key = (x, s')"
  shows "object_view_fs sha256_hex st s' k
    = (if x = Inr () \<and> k = key then None else object_view_fs sha256_hex st s k)"
  using stored_delete [OF assms(3,1)] id_inj [OF assms(2,1)] by (auto simp: object_view_fs_def)

lemma get_object_view:
  "key \<in> keys \<Longrightarrow> get_object sha256_hex st s key = (x, s') \<Longrightarrow> object_view_fs sha256_hex st s' k = object_view_fs sha256_hex st s k"
  using stored_get [of s key x s'] by (intro object_view_files) simp

end

sublocale object_ids \<subseteq> local_be: staged_backend "local_backend sha256_hex"
  "object_view_fs sha256_hex" "local_staged sha256_hex" local_root keys
proof (unfold_locales, goal_cases)
  case (1 k) then show ?case by (rule keys_valid)
next
  case (2 r s s' k) then show ?case by (rule object_view_local)
next
  case (3 key r s rd x r' s' k)
  then show ?case using object_ids.write_temp_object_view [OF object_ids_axioms, of r s key rd x s' k] by simp
next
  case (4 key r s rd h r' s')
  then show ?case using object_ids.write_temp_object_staged [OF object_ids_axioms, of r s key rd h s'] by simp
next
  case (5 key r s h d u r' s' k)
  then show ?case using object_ids.commit_object_view [OF object_ids_axioms, of key k r s h d "Inr u" s'] by simp
next
  case (6 key r s h d e r' s' k)
  then show ?case using object_ids.commit_object_view [OF object_ids_axioms, of key k r s h d "Inl e" s'] by simp
next
  case (7 key r s z r' s' k)
  then show ?case using object_ids.get_object_view [OF object_ids_axioms, of key r s z s' k] by simp
next
  case (8 key s r d)
  then show ?case using object_ids.get_object_found [OF object_ids_axioms, of key s r d] by (simp add: keeping_def)
next
  case (9 key r s u r' s' k)
  then show ?case using object_ids.delete_object_view [OF object_ids_axioms, of key k r s "Inr u" s'] by simp
next
  case (10 key r s e r' s' k)
  then show ?case using object_ids.delete_object_view [OF object_ids_axioms, of key k r s "Inl e" s'] by simp
qed auto

text \<open>Streaming a file to the replicas only reads it; the local commit does the rest.\<close>

lemma send_chunks_files: "send_chunks s d first key i = (cs, s') \<Longrightarrow> fs_files s' = fs_files s"
proof (induction s d first key i arbitrary: cs s' rule: send_chunks.induct)
  case (1 s d first key i)
  obtain x s1 where n: "next_fault s = (x, s1)" by fastforce
  show ?case
  proof (cases "x = None \<and> d \<noteq> []")
    case True
    obtain cs2 s2 where r: "send_chunks s1 (drop CHUNK_SIZE d) False key i = (cs2, s2)" by fastforce
    from True n r 1(2) have "s' = s2" by (subst (asm) send_chunks.simps) simp
    with 1(1) [of x s1] n True r next_fault_eq [OF n] show ?thesis by simp
  next
    case False
    with n 1(2) have "s' = s1" by (subst (asm) send_chunks.simps) (auto split: option.splits)
    with next_fault_eq [OF n] show ?thesis by simp
  qed
qed

lemma client_stream_prepare_files:
  assumes "client_stream_prepare_object sha p s key i path checksum = (r, p', s')"
  shows "fs_files s' = fs_files s"
proof -
  have c: "fs_files (snd (file_chunks s path key i checksum)) = fs_files s"
    by (auto simp: file_chunks_def dest!: send_chunks_files file_open_effect split: prod.splits sum.splits)
  obtain x q where g: "get_channel p = (x, q)" by fastforce
  obtain cs s1 where f: "file_chunks s path key i checksum = (cs, s1)" by fastforce
  from assms g f have "s' = s \<or> s' = s1"
    by (auto simp: client_stream_prepare_object_def split: sum.splits prod.splits if_splits)
  with c f show ?thesis by auto
qed

lemma stream_prepare_all_files:
  "stream_prepare_all sha ps s nodes key path checksum i = (rs, qs, s') \<Longrightarrow> fs_files s' = fs_files s"
proof (induction nodes arbitrary: ps s rs)
  case (Cons n nodes)
  show ?case
  proof (cases "map_of ps n")
    case None
    with Cons show ?thesis by auto
  next
    case (Some p)
    obtain r p' s1 where c: "client_stream_prepare_object sha p s key i path checksum = (r, p', s1)" by (cases rule: prod_cases3)
    obtain rs' where "stream_prepare_all sha (AList.update n p' ps) s1 nodes key path checksum i = (rs', qs, s')"
      using Cons.prems Some c by (auto split: prod.splits)
    with Cons.IH client_stream_prepare_files [OF c] show ?thesis by simp
  qed
qed simp

lemma replicate_write_streaming_local:
  assumes "replicate_write_streaming sha co s key path checksum lw = (r, co', s')"
  shows "\<exists>s1. fs_files s1 = fs_files s
    \<and> ((\<exists>res. r = Inr res \<and> \<not> quorum_achieved res \<and> s' = drop_local lw s1)
     \<or> (\<exists>e. r = Inl e \<and> run_local lw s1 = (Inl e, s'))
     \<or> (\<exists>res. r = Inr res \<and> quorum_achieved res \<and> run_local lw s1 = (Inr (), s')))"
proof -
  obtain i co1 where i: "next_request_id co = (i, co1)" by fastforce
  obtain nodes co2 where sel: "select_replica_nodes co1 (replication_factor (co_config co1)) = (nodes, co2)" by fastforce
  obtain rs ps s1 where pr: "stream_prepare_all sha (clients co2) s nodes key path checksum i = (rs, ps, s1)"
    by (cases rule: prod_cases3)
  from assms i sel pr have c: "complete_2pc_write (co2\<lparr>clients := ps\<rparr>) s1
      (process_prepare_results co2 key checksum i rs) lw = (r, co', s')"
    by (simp add: replicate_write_streaming_def)
  show ?thesis
    using stream_prepare_all_files [OF pr]
      complete_2pc_write_facts [OF c, where P = "\<lambda>_. True" and Q = "\<lambda>_. True" and sha = sha]
    by (auto simp: phase_result_def)
qed

definition replicated_staged ::
  "(data \<Rightarrow> string) \<Rightarrow> ReplicatedBackend \<Rightarrow> fs \<Rightarrow> ReplicatedTempHandle \<Rightarrow> string \<Rightarrow> data \<Rightarrow> bool" where
  "replicated_staged sha256_hex rb s h key d \<longleftrightarrow>
     rt_key h = key \<and> local_staged sha256_hex (rb_local rb) s (rt_inner h) key d"

abbreviation "replicated_view sha256_hex rb \<equiv> object_view_fs sha256_hex (rb_local rb)"

lemma compute_file_checksum_files: "compute_file_checksum sha s p = (x, s') \<Longrightarrow> fs_files s' = fs_files s"
  by (auto simp: compute_file_checksum_def dest!: file_open_effect file_read_effect split: prod.splits sum.splits)

lemma local_staged_files: "fs_files s' = fs_files s \<Longrightarrow> local_staged sha st s' t key d = local_staged sha st s t key d"
  by (simp add: local_staged_def)

lemma local_staged_temp: "local_staged sha st s t key d \<Longrightarrow> t = temp_of sha st key"
  by (simp add: local_staged_def)

lemma replicate_temp_local:
  assumes "replicate_temp sha rb s key t = (x, rb', s')"
  shows "rb_local rb' = rb_local rb \<and> (\<exists>s1. fs_files s1 = fs_files s
    \<and> ((\<exists>e. x = Inl e \<and> s' = drop_temp s1 t) \<or> commit_object (rb_local rb) s1 t = (x, s')))"
proof -
  obtain c s1 where c: "compute_file_checksum sha s (temp_path t) = (c, s1)" by fastforce
  note f = compute_file_checksum_files [OF c]
  show ?thesis
  proof (cases c)
    case (Inl e)
    with assms c f show ?thesis by (auto simp: replicate_temp_def)
  next
    case (Inr checksum)
    obtain res co s2 where w: "replicate_write_streaming sha (rb_coordinator rb) s1 key (temp_path t) checksum
        (commit_future (rb_local rb) t) = (res, co, s2)" by (cases rule: prod_cases3)
    from replicate_write_streaming_local [OF w] obtain s3 where s3: "fs_files s3 = fs_files s1"
      and r: "(\<exists>y. res = Inr y \<and> \<not> quorum_achieved y \<and> s2 = drop_temp s3 t)
        \<or> (\<exists>e. res = Inl e \<and> commit_object (rb_local rb) s3 t = (Inl e, s2))
        \<or> (\<exists>y. res = Inr y \<and> quorum_achieved y \<and> commit_object (rb_local rb) s3 t = (Inr (), s2))"
      by (auto simp: commit_future_def)
    from assms c Inr w have "rb' = rb\<lparr>rb_coordinator := co\<rparr>" "s' = s2"
      "x = (case res of Inl e \<Rightarrow> Inl e | Inr y \<Rightarrow> if quorum_achieved y then Inr ()
         else Inl (QuorumNotAchieved (success_count y) (write_quorum (rb_quorum_config rb))))"
      by (auto simp: replicate_temp_def split: sum.splits if_splits)
    with s3 f r show ?thesis by (intro conjI exI [of _ s3]) auto
  qed
qed

lemma delete_loop_success: "success_count acc \<le> success_count (delete_loop acc rs)"
  by (induction acc rs rule: delete_loop.induct) auto

lemma replicated_delete_local:
  assumes "replicated_delete_object sha rb s key = (x, rb', s')"
  shows "rb_local rb' = rb_local rb \<and>
     (\<exists>y. delete_object sha (rb_local rb) s key = (y, s') \<and> (x = Inr () \<longleftrightarrow> y = Inr ()))"
proof -
  obtain i co1 where i: "next_request_id (rb_coordinator rb) = (i, co1)" by fastforce
  obtain y s1 where y: "delete_object sha (rb_local rb) s key = (y, s1)" by fastforce
  obtain rs ps where a: "delete_all_replicas sha (clients co1) key i = (rs, ps)" by fastforce
  have "success_count (delete_loop \<lparr>success_count = 1, failure_count = 0, quorum_achieved = False,
      successful_nodes = [local_node_id co1], failed_nodes = []\<rparr> rs) \<noteq> 0"
    using delete_loop_success [of "\<lparr>success_count = 1, failure_count = 0, quorum_achieved = False,
      successful_nodes = [local_node_id co1], failed_nodes = []\<rparr>" rs] by simp
  with assms i y a show ?thesis
    by (cases y) (auto simp: replicated_delete_object_def replicate_delete_def Let_def)
qed

lemma replicated_get_local:
  "replicated_get_object sha rb s key = (x, rb', s') \<Longrightarrow> rb_local rb' = rb_local rb \<and>
     (\<exists>y. get_object sha (rb_local rb) s key = (y, s') \<and> (\<forall>d. y = Inr d \<longrightarrow> x = Inr d \<and> rb' = rb))"
  by (auto simp: replicated_get_object_def split: prod.splits sum.splits StorageError.splits option.splits)

lemma replicated_write_temp_local:
  "replicated_write_temp_object sha rb s key rd = (x, s') \<Longrightarrow>
     (\<exists>y. write_temp_object sha (rb_local rb) s key rd = (y, s')
        \<and> (\<forall>h. x = Inr h \<longrightarrow> rt_key h = key \<and> y = Inr (rt_inner h)))"
  by (auto simp: replicated_write_temp_object_def split: prod.splits sum.splits)

lemma replicated_backend_simps [simp]:
  "be_get_object (replicated_backend sha) = replicated_get_object sha"
  "be_delete_object (replicated_backend sha) = replicated_delete_object sha"
  "be_write_temp_object (replicated_backend sha) = (\<lambda>rb s key rd. keeping rb (replicated_write_temp_object sha rb s key rd))"
  "be_commit_object (replicated_backend sha) = replicated_commit_object sha"
  by (simp_all add: replicated_backend_def)

context object_ids
begin

lemma replicated_commit_view:
  assumes "key \<in> keys" and "k \<in> keys" and "replicated_staged sha256_hex rb s h key d"
    and "replicated_commit_object sha256_hex rb s h = (x, rb', s')"
  shows "(x = Inr () \<longrightarrow> replicated_view sha256_hex rb' s' k = (if k = key then Some d else replicated_view sha256_hex rb s k))
    \<and> (replicated_view sha256_hex rb' s' k = replicated_view sha256_hex rb s k
       \<or> (k = key \<and> replicated_view sha256_hex rb' s' k = Some d))"
proof -
  from assms(3) have h: "rt_key h = key" and st: "local_staged sha256_hex (rb_local rb) s (rt_inner h) key d"
    by (auto simp: replicated_staged_def)
  from assms(4) h replicate_temp_local [of sha256_hex rb s key "rt_inner h" x rb' s'] obtain s1 where
    l: "rb_local rb' = rb_local rb" and s1: "fs_files s1 = fs_files s"
    and c: "(\<exists>e. x = Inl e \<and> s' = drop_temp s1 (rt_inner h)) \<or> commit_object (rb_local rb) s1 (rt_inner h) = (x, s')"
    by (auto simp: replicated_commit_object_def)
  have v: "object_view_fs sha256_hex (rb_local rb) s1 k = object_view_fs sha256_hex (rb_local rb) s k"
    by (rule object_view_files) (simp add: s1)
  from c show ?thesis
  proof
    assume "\<exists>e. x = Inl e \<and> s' = drop_temp s1 (rt_inner h)"
    then obtain e where "x = Inl e" "s' = drop_temp s1 (temp_of sha256_hex (rb_local rb) key)"
      unfolding local_staged_temp [OF st] by blast
    with l v object_ids.drop_temp_view [OF object_ids_axioms, of "rb_local rb" s1 key k] show ?thesis by simp
  next
    assume co: "commit_object (rb_local rb) s1 (rt_inner h) = (x, s')"
    have "local_staged sha256_hex (rb_local rb) s1 (rt_inner h) key d"
      by (rule iffD2 [OF local_staged_files st]) (rule s1)
    from object_ids.commit_object_view [OF object_ids_axioms assms(1,2) this co] l v show ?thesis by simp
  qed
qed

end

sublocale object_ids \<subseteq> repl_be: staged_backend "replicated_backend sha256_hex"
  "replicated_view sha256_hex" "replicated_staged sha256_hex" "\<lambda>rb. local_root (rb_local rb)" keys
proof (unfold_locales, goal_cases)
  case (1 k) then show ?case by (rule keys_valid)
next
  case (2 r s s' k) then show ?case by (rule object_view_local)
next
  case (3 key r s rd x r' s' k)
  then show ?case
    using object_ids.write_temp_object_view [OF object_ids_axioms, of "rb_local r" s key rd _ s' k]
      replicated_write_temp_local [of sha256_hex r s key rd x s'] by force
next
  case (4 key r s rd h r' s')
  then show ?case
    using object_ids.write_temp_object_staged [OF object_ids_axioms, of "rb_local r" s key rd "rt_inner h" s']
      replicated_write_temp_local [of sha256_hex r s key rd "Inr h" s'] by (auto simp: replicated_staged_def)
next
  case (5 key r s h d u r' s' k)
  then show ?case using replicated_commit_view [of key k r s h d "Inr u" r' s'] by simp
next
  case (6 key r s h d e r' s' k)
  then show ?case using replicated_commit_view [of key k r s h d "Inl e" r' s'] by simp
next
  case (7 key r s z r' s' k)
  from replicated_get_local [of sha256_hex r s key z r' s'] 7(2) obtain y where
    "rb_local r' = rb_local r" "get_object sha256_hex (rb_local r) s key = (y, s')" by auto
  with object_ids.get_object_view [OF object_ids_axioms 7(1), of "rb_local r" s y s' k] show ?case by simp
next
  case (8 key s r d)
  then show ?case
    using object_ids.get_object_found [OF object_ids_axioms 8] by (simp add: replicated_get_object_def)
next
  case (9 key r s u r' s' k)
  from replicated_delete_local [of sha256_hex r s key "Inr u" r' s'] 9(2) obtain y where
    "rb_local r' = rb_local r" "delete_object sha256_hex (rb_local r) s key = (y, s')" "y = Inr ()" by auto
  with object_ids.delete_object_view [OF object_ids_axioms 9(1,3), of "rb_local r" s y s'] show ?case by simp
next
  case (10 key r s e r' s' k)
  from replicated_delete_local [of sha256_hex r s key "Inl e" r' s'] 10(2) obtain y where
    "rb_local r' = rb_local r" "delete_object sha256_hex (rb_local r) s key = (y, s')" "y \<noteq> Inr ()" by auto
  with object_ids.delete_object_view [OF object_ids_axioms 10(1,3), of "rb_local r" s y s'] show ?case by simp
qed (auto simp: replicated_commit_object_def dest: replicate_temp_local replicated_get_local replicated_delete_local)

context object_ids
begin

lemmas local_be_axioms = local_be.staged_backend_axioms
lemmas repl_be_axioms = repl_be.staged_backend_axioms

end

end
