(* ===== verification/Api_Responses.thy ===== *)
theory Api_Responses
  imports Save_Prelude
begin

text \<open>
  The XML documents of the S3 interface, \<open>crates/save-common/src/s3_responses.rs\<close>: their data
  and constructors. Turning a document into text is done by \<open>quick_xml\<close>, outside code; the
  constructor of a document holds everything the text depends on. The listing of version 2 computes
  the token with which the client asks for the next page.
\<close>

definition S3_XMLNS :: string where
  "S3_XMLNS = ''http://s3.amazonaws.com/doc/2006-03-01/''"

datatype StorageClass = Standard

fun StorageClass_as_str :: "StorageClass \<Rightarrow> string" where
  "StorageClass_as_str Standard = ''STANDARD''"

record Owner =
  own_id :: string
  own_display_name :: string

record BucketEntry =
  be_name :: string
  be_creation_date :: instant

record ListAllMyBucketsResult =
  lab_xmlns :: string
  lab_owner :: Owner
  lab_buckets :: "BucketEntry list"

definition ListAllMyBucketsResult_new :: "(string \<times> instant) list \<Rightarrow> string \<Rightarrow> ListAllMyBucketsResult" where
  "ListAllMyBucketsResult_new buckets owner_id =
     \<lparr>lab_xmlns = S3_XMLNS,
      lab_owner = \<lparr>own_id = owner_id, own_display_name = owner_id\<rparr>,
      lab_buckets = map (\<lambda>(name, creation_date). \<lparr>be_name = name, be_creation_date = creation_date\<rparr>) buckets\<rparr>"

record ObjectEntry =
  oe_key :: string
  oe_last_modified :: instant
  oe_etag :: string
  oe_size :: u64
  oe_storage_class :: StorageClass

type_synonym object_line = "string \<times> instant \<times> string \<times> u64"

definition object_entry :: "object_line \<Rightarrow> ObjectEntry" where
  "object_entry l =
     (case l of (key, last_modified, etag, sz) \<Rightarrow>
        \<lparr>oe_key = key, oe_last_modified = last_modified, oe_etag = etag, oe_size = sz,
         oe_storage_class = Standard\<rparr>)"

definition unwrap_or_default :: "string option \<Rightarrow> string" where
  "unwrap_or_default x = (case x of Some s \<Rightarrow> s | None \<Rightarrow> [])"

record ListBucketResult =
  lb_xmlns :: string
  lb_name :: string
  lb_prefix :: string
  lb_marker :: string
  lb_max_keys :: nat
  lb_is_truncated :: bool
  lb_contents :: "ObjectEntry list"

definition ListBucketResult_new ::
  "string \<Rightarrow> string option \<Rightarrow> string option \<Rightarrow> nat \<Rightarrow> bool \<Rightarrow> object_line list \<Rightarrow> ListBucketResult" where
  "ListBucketResult_new name pre marker max_keys is_truncated ls =
     \<lparr>lb_xmlns = S3_XMLNS, lb_name = name, lb_prefix = unwrap_or_default pre,
      lb_marker = unwrap_or_default marker, lb_max_keys = max_keys, lb_is_truncated = is_truncated,
      lb_contents = map object_entry ls\<rparr>"

record ListBucketResultV2 =
  lb2_xmlns :: string
  lb2_name :: string
  lb2_prefix :: string
  lb2_max_keys :: nat
  lb2_is_truncated :: bool
  lb2_key_count :: nat
  lb2_continuation_token :: string
  lb2_next_continuation_token :: "string option"
  lb2_contents :: "ObjectEntry list"

definition ListBucketResultV2_new ::
  "string \<Rightarrow> string option \<Rightarrow> string option \<Rightarrow> nat \<Rightarrow> bool \<Rightarrow> object_line list \<Rightarrow> ListBucketResultV2" where
  "ListBucketResultV2_new name pre continuation_token max_keys is_truncated ls =
     (let key_count = length ls;
          next_continuation_token = (if is_truncated then (if ls = [] then None else Some (fst (List.last ls))) else None) in
      \<lparr>lb2_xmlns = S3_XMLNS, lb2_name = name, lb2_prefix = unwrap_or_default pre,
       lb2_max_keys = max_keys, lb2_is_truncated = is_truncated, lb2_key_count = key_count,
       lb2_continuation_token = unwrap_or_default continuation_token,
       lb2_next_continuation_token = next_continuation_token,
       lb2_contents = map object_entry ls\<rparr>)"

record InitiateMultipartUploadResult =
  im_xmlns :: string
  im_bucket :: string
  im_key :: string
  im_upload_id :: string

definition InitiateMultipartUploadResult_new :: "string \<Rightarrow> string \<Rightarrow> string \<Rightarrow> InitiateMultipartUploadResult" where
  "InitiateMultipartUploadResult_new bucket key upload_id =
     \<lparr>im_xmlns = S3_XMLNS, im_bucket = bucket, im_key = key, im_upload_id = upload_id\<rparr>"

record CompleteMultipartUploadResult =
  cmu_xmlns :: string
  cmu_location :: string
  cmu_bucket :: string
  cmu_key :: string
  cmu_etag :: string

definition CompleteMultipartUploadResult_new ::
  "string \<Rightarrow> string \<Rightarrow> string \<Rightarrow> string \<Rightarrow> CompleteMultipartUploadResult" where
  "CompleteMultipartUploadResult_new bucket key etag endpoint =
     \<lparr>cmu_xmlns = S3_XMLNS, cmu_location = endpoint @ ''/'' @ bucket @ ''/'' @ key,
      cmu_bucket = bucket, cmu_key = key, cmu_etag = etag\<rparr>"

record UploadEntry =
  ue_key :: string
  ue_upload_id :: string
  ue_initiated :: instant

record ListMultipartUploadsResult =
  lmu_xmlns :: string
  lmu_bucket :: string
  lmu_upload :: "UploadEntry list"

definition ListMultipartUploadsResult_new ::
  "string \<Rightarrow> (string \<times> string \<times> instant) list \<Rightarrow> ListMultipartUploadsResult" where
  "ListMultipartUploadsResult_new bucket uploads =
     \<lparr>lmu_xmlns = S3_XMLNS, lmu_bucket = bucket,
      lmu_upload = map (\<lambda>(key, upload_id, initiated).
        \<lparr>ue_key = key, ue_upload_id = upload_id, ue_initiated = initiated\<rparr>) uploads\<rparr>"

text \<open>The documents that the trait \<open>S3XmlResponse\<close> can serialise.\<close>

datatype s3_document =
    BucketsDoc ListAllMyBucketsResult
  | ListDoc ListBucketResult
  | ListV2Doc ListBucketResultV2
  | InitiateDoc InitiateMultipartUploadResult
  | CompleteDoc CompleteMultipartUploadResult
  | UploadsDoc ListMultipartUploadsResult

fun root_element_name :: "s3_document \<Rightarrow> string" where
  "root_element_name (BucketsDoc _) = ''ListAllMyBucketsResult''"
| "root_element_name (ListDoc _) = ''ListBucketResult''"
| "root_element_name (ListV2Doc _) = ''ListBucketResult''"
| "root_element_name (InitiateDoc _) = ''InitiateMultipartUploadResult''"
| "root_element_name (CompleteDoc _) = ''CompleteMultipartUploadResult''"
| "root_element_name (UploadsDoc _) = ''ListMultipartUploadsResult''"

end
