(* ===== verification/Api_Spec.thy ===== *)
theory Api_Spec
  imports Meta_Object
begin

text \<open>
  What a node promises its clients, without locks, files, Raft or failures of the machinery: a map
  from objects to metadata and a map from storage keys to contents. A request that stores an object
  installs contents and metadata; if it reports a failure it may have done nothing, or installed the
  contents only, or everything, but never metadata without contents. A request that deletes removes
  the metadata before the contents. The handlers are shown to refine this.
\<close>

definition storage_key :: "string \<Rightarrow> string \<Rightarrow> string" where
  "storage_key bucket key = bucket @ ''/'' @ key"

lemma storage_key_inject:
  "CHR ''/'' \<notin> set b \<Longrightarrow> CHR ''/'' \<notin> set b' \<Longrightarrow> storage_key b k = storage_key b' k' \<longleftrightarrow> b = b' \<and> k = k'"
  using sep_append_inject [of "CHR ''/''" b b' k k'] by (simp add: storage_key_def)

type_synonym node = "(string \<times> string \<rightharpoonup> ObjectMetadata) \<times> (string \<rightharpoonup> data)"

datatype node_request =
    StoreReq string string ObjectMetadata data
  | DeleteReq string string
  | OtherReq

text \<open>\<open>node_step ok r n n'\<close>: handling \<open>r\<close> may lead from \<open>n\<close> to \<open>n'\<close> and report success or failure.\<close>

inductive node_step :: "bool \<Rightarrow> node_request \<Rightarrow> node \<Rightarrow> node \<Rightarrow> bool" where
  stored: "node_step ok (StoreReq b k m d) (M, D) (M((b, k) \<mapsto> m), D(storage_key b k \<mapsto> d))"
| store_half: "node_step False (StoreReq b k m d) (M, D) (M, D(storage_key b k \<mapsto> d))"
| store_nothing: "node_step False (StoreReq b k m d) n n"
| deleted: "node_step ok (DeleteReq b k) (M, D) (M((b, k) := None), D(storage_key b k := None))"
| delete_half: "node_step False (DeleteReq b k) (M, D) (M((b, k) := None), D)"
| delete_nothing: "node_step False (DeleteReq b k) n n"
| other: "node_step ok OtherReq n n"

inductive_cases node_step_StoreE: "node_step ok (StoreReq b k m d) n n'"
inductive_cases node_step_DeleteE: "node_step ok (DeleteReq b k) n n'"
inductive_cases node_step_OtherE: "node_step ok OtherReq n n'"
inductive_simps node_step_Store_ok [simp]: "node_step True (StoreReq b k m d) (M, D) (M', D')"
inductive_simps node_step_Other [simp]: "node_step ok OtherReq n n'"

fun request_slash_free :: "node_request \<Rightarrow> bool" where
  "request_slash_free (StoreReq b k m d) \<longleftrightarrow> CHR ''/'' \<notin> set b"
| "request_slash_free (DeleteReq b k) \<longleftrightarrow> CHR ''/'' \<notin> set b"
| "request_slash_free OtherReq \<longleftrightarrow> True"

text \<open>No metadata without contents, for the objects with a storage key of the given set.\<close>

definition backed :: "string set \<Rightarrow> node \<Rightarrow> bool" where
  "backed keys n \<longleftrightarrow> (\<forall>b k. (b, k) \<in> dom (fst n) \<longrightarrow> CHR ''/'' \<notin> set b \<longrightarrow> storage_key b k \<in> keys \<longrightarrow> storage_key b k \<in> dom (snd n))"

lemma node_step_backed:
  "node_step ok r n n' \<Longrightarrow> request_slash_free r \<Longrightarrow> backed keys n \<Longrightarrow> backed keys n'"
  by (induction rule: node_step.induct)
    (auto simp: backed_def storage_key_inject domIff split: if_splits)

end
