(* ===== verification/Common_Config.thy ===== *)
theory Common_Config
  imports Common_Cluster
begin

text \<open>
  The configuration, \<open>crates/save-common/src/config.rs\<close>: its sections with their defaults, reading
  it and the checks a node makes before it starts. Taking the TOML text apart is a parameter: it
  yields the fields that are written in the file. What a missing field means is said by the
  attributes of the fields (\<open>#[serde(default = ...)]\<close>) and modelled by the functions named after
  the sections; a section that is missing as a whole has the \<open>Default\<close> of its type. The jitter of
  the retries, a floating point number, is left out.
\<close>

section \<open>Sections and defaults\<close>

definition DEFAULT_HTTP_BIND :: string where
  "DEFAULT_HTTP_BIND = ''0.0.0.0:9000''"

definition DEFAULT_RAFT_BIND :: string where
  "DEFAULT_RAFT_BIND = ''0.0.0.0:9001''"

definition DEFAULT_REPLICATION_BIND :: string where
  "DEFAULT_REPLICATION_BIND = ''0.0.0.0:9002''"

datatype ConsistencyMode = Strong | Eventual

text \<open>A field that may be missing, and one that has to be there.\<close>

definition or_default :: "'a option \<Rightarrow> 'a \<Rightarrow> 'a" where
  "or_default x d = (case x of Some y \<Rightarrow> y | None \<Rightarrow> d)"

record ServerConfig =
  srv_bind_address :: string
  srv_max_body_size :: u64
  srv_worker_threads :: u64
  srv_max_blocking_threads :: u64
  srv_bucket_cache_ttl_secs :: u64
  srv_metrics_interval_secs :: u64

record raw_ServerConfig =
  raw_srv_bind_address :: string
  raw_srv_max_body_size :: "u64 option"
  raw_srv_worker_threads :: "u64 option"
  raw_srv_max_blocking_threads :: "u64 option"
  raw_srv_bucket_cache_ttl_secs :: "u64 option"
  raw_srv_metrics_interval_secs :: "u64 option"

definition ServerConfig_from :: "raw_ServerConfig \<Rightarrow> ServerConfig" where
  "ServerConfig_from r =
     \<lparr>srv_bind_address = raw_srv_bind_address r,
      srv_max_body_size = or_default (raw_srv_max_body_size r) (100 * 1024 * 1024),
      srv_worker_threads = or_default (raw_srv_worker_threads r) 4,
      srv_max_blocking_threads = or_default (raw_srv_max_blocking_threads r) 512,
      srv_bucket_cache_ttl_secs = or_default (raw_srv_bucket_cache_ttl_secs r) 60,
      srv_metrics_interval_secs = or_default (raw_srv_metrics_interval_secs r) 60\<rparr>"

record StorageConfig =
  stc_data_path :: string
  stc_metadata_path :: string
  stc_max_object_size :: "u64 option"
  stc_gc_interval_secs :: u64
  stc_gc_temp_file_max_age_secs :: u64
  stc_fsync_mode :: string

record raw_StorageConfig =
  raw_stc_data_path :: string
  raw_stc_metadata_path :: string
  raw_stc_max_object_size :: "u64 option"
  raw_stc_gc_interval_secs :: "u64 option"
  raw_stc_gc_temp_file_max_age_secs :: "u64 option"
  raw_stc_fsync_mode :: "string option"

definition StorageConfig_from :: "raw_StorageConfig \<Rightarrow> StorageConfig" where
  "StorageConfig_from r =
     \<lparr>stc_data_path = raw_stc_data_path r,
      stc_metadata_path = raw_stc_metadata_path r,
      stc_max_object_size = raw_stc_max_object_size r,
      stc_gc_interval_secs = or_default (raw_stc_gc_interval_secs r) (10 * 60),
      stc_gc_temp_file_max_age_secs = or_default (raw_stc_gc_temp_file_max_age_secs r) (60 * 60),
      stc_fsync_mode = or_default (raw_stc_fsync_mode r) ''data''\<rparr>"

record MetadataConfig =
  mdc_write_buffer_size_mb :: u64
  mdc_max_write_buffer_number :: int
  mdc_block_cache_size_mb :: u64
  mdc_max_background_jobs :: int

record raw_MetadataConfig =
  raw_mdc_write_buffer_size_mb :: "u64 option"
  raw_mdc_max_write_buffer_number :: "int option"
  raw_mdc_block_cache_size_mb :: "u64 option"
  raw_mdc_max_background_jobs :: "int option"

definition MetadataConfig_from :: "raw_MetadataConfig \<Rightarrow> MetadataConfig" where
  "MetadataConfig_from r =
     \<lparr>mdc_write_buffer_size_mb = or_default (raw_mdc_write_buffer_size_mb r) 128,
      mdc_max_write_buffer_number = or_default (raw_mdc_max_write_buffer_number r) 4,
      mdc_block_cache_size_mb = or_default (raw_mdc_block_cache_size_mb r) 256,
      mdc_max_background_jobs = or_default (raw_mdc_max_background_jobs r) 4\<rparr>"

definition MetadataConfig_default :: MetadataConfig where
  "MetadataConfig_default =
     \<lparr>mdc_write_buffer_size_mb = 128,
      mdc_max_write_buffer_number = 4,
      mdc_block_cache_size_mb = 256,
      mdc_max_background_jobs = 4\<rparr>"

record LimitsConfig =
  lim_max_concurrent_requests :: u64
  lim_requests_per_second :: u64
  lim_request_timeout_secs :: u64

record raw_LimitsConfig =
  raw_lim_max_concurrent_requests :: "u64 option"
  raw_lim_requests_per_second :: "u64 option"
  raw_lim_request_timeout_secs :: "u64 option"

definition LimitsConfig_from :: "raw_LimitsConfig \<Rightarrow> LimitsConfig" where
  "LimitsConfig_from r =
     \<lparr>lim_max_concurrent_requests = or_default (raw_lim_max_concurrent_requests r) 1000,
      lim_requests_per_second = or_default (raw_lim_requests_per_second r) 100,
      lim_request_timeout_secs = or_default (raw_lim_request_timeout_secs r) 300\<rparr>"

definition LimitsConfig_default :: LimitsConfig where
  "LimitsConfig_default =
     \<lparr>lim_max_concurrent_requests = 1000,
      lim_requests_per_second = 100,
      lim_request_timeout_secs = 300\<rparr>"

record ShutdownConfig =
  shd_drain_timeout_secs :: u64

record raw_ShutdownConfig =
  raw_shd_drain_timeout_secs :: "u64 option"

definition ShutdownConfig_from :: "raw_ShutdownConfig \<Rightarrow> ShutdownConfig" where
  "ShutdownConfig_from r =
     \<lparr>shd_drain_timeout_secs = or_default (raw_shd_drain_timeout_secs r) 30\<rparr>"

definition ShutdownConfig_default :: ShutdownConfig where
  "ShutdownConfig_default =
     \<lparr>shd_drain_timeout_secs = 30\<rparr>"

record RetrySettings =
  rts_max_attempts :: u32
  rts_initial_delay_ms :: u64
  rts_max_delay_ms :: u64

record raw_RetrySettings =
  raw_rts_max_attempts :: "u32 option"
  raw_rts_initial_delay_ms :: "u64 option"
  raw_rts_max_delay_ms :: "u64 option"

definition RetrySettings_from :: "raw_RetrySettings \<Rightarrow> RetrySettings" where
  "RetrySettings_from r =
     \<lparr>rts_max_attempts = or_default (raw_rts_max_attempts r) 3,
      rts_initial_delay_ms = or_default (raw_rts_initial_delay_ms r) 100,
      rts_max_delay_ms = or_default (raw_rts_max_delay_ms r) 5000\<rparr>"

definition RetrySettings_default :: RetrySettings where
  "RetrySettings_default =
     \<lparr>rts_max_attempts = 3,
      rts_initial_delay_ms = 100,
      rts_max_delay_ms = 5000\<rparr>"

record TlsConfig =
  tls_cert_path :: string
  tls_key_path :: string
  tls_ca_cert_path :: string

record CredentialsConfig =
  access_key :: string
  secret_key :: string

record ReplicationConfig =
  rpc_replication_factor :: u64
  rpc_bind_addr :: string
  rpc_tls :: "TlsConfig option"
  rpc_retry :: RetrySettings
  rpc_stale_prepare_cleanup_interval_secs :: u64
  rpc_stale_prepare_max_age_secs :: u64

record raw_ReplicationConfig =
  raw_rpc_replication_factor :: "u64 option"
  raw_rpc_bind_addr :: "string option"
  raw_rpc_tls :: "TlsConfig option"
  raw_rpc_retry :: "raw_RetrySettings option"
  raw_rpc_stale_prepare_cleanup_interval_secs :: "u64 option"
  raw_rpc_stale_prepare_max_age_secs :: "u64 option"

definition ReplicationConfig_default :: ReplicationConfig where
  "ReplicationConfig_default =
     \<lparr>rpc_replication_factor = 1,
      rpc_bind_addr = DEFAULT_REPLICATION_BIND,
      rpc_tls = None,
      rpc_retry = RetrySettings_default,
      rpc_stale_prepare_cleanup_interval_secs = (5 * 60),
      rpc_stale_prepare_max_age_secs = (60 * 60)\<rparr>"

text \<open>A section without the field \<open>bind_addr\<close> has the default of a string there, which is not the default of the section.\<close>

definition ReplicationConfig_from :: "raw_ReplicationConfig \<Rightarrow> ReplicationConfig" where
  "ReplicationConfig_from r =
     \<lparr>rpc_replication_factor = or_default (raw_rpc_replication_factor r) 1,
      rpc_bind_addr = or_default (raw_rpc_bind_addr r) [],
      rpc_tls = raw_rpc_tls r,
      rpc_retry = (case raw_rpc_retry r of Some x \<Rightarrow> RetrySettings_from x | None \<Rightarrow> RetrySettings_default),
      rpc_stale_prepare_cleanup_interval_secs = or_default (raw_rpc_stale_prepare_cleanup_interval_secs r) (5 * 60),
      rpc_stale_prepare_max_age_secs = or_default (raw_rpc_stale_prepare_max_age_secs r) (60 * 60)\<rparr>"

definition is_enabled :: "ReplicationConfig \<Rightarrow> bool" where
  "is_enabled c \<longleftrightarrow> rpc_replication_factor c > 1"

definition config_replication_addr :: "ReplicationConfig \<Rightarrow> string" where
  "config_replication_addr c = ''http://'' @ rpc_bind_addr c"

record InternalApiConfig =
  iac_bind_addr :: string
  iac_tls :: "TlsConfig option"
  iac_require_auth :: bool

record raw_InternalApiConfig =
  raw_iac_bind_addr :: "string option"
  raw_iac_tls :: "TlsConfig option"
  raw_iac_require_auth :: "bool option"

definition InternalApiConfig_default :: InternalApiConfig where
  "InternalApiConfig_default =
     \<lparr>iac_bind_addr = [],
      iac_tls = None,
      iac_require_auth = True\<rparr>"

definition InternalApiConfig_from :: "raw_InternalApiConfig \<Rightarrow> InternalApiConfig" where
  "InternalApiConfig_from r =
     \<lparr>iac_bind_addr = or_default (raw_iac_bind_addr r) [],
      iac_tls = raw_iac_tls r,
      iac_require_auth = or_default (raw_iac_require_auth r) True\<rparr>"

record ClusterConfig =
  clc_node_id :: u64
  clc_raft_bind_addr :: string
  clc_seed_nodes :: "string list"
  clc_consistency_mode :: ConsistencyMode
  clc_connect_timeout_secs :: u64
  clc_rpc_timeout_secs :: u64
  clc_heartbeat_interval_ms :: u64
  clc_election_timeout_min_ms :: u64
  clc_election_timeout_max_ms :: u64
  clc_join_timeout_secs :: u64
  clc_leave_timeout_secs :: u64
  clc_learner_catchup_delay_ms :: u64
  clc_join_max_retries :: u32
  clc_replication :: ReplicationConfig
  clc_internal_api :: InternalApiConfig

record raw_ClusterConfig =
  raw_clc_node_id :: "u64 option"
  raw_clc_raft_bind_addr :: "string option"
  raw_clc_seed_nodes :: "string list option"
  raw_clc_consistency_mode :: "ConsistencyMode option"
  raw_clc_connect_timeout_secs :: "u64 option"
  raw_clc_rpc_timeout_secs :: "u64 option"
  raw_clc_heartbeat_interval_ms :: "u64 option"
  raw_clc_election_timeout_min_ms :: "u64 option"
  raw_clc_election_timeout_max_ms :: "u64 option"
  raw_clc_join_timeout_secs :: "u64 option"
  raw_clc_leave_timeout_secs :: "u64 option"
  raw_clc_learner_catchup_delay_ms :: "u64 option"
  raw_clc_join_max_retries :: "u32 option"
  raw_clc_replication :: "raw_ReplicationConfig option"
  raw_clc_internal_api :: "raw_InternalApiConfig option"

definition ClusterConfig_default :: ClusterConfig where
  "ClusterConfig_default =
     \<lparr>clc_node_id = 1,
      clc_raft_bind_addr = DEFAULT_RAFT_BIND,
      clc_seed_nodes = [],
      clc_consistency_mode = Strong,
      clc_connect_timeout_secs = 5,
      clc_rpc_timeout_secs = 30,
      clc_heartbeat_interval_ms = 50,
      clc_election_timeout_min_ms = 150,
      clc_election_timeout_max_ms = 300,
      clc_join_timeout_secs = 30,
      clc_leave_timeout_secs = 30,
      clc_learner_catchup_delay_ms = 200,
      clc_join_max_retries = 3,
      clc_replication = ReplicationConfig_default,
      clc_internal_api = InternalApiConfig_default\<rparr>"

definition ClusterConfig_from :: "raw_ClusterConfig \<Rightarrow> ClusterConfig" where
  "ClusterConfig_from r =
     \<lparr>clc_node_id = or_default (raw_clc_node_id r) 1,
      clc_raft_bind_addr = or_default (raw_clc_raft_bind_addr r) DEFAULT_RAFT_BIND,
      clc_seed_nodes = or_default (raw_clc_seed_nodes r) [],
      clc_consistency_mode = or_default (raw_clc_consistency_mode r) Strong,
      clc_connect_timeout_secs = or_default (raw_clc_connect_timeout_secs r) 5,
      clc_rpc_timeout_secs = or_default (raw_clc_rpc_timeout_secs r) 30,
      clc_heartbeat_interval_ms = or_default (raw_clc_heartbeat_interval_ms r) 50,
      clc_election_timeout_min_ms = or_default (raw_clc_election_timeout_min_ms r) 150,
      clc_election_timeout_max_ms = or_default (raw_clc_election_timeout_max_ms r) 300,
      clc_join_timeout_secs = or_default (raw_clc_join_timeout_secs r) 30,
      clc_leave_timeout_secs = or_default (raw_clc_leave_timeout_secs r) 30,
      clc_learner_catchup_delay_ms = or_default (raw_clc_learner_catchup_delay_ms r) 200,
      clc_join_max_retries = or_default (raw_clc_join_max_retries r) 3,
      clc_replication = (case raw_clc_replication r of Some x \<Rightarrow> ReplicationConfig_from x | None \<Rightarrow> ReplicationConfig_default),
      clc_internal_api = (case raw_clc_internal_api r of Some x \<Rightarrow> InternalApiConfig_from x | None \<Rightarrow> InternalApiConfig_default)\<rparr>"

record SaveConfig =
  cfg_server :: ServerConfig
  cfg_storage :: StorageConfig
  cfg_metadata :: MetadataConfig
  cfg_credentials :: CredentialsConfig
  cfg_limits :: LimitsConfig
  cfg_shutdown :: ShutdownConfig
  cfg_cluster :: ClusterConfig

text \<open>The sections for the server, the storage and the credentials have to be there.\<close>

record raw_SaveConfig =
  raw_cfg_server :: raw_ServerConfig
  raw_cfg_storage :: raw_StorageConfig
  raw_cfg_metadata :: "raw_MetadataConfig option"
  raw_cfg_credentials :: CredentialsConfig
  raw_cfg_limits :: "raw_LimitsConfig option"
  raw_cfg_shutdown :: "raw_ShutdownConfig option"
  raw_cfg_cluster :: "raw_ClusterConfig option"

definition SaveConfig_from :: "raw_SaveConfig \<Rightarrow> SaveConfig" where
  "SaveConfig_from r =
     \<lparr>cfg_server = ServerConfig_from (raw_cfg_server r), cfg_storage = StorageConfig_from (raw_cfg_storage r),
      cfg_metadata = (case raw_cfg_metadata r of Some x \<Rightarrow> MetadataConfig_from x | None \<Rightarrow> MetadataConfig_default),
      cfg_credentials = raw_cfg_credentials r,
      cfg_limits = (case raw_cfg_limits r of Some x \<Rightarrow> LimitsConfig_from x | None \<Rightarrow> LimitsConfig_default),
      cfg_shutdown = (case raw_cfg_shutdown r of Some x \<Rightarrow> ShutdownConfig_from x | None \<Rightarrow> ShutdownConfig_default),
      cfg_cluster = (case raw_cfg_cluster r of Some x \<Rightarrow> ClusterConfig_from x | None \<Rightarrow> ClusterConfig_default)\<rparr>"

definition SaveConfig_default :: SaveConfig where
  "SaveConfig_default =
     \<lparr>cfg_server = \<lparr>srv_bind_address = DEFAULT_HTTP_BIND, srv_max_body_size = 100 * 1024 * 1024, srv_worker_threads = 4,
        srv_max_blocking_threads = 512, srv_bucket_cache_ttl_secs = 60, srv_metrics_interval_secs = 60\<rparr>,
      cfg_storage = \<lparr>stc_data_path = ''/tmp/save/data'', stc_metadata_path = ''/tmp/save/metadata'',
        stc_max_object_size = Some (5 * 1024 * 1024 * 1024), stc_gc_interval_secs = 10 * 60,
        stc_gc_temp_file_max_age_secs = 60 * 60, stc_fsync_mode = ''data''\<rparr>,
      cfg_metadata = MetadataConfig_default,
      cfg_credentials = \<lparr>access_key = ''test-access-key'', secret_key = ''test-secret-key''\<rparr>,
      cfg_limits = LimitsConfig_default, cfg_shutdown = ShutdownConfig_default, cfg_cluster = ClusterConfig_default\<rparr>"

section \<open>Checks\<close>

text \<open>The seed nodes are read in order; the first that cannot be read is the error.\<close>

fun check_peers :: "string list \<Rightarrow> Error + unit" where
  "check_peers [] = Inr ()"
| "check_peers (p # ps) = (case parse_peer p of Inl e \<Rightarrow> Inl e | Inr _ \<Rightarrow> check_peers ps)"

definition validate :: "SaveConfig \<Rightarrow> Error + unit" where
  "validate c =
     (if srv_bind_address (cfg_server c) = [] then Inl (Validation ''bind_address cannot be empty'')
      else if stc_data_path (cfg_storage c) = [] then Inl (Validation ''data_path cannot be empty'')
      else if stc_metadata_path (cfg_storage c) = [] then Inl (Validation ''metadata_path cannot be empty'')
      else if access_key (cfg_credentials c) = [] then Inl (Validation ''access_key cannot be empty'')
      else if secret_key (cfg_credentials c) = [] then Inl (Validation ''secret_key cannot be empty'')
      else if lim_max_concurrent_requests (cfg_limits c) = 0 then Inl (Validation ''max_concurrent_requests must be > 0'')
      else if lim_requests_per_second (cfg_limits c) = 0 then Inl (Validation ''requests_per_second must be > 0'')
      else if lim_request_timeout_secs (cfg_limits c) = 0 then Inl (Validation ''request_timeout_secs must be > 0'')
      else if shd_drain_timeout_secs (cfg_shutdown c) = 0 then Inl (Validation ''drain_timeout_secs must be > 0'')
      else if clc_node_id (cfg_cluster c) = 0 then Inl (Validation ''cluster.node_id must be > 0'')
      else if clc_raft_bind_addr (cfg_cluster c) = [] then Inl (Validation ''cluster.raft_bind_addr cannot be empty'')
      else
        (case check_peers (clc_seed_nodes (cfg_cluster c)) of
           Inl e \<Rightarrow> Inl e
         | Inr _ \<Rightarrow>
           if rpc_bind_addr (clc_replication (cfg_cluster c)) = [] then
             Inl (Validation ''cluster.replication.bind_addr cannot be empty'')
           else Inr ()))"

text \<open>Reading the file and taking it apart may fail.\<close>

definition load :: "(string \<Rightarrow> string + string) \<Rightarrow> (string \<Rightarrow> string + raw_SaveConfig) \<Rightarrow> string \<Rightarrow> Error + SaveConfig" where
  "load read_to_string from_str p =
     (case read_to_string p of
        Inl e \<Rightarrow> Inl (Config (''Failed to read config file '' @ p @ '': '' @ e))
      | Inr contents \<Rightarrow>
        (case from_str contents of
           Inl e \<Rightarrow> Inl (Toml e)
         | Inr raw \<Rightarrow>
           (case validate (SaveConfig_from raw) of
              Inl e \<Rightarrow> Inl e
            | Inr _ \<Rightarrow> Inr (SaveConfig_from raw))))"

section \<open>Lemmas\<close>

lemma check_peers_iff: "check_peers ps = Inr () \<longleftrightarrow> (\<forall>p \<in> set ps. \<not> isl (parse_peer p))"
  by (induction ps) (auto split: sum.splits simp: isl_def)

text \<open>What a valid configuration is.\<close>

definition valid_config :: "SaveConfig \<Rightarrow> bool" where
  "valid_config c \<longleftrightarrow>
     srv_bind_address (cfg_server c) \<noteq> [] \<and> stc_data_path (cfg_storage c) \<noteq> [] \<and> stc_metadata_path (cfg_storage c) \<noteq> []
     \<and> access_key (cfg_credentials c) \<noteq> [] \<and> secret_key (cfg_credentials c) \<noteq> []
     \<and> 0 < lim_max_concurrent_requests (cfg_limits c) \<and> 0 < lim_requests_per_second (cfg_limits c)
     \<and> 0 < lim_request_timeout_secs (cfg_limits c) \<and> 0 < shd_drain_timeout_secs (cfg_shutdown c)
     \<and> 0 < clc_node_id (cfg_cluster c) \<and> clc_raft_bind_addr (cfg_cluster c) \<noteq> []
     \<and> (\<forall>p \<in> set (clc_seed_nodes (cfg_cluster c)). \<not> isl (parse_peer p))
     \<and> rpc_bind_addr (clc_replication (cfg_cluster c)) \<noteq> []"

lemma validate_iff: "validate c = Inr () \<longleftrightarrow> valid_config c"
  by (auto simp: validate_def valid_config_def check_peers_iff [symmetric] word_gt_0 split: sum.splits)

lemma default_valid: "validate SaveConfig_default = Inr ()"
  by (simp add: validate_iff valid_config_def SaveConfig_default_def LimitsConfig_default_def ShutdownConfig_default_def
      ClusterConfig_default_def ReplicationConfig_default_def DEFAULT_HTTP_BIND_def DEFAULT_RAFT_BIND_def DEFAULT_REPLICATION_BIND_def)

lemma parse_peers_ok: "\<forall>p \<in> set ps. \<not> isl (parse_peer p) \<Longrightarrow> \<exists>is. parse_peers ps = Inr is \<and> length is = length ps"
  by (induction ps) (auto simp: isl_def split: sum.splits)

section \<open>Properties\<close>

text \<open>
  C38: A configuration is loaded exactly if its file can be read and taken apart and, with the missing
  fields filled in, it is valid: addresses (those of the server, of Raft and of the replication
  service), paths and credentials are not empty, the limits, the timeout for draining and the node
  identifier are not zero, and every seed node has the five fields that the list of peers is read
  from. These are the conditions that \<open>validate\<close> checks; the comments in the source are more generous
  in two places, where they let an empty address of the replication service switch it off and show
  seed nodes with four fields, both of which are refused. A file with only the sections that have to
  be there is loaded if these are filled in.
\<close>

theorem load_iff:
  "(load rd fs p = Inr c \<longleftrightarrow> (\<exists>s raw. rd p = Inr s \<and> fs s = Inr raw \<and> c = SaveConfig_from raw \<and> valid_config c))
   \<and> (load rd fs p = Inr c \<longrightarrow> (\<exists>is. parse_peers (clc_seed_nodes (cfg_cluster c)) = Inr is))
   \<and> (rd p = Inr s \<and> fs s = Inr raw \<and> raw_cfg_limits raw = None \<and> raw_cfg_shutdown raw = None \<and> raw_cfg_cluster raw = None
      \<and> raw_srv_bind_address (raw_cfg_server raw) \<noteq> [] \<and> raw_stc_data_path (raw_cfg_storage raw) \<noteq> []
      \<and> raw_stc_metadata_path (raw_cfg_storage raw) \<noteq> [] \<and> access_key (raw_cfg_credentials raw) \<noteq> []
      \<and> secret_key (raw_cfg_credentials raw) \<noteq> [] \<longrightarrow> load rd fs p = Inr (SaveConfig_from raw))"
proof -
  have l: "load rd fs p = Inr c \<longleftrightarrow> (\<exists>s raw. rd p = Inr s \<and> fs s = Inr raw \<and> c = SaveConfig_from raw \<and> valid_config c)" for c
    by (auto simp: load_def validate_iff [symmetric] split: sum.splits)
  moreover have "\<exists>is. parse_peers (clc_seed_nodes (cfg_cluster c)) = Inr is" if "valid_config c"
    using parse_peers_ok [of "clc_seed_nodes (cfg_cluster c)"] that by (auto simp: valid_config_def)
  moreover have "valid_config (SaveConfig_from raw)"
    if "raw_cfg_limits raw = None" "raw_cfg_shutdown raw = None" "raw_cfg_cluster raw = None"
      "raw_srv_bind_address (raw_cfg_server raw) \<noteq> []" "raw_stc_data_path (raw_cfg_storage raw) \<noteq> []"
      "raw_stc_metadata_path (raw_cfg_storage raw) \<noteq> []" "access_key (raw_cfg_credentials raw) \<noteq> []"
      "secret_key (raw_cfg_credentials raw) \<noteq> []"
    using that
    by (simp add: valid_config_def SaveConfig_from_def ServerConfig_from_def StorageConfig_from_def LimitsConfig_default_def
        ShutdownConfig_default_def ClusterConfig_default_def ReplicationConfig_default_def DEFAULT_RAFT_BIND_def
        DEFAULT_REPLICATION_BIND_def)
  ultimately show ?thesis by blast
qed

definition example_raw :: raw_SaveConfig where
  "example_raw =
     \<lparr>raw_cfg_server = \<lparr>raw_srv_bind_address = ''0.0.0.0:9000'', raw_srv_max_body_size = Some 52428800, raw_srv_worker_threads = None,
        raw_srv_max_blocking_threads = None, raw_srv_bucket_cache_ttl_secs = None, raw_srv_metrics_interval_secs = None\<rparr>,
      raw_cfg_storage = \<lparr>raw_stc_data_path = ''/var/lib/save/data'', raw_stc_metadata_path = ''/var/lib/save/metadata'',
        raw_stc_max_object_size = Some 5368709120, raw_stc_gc_interval_secs = None, raw_stc_gc_temp_file_max_age_secs = None,
        raw_stc_fsync_mode = None\<rparr>,
      raw_cfg_metadata = None, raw_cfg_credentials = \<lparr>access_key = ''admin'', secret_key = ''secret123''\<rparr>,
      raw_cfg_limits = None, raw_cfg_shutdown = None, raw_cfg_cluster = None\<rparr>"

theorem load_iff_witness:
  "load (\<lambda>_. Inr ''text'') (\<lambda>_. Inr example_raw) ''save.toml'' = Inr (SaveConfig_from example_raw)
   \<and> srv_max_body_size (cfg_server (SaveConfig_from example_raw)) = 52428800
   \<and> clc_node_id (cfg_cluster (SaveConfig_from example_raw)) = 1"
proof -
  have "load (\<lambda>_. Inr ''text'') (\<lambda>_. Inr example_raw) ''save.toml'' = Inr (SaveConfig_from example_raw)"
    using load_iff [of "\<lambda>_. Inr ''text''" "\<lambda>_. Inr example_raw" "''save.toml''" _ "''text''" example_raw]
    by (simp add: example_raw_def)
  moreover have "srv_max_body_size (cfg_server (SaveConfig_from example_raw)) = 52428800"
    "clc_node_id (cfg_cluster (SaveConfig_from example_raw)) = 1"
    by (simp_all add: example_raw_def SaveConfig_from_def ServerConfig_from_def or_default_def ClusterConfig_default_def)
  ultimately show ?thesis by simp
qed

text \<open>
  A file that sets only the replication factor in the section for replication is refused: the
  address is then empty, while it has a default if the section is missing.
\<close>

theorem replication_section_needs_address:
  assumes "raw_cfg_cluster raw = Some r" and "raw_clc_replication r = Some rr" and "raw_rpc_bind_addr rr = None"
  shows "validate (SaveConfig_from raw) \<noteq> Inr ()"
  using assms
  by (simp add: validate_iff valid_config_def SaveConfig_from_def ClusterConfig_from_def ReplicationConfig_from_def or_default_def)

end
