(* ===== verification/Api_State.thy ===== *)
theory Api_State
  imports Storage_Backend Raft_Apply Api_Responses Api_Spec Common_Config
begin

text \<open>
  What the request handlers of \<open>crates/save-api\<close> share: the errors and the S3 error documents they
  become (\<open>handlers/error.rs\<close>, \<open>save-common/src/s3_error.rs\<close>), the state of a node
  (\<open>state.rs\<close>) with its bucket cache, and the steps common to the handlers (\<open>handlers/mod.rs\<close>,
  the lock guards of \<open>save-metadata/src/lock.rs\<close>).

  A handler maps the state of the node to a response or an error and the new state; \<open>bindE\<close> is the
  operator \<open>?\<close>, which returns early with the error and the state reached so far. Openraft, the XML
  serialiser and the date formatting are outside code and are fields of the parameter \<open>services\<close>;
  the locale \<open>api_node\<close> says what is used of them.
\<close>

section \<open>Early return\<close>

definition bindE ::
  "('s \<Rightarrow> ('e + 'a) \<times> 's) \<Rightarrow> ('a \<Rightarrow> 's \<Rightarrow> ('e + 'b) \<times> 's) \<Rightarrow> 's \<Rightarrow> ('e + 'b) \<times> 's" where
  "bindE m f s = (case m s of (Inl e, s') \<Rightarrow> (Inl e, s') | (Inr x, s') \<Rightarrow> f x s')"

definition failE :: "'e \<Rightarrow> 's \<Rightarrow> ('e + 'a) \<times> 's" where
  "failE e s = (Inl e, s)"

definition returnE :: "'a \<Rightarrow> 's \<Rightarrow> ('e + 'a) \<times> 's" where
  "returnE x s = (Inr x, s)"

text \<open>A pure check, with its error translated.\<close>

definition checkE :: "('e \<Rightarrow> 'f) \<Rightarrow> 'e + 'a \<Rightarrow> 's \<Rightarrow> ('f + 'a) \<times> 's" where
  "checkE g x s = (case x of Inl e \<Rightarrow> (Inl (g e), s) | Inr y \<Rightarrow> (Inr y, s))"

section \<open>Errors\<close>

datatype S3ErrorCode =
    AccessDenied | S3BucketAlreadyExists | S3BucketNotEmpty | InternalError | S3InvalidRequest
  | NoSuchBucket | NoSuchKey | S3RequestTimeTooSkewed | ServiceUnavailable | S3SignatureDoesNotMatch

fun S3ErrorCode_to_string :: "S3ErrorCode \<Rightarrow> string" where
  "S3ErrorCode_to_string AccessDenied = ''AccessDenied''"
| "S3ErrorCode_to_string S3BucketAlreadyExists = ''BucketAlreadyExists''"
| "S3ErrorCode_to_string S3BucketNotEmpty = ''BucketNotEmpty''"
| "S3ErrorCode_to_string InternalError = ''InternalError''"
| "S3ErrorCode_to_string S3InvalidRequest = ''InvalidRequest''"
| "S3ErrorCode_to_string NoSuchBucket = ''NoSuchBucket''"
| "S3ErrorCode_to_string NoSuchKey = ''NoSuchKey''"
| "S3ErrorCode_to_string S3RequestTimeTooSkewed = ''RequestTimeTooSkewed''"
| "S3ErrorCode_to_string ServiceUnavailable = ''ServiceUnavailable''"
| "S3ErrorCode_to_string S3SignatureDoesNotMatch = ''SignatureDoesNotMatch''"

record S3Error =
  s3_code :: S3ErrorCode
  s3_message :: string
  s3_resource :: string
  s3_request_id :: string

text \<open>The request identifier is random and an argument here.\<close>

definition S3Error_new :: "string \<Rightarrow> S3ErrorCode \<Rightarrow> string \<Rightarrow> string \<Rightarrow> S3Error" where
  "S3Error_new request_id code message resource =
     \<lparr>s3_code = code, s3_message = message, s3_resource = resource, s3_request_id = request_id\<rparr>"

definition access_denied where
  "access_denied i resource = S3Error_new i AccessDenied ''Access Denied'' resource"

definition bucket_already_exists where
  "bucket_already_exists i bucket =
     S3Error_new i S3BucketAlreadyExists
       (''The requested bucket name '' @ quoted bucket @ '' already exists'') (''/'' @ bucket)"

definition bucket_not_empty where
  "bucket_not_empty i bucket =
     S3Error_new i S3BucketNotEmpty ''The bucket you tried to delete is not empty'' (''/'' @ bucket)"

definition internal_error where
  "internal_error i message = S3Error_new i InternalError message ''/''"

definition invalid_request where
  "invalid_request i message = S3Error_new i S3InvalidRequest message ''/''"

definition no_such_bucket where
  "no_such_bucket i bucket =
     S3Error_new i NoSuchBucket ''The specified bucket does not exist'' (''/'' @ bucket)"

definition no_such_key where
  "no_such_key i bucket key =
     S3Error_new i NoSuchKey ''The specified key does not exist'' (''/'' @ bucket @ ''/'' @ key)"

definition request_time_too_skewed where
  "request_time_too_skewed i =
     S3Error_new i S3RequestTimeTooSkewed
       (''The difference between the request time and the server'' @ [CHR 0x27] @ ''s time is too large'') ''/''"

definition service_unavailable where
  "service_unavailable i message = S3Error_new i ServiceUnavailable message ''/''"

definition with_request_id :: "S3Error \<Rightarrow> string \<Rightarrow> S3Error" where
  "with_request_id e i = e\<lparr>s3_request_id := i\<rparr>"

definition signature_does_not_match where
  "signature_does_not_match i =
     S3Error_new i S3SignatureDoesNotMatch
       ''The request signature we calculated does not match the signature you provided'' ''/''"

datatype ApiError =
    ApiBucketNotFound string
  | ApiBucketAlreadyExists string
  | ApiBucketNotEmpty string
  | ApiObjectNotFound string string
  | InvalidRequest string
  | Unauthorized
  | RequestTimeTooSkewed
  | SignatureDoesNotMatch
  | InvalidSignatureException string
  | Internal string

fun to_s3_error :: "string \<Rightarrow> ApiError \<Rightarrow> S3Error" where
  "to_s3_error i (ApiBucketNotFound bucket) = no_such_bucket i bucket"
| "to_s3_error i (ApiBucketAlreadyExists bucket) = bucket_already_exists i bucket"
| "to_s3_error i (ApiBucketNotEmpty bucket) = bucket_not_empty i bucket"
| "to_s3_error i (ApiObjectNotFound bucket key) = no_such_key i bucket key"
| "to_s3_error i (InvalidRequest msg) = invalid_request i msg"
| "to_s3_error i Unauthorized = access_denied i ''/''"
| "to_s3_error i RequestTimeTooSkewed = request_time_too_skewed i"
| "to_s3_error i SignatureDoesNotMatch = signature_does_not_match i"
| "to_s3_error i (InvalidSignatureException msg) = invalid_request i msg"
| "to_s3_error i (Internal _) =
     internal_error i ''We encountered an internal error. Please try again.''"

fun status_code :: "ApiError \<Rightarrow> nat" where
  "status_code (ApiBucketNotFound _) = 404"
| "status_code (ApiBucketAlreadyExists _) = 409"
| "status_code (ApiBucketNotEmpty _) = 409"
| "status_code (ApiObjectNotFound _ _) = 404"
| "status_code (InvalidRequest _) = 400"
| "status_code Unauthorized = 403"
| "status_code RequestTimeTooSkewed = 403"
| "status_code SignatureDoesNotMatch = 403"
| "status_code (InvalidSignatureException _) = 403"
| "status_code (Internal _) = 500"

fun error_type :: "ApiError \<Rightarrow> string" where
  "error_type (ApiBucketNotFound _) = ''metadata''"
| "error_type (ApiBucketAlreadyExists _) = ''metadata''"
| "error_type (ApiBucketNotEmpty _) = ''metadata''"
| "error_type (ApiObjectNotFound _ _) = ''metadata''"
| "error_type Unauthorized = ''auth''"
| "error_type RequestTimeTooSkewed = ''auth''"
| "error_type SignatureDoesNotMatch = ''auth''"
| "error_type (InvalidSignatureException _) = ''auth''"
| "error_type (InvalidRequest _) = ''validation''"
| "error_type (Internal _) = ''internal''"

text \<open>A response: status, headers, and a body that is empty, a stream of bytes or a document.\<close>

datatype body = NoBody | Bytes data | Xml string

record Response =
  rs_status :: nat
  rs_headers :: "(string \<times> string) list"
  rs_body :: body

text \<open>\<open>se_xml\<close> is the XML serialiser, which may fail.\<close>

definition S3Error_to_xml :: "(S3Error \<Rightarrow> string option) \<Rightarrow> S3Error \<Rightarrow> string" where
  "S3Error_to_xml se_xml e =
     ''<?xml version='' @ debug_str ''1.0'' @ '' encoding='' @ debug_str ''UTF-8'' @ ''?>'' @ [CHR 0x0A]
     @ (case se_xml e of
          Some x \<Rightarrow> x
        | None \<Rightarrow> ''<Error><Code>InternalError</Code><Message>Failed to serialize error</Message></Error>'')"

definition ApiError_into_response :: "(S3Error \<Rightarrow> string option) \<Rightarrow> string \<Rightarrow> ApiError \<Rightarrow> Response" where
  "ApiError_into_response se_xml i e =
     (let s3 = to_s3_error i e in
      \<lparr>rs_status = status_code e,
       rs_headers = [(''content-type'', ''application/xml''), (''x-amz-request-id'', s3_request_id s3)],
       rs_body = Xml (S3Error_to_xml se_xml s3)\<rparr>)"

section \<open>The bucket cache\<close>

record BucketCache =
  cache :: "(string \<times> instant) list"
  ttl :: int

definition BucketCache_new :: "int \<Rightarrow> BucketCache" where
  "BucketCache_new t = \<lparr>cache = [], ttl = t\<rparr>"

definition cache_contains :: "instant \<Rightarrow> BucketCache \<Rightarrow> string \<Rightarrow> bool" where
  "cache_contains now c bucket =
     (case map_of (cache c) bucket of
        Some inserted_at \<Rightarrow> now - inserted_at < ttl c
      | None \<Rightarrow> False)"

definition cache_insert :: "instant \<Rightarrow> BucketCache \<Rightarrow> string \<Rightarrow> BucketCache" where
  "cache_insert now c bucket = c\<lparr>cache := AList.update bucket now (cache c)\<rparr>"

definition cache_remove :: "BucketCache \<Rightarrow> string \<Rightarrow> BucketCache" where
  "cache_remove c bucket = c\<lparr>cache := AList.delete bucket (cache c)\<rparr>"

definition cleanup_expired :: "instant \<Rightarrow> BucketCache \<Rightarrow> BucketCache" where
  "cleanup_expired now c = c\<lparr>cache := filter (\<lambda>(_, inserted_at). now - inserted_at < ttl c) (cache c)\<rparr>"

section \<open>The state of a node\<close>

text \<open>The settings the handlers read.\<close>

record ApiConfig =
  data_path :: path
  bind_address :: string
  consistency_mode :: ConsistencyMode

record 'd raft_handle =
  client_write :: "'d \<Rightarrow> Command \<Rightarrow> ClientWriteResult \<times> 'd"
  await_leader :: "'d \<Rightarrow> bool \<times> 'd"
  leader_http_addr :: "'d \<Rightarrow> u64 \<Rightarrow> string option"
  raft_node_id :: u64
  linearizable :: "'d \<Rightarrow> (string + unit) \<times> 'd"

record ('r, 'd) AppState =
  as_storage :: 'r
  as_fs :: fs
  as_metadata :: 'd
  as_lock_counter :: u64
  as_bucket_cache :: BucketCache

text \<open>
  What a handler gets from its surroundings: readings of the clock at the check of the cache, at
  an insertion into it and at the creation of metadata, the milliseconds the request took, the
  number of lock attempts that fit into the timeout, and a fresh upload identifier.
\<close>

record surroundings_of_request =
  rq_now_cache :: instant
  rq_now_insert :: instant
  rq_now_meta :: instant
  rq_elapsed_ms :: nat
  rq_attempts :: nat
  rq_upload_id :: string

text \<open>
  The parameter for everything a handler calls: the metadata environment, Raft, the storage
  backend, SHA-256, the XML serialiser and the formatting of dates.
\<close>

record ('d, 'v, 'r, 'h) services =
  sv_env :: "('d, 'v) env"
  sv_raft :: "'d raft_handle"
  sv_backend :: "('r, 'h) storage_backend"
  sv_sha256 :: "data \<Rightarrow> string"
  sv_config :: ApiConfig
  sv_to_xml :: "s3_document \<Rightarrow> string + string"
  sv_http_date :: "instant \<Rightarrow> string"

definition AppState_with_storage :: "'r \<Rightarrow> fs \<Rightarrow> 'd \<Rightarrow> int \<Rightarrow> ('r, 'd) AppState" where
  "AppState_with_storage storage s metadata bucket_cache_ttl_secs =
     \<lparr>as_storage = storage, as_fs = s, as_metadata = metadata, as_lock_counter = 0,
      as_bucket_cache = BucketCache_new (bucket_cache_ttl_secs * 1000000000)\<rparr>"

section \<open>Steps of the handlers\<close>

text \<open>Reading and writing the metadata store, Raft, and the storage backend, with the error translated.\<close>

definition read_metadata ::
  "(MetadataError \<Rightarrow> ApiError) \<Rightarrow> ('d \<Rightarrow> MetadataError + 'a) \<Rightarrow> ('r, 'd) AppState \<Rightarrow> (ApiError + 'a) \<times> ('r, 'd) AppState" where
  "read_metadata g op st = checkE g (op (as_metadata st)) st"

definition write_metadata ::
  "(MetadataError \<Rightarrow> ApiError) \<Rightarrow> ('d \<Rightarrow> (MetadataError + 'a) \<times> 'd) \<Rightarrow> ('r, 'd) AppState
    \<Rightarrow> (ApiError + 'a) \<times> ('r, 'd) AppState" where
  "write_metadata g op st =
     (case op (as_metadata st) of (x, d) \<Rightarrow> checkE g x (st\<lparr>as_metadata := d\<rparr>))"

definition raft_submit ::
  "('d, 'v, 'r, 'h) services \<Rightarrow> (MetadataError \<Rightarrow> ApiError) \<Rightarrow> Command \<Rightarrow> ('r, 'd) AppState
    \<Rightarrow> (ApiError + unit) \<times> ('r, 'd) AppState" where
  "raft_submit sv g cmd =
     write_metadata g
       (raft_write (client_write (sv_raft sv)) (await_leader (sv_raft sv)) (leader_http_addr (sv_raft sv))
          (raft_node_id (sv_raft sv)) cmd)"

definition use_storage ::
  "(StorageError \<Rightarrow> ApiError) \<Rightarrow> ('r \<Rightarrow> fs \<Rightarrow> (StorageError + 'a) \<times> 'r \<times> fs) \<Rightarrow> ('r, 'd) AppState
    \<Rightarrow> (ApiError + 'a) \<times> ('r, 'd) AppState" where
  "use_storage g op st =
     (case op (as_storage st) (as_fs st) of
        (x, r, s) \<Rightarrow> checkE g x (st\<lparr>as_storage := r, as_fs := s\<rparr>))"

definition use_fs ::
  "(IoError \<Rightarrow> ApiError) \<Rightarrow> (fs \<Rightarrow> (IoError + 'a) \<times> fs) \<Rightarrow> ('r, 'd) AppState
    \<Rightarrow> (ApiError + 'a) \<times> ('r, 'd) AppState" where
  "use_fs g op st = (case op (as_fs st) of (x, s) \<Rightarrow> checkE g x (st\<lparr>as_fs := s\<rparr>))"

definition invalid_name :: "Error \<Rightarrow> ApiError" where
  "invalid_name e = InvalidRequest (Error_to_string e)"

definition internal_meta :: "string \<Rightarrow> MetadataError \<Rightarrow> ApiError" where
  "internal_meta msg e = Internal (msg @ MetadataError_to_string e)"

definition internal_storage :: "string \<Rightarrow> StorageError \<Rightarrow> ApiError" where
  "internal_storage msg e = Internal (msg @ StorageError_to_string e)"

definition internal_io :: "string \<Rightarrow> IoError \<Rightarrow> ApiError" where
  "internal_io msg e = Internal (msg @ io_msg e)"

text \<open>A linearisable read is asked for in strong mode only.\<close>

definition ensure_read_consistency ::
  "('d, 'v, 'r, 'h) services \<Rightarrow> ('r, 'd) AppState \<Rightarrow> (ApiError + unit) \<times> ('r, 'd) AppState" where
  "ensure_read_consistency sv st =
     (if consistency_mode (sv_config sv) = Strong then
        write_metadata (internal_meta ''Consistency check failed: '')
          (\<lambda>d. case linearizable (sv_raft sv) d of
                 (Inl e, d') \<Rightarrow> (Inl (Raft e), d')
               | (Inr u, d') \<Rightarrow> (Inr u, d')) st
      else returnE () st)"

definition bucket_error :: "string \<Rightarrow> string \<Rightarrow> MetadataError \<Rightarrow> ApiError" where
  "bucket_error msg bucket e =
     (case e of BucketNotFound _ \<Rightarrow> ApiBucketNotFound bucket | _ \<Rightarrow> internal_meta msg e)"

definition validate_bucket_exists ::
  "('d, 'v, 'r, 'h) services \<Rightarrow> surroundings_of_request \<Rightarrow> string \<Rightarrow> ('r, 'd) AppState
    \<Rightarrow> (ApiError + unit) \<times> ('r, 'd) AppState" where
  "validate_bucket_exists sv rq bucket st =
     (if \<not> cache_contains (rq_now_cache rq) (as_bucket_cache st) bucket then
        bindE (read_metadata (bucket_error ''Metadata error: '' bucket) (\<lambda>d. get_bucket (sv_env sv) d bucket))
          (\<lambda>_ st. returnE () (st\<lparr>as_bucket_cache := cache_insert (rq_now_insert rq) (as_bucket_cache st) bucket\<rparr>)) st
      else returnE () st)"

subsection \<open>Lock guards\<close>

fun LockError_to_string :: "LockError \<Rightarrow> string" where
  "LockError_to_string Timeout = ''Failed to acquire lock within timeout''"
| "LockError_to_string (AcquisitionFailed e) = ''Lock acquisition failed: '' @ MetadataError_to_string e"

definition acquire_guard ::
  "('d, 'v, 'r, 'h) services \<Rightarrow> surroundings_of_request \<Rightarrow> LockType \<Rightarrow> string \<Rightarrow> string \<Rightarrow> ('r, 'd) AppState
    \<Rightarrow> (ApiError + LockHolder) \<times> ('r, 'd) AppState" where
  "acquire_guard sv rq lock_type bucket key st =
     (case next_holder (raft_node_id (sv_raft sv)) (as_lock_counter st) of
        (holder, counter) \<Rightarrow>
        (case acquire_lock_internal (sv_env sv)
                (replicate (rq_attempts rq)
                   (raft_acquire_lock (client_write (sv_raft sv)) (await_leader (sv_raft sv))
                      (leader_http_addr (sv_raft sv)) (raft_node_id (sv_raft sv)) bucket key lock_type holder))
                (as_metadata st) bucket key lock_type holder of
           (x, d) \<Rightarrow>
             checkE (\<lambda>e. Internal (''Failed to acquire object lock: '' @ LockError_to_string e)) x
               (st\<lparr>as_metadata := d, as_lock_counter := counter\<rparr>)))"

text \<open>Dropping the guard submits the release; its failure is only logged.\<close>

definition drop_guard ::
  "('d, 'v, 'r, 'h) services \<Rightarrow> string \<Rightarrow> string \<Rightarrow> LockHolder \<Rightarrow> ('r, 'd) AppState \<Rightarrow> ('r, 'd) AppState" where
  "drop_guard sv bucket key holder st =
     st\<lparr>as_metadata := snd (raft_release_lock (client_write (sv_raft sv)) (await_leader (sv_raft sv))
         (leader_http_addr (sv_raft sv)) (raft_node_id (sv_raft sv)) bucket key holder (as_metadata st))\<rparr>"

text \<open>The rest of a handler runs with the guard, which is dropped however it returns.\<close>

definition with_guard ::
  "('d, 'v, 'r, 'h) services \<Rightarrow> surroundings_of_request \<Rightarrow> LockType \<Rightarrow> string \<Rightarrow> string
    \<Rightarrow> (('r, 'd) AppState \<Rightarrow> (ApiError + 'a) \<times> ('r, 'd) AppState)
    \<Rightarrow> ('r, 'd) AppState \<Rightarrow> (ApiError + 'a) \<times> ('r, 'd) AppState" where
  "with_guard sv rq lock_type bucket key rest =
     bindE (acquire_guard sv rq lock_type bucket key)
       (\<lambda>holder st. case rest st of (x, st') \<Rightarrow> (x, drop_guard sv bucket key holder st'))"

definition respond_xml ::
  "('d, 'v, 'r, 'h) services \<Rightarrow> s3_document \<Rightarrow> ('r, 'd) AppState \<Rightarrow> (ApiError + Response) \<times> ('r, 'd) AppState" where
  "respond_xml sv doc =
     bindE (checkE (\<lambda>e. Internal (''Failed to serialize response: '' @ e)) (sv_to_xml sv doc))
       (\<lambda>xml. returnE \<lparr>rs_status = 200, rs_headers = [(''content-type'', ''application/xml'')], rs_body = Xml xml\<rparr>)"

section \<open>Lemmas on early return\<close>

lemma bindE_cases:
  assumes "bindE m f s = (x, s')"
  obtains e where "m s = (Inl e, s')" "x = Inl e" | y s1 where "m s = (Inr y, s1)" "f y s1 = (x, s')"
  using assms by (auto simp: bindE_def split: prod.splits sum.splits)

lemma bindE_Inr_iff: "bindE m f s = (Inr y, s') \<longleftrightarrow> (\<exists>x s1. m s = (Inr x, s1) \<and> f x s1 = (Inr y, s'))"
  by (auto simp: bindE_def split: prod.splits sum.splits)

lemma bindE_Inr [simp]: "m s = (Inr x, s1) \<Longrightarrow> bindE m f s = f x s1"
  by (simp add: bindE_def)

lemma checkE_simps [simp]: "checkE g (Inr y) s = (Inr y, s)" "checkE g (Inl e) s = (Inl (g e), s)"
  "returnE x s = (Inr x, s)"
  by (simp_all add: checkE_def returnE_def)

lemma checkE_snd [simp]: "snd (checkE g x s) = s"
  by (simp add: checkE_def split: sum.splits)

lemma checkE_eq: "checkE g x s = (y, s') \<longleftrightarrow> s' = s \<and> y = map_sum g id x"
  by (cases x) auto

text \<open>A handler keeps an invariant if all its steps do.\<close>

definition keepsE :: "('s \<Rightarrow> bool) \<Rightarrow> ('s \<Rightarrow> 'a \<times> 's) \<Rightarrow> bool" where
  "keepsE I m \<longleftrightarrow> (\<forall>s x s'. I s \<longrightarrow> m s = (x, s') \<longrightarrow> I s')"

lemma keepsE_bind: "keepsE I m \<Longrightarrow> (\<And>x. keepsE I (f x)) \<Longrightarrow> keepsE I (bindE m f)"
  unfolding keepsE_def by (metis bindE_cases)

lemma keepsE_check [simp, intro]: "keepsE I (checkE g x)" "keepsE I (returnE y)" "keepsE I (read_metadata h op)"
  by (auto simp: keepsE_def checkE_eq returnE_def read_metadata_def)

section \<open>What the handlers rely on\<close>

text \<open>
  Openraft's contract for a node whose requests are handled one at a time: a write that is reported
  as done has been applied to the node's own store; one that fails may have been applied or not.
  Waiting for a leader and asking for a linearisable read change no data.
\<close>

locale raft_client = metadata_env E contents
  for E :: "('d, 'v) env" and contents :: "'d \<Rightarrow> string \<Rightarrow> string \<rightharpoonup> 'v" +
  fixes R :: "'d raft_handle"
  assumes written: "client_write R d cmd = (Written, d') \<Longrightarrow>
      \<exists>now d''. apply_command E now d cmd = (Inr (), d'') \<and> contents d' = contents d''"
    and not_written: "client_write R d cmd = (w, d') \<Longrightarrow> contents d' = contents d
      \<or> (\<exists>now d''. apply_command E now d cmd = (Inr (), d'') \<and> contents d' = contents d'')"
    and await_same: "await_leader R d = (l, d') \<Longrightarrow> contents d' = contents d"
    and linear_same: "linearizable R d = (z, d') \<Longrightarrow> contents d' = contents d"

locale api_node = raft_client "sv_env sv" contents "sv_raft sv" + be: staged_backend "sv_backend sv" view staged root keys
  for sv :: "('d, 'v, 'r, 'h) services"
    and contents :: "'d \<Rightarrow> string \<Rightarrow> string \<rightharpoonup> 'v"
    and view :: "'r \<Rightarrow> fs \<Rightarrow> string \<rightharpoonup> data"
    and staged :: "'r \<Rightarrow> fs \<Rightarrow> 'h \<Rightarrow> string \<Rightarrow> data \<Rightarrow> bool"
    and root :: "'r \<Rightarrow> path"
    and keys :: "string set"

text \<open>A node with the local backend and one with the replicated backend are such nodes.\<close>

lemma local_api_node:
  "raft_client (sv_env sv) contents (sv_raft sv) \<Longrightarrow> object_ids sha keys \<Longrightarrow> sv_backend sv = local_backend sha \<Longrightarrow>
     api_node sv contents (object_view_fs sha) (local_staged sha) local_root keys"
  by (simp add: api_node_def object_ids.local_be_axioms)

lemma replicated_api_node:
  "raft_client (sv_env sv) contents (sv_raft sv) \<Longrightarrow> object_ids sha keys \<Longrightarrow> sv_backend sv = replicated_backend sha \<Longrightarrow>
     api_node sv contents (replicated_view sha) (replicated_staged sha) (\<lambda>rb. local_root (rb_local rb)) keys"
  by (simp add: api_node_def object_ids.repl_be_axioms)

text \<open>A cluster of one node, which applies every command at once.\<close>

definition single_node :: "('d, 'v) env \<Rightarrow> u64 \<Rightarrow> 'd raft_handle" where
  "single_node E i =
     \<lparr>client_write = (\<lambda>d cmd. case apply_command E 0 d cmd of
          (Inr _, d') \<Rightarrow> (Written, d') | (Inl e, d') \<Rightarrow> (WriteFailed ''storage error'', d)),
      await_leader = (\<lambda>d. (True, d)), leader_http_addr = (\<lambda>d n. None), raft_node_id = i,
      linearizable = (\<lambda>d. (Inr (), d))\<rparr>"

lemma single_node_client: "metadata_env E contents \<Longrightarrow> raft_client E contents (single_node E i)"
  unfolding raft_client_def raft_client_axioms_def
  by (fastforce simp: single_node_def split: prod.splits sum.splits)

interpretation mem_single: raft_client mem_env mem_contents "single_node mem_env i" for i
  by (rule single_node_client [OF mem_is_env(1)])

lemma write_loop_rule:
  assumes step: "\<And>s r s'. J s \<Longrightarrow> cw s cmd = (r, s') \<Longrightarrow> J s' \<and> (r = Written \<longrightarrow> Q s')"
    and aw: "\<And>s r s'. J s \<Longrightarrow> al s = (r, s') \<Longrightarrow> J s'"
    and "J s" and "write_loop cw al ha node_id cmd retries attempt le s = (x, s')"
  shows "J s' \<and> (x = Inr () \<longrightarrow> Q s')"
  using assms(3,4)
proof (induction "Suc retries - attempt" arbitrary: attempt le s)
  case 0
  then show ?case by (subst (asm) write_loop.simps) auto
next
  case (Suc n)
  then have le: "attempt \<le> retries" and n: "n = Suc retries - (attempt + 1)" by auto
  obtain r s1 where r: "cw s cmd = (r, s1)" by fastforce
  from step [OF Suc(3) r] have s1: "J s1" "r = Written \<longrightarrow> Q s1" by auto
  obtain w s2 where w: "al s1 = (w, s2)" by fastforce
  show ?case
  proof (cases "\<exists>l. r = ForwardToLeader l \<and> (l = Some node_id \<or> l = None)")
    case True
    with Suc(4) le r w obtain le' where
      "write_loop cw al ha node_id cmd retries (attempt + 1) le' s2 = (x, s')"
      by (subst (asm) write_loop.simps) (cases w; auto)
    with Suc(1) [OF n] aw [OF s1(1) w] show ?thesis by blast
  next
    case False
    with Suc(4) le r have "s' = s1" "x = Inr () \<longrightarrow> r = Written"
      by (subst (asm) write_loop.simps, cases r, auto split: if_splits)+
    with s1 show ?thesis by blast
  qed
qed

text \<open>The objects of a node as its store has them, and the contents it stores under the keys in use.\<close>

definition objects_of ::
  "('d, 'v, 'r, 'h) services \<Rightarrow> ('d \<Rightarrow> string \<Rightarrow> string \<rightharpoonup> 'v) \<Rightarrow> ('r, 'd) AppState \<Rightarrow> string \<times> string \<rightharpoonup> ObjectMetadata" where
  "objects_of sv contents st bk =
     (if CHR ''/'' \<in> set (fst bk) then None else object_view (sv_env sv) (contents (as_metadata st) CF_DEFAULT) bk)"

definition data_of_node ::
  "('r \<Rightarrow> fs \<Rightarrow> string \<rightharpoonup> data) \<Rightarrow> string set \<Rightarrow> ('r, 'd) AppState \<Rightarrow> string \<rightharpoonup> data" where
  "data_of_node view keys st = view (as_storage st) (as_fs st) |` keys"

context api_node
begin

abbreviation "E \<equiv> sv_env sv"
abbreviation "raft_do \<equiv> raft_write (client_write (sv_raft sv)) (await_leader (sv_raft sv))
  (leader_http_addr (sv_raft sv)) (raft_node_id (sv_raft sv))"

text \<open>A command whose effect on the store is a function that can be repeated without a difference.\<close>

lemma raft_effect:
  assumes eff: "\<And>now d d''. apply_command E now d cmd = (Inr (), d'') \<Longrightarrow> A \<and> contents d'' = F (contents d)"
    and idem: "\<And>m. F (F m) = F m" and run: "raft_do cmd d = (x, d')"
  shows "(x = Inr () \<longrightarrow> A \<and> contents d' = F (contents d))
    \<and> (contents d' = contents d \<or> (A \<and> contents d' = F (contents d)))"
proof -
  let ?J = "\<lambda>e. contents e = contents d \<or> (A \<and> contents e = F (contents d))"
  let ?Q = "\<lambda>e. A \<and> contents e = F (contents d)"
  have "?J d' \<and> (x = Inr () \<longrightarrow> ?Q d')"
  proof (rule write_loop_rule [where J = ?J and Q = ?Q])
    show "?J d" by simp
    show "write_loop (client_write (sv_raft sv)) (await_leader (sv_raft sv)) (leader_http_addr (sv_raft sv))
        (raft_node_id (sv_raft sv)) cmd 5 0 None d = (x, d')"
      using run by (simp add: raft_write_def write_with_retry_def)
    show "?J s' \<and> (r = Written \<longrightarrow> ?Q s')" if j: "?J s" and c: "client_write (sv_raft sv) s cmd = (r, s')" for s r s'
    proof -
      have q: "?Q s'" if "\<exists>now d''. apply_command E now s cmd = (Inr (), d'') \<and> contents s' = contents d''"
        using that eff j idem by force
      with written [of s cmd s'] not_written [OF c] c j show ?thesis by (cases r) auto
    qed
    show "?J s'" if "?J s" "await_leader (sv_raft sv) s = (r, s')" for s r s'
      using that await_same [OF that(2)] by simp
  qed
  then show ?thesis by blast
qed

text \<open>Two stores hold the same data if they differ in locks only.\<close>

definition same_data :: "'d \<Rightarrow> 'd \<Rightarrow> bool" where
  "same_data d d' \<longleftrightarrow> (\<forall>k. \<not> prefix ''lock:'' k \<longrightarrow> contents d' CF_DEFAULT k = contents d CF_DEFAULT k)"

lemma same_data_refl [simp]: "same_data d d"
  by (simp add: same_data_def)

lemma same_data_trans: "same_data d d' \<Longrightarrow> same_data d' d'' \<Longrightarrow> same_data d d''"
  by (simp add: same_data_def)

lemma same_data_contents: "contents d' = contents d \<Longrightarrow> same_data d d'"
  by (simp add: same_data_def)

lemma not_lock_key: "\<not> prefix ''lock:'' x \<Longrightarrow> x \<noteq> lock_key b k"
  by auto

lemma raft_lock_frame:
  assumes cmd: "cmd = AcquireLock b k t h \<or> cmd = ReleaseLock b k h" and run: "raft_do cmd d = (x, d')"
  shows "same_data d d'"
proof -
  have ap: "same_data e e''" if c: "apply_command E now e cmd = (Inr (), e'')" for now e e''
  proof -
    from cmd c consider y where "acquire_lock E e b k t h = (y, e'')" | z where "release_lock E e b k h = (z, e'')"
      by (auto dest!: apply_resultD)
    then show ?thesis
    proof cases
      case (1 y)
      then show ?thesis
        by (cases y) (auto simp: same_data_def not_lock_key dest: acquire_lock_err dest!: acquire_lock_ok)
    next
      case (2 z)
      then show ?thesis
        by (cases z) (auto simp: same_data_def not_lock_key dest: release_lock_err dest!: release_lock_ok)
    qed
  qed
  have "same_data d d' \<and> (x = Inr () \<longrightarrow> True)"
  proof (rule write_loop_rule [where J = "same_data d" and Q = "\<lambda>_. True"])
    show "same_data d d" by simp
    show "write_loop (client_write (sv_raft sv)) (await_leader (sv_raft sv)) (leader_http_addr (sv_raft sv))
        (raft_node_id (sv_raft sv)) cmd 5 0 None d = (x, d')"
      using run by (simp add: raft_write_def write_with_retry_def)
    show "same_data d s' \<and> (r = Written \<longrightarrow> True)" if "same_data d s" "client_write (sv_raft sv) s cmd = (r, s')" for s r s'
      using not_written [OF that(2)] ap that(1) by (auto simp: same_data_def)
    show "same_data d s'" if "same_data d s" "await_leader (sv_raft sv) s = (r, s')" for s r s'
      using await_same [OF that(2)] that(1) by (simp add: same_data_def)
  qed
  then show ?thesis by simp
qed

text \<open>Steps that change neither the data of the store nor the file system nor the backend.\<close>

definition quiet :: "('r, 'd) AppState \<Rightarrow> ('r, 'd) AppState \<Rightarrow> bool" where
  "quiet st st' \<longleftrightarrow> same_data (as_metadata st) (as_metadata st') \<and> as_storage st' = as_storage st \<and> as_fs st' = as_fs st"

lemma quiet_refl [simp]: "quiet st st"
  by (simp add: quiet_def)

lemma quiet_trans: "quiet st st' \<Longrightarrow> quiet st' st'' \<Longrightarrow> quiet st st''"
  by (auto simp: quiet_def intro: same_data_trans)

lemma try_acquire_lock_frame:
  assumes "try_acquire_lock E (raft_do (AcquireLock b k t h)) d b k t h = (x, d')"
  shows "same_data d d'"
proof -
  obtain y d1 where r: "raft_do (AcquireLock b k t h) d = (y, d1)" by fastforce
  from assms r have "d' = d \<or> d' = d1"
    by (auto simp: try_acquire_lock_def split: sum.splits bool.splits option.splits prod.splits)
  with raft_lock_frame [OF disjI1 [OF refl] r] show ?thesis by auto
qed

lemma acquire_lock_internal_frame:
  "acquire_lock_internal E (replicate n (raft_do (AcquireLock b k t h))) d b k t h = (x, d') \<Longrightarrow> same_data d d'"
proof (induction n arbitrary: d)
  case (Suc n)
  obtain y d1 where r: "try_acquire_lock E (raft_do (AcquireLock b k t h)) d b k t h = (y, d1)" by fastforce
  from Suc.prems r have "d' = d1 \<or>
      acquire_lock_internal E (replicate n (raft_do (AcquireLock b k t h))) d1 b k t h = (x, d')"
    by (auto split: sum.splits bool.splits)
  with Suc.IH try_acquire_lock_frame [OF r] show ?case by (auto intro: same_data_trans)
qed simp

lemma acquire_guard_quiet:
  assumes "acquire_guard sv rq t b k st = (x, st')"
  shows "quiet st st'"
proof -
  obtain h c where h: "next_holder (raft_node_id (sv_raft sv)) (as_lock_counter st) = (h, c)" by fastforce
  obtain y d where a: "acquire_lock_internal E (replicate (rq_attempts rq) (raft_do (AcquireLock b k t h)))
      (as_metadata st) b k t h = (y, d)" by fastforce
  have "raft_acquire_lock (client_write (sv_raft sv)) (await_leader (sv_raft sv))
      (leader_http_addr (sv_raft sv)) (raft_node_id (sv_raft sv)) b k t h = raft_do (AcquireLock b k t h)"
    by (simp add: raft_acquire_lock_def fun_eq_iff)
  with assms h a have "st' = st\<lparr>as_metadata := d, as_lock_counter := c\<rparr>"
    by (simp add: acquire_guard_def checkE_eq)
  with acquire_lock_internal_frame [OF a] show ?thesis by (simp add: quiet_def)
qed

lemma drop_guard_quiet: "quiet st (drop_guard sv b k h st)"
proof -
  obtain y d where r: "raft_do (ReleaseLock b k h) (as_metadata st) = (y, d)" by fastforce
  from raft_lock_frame [OF disjI2 [OF refl] r] r show ?thesis
    by (simp add: quiet_def drop_guard_def raft_release_lock_def)
qed

lemma with_guard_cases:
  assumes "with_guard sv rq t b k rest st = (x, st')"
  obtains e where "x = Inl e" "quiet st st'"
  | st1 st2 where "quiet st st1" "rest st1 = (x, st2)" "quiet st2 st'"
  using assms unfolding with_guard_def
proof (rule bindE_cases)
  fix e assume "acquire_guard sv rq t b k st = (Inl e, st')" "x = Inl e"
  then show thesis using that(1) acquire_guard_quiet by blast
next
  fix h s1 assume a: "acquire_guard sv rq t b k st = (Inr h, s1)"
    and r: "(case rest s1 of (x, st') \<Rightarrow> (x, drop_guard sv b k h st')) = (x, st')"
  obtain st2 where "rest s1 = (x, st2)" "st' = drop_guard sv b k h st2" using r by (auto split: prod.splits)
  then show thesis using that(2) [OF acquire_guard_quiet [OF a]] drop_guard_quiet by simp
qed

lemma ensure_read_consistency_quiet: "ensure_read_consistency sv st = (x, st') \<Longrightarrow> quiet st st'"
  by (auto simp: ensure_read_consistency_def write_metadata_def quiet_def checkE_eq
      dest!: linear_same intro: same_data_contents split: if_splits prod.splits sum.splits)

lemma read_metadata_quiet: "read_metadata g op st = (x, st') \<Longrightarrow> st' = st"
  by (simp add: read_metadata_def checkE_eq)

lemma validate_bucket_exists_quiet: "validate_bucket_exists sv rq b st = (x, st') \<Longrightarrow> quiet st st'"
  by (auto simp: validate_bucket_exists_def quiet_def dest: read_metadata_quiet elim!: bindE_cases split: if_splits)

abbreviation "meta_of st \<equiv> objects_of sv contents st"
abbreviation "data_of st \<equiv> data_of_node view keys st"
abbreviation "buckets_of st \<equiv> bucket_view E (contents (as_metadata st) CF_DEFAULT)"
abbreviation "node_of st \<equiv> (meta_of st, data_of st)"

lemma same_data_views:
  "same_data d d' \<Longrightarrow> object_view E (contents d' CF_DEFAULT) = object_view E (contents d CF_DEFAULT)"
  "same_data d d' \<Longrightarrow> bucket_view E (contents d' CF_DEFAULT) = bucket_view E (contents d CF_DEFAULT)"
  by (auto simp: fun_eq_iff same_data_def object_view_def bucket_view_def object_db_key_def bucket_key_def)

lemma quiet_views:
  "quiet st st' \<Longrightarrow> meta_of st' = meta_of st" "quiet st st' \<Longrightarrow> buckets_of st' = buckets_of st"
  "quiet st st' \<Longrightarrow> data_of st' = data_of st"
  by (auto simp: quiet_def same_data_views objects_of_def data_of_node_def fun_eq_iff)

lemma meta_of_contents: "contents (as_metadata st') = contents (as_metadata st) \<Longrightarrow> meta_of st' = meta_of st"
  by (rule ext) (simp add: objects_of_def)

lemma raft_submit_eq:
  "raft_submit sv g cmd st = (x, st') \<Longrightarrow> \<exists>y d. raft_do cmd (as_metadata st) = (y, d)
     \<and> st' = st\<lparr>as_metadata := d\<rparr> \<and> x = map_sum g id y"
  by (auto simp: raft_submit_def write_metadata_def checkE_eq split: prod.splits)

text \<open>Replicating and deleting metadata: the change is made if success is reported, and made or not otherwise.\<close>

lemma submit_put:
  assumes run: "raft_submit sv g (PutObjectMetadata m) st = (x, st')" and b: "CHR ''/'' \<notin> set (obj_bucket m)"
  shows "data_of st' = data_of st \<and> as_fs st' = as_fs st \<and> as_storage st' = as_storage st
    \<and> (x = Inr () \<longrightarrow> meta_of st' = (meta_of st)((obj_bucket m, obj_key m) \<mapsto> m))
    \<and> (meta_of st' = meta_of st \<or> meta_of st' = (meta_of st)((obj_bucket m, obj_key m) \<mapsto> m))"
proof -
  let ?v = "projr (encode (object_codec E) m)" and ?k = "object_db_key (obj_bucket m) (obj_key m)"
  let ?F = "\<lambda>c. c(CF_DEFAULT := (c CF_DEFAULT)(?k \<mapsto> ?v))" and ?A = "encode (object_codec E) m = Inr ?v"
  from raft_submit_eq [OF run] obtain y d where r: "raft_do (PutObjectMetadata m) (as_metadata st) = (y, d)"
    and st': "st' = st\<lparr>as_metadata := d\<rparr>" and x: "x = map_sum g id y" by blast
  have eff: "?A \<and> contents d'' = ?F (contents d)" if "apply_command E now d (PutObjectMetadata m) = (Inr (), d'')" for now d d''
  proof -
    from that obtain z where "put_object_metadata E d m = (z, d'')" "z = Inr ()"
      by (cases "put_object_metadata E d m") (auto elim: apply_result.elims)
    then show ?thesis using put_object_metadata_ok [of d m "()" d''] by auto
  qed
  from raft_effect [where F = ?F and A = ?A, OF eff _ r] have e: "(y = Inr () \<longrightarrow> ?A \<and> contents d = ?F (contents (as_metadata st)))
    \<and> (contents d = contents (as_metadata st) \<or> (?A \<and> contents d = ?F (contents (as_metadata st))))" by simp
  have v: "meta_of st' = (meta_of st)((obj_bucket m, obj_key m) \<mapsto> m)" if "?A \<and> contents d = ?F (contents (as_metadata st))"
    using that b st' codec_okD [OF object_codec_ok]
    by (auto simp: fun_eq_iff objects_of_def object_view_def object_db_key_inject)
  have "meta_of st' = meta_of st" if "contents d = contents (as_metadata st)"
    using that st' by (intro meta_of_contents) simp
  with e v x st' show ?thesis by (cases y) (auto simp: data_of_node_def)
qed

lemma submit_delete:
  assumes run: "raft_submit sv g (DeleteObjectMetadata b k) st = (x, st')" and b: "CHR ''/'' \<notin> set b"
  shows "data_of st' = data_of st \<and> as_fs st' = as_fs st \<and> as_storage st' = as_storage st
    \<and> (x = Inr () \<longrightarrow> meta_of st' = (meta_of st)((b, k) := None))
    \<and> (meta_of st' = meta_of st \<or> meta_of st' = (meta_of st)((b, k) := None))"
proof -
  let ?F = "\<lambda>c. c(CF_DEFAULT := (c CF_DEFAULT)(object_db_key b k := None))"
  from raft_submit_eq [OF run] obtain y d where r: "raft_do (DeleteObjectMetadata b k) (as_metadata st) = (y, d)"
    and st': "st' = st\<lparr>as_metadata := d\<rparr>" and x: "x = map_sum g id y" by blast
  have eff: "True \<and> contents d'' = ?F (contents d)" if "apply_command E now d (DeleteObjectMetadata b k) = (Inr (), d'')" for now d d''
  proof -
    from that obtain z where "delete_object_metadata E d b k = (z, d'')" "z = Inr ()"
      by (cases "delete_object_metadata E d b k") (auto elim: apply_result.elims)
    then show ?thesis using delete_object_metadata_ok [of d b k "()" d''] by auto
  qed
  from raft_effect [where F = ?F and A = True, OF eff _ r] have e: "(y = Inr () \<longrightarrow> contents d = ?F (contents (as_metadata st)))
    \<and> (contents d = contents (as_metadata st) \<or> contents d = ?F (contents (as_metadata st)))" by simp
  have v: "meta_of st' = (meta_of st)((b, k) := None)" if "contents d = ?F (contents (as_metadata st))"
    using that b st' by (auto simp: fun_eq_iff objects_of_def object_view_def object_db_key_inject)
  have "meta_of st' = meta_of st" if "contents d = contents (as_metadata st)"
    using that st' by (intro meta_of_contents) simp
  with e v x st' show ?thesis by (cases y) (auto simp: data_of_node_def)
qed

end

end
