(* ===== verification/Api_Object.thy ===== *)
theory Api_Object
  imports Api_State
begin

text \<open>
  The handlers for objects, \<open>crates/save-api/src/handlers/objects\<close>: storing, fetching, describing,
  deleting and listing. Storing writes the contents to a temporary object, commits it and then
  replicates the metadata; deleting removes the metadata first. Both hold the write lock of the
  object.

  The locale \<open>api_node\<close> states what the handlers rely on of Raft and of the storage backend.
\<close>

section \<open>Handlers\<close>

text \<open>The hash and the number of the bytes that went through the reader.\<close>

definition HashingReader_finalize :: "(data \<Rightarrow> string) \<Rightarrow> reader \<Rightarrow> string \<times> u64" where
  "HashingReader_finalize sha256_hex rd = (sha256_hex (rd_bytes rd), of_nat (length (rd_bytes rd)))"

definition in_quotes :: "string \<Rightarrow> string" where
  "in_quotes s = CHR 0x22 # s @ [CHR 0x22]"

definition u64_str :: "u64 \<Rightarrow> string" where
  "u64_str n = nat_str (unat n)"

text \<open>
  The steps that storing an object and completing an upload share: contents to a temporary object,
  commit, then the metadata through Raft. The two differ in the texts of their errors.
\<close>

definition store_and_publish ::
  "('d, 'v, 'r, 'h) services \<Rightarrow> (StorageError \<Rightarrow> ApiError) \<Rightarrow> (StorageError \<Rightarrow> ApiError) \<Rightarrow> (MetadataError \<Rightarrow> ApiError)
    \<Rightarrow> string \<Rightarrow> reader \<Rightarrow> ObjectMetadata \<Rightarrow> ('r, 'd) AppState \<Rightarrow> (ApiError + unit) \<times> ('r, 'd) AppState" where
  "store_and_publish sv write_failed commit_failed publish_failed full_key rd metadata =
     bindE (use_storage write_failed (\<lambda>r s. be_write_temp_object (sv_backend sv) r s full_key rd)) (\<lambda>temp_object.
     bindE (use_storage commit_failed (\<lambda>r s. be_commit_object (sv_backend sv) r s temp_object)) (\<lambda>_.
     raft_submit sv publish_failed (PutObjectMetadata metadata)))"

definition put_under_lock ::
  "('d, 'v, 'r, 'h) services \<Rightarrow> surroundings_of_request \<Rightarrow> string \<Rightarrow> string \<Rightarrow> reader \<Rightarrow> ('r, 'd) AppState
    \<Rightarrow> (ApiError + Response) \<times> ('r, 'd) AppState" where
  "put_under_lock sv rq bucket key rd =
     bindE (validate_bucket_exists sv rq bucket) (\<lambda>_.
     let (etag, sz) = HashingReader_finalize (sv_sha256 sv) rd in
     bindE (store_and_publish sv (internal_storage ''Storage error: '') (internal_storage ''Storage commit failed: '')
              (internal_meta ''Metadata commit failed after storage commit - orphaned object may require GC: '')
              (storage_key bucket key) rd (ObjectMetadata_new (rq_now_meta rq) bucket key sz etag)) (\<lambda>_.
     returnE \<lparr>rs_status = 200,
              rs_headers = [(''etag'', in_quotes etag), (''x-storage-duration-ms'', nat_str (rq_elapsed_ms rq))],
              rs_body = NoBody\<rparr>))"

definition api_put_object ::
  "('d, 'v, 'r, 'h) services \<Rightarrow> surroundings_of_request \<Rightarrow> string \<Rightarrow> string \<Rightarrow> reader \<Rightarrow> ('r, 'd) AppState
    \<Rightarrow> (ApiError + Response) \<times> ('r, 'd) AppState" where
  "api_put_object sv rq bucket key rd =
     bindE (checkE invalid_name (validate_bucket_name bucket)) (\<lambda>_.
     bindE (checkE invalid_name (validate_object_key key)) (\<lambda>_.
     with_guard sv rq Write bucket key (put_under_lock sv rq bucket key rd)))"

definition object_error :: "string \<Rightarrow> string \<Rightarrow> MetadataError \<Rightarrow> ApiError" where
  "object_error bucket key e =
     (case e of
        ObjectNotFound _ _ \<Rightarrow> ApiObjectNotFound bucket key
      | BucketNotFound _ \<Rightarrow> ApiObjectNotFound bucket key
      | _ \<Rightarrow> internal_meta ''Metadata error: '' e)"

text \<open>In strong mode a read holds the read lock; in eventual mode it takes none.\<close>

definition with_read_guard ::
  "('d, 'v, 'r, 'h) services \<Rightarrow> surroundings_of_request \<Rightarrow> string \<Rightarrow> string
    \<Rightarrow> (('r, 'd) AppState \<Rightarrow> (ApiError + 'a) \<times> ('r, 'd) AppState)
    \<Rightarrow> ('r, 'd) AppState \<Rightarrow> (ApiError + 'a) \<times> ('r, 'd) AppState" where
  "with_read_guard sv rq bucket key rest =
     (if consistency_mode (sv_config sv) = Strong then with_guard sv rq Read bucket key rest else rest)"

definition content_type_or_default :: "ObjectMetadata \<Rightarrow> string" where
  "content_type_or_default m = (case obj_content_type m of Some c \<Rightarrow> c | None \<Rightarrow> ''application/octet-stream'')"

definition get_under_lock ::
  "('d, 'v, 'r, 'h) services \<Rightarrow> surroundings_of_request \<Rightarrow> string \<Rightarrow> string \<Rightarrow> ('r, 'd) AppState
    \<Rightarrow> (ApiError + Response) \<times> ('r, 'd) AppState" where
  "get_under_lock sv rq bucket key =
     bindE (ensure_read_consistency sv) (\<lambda>_.
     bindE (read_metadata (object_error bucket key) (\<lambda>d. get_object_metadata (sv_env sv) d bucket key)) (\<lambda>metadata.
     bindE (use_storage (internal_storage ''Storage error: '')
              (\<lambda>r s. be_get_object (sv_backend sv) r s (storage_key bucket key))) (\<lambda>file.
     returnE \<lparr>rs_status = 200,
              rs_headers = [(''etag'', in_quotes (obj_etag metadata)),
                            (''content-length'', u64_str (obj_size metadata)),
                            (''last-modified'', sv_http_date sv (obj_modified_at metadata)),
                            (''content-type'', content_type_or_default metadata),
                            (''x-storage-duration-ms'', nat_str (rq_elapsed_ms rq))],
              rs_body = Bytes file\<rparr>)))"

definition api_get_object ::
  "('d, 'v, 'r, 'h) services \<Rightarrow> surroundings_of_request \<Rightarrow> string \<Rightarrow> string \<Rightarrow> ('r, 'd) AppState
    \<Rightarrow> (ApiError + Response) \<times> ('r, 'd) AppState" where
  "api_get_object sv rq bucket key =
     bindE (checkE invalid_name (validate_bucket_name bucket)) (\<lambda>_.
     bindE (checkE invalid_name (validate_object_key key)) (\<lambda>_.
     with_read_guard sv rq bucket key (get_under_lock sv rq bucket key)))"

definition head_under_lock ::
  "('d, 'v, 'r, 'h) services \<Rightarrow> string \<Rightarrow> string \<Rightarrow> ('r, 'd) AppState \<Rightarrow> (ApiError + Response) \<times> ('r, 'd) AppState" where
  "head_under_lock sv bucket key =
     bindE (ensure_read_consistency sv) (\<lambda>_.
     bindE (read_metadata (object_error bucket key) (\<lambda>d. get_object_metadata (sv_env sv) d bucket key)) (\<lambda>metadata.
     returnE \<lparr>rs_status = 200,
              rs_headers = [(''etag'', in_quotes (obj_etag metadata)),
                            (''content-length'', u64_str (obj_size metadata)),
                            (''last-modified'', sv_http_date sv (obj_modified_at metadata)),
                            (''content-type'', content_type_or_default metadata)],
              rs_body = NoBody\<rparr>))"

definition api_head_object ::
  "('d, 'v, 'r, 'h) services \<Rightarrow> surroundings_of_request \<Rightarrow> string \<Rightarrow> string \<Rightarrow> ('r, 'd) AppState
    \<Rightarrow> (ApiError + Response) \<times> ('r, 'd) AppState" where
  "api_head_object sv rq bucket key =
     bindE (checkE invalid_name (validate_bucket_name bucket)) (\<lambda>_.
     bindE (checkE invalid_name (validate_object_key key)) (\<lambda>_.
     with_read_guard sv rq bucket key (head_under_lock sv bucket key)))"

definition delete_lookup_error :: "string \<Rightarrow> string \<Rightarrow> MetadataError \<Rightarrow> ApiError" where
  "delete_lookup_error bucket key e =
     (case e of
        ObjectNotFound _ _ \<Rightarrow> ApiObjectNotFound bucket key
      | BucketNotFound _ \<Rightarrow> ApiBucketNotFound bucket
      | _ \<Rightarrow> internal_meta ''Metadata error: '' e)"

definition delete_under_lock ::
  "('d, 'v, 'r, 'h) services \<Rightarrow> string \<Rightarrow> string \<Rightarrow> ('r, 'd) AppState \<Rightarrow> (ApiError + Response) \<times> ('r, 'd) AppState" where
  "delete_under_lock sv bucket key =
     bindE (read_metadata (delete_lookup_error bucket key) (\<lambda>d. get_object_metadata (sv_env sv) d bucket key)) (\<lambda>_.
     bindE (raft_submit sv (internal_meta ''Metadata error: '') (DeleteObjectMetadata bucket key)) (\<lambda>_.
     bindE (use_storage
              (internal_storage ''Storage deletion failed after metadata deletion - orphaned object may require GC: '')
              (\<lambda>r s. be_delete_object (sv_backend sv) r s (storage_key bucket key))) (\<lambda>_.
     returnE \<lparr>rs_status = 204, rs_headers = [], rs_body = NoBody\<rparr>)))"

definition api_delete_object ::
  "('d, 'v, 'r, 'h) services \<Rightarrow> surroundings_of_request \<Rightarrow> string \<Rightarrow> string \<Rightarrow> ('r, 'd) AppState
    \<Rightarrow> (ApiError + Response) \<times> ('r, 'd) AppState" where
  "api_delete_object sv rq bucket key =
     bindE (checkE invalid_name (validate_bucket_name bucket)) (\<lambda>_.
     bindE (checkE invalid_name (validate_object_key key)) (\<lambda>_.
     with_guard sv rq Write bucket key (delete_under_lock sv bucket key)))"

subsection \<open>Listing\<close>

record ListObjectsQuery =
  q_prefix :: "string option"
  q_marker :: "string option"
  q_max_keys :: "nat option"
  q_list_type :: "string option"
  q_continuation_token :: "string option"

definition is_v2 :: "ListObjectsQuery \<Rightarrow> bool" where
  "is_v2 q \<longleftrightarrow> q_list_type q = Some ''2''"

text \<open>The objects after the marker, cut off at the limit, and whether any were cut off.\<close>

definition list_page :: "ListObjectsQuery \<Rightarrow> ObjectMetadata list \<Rightarrow> object_line list \<times> nat \<times> bool" where
  "list_page q objects =
     (let objects = (if is_v2 q then
                       (case q_continuation_token q of
                          Some token \<Rightarrow> filter (\<lambda>obj. token < obj_key obj) objects
                        | None \<Rightarrow> objects)
                     else
                       (case q_marker q of
                          Some marker \<Rightarrow> filter (\<lambda>obj. marker < obj_key obj) objects
                        | None \<Rightarrow> objects));
          max_keys = min (case q_max_keys q of Some n \<Rightarrow> n | None \<Rightarrow> 1000) 1000;
          is_truncated = (max_keys < length objects) in
      (map (\<lambda>obj. (obj_key obj, obj_modified_at obj, obj_etag obj, obj_size obj)) (take max_keys objects),
       max_keys, is_truncated))"

definition list_document :: "string \<Rightarrow> ListObjectsQuery \<Rightarrow> ObjectMetadata list \<Rightarrow> s3_document" where
  "list_document bucket q objects =
     (case list_page q objects of
        (object_list, max_keys, is_truncated) \<Rightarrow>
        if is_v2 q then
          ListV2Doc (ListBucketResultV2_new bucket (q_prefix q) (q_continuation_token q) max_keys is_truncated object_list)
        else ListDoc (ListBucketResult_new bucket (q_prefix q) (q_marker q) max_keys is_truncated object_list))"

definition api_list_objects ::
  "('d, 'v, 'r, 'h) services \<Rightarrow> surroundings_of_request \<Rightarrow> string \<Rightarrow> ListObjectsQuery \<Rightarrow> ('r, 'd) AppState
    \<Rightarrow> (ApiError + Response) \<times> ('r, 'd) AppState" where
  "api_list_objects sv rq bucket q =
     bindE (checkE invalid_name (validate_bucket_name bucket)) (\<lambda>_.
     bindE (validate_bucket_exists sv rq bucket) (\<lambda>_.
     bindE (ensure_read_consistency sv) (\<lambda>_.
     bindE (read_metadata (internal_meta ''Failed to list objects: '')
              (\<lambda>d. list_objects (sv_env sv) d bucket (q_prefix q))) (\<lambda>objects.
     respond_xml sv (list_document bucket q objects)))))"

section \<open>The handlers refine the abstract node\<close>

definition put_metadata :: "('d, 'v, 'r, 'h) services \<Rightarrow> surroundings_of_request \<Rightarrow> string \<Rightarrow> string \<Rightarrow> data \<Rightarrow> ObjectMetadata" where
  "put_metadata sv rq bucket key d =
     ObjectMetadata_new (rq_now_meta rq) bucket key (of_nat (length d)) (sv_sha256 sv d)"

lemma use_storage_eq:
  "use_storage g op st = (x, st') \<Longrightarrow> \<exists>y r s. op (as_storage st) (as_fs st) = (y, r, s)
     \<and> st' = st\<lparr>as_storage := r, as_fs := s\<rparr> \<and> x = map_sum g id y"
  by (auto simp: use_storage_def checkE_eq split: prod.splits)

lemma map_sum_cases: "map_sum g id y = Inr z \<longleftrightarrow> y = Inr z" "map_sum g id y = Inl e \<longleftrightarrow> (\<exists>e'. y = Inl e' \<and> e = g e')"
  "Inr z = map_sum g id y \<longleftrightarrow> y = Inr z" "Inl e = map_sum g id y \<longleftrightarrow> (\<exists>e'. y = Inl e' \<and> e = g e')"
  by (cases y; auto)+

context api_node
begin

lemma use_storage_meta: "use_storage g op st = (x, st') \<Longrightarrow> meta_of st' = meta_of st \<and> as_metadata st' = as_metadata st"
  using meta_of_contents [of st' st] by (auto dest!: use_storage_eq)

lemma write_temp_step:
  assumes "use_storage g (\<lambda>r s. be_write_temp_object (sv_backend sv) r s key rd) st = (x, st')" and "key \<in> keys"
  shows "node_of st' = node_of st
    \<and> (\<forall>h. x = Inr h \<longrightarrow> rd_end rd = Inr () \<and> staged (as_storage st') (as_fs st') h key (rd_bytes rd))"
proof -
  from use_storage_eq [OF assms(1)] obtain y r s where w: "be_write_temp_object (sv_backend sv) (as_storage st) (as_fs st) key rd = (y, r, s)"
    and st': "st' = st\<lparr>as_storage := r, as_fs := s\<rparr>" and x: "x = map_sum g id y" by blast
  have "data_of st' = data_of st"
    using be.write_temp_view [OF assms(2) w] st' by (auto simp: data_of_node_def restrict_map_def fun_eq_iff)
  moreover have "rd_end rd = Inr () \<and> staged r s h key (rd_bytes rd)" if "y = Inr h" for h
    using be.write_temp_ok [OF assms(2)] w that by simp
  ultimately show ?thesis using use_storage_meta [OF assms(1)] st' x by (auto simp: map_sum_cases)
qed

lemma commit_step:
  assumes "use_storage g (\<lambda>r s. be_commit_object (sv_backend sv) r s h) st = (x, st')" and "key \<in> keys"
    and "staged (as_storage st) (as_fs st) h key d"
  shows "meta_of st' = meta_of st \<and> (x = Inr () \<longrightarrow> data_of st' = (data_of st)(key \<mapsto> d))
    \<and> (data_of st' = data_of st \<or> data_of st' = (data_of st)(key \<mapsto> d))"
proof -
  from use_storage_eq [OF assms(1)] obtain y r s where w: "be_commit_object (sv_backend sv) (as_storage st) (as_fs st) h = (y, r, s)"
    and st': "st' = st\<lparr>as_storage := r, as_fs := s\<rparr>" and x: "x = map_sum g id y" by blast
  show ?thesis
  proof (cases y)
    case (Inl e)
    with w have c: "be_commit_object (sv_backend sv) (as_storage st) (as_fs st) h = (Inl e, r, s)" by simp
    have frame: "view r s k = view (as_storage st) (as_fs st) k" if "k \<in> keys" "k \<noteq> key" for k
      using be.commit_err [OF assms(2,3) c that(1)] that(2) by blast
    have "view r s key = view (as_storage st) (as_fs st) key \<or> view r s key = Some d"
      using be.commit_err [OF assms(2,3) c assms(2)] by blast
    then have "data_of st' = data_of st \<or> data_of st' = (data_of st)(key \<mapsto> d)"
      using frame assms(2) st' by (auto simp: data_of_node_def restrict_map_def fun_eq_iff)
    with Inl x use_storage_meta [OF assms(1)] show ?thesis by auto
  next
    case (Inr u)
    with w have c: "be_commit_object (sv_backend sv) (as_storage st) (as_fs st) h = (Inr u, r, s)" by simp
    have "data_of st' = (data_of st)(key \<mapsto> d)"
      using be.commit_ok [OF assms(2,3) c] assms(2) st' by (auto simp: data_of_node_def restrict_map_def fun_eq_iff)
    with Inr x use_storage_meta [OF assms(1)] show ?thesis by auto
  qed
qed

lemma delete_step:
  assumes "use_storage g (\<lambda>r s. be_delete_object (sv_backend sv) r s key) st = (x, st')" and "key \<in> keys"
  shows "meta_of st' = meta_of st \<and> data_of st' = (if x = Inr () then (data_of st)(key := None) else data_of st)"
proof -
  from use_storage_eq [OF assms(1)] obtain y r s where w: "be_delete_object (sv_backend sv) (as_storage st) (as_fs st) key = (y, r, s)"
    and st': "st' = st\<lparr>as_storage := r, as_fs := s\<rparr>" and x: "x = map_sum g id y" by blast
  show ?thesis
  proof (cases y)
    case (Inl e)
    with be.delete_err [OF assms(2)] w st' x use_storage_meta [OF assms(1)] show ?thesis
      by (auto simp: data_of_node_def restrict_map_def fun_eq_iff)
  next
    case (Inr u)
    with be.delete_ok [OF assms(2)] w st' x use_storage_meta [OF assms(1)] show ?thesis
      by (auto simp: data_of_node_def restrict_map_def fun_eq_iff)
  qed
qed

lemma quiet_node: "quiet st st' \<Longrightarrow> node_of st' = node_of st"
  by (simp add: quiet_views)

lemma storage_root:
  "use_storage g (\<lambda>r s. be_write_temp_object (sv_backend sv) r s key rd) st = (x, st') \<Longrightarrow> root (as_storage st') = root (as_storage st)"
  "use_storage g (\<lambda>r s. be_commit_object (sv_backend sv) r s h) st = (y, st') \<Longrightarrow> root (as_storage st') = root (as_storage st)"
  "use_storage g (\<lambda>r s. be_delete_object (sv_backend sv) r s key) st = (y, st') \<Longrightarrow> root (as_storage st') = root (as_storage st)"
  "use_storage g (\<lambda>r s. be_get_object (sv_backend sv) r s key) st = (z, st') \<Longrightarrow> root (as_storage st') = root (as_storage st)"
  using be.root_same by (fastforce dest!: use_storage_eq)+

lemma store_and_publish_step:
  assumes run: "store_and_publish sv g1 g2 g3 (storage_key b k) rd m st = (x, st')"
    and key: "storage_key b k \<in> keys" and b: "CHR ''/'' \<notin> set b" and m: "obj_bucket m = b" "obj_key m = k"
  shows "node_step (\<not> isl x) (StoreReq b k m (rd_bytes rd)) (node_of st) (node_of st')
    \<and> (\<not> isl x \<longrightarrow> rd_end rd = Inr ()) \<and> root (as_storage st') = root (as_storage st)
    \<and> (\<forall>e. x = Inl e \<longrightarrow> e \<notin> range g1 \<longrightarrow> e \<notin> range g2 \<longrightarrow> data_of st' = (data_of st)(storage_key b k \<mapsto> rd_bytes rd))"
  using run unfolding store_and_publish_def
proof (elim bindE_cases, goal_cases)
  case (1 e)
  from use_storage_eq [OF 1(1)] have "e \<in> range g1" by (auto simp: map_sum_cases)
  with write_temp_step [OF 1(1) key] storage_root(1) [OF 1(1)] 1(2) show ?case by (auto intro: node_step.store_nothing)
next
  case (2 h s1 e)
  note w = write_temp_step [OF 2(1) key]
  then have sg: "staged (as_storage s1) (as_fs s1) h (storage_key b k) (rd_bytes rd)" by simp
  from use_storage_eq [OF 2(2)] have "e \<in> range g2" by (auto simp: map_sum_cases)
  with commit_step [OF 2(2) key sg] w storage_root(1) [OF 2(1)] storage_root(2) [OF 2(2)] 2(3) show ?case
    by (auto intro: node_step.intros)
next
  case (3 h s1 u s2)
  note w = write_temp_step [OF 3(1) key]
  then have sg: "staged (as_storage s1) (as_fs s1) h (storage_key b k) (rd_bytes rd)" by simp
  note c = commit_step [OF 3(2) key sg] and p = submit_put [OF 3(3) b [folded m(1)]]
  have d: "data_of st' = (data_of st)(storage_key b k \<mapsto> rd_bytes rd)" and r: "root (as_storage st') = root (as_storage st)"
    and M: "meta_of st' = meta_of st \<or> meta_of st' = (meta_of st)((b, k) \<mapsto> m)" "x = Inr () \<longrightarrow> meta_of st' = (meta_of st)((b, k) \<mapsto> m)"
    using c p w m storage_root(1) [OF 3(1)] storage_root(2) [OF 3(2)] by simp_all
  have "node_step (\<not> isl x) (StoreReq b k m (rd_bytes rd)) (node_of st) (node_of st')"
    using M d by (cases x) (auto simp: node_step.store_half intro: node_step.stored)
  with w r d show ?case by auto
qed

lemma put_under_lock_step:
  assumes run: "put_under_lock sv rq b k rd st = (x, st')" and key: "storage_key b k \<in> keys" and b: "CHR ''/'' \<notin> set b"
  shows "node_step (\<not> isl x) (StoreReq b k (put_metadata sv rq b k (rd_bytes rd)) (rd_bytes rd)) (node_of st) (node_of st')
    \<and> (\<not> isl x \<longrightarrow> rd_end rd = Inr ())"
  using run unfolding put_under_lock_def HashingReader_finalize_def Let_def prod.case put_metadata_def [symmetric]
proof (elim bindE_cases, goal_cases)
  case (1 e)
  then show ?case using quiet_node [OF validate_bucket_exists_quiet] by (auto intro: node_step.intros)
next
  case (2 u s1 e)
  have m: "obj_bucket (put_metadata sv rq b k d) = b" "obj_key (put_metadata sv rq b k d) = k" for d
    by (simp_all add: put_metadata_def ObjectMetadata_new_def)
  from store_and_publish_step [OF 2(2) key b m] quiet_node [OF validate_bucket_exists_quiet [OF 2(1)]] 2(3) show ?case by simp
next
  case (3 u s1 u2 s2)
  have m: "obj_bucket (put_metadata sv rq b k d) = b" "obj_key (put_metadata sv rq b k d) = k" for d
    by (simp_all add: put_metadata_def ObjectMetadata_new_def)
  from store_and_publish_step [OF 3(2) key b m] quiet_node [OF validate_bucket_exists_quiet [OF 3(1)]] 3(3) show ?case
    by (auto simp: returnE_def)
qed

lemma delete_under_lock_step:
  assumes run: "delete_under_lock sv b k st = (x, st')" and key: "storage_key b k \<in> keys" and b: "CHR ''/'' \<notin> set b"
  shows "node_step (\<not> isl x) (DeleteReq b k) (node_of st) (node_of st')"
  using run unfolding delete_under_lock_def
proof (elim bindE_cases, goal_cases)
  case (1 e)
  then show ?case using read_metadata_quiet [OF 1(1)] by (simp add: node_step.delete_nothing)
next
  case (2 m s1 e)
  have "data_of st' = data_of st" "meta_of st' = meta_of st \<or> meta_of st' = (meta_of st)((b, k) := None)"
    using read_metadata_quiet [OF 2(1)] submit_delete [OF 2(2) b] by simp_all
  then show ?case by (elim disjE) (simp_all add: 2(3) node_step.delete_nothing node_step.delete_half)
next
  case (3 m s1 u s2 e)
  have "meta_of st' = (meta_of st)((b, k) := None)" "data_of st' = data_of st"
    using read_metadata_quiet [OF 3(1)] submit_delete [OF 3(2) b] delete_step [OF 3(3) key] by simp_all
  then show ?case by (simp add: 3(4) node_step.delete_half)
next
  case (4 m s1 u s2 u2 s3)
  have "meta_of s3 = (meta_of st)((b, k) := None)" "data_of s3 = (data_of st)(storage_key b k := None)"
    using read_metadata_quiet [OF 4(1)] submit_delete [OF 4(2) b] delete_step [OF 4(3) key] by simp_all
  with 4(4) show ?case by (auto intro: node_step.deleted)
qed

lemma get_step:
  assumes "use_storage g (\<lambda>r s. be_get_object (sv_backend sv) r s key) st = (x, st')" and "key \<in> keys"
  shows "node_of st' = node_of st"
proof -
  from use_storage_eq [OF assms(1)] obtain y r s where
    w: "be_get_object (sv_backend sv) (as_storage st) (as_fs st) key = (y, r, s)"
    and st': "st' = st\<lparr>as_storage := r, as_fs := s\<rparr>" by blast
  have "data_of st' = data_of st"
    using be.get_view [OF assms(2) w] st' by (auto simp: data_of_node_def restrict_map_def fun_eq_iff)
  with use_storage_meta [OF assms(1)] show ?thesis by simp
qed

lemma get_under_lock_node:
  assumes "get_under_lock sv rq b k st = (x, st')" and "storage_key b k \<in> keys"
  shows "node_of st' = node_of st"
  using assms(1) unfolding get_under_lock_def
  by (elim bindE_cases)
    (auto dest!: quiet_node [OF ensure_read_consistency_quiet] read_metadata_quiet get_step [OF _ assms(2)])

lemma head_under_lock_node: "head_under_lock sv b k st = (x, st') \<Longrightarrow> node_of st' = node_of st"
  unfolding head_under_lock_def
  by (elim bindE_cases) (auto dest!: quiet_node [OF ensure_read_consistency_quiet] read_metadata_quiet)

lemma with_guard_step:
  assumes "with_guard sv rq t b k rest st = (x, st')"
    and "\<And>st1 st2. node_of st1 = node_of st \<Longrightarrow> rest st1 = (x, st2) \<Longrightarrow> node_step (\<not> isl x) r (node_of st) (node_of st2)"
    and "node_step False r (node_of st) (node_of st)"
  shows "node_step (\<not> isl x) r (node_of st) (node_of st')"
  using assms(1)
proof (cases rule: with_guard_cases)
  case (1 e)
  with assms(3) quiet_node [OF 1(2)] show ?thesis by simp
next
  case (2 st1 st2)
  with assms(2) [OF quiet_node [OF 2(1)] 2(2)] quiet_node [OF 2(3)] show ?thesis by simp
qed

end

text \<open>The requests for objects, and the abstract request each of them stands for.\<close>

datatype object_request =
    PutRequest string string reader
  | GetRequest string string
  | HeadRequest string string
  | DeleteRequest string string
  | ListRequest string ListObjectsQuery

fun handle_object ::
  "('d, 'v, 'r, 'h) services \<Rightarrow> surroundings_of_request \<Rightarrow> object_request \<Rightarrow> ('r, 'd) AppState
    \<Rightarrow> (ApiError + Response) \<times> ('r, 'd) AppState" where
  "handle_object sv rq (PutRequest b k rd) = api_put_object sv rq b k rd"
| "handle_object sv rq (GetRequest b k) = api_get_object sv rq b k"
| "handle_object sv rq (HeadRequest b k) = api_head_object sv rq b k"
| "handle_object sv rq (DeleteRequest b k) = api_delete_object sv rq b k"
| "handle_object sv rq (ListRequest b q) = api_list_objects sv rq b q"

fun abstract_request :: "('d, 'v, 'r, 'h) services \<Rightarrow> surroundings_of_request \<Rightarrow> object_request \<Rightarrow> node_request" where
  "abstract_request sv rq (PutRequest b k rd) =
     (if valid_bucket b then StoreReq b k (put_metadata sv rq b k (rd_bytes rd)) (rd_bytes rd) else OtherReq)"
| "abstract_request sv rq (DeleteRequest b k) = (if valid_bucket b then DeleteReq b k else OtherReq)"
| "abstract_request sv rq _ = OtherReq"

fun request_key :: "object_request \<Rightarrow> string option" where
  "request_key (PutRequest b k rd) = Some (storage_key b k)"
| "request_key (GetRequest b k) = Some (storage_key b k)"
| "request_key (HeadRequest b k) = Some (storage_key b k)"
| "request_key (DeleteRequest b k) = Some (storage_key b k)"
| "request_key (ListRequest b q) = None"

lemma bindE_checkE: "bindE (checkE g v) f st = (case v of Inl e \<Rightarrow> (Inl (g e), st) | Inr y \<Rightarrow> f y st)"
  by (simp add: bindE_def checkE_def split: sum.splits)

context api_node
begin

lemma api_list_objects_node: "api_list_objects sv rq b q st = (x, st') \<Longrightarrow> node_of st' = node_of st"
  unfolding api_list_objects_def respond_xml_def
  by (elim bindE_cases) (auto simp: checkE_eq dest!: quiet_node [OF validate_bucket_exists_quiet]
      quiet_node [OF ensure_read_consistency_quiet] read_metadata_quiet)

lemma with_read_guard_node:
  assumes "with_read_guard sv rq b k rest st = (x, st')" and "\<And>st1 st2. rest st1 = (x, st2) \<Longrightarrow> node_of st2 = node_of st1"
  shows "node_of st' = node_of st"
proof (cases "consistency_mode (sv_config sv) = Strong")
  case True
  with assms(1) have "with_guard sv rq Read b k rest st = (x, st')" by (simp add: with_read_guard_def)
  then have "node_step (\<not> isl x) OtherReq (node_of st) (node_of st')" by (rule with_guard_step) (auto dest: assms(2))
  then show ?thesis by simp
qed (use assms in \<open>simp add: with_read_guard_def\<close>)

lemma handle_object_step:
  assumes run: "handle_object sv rq r st = (x, st')" and key: "\<And>f. request_key r = Some f \<Longrightarrow> f \<in> keys"
  shows "node_step (\<not> isl x) (abstract_request sv rq r) (node_of st) (node_of st')"
proof (cases r)
  case (PutRequest b k rd)
  show ?thesis
  proof (cases "valid_bucket b \<and> valid_key k")
    case True
    with run PutRequest have "with_guard sv rq Write b k (put_under_lock sv rq b k rd) st = (x, st')"
      by (simp add: api_put_object_def bindE_checkE)
    then have "node_step (\<not> isl x) (StoreReq b k (put_metadata sv rq b k (rd_bytes rd)) (rd_bytes rd)) (node_of st) (node_of st')"
    proof (rule with_guard_step)
      fix st1 st2 assume n: "node_of st1 = node_of st" and p: "put_under_lock sv rq b k rd st1 = (x, st2)"
      from put_under_lock_step [OF p] key PutRequest True n
      show "node_step (\<not> isl x) (StoreReq b k (put_metadata sv rq b k (rd_bytes rd)) (rd_bytes rd)) (node_of st) (node_of st2)"
        by simp
    qed (rule node_step.store_nothing)
    with True PutRequest show ?thesis by simp
  next
    case False
    with run PutRequest have "st' = st \<and> isl x" by (auto simp: api_put_object_def bindE_checkE split: sum.splits)
    with PutRequest show ?thesis by (auto intro: node_step.store_nothing)
  qed
next
  case (DeleteRequest b k)
  show ?thesis
  proof (cases "valid_bucket b \<and> valid_key k")
    case True
    with run DeleteRequest have "with_guard sv rq Write b k (delete_under_lock sv b k) st = (x, st')"
      by (simp add: api_delete_object_def bindE_checkE)
    then have "node_step (\<not> isl x) (DeleteReq b k) (node_of st) (node_of st')"
    proof (rule with_guard_step)
      fix st1 st2 assume n: "node_of st1 = node_of st" and p: "delete_under_lock sv b k st1 = (x, st2)"
      from delete_under_lock_step [OF p] key DeleteRequest True n
      show "node_step (\<not> isl x) (DeleteReq b k) (node_of st) (node_of st2)" by simp
    qed (rule node_step.delete_nothing)
    with True DeleteRequest show ?thesis by simp
  next
    case False
    with run DeleteRequest have "st' = st \<and> isl x" by (auto simp: api_delete_object_def bindE_checkE split: sum.splits)
    with DeleteRequest show ?thesis by (auto intro: node_step.delete_nothing)
  qed
next
  case (GetRequest b k)
  with run have "api_get_object sv rq b k st = (x, st')" by simp
  then have "node_of st' = node_of st"
    using get_under_lock_node [of rq b k] key GetRequest
    by (auto simp: api_get_object_def bindE_checkE dest!: with_read_guard_node split: sum.splits)
  with GetRequest show ?thesis by simp
next
  case (HeadRequest b k)
  with run have "api_head_object sv rq b k st = (x, st')" by simp
  then have "node_of st' = node_of st"
    using head_under_lock_node [of b k]
    by (auto simp: api_head_object_def bindE_checkE dest!: with_read_guard_node split: sum.splits)
  with HeadRequest show ?thesis by simp
next
  case (ListRequest b q)
  with run api_list_objects_node show ?thesis by simp
qed

end

section \<open>Reading what was stored\<close>

definition get_response ::
  "('d, 'v, 'r, 'h) services \<Rightarrow> surroundings_of_request \<Rightarrow> ObjectMetadata \<Rightarrow> data \<Rightarrow> Response" where
  "get_response sv rq m d =
     \<lparr>rs_status = 200,
      rs_headers = [(''etag'', in_quotes (obj_etag m)), (''content-length'', u64_str (obj_size m)),
                    (''last-modified'', sv_http_date sv (obj_modified_at m)),
                    (''content-type'', content_type_or_default m),
                    (''x-storage-duration-ms'', nat_str (rq_elapsed_ms rq))],
      rs_body = Bytes d\<rparr>"

lemma use_storage_Inr: "op (as_storage st) (as_fs st) = (Inr y, r, s) \<Longrightarrow>
    use_storage g op st = (Inr y, st\<lparr>as_storage := r, as_fs := s\<rparr>)"
  by (simp add: use_storage_def)

context api_node
begin

lemma get_under_lock_result:
  assumes run: "get_under_lock sv rq b k st = (x, st')" and key: "storage_key b k \<in> keys" and b: "CHR ''/'' \<notin> set b"
    and m: "meta_of st (b, k) = Some m" and d: "data_of st (storage_key b k) = Some d" and nf: "fs_faults (as_fs st) = []"
  shows "\<forall>resp. x = Inr resp \<longrightarrow> resp = get_response sv rq m d"
  using run unfolding get_under_lock_def
proof (elim bindE_cases, goal_cases)
  case (4 u s1 m' s2 f s3)
  note q = ensure_read_consistency_quiet [OF 4(1)]
  have s2: "s2 = s1" "get_object_metadata E (as_metadata s1) b k = Inr m'"
    using 4(2) by (auto simp: read_metadata_def checkE_eq map_sum_cases)
  have "meta_of s1 (b, k) = Some m" using m quiet_views(1) [OF q] by simp
  then have "m' = m" using get_object_metadata_ok [OF s2(2)] b by (simp add: objects_of_def)
  moreover have "be_get_object (sv_backend sv) (as_storage s2) (as_fs s2) (storage_key b k) = (Inr d, as_storage s2, as_fs s2)"
    using be.get_ok [OF key] nf d quiet_views(3) [OF q] q s2(1) by (auto simp: quiet_def data_of_node_def restrict_map_def split: if_splits)
  then have "f = d" using 4(3) by (simp add: use_storage_def checkE_eq)
  ultimately show ?case using 4(4) by (auto simp: get_response_def returnE_def)
qed auto

text \<open>In eventual mode, with a store and a file system that do not fail, the read succeeds.\<close>

lemma get_under_lock_succeeds:
  assumes rel: "reliable_env E contents" and mode: "consistency_mode (sv_config sv) = Eventual"
    and key: "storage_key b k \<in> keys" "valid_key k" and b: "CHR ''/'' \<notin> set b"
    and m: "meta_of st (b, k) = Some m" and d: "data_of st (storage_key b k) = Some d" and nf: "fs_faults (as_fs st) = []"
  shows "\<exists>st'. get_under_lock sv rq b k st = (Inr (get_response sv rq m d), st')"
proof -
  have "get_object_metadata E (as_metadata st) b k = Inr m"
    using reliable_env.get_object_metadata_eq [OF rel key(2), of "as_metadata st" b m] m b by (simp add: objects_of_def split: if_splits)
  moreover have "be_get_object (sv_backend sv) (as_storage st) (as_fs st) (storage_key b k) = (Inr d, as_storage st, as_fs st)"
    using be.get_ok [OF key(1) nf] d by (auto simp: data_of_node_def restrict_map_def split: if_splits)
  ultimately show ?thesis
    by (simp add: get_under_lock_def ensure_read_consistency_def mode read_metadata_def use_storage_def get_response_def bindE_def)
qed

lemma put_success:
  assumes "api_put_object sv rq b k rd st = (Inr resp, st')" and "storage_key b k \<in> keys"
  shows "valid_bucket b \<and> valid_key k \<and> meta_of st' = (meta_of st)((b, k) \<mapsto> put_metadata sv rq b k (rd_bytes rd))
    \<and> data_of st' = (data_of st)(storage_key b k \<mapsto> rd_bytes rd)"
proof -
  have v: "valid_bucket b \<and> valid_key k"
    using assms(1) by (auto simp: api_put_object_def bindE_checkE split: sum.splits)
  with handle_object_step [of rq "PutRequest b k rd" st "Inr resp" st'] assms show ?thesis by simp
qed

lemma get_object_cases:
  assumes "api_get_object sv rq b k st = (x, st')" and "valid_bucket b" and "valid_key k"
  obtains e where "x = Inl e" "consistency_mode (sv_config sv) = Strong"
  | st1 st2 where "quiet st st1" "get_under_lock sv rq b k st1 = (x, st2)"
proof (cases "consistency_mode (sv_config sv) = Strong")
  case True
  with assms have "with_guard sv rq Read b k (get_under_lock sv rq b k) st = (x, st')"
    by (simp add: api_get_object_def bindE_checkE with_read_guard_def)
  then show thesis by (cases rule: with_guard_cases) (use that True in blast)+
next
  case False
  with assms have "get_under_lock sv rq b k st = (x, st')"
    by (simp add: api_get_object_def bindE_checkE with_read_guard_def)
  with that(2) [of st] show thesis by simp
qed

end

section \<open>Walking through the pages of a listing\<close>

text \<open>
  What a client does: ask for a page, and for the next one with the token of the answer (version 2)
  or with the last key as marker if the answer is marked as truncated (version 1).
\<close>

fun next_page :: "ListObjectsQuery \<Rightarrow> s3_document \<Rightarrow> ListObjectsQuery option" where
  "next_page q (ListV2Doc doc) =
     (case lb2_next_continuation_token doc of
        None \<Rightarrow> None
      | Some token \<Rightarrow> Some (q\<lparr>q_continuation_token := Some token\<rparr>))"
| "next_page q (ListDoc doc) =
     (if lb_is_truncated doc \<and> lb_contents doc \<noteq> []
      then Some (q\<lparr>q_marker := Some (oe_key (List.last (lb_contents doc)))\<rparr>) else None)"
| "next_page q _ = None"

fun page_entries :: "s3_document \<Rightarrow> ObjectEntry list" where
  "page_entries (ListV2Doc doc) = lb2_contents doc"
| "page_entries (ListDoc doc) = lb_contents doc"
| "page_entries _ = []"

fun walk_pages :: "nat \<Rightarrow> string \<Rightarrow> ListObjectsQuery \<Rightarrow> ObjectMetadata list \<Rightarrow> ObjectEntry list option" where
  "walk_pages 0 bucket q objects = None"
| "walk_pages (Suc n) bucket q objects =
     (let doc = list_document bucket q objects in
      case next_page q doc of
        None \<Rightarrow> Some (page_entries doc)
      | Some q' \<Rightarrow> map_option (\<lambda>es. page_entries doc @ es) (walk_pages n bucket q' objects))"

definition entry_of :: "ObjectMetadata \<Rightarrow> ObjectEntry" where
  "entry_of obj = object_entry (obj_key obj, obj_modified_at obj, obj_etag obj, obj_size obj)"

text \<open>The objects a query asks for, and the limit of its pages.\<close>

definition start_of :: "ListObjectsQuery \<Rightarrow> string option" where
  "start_of q = (if is_v2 q then q_continuation_token q else q_marker q)"

definition after_start :: "string option \<Rightarrow> ObjectMetadata list \<Rightarrow> ObjectMetadata list" where
  "after_start t objects = (case t of None \<Rightarrow> objects | Some t \<Rightarrow> filter (\<lambda>obj. t < obj_key obj) objects)"

definition page_limit :: "ListObjectsQuery \<Rightarrow> nat" where
  "page_limit q = min (case q_max_keys q of Some n \<Rightarrow> n | None \<Rightarrow> 1000) 1000"

lemma list_page_eq:
  "list_page q objects =
     (map (\<lambda>obj. (obj_key obj, obj_modified_at obj, obj_etag obj, obj_size obj))
        (take (page_limit q) (after_start (start_of q) objects)),
      page_limit q, page_limit q < length (after_start (start_of q) objects))"
  by (auto simp: list_page_def start_of_def after_start_def page_limit_def Let_def split: option.splits)

lemma page_entries_eq:
  "page_entries (list_document b q objects) = map entry_of (take (page_limit q) (after_start (start_of q) objects))"
  by (simp add: list_document_def list_page_eq ListBucketResultV2_new_def ListBucketResult_new_def entry_of_def Let_def comp_def)

lemma next_page_eq:
  assumes "0 < page_limit q"
  shows "next_page q (list_document b q objects) =
    (let ys = after_start (start_of q) objects in
     if page_limit q < length ys
     then Some (if is_v2 q then q\<lparr>q_continuation_token := Some (obj_key (ys ! (page_limit q - 1)))\<rparr>
                else q\<lparr>q_marker := Some (obj_key (ys ! (page_limit q - 1)))\<rparr>)
     else None)"
proof -
  let ?ys = "after_start (start_of q) objects"
  have ne: "take (page_limit q) ?ys \<noteq> []" if "page_limit q < length ?ys" using that assms by auto
  have l: "take (page_limit q) ?ys \<noteq> []" "last (take (page_limit q) ?ys) = ?ys ! (page_limit q - 1)"
    if "page_limit q < length ?ys"
    using that ne [OF that] assms last_conv_nth [OF ne [OF that]] by (simp_all add: min_def)
  have e: "oe_key (object_entry (k, t, g, z)) = k" for k t g z by (simp add: object_entry_def)
  show ?thesis
    using l assms
    by (auto simp: list_document_def list_page_eq ListBucketResultV2_new_def ListBucketResult_new_def Let_def last_map e)
qed

lemma filter_after_take:
  fixes f :: "'a \<Rightarrow> 'b :: linorder"
  assumes "sorted_wrt (<) (map f ys)" and "0 < n" and "n < length ys"
  shows "filter (\<lambda>y. f (ys ! (n - 1)) < f y) ys = drop n ys"
proof -
  have lt: "f (ys ! i) < f (ys ! j)" if "i < j" "j < length ys" for i j
    using assms(1) that by (simp add: sorted_wrt_iff_nth_less)
  have a: "filter (\<lambda>y. f (ys ! (n - 1)) < f y) (take n ys) = []"
  proof (rule filter_False, rule ballI)
    fix y assume "y \<in> set (take n ys)"
    then obtain i where "i < n" "y = ys ! i" using assms(3) by (auto simp: in_set_conv_nth)
    then have "i = n - 1 \<or> f (ys ! i) < f (ys ! (n - 1))" using lt [of i "n - 1"] assms(3) by linarith
    with \<open>y = ys ! i\<close> show "\<not> f (ys ! (n - 1)) < f y" by auto
  qed
  have b: "filter (\<lambda>y. f (ys ! (n - 1)) < f y) (drop n ys) = drop n ys"
  proof (rule filter_True, rule ballI)
    fix y assume "y \<in> set (drop n ys)"
    then obtain i where "i < length ys - n" "y = ys ! (n + i)" using assms(3) by (auto simp: in_set_conv_nth)
    with lt [of "n - 1" "n + i"] assms(2) show "f (ys ! (n - 1)) < f y" by simp
  qed
  show ?thesis using a b by (metis append_Nil append_take_drop_id filter_append)
qed

lemma after_start_step:
  assumes "sorted_wrt (<) (map obj_key objects)" and "0 < n" and "n < length (after_start t objects)"
  shows "after_start (Some (obj_key (after_start t objects ! (n - 1)))) objects = drop n (after_start t objects)"
proof -
  let ?ys = "after_start t objects" and ?k = "obj_key (after_start t objects ! (n - 1))"
  have s: "sorted_wrt (<) (map obj_key ?ys)"
    using assms(1) by (auto simp: after_start_def sorted_wrt_map intro: sorted_wrt_filter split: option.splits)
  have "?ys ! (n - 1) \<in> set ?ys" using assms(2,3) by simp
  then have "after_start (Some ?k) objects = filter (\<lambda>y. ?k < obj_key y) ?ys"
    by (cases t) (auto simp: after_start_def intro!: filter_cong)
  with filter_after_take [OF s assms(2,3)] show ?thesis by simp
qed

lemma walk_pages_ok:
  assumes "sorted_wrt (<) (map obj_key objects)" and "0 < page_limit q" and "length (after_start (start_of q) objects) < n"
  shows "walk_pages n b q objects = Some (map entry_of (after_start (start_of q) objects))"
  using assms(2,3)
proof (induction n arbitrary: q)
  case (Suc n)
  let ?ys = "after_start (start_of q) objects"
  show ?case
  proof (cases "page_limit q < length ?ys")
    case True
    define q' where "q' = (if is_v2 q then q\<lparr>q_continuation_token := Some (obj_key (?ys ! (page_limit q - 1)))\<rparr>
                else q\<lparr>q_marker := Some (obj_key (?ys ! (page_limit q - 1)))\<rparr>)"
    have st: "start_of q' = Some (obj_key (?ys ! (page_limit q - 1)))" and lim: "page_limit q' = page_limit q"
      by (auto simp: q'_def start_of_def is_v2_def page_limit_def)
    have ys': "after_start (start_of q') objects = drop (page_limit q) ?ys"
      unfolding st by (rule after_start_step [OF assms(1) Suc.prems(1) True])
    have "walk_pages n b q' objects = Some (map entry_of (drop (page_limit q) ?ys))"
      using Suc.IH [of q'] Suc.prems True lim ys' by auto
    moreover have "next_page q (list_document b q objects) = Some q'"
      using True by (simp add: next_page_eq [OF Suc.prems(1)] q'_def Let_def)
    ultimately show ?thesis by (simp add: page_entries_eq flip: map_append)
  qed (simp add: next_page_eq [OF Suc.prems(1)] page_entries_eq Let_def)
qed simp

section \<open>Properties\<close>

text \<open>A node for the examples: one member, the local backend, and a bucket.\<close>

definition node_sha :: "data \<Rightarrow> string" where
  "node_sha d = replicate 64 (if d = as_bytes ''photos/a'' then CHR ''1'' else CHR ''2'')"

definition node_keys :: "string set" where
  "node_keys = {''photos/a'', ''photos/b''}"

definition example_services :: "(mem_db, mem_value, ObjectStorage, TempObject) services" where
  "example_services =
     \<lparr>sv_env = mem_env, sv_raft = single_node mem_env 1, sv_backend = local_backend node_sha, sv_sha256 = node_sha,
      sv_config = \<lparr>data_path = [''data''], bind_address = ''localhost:9000'', consistency_mode = Eventual\<rparr>,
      sv_to_xml = (\<lambda>_. Inr ''xml''), sv_http_date = (\<lambda>_. ''date'')\<rparr>"

definition example_surroundings :: surroundings_of_request where
  "example_surroundings =
     \<lparr>rq_now_cache = 0, rq_now_insert = 0, rq_now_meta = 7, rq_elapsed_ms = 1, rq_attempts = 1, rq_upload_id = ''u1''\<rparr>"

definition example_state :: "(ObjectStorage, mem_db) AppState" where
  "example_state =
     AppState_with_storage example_storage example_fs (snd (create_bucket mem_env 0 mem_empty ''photos'')) 60"

lemma node_ids: "object_ids node_sha node_keys"
proof
  show "length (node_sha d) = 64" for d by (simp add: node_sha_def)
  have "as_bytes ''photos/a'' \<noteq> as_bytes ''photos/b''" by code_simp
  then show "k \<in> node_keys \<Longrightarrow> k' \<in> node_keys \<Longrightarrow> node_sha (as_bytes k) = node_sha (as_bytes k') \<Longrightarrow> k = k'" for k k'
    by (auto simp: node_sha_def node_keys_def)
  have "valid_key ''photos/a''" "valid_key ''photos/b''" by code_simp+
  then show "k \<in> node_keys \<Longrightarrow> valid_key k" for k by (auto simp: node_keys_def)
qed

interpretation ex_node: api_node example_services mem_contents "object_view_fs node_sha" "local_staged node_sha"
  local_root node_keys
  by (rule local_api_node [OF _ node_ids]) (simp_all add: example_services_def mem_single.raft_client_axioms)

text \<open>
  C1: What is stored is what is read. After a request to store an object has been answered with
  success, a request to fetch it that is answered with success delivers exactly the bytes of the
  first request, their hash as entity tag and their number as length. In eventual mode, when store
  and file system work, the fetch does succeed.
\<close>

theorem put_then_get:
  assumes "api_node sv contents view staged root keys" and "storage_key b k \<in> keys"
    and "api_put_object sv rq b k rd st = (Inr resp, st1)" and "fs_faults (as_fs st1) = []"
    and "api_get_object sv rq' b k st1 = (x, st2)"
  shows "(\<forall>resp'. x = Inr resp' \<longrightarrow> rs_body resp' = Bytes (rd_bytes rd)
      \<and> map_of (rs_headers resp') ''etag'' = Some (in_quotes (sv_sha256 sv (rd_bytes rd)))
      \<and> map_of (rs_headers resp') ''content-length'' = Some (nat_str (length (rd_bytes rd) mod 2 ^ 64)))
    \<and> (reliable_env (sv_env sv) contents \<longrightarrow> consistency_mode (sv_config sv) = Eventual \<longrightarrow> \<not> isl x)"
proof -
  let ?m = "put_metadata sv rq b k (rd_bytes rd)"
  from api_node.put_success [OF assms(1,3,2)] have v: "valid_bucket b" "valid_key k"
    and m: "objects_of sv contents st1 (b, k) = Some ?m" and d: "data_of_node view keys st1 (storage_key b k) = Some (rd_bytes rd)"
    by auto
  have r: "rs_body (get_response sv rq' ?m d) = Bytes d"
    "map_of (rs_headers (get_response sv rq' ?m d)) ''etag'' = Some (in_quotes (sv_sha256 sv (rd_bytes rd)))"
    "map_of (rs_headers (get_response sv rq' ?m d)) ''content-length'' = Some (nat_str (length (rd_bytes rd) mod 2 ^ 64))" for d
    by (simp_all add: get_response_def put_metadata_def ObjectMetadata_new_def u64_str_def unat_of_nat)
  show ?thesis
  proof (rule api_node.get_object_cases [OF assms(1,5) v])
    fix e assume "x = Inl e" "consistency_mode (sv_config sv) = Strong"
    then show ?thesis by simp
  next
    fix s1 s2 assume q: "api_node.quiet contents st1 s1" and g: "get_under_lock sv rq' b k s1 = (x, s2)"
    have n: "objects_of sv contents s1 (b, k) = Some ?m" "data_of_node view keys s1 (storage_key b k) = Some (rd_bytes rd)"
      using api_node.quiet_views [OF assms(1) q] m d by simp_all
    have nf: "fs_faults (as_fs s1) = []" using q assms(4) by (simp add: api_node.quiet_def [OF assms(1)])
    note b = valid_bucket_no_slash [OF v(1)]
    have "\<not> isl x" if "reliable_env (sv_env sv) contents" "consistency_mode (sv_config sv) = Eventual"
      using api_node.get_under_lock_succeeds [OF assms(1) that assms(2) v(2) b n nf, of rq'] g by auto
    with api_node.get_under_lock_result [OF assms(1) g assms(2) b n nf] r show ?thesis by auto
  qed
qed

abbreviation "example_body \<equiv> \<lparr>rd_bytes = [1, 2, 3], rd_end = Inr ()\<rparr>"

lemma example_put:
  obtains resp st1 where "api_put_object example_services example_surroundings ''photos'' ''a'' example_body example_state = (Inr resp, st1)"
    and "fs_faults (as_fs st1) = []"
proof -
  obtain x st1 where e: "api_put_object example_services example_surroundings ''photos'' ''a'' example_body example_state = (x, st1)"
    by fastforce
  have "case api_put_object example_services example_surroundings ''photos'' ''a'' example_body example_state of
      (x, st1) \<Rightarrow> \<not> isl x \<and> fs_faults (as_fs st1) = []" by code_simp
  with e that show thesis by (cases x) auto
qed

theorem put_then_get_witness:
  "\<exists>resp st1 resp' st2.
     api_put_object example_services example_surroundings ''photos'' ''a'' example_body example_state = (Inr resp, st1)
   \<and> api_get_object example_services example_surroundings ''photos'' ''a'' st1 = (Inr resp', st2)
   \<and> rs_body resp' = Bytes [1, 2, 3] \<and> map_of (rs_headers resp') ''content-length'' = Some ''3''"
proof -
  obtain resp st1 where p: "api_put_object example_services example_surroundings ''photos'' ''a'' example_body example_state = (Inr resp, st1)"
    and nf: "fs_faults (as_fs st1) = []" by (rule example_put)
  obtain x st2 where g: "api_get_object example_services example_surroundings ''photos'' ''a'' st1 = (x, st2)" by fastforce
  have k: "storage_key ''photos'' ''a'' \<in> node_keys" by (simp add: storage_key_def node_keys_def)
  have r: "reliable_env (sv_env example_services) mem_contents" "consistency_mode (sv_config example_services) = Eventual"
    by (simp_all add: example_services_def mem.reliable_env_axioms)
  have three: "nat_str (3 mod 2 ^ 64) = ''3''" by (simp add: nat_str.simps digit_char_0_9)
  from put_then_get [OF ex_node.api_node_axioms k p nf g] r p g three show ?thesis by (cases x) auto
qed

text \<open>
  C2: The handlers for objects refine the abstract node. Whatever fails (locks, store, Raft, file
  system, replicas, in any pattern), a request changes the objects and their contents as the
  abstract request allows, with the success it reports, and changes nothing else.
\<close>

theorem handlers_refine_node:
  assumes "api_node sv contents view staged root keys" and "handle_object sv rq r st = (x, st')"
    and "\<And>f. request_key r = Some f \<Longrightarrow> f \<in> keys"
  shows "node_step (\<not> isl x) (abstract_request sv rq r)
    (objects_of sv contents st, data_of_node view keys st) (objects_of sv contents st', data_of_node view keys st')"
  by (rule api_node.handle_object_step [OF assms])

theorem handlers_refine_node_witness:
  "\<exists>x st'. handle_object example_services example_surroundings (DeleteRequest ''photos'' ''b'') example_state = (x, st') \<and>
     node_step (\<not> isl x) (DeleteReq ''photos'' ''b'')
       (objects_of example_services mem_contents example_state, data_of_node (object_view_fs node_sha) node_keys example_state)
       (objects_of example_services mem_contents st', data_of_node (object_view_fs node_sha) node_keys st')"
proof -
  obtain x st' where h: "handle_object example_services example_surroundings (DeleteRequest ''photos'' ''b'') example_state = (x, st')"
    by fastforce
  have "f \<in> node_keys" if "request_key (DeleteRequest ''photos'' ''b'') = Some f" for f
    using that by (auto simp: storage_key_def node_keys_def)
  note n = handlers_refine_node [OF ex_node.api_node_axioms h this]
  have "valid_bucket ''photos''" by code_simp
  with n h show ?thesis by auto
qed

text \<open>
  C31: Listing in pages is complete. A client that follows the continuation tokens (or, in version 1,
  the markers) of a listing with a positive page size comes to an end after at most as many pages as
  there are objects plus one, and has then seen every object of the bucket with the prefix exactly
  once, in the order of the keys.
\<close>

theorem list_pages_complete:
  assumes "metadata_env E contents" and "objects_wf E (contents d CF_DEFAULT)" and "CHR ''/'' \<notin> set b"
    and "list_objects E d b (q_prefix q) = Inr objects" and "start_of q = None" and "q_max_keys q \<noteq> Some 0"
  shows "\<exists>es. walk_pages (Suc (length objects)) b q objects = Some es \<and> sorted (map oe_key es) \<and> distinct (map oe_key es)
    \<and> (\<forall>k. k \<in> oe_key ` set es \<longleftrightarrow> object_view E (contents d CF_DEFAULT) (b, k) \<noteq> None \<and> prefix (list_prefix (q_prefix q)) k)"
proof -
  from metadata_env.list_objects_ok [OF assms(1-4)] have l: "sorted (map obj_key objects)" "distinct (map obj_key objects)"
    and m: "\<And>x. x \<in> set objects \<longleftrightarrow> object_view E (contents d CF_DEFAULT) (b, obj_key x) = Some x \<and> prefix (list_prefix (q_prefix q)) (obj_key x)"
    by auto
  have key: "obj_key x = k" if "object_view E (contents d CF_DEFAULT) (b, k) = Some x" for k x
    using objects_wf_view [OF assms(2) that] assms(3) by auto
  have "sorted_wrt (<) (map obj_key objects)" "0 < page_limit q" "after_start (start_of q) objects = objects"
    using l assms(5,6) by (auto simp: after_start_def page_limit_def strict_sorted_iff split: option.splits)
  then have w: "walk_pages (Suc (length objects)) b q objects = Some (map entry_of objects)"
    using walk_pages_ok [of objects q "Suc (length objects)" b] by simp
  have e: "map oe_key (map entry_of objects) = map obj_key objects"
    by (simp add: entry_of_def object_entry_def comp_def)
  have "k \<in> oe_key ` set (map entry_of objects) \<longleftrightarrow>
      object_view E (contents d CF_DEFAULT) (b, k) \<noteq> None \<and> prefix (list_prefix (q_prefix q)) k" for k
  proof -
    have "oe_key ` set (map entry_of objects) = obj_key ` set objects" using e by (metis list.set_map)
    then show ?thesis using m key by (auto simp: image_iff) (metis key)+
  qed
  with w l show ?thesis by (intro exI [of _ "map entry_of objects"] conjI allI) (simp_all only: e)
qed

theorem list_pages_complete_witness:
  "let d = snd (put_object_metadata mem_env mem_empty (ObjectMetadata_new 1 ''photos'' ''a'' 10 ''e1''));
       q = \<lparr>q_prefix = None, q_marker = None, q_max_keys = Some 1, q_list_type = Some ''2'', q_continuation_token = None\<rparr>
   in \<exists>objects es. list_objects mem_env d ''photos'' None = Inr objects
     \<and> walk_pages (Suc (length objects)) ''photos'' q objects = Some es \<and> ''a'' \<in> oe_key ` set es"
proof -
  let ?d = "snd (put_object_metadata mem_env mem_empty (ObjectMetadata_new 1 ''photos'' ''a'' 10 ''e1''))"
  let ?q = "\<lparr>q_prefix = None, q_marker = None, q_max_keys = Some 1, q_list_type = Some ''2'', q_continuation_token = None\<rparr>"
  have v: "valid_key ''a''" by code_simp
  then have d: "?d = [(CF_DEFAULT, (''obj:photos/a'', VObject (ObjectMetadata_new 1 ''photos'' ''a'' 10 ''e1'')))]"
    by (simp add: put_object_metadata_def prepare_metadata_write_def mem_env_def mem_empty_def ObjectMetadata_new_def object_db_key_def Let_def)
  with v have wf: "objects_wf mem_env (mem_contents ?d CF_DEFAULT)"
    unfolding d by (auto simp: objects_wf_def mem_eval ObjectMetadata_new_def object_db_key_def split: if_splits)
  obtain objects where l: "list_objects mem_env ?d ''photos'' (q_prefix ?q) = Inr objects"
    using reliable_env.list_objects_total [OF mem_is_env(2) wf, of "''photos''" "q_prefix ?q"] by blast
  have s: "start_of ?q = None" "q_max_keys ?q \<noteq> Some 0" by (simp_all add: start_of_def is_v2_def)
  have "object_view mem_env (mem_contents ?d CF_DEFAULT) (''photos'', ''a'') \<noteq> None" "prefix (list_prefix (q_prefix ?q)) ''a''"
    unfolding d by (simp_all add: object_view_def mem_eval object_db_key_def list_prefix_def)
  moreover have "CHR ''/'' \<notin> set ''photos''" by simp
  ultimately show ?thesis
    using list_pages_complete [OF mem_is_env(1) wf _ l s] l unfolding Let_def by (metis select_convs(1))
qed

section \<open>A failure that mixes old and new\<close>

definition put_metadata_failed :: "MetadataError \<Rightarrow> ApiError" where
  "put_metadata_failed = internal_meta ''Metadata commit failed after storage commit - orphaned object may require GC: ''"

lemma bucket_error_not_put: "bucket_error ''Metadata error: '' b e' \<noteq> put_metadata_failed e"
  by (cases e') (simp_all add: bucket_error_def put_metadata_failed_def internal_meta_def)

lemma validate_bucket_exists_err:
  "validate_bucket_exists sv rq b st = (Inl e, st') \<Longrightarrow> \<exists>e'. e = bucket_error ''Metadata error: '' b e'"
  by (auto simp: validate_bucket_exists_def read_metadata_def checkE_eq map_sum_cases elim!: bindE_cases split: if_splits)

context api_node
begin

lemma put_under_lock_metadata_failed:
  assumes run: "put_under_lock sv rq b k rd st = (Inl (put_metadata_failed e), st')" and key: "storage_key b k \<in> keys"
    and b: "CHR ''/'' \<notin> set b"
  shows "data_of st' = (data_of st)(storage_key b k \<mapsto> rd_bytes rd)"
  using run unfolding put_under_lock_def HashingReader_finalize_def Let_def prod.case
proof (elim bindE_cases, goal_cases)
  case (1 e')
  with validate_bucket_exists_err [OF 1(1)] show ?case by (metis Inl_inject bucket_error_not_put)
next
  case (2 u s1 e')
  have "e' \<notin> range (internal_storage ''Storage error: '')" "e' \<notin> range (internal_storage ''Storage commit failed: '')"
    using 2(3) by (auto simp: put_metadata_failed_def internal_meta_def internal_storage_def)
  with store_and_publish_step [OF 2(2) key b] quiet_node [OF validate_bucket_exists_quiet [OF 2(1)]] show ?case
    by (simp add: ObjectMetadata_new_def)
qed (simp add: returnE_def)

lemma put_metadata_failed_data:
  assumes "api_put_object sv rq b k rd st = (Inl (put_metadata_failed e), st')" and key: "storage_key b k \<in> keys"
  shows "valid_bucket b \<and> valid_key k \<and> data_of st' = (data_of st)(storage_key b k \<mapsto> rd_bytes rd)"
proof -
  have v: "valid_bucket b \<and> valid_key k"
    using assms(1) by (auto simp: api_put_object_def bindE_checkE invalid_name_def put_metadata_failed_def internal_meta_def
        split: sum.splits)
  with assms(1) have "bindE (acquire_guard sv rq Write b k)
      (\<lambda>holder st. case put_under_lock sv rq b k rd st of (x, st') \<Rightarrow> (x, drop_guard sv b k holder st')) st
      = (Inl (put_metadata_failed e), st')"
    by (simp add: api_put_object_def bindE_checkE with_guard_def)
  then show ?thesis
  proof (cases rule: bindE_cases)
    case (1 e')
    then show ?thesis
      by (auto simp: acquire_guard_def checkE_eq put_metadata_failed_def internal_meta_def map_sum_cases split: prod.splits)
  next
    case (2 h s1)
    then obtain s2 where p: "put_under_lock sv rq b k rd s1 = (Inl (put_metadata_failed e), s2)" and d: "st' = drop_guard sv b k h s2"
      by (auto split: prod.splits)
    from put_under_lock_metadata_failed [OF p key] v quiet_node [OF acquire_guard_quiet [OF 2(1)]]
      quiet_node [OF drop_guard_quiet [where st = s2 and b = b and k = k and h = h]] d show ?thesis by simp
  qed
qed

end

text \<open>
  When the metadata cannot be replicated after the contents have been committed, an object that
  existed before is from then on served with the new bytes under the old entity tag, length and date.
\<close>

theorem failed_put_serves_mixture:
  assumes node: "api_node sv contents view staged root keys" and rel: "reliable_env (sv_env sv) contents"
    and mode: "consistency_mode (sv_config sv) = Eventual" and key: "storage_key b k \<in> keys"
    and put: "api_put_object sv rq b k rd st = (Inl (put_metadata_failed e), st1)"
    and m: "objects_of sv contents st1 (b, k) = Some m" and nf: "fs_faults (as_fs st1) = []"
  shows "\<exists>st2. api_get_object sv rq' b k st1 = (Inr (get_response sv rq' m (rd_bytes rd)), st2)"
proof -
  from api_node.put_metadata_failed_data [OF node put key] have v: "valid_bucket b" "valid_key k"
    and d: "data_of_node view keys st1 (storage_key b k) = Some (rd_bytes rd)" by auto
  from api_node.get_under_lock_succeeds [OF node rel mode key v(2) valid_bucket_no_slash [OF v(1)] m d nf, of rq'] v mode
  show ?thesis by (simp add: api_get_object_def bindE_checkE with_read_guard_def)
qed

end
