(* ===== verification/Api_Bucket.thy ===== *)
theory Api_Bucket
  imports Api_Object
begin

text \<open>
  The handlers for buckets, \<open>crates/save-api/src/handlers/bucket\<close>: creating, deleting, testing and
  listing. A bucket is deleted only if the listing of its objects is empty.
\<close>

section \<open>Handlers\<close>

definition create_error :: "string \<Rightarrow> MetadataError \<Rightarrow> ApiError" where
  "create_error bucket e =
     (case e of
        BucketAlreadyExists _ \<Rightarrow> ApiBucketAlreadyExists bucket
      | _ \<Rightarrow> internal_meta ''Failed to create bucket: '' e)"

definition api_create_bucket ::
  "('d, 'v, 'r, 'h) services \<Rightarrow> surroundings_of_request \<Rightarrow> string \<Rightarrow> ('r, 'd) AppState
    \<Rightarrow> (ApiError + Response) \<times> ('r, 'd) AppState" where
  "api_create_bucket sv rq bucket =
     bindE (checkE invalid_name (validate_bucket_name bucket)) (\<lambda>_ st.
     if \<not> isl (get_bucket (sv_env sv) (as_metadata st) bucket) then failE (ApiBucketAlreadyExists bucket) st
     else
       bindE (raft_submit sv (create_error bucket) (CreateBucket (Bucket_new (rq_now_meta rq) bucket))) (\<lambda>_ st.
       returnE \<lparr>rs_status = 200, rs_headers = [(''location'', ''/'' @ bucket)], rs_body = NoBody\<rparr>
         (st\<lparr>as_bucket_cache := cache_insert (rq_now_insert rq) (as_bucket_cache st) bucket\<rparr>)) st)"

definition api_delete_bucket ::
  "('d, 'v, 'r, 'h) services \<Rightarrow> string \<Rightarrow> ('r, 'd) AppState \<Rightarrow> (ApiError + Response) \<times> ('r, 'd) AppState" where
  "api_delete_bucket sv bucket =
     bindE (checkE invalid_name (validate_bucket_name bucket)) (\<lambda>_.
     bindE (read_metadata (bucket_error ''Failed to get bucket: '' bucket) (\<lambda>d. get_bucket (sv_env sv) d bucket)) (\<lambda>_.
     bindE (read_metadata (internal_meta ''Failed to list objects: '') (\<lambda>d. list_objects (sv_env sv) d bucket None)) (\<lambda>objects.
     if objects \<noteq> [] then failE (ApiBucketNotEmpty bucket)
     else
       bindE (raft_submit sv (internal_meta ''Failed to delete bucket: '') (DeleteBucket bucket)) (\<lambda>_ st.
       returnE \<lparr>rs_status = 204, rs_headers = [], rs_body = NoBody\<rparr>
         (st\<lparr>as_bucket_cache := cache_remove (as_bucket_cache st) bucket\<rparr>)))))"

definition api_head_bucket ::
  "('d, 'v, 'r, 'h) services \<Rightarrow> string \<Rightarrow> ('r, 'd) AppState \<Rightarrow> (ApiError + Response) \<times> ('r, 'd) AppState" where
  "api_head_bucket sv bucket =
     bindE (checkE invalid_name (validate_bucket_name bucket)) (\<lambda>_.
     bindE (ensure_read_consistency sv) (\<lambda>_.
     bindE (read_metadata (bucket_error ''Failed to check bucket: '' bucket) (\<lambda>d. get_bucket (sv_env sv) d bucket)) (\<lambda>_.
     returnE \<lparr>rs_status = 200, rs_headers = [(''content-length'', ''0'')], rs_body = NoBody\<rparr>)))"

definition api_list_buckets ::
  "('d, 'v, 'r, 'h) services \<Rightarrow> ('r, 'd) AppState \<Rightarrow> (ApiError + Response) \<times> ('r, 'd) AppState" where
  "api_list_buckets sv =
     bindE (ensure_read_consistency sv) (\<lambda>_.
     bindE (read_metadata (internal_meta ''Failed to list buckets: '') (\<lambda>d. list_buckets (sv_env sv) d)) (\<lambda>buckets.
     respond_xml sv (BucketsDoc (ListAllMyBucketsResult_new
       (map (\<lambda>b. (bkt_name b, bkt_created_at b)) buckets) ''test-access-key''))))"

section \<open>Effects\<close>

lemma failE_eq [simp]: "failE e st = (x, st') \<longleftrightarrow> x = Inl e \<and> st' = st"
  by (auto simp: failE_def)

lemma cache_remove_contains [simp]: "\<not> cache_contains now (cache_remove c b) b"
  by (simp add: cache_contains_def cache_remove_def delete_conv')

context api_node
begin

text \<open>Changing the entry of a bucket changes no object.\<close>

lemma bucket_entry_objects:
  assumes "\<And>k. k \<noteq> bucket_key n \<Longrightarrow> contents d' CF_DEFAULT k = contents d CF_DEFAULT k"
  shows "object_view E (contents d' CF_DEFAULT) = object_view E (contents d CF_DEFAULT)"
  using assms by (auto simp: fun_eq_iff object_view_def)

lemma submit_delete_bucket:
  assumes run: "raft_submit sv g (DeleteBucket b) st = (x, st')"
  shows "node_of st' = node_of st \<and> (x = Inr () \<longrightarrow> buckets_of st' = (buckets_of st)(b := None))"
proof -
  let ?F = "\<lambda>c. c(CF_DEFAULT := (c CF_DEFAULT)(bucket_key b := None))"
  from raft_submit_eq [OF run] obtain y d where r: "raft_do (DeleteBucket b) (as_metadata st) = (y, d)"
    and st': "st' = st\<lparr>as_metadata := d\<rparr>" and x: "x = map_sum g id y" by blast
  have eff: "True \<and> contents d'' = ?F (contents d)" if "apply_command E now d (DeleteBucket b) = (Inr (), d'')" for now d d''
  proof -
    from that obtain z where "delete_bucket E d b = (z, d'')" "z = Inr ()"
      by (cases "delete_bucket E d b") (auto elim: apply_result.elims)
    then show ?thesis using delete_bucket_ok [of d b "()" d''] by auto
  qed
  from raft_effect [where F = ?F and A = True, OF eff _ r] have e: "(y = Inr () \<longrightarrow> contents d = ?F (contents (as_metadata st)))
    \<and> (contents d = contents (as_metadata st) \<or> contents d = ?F (contents (as_metadata st)))" by simp
  have "object_view E (contents d CF_DEFAULT) = object_view E (contents (as_metadata st) CF_DEFAULT)"
    by (rule bucket_entry_objects [of b]) (use e in auto)
  moreover have "x = Inr () \<longrightarrow> buckets_of st' = (buckets_of st)(b := None)"
    using e x st' by (auto simp: bucket_view_def fun_eq_iff map_sum_cases)
  ultimately show ?thesis using st' by (simp add: objects_of_def data_of_node_def fun_eq_iff)
qed

lemma submit_create_bucket:
  assumes run: "raft_submit sv g (CreateBucket bk) st = (x, st')"
  shows "node_of st' = node_of st \<and> (x = Inr () \<longrightarrow> buckets_of st' (bkt_name bk) \<noteq> None)
    \<and> (\<forall>n. n \<noteq> bkt_name bk \<longrightarrow> buckets_of st' n = buckets_of st n)"
proof -
  let ?n = "bkt_name bk"
  let ?J = "\<lambda>e. \<forall>k. k \<noteq> bucket_key ?n \<longrightarrow> contents e CF_DEFAULT k = contents (as_metadata st) CF_DEFAULT k"
  let ?Q = "\<lambda>e. bucket_view E (contents e CF_DEFAULT) ?n \<noteq> None"
  from raft_submit_eq [OF run] obtain y d where r: "raft_do (CreateBucket bk) (as_metadata st) = (y, d)"
    and st': "st' = st\<lparr>as_metadata := d\<rparr>" and x: "x = map_sum g id y" by blast
  have ap: "?J e \<Longrightarrow> ?J e'' \<and> ?Q e''" if c: "apply_command E now e (CreateBucket bk) = (Inr (), e'')" for now e e''
  proof -
    from c obtain z where "create_bucket E now e ?n = (Inr z, e'')"
      by (cases "create_bucket E now e ?n") (auto elim!: apply_result.elims)
    from create_bucket_ok [OF this] codec_okD [OF bucket_codec_ok] show "?J e \<Longrightarrow> ?J e'' \<and> ?Q e''"
      by (auto simp: bucket_view_def)
  qed
  have "?J d \<and> (y = Inr () \<longrightarrow> ?Q d)"
  proof (rule write_loop_rule [where J = ?J and Q = ?Q])
    show "?J (as_metadata st)" by simp
    show "write_loop (client_write (sv_raft sv)) (await_leader (sv_raft sv)) (leader_http_addr (sv_raft sv))
        (raft_node_id (sv_raft sv)) (CreateBucket bk) 5 0 None (as_metadata st) = (y, d)"
      using r by (simp add: raft_write_def write_with_retry_def)
    show "?J s' \<and> (w = Written \<longrightarrow> ?Q s')" if "?J s" "client_write (sv_raft sv) s (CreateBucket bk) = (w, s')" for s w s'
      using not_written [OF that(2)] written [of s "CreateBucket bk" s'] that ap by (cases w) force+
    show "?J s'" if "?J s" "await_leader (sv_raft sv) s = (w, s')" for s w s'
      using that await_same [OF that(2)] by simp
  qed
  then have j: "\<And>k. k \<noteq> bucket_key ?n \<Longrightarrow> contents d CF_DEFAULT k = contents (as_metadata st) CF_DEFAULT k"
    and q: "y = Inr () \<longrightarrow> ?Q d" by auto
  have "buckets_of st' n = buckets_of st n" if "n \<noteq> ?n" for n
    using j [of "bucket_key n"] that st' by (simp add: bucket_view_def bucket_key_def)
  with bucket_entry_objects [of ?n d "as_metadata st", OF j] q x st' show ?thesis
    by (auto simp: objects_of_def data_of_node_def fun_eq_iff map_sum_cases)
qed

end

text \<open>The requests for buckets; none of them changes an object.\<close>

datatype bucket_request = CreateBucketRequest string | DeleteBucketRequest string | HeadBucketRequest string | ListBucketsRequest

fun handle_bucket ::
  "('d, 'v, 'r, 'h) services \<Rightarrow> surroundings_of_request \<Rightarrow> bucket_request \<Rightarrow> ('r, 'd) AppState
    \<Rightarrow> (ApiError + Response) \<times> ('r, 'd) AppState" where
  "handle_bucket sv rq (CreateBucketRequest b) = api_create_bucket sv rq b"
| "handle_bucket sv rq (DeleteBucketRequest b) = api_delete_bucket sv b"
| "handle_bucket sv rq (HeadBucketRequest b) = api_head_bucket sv b"
| "handle_bucket sv rq ListBucketsRequest = api_list_buckets sv"

context api_node
begin

lemma node_of_cache [simp]:
  "meta_of (st\<lparr>as_bucket_cache := c\<rparr>) = meta_of st" "data_of (st\<lparr>as_bucket_cache := c\<rparr>) = data_of st"
  by (simp_all add: objects_of_def data_of_node_def fun_eq_iff)

lemma api_create_bucket_node: "api_create_bucket sv rq b st = (x, st') \<Longrightarrow> node_of st' = node_of st"
  unfolding api_create_bucket_def
  by (elim bindE_cases)
    (auto simp: checkE_eq elim!: bindE_cases dest!: submit_create_bucket split: if_splits)

lemma api_delete_bucket_node: "api_delete_bucket sv b st = (x, st') \<Longrightarrow> node_of st' = node_of st"
  unfolding api_delete_bucket_def
  by (elim bindE_cases)
    (auto simp: checkE_eq elim!: bindE_cases dest!: submit_delete_bucket read_metadata_quiet split: if_splits)

lemma handle_bucket_node:
  assumes "handle_bucket sv rq r st = (x, st')"
  shows "node_of st' = node_of st"
proof (cases r)
  case (HeadBucketRequest b)
  with assms show ?thesis
    by (auto simp: api_head_bucket_def checkE_eq elim!: bindE_cases
        dest!: quiet_node [OF ensure_read_consistency_quiet] read_metadata_quiet)
next
  case ListBucketsRequest
  with assms show ?thesis
    by (auto simp: api_list_buckets_def respond_xml_def checkE_eq elim!: bindE_cases
        dest!: quiet_node [OF ensure_read_consistency_quiet] read_metadata_quiet)
qed (use assms api_create_bucket_node api_delete_bucket_node in auto)

lemma api_delete_bucket_ok:
  assumes "api_delete_bucket sv b st = (Inr resp, st')"
  shows "valid_bucket b \<and> list_objects E (as_metadata st) b None = Inr [] \<and> buckets_of st b \<noteq> None
    \<and> buckets_of st' = (buckets_of st)(b := None) \<and> \<not> cache_contains now (as_bucket_cache st') b"
  using assms unfolding api_delete_bucket_def
proof (elim bindE_cases, goal_cases)
  case (4 u s1 bk s2 objects s3)
  have e: "valid_bucket b" "s1 = st" "s2 = st" "s3 = st" "get_bucket E (as_metadata st) b = Inr bk"
    "list_objects E (as_metadata st) b None = Inr objects"
    using 4(1-3) by (auto simp: read_metadata_def checkE_eq map_sum_cases)
  with 4(4) have o: "objects = []" and r: "bindE (raft_submit sv (internal_meta ''Failed to delete bucket: '') (DeleteBucket b)) (\<lambda>_ st.
       returnE \<lparr>rs_status = 204, rs_headers = [], rs_body = NoBody\<rparr>
         (st\<lparr>as_bucket_cache := cache_remove (as_bucket_cache st) b\<rparr>)) st = (Inr resp, st')"
    by (auto split: if_splits)
  from r obtain s4 where "raft_submit sv (internal_meta ''Failed to delete bucket: '') (DeleteBucket b) st = (Inr (), s4)"
    "st' = s4\<lparr>as_bucket_cache := cache_remove (as_bucket_cache s4) b\<rparr>"
    by (auto simp: bindE_Inr_iff returnE_def)
  with submit_delete_bucket [OF this(1)] e o get_bucket_ok [OF e(5)] show ?case by simp
qed simp_all

end

section \<open>Properties\<close>

text \<open>
  C32: Only empty buckets are deleted. If deleting a bucket succeeds, the bucket existed and no object
  of the store was in it; afterwards it is gone from the store and from the cache of the node, and
  all other buckets, all objects and all contents are as before.
\<close>

theorem deleted_bucket_was_empty:
  assumes "api_node sv contents view staged root keys" and "objects_wf (sv_env sv) (contents (as_metadata st) CF_DEFAULT)"
    and "api_delete_bucket sv b st = (Inr resp, st')"
  shows "bucket_view (sv_env sv) (contents (as_metadata st) CF_DEFAULT) b \<noteq> None
    \<and> (\<forall>k. objects_of sv contents st (b, k) = None)
    \<and> bucket_view (sv_env sv) (contents (as_metadata st') CF_DEFAULT)
        = (bucket_view (sv_env sv) (contents (as_metadata st) CF_DEFAULT))(b := None)
    \<and> \<not> cache_contains now (as_bucket_cache st') b
    \<and> objects_of sv contents st' = objects_of sv contents st \<and> data_of_node view keys st' = data_of_node view keys st"
proof -
  note d = api_node.api_delete_bucket_ok [OF assms(1,3), of now]
  note n = api_node.api_delete_bucket_node [OF assms(1,3)]
  have env: "metadata_env (sv_env sv) contents"
    using assms(1) by (simp add: api_node_def raft_client_def)
  have b: "CHR ''/'' \<notin> set b" using d by simp
  have "objects_of sv contents st (b, k) = None" for k
  proof (rule ccontr)
    assume "objects_of sv contents st (b, k) \<noteq> None"
    then obtain m where m: "object_view (sv_env sv) (contents (as_metadata st) CF_DEFAULT) (b, k) = Some m"
      by (auto simp: objects_of_def split: if_splits)
    with objects_wf_view [OF assms(2) m b] metadata_env.list_objects_ok [OF env assms(2) b, of None "[]"] d
    show False by (auto simp: list_prefix_def)
  qed
  with d n show ?thesis by simp
qed

theorem deleted_bucket_was_empty_witness:
  "\<exists>resp st'. api_delete_bucket example_services ''photos'' example_state = (Inr resp, st')
   \<and> bucket_view mem_env (mem_contents (as_metadata st') CF_DEFAULT) ''photos'' = None"
proof -
  obtain x st' where e: "api_delete_bucket example_services ''photos'' example_state = (x, st')" by fastforce
  have "case api_delete_bucket example_services ''photos'' example_state of (x, st') \<Rightarrow> \<not> isl x" by code_simp
  with e obtain resp where r: "api_delete_bucket example_services ''photos'' example_state = (Inr resp, st')" by (cases x) auto
  have m: "as_metadata example_state = [(CF_DEFAULT, (''bkt:photos'', VBucket (Bucket_new 0 ''photos'')))]" by code_simp
  have "objects_wf (sv_env example_services) (mem_contents (as_metadata example_state) CF_DEFAULT)"
    unfolding m by (auto simp: objects_wf_def mem_contents_def mem_cf_def split: if_splits)
  from deleted_bucket_was_empty [OF ex_node.api_node_axioms this r] r show ?thesis by (auto simp: example_services_def)
qed

end
