(* ===== verification/Api_Multipart.thy ===== *)
theory Api_Multipart
  imports Api_Bucket
begin

text \<open>
  The handlers for multipart uploads, \<open>crates/save-api/src/handlers/multipart\<close>. The parts of an
  upload are files in a directory of their own below the data directory, beside the metadata of
  \<open>Meta_Multipart\<close>. Completing concatenates them in a temporary file and stores that as an object;
  from the creation of the temporary file on, a guard removes it and all parts on every failure.
  An upload identifier names one directory: identifiers are generated by the server and contain no
  separator.
\<close>

section \<open>Paths and copying\<close>

definition parts_dir :: "path \<Rightarrow> string \<Rightarrow> path" where
  "parts_dir base upload_id = base @ [''temp'', ''parts'', upload_id]"

definition part_path :: "path \<Rightarrow> string \<Rightarrow> u32 \<Rightarrow> path" where
  "part_path base upload_id n = parts_dir base upload_id @ [nat_str (unat n)]"

definition complete_path :: "path \<Rightarrow> string \<Rightarrow> path" where
  "complete_path base upload_id = base @ [''temp'', ''complete-'' @ upload_id]"

definition MAX_PART_SIZE :: u64 where
  "MAX_PART_SIZE = 5368709120"

text \<open>The loop of \<open>upload_part\<close>: the body goes to the file in blocks while the size is checked.\<close>

function receive_part :: "reader \<Rightarrow> path \<Rightarrow> u64 \<Rightarrow> fs \<Rightarrow> (ApiError + u64) \<times> fs" where
  "receive_part rd p sz s =
     (if rd_bytes rd = [] then
        (case rd_end rd of Inl e \<Rightarrow> (Inl (internal_io ''I/O error: '' e), s) | Inr _ \<Rightarrow> (Inr sz, s))
      else
        (let chunk = take 8192 (rd_bytes rd); sz = sz + of_nat (length chunk) in
         if sz > MAX_PART_SIZE then
           (Inl (InvalidRequest (''Part size exceeds maximum of '' @ u64_str MAX_PART_SIZE @ '' bytes (5GB)'')), s)
         else
           (case file_write s p chunk of
              (Inl e, s') \<Rightarrow> (Inl (internal_io ''Storage error: '' e), s')
            | (Inr _, s') \<Rightarrow> receive_part (rd\<lparr>rd_bytes := drop 8192 (rd_bytes rd)\<rparr>) p sz s')))"
  by pat_completeness auto
termination
  by (relation "measure (\<lambda>(rd, _). length (rd_bytes rd))") auto

declare receive_part.simps [simp del]

text \<open>Short blocks are recognised without counting to the size of the buffer when examples are evaluated.\<close>

lemma receive_part_code [code]:
  "receive_part rd p sz s =
     (if rd_bytes rd = [] then
        (case rd_end rd of Inl e \<Rightarrow> (Inl (internal_io ''I/O error: '' e), s) | Inr _ \<Rightarrow> (Inr sz, s))
      else
        (let (chunk, rest) = (if drop 16 (rd_bytes rd) = [] then (rd_bytes rd, []) else (take 8192 (rd_bytes rd), drop 8192 (rd_bytes rd)));
             sz = sz + of_nat (length chunk) in
         if sz > MAX_PART_SIZE then
           (Inl (InvalidRequest (''Part size exceeds maximum of '' @ u64_str MAX_PART_SIZE @ '' bytes (5GB)'')), s)
         else
           (case file_write s p chunk of
              (Inl e, s') \<Rightarrow> (Inl (internal_io ''Storage error: '' e), s')
            | (Inr _, s') \<Rightarrow> receive_part (rd\<lparr>rd_bytes := rest\<rparr>) p sz s')))"
  by (subst receive_part.simps, cases "drop 16 (rd_bytes rd) = []") (auto simp: Let_def split: prod.splits sum.splits)

text \<open>The loop of \<open>complete_multipart\<close> over the blocks of one part.\<close>

function copy_part :: "u32 \<Rightarrow> data \<Rightarrow> path \<Rightarrow> fs \<Rightarrow> (ApiError + unit) \<times> fs" where
  "copy_part n d p s =
     (case next_fault s of
        (Some _, s') \<Rightarrow> (Inl (Internal (''I/O error reading part '' @ nat_str (unat n))), s')
      | (None, s') \<Rightarrow>
        if d = [] then (Inr (), s')
        else
          (case file_write s' p (take 65536 d) of
             (Inl e, s'') \<Rightarrow> (Inl (internal_io ''Storage error: '' e), s'')
           | (Inr _, s'') \<Rightarrow> copy_part n (drop 65536 d) p s''))"
  by pat_completeness auto
termination
  by (relation "measure (\<lambda>(_, d, _). length d)") auto

declare copy_part.simps [simp del]

lemma copy_part_code [code]:
  "copy_part n d p s =
     (case next_fault s of
        (Some _, s') \<Rightarrow> (Inl (Internal (''I/O error reading part '' @ nat_str (unat n))), s')
      | (None, s') \<Rightarrow>
        if d = [] then (Inr (), s')
        else if drop 16 d = [] then
          (case file_write s' p d of
             (Inl e, s'') \<Rightarrow> (Inl (internal_io ''Storage error: '' e), s'')
           | (Inr _, s'') \<Rightarrow> copy_part n [] p s'')
        else
          (case file_write s' p (take 65536 d) of
             (Inl e, s'') \<Rightarrow> (Inl (internal_io ''Storage error: '' e), s'')
           | (Inr _, s'') \<Rightarrow> copy_part n (drop 65536 d) p s''))"
  by (subst copy_part.simps, cases "next_fault s", cases "drop 16 d = []") (auto split: option.splits prod.splits sum.splits)

text \<open>The loop over the parts; the result is all that went through the hasher.\<close>

fun copy_parts :: "path \<Rightarrow> string \<Rightarrow> u32 list \<Rightarrow> path \<Rightarrow> fs \<Rightarrow> (ApiError + data) \<times> fs" where
  "copy_parts base upload_id [] p s = (Inr [], s)"
| "copy_parts base upload_id (n # ns) p s =
     (case file_open s (part_path base upload_id n) of
        (Inl _, s1) \<Rightarrow> (Inl (Internal (''Missing part '' @ nat_str (unat n))), s1)
      | (Inr d, s1) \<Rightarrow>
        (case copy_part n d p s1 of
           (Inl e, s2) \<Rightarrow> (Inl e, s2)
         | (Inr _, s2) \<Rightarrow>
           (case copy_parts base upload_id ns p s2 of
              (Inl e, s3) \<Rightarrow> (Inl e, s3)
            | (Inr ds, s3) \<Rightarrow> (Inr (d @ ds), s3))))"

text \<open>Opening a file for a reader, which may fail on the way.\<close>

definition open_reader :: "fs \<Rightarrow> path \<Rightarrow> (IoError + reader) \<times> fs" where
  "open_reader s p =
     (case file_open s p of
        (Inl e, s1) \<Rightarrow> (Inl e, s1)
      | (Inr d, s1) \<Rightarrow>
        (case next_fault s1 of
           (Some (e, n), s2) \<Rightarrow> (Inr \<lparr>rd_bytes = take n d, rd_end = Inl e\<rparr>, s2)
         | (None, s2) \<Rightarrow> (Inr \<lparr>rd_bytes = d, rd_end = Inr ()\<rparr>, s2)))"

text \<open>The keys of the map of parts in their order.\<close>

definition part_numbers :: "MultipartUpload \<Rightarrow> u32 list" where
  "part_numbers upload = sorted_list_of_set (dom (mpu_parts upload))"

section \<open>Handlers\<close>

definition run_fs ::
  "(fs \<Rightarrow> (ApiError + 'a) \<times> fs) \<Rightarrow> ('r, 'd) AppState \<Rightarrow> (ApiError + 'a) \<times> ('r, 'd) AppState" where
  "run_fs op st = (case op (as_fs st) of (x, s) \<Rightarrow> (x, st\<lparr>as_fs := s\<rparr>))"

definition on_fs :: "(fs \<Rightarrow> fs) \<Rightarrow> ('r, 'd) AppState \<Rightarrow> ('r, 'd) AppState" where
  "on_fs f st = st\<lparr>as_fs := f (as_fs st)\<rparr>"

definition upload_error :: "string \<Rightarrow> MetadataError \<Rightarrow> ApiError" where
  "upload_error upload_id e =
     (case e of
        MultipartUploadNotFound _ \<Rightarrow> InvalidRequest (''Upload ID not found: '' @ upload_id)
      | _ \<Rightarrow> internal_meta ''Metadata error: '' e)"

definition api_initiate_multipart ::
  "('d, 'v, 'r, 'h) services \<Rightarrow> surroundings_of_request \<Rightarrow> string \<Rightarrow> string \<Rightarrow> string option \<Rightarrow> ('r, 'd) AppState
    \<Rightarrow> (ApiError + Response) \<times> ('r, 'd) AppState" where
  "api_initiate_multipart sv rq bucket key content_type =
     bindE (checkE invalid_name (validate_bucket_name bucket)) (\<lambda>_.
     bindE (checkE invalid_name (validate_object_key key)) (\<lambda>_.
     bindE (validate_bucket_exists sv rq bucket) (\<lambda>_.
     bindE (write_metadata (internal_meta ''Metadata error: '')
              (\<lambda>d. initiate_multipart_upload (sv_env sv) (rq_now_meta rq) d bucket key (rq_upload_id rq) content_type)) (\<lambda>_.
     bindE (use_fs (internal_io ''Storage error: '')
              (\<lambda>s. create_dir_all s (parts_dir (data_path (sv_config sv)) (rq_upload_id rq)))) (\<lambda>_.
     respond_xml sv (InitiateDoc (InitiateMultipartUploadResult_new bucket key (rq_upload_id rq))))))))"

definition api_upload_part ::
  "('d, 'v, 'r, 'h) services \<Rightarrow> string \<Rightarrow> string \<Rightarrow> string \<Rightarrow> u32 \<Rightarrow> reader \<Rightarrow> ('r, 'd) AppState
    \<Rightarrow> (ApiError + Response) \<times> ('r, 'd) AppState" where
  "api_upload_part sv bucket key upload_id n rd =
     bindE (checkE invalid_name (validate_bucket_name bucket)) (\<lambda>_.
     bindE (checkE invalid_name (validate_object_key key)) (\<lambda>_.
     if n = 0 \<or> n > 10000 then
       failE (InvalidRequest ''Part number must be between 1 and 10000'')
     else
     bindE (read_metadata (upload_error upload_id) (\<lambda>d. get_multipart_upload (sv_env sv) d bucket key upload_id)) (\<lambda>_.
     let part_file_path = part_path (data_path (sv_config sv)) upload_id n in
     bindE (use_fs (internal_io ''Storage error: '') (\<lambda>s. file_create s part_file_path)) (\<lambda>_.
     bindE (run_fs (receive_part rd part_file_path 0)) (\<lambda>sz.
     bindE (use_fs (internal_io ''Storage error: '') file_sync) (\<lambda>_.
     let etag = sv_sha256 sv (rd_bytes rd) in
     bindE (write_metadata (internal_meta ''Metadata error: '')
              (\<lambda>d. record_part (sv_env sv) d bucket key upload_id n etag sz)) (\<lambda>_.
     returnE \<lparr>rs_status = 200, rs_headers = [(''etag'', in_quotes etag)], rs_body = NoBody\<rparr>)))))))"

text \<open>The guard of \<open>complete_multipart\<close>: if it is still armed, the files are removed, errors ignored.\<close>

definition cleanup_guard_drop :: "path \<Rightarrow> path \<Rightarrow> fs \<Rightarrow> fs" where
  "cleanup_guard_drop tf dir s = snd (remove_dir_all (snd (remove_file s tf)) dir)"

definition with_cleanup ::
  "path \<Rightarrow> path \<Rightarrow> (('r, 'd) AppState \<Rightarrow> (ApiError + 'a) \<times> ('r, 'd) AppState)
    \<Rightarrow> ('r, 'd) AppState \<Rightarrow> (ApiError + 'a) \<times> ('r, 'd) AppState" where
  "with_cleanup tf dir rest st =
     (case rest st of
        (Inl e, st') \<Rightarrow> (Inl e, on_fs (cleanup_guard_drop tf dir) st')
      | (Inr x, st') \<Rightarrow> (Inr x, st'))"

definition assemble ::
  "('d, 'v, 'r, 'h) services \<Rightarrow> string \<Rightarrow> u32 list \<Rightarrow> ('r, 'd) AppState \<Rightarrow> (ApiError + data \<times> reader) \<times> ('r, 'd) AppState" where
  "assemble sv upload_id ns =
     (let temp_final_path = complete_path (data_path (sv_config sv)) upload_id in
      bindE (run_fs (copy_parts (data_path (sv_config sv)) upload_id ns temp_final_path)) (\<lambda>hashed.
      bindE (use_fs (internal_io ''Storage error: '') file_sync) (\<lambda>_.
      bindE (use_fs (internal_io ''Storage error: '') (\<lambda>s. open_reader s temp_final_path)) (\<lambda>file_reader.
      returnE (hashed, file_reader)))))"

definition assemble_and_store ::
  "('d, 'v, 'r, 'h) services \<Rightarrow> surroundings_of_request \<Rightarrow> string \<Rightarrow> string \<Rightarrow> string \<Rightarrow> string option \<Rightarrow> u32 list
    \<Rightarrow> ('r, 'd) AppState \<Rightarrow> (ApiError + string) \<times> ('r, 'd) AppState" where
  "assemble_and_store sv rq bucket key upload_id content_type ns =
     bindE (assemble sv upload_id ns) (\<lambda>(hashed, file_reader).
     let final_etag = sv_sha256 sv hashed; total_size = of_nat (length hashed);
         metadata = (ObjectMetadata_new (rq_now_meta rq) bucket key total_size final_etag)
           \<lparr>obj_content_type := content_type\<rparr> in
     bindE (store_and_publish sv (internal_storage ''Storage error: '') (internal_storage ''Storage commit failed: '')
              (internal_meta ''Metadata commit failed: '') (storage_key bucket key) file_reader metadata) (\<lambda>_.
     bindE (write_metadata (internal_meta ''Metadata error: '')
              (\<lambda>d. abort_multipart_upload (sv_env sv) d bucket key upload_id)) (\<lambda>_.
     returnE final_etag)))"

definition complete_parts ::
  "('d, 'v, 'r, 'h) services \<Rightarrow> surroundings_of_request \<Rightarrow> string \<Rightarrow> string \<Rightarrow> string \<Rightarrow> string option \<Rightarrow> u32 list
    \<Rightarrow> ('r, 'd) AppState \<Rightarrow> (ApiError + Response) \<times> ('r, 'd) AppState" where
  "complete_parts sv rq bucket key upload_id content_type ns =
     (let temp_final_path = complete_path (data_path (sv_config sv)) upload_id;
          dir = parts_dir (data_path (sv_config sv)) upload_id in
      bindE (use_fs (internal_io ''Storage error: '') (\<lambda>s. file_create s temp_final_path)) (\<lambda>_.
      bindE (with_cleanup temp_final_path dir (assemble_and_store sv rq bucket key upload_id content_type ns)) (\<lambda>final_etag st.
      respond_xml sv (CompleteDoc (CompleteMultipartUploadResult_new bucket key final_etag
          (''http://'' @ bind_address (sv_config sv))))
        (on_fs (\<lambda>s. snd (remove_file (snd (remove_dir_all s dir)) temp_final_path)) st))))"

definition complete_under_lock ::
  "('d, 'v, 'r, 'h) services \<Rightarrow> surroundings_of_request \<Rightarrow> string \<Rightarrow> string \<Rightarrow> string \<Rightarrow> ('r, 'd) AppState
    \<Rightarrow> (ApiError + Response) \<times> ('r, 'd) AppState" where
  "complete_under_lock sv rq bucket key upload_id =
     bindE (read_metadata (upload_error upload_id) (\<lambda>d. get_multipart_upload (sv_env sv) d bucket key upload_id)) (\<lambda>upload.
     if part_numbers upload = [] then failE (InvalidRequest ''Cannot complete upload with no parts'')
     else complete_parts sv rq bucket key upload_id (mpu_content_type upload) (part_numbers upload))"

definition api_complete_multipart ::
  "('d, 'v, 'r, 'h) services \<Rightarrow> surroundings_of_request \<Rightarrow> string \<Rightarrow> string \<Rightarrow> string \<Rightarrow> ('r, 'd) AppState
    \<Rightarrow> (ApiError + Response) \<times> ('r, 'd) AppState" where
  "api_complete_multipart sv rq bucket key upload_id =
     bindE (checkE invalid_name (validate_bucket_name bucket)) (\<lambda>_.
     bindE (checkE invalid_name (validate_object_key key)) (\<lambda>_.
     with_guard sv rq Write bucket key (complete_under_lock sv rq bucket key upload_id)))"

text \<open>Removing the files of the parts one by one, then the directory; failures are only logged.\<close>

definition cleanup_part_files :: "path \<Rightarrow> string \<Rightarrow> MultipartUpload \<Rightarrow> fs \<Rightarrow> fs" where
  "cleanup_part_files base upload_id upload s =
     snd (remove_dir (foldl (\<lambda>s n. snd (remove_file s (part_path base upload_id n))) s (part_numbers upload))
       (parts_dir base upload_id))"

definition api_abort_multipart ::
  "('d, 'v, 'r, 'h) services \<Rightarrow> string \<Rightarrow> string \<Rightarrow> string \<Rightarrow> ('r, 'd) AppState
    \<Rightarrow> (ApiError + Response) \<times> ('r, 'd) AppState" where
  "api_abort_multipart sv bucket key upload_id =
     bindE (checkE invalid_name (validate_bucket_name bucket)) (\<lambda>_.
     bindE (checkE invalid_name (validate_object_key key)) (\<lambda>_.
     bindE (read_metadata (upload_error upload_id) (\<lambda>d. get_multipart_upload (sv_env sv) d bucket key upload_id)) (\<lambda>upload.
     bindE (write_metadata (internal_meta ''Metadata error: '')
              (\<lambda>d. abort_multipart_upload (sv_env sv) d bucket key upload_id)) (\<lambda>_ st.
     returnE \<lparr>rs_status = 204, rs_headers = [], rs_body = NoBody\<rparr>
       (on_fs (cleanup_part_files (data_path (sv_config sv)) upload_id upload) st)))))"

definition api_list_multipart_uploads ::
  "('d, 'v, 'r, 'h) services \<Rightarrow> surroundings_of_request \<Rightarrow> string \<Rightarrow> ('r, 'd) AppState
    \<Rightarrow> (ApiError + Response) \<times> ('r, 'd) AppState" where
  "api_list_multipart_uploads sv rq bucket =
     bindE (checkE invalid_name (validate_bucket_name bucket)) (\<lambda>_.
     bindE (validate_bucket_exists sv rq bucket) (\<lambda>_.
     bindE (read_metadata (internal_meta ''Failed to list multipart uploads: '')
              (\<lambda>d. list_multipart_uploads (sv_env sv) d bucket)) (\<lambda>uploads.
     respond_xml sv (UploadsDoc (ListMultipartUploadsResult_new bucket
       (map (\<lambda>u. (mpu_key u, mpu_upload_id u, mpu_initiated_at u)) uploads))))))"

section \<open>What the loops do to the files\<close>

lemma receive_part_effect:
  assumes "receive_part rd p sz s = (x, s')" and "files s p = Some f"
  shows "(\<forall>q. q \<noteq> p \<longrightarrow> files s' q = files s q) \<and> files s' p \<noteq> None
    \<and> (\<forall>sz'. x = Inr sz' \<longrightarrow> rd_end rd = Inr () \<and> sz' = sz + of_nat (length (rd_bytes rd))
         \<and> map_option f_data (files s' p) = Some (f_data f @ rd_bytes rd))"
  using assms
proof (induction rd p sz s arbitrary: f x s' rule: receive_part.induct)
  case (1 rd p sz s)
  let ?chunk = "take 8192 (rd_bytes rd)" and ?sz = "sz + of_nat (length (take 8192 (rd_bytes rd)))"
  show ?case
  proof (cases "rd_bytes rd = [] \<or> ?sz > MAX_PART_SIZE")
    case True
    with 1(2,3) show ?thesis by (subst (asm) receive_part.simps) (auto simp: Let_def split: sum.splits if_splits)
  next
    case False
    obtain y s1 where w: "file_write s p ?chunk = (y, s1)" by fastforce
    note e = file_write_effect [OF w 1(3)]
    show ?thesis
    proof (cases y)
      case (Inl er)
      with False w 1(2) e show ?thesis by (subst (asm) receive_part.simps) (auto simp: Let_def)
    next
      case (Inr u)
      with e have f1: "files s1 = (files s)(p \<mapsto> \<lparr>f_data = f_data f @ ?chunk, f_mtime = fs_clock s\<rparr>)" by simp
      let ?rd = "rd\<lparr>rd_bytes := drop 8192 (rd_bytes rd)\<rparr>"
      from False w Inr 1(2) have r: "receive_part ?rd p ?sz s1 = (x, s')" by (subst (asm) receive_part.simps) (simp add: Let_def)
      have l: "of_nat (length ?chunk) + of_nat (length (drop 8192 (rd_bytes rd))) = (of_nat (length (rd_bytes rd)) :: u64)"
        unfolding of_nat_add [symmetric] length_append [symmetric] by simp
      have "\<not> rd_bytes rd = []" "\<not> ?sz > MAX_PART_SIZE" using False by auto
      note ih = 1(1) [OF this(1) refl refl this(2) w [symmetric] Inr, simplified, OF r [simplified]]
      from ih [of "\<lparr>f_data = f_data f @ ?chunk, f_mtime = fs_clock s\<rparr>"] f1 l show ?thesis
        by (auto simp: algebra_simps)
    qed
  qed
qed

lemma copy_part_effect:
  assumes "copy_part n d p s = (x, s')" and "files s p = Some f"
  shows "(\<forall>q. q \<noteq> p \<longrightarrow> files s' q = files s q) \<and> files s' p \<noteq> None
    \<and> (x = Inr () \<longrightarrow> map_option f_data (files s' p) = Some (f_data f @ d))"
  using assms
proof (induction n d p s arbitrary: f x s' rule: copy_part.induct)
  case (1 n d p s)
  obtain y s1 where nf: "next_fault s = (y, s1)" by fastforce
  have f1: "files s1 p = Some f" "fs_files s1 = fs_files s" using next_fault_eq [OF nf] 1(3) by auto
  show ?case
  proof (cases "y = None \<and> d \<noteq> []")
    case False
    with nf 1(2) f1 show ?thesis by (subst (asm) copy_part.simps) (auto split: option.splits)
  next
    case True
    obtain z s2 where w: "file_write s1 p (take 65536 d) = (z, s2)" by fastforce
    note e = file_write_effect [OF w f1(1)]
    show ?thesis
    proof (cases z)
      case (Inl er)
      with True nf w 1(2) e f1 show ?thesis by (subst (asm) copy_part.simps) auto
    next
      case (Inr u)
      with e have f2: "files s2 = (files s1)(p \<mapsto> \<lparr>f_data = f_data f @ take 65536 d, f_mtime = fs_clock s1\<rparr>)" by simp
      from True nf w Inr 1(2) have r: "copy_part n (drop 65536 d) p s2 = (x, s')" by (subst (asm) copy_part.simps) simp
      from True have "y = None" "d \<noteq> []" by auto
      note ih = 1(1) [OF nf [symmetric] this w [symmetric] Inr r]
      from ih [of "\<lparr>f_data = f_data f @ take 65536 d, f_mtime = fs_clock s1\<rparr>"] f2 f1 show ?thesis by auto
    qed
  qed
qed

text \<open>The contents of the parts, in their order.\<close>

definition parts_data :: "fs \<Rightarrow> path \<Rightarrow> string \<Rightarrow> u32 list \<Rightarrow> data" where
  "parts_data s base upload_id ns =
     concat (map (\<lambda>n. case files s (part_path base upload_id n) of Some f \<Rightarrow> f_data f | None \<Rightarrow> []) ns)"

text \<open>The metadata of an object made of an upload.\<close>

definition completed_metadata ::
  "('d, 'v, 'r, 'h) services \<Rightarrow> surroundings_of_request \<Rightarrow> string \<Rightarrow> string \<Rightarrow> MultipartUpload \<Rightarrow> data \<Rightarrow> ObjectMetadata" where
  "completed_metadata sv rq b k up d = (put_metadata sv rq b k d)\<lparr>obj_content_type := mpu_content_type up\<rparr>"

lemma part_path_not_complete [simp]: "part_path base u n \<noteq> complete_path base' u'" if "base' = base"
  using that by (simp add: part_path_def parts_dir_def complete_path_def)

lemma copy_parts_effect:
  assumes "copy_parts base u ns (complete_path base u) s = (x, s')" and "files s (complete_path base u) = Some f"
  shows "(\<forall>q. q \<noteq> complete_path base u \<longrightarrow> files s' q = files s q) \<and> files s' (complete_path base u) \<noteq> None
    \<and> (\<forall>d. x = Inr d \<longrightarrow> d = parts_data s base u ns \<and> (\<forall>n \<in> set ns. files s (part_path base u n) \<noteq> None)
         \<and> map_option f_data (files s' (complete_path base u)) = Some (f_data f @ d))"
  using assms
proof (induction ns arbitrary: s f x)
  case (Cons n ns)
  let ?p = "complete_path base u"
  obtain y s1 where o: "file_open s (part_path base u n) = (y, s1)" by fastforce
  note eo = file_open_effect [OF o]
  show ?case
  proof (cases y)
    case (Inl e)
    with Cons.prems o eo show ?thesis by auto
  next
    case y: (Inr d)
    with eo obtain g where g: "files s (part_path base u n) = Some g" "d = f_data g" by auto
    have f1: "files s1 ?p = Some f" using eo Cons.prems(2) by simp
    obtain z s2 where c: "copy_part n d ?p s1 = (z, s2)" by fastforce
    note ec = copy_part_effect [OF c f1]
    show ?thesis
    proof (cases z)
      case (Inl e)
      with Cons.prems o y c ec eo show ?thesis by auto
    next
      case z: (Inr v)
      with ec obtain f2 where f2: "files s2 ?p = Some f2" "f_data f2 = f_data f @ d" by auto
      obtain w s3 where r: "copy_parts base u ns ?p s2 = (w, s3)" by fastforce
      note ih = Cons.IH [OF _ f2(1), of w]
      from Cons.prems(1) o y c z r have s': "s' = s3" and x: "x = (case w of Inl e \<Rightarrow> Inl e | Inr ds \<Rightarrow> Inr (d @ ds))"
        by (auto split: sum.splits)
      have same: "files s2 (part_path base u m) = files s (part_path base u m)" for m
        using ec eo by simp
      have pd: "parts_data s2 base u ns = parts_data s base u ns" by (simp add: parts_data_def same)
      from ih r s' have i: "\<forall>q. q \<noteq> ?p \<longrightarrow> files s' q = files s2 q" "files s' ?p \<noteq> None"
        "\<forall>d. w = Inr d \<longrightarrow> d = parts_data s2 base u ns \<and> (\<forall>n \<in> set ns. files s2 (part_path base u n) \<noteq> None)
           \<and> map_option f_data (files s' ?p) = Some (f_data f2 @ d)" by auto
      have d0: "parts_data s base u (n # ns) = d @ parts_data s base u ns" using g by (simp add: parts_data_def)
      show ?thesis
      proof (intro conjI allI impI)
        show "files s' q = files s q" if "q \<noteq> ?p" for q using that i(1) ec eo by simp
        show "files s' ?p \<noteq> None" by (rule i(2))
        fix ds assume "x = Inr ds"
        then obtain ds' where w: "w = Inr ds'" "ds = d @ ds'" using x by (cases w) auto
        with i(3) pd d0 g same f2 show "ds = parts_data s base u (n # ns)"
          "\<forall>m \<in> set (n # ns). files s (part_path base u m) \<noteq> None"
          "map_option f_data (files s' ?p) = Some (f_data f @ ds)" by auto
      qed
    qed
  qed
qed (simp add: parts_data_def)

lemma open_reader_effect:
  assumes "open_reader s p = (x, s')"
  shows "fs_files s' = fs_files s \<and> (\<forall>rd. x = Inr rd \<longrightarrow> rd_end rd = Inr () \<longrightarrow> (\<exists>f. files s p = Some f \<and> rd_bytes rd = f_data f))"
  using assms
  by (auto simp: open_reader_def dest!: file_open_effect next_fault_eq split: prod.splits sum.splits option.splits)

section \<open>Frames\<close>

text \<open>The store of uploads is apart from the one of objects, and the files of uploads are apart from those of objects.\<close>

context metadata_env
begin

lemma delete_keys_frame:
  "delete_keys E d ks = (x, d') \<Longrightarrow> k \<notin> set ks \<Longrightarrow> contents d' CF_DEFAULT k = contents d CF_DEFAULT k"
proof (induction ks arbitrary: d)
  case (Cons a ks)
  show ?case
  proof (cases "db_delete E d CF_DEFAULT a")
    case (Inr d1)
    with Cons have "contents d' CF_DEFAULT k = contents d1 CF_DEFAULT k" by simp
    with delete_law [OF Inr] Cons.prems show ?thesis by simp
  qed (use Cons in simp)
qed simp

lemma scan_prefix_keys:
  "scan_prefix p (db_prefix_iterator E d CF_DEFAULT p) = Inr es \<Longrightarrow> k \<in> set (map fst es) \<Longrightarrow> prefix p k"
  using scan_prefix_result [of p d CF_DEFAULT es] by (auto simp: set_entries_with_prefix [OF finite_contents])

lemma remove_upload_frame:
  assumes "remove_upload E d b k u = (x, d')" and "\<not> prefix ''mpu:'' y"
  shows "contents d' CF_DEFAULT y = contents d CF_DEFAULT y"
proof (cases "db_delete E d CF_DEFAULT (upload_db_key b k u)")
  case (Inr d1)
  have d1: "contents d1 CF_DEFAULT y = contents d CF_DEFAULT y" using delete_law [OF Inr] assms(2) by auto
  show ?thesis
  proof (cases "scan_prefix (part_prefix b k u) (db_prefix_iterator E d1 CF_DEFAULT (part_prefix b k u))")
    case (Inl e)
    with assms(1) Inr d1 show ?thesis by (simp add: remove_upload_def Let_def)
  next
    case es: (Inr es)
    have "y \<notin> set (map fst es)"
    proof
      assume "y \<in> set (map fst es)"
      from scan_prefix_keys [OF es this] have "prefix (part_prefix b k u) y" .
      with assms(2) show False by (metis mpu_prefix(3) prefix_order.trans)
    qed
    from assms(1) Inr es have dk: "delete_keys E d1 (map fst es) = (x, d')" by (simp add: remove_upload_def Let_def)
    show ?thesis unfolding d1 [symmetric] by (rule delete_keys_frame [OF dk]) fact
  qed
qed (use assms(1) in \<open>simp add: remove_upload_def\<close>)

lemma abort_multipart_upload_frame:
  "abort_multipart_upload E d b k u = (x, d') \<Longrightarrow> \<not> prefix ''mpu:'' y \<Longrightarrow> contents d' CF_DEFAULT y = contents d CF_DEFAULT y"
  by (auto simp: abort_multipart_upload_def dest: remove_upload_frame split: sum.splits)

lemma initiate_multipart_upload_frame:
  assumes "initiate_multipart_upload E now d b k u ct = (x, d')" and "\<not> prefix ''mpu:'' y"
  shows "contents d' CF_DEFAULT y = contents d CF_DEFAULT y"
proof (cases x)
  case (Inl e)
  with assms(1) have "d' = d" by (auto simp: initiate_multipart_upload_def Let_def split: sum.splits)
  then show ?thesis by simp
next
  case (Inr up)
  with assms initiate_multipart_upload_ok [of now d b k u ct up d'] show ?thesis by auto
qed

lemma record_part_frame:
  assumes "record_part E d b k u n etag sz = (x, d')" and "\<not> prefix ''mpu:'' y"
  shows "contents d' CF_DEFAULT y = contents d CF_DEFAULT y"
proof (cases x)
  case (Inl e)
  with assms(1) have "d' = d" by (auto simp: record_part_def Let_def split: sum.splits option.splits)
  then show ?thesis by simp
next
  case (Inr up)
  with assms record_part_ok [of d b k u n etag sz up d'] show ?thesis by auto
qed

end

lemma not_objects [simp]:
  "\<not> prefix (base @ [''objects'']) (complete_path base u)" "\<not> prefix (base @ [''objects'']) (part_path base u n)"
  by (simp_all add: complete_path_def part_path_def parts_dir_def)

lemma below_parts_dir: "prefix (parts_dir base u) p \<Longrightarrow> \<not> prefix (base @ [''objects'']) p"
  by (auto simp: parts_dir_def prefix_def)

lemma use_fs_eq:
  "use_fs g op st = (x, st') \<Longrightarrow> \<exists>y s. op (as_fs st) = (y, s) \<and> st' = st\<lparr>as_fs := s\<rparr> \<and> x = map_sum g id y"
  by (auto simp: use_fs_def checkE_eq split: prod.splits)

lemma run_fs_eq: "run_fs op st = (x, st') \<Longrightarrow> \<exists>s. op (as_fs st) = (x, s) \<and> st' = st\<lparr>as_fs := s\<rparr>"
  by (auto simp: run_fs_def split: prod.splits)

lemma write_metadata_eq:
  "write_metadata g op st = (x, st') \<Longrightarrow> \<exists>y d. op (as_metadata st) = (y, d) \<and> st' = st\<lparr>as_metadata := d\<rparr> \<and> x = map_sum g id y"
  by (auto simp: write_metadata_def checkE_eq split: prod.splits)

context api_node
begin

abbreviation "base \<equiv> data_path (sv_config sv)"

text \<open>A step that touches only files outside the directory of objects, and one that touches only entries of uploads.\<close>

definition beside :: "('r, 'd) AppState \<Rightarrow> ('r, 'd) AppState \<Rightarrow> bool" where
  "beside st st' \<longleftrightarrow> as_storage st' = as_storage st
     \<and> (\<forall>k. \<not> prefix ''mpu:'' k \<longrightarrow> contents (as_metadata st') CF_DEFAULT k = contents (as_metadata st) CF_DEFAULT k)
     \<and> (\<forall>p. prefix (base @ [''objects'']) p \<longrightarrow> files (as_fs st') p = files (as_fs st) p)"

lemma beside_refl [simp]: "beside st st"
  by (simp add: beside_def)

lemma beside_trans: "beside st st' \<Longrightarrow> beside st' st'' \<Longrightarrow> beside st st''"
  by (simp add: beside_def)

lemma beside_node:
  assumes "beside st st'" and "root (as_storage st) = base"
  shows "node_of st' = node_of st"
proof -
  have "object_view E (contents (as_metadata st') CF_DEFAULT) bk = object_view E (contents (as_metadata st) CF_DEFAULT) bk" for bk
    using assms(1) by (simp add: beside_def object_view_def object_db_key_def)
  moreover have "view (as_storage st') (as_fs st') k = view (as_storage st) (as_fs st) k" for k
    using assms be.view_objects [of "as_storage st" "as_fs st'" "as_fs st" k] by (simp add: beside_def)
  ultimately show ?thesis by (auto simp: objects_of_def data_of_node_def fun_eq_iff restrict_map_def)
qed

lemma beside_fs:
  "(\<And>p. prefix (base @ [''objects'']) p \<Longrightarrow> files s p = files (as_fs st) p) \<Longrightarrow> beside st (st\<lparr>as_fs := s\<rparr>)"
  by (simp add: beside_def)

lemma beside_fs_except:
  assumes "\<And>q. q \<noteq> p \<Longrightarrow> files s q = files (as_fs st) q" and "\<not> prefix (base @ [''objects'']) p"
  shows "beside st (st\<lparr>as_fs := s\<rparr>)"
proof (rule beside_fs)
  fix q assume "prefix (base @ [''objects'']) q"
  with assms(2) have "q \<noteq> p" by auto
  then show "files s q = files (as_fs st) q" by (rule assms(1))
qed

lemma beside_metadata:
  "(\<And>k. \<not> prefix ''mpu:'' k \<Longrightarrow> contents d CF_DEFAULT k = contents (as_metadata st) CF_DEFAULT k) \<Longrightarrow> beside st (st\<lparr>as_metadata := d\<rparr>)"
  by (simp add: beside_def)

lemma abort_step:
  assumes "write_metadata g (\<lambda>d. abort_multipart_upload E d b k u) st = (x, st')"
  shows "beside st st' \<and> as_fs st' = as_fs st"
proof -
  from write_metadata_eq [OF assms] obtain y d where a: "abort_multipart_upload E (as_metadata st) b k u = (y, d)"
    and st': "st' = st\<lparr>as_metadata := d\<rparr>" by blast
  show ?thesis unfolding st' using beside_metadata [OF abort_multipart_upload_frame [OF a]] by simp
qed

lemma create_step:
  assumes "use_fs g (\<lambda>s. file_create s p) st = (x, st')" and "\<not> prefix (base @ [''objects'']) p"
  shows "beside st st' \<and> as_metadata st' = as_metadata st \<and> (\<forall>q. q \<noteq> p \<longrightarrow> files (as_fs st') q = files (as_fs st) q)
    \<and> (x = Inr () \<longrightarrow> map_option f_data (files (as_fs st') p) = Some [])"
proof -
  from use_fs_eq [OF assms(1)] obtain y s where c: "file_create (as_fs st) p = (y, s)"
    and st': "st' = st\<lparr>as_fs := s\<rparr>" and x: "x = map_sum g id y" by blast
  from file_create_effect [OF c] have o: "\<forall>q. q \<noteq> p \<longrightarrow> files s q = files (as_fs st) q"
    and n: "y = Inr () \<longrightarrow> map_option f_data (files s p) = Some []" by (auto split: sum.splits)
  have "beside st st'" unfolding st' by (rule beside_fs_except [OF _ assms(2)]) (use o in simp)
  with o n st' x show ?thesis by (auto simp: map_sum_cases)
qed

lemma sync_step:
  "use_fs g file_sync st = (x, st') \<Longrightarrow> beside st st' \<and> fs_files (as_fs st') = fs_files (as_fs st) \<and> as_metadata st' = as_metadata st"
  by (auto simp: beside_def dest!: use_fs_eq file_sync_effect)

lemma copy_step:
  assumes "run_fs (copy_parts base u ns (complete_path base u)) st = (x, st')"
    and "map_option f_data (files (as_fs st) (complete_path base u)) = Some []"
  shows "beside st st' \<and> (\<forall>d. x = Inr d \<longrightarrow> d = parts_data (as_fs st) base u ns
      \<and> (\<forall>n \<in> set ns. files (as_fs st) (part_path base u n) \<noteq> None)
      \<and> map_option f_data (files (as_fs st') (complete_path base u)) = Some d)"
proof -
  from run_fs_eq [OF assms(1)] obtain s where c: "copy_parts base u ns (complete_path base u) (as_fs st) = (x, s)"
    and st': "st' = st\<lparr>as_fs := s\<rparr>" by blast
  from assms(2) obtain f where f: "files (as_fs st) (complete_path base u) = Some f" "f_data f = []" by auto
  note e = copy_parts_effect [OF c f(1)]
  have "beside st st'" unfolding st' by (rule beside_fs_except [OF _ not_objects(1) [where u = u]]) (use e in simp)
  with e f(2) st' show ?thesis by auto
qed

lemma reader_step:
  assumes "use_fs g (\<lambda>s. open_reader s p) st = (x, st')"
  shows "beside st st' \<and> (\<forall>rd. x = Inr rd \<longrightarrow> rd_end rd = Inr () \<longrightarrow> map_option f_data (files (as_fs st) p) = Some (rd_bytes rd))"
proof -
  from use_fs_eq [OF assms] obtain y s where c: "open_reader (as_fs st) p = (y, s)"
    and st': "st' = st\<lparr>as_fs := s\<rparr>" and x: "x = map_sum g id y" by blast
  from open_reader_effect [OF c] st' x show ?thesis by (auto simp: map_sum_cases beside_def)
qed

lemma assemble_step:
  assumes run: "assemble sv u (part_numbers up) st = (x, st')"
    and f0: "map_option f_data (files (as_fs st) (complete_path base u)) = Some []"
  shows "beside st st' \<and> (\<forall>d rd. x = Inr (d, rd) \<longrightarrow> d = parts_data (as_fs st) base u (part_numbers up)
      \<and> (\<forall>n \<in> set (part_numbers up). files (as_fs st) (part_path base u n) \<noteq> None)
      \<and> (rd_end rd = Inr () \<longrightarrow> rd_bytes rd = d))"
  using run unfolding assemble_def Let_def
proof (elim bindE_cases, goal_cases)
  case (1 e)
  with copy_step [OF 1(1) f0] show ?case by simp
next
  case (2 d s1 e)
  from copy_step [OF 2(1) f0] sync_step [OF 2(2)] 2(3) show ?case by (auto intro: beside_trans)
next
  case (3 d s1 u1 s2 e)
  from copy_step [OF 3(1) f0] sync_step [OF 3(2)] reader_step [OF 3(3)] 3(4) show ?case by (auto intro: beside_trans)
next
  case (4 d s1 u1 s2 rd s3)
  note c = copy_step [OF 4(1) f0] and y = sync_step [OF 4(2)] and o = reader_step [OF 4(3)]
  from c y o 4(4) have "beside st st'" by (auto simp: returnE_def intro: beside_trans)
  with c y o 4(4) show ?case by (auto simp: returnE_def)
qed

text \<open>What completing an upload stores: the concatenation of its parts, with the type given at its start.\<close>

lemma assemble_and_store_step:
  assumes run: "assemble_and_store sv rq b k u (mpu_content_type up) (part_numbers up) st = (x, st')" and key: "storage_key b k \<in> keys" and b: "CHR ''/'' \<notin> set b"
    and rt: "root (as_storage st) = base" and f0: "map_option f_data (files (as_fs st) (complete_path base u)) = Some []"
  shows "(\<exists>m d. node_step (\<not> isl x) (StoreReq b k m d) (node_of st) (node_of st')) \<and> root (as_storage st') = base
    \<and> (\<forall>etag. x = Inr etag \<longrightarrow> (let d = parts_data (as_fs st) base u (part_numbers up) in
         node_step True (StoreReq b k (completed_metadata sv rq b k up d) d) (node_of st) (node_of st')
         \<and> etag = sv_sha256 sv d \<and> (\<forall>n \<in> set (part_numbers up). files (as_fs st) (part_path base u n) \<noteq> None)
         \<and> (\<exists>d1. abort_multipart_upload E d1 b k u = (Inr (), as_metadata st'))))"
  using run unfolding assemble_and_store_def
proof (cases rule: bindE_cases)
  case (1 e)
  from assemble_step [OF 1(1) f0] have "beside st st'" by simp
  with beside_node [OF this rt] rt 1(2) show ?thesis by (auto simp: beside_def intro: node_step.store_nothing)
next
  case (2 y s1)
  obtain d rd where y: "y = (d, rd)" by fastforce
  note a = assemble_step [OF 2(1) f0, unfolded y]
  then have bs: "beside st s1" by simp
  note n = beside_node [OF bs rt]
  have rt1: "root (as_storage s1) = base" using bs rt by (simp add: beside_def)
  let ?m = "completed_metadata sv rq b k up d"
  have m: "obj_bucket ?m = b" "obj_key ?m = k" by (simp_all add: completed_metadata_def put_metadata_def ObjectMetadata_new_def)
  have me: "ObjectMetadata_new (rq_now_meta rq) b k (of_nat (length d)) (sv_sha256 sv d)\<lparr>obj_content_type := mpu_content_type up\<rparr> = ?m"
    by (simp add: completed_metadata_def put_metadata_def)
  from 2(2) show ?thesis unfolding y prod.case Let_def me
  proof (elim bindE_cases, goal_cases)
    case (1 e)
    from store_and_publish_step [OF 1(1) key b m] n rt1 1(2) show ?case by auto
  next
    case (2 v s2 e)
    from store_and_publish_step [OF 2(1) key b m] n rt1 have p: "node_step True (StoreReq b k ?m (rd_bytes rd)) (node_of st) (node_of s2)"
      and r: "root (as_storage s2) = base" by auto
    from abort_step [OF 2(2)] have ab: "beside s2 st'" by simp
    from p have "node_step False (StoreReq b k ?m (rd_bytes rd)) (node_of st) (node_of st')"
      unfolding beside_node [OF ab r] by (simp add: node_step.stored)
    with r ab 2(3) show ?case by (auto simp: beside_def)
  next
    case (3 v s2 w s3)
    from store_and_publish_step [OF 3(1) key b m] n rt1 have p: "node_step True (StoreReq b k ?m (rd_bytes rd)) (node_of st) (node_of s2)"
      and r: "root (as_storage s2) = base" and en: "rd_end rd = Inr ()" by auto
    from abort_step [OF 3(2)] have ab: "beside s2 s3" by simp
    from 3(3) have s3: "st' = s3" "x = Inr (sv_sha256 sv d)" by (auto simp: returnE_def)
    from p have "node_step True (StoreReq b k ?m d) (node_of st) (node_of st')"
      unfolding s3(1) beside_node [OF ab r] using a en by simp
    moreover have "\<exists>d1. abort_multipart_upload E d1 b k u = (Inr (), as_metadata st')"
      using write_metadata_eq [OF 3(2)] s3(1) by (auto simp: map_sum_cases)
    ultimately show ?case using r ab s3 a by (auto simp: beside_def Let_def)
  qed
qed

lemma remove_file_frame: "q \<noteq> p \<Longrightarrow> files (snd (remove_file s p)) q = files s q"
  using remove_file_effect [of s p "fst (remove_file s p)" "snd (remove_file s p)"] by (auto split: sum.splits)

lemma remove_dir_all_frame: "\<not> prefix p q \<Longrightarrow> files (snd (remove_dir_all s p)) q = files s q"
  using remove_dir_all_effect [of s p "fst (remove_dir_all s p)" "snd (remove_dir_all s p)"] by auto

lemma cleanup_beside:
  "beside st (on_fs (cleanup_guard_drop (complete_path base u) (parts_dir base u)) st)"
  "beside st (on_fs (\<lambda>s. snd (remove_file (snd (remove_dir_all s (parts_dir base u))) (complete_path base u))) st)"
proof -
  have n: "q \<noteq> complete_path base u" "\<not> prefix (parts_dir base u) q" if "prefix (base @ [''objects'']) q" for q
    using that not_objects(1) below_parts_dir by blast+
  show "beside st (on_fs (cleanup_guard_drop (complete_path base u) (parts_dir base u)) st)"
    unfolding on_fs_def by (rule beside_fs) (simp add: cleanup_guard_drop_def n remove_file_frame remove_dir_all_frame)
  show "beside st (on_fs (\<lambda>s. snd (remove_file (snd (remove_dir_all s (parts_dir base u))) (complete_path base u))) st)"
    unfolding on_fs_def by (rule beside_fs) (simp add: n remove_file_frame remove_dir_all_frame)
qed

lemma respond_xml_same: "respond_xml sv doc st = (x, st') \<Longrightarrow> st' = st"
  by (auto simp: respond_xml_def checkE_eq returnE_def elim!: bindE_cases)

lemma parts_data_cong:
  "(\<And>q. q \<noteq> complete_path base u \<Longrightarrow> files s' q = files s q) \<Longrightarrow> parts_data s' base u ns = parts_data s base u ns"
  by (simp add: parts_data_def)

lemma complete_under_lock_step:
  assumes run: "complete_under_lock sv rq b k u st = (x, st')" and key: "storage_key b k \<in> keys" and b: "CHR ''/'' \<notin> set b"
    and rt: "root (as_storage st) = base"
  shows "(\<exists>m d. node_step (\<not> isl x) (StoreReq b k m d) (node_of st) (node_of st')) \<and> root (as_storage st') = base
    \<and> (\<forall>resp. x = Inr resp \<longrightarrow> (\<exists>up. get_multipart_upload E (as_metadata st) b k u = Inr up \<and> part_numbers up \<noteq> []
         \<and> (let d = parts_data (as_fs st) base u (part_numbers up) in
            node_step True (StoreReq b k (completed_metadata sv rq b k up d) d) (node_of st) (node_of st')
            \<and> (\<forall>n \<in> set (part_numbers up). files (as_fs st) (part_path base u n) \<noteq> None)
            \<and> (\<exists>d1. abort_multipart_upload E d1 b k u = (Inr (), as_metadata st')))))"
  using run unfolding complete_under_lock_def
proof (cases rule: bindE_cases)
  case (1 e)
  from read_metadata_quiet [OF 1(1)] rt 1(2) show ?thesis by (auto intro: node_step.store_nothing)
next
  case (2 up s0)
  have s0: "s0 = st" and up: "get_multipart_upload E (as_metadata st) b k u = Inr up"
    using 2(1) by (auto simp: read_metadata_def checkE_eq map_sum_cases)
  show ?thesis
  proof (cases "part_numbers up = []")
    case True
    with 2(2) s0 rt show ?thesis by (auto intro: node_step.store_nothing)
  next
    case False
    let ?tf = "complete_path base u" and ?dir = "parts_dir base u"
    from 2(2) False s0 have r: "complete_parts sv rq b k u (mpu_content_type up) (part_numbers up) st = (x, st')" by simp
    from r show ?thesis unfolding complete_parts_def Let_def
    proof (elim bindE_cases, goal_cases)
      case (1 e)
      from create_step [OF _ not_objects(1), of "internal_io ''Storage error: ''" u st "Inl e" st'] 1 have "beside st st'" by simp
      with beside_node [OF this rt] rt 1 show ?case by (auto simp: beside_def intro: node_step.store_nothing)
    next
      case (2 v s1 e)
      have c: "beside st s1" "map_option f_data (files (as_fs s1) ?tf) = Some []"
        using create_step [OF _ not_objects(1), of "internal_io ''Storage error: ''" u st "Inr v" s1] 2 by auto
      from 2 obtain s2 where a: "assemble_and_store sv rq b k u (mpu_content_type up) (part_numbers up) s1 = (Inl e, s2)"
        and st': "st' = on_fs (cleanup_guard_drop ?tf ?dir) s2" by (auto simp: with_cleanup_def split: prod.splits sum.splits)
      have r1: "root (as_storage s1) = base" using c(1) rt by (simp add: beside_def)
      from assemble_and_store_step [OF a key b r1 c(2)] obtain m d where
        p: "node_step False (StoreReq b k m d) (node_of s1) (node_of s2)" and r2: "root (as_storage s2) = base" by auto
      have "node_of st' = node_of s2" unfolding st' by (rule beside_node [OF cleanup_beside(1) r2])
      with p beside_node [OF c(1) rt] r2 st' 2 show ?case by (auto simp: on_fs_def)
    next
      case (3 v s1 etag s2)
      have c: "beside st s1" "map_option f_data (files (as_fs s1) ?tf) = Some []"
        "\<forall>q. q \<noteq> ?tf \<longrightarrow> files (as_fs s1) q = files (as_fs st) q" 
        using create_step [OF _ not_objects(1), of "internal_io ''Storage error: ''" u st "Inr v" s1] 3 by auto
      from 3 have a: "assemble_and_store sv rq b k u (mpu_content_type up) (part_numbers up) s1 = (Inr etag, s2)" by (auto simp: with_cleanup_def split: prod.splits sum.splits)
      from 3 have st': "st' = on_fs (\<lambda>s. snd (remove_file (snd (remove_dir_all s ?dir)) ?tf)) s2"
        by (auto dest: respond_xml_same)
      have r1: "root (as_storage s1) = base" using c(1) rt by (simp add: beside_def)
      note st = assemble_and_store_step [OF a key b r1 c(2)]
      have r2: "root (as_storage s2) = base" using st by simp
      have n: "node_of st' = node_of s2" unfolding st' by (rule beside_node [OF cleanup_beside(2) r2])
      have pd: "parts_data (as_fs s1) base u ns = parts_data (as_fs st) base u ns" for ns
        by (rule parts_data_cong) (use c(3) in simp)
      let ?d = "parts_data (as_fs st) base u (part_numbers up)"
      from st pd have p: "node_step True (StoreReq b k (completed_metadata sv rq b k up ?d) ?d) (node_of st) (node_of st')"
        "\<forall>n \<in> set (part_numbers up). files (as_fs st) (part_path base u n) \<noteq> None"
        "\<exists>d1. abort_multipart_upload E d1 b k u = (Inr (), as_metadata st')"
        using n beside_node [OF c(1) rt] c(3) st' by (auto simp: Let_def on_fs_def)
      have "node_step (\<not> isl x) (StoreReq b k (completed_metadata sv rq b k up ?d) ?d) (node_of st) (node_of st')"
        using p(1) by (cases x) (simp_all add: node_step.stored)
      with p r2 st' up False show ?case by (auto simp: on_fs_def Let_def)
    qed
  qed
qed

end

end
