(* ===== verification/Api_Requests.thy ===== *)
theory Api_Requests
  imports Api_Multipart
begin

text \<open>
  What the handlers of an upload promise together, from the start of an upload over its parts to
  the object it becomes, and an invariant of a node over any sequence of requests to it.
\<close>

section \<open>Uploads\<close>

text \<open>What of a store concerns uploads.\<close>

lemma uploads_cong:
  assumes "\<And>x. prefix ''mpu:'' x \<Longrightarrow> m' x = m x"
  shows "uploads_wf E m' = uploads_wf E m" and "upload_view E m' = upload_view E m"
    and "parts_view E m' b k u = parts_view E m b k u"
proof -
  have p: "parts_view E m' b k u = parts_view E m b k u" for b k u
    by (simp add: parts_view_def assms fun_eq_iff)
  then show "parts_view E m' b k u = parts_view E m b k u" .
  have e: "(m' x = Some v \<longrightarrow> prefix ''mpu:'' x \<longrightarrow> Q) = (m x = Some v \<longrightarrow> prefix ''mpu:'' x \<longrightarrow> Q)" for x v Q
    using assms by auto
  show "uploads_wf E m' = uploads_wf E m" unfolding uploads_wf_def by (simp only: e)
  show "upload_view E m' = upload_view E m" by (simp add: upload_view_def assms fun_eq_iff p cong: option.case_cong sum.case_cong)
qed

lemma receive_part_bound:
  assumes "receive_part rd p sz s = (Inr sz', s')" and "sz \<le> MAX_PART_SIZE"
  shows "unat sz + length (rd_bytes rd) \<le> unat MAX_PART_SIZE"
  using assms
proof (induction rd p sz s rule: receive_part.induct)
  case (1 rd p sz s)
  let ?chunk = "take 8192 (rd_bytes rd)" and ?sz = "sz + of_nat (length (take 8192 (rd_bytes rd)))"
  show ?case
  proof (cases "rd_bytes rd = []")
    case True
    with 1(3) show ?thesis by (simp add: word_le_nat_alt)
  next
    case False
    with 1(2) obtain u s1 where sz: "\<not> ?sz > MAX_PART_SIZE" and w: "file_write s p ?chunk = (Inr u, s1)"
      and r: "receive_part (rd\<lparr>rd_bytes := drop 8192 (rd_bytes rd)\<rparr>) p ?sz s1 = (Inr sz', s')"
      by (subst (asm) receive_part.simps) (auto simp: Let_def split: if_splits prod.splits sum.splits)
    note ih = 1(1) [OF False refl refl sz w [symmetric] refl r]
    have l: "length ?chunk \<le> 8192" and sm: "unat sz \<le> 5368709120"
      using 1(3) by (simp_all add: word_le_nat_alt MAX_PART_SIZE_def)
    then have "unat ?sz = unat sz + length ?chunk"
      by (subst unat_add_lem [THEN iffD1]) (simp_all add: unat_of_nat)
    with ih sz show ?thesis by (simp add: not_less)
  qed
qed

context api_node
begin

abbreviation "uploads_of st \<equiv> upload_view E (contents (as_metadata st) CF_DEFAULT)"
abbreviation "wf_of st \<equiv> uploads_wf E (contents (as_metadata st) CF_DEFAULT)"

lemma quiet_uploads:
  assumes "quiet st st'"
  shows "uploads_of st' = uploads_of st" and "wf_of st' = wf_of st" and "as_fs st' = as_fs st" and "as_storage st' = as_storage st"
    and "parts_view E (contents (as_metadata st') CF_DEFAULT) b k u = parts_view E (contents (as_metadata st) CF_DEFAULT) b k u"
proof -
  have "contents (as_metadata st') CF_DEFAULT x = contents (as_metadata st) CF_DEFAULT x" if "prefix ''mpu:'' x" for x
  proof -
    from that have "\<not> prefix ''lock:'' x" by (auto simp: prefix_def)
    with assms show ?thesis by (simp add: quiet_def same_data_def)
  qed
  note c = uploads_cong [OF this]
  show "uploads_of st' = uploads_of st" "wf_of st' = wf_of st"
    "parts_view E (contents (as_metadata st') CF_DEFAULT) b k u = parts_view E (contents (as_metadata st) CF_DEFAULT) b k u"
    by (simp_all add: c)
  show "as_fs st' = as_fs st" "as_storage st' = as_storage st" using assms by (simp_all add: quiet_def)
qed

text \<open>Completing an upload.\<close>

lemma complete_step:
  assumes run: "api_complete_multipart sv rq b k u st = (x, st')" and key: "storage_key b k \<in> keys"
    and rt: "root (as_storage st) = base"
  shows "((\<exists>m d. CHR ''/'' \<notin> set b \<and> node_step (\<not> isl x) (StoreReq b k m d) (node_of st) (node_of st')) \<or> isl x \<and> node_of st' = node_of st)
    \<and> root (as_storage st') = base"
proof (cases "valid_bucket b \<and> valid_key k")
  case False
  with run rt show ?thesis by (auto simp: api_complete_multipart_def bindE_checkE split: sum.splits)
next
  case True
  with run have "with_guard sv rq Write b k (complete_under_lock sv rq b k u) st = (x, st')"
    by (simp add: api_complete_multipart_def bindE_checkE)
  then show ?thesis
  proof (cases rule: with_guard_cases)
    case (1 e)
    with quiet_node [OF 1(2)] quiet_uploads(4) [OF 1(2)] rt show ?thesis by simp
  next
    case (2 st1 st2)
    have b: "CHR ''/'' \<notin> set b" using True by simp
    from complete_under_lock_step [OF 2(2) key b] quiet_uploads(4) [OF 2(1)] rt obtain m d where
      "node_step (\<not> isl x) (StoreReq b k m d) (node_of st1) (node_of st2)" "root (as_storage st2) = base" by auto
    with quiet_node [OF 2(1)] quiet_node [OF 2(3)] quiet_uploads(4) [OF 2(3)] b show ?thesis by auto
  qed
qed

lemma complete_success:
  assumes run: "api_complete_multipart sv rq b k u st = (Inr resp, st')" and key: "storage_key b k \<in> keys"
    and rt: "root (as_storage st) = base" and wf: "wf_of st" and pl: "plain_upload b k u"
  shows "\<exists>up. uploads_of st (b, k, u) = Some up \<and> uploads_of st' (b, k, u) = None \<and> part_numbers up \<noteq> []
    \<and> (\<forall>n \<in> set (part_numbers up). files (as_fs st) (part_path base u n) \<noteq> None)
    \<and> (let d = parts_data (as_fs st) base u (part_numbers up) in
       meta_of st' = (meta_of st)((b, k) \<mapsto> completed_metadata sv rq b k up d)
       \<and> data_of st' = (data_of st)(storage_key b k \<mapsto> d))"
proof -
  have v: "valid_bucket b" "valid_key k"
    using run by (auto simp: api_complete_multipart_def bindE_checkE split: sum.splits)
  with run have g: "with_guard sv rq Write b k (complete_under_lock sv rq b k u) st = (Inr resp, st')"
    by (simp add: api_complete_multipart_def bindE_checkE)
  obtain st1 st2 where q: "quiet st st1" and c: "complete_under_lock sv rq b k u st1 = (Inr resp, st2)" and q': "quiet st2 st'"
    using with_guard_cases [OF g] by blast
  have b: "CHR ''/'' \<notin> set b" using v by simp
  note same = quiet_uploads [OF q] and same' = quiet_uploads [OF q']
  let ?d = "\<lambda>up. parts_data (as_fs st) base u (part_numbers up)"
  from complete_under_lock_step [OF c key b] rt same obtain up d1 where
    up: "get_multipart_upload E (as_metadata st1) b k u = Inr up" "part_numbers up \<noteq> []"
      "\<forall>n \<in> set (part_numbers up). files (as_fs st) (part_path base u n) \<noteq> None"
    and s: "node_step True (StoreReq b k (completed_metadata sv rq b k up (?d up)) (?d up)) (node_of st1) (node_of st2)"
    and a: "abort_multipart_upload E d1 b k u = (Inr (), as_metadata st2)" by (auto simp: Let_def)
  have "uploads_of st (b, k, u) = Some up" using get_multipart_upload_ok [OF _ pl up(1)] wf same by simp
  moreover have "uploads_of st' (b, k, u) = None"
    using remove_upload_view [OF abort_multipart_upload_ok [OF a] pl pl] same' by simp
  ultimately show ?thesis
    using up s quiet_node [OF q] quiet_node [OF q'] by (auto simp: Let_def)
qed

text \<open>Storing a part.\<close>

lemma receive_step:
  assumes "run_fs (receive_part rd (part_path base u n) 0) st = (x, st')"
    and "map_option f_data (files (as_fs st) (part_path base u n)) = Some []"
  shows "beside st st' \<and> as_metadata st' = as_metadata st
    \<and> (\<forall>q. q \<noteq> part_path base u n \<longrightarrow> files (as_fs st') q = files (as_fs st) q)
    \<and> (\<forall>sz. x = Inr sz \<longrightarrow> rd_end rd = Inr () \<and> length (rd_bytes rd) \<le> unat MAX_PART_SIZE \<and> sz = of_nat (length (rd_bytes rd))
         \<and> map_option f_data (files (as_fs st') (part_path base u n)) = Some (rd_bytes rd))"
proof -
  from run_fs_eq [OF assms(1)] obtain s where c: "receive_part rd (part_path base u n) 0 (as_fs st) = (x, s)"
    and st': "st' = st\<lparr>as_fs := s\<rparr>" by blast
  from assms(2) obtain f where f: "files (as_fs st) (part_path base u n) = Some f" "f_data f = []" by auto
  note e = receive_part_effect [OF c f(1)]
  have "beside st st'" unfolding st' by (rule beside_fs_except [OF _ not_objects(2) [where u = u and n = n]]) (use e in simp)
  with e f(2) st' c receive_part_bound [of rd "part_path base u n" 0 "as_fs st" _ s] show ?thesis by auto
qed

lemma record_step:
  assumes "write_metadata g (\<lambda>d. record_part E d b k u n etag sz) st = (x, st')"
  shows "beside st st' \<and> as_fs st' = as_fs st \<and> (x = Inr () \<longrightarrow> record_part E (as_metadata st) b k u n etag sz = (Inr (), as_metadata st'))"
proof -
  from write_metadata_eq [OF assms] obtain y d where a: "record_part E (as_metadata st) b k u n etag sz = (y, d)"
    and st': "st' = st\<lparr>as_metadata := d\<rparr>" and x: "x = map_sum g id y" by blast
  from beside_metadata [OF record_part_frame [OF a]] a x st' show ?thesis by (auto simp: map_sum_cases)
qed

lemma upload_part_step:
  assumes run: "api_upload_part sv b k u n rd st = (x, st')"
  shows "beside st st' \<and> (\<forall>q. q \<noteq> part_path base u n \<longrightarrow> files (as_fs st') q = files (as_fs st) q)
    \<and> (\<not> isl x \<longrightarrow> valid_bucket b \<and> valid_key k \<and> 0 < n \<and> n \<le> 10000 \<and> rd_end rd = Inr () \<and> length (rd_bytes rd) \<le> unat MAX_PART_SIZE
         \<and> map_option f_data (files (as_fs st') (part_path base u n)) = Some (rd_bytes rd)
         \<and> (\<exists>up. get_multipart_upload E (as_metadata st) b k u = Inr up)
         \<and> record_part E (as_metadata st) b k u n (sv_sha256 sv (rd_bytes rd)) (of_nat (length (rd_bytes rd))) = (Inr (), as_metadata st'))"
proof (cases "valid_bucket b \<and> valid_key k \<and> 0 < n \<and> n \<le> 10000")
  case False
  then have "\<not> valid_bucket b \<or> \<not> valid_key k \<or> (n = 0 \<or> n > 10000)" by (auto simp: word_gt_0)
  with run have "isl x \<and> st' = st" unfolding api_upload_part_def bindE_checkE by (auto split: sum.splits)
  then show ?thesis by simp
next
  case True
  let ?p = "part_path base u n" and ?g = "internal_io ''Storage error: ''"
  from True have n: "\<not> (n = 0 \<or> n > 10000)" by (auto simp: word_gt_0)
  from True run have "bindE (read_metadata (upload_error u) (\<lambda>d. get_multipart_upload E d b k u)) (\<lambda>_.
      bindE (use_fs ?g (\<lambda>s. file_create s ?p)) (\<lambda>_. bindE (run_fs (receive_part rd ?p 0)) (\<lambda>sz. bindE (use_fs ?g file_sync) (\<lambda>_.
      bindE (write_metadata (internal_meta ''Metadata error: '') (\<lambda>d. record_part E d b k u n (sv_sha256 sv (rd_bytes rd)) sz)) (\<lambda>_.
      returnE \<lparr>rs_status = 200, rs_headers = [(''etag'', in_quotes (sv_sha256 sv (rd_bytes rd)))], rs_body = NoBody\<rparr>))))) st = (x, st')"
    unfolding api_upload_part_def by (simp only: bindE_checkE n if_False Let_def) simp
  then show ?thesis
  proof (elim bindE_cases, goal_cases)
    case (1 e)
    with read_metadata_quiet [OF 1(1)] show ?case by simp
  next
    case (2 up s0 e)
    with read_metadata_quiet [OF 2(1)] create_step [OF 2(2)] show ?case by auto
  next
    case (3 up s0 v s1 e)
    note c = create_step [OF 3(2) not_objects(2)]
    from c receive_step [OF 3(3)] read_metadata_quiet [OF 3(1)] 3(4) show ?case by (auto intro: beside_trans)
  next
    case (4 up s0 v s1 sz s2 e)
    note c = create_step [OF 4(2) not_objects(2)]
    from c receive_step [OF 4(3)] read_metadata_quiet [OF 4(1)] sync_step [OF 4(4)] 4(5) show ?case by (auto intro: beside_trans)
  next
    case (5 up s0 v s1 sz s2 w s3 e)
    note c = create_step [OF 5(2) not_objects(2)]
    from c receive_step [OF 5(3)] read_metadata_quiet [OF 5(1)] sync_step [OF 5(4)] record_step [OF 5(5)] 5(6) show ?case
      by (auto intro: beside_trans)
  next
    case (6 up s0 v s1 sz s2 w s3 z s4)
    note c = create_step [OF 6(2) not_objects(2)]
    have "get_multipart_upload E (as_metadata st) b k u = Inr up" using 6(1) by (simp add: read_metadata_def checkE_eq map_sum_cases)
    with c receive_step [OF 6(3)] read_metadata_quiet [OF 6(1)] sync_step [OF 6(4)] record_step [OF 6(5)] 6(6) True show ?case
      by (auto simp: returnE_def intro: beside_trans)
  qed
qed

text \<open>Starting, aborting and listing uploads.\<close>

lemma initiate_step:
  assumes run: "api_initiate_multipart sv rq b k ct st = (x, st')"
  shows "node_of st' = node_of st \<and> as_storage st' = as_storage st \<and> fs_files (as_fs st') = fs_files (as_fs st)
    \<and> (\<not> isl x \<longrightarrow> valid_bucket b \<and> valid_key k
        \<and> (\<exists>st1 up. quiet st st1 \<and> initiate_multipart_upload E (rq_now_meta rq) (as_metadata st1) b k (rq_upload_id rq) ct = (Inr up, as_metadata st')))"
proof (cases "valid_bucket b \<and> valid_key k")
  case False
  with run show ?thesis by (auto simp: api_initiate_multipart_def bindE_checkE split: sum.splits)
next
  case True
  let ?w = "write_metadata (internal_meta ''Metadata error: '')
    (\<lambda>d. initiate_multipart_upload E (rq_now_meta rq) d b k (rq_upload_id rq) ct)"
  have w: "node_of s2 = node_of s1 \<and> as_storage s2 = as_storage s1 \<and> as_fs s2 = as_fs s1
      \<and> (\<forall>up. y = Inr up \<longrightarrow> initiate_multipart_upload E (rq_now_meta rq) (as_metadata s1) b k (rq_upload_id rq) ct = (Inr up, as_metadata s2))"
    if "?w s1 = (y, s2)" for y s1 s2
  proof -
    from write_metadata_eq [OF that] obtain z d where
      i: "initiate_multipart_upload E (rq_now_meta rq) (as_metadata s1) b k (rq_upload_id rq) ct = (z, d)"
      and s2: "s2 = s1\<lparr>as_metadata := d\<rparr>" and y: "y = map_sum (internal_meta ''Metadata error: '') id z" by blast
    have "contents d CF_DEFAULT (object_db_key a c) = contents (as_metadata s1) CF_DEFAULT (object_db_key a c)" for a c
      by (rule initiate_multipart_upload_frame [OF i]) (simp add: object_db_key_def)
    then have "object_view E (contents d CF_DEFAULT) bk = object_view E (contents (as_metadata s1) CF_DEFAULT) bk" for bk
      by (cases bk) (simp add: object_view_def)
    with i s2 y show ?thesis
      by (auto simp: objects_of_def data_of_node_def fun_eq_iff map_sum_cases)
  qed
  have m: "node_of s2 = node_of s1 \<and> as_storage s2 = as_storage s1 \<and> as_metadata s2 = as_metadata s1 \<and> fs_files (as_fs s2) = fs_files (as_fs s1)"
    if "use_fs g (\<lambda>s. create_dir_all s p) s1 = (y, s2)" for g p y s1 s2
  proof -
    from use_fs_eq [OF that] obtain z s where c: "create_dir_all (as_fs s1) p = (z, s)" and s2: "s2 = s1\<lparr>as_fs := s\<rparr>" by blast
    from create_dir_all_effect [OF c] have f: "fs_files s = fs_files (as_fs s1)" by simp
    have "view (as_storage s1) s c = view (as_storage s1) (as_fs s1) c" for c
      by (rule be.view_objects) (simp add: f)
    with f s2 show ?thesis by (auto simp: objects_of_def data_of_node_def fun_eq_iff restrict_map_def)
  qed
  from True run have "bindE (validate_bucket_exists sv rq b) (\<lambda>_. bindE ?w (\<lambda>_.
      bindE (use_fs (internal_io ''Storage error: '') (\<lambda>s. create_dir_all s (parts_dir base (rq_upload_id rq)))) (\<lambda>_.
      respond_xml sv (InitiateDoc (InitiateMultipartUploadResult_new b k (rq_upload_id rq)))))) st = (x, st')"
    by (simp add: api_initiate_multipart_def bindE_checkE)
  then show ?thesis
  proof (elim bindE_cases, goal_cases)
    case (1 e)
    with quiet_node [OF validate_bucket_exists_quiet [OF 1(1)]] quiet_uploads [OF validate_bucket_exists_quiet [OF 1(1)]] show ?case by simp
  next
    case (2 v s1 e)
    note q = validate_bucket_exists_quiet [OF 2(1)]
    from quiet_node [OF q] quiet_uploads [OF q] w [OF 2(2)] 2(3) show ?case by simp
  next
    case (3 v s1 up s2 e)
    note q = validate_bucket_exists_quiet [OF 3(1)]
    from quiet_node [OF q] quiet_uploads [OF q] w [OF 3(2)] m [OF 3(3)] 3(4) show ?case by simp
  next
    case (4 v s1 up s2 z s3)
    note q = validate_bucket_exists_quiet [OF 4(1)]
    from quiet_node [OF q] quiet_uploads [OF q] w [OF 4(2)] m [OF 4(3)] respond_xml_same [OF 4(4)] q True show ?case by auto
  qed
qed

lemma remove_part_files_frame:
  "(\<forall>n \<in> set ns. q \<noteq> part_path base u n) \<Longrightarrow>
     files (foldl (\<lambda>s n. snd (remove_file s (part_path base u n))) s ns) q = files s q"
  by (induction ns arbitrary: s) (simp_all add: remove_file_frame)

lemma abort_multipart_step:
  assumes "api_abort_multipart sv b k u st = (x, st')"
  shows "beside st st'"
proof -
  have f: "beside s (on_fs (cleanup_part_files base u up) s)" for s up
    unfolding on_fs_def
  proof (rule beside_fs)
    fix q assume "prefix (base @ [''objects'']) q"
    then have "q \<noteq> part_path base u n" for n using not_objects(2) by blast
    then show "files (cleanup_part_files base u up (as_fs s)) q = files (as_fs s) q"
      using remove_dir_effect [of _ "parts_dir base u" "fst _" "snd _", OF prod.collapse [symmetric]]
      by (simp add: cleanup_part_files_def remove_part_files_frame)
  qed
  show ?thesis
    using assms f unfolding api_abort_multipart_def
    by (elim bindE_cases) (auto simp: checkE_eq returnE_def dest!: read_metadata_quiet abort_step intro: beside_trans)
qed

lemma list_uploads_step:
  "api_list_multipart_uploads sv rq b st = (x, st') \<Longrightarrow> quiet st st'"
  unfolding api_list_multipart_uploads_def
  by (elim bindE_cases) (auto simp: checkE_eq dest!: read_metadata_quiet respond_xml_same validate_bucket_exists_quiet intro: quiet_trans)

end

text \<open>A client that uploads an object in parts: it starts the upload, sends the parts and completes it.\<close>

fun upload_parts ::
  "('d, 'v, 'r, 'h) services \<Rightarrow> string \<Rightarrow> string \<Rightarrow> string \<Rightarrow> (u32 \<times> reader) list \<Rightarrow> ('r, 'd) AppState
    \<Rightarrow> (ApiError + unit) \<times> ('r, 'd) AppState" where
  "upload_parts sv b k u [] = returnE ()"
| "upload_parts sv b k u ((n, rd) # ps) = bindE (api_upload_part sv b k u n rd) (\<lambda>_. upload_parts sv b k u ps)"

definition multipart_client ::
  "('d, 'v, 'r, 'h) services \<Rightarrow> surroundings_of_request \<Rightarrow> surroundings_of_request \<Rightarrow> string \<Rightarrow> string \<Rightarrow> string option
    \<Rightarrow> (u32 \<times> reader) list \<Rightarrow> ('r, 'd) AppState \<Rightarrow> (ApiError + Response) \<times> ('r, 'd) AppState" where
  "multipart_client sv rq rq' b k ct ps =
     bindE (api_initiate_multipart sv rq b k ct) (\<lambda>_.
     bindE (upload_parts sv b k (rq_upload_id rq) ps) (\<lambda>_.
     api_complete_multipart sv rq' b k (rq_upload_id rq)))"

text \<open>What the client means to store: of each number the part that was sent last, in the order of the numbers.\<close>

definition sent_data :: "(u32 \<times> reader) list \<Rightarrow> data" where
  "sent_data ps = (let P = map_of (rev ps) in concat (map (\<lambda>n. rd_bytes (the (P n))) (sorted_list_of_set (dom P))))"

lemma part_path_inject [simp]: "part_path base u n = part_path base u n' \<longleftrightarrow> n = n'"
proof
  assume "part_path base u n = part_path base u n'"
  then have "nat_str (unat n) = nat_str (unat n')" by (simp add: part_path_def)
  then have "unat n = unat n'" by (metis digits_val_nat_str option.inject)
  then show "n = n'" by (simp add: word_unat_eq_iff)
qed simp

context api_node
begin

text \<open>The store and the files agree with the parts sent so far.\<close>

definition tracks :: "string \<Rightarrow> string \<Rightarrow> string \<Rightarrow> string option \<Rightarrow> (u32 \<rightharpoonup> reader) \<Rightarrow> ('r, 'd) AppState \<Rightarrow> bool" where
  "tracks b k u ct P st \<longleftrightarrow> wf_of st \<and> (\<exists>up. uploads_of st (b, k, u) = Some up \<and> mpu_content_type up = ct \<and> dom (mpu_parts up) = dom P)
     \<and> (\<forall>n \<in> dom P. map_option f_data (files (as_fs st) (part_path base u n)) = map_option rd_bytes (P n))"

lemma upload_part_tracks:
  assumes "api_upload_part sv b k u n rd st = (Inr resp, st')" and "plain_upload b k u" and "tracks b k u ct P st"
  shows "tracks b k u ct (P(n \<mapsto> rd)) st'"
proof -
  note s = upload_part_step [OF assms(1)]
  then have r: "record_part E (as_metadata st) b k u n (sv_sha256 sv (rd_bytes rd)) (of_nat (length (rd_bytes rd))) = (Inr (), as_metadata st')"
    and f: "\<And>q. q \<noteq> part_path base u n \<Longrightarrow> files (as_fs st') q = files (as_fs st) q"
      "map_option f_data (files (as_fs st') (part_path base u n)) = Some (rd_bytes rd)" by auto
  have "wf_of st'" using uploads_wf_record [OF _ assms(2) r] assms(3) by (simp add: tracks_def)
  moreover have "\<exists>up. uploads_of st' (b, k, u) = Some up \<and> mpu_content_type up = ct \<and> dom (mpu_parts up) = dom (P(n \<mapsto> rd))"
    using record_part_view [OF r assms(2,2)] assms(3) by (auto simp: tracks_def)
  moreover have "map_option f_data (files (as_fs st') (part_path base u m)) = map_option rd_bytes ((P(n \<mapsto> rd)) m)"
    if "m \<in> dom (P(n \<mapsto> rd))" for m
    using that f assms(3) by (cases "m = n") (auto simp: tracks_def)
  ultimately show ?thesis by (simp add: tracks_def)
qed

lemma upload_parts_tracks:
  "upload_parts sv b k u ps st = (Inr (), st') \<Longrightarrow> plain_upload b k u \<Longrightarrow> tracks b k u ct P st \<Longrightarrow> root (as_storage st) = base \<Longrightarrow>
     tracks b k u ct (P ++ map_of (rev ps)) st' \<and> node_of st' = node_of st \<and> as_storage st' = as_storage st"
proof (induction ps arbitrary: st P)
  case (Cons p ps)
  obtain n rd where p: "p = (n, rd)" by fastforce
  with Cons.prems(1) obtain resp s1 where u: "api_upload_part sv b k u n rd st = (Inr resp, s1)"
    and r: "upload_parts sv b k u ps s1 = (Inr (), st')" by (auto simp: bindE_Inr_iff)
  from upload_part_step [OF u] have s: "beside st s1" by simp
  have s1: "node_of s1 = node_of st" "as_storage s1 = as_storage st"
    using beside_node [OF s] s Cons.prems(4) by (simp_all add: beside_def)
  note t = upload_part_tracks [OF u Cons.prems(2,3)]
  have "P ++ map_of (rev (p # ps)) = P(n \<mapsto> rd) ++ map_of (rev ps)" by (simp add: p)
  with Cons.IH [OF r Cons.prems(2) t] s1 Cons.prems(4) show ?case by metis
qed (simp add: returnE_def)

lemma initiate_tracks:
  assumes "api_initiate_multipart sv rq b k ct st = (Inr resp, st')" and pl: "plain_upload b k (rq_upload_id rq)" and "wf_of st"
    and fresh: "parts_view E (contents (as_metadata st) CF_DEFAULT) b k (rq_upload_id rq) = Map.empty"
  shows "tracks b k (rq_upload_id rq) ct Map.empty st'"
proof -
  from initiate_step [OF assms(1)] obtain st1 up where q: "quiet st st1"
    and i: "initiate_multipart_upload E (rq_now_meta rq) (as_metadata st1) b k (rq_upload_id rq) ct = (Inr up, as_metadata st')" by auto
  have "wf_of st'" using uploads_wf_initiate [OF _ pl i] quiet_uploads(2) [OF q] assms(3) by simp
  moreover have "uploads_of st' (b, k, rq_upload_id rq) = Some (up\<lparr>mpu_parts := Map.empty\<rparr>)" "mpu_content_type up = ct"
    using initiate_multipart_upload_view [OF i pl pl] initiate_multipart_upload_ok [OF i] fresh
    by (simp_all add: quiet_uploads(5) [OF q] upload_of_def)
  ultimately show ?thesis by (simp add: tracks_def)
qed

lemma tracks_sent_data:
  assumes "tracks b k u ct (map_of (rev ps)) st"
  shows "\<exists>up. uploads_of st (b, k, u) = Some up \<and> mpu_content_type up = ct \<and> parts_data (as_fs st) base u (part_numbers up) = sent_data ps"
proof -
  let ?P = "map_of (rev ps)"
  from assms obtain up where up: "uploads_of st (b, k, u) = Some up" "mpu_content_type up = ct" "dom (mpu_parts up) = dom ?P"
    and f: "\<And>n. n \<in> dom ?P \<Longrightarrow> map_option f_data (files (as_fs st) (part_path base u n)) = map_option rd_bytes (?P n)"
    by (auto simp: tracks_def)
  have "(case files (as_fs st) (part_path base u n) of Some f \<Rightarrow> f_data f | None \<Rightarrow> []) = rd_bytes (the (?P n))" if "n \<in> dom ?P" for n
    using f [OF that] that by (auto split: option.splits)
  then have "parts_data (as_fs st) base u (part_numbers up) = sent_data ps"
    unfolding parts_data_def part_numbers_def sent_data_def Let_def up(3)
    by (intro arg_cong [where f = concat] map_cong refl) (simp add: finite_dom_map_of)
  with up show ?thesis by blast
qed

end

section \<open>All requests\<close>

datatype api_request =
    ObjectRequest object_request
  | BucketRequest bucket_request
  | InitiateRequest string string "string option"
  | UploadPartRequest string string string u32 reader
  | CompleteRequest string string string
  | AbortRequest string string string
  | ListUploadsRequest string

fun handle_request ::
  "('d, 'v, 'r, 'h) services \<Rightarrow> surroundings_of_request \<Rightarrow> api_request \<Rightarrow> ('r, 'd) AppState
    \<Rightarrow> (ApiError + Response) \<times> ('r, 'd) AppState" where
  "handle_request sv rq (ObjectRequest r) = handle_object sv rq r"
| "handle_request sv rq (BucketRequest r) = handle_bucket sv rq r"
| "handle_request sv rq (InitiateRequest b k ct) = api_initiate_multipart sv rq b k ct"
| "handle_request sv rq (UploadPartRequest b k u n rd) = api_upload_part sv b k u n rd"
| "handle_request sv rq (CompleteRequest b k u) = api_complete_multipart sv rq b k u"
| "handle_request sv rq (AbortRequest b k u) = api_abort_multipart sv b k u"
| "handle_request sv rq (ListUploadsRequest b) = api_list_multipart_uploads sv rq b"

fun request_in :: "string set \<Rightarrow> api_request \<Rightarrow> bool" where
  "request_in keys (ObjectRequest r) \<longleftrightarrow> (case request_key r of Some f \<Rightarrow> f \<in> keys | None \<Rightarrow> True)"
| "request_in keys (CompleteRequest b k u) \<longleftrightarrow> storage_key b k \<in> keys"
| "request_in keys _ \<longleftrightarrow> True"

text \<open>The states a node comes to by serving requests for objects with the given storage keys.\<close>

inductive served :: "('d, 'v, 'r, 'h) services \<Rightarrow> string set \<Rightarrow> ('r, 'd) AppState \<Rightarrow> ('r, 'd) AppState \<Rightarrow> bool"
  for sv :: "('d, 'v, 'r, 'h) services" and keys :: "string set" and st0 :: "('r, 'd) AppState" where
  start: "served sv keys st0 st0"
| serve: "served sv keys st0 st \<Longrightarrow> request_in keys r \<Longrightarrow> handle_request sv rq r st = (x, st') \<Longrightarrow> served sv keys st0 st'"

context api_node
begin

text \<open>Where the storage keeps its files is fixed.\<close>

abbreviation "rooted \<equiv> keepsE (\<lambda>st. root (as_storage st) = base)"

lemma rooted_steps [simp]:
  "rooted (ensure_read_consistency sv)" "rooted (validate_bucket_exists sv rq b)" "rooted (raft_submit sv g cmd)"
  "rooted (use_storage h (\<lambda>r s. be_write_temp_object (sv_backend sv) r s key rd))"
  "rooted (use_storage h (\<lambda>r s. be_commit_object (sv_backend sv) r s t))"
  "rooted (use_storage h (\<lambda>r s. be_delete_object (sv_backend sv) r s key))"
  "rooted (use_storage h (\<lambda>r s. be_get_object (sv_backend sv) r s key))"
  "rooted (respond_xml sv doc)" "rooted (failE e)"
  by (auto simp: keepsE_def storage_root raft_submit_def failE_def dest: quiet_uploads(4) [OF ensure_read_consistency_quiet]
      quiet_uploads(4) [OF validate_bucket_exists_quiet] write_metadata_eq respond_xml_same)

lemma rooted_guard: "rooted rest \<Longrightarrow> rooted (with_guard sv rq t b k rest)"
  unfolding keepsE_def by (metis with_guard_cases quiet_uploads(4))

lemma rooted_read_guard: "rooted rest \<Longrightarrow> rooted (with_read_guard sv rq b k rest)"
  by (simp add: with_read_guard_def rooted_guard)

lemma handle_object_root: "rooted (handle_object sv rq r)"
  by (cases r) (auto simp: api_put_object_def api_get_object_def api_head_object_def api_delete_object_def api_list_objects_def
      put_under_lock_def store_and_publish_def get_under_lock_def head_under_lock_def delete_under_lock_def Let_def HashingReader_finalize_def
      intro!: keepsE_bind rooted_guard rooted_read_guard)

lemma raft_submit_storage: "raft_submit sv g cmd st = (x, st') \<Longrightarrow> as_storage st' = as_storage st"
  by (auto simp: raft_submit_def dest: write_metadata_eq)

lemma handle_bucket_storage:
  assumes "handle_bucket sv rq r st = (x, st')"
  shows "as_storage st' = as_storage st"
proof (cases r)
  case (CreateBucketRequest b)
  with assms show ?thesis
    by (auto simp: api_create_bucket_def checkE_eq returnE_def elim!: bindE_cases dest!: raft_submit_storage split: if_splits)
next
  case (DeleteBucketRequest b)
  with assms show ?thesis
    by (auto simp: api_delete_bucket_def checkE_eq returnE_def elim!: bindE_cases dest!: raft_submit_storage read_metadata_quiet split: if_splits)
next
  case (HeadBucketRequest b)
  with assms show ?thesis
    by (auto simp: api_head_bucket_def checkE_eq returnE_def elim!: bindE_cases
        dest!: quiet_uploads(4) [OF ensure_read_consistency_quiet] read_metadata_quiet)
next
  case ListBucketsRequest
  with assms show ?thesis
    by (auto simp: api_list_buckets_def elim!: bindE_cases
        dest!: quiet_uploads(4) [OF ensure_read_consistency_quiet] read_metadata_quiet respond_xml_same)
qed

text \<open>Every request is a step of the abstract node.\<close>

lemma request_step:
  assumes run: "handle_request sv rq r st = (x, st')" and keys: "request_in keys r" and rt: "root (as_storage st) = base"
  shows "(\<exists>ok q. request_slash_free q \<and> node_step ok q (node_of st) (node_of st')) \<and> root (as_storage st') = base"
proof -
  have same: ?thesis if "node_of st' = node_of st" "root (as_storage st') = base"
  proof -
    have "request_slash_free OtherReq \<and> node_step True OtherReq (node_of st) (node_of st')" using that(1) by simp
    with that(2) show ?thesis by blast
  qed
  have be: ?thesis if "beside st st'"
    using same beside_node [OF that rt] that rt by (simp add: beside_def)
  show ?thesis
  proof (cases r)
    case (ObjectRequest q)
    with run have q: "handle_object sv rq q st = (x, st')" by simp
    have f: "request_slash_free (abstract_request sv rq q)" by (cases q) auto
    have "f \<in> keys" if "request_key q = Some f" for f using keys ObjectRequest that by simp
    then have "node_step (\<not> isl x) (abstract_request sv rq q) (node_of st) (node_of st')" by (rule handle_object_step [OF q])
    with f handle_object_root [of rq q] q rt show ?thesis unfolding keepsE_def by blast
  next
    case (BucketRequest q)
    with run handle_bucket_node [of rq q st x st'] handle_bucket_storage [of rq q st x st'] rt same show ?thesis by simp
  next
    case (InitiateRequest b k ct)
    with run initiate_step [of rq b k ct st x st'] rt same show ?thesis by simp
  next
    case (UploadPartRequest b k u n rd)
    with run upload_part_step [of b k u n rd st x st'] be show ?thesis by simp
  next
    case (CompleteRequest b k u)
    with run complete_step [of rq b k u st x st'] keys rt same show ?thesis
      by simp (metis request_slash_free.simps(1))
  next
    case (AbortRequest b k u)
    with run abort_multipart_step [of b k u st x st'] be show ?thesis by simp
  next
    case (ListUploadsRequest b)
    with run list_uploads_step [of rq b st x st'] quiet_node [of st st'] quiet_uploads(4) [of st st'] rt same show ?thesis by simp
  qed
qed

lemma served_backed:
  assumes "served sv keys st st'" and "root (as_storage st) = base" and "backed keys (node_of st)"
  shows "root (as_storage st') = base \<and> backed keys (node_of st')"
  using assms
proof (induction rule: served.induct)
  case (serve st1 r rq x st2)
  then have i: "root (as_storage st1) = base" "backed keys (node_of st1)" by auto
  from request_step [OF serve(3,2) i(1)] node_step_backed i(2) show ?case by blast
qed simp

end

section \<open>Properties\<close>

text \<open>
  C33: A part that was received is stored. If a request to store a part succeeds, its number is
  between 1 and 10000, its body was read to its end and has at most five gibibytes; the file of the
  part holds exactly the bytes of the body, the upload has the part with the hash and the size of
  the body (the size is never truncated), no other part's file, no object and no content changed.
\<close>

theorem uploaded_part_stored:
  assumes "api_node sv contents view staged root keys" and "root (as_storage st) = data_path (sv_config sv)"
    and "plain_upload b k u" and "api_upload_part sv b k u n rd st = (Inr resp, st')"
  shows "0 < n \<and> n \<le> 10000 \<and> rd_end rd = Inr () \<and> length (rd_bytes rd) \<le> 5368709120
    \<and> map_option f_data (files (as_fs st') (part_path (data_path (sv_config sv)) u n)) = Some (rd_bytes rd)
    \<and> (\<exists>old sz. upload_view (sv_env sv) (contents (as_metadata st) CF_DEFAULT) (b, k, u) = Some old
         \<and> upload_view (sv_env sv) (contents (as_metadata st') CF_DEFAULT) (b, k, u) = Some (old\<lparr>mpu_parts := (mpu_parts old)
             (n \<mapsto> \<lparr>part_number = n, part_etag = sv_sha256 sv (rd_bytes rd), part_size = sz\<rparr>)\<rparr>)
         \<and> unat sz = length (rd_bytes rd))
    \<and> (\<forall>m. m \<noteq> n \<longrightarrow> files (as_fs st') (part_path (data_path (sv_config sv)) u m) = files (as_fs st) (part_path (data_path (sv_config sv)) u m))
    \<and> objects_of sv contents st' = objects_of sv contents st \<and> data_of_node view keys st' = data_of_node view keys st"
proof -
  let ?base = "data_path (sv_config sv)"
  have env: "metadata_env (sv_env sv) contents" using assms(1) by (simp add: api_node_def raft_client_def)
  note s = api_node.upload_part_step [OF assms(1,4)]
  from s have be: "api_node.beside sv contents st st'" and fr: "\<And>q. q \<noteq> part_path ?base u n \<Longrightarrow> files (as_fs st') q = files (as_fs st) q"
    and r: "record_part (sv_env sv) (as_metadata st) b k u n (sv_sha256 sv (rd_bytes rd)) (of_nat (length (rd_bytes rd))) = (Inr (), as_metadata st')"
    and len: "length (rd_bytes rd) \<le> 5368709120"
    by (auto simp: MAX_PART_SIZE_def)
  have old: "upload_view (sv_env sv) (contents (as_metadata st) CF_DEFAULT) (b, k, u) \<noteq> None"
    using s by (auto simp: get_multipart_upload_def upload_view_def dest!: metadata_env.get_law [OF env] split: sum.splits option.splits)
  then obtain old where old: "upload_view (sv_env sv) (contents (as_metadata st) CF_DEFAULT) (b, k, u) = Some old" by blast
  have "upload_view (sv_env sv) (contents (as_metadata st') CF_DEFAULT) (b, k, u) = Some (old\<lparr>mpu_parts := (mpu_parts old)
      (n \<mapsto> \<lparr>part_number = n, part_etag = sv_sha256 sv (rd_bytes rd), part_size = of_nat (length (rd_bytes rd))\<rparr>)\<rparr>)"
    using metadata_env.record_part_view [OF env r assms(3,3)] old by simp
  moreover have "unat (of_nat (length (rd_bytes rd)) :: u64) = length (rd_bytes rd)" using len by (simp add: unat_of_nat)
  ultimately show ?thesis using s old len fr api_node.beside_node [OF assms(1) be assms(2)] by auto
qed

text \<open>
  C3: An upload in parts becomes the object its parts make up. If a client starts an upload, sends
  parts, in any order and some of them repeatedly, and completes the upload, and all requests
  succeed, then the object exists and its contents are the parts, of each number the one sent last,
  joined in the order of their numbers; its metadata has the length and the hash of the whole and
  the type given at the start. The upload is gone, and no other object changed.
\<close>

theorem multipart_upload_roundtrip:
  assumes "api_node sv contents view staged root keys" and "storage_key b k \<in> keys" and "root (as_storage st) = data_path (sv_config sv)"
    and "uploads_wf (sv_env sv) (contents (as_metadata st) CF_DEFAULT)" and "plain_upload b k (rq_upload_id rq)"
    and "parts_view (sv_env sv) (contents (as_metadata st) CF_DEFAULT) b k (rq_upload_id rq) = Map.empty"
    and "multipart_client sv rq rq' b k ct ps st = (Inr resp, st')"
  shows "data_of_node view keys st' = (data_of_node view keys st)(storage_key b k \<mapsto> sent_data ps)
    \<and> objects_of sv contents st' = (objects_of sv contents st)((b, k) \<mapsto>
        (ObjectMetadata_new (rq_now_meta rq') b k (of_nat (length (sent_data ps))) (sv_sha256 sv (sent_data ps)))\<lparr>obj_content_type := ct\<rparr>)
    \<and> upload_view (sv_env sv) (contents (as_metadata st') CF_DEFAULT) (b, k, rq_upload_id rq) = None"
proof -
  let ?u = "rq_upload_id rq"
  from assms(7) obtain r1 s1 s2 where i: "api_initiate_multipart sv rq b k ct st = (Inr r1, s1)"
    and p: "upload_parts sv b k ?u ps s1 = (Inr (), s2)" and c: "api_complete_multipart sv rq' b k ?u s2 = (Inr resp, st')"
    by (auto simp: multipart_client_def bindE_Inr_iff)
  have s1: "root (as_storage s1) = data_path (sv_config sv)" using api_node.initiate_step [OF assms(1) i] assms(3) by simp
  note t1 = api_node.initiate_tracks [OF assms(1) i assms(5,4,6)]
  note t2 = api_node.upload_parts_tracks [OF assms(1) p assms(5) t1 s1]
  have w: "uploads_wf (sv_env sv) (contents (as_metadata s2) CF_DEFAULT)" and rt: "root (as_storage s2) = data_path (sv_config sv)"
    using t2 s1 by (simp_all add: api_node.tracks_def [OF assms(1)])
  from t2 api_node.tracks_sent_data [OF assms(1), of b k ?u ct ps s2] obtain up where
    up: "upload_view (sv_env sv) (contents (as_metadata s2) CF_DEFAULT) (b, k, ?u) = Some up" "mpu_content_type up = ct"
      "parts_data (as_fs s2) (data_path (sv_config sv)) ?u (part_numbers up) = sent_data ps" by auto
  from api_node.complete_success [OF assms(1) c assms(2) rt w assms(5)] up t2 api_node.initiate_step [OF assms(1) i] show ?thesis
    by (simp add: completed_metadata_def put_metadata_def Let_def)
qed

text \<open>An upload whose only part is sent twice.\<close>

definition example_parts :: "(u32 \<times> reader) list" where
  "example_parts = [(1, \<lparr>rd_bytes = [9], rd_end = Inr ()\<rparr>), (1, \<lparr>rd_bytes = [1, 2], rd_end = Inr ()\<rparr>)]"

lemma example_wf:
  "uploads_wf (sv_env example_services) (mem_contents (as_metadata example_state) CF_DEFAULT)"
  "parts_view (sv_env example_services) (mem_contents (as_metadata example_state) CF_DEFAULT) ''photos'' ''a'' ''u1'' = Map.empty"
  "local_root (as_storage example_state) = data_path (sv_config example_services)"
  "plain_upload ''photos'' ''a'' ''u1''" "storage_key ''photos'' ''a'' \<in> node_keys" "rq_upload_id example_surroundings = ''u1''"
  "data_path (sv_config example_services) = [''data'']"
proof -
  have m: "as_metadata example_state = [(CF_DEFAULT, (''bkt:photos'', VBucket (Bucket_new 0 ''photos'')))]" by code_simp
  have c: "mem_contents (as_metadata example_state) CF_DEFAULT x = None" if "prefix ''mpu:'' x" for x
    using that unfolding m by (auto simp: mem_contents_def mem_cf_def)
  show "uploads_wf (sv_env example_services) (mem_contents (as_metadata example_state) CF_DEFAULT)"
    by (auto simp: uploads_wf_def c)
  show "parts_view (sv_env example_services) (mem_contents (as_metadata example_state) CF_DEFAULT) ''photos'' ''a'' ''u1'' = Map.empty"
    by (simp add: parts_view_def c fun_eq_iff)
  show "local_root (as_storage example_state) = data_path (sv_config example_services)" by code_simp
  show "plain_upload ''photos'' ''a'' ''u1''" by code_simp
qed (simp_all add: storage_key_def node_keys_def example_surroundings_def example_services_def)

lemma example_upload_run:
  "case bindE (api_initiate_multipart example_services example_surroundings ''photos'' ''a'' (Some ''text/plain'')) (\<lambda>_.
      upload_parts example_services ''photos'' ''a'' ''u1'' example_parts) example_state of (x, s) \<Rightarrow>
      \<not> isl x \<and> (case acquire_guard example_services example_surroundings Write ''photos'' ''a'' s of (y, st1) \<Rightarrow>
        \<not> isl y \<and> \<not> isl (get_multipart_upload mem_env (as_metadata st1) ''photos'' ''a'' ''u1'')
        \<and> \<not> isl (fst (complete_parts example_services example_surroundings ''photos'' ''a'' ''u1'' (Some ''text/plain'') [1] st1)))"
  by code_simp

lemma example_multipart_client:
  obtains resp st' where "multipart_client example_services example_surroundings example_surroundings ''photos'' ''a'' (Some ''text/plain'')
    example_parts example_state = (Inr resp, st')"
proof -
  let ?sv = example_services and ?rq = example_surroundings
  obtain x s2 where e: "bindE (api_initiate_multipart ?sv ?rq ''photos'' ''a'' (Some ''text/plain'')) (\<lambda>_.
      upload_parts ?sv ''photos'' ''a'' ''u1'' example_parts) example_state = (x, s2)" by fastforce
  obtain y st1 where g: "acquire_guard ?sv ?rq Write ''photos'' ''a'' s2 = (y, st1)" by fastforce
  obtain z st2 where c: "complete_parts ?sv ?rq ''photos'' ''a'' ''u1'' (Some ''text/plain'') [1] st1 = (z, st2)" by fastforce
  from example_upload_run e g c have n: "\<not> isl x" "\<not> isl y" "\<not> isl (get_multipart_upload mem_env (as_metadata st1) ''photos'' ''a'' ''u1'')" "\<not> isl z"
    by simp_all
  then obtain up h resp where u: "get_multipart_upload mem_env (as_metadata st1) ''photos'' ''a'' ''u1'' = Inr up" and y: "y = Inr h" and z: "z = Inr resp"
    by (metis sum.collapse(2))
  from n(1) have "x = Inr ()" by (cases x) simp_all
  with e obtain r1 s1 where i: "api_initiate_multipart ?sv ?rq ''photos'' ''a'' (Some ''text/plain'') example_state = (Inr r1, s1)"
    and p: "upload_parts ?sv ''photos'' ''a'' ''u1'' example_parts s1 = (Inr (), s2)" by (auto simp: bindE_Inr_iff)
  have rt: "local_root (as_storage s1) = data_path (sv_config ?sv)" using ex_node.initiate_step [OF i] example_wf(3) by simp
  note t = ex_node.upload_parts_tracks [OF p example_wf(4) ex_node.initiate_tracks [OF i, unfolded example_wf(6), OF example_wf(4,1,2)] rt]
  note q = ex_node.quiet_uploads [OF ex_node.acquire_guard_quiet [OF g]]
  have env: "sv_env ?sv = mem_env" by (simp add: example_services_def)
  have "mpu_content_type up = Some ''text/plain'' \<and> dom (mpu_parts up) = {1}"
    using t ex_node.get_multipart_upload_ok [OF _ example_wf(4) u [folded env]]
    by (auto simp: ex_node.tracks_def example_parts_def q)
  then have "mpu_content_type up = Some ''text/plain''" "part_numbers up = [1]" by (simp_all add: part_numbers_def)
  then have "complete_under_lock ?sv ?rq ''photos'' ''a'' ''u1'' st1 = (Inr resp, st2)"
    using u c z by (simp add: complete_under_lock_def read_metadata_def bindE_def env)
  moreover have "valid_bucket ''photos''" "valid_key ''a''" by code_simp+
  ultimately have "api_complete_multipart ?sv ?rq ''photos'' ''a'' ''u1'' s2 = (Inr resp, drop_guard ?sv ''photos'' ''a'' h st2)"
    using g y by (simp add: api_complete_multipart_def bindE_checkE with_guard_def bindE_def)
  then show thesis using i p by (intro that) (simp add: multipart_client_def example_wf(6) bindE_def)
qed

theorem multipart_upload_roundtrip_witness:
  "\<exists>resp st'. multipart_client example_services example_surroundings example_surroundings ''photos'' ''a'' (Some ''text/plain'')
       example_parts example_state = (Inr resp, st')
   \<and> data_of_node (object_view_fs node_sha) node_keys st' ''photos/a'' = Some [1, 2]"
proof -
  obtain resp st' where r: "multipart_client example_services example_surroundings example_surroundings ''photos'' ''a'' (Some ''text/plain'')
    example_parts example_state = (Inr resp, st')" by (rule example_multipart_client)
  have d: "sent_data example_parts = [1, 2]" by (simp add: sent_data_def example_parts_def)
  have k: "storage_key ''photos'' ''a'' = ''photos/a''" by (simp add: storage_key_def)
  from multipart_upload_roundtrip [OF ex_node.api_node_axioms example_wf(5,3,1), where rq = example_surroundings, unfolded example_wf(6), OF example_wf(4,2) r] r d
  show ?thesis by (simp add: k)
qed

theorem uploaded_part_stored_witness:
  "\<exists>r1 s1 resp st'. api_initiate_multipart example_services example_surroundings ''photos'' ''a'' (Some ''text/plain'') example_state = (Inr r1, s1)
   \<and> api_upload_part example_services ''photos'' ''a'' ''u1'' 1 \<lparr>rd_bytes = [9], rd_end = Inr ()\<rparr> s1 = (Inr resp, st')
   \<and> map_option f_data (files (as_fs st') (part_path [''data''] ''u1'' 1)) = Some [9]"
proof -
  obtain resp st' where r: "multipart_client example_services example_surroundings example_surroundings ''photos'' ''a'' (Some ''text/plain'')
    example_parts example_state = (Inr resp, st')" by (rule example_multipart_client)
  then obtain r1 s1 r2 s2 where i: "api_initiate_multipart example_services example_surroundings ''photos'' ''a'' (Some ''text/plain'') example_state = (Inr r1, s1)"
    and u: "api_upload_part example_services ''photos'' ''a'' ''u1'' 1 \<lparr>rd_bytes = [9], rd_end = Inr ()\<rparr> s1 = (Inr r2, s2)"
    by (auto simp: multipart_client_def bindE_Inr_iff example_parts_def example_wf(6))
  have "local_root (as_storage s1) = data_path (sv_config example_services)" using ex_node.initiate_step [OF i] example_wf(3) by simp
  from uploaded_part_stored [OF ex_node.api_node_axioms this example_wf(4) u] i u show ?thesis by (auto simp: example_wf(7))
qed

text \<open>
  C4: Every object of the store has contents. Whatever requests a node serves (for buckets, objects
  and uploads, in any order), and whatever fails while it serves them, if at the start every object
  with metadata has contents in the storage, then this holds in every state the node comes to.
\<close>

theorem objects_stay_backed:
  assumes "api_node sv contents view staged root keys" and "root (as_storage st) = data_path (sv_config sv)"
    and "served sv keys st st'" and "backed keys (objects_of sv contents st, data_of_node view keys st)"
  shows "backed keys (objects_of sv contents st', data_of_node view keys st')"
  using api_node.served_backed [OF assms(1,3,2,4)] by simp

theorem objects_stay_backed_witness:
  "\<exists>resp st1 st2. served example_services node_keys example_state st2
   \<and> api_put_object example_services example_surroundings ''photos'' ''a'' example_body example_state = (Inr resp, st1)
   \<and> (\<exists>x. api_delete_bucket example_services ''photos'' st1 = (x, st2))
   \<and> backed node_keys (objects_of example_services mem_contents st2, data_of_node (object_view_fs node_sha) node_keys st2)"
proof -
  let ?sv = example_services and ?rq = example_surroundings
  obtain resp st1 where p: "api_put_object ?sv ?rq ''photos'' ''a'' example_body example_state = (Inr resp, st1)"
    by (rule example_put)
  obtain x st2 where d: "api_delete_bucket ?sv ''photos'' st1 = (x, st2)" by fastforce
  have "served ?sv node_keys example_state st1"
    by (rule served.serve [OF served.start, where r = "ObjectRequest (PutRequest ''photos'' ''a'' example_body)"])
      (use p example_wf(5) in simp_all)
  then have s: "served ?sv node_keys example_state st2"
    by (rule served.serve [where r = "BucketRequest (DeleteBucketRequest ''photos'')" and rq = ?rq]) (use d in simp_all)
  have m: "as_metadata example_state = [(CF_DEFAULT, (''bkt:photos'', VBucket (Bucket_new 0 ''photos'')))]" by code_simp
  have "objects_of ?sv mem_contents example_state bk = None" for bk
    by (auto simp: objects_of_def object_view_def m mem_contents_def mem_cf_def object_db_key_def split: option.splits prod.splits)
  then have "backed node_keys (objects_of ?sv mem_contents example_state, data_of_node (object_view_fs node_sha) node_keys example_state)"
    by (simp add: backed_def domIff)
  from objects_stay_backed [OF ex_node.api_node_axioms example_wf(3) s this] s p d show ?thesis by blast
qed

text \<open>
  A failure while an upload is completed costs its parts. Here the disk reports one error while the
  only part is copied; the request fails, the guard removes the files of all parts, and the upload
  remains in the store with its part recorded, so that no later request can complete it.
\<close>

theorem failed_complete_loses_parts:
  "case bindE (api_initiate_multipart example_services example_surroundings ''photos'' ''a'' None) (\<lambda>_.
      upload_parts example_services ''photos'' ''a'' ''u1'' example_parts) example_state of (x, s) \<Rightarrow>
      (case complete_parts example_services example_surroundings ''photos'' ''a'' ''u1'' None [1]
          (s\<lparr>as_fs := (as_fs s)\<lparr>fs_faults := [None, None, Some (io_other ''read error'', 0)]\<rparr>\<rparr>) of (y, s1) \<Rightarrow>
        y = Inl (Internal ''I/O error reading part 1'')
        \<and> fst (complete_parts example_services example_surroundings ''photos'' ''a'' ''u1'' None [1] s1) = Inl (Internal ''Missing part 1'')
        \<and> \<not> isl (get_multipart_upload mem_env (as_metadata s1) ''photos'' ''a'' ''u1''))"
  by code_simp

end
