(* ===== verification/Api_Gc.thy ===== *)
theory Api_Gc
  imports Api_Multipart "HOL-Library.Multiset"
begin

text \<open>
  The collector of abandoned temporary files, \<open>crates/save-api/src/gc.rs\<close>, with the listing of the
  temporary directory it uses (\<open>list_temp_files\<close> of the storage crate). One cycle is modelled here;
  the worker that repeats it is in \<open>Node_Workers\<close>.
\<close>

section \<open>The files below a directory\<close>

text \<open>
  One pass over the entries of a directory: files are collected, directories are pushed on the stack
  of those to process (its top is the head of the list).
\<close>

fun scan_entries ::
  "path list \<Rightarrow> (path \<times> instant) list \<Rightarrow> path list \<Rightarrow> fs \<Rightarrow> (StorageError + (path \<times> instant) list \<times> path list) \<times> fs" where
  "scan_entries [] found dirs s =
     (case next_fault s of
        (Some (e, _), s1) \<Rightarrow> (Inl (StorageIo e), s1)
      | (None, s1) \<Rightarrow> (Inr (found, dirs), s1))"
| "scan_entries (q # qs) found dirs s =
     (case next_fault s of
        (Some (e, _), s1) \<Rightarrow> (Inl (StorageIo e), s1)
      | (None, s1) \<Rightarrow>
        (case fs_metadata s1 q of
           (Inl e, s2) \<Rightarrow> (Inl (StorageIo e), s2)
         | (Inr (IsFile _), s2) \<Rightarrow>
             scan_entries qs (case file_at s1 q of Some f \<Rightarrow> found @ [(q, f_mtime f)] | None \<Rightarrow> found) dirs s2
         | (Inr IsDir, s2) \<Rightarrow> scan_entries qs found (q # dirs) s2))"

fun path_display :: "path \<Rightarrow> string" where
  "path_display [] = []"
| "path_display [c] = c"
| "path_display (c # cs) = c @ ''/'' @ path_display cs"

definition read_dir_error :: "path \<Rightarrow> IoError \<Rightarrow> StorageError" where
  "read_dir_error dir e = (if io_kind e = NotFoundKind then NotFound (path_display dir) else StorageIo e)"

lemma scan_entries_effect:
  assumes "scan_entries qs found dirs s = (x, s')"
  shows "fs_files s' = fs_files s \<and> fs_dirs s' = fs_dirs s
    \<and> (\<forall>found' dirs'. x = Inr (found', dirs') \<longrightarrow>
         (\<exists>new. dirs' = new @ dirs \<and> set new \<subseteq> set qs \<inter> set (fs_dirs s)) \<and>
         (\<exists>new. found' = found @ new \<and> (\<forall>(q, t) \<in> set new. q \<in> set qs \<and> (\<exists>f. files s q = Some f \<and> f_mtime f = t))))"
  using assms
proof (induction qs found dirs s rule: scan_entries.induct)
  case (1 found dirs s)
  then show ?case by (auto dest!: next_fault_eq split: prod.splits option.splits)
next
  case (2 q qs found dirs s)
  obtain y s1 where n: "next_fault s = (y, s1)" by fastforce
  obtain z s2 where m: "fs_metadata s1 q = (z, s2)" by fastforce
  note e = next_fault_eq [OF n] and em = fs_metadata_effect [OF m]
  consider (fault) "y \<noteq> None" | (error) er where "y = None" "z = Inl er" | (is_file) k where "y = None" "z = Inr (IsFile k)"
    | (dir) "y = None" "z = Inr IsDir" by (cases y; cases z; cases "projr z") auto
  then show ?case
  proof cases
    case fault
    with 2(3) n e show ?thesis by auto
  next
    case error
    with 2(3) n m e em show ?thesis by auto
  next
    case is_file
    with em e obtain f where f: "files s q = Some f" "files s1 q = Some f" by auto
    with 2(3) is_file n m have r: "scan_entries qs (found @ [(q, f_mtime f)]) dirs s2 = (x, s')" by simp
    have "scan_entries qs (case file_at s1 q of Some f \<Rightarrow> found @ [(q, f_mtime f)] | None \<Rightarrow> found) dirs s2 = (x, s')" using r f by simp
    note ih = 2(1) [OF n [symmetric] is_file(1) m [symmetric] is_file(2) refl this]
    from ih e em f show ?thesis by fastforce
  next
    case dir
    with 2(3) n m have r: "scan_entries qs found (q # dirs) s2 = (x, s')" by simp
    note ih = 2(2) [OF n [symmetric] dir(1) m [symmetric] dir(2) refl r]
    have "q \<in> set (fs_dirs s)"
      using m dir e by (auto simp: fs_metadata_def dest!: next_fault_eq split: prod.splits option.splits if_splits)
    with ih e em show ?thesis by fastforce
  qed
qed

text \<open>
  The loop over the stack of directories ends because the entries of a directory lie deeper than the
  directory and no directory lies deeper than the deepest one.
\<close>

definition depth_left :: "fs \<Rightarrow> path \<Rightarrow> nat" where
  "depth_left s d = Suc (Max (insert 0 (length ` set (fs_dirs s)))) - length d"

lemma depth_left_less: "q \<in> set (fs_dirs s) \<Longrightarrow> length d < length q \<Longrightarrow> depth_left s q < depth_left s d"
proof -
  assume q: "q \<in> set (fs_dirs s)" and l: "length d < length q"
  have "length q \<le> Max (insert 0 (length ` set (fs_dirs s)))" using q by (intro Max_ge) auto
  with l show ?thesis by (simp add: depth_left_def)
qed

lemma dirs_decrease:
  assumes "set new \<subseteq> set (dir_entries s dir) \<inter> set (fs_dirs s)" and "fs_dirs s2 = fs_dirs s"
  shows "(image_mset (depth_left s2) (mset (new @ dirs)), image_mset (depth_left s) (mset (dir # dirs))) \<in> mult less_than"
proof -
  have d: "depth_left s2 = depth_left s" by (simp add: depth_left_def assms(2) fun_eq_iff)
  have "depth_left s q < depth_left s dir" if "q \<in> set new" for q
  proof -
    from that assms(1) have "q \<in> set (fs_dirs s)" "q \<noteq> []" "butlast q = dir" by (auto simp: dir_entries_def)
    then show ?thesis by (intro depth_left_less) auto
  qed
  then have "(image_mset (depth_left s) (mset dirs) + image_mset (depth_left s) (mset new),
      image_mset (depth_left s) (mset dirs) + {#depth_left s dir#}) \<in> mult less_than"
    by (intro one_step_implies_mult) auto
  then show ?thesis by (simp add: d add.commute)
qed

lemma scan_decreases:
  assumes "read_dir s dir = (Inr es, s1)" and "scan_entries es found dirs s1 = (Inr (found', dirs'), s2)"
  shows "(image_mset (depth_left s2) (mset dirs'), image_mset (depth_left s) (mset (dir # dirs))) \<in> mult less_than"
proof -
  from read_dir_effect [OF assms(1)] have s1: "fs_dirs s1 = fs_dirs s" "es = dir_entries s dir" by auto
  from scan_entries_effect [OF assms(2)] s1 obtain new where "dirs' = new @ dirs" "set new \<subseteq> set es \<inter> set (fs_dirs s)"
    "fs_dirs s2 = fs_dirs s" by auto
  with dirs_decrease [of new s dir s2 dirs] s1(2) show ?thesis by simp
qed

function list_temp_loop ::
  "path list \<Rightarrow> (path \<times> instant) list \<Rightarrow> fs \<Rightarrow> (StorageError + (path \<times> instant) list) \<times> fs" where
  "list_temp_loop [] found s = (Inr found, s)"
| "list_temp_loop (dir # dirs) found s =
     (case read_dir s dir of
        (Inl e, s1) \<Rightarrow> (Inl (read_dir_error dir e), s1)
      | (Inr es, s1) \<Rightarrow>
        (case scan_entries es found dirs s1 of
           (Inl e, s2) \<Rightarrow> (Inl e, s2)
         | (Inr (found', dirs'), s2) \<Rightarrow> list_temp_loop dirs' found' s2))"
  by pat_completeness auto
termination
  by (relation "inv_image (mult less_than) (\<lambda>(dirs, _, s). image_mset (depth_left s) (mset dirs))")
    (auto intro: wf_mult wf_less_than scan_decreases [simplified] dest: sym)

definition list_temp_files :: "fs \<Rightarrow> path \<Rightarrow> (StorageError + (path \<times> instant) list) \<times> fs" where
  "list_temp_files s temp = (if \<not> fs_exists s temp then (Inr [], s) else list_temp_loop [temp] [] s)"

section \<open>A cycle\<close>

record GcConfig =
  gc_interval :: nat
  gc_temp_file_max_age :: nat

definition get_active_upload_ids :: "('d, 'v) env \<Rightarrow> 'd \<Rightarrow> StorageError + string set" where
  "get_active_upload_ids E d =
     (case list_all_multipart_uploads E d of
        Inl e \<Rightarrow> Inl (StorageIo (io_other (MetadataError_to_string e)))
      | Inr uploads \<Rightarrow> Inr (set (map mpu_upload_id uploads)))"

definition should_keep_file :: "path \<Rightarrow> string set \<Rightarrow> bool" where
  "should_keep_file p active_upload_ids \<longleftrightarrow>
     p \<noteq> [] \<and> butlast p \<noteq> [] \<and> last (butlast p) \<in> active_upload_ids"

text \<open>The numbers of deleted files and of failures are what the cycle reports in its log.\<close>

fun gc_loop :: "GcConfig \<Rightarrow> instant \<Rightarrow> string set \<Rightarrow> (path \<times> instant) list \<Rightarrow> nat \<times> nat \<Rightarrow> fs \<Rightarrow> (nat \<times> nat) \<times> fs" where
  "gc_loop config now active [] (deleted, errors) s = ((deleted, errors), s)"
| "gc_loop config now active ((p, modified) # fs) (deleted, errors) s =
     (if max 0 (now - modified) < int (gc_temp_file_max_age config) then gc_loop config now active fs (deleted, errors) s
      else if should_keep_file p active then gc_loop config now active fs (deleted, errors) s
      else
        (case remove_if_exists s p of
           (Inr True, s') \<Rightarrow> gc_loop config now active fs (deleted + 1, errors) s'
         | (Inr False, s') \<Rightarrow> gc_loop config now active fs (deleted, errors) s'
         | (Inl _, s') \<Rightarrow> gc_loop config now active fs (deleted, errors + 1) s'))"

definition run_gc_cycle ::
  "('d, 'v) env \<Rightarrow> 'd \<Rightarrow> path \<Rightarrow> GcConfig \<Rightarrow> instant \<Rightarrow> fs \<Rightarrow> (StorageError + nat \<times> nat) \<times> fs" where
  "run_gc_cycle E metadata temp config now s =
     (case get_active_upload_ids E metadata of
        Inl e \<Rightarrow> (Inl e, s)
      | Inr active \<Rightarrow>
        (case list_temp_files s temp of
           (Inl e, s1) \<Rightarrow> (Inl e, s1)
         | (Inr fs, s1) \<Rightarrow> (case gc_loop config now active fs (0, 0) s1 of (r, s2) \<Rightarrow> (Inr r, s2))))"

section \<open>What a cycle does to the files\<close>

lemma list_temp_loop_sound:
  assumes "list_temp_loop dirs found s = (x, s')"
  shows "fs_files s' = fs_files s \<and> (\<forall>fs. x = Inr fs \<longrightarrow> (\<forall>(q, t) \<in> set fs. (q, t) \<in> set found
    \<or> (\<exists>d \<in> set dirs. prefix d q) \<and> (\<exists>f. files s q = Some f \<and> f_mtime f = t)))"
  using assms
proof (induction dirs found s rule: list_temp_loop.induct)
  case (2 dir dirs found s)
  obtain y s1 where r: "read_dir s dir = (y, s1)" by fastforce
  note er = read_dir_effect [OF r]
  show ?case
  proof (cases y)
    case (Inl e)
    with 2(2) r er show ?thesis by auto
  next
    case y: (Inr es)
    obtain z s2 where sc: "scan_entries es found dirs s1 = (z, s2)" by fastforce
    note es = scan_entries_effect [OF sc]
    show ?thesis
    proof (cases z)
      case (Inl e)
      with 2(2) r y sc er es show ?thesis by auto
    next
      case z: (Inr fd)
      obtain found' dirs' where fd: "fd = (found', dirs')" by fastforce
      with 2(2) r y sc z have l: "list_temp_loop dirs' found' s2 = (x, s')" by simp
      have below: "prefix dir q" if "q \<in> set es" for q
        using er y that prefixI [of q "butlast q" "[last q]"] by (auto simp: dir_entries_def)
      from es z fd er obtain new nf where n: "dirs' = new @ dirs" "set new \<subseteq> set es" "found' = found @ nf"
        "\<forall>(q, t) \<in> set nf. q \<in> set es \<and> (\<exists>f. files s q = Some f \<and> f_mtime f = t)" by auto
      from 2(1) [OF r [symmetric] y sc [symmetric] z fd [symmetric] l] have
        ih: "fs_files s' = fs_files s2" "\<forall>fs. x = Inr fs \<longrightarrow> (\<forall>(q, t) \<in> set fs. (q, t) \<in> set found'
          \<or> (\<exists>d \<in> set dirs'. prefix d q) \<and> (\<exists>f. files s q = Some f \<and> f_mtime f = t))" using er es by auto
      have "(q, t) \<in> set found \<or> (\<exists>d \<in> set (dir # dirs). prefix d q) \<and> (\<exists>f. files s q = Some f \<and> f_mtime f = t)"
        if "x = Inr fs" "(q, t) \<in> set fs" for fs q t
      proof -
        from ih(2) [THEN spec, THEN mp, OF that(1), THEN bspec, OF that(2)] consider "(q, t) \<in> set found'"
          | d where "d \<in> set dirs'" "prefix d q" "\<exists>f. files s q = Some f \<and> f_mtime f = t" by auto
        then show ?thesis
        proof cases
          case 1
          with n(3,4) below show ?thesis by auto
        next
          case (2 d)
          with n(1,2) below [of d] show ?thesis by (cases "d \<in> set dirs") (auto intro: prefix_order.trans)
        qed
      qed
      with ih(1) er es show ?thesis by auto
    qed
  qed
qed auto

text \<open>What a cycle may delete.\<close>

definition collectable :: "GcConfig \<Rightarrow> instant \<Rightarrow> string set \<Rightarrow> path \<Rightarrow> instant \<Rightarrow> bool" where
  "collectable config now active p modified \<longleftrightarrow>
     \<not> max 0 (now - modified) < int (gc_temp_file_max_age config) \<and> \<not> should_keep_file p active"

lemma remove_if_exists_effect:
  "remove_if_exists s p = (x, s') \<Longrightarrow> files s' q = files s q \<or> q = p \<and> files s' q = None"
  by (auto simp: remove_if_exists_def dest!: remove_file_effect split: prod.splits sum.splits if_splits)

lemma remove_if_exists_ok:
  assumes "fs_faults s = []"
  shows "\<exists>x s'. remove_if_exists s p = (Inr x, s') \<and> files s' = (files s)(p := None) \<and> fs_faults s' = []"
  using assms by (cases "files s p") (auto simp: remove_if_exists_def remove_file_def delete_conv' no_such_file_def fun_upd_idem)

lemma gc_loop_effect:
  assumes "gc_loop config now active fs c s = (r, s')"
  shows "files s' q = files s q \<or> files s' q = None \<and> (\<exists>t. (q, t) \<in> set fs \<and> collectable config now active q t)"
  using assms
proof (induction fs arbitrary: c s)
  case (Cons a fs)
  obtain p modified deleted errors where a: "a = (p, modified)" "c = (deleted, errors)" by fastforce
  show ?case
  proof (cases "collectable config now active p modified")
    case False
    with Cons.prems a have "gc_loop config now active fs c s = (r, s')" by (auto simp: collectable_def split: if_splits)
    from Cons.IH [OF this] show ?thesis by auto
  next
    case True
    obtain y s1 where d: "remove_if_exists s p = (y, s1)" by fastforce
    note s1 = remove_if_exists_effect [OF d, of q]
    from True Cons.prems a d obtain c' where "gc_loop config now active fs c' s1 = (r, s')"
      by (auto simp: collectable_def split: sum.splits bool.splits)
    from Cons.IH [OF this] s1 True a show ?thesis by auto
  qed
next
  case Nil
  then show ?case by (cases c) simp
qed

text \<open>Without failures a cycle does all it may do.\<close>

lemma gc_loop_complete:
  assumes "gc_loop config now active fs (n, k) s = (r, s')" and "fs_faults s = []"
  shows "snd r = k \<and> (\<forall>p t. (p, t) \<in> set fs \<longrightarrow> collectable config now active p t \<longrightarrow> files s' p = None)"
  using assms
proof (induction fs arbitrary: n s)
  case (Cons a fs)
  obtain p t where a: "a = (p, t)" by fastforce
  show ?case
  proof (cases "collectable config now active p t")
    case False
    with Cons.prems(1) a have "gc_loop config now active fs (n, k) s = (r, s')" by (auto simp: collectable_def split: if_splits)
    from Cons.IH [OF this Cons.prems(2)] False a show ?thesis by auto
  next
    case True
    from remove_if_exists_ok [OF Cons.prems(2), of p] obtain x s1 where d: "remove_if_exists s p = (Inr x, s1)"
      and s1: "files s1 = (files s)(p := None)" "fs_faults s1 = []" by blast
    from True Cons.prems(1) a d obtain n' where g: "gc_loop config now active fs (n', k) s1 = (r, s')"
      by (auto simp: collectable_def split: if_splits bool.splits)
    have "files s' p = None" using gc_loop_effect [OF g, of p] s1 by auto
    with Cons.IH [OF g s1(2)] a show ?thesis by auto
  qed
qed auto

text \<open>A file system in which every file and every directory is in a directory.\<close>

definition fs_tree :: "fs \<Rightarrow> bool" where
  "fs_tree s \<longleftrightarrow> (\<forall>p \<in> fst ` set (fs_files s) \<union> set (fs_dirs s). p \<noteq> [] \<longrightarrow> butlast p \<in> set (fs_dirs s))
     \<and> fst ` set (fs_files s) \<inter> set (fs_dirs s) = {}"

lemma scan_entries_ok:
  assumes "fs_faults s = []" and "\<forall>q \<in> set qs. files s q \<noteq> None \<or> q \<in> set (fs_dirs s)"
  shows "\<exists>found' dirs'. scan_entries qs found dirs s = (Inr (found', dirs'), s) \<and> set found \<subseteq> set found' \<and> set dirs \<subseteq> set dirs'
    \<and> (\<forall>q \<in> set qs. case files s q of Some f \<Rightarrow> (q, f_mtime f) \<in> set found' | None \<Rightarrow> q \<in> set dirs')"
  using assms(2)
proof (induction qs arbitrary: found dirs)
  case (Cons q qs)
  show ?case
  proof (cases "files s q")
    case None
    with Cons.prems have "scan_entries (q # qs) found dirs s = scan_entries qs found (q # dirs) s"
      by (simp add: assms(1) fs_metadata_def)
    with Cons.IH [of found "q # dirs"] Cons.prems None show ?thesis by fastforce
  next
    case (Some f)
    then have "scan_entries (q # qs) found dirs s = scan_entries qs (found @ [(q, f_mtime f)]) dirs s"
      by (simp add: assms(1) fs_metadata_def)
    with Cons.IH [of "found @ [(q, f_mtime f)]" dirs] Cons.prems Some show ?thesis by fastforce
  qed
qed (simp add: assms(1))

lemma fs_tree_ancestor:
  assumes "fs_tree s" and "files s q = Some f" and "strict_prefix p q"
  shows "p \<in> set (fs_dirs s)"
proof -
  have up: "p \<in> set (fs_dirs s)" if "q = p @ r" "r \<noteq> []" "q \<in> fst ` set (fs_files s) \<union> set (fs_dirs s)" for p q r
    using that
  proof (induction r arbitrary: q rule: rev_induct)
    case (snoc c r)
    then have b: "butlast q = p @ r" "q \<noteq> []" by (simp_all add: butlast_append)
    then have "butlast q \<in> set (fs_dirs s)" using snoc.prems(3) assms(1) unfolding fs_tree_def by blast
    note b(1) this
    with snoc.IH show ?case by (cases "r = []") auto
  qed simp
  obtain r where "q = p @ r" "r \<noteq> []" using assms(3) by (auto simp: strict_prefix_def prefix_def)
  moreover have "q \<in> fst ` set (fs_files s)" using assms(2) by (force dest: map_of_SomeD)
  ultimately show ?thesis by (intro up [of q p r]) auto
qed

lemma list_temp_loop_complete:
  assumes "fs_faults s = []" and "fs_tree s" and "set dirs \<subseteq> set (fs_dirs s)"
  shows "\<exists>fs. list_temp_loop dirs found s = (Inr fs, s) \<and> set found \<subseteq> set fs
    \<and> (\<forall>q f. files s q = Some f \<longrightarrow> (\<exists>d \<in> set dirs. strict_prefix d q) \<longrightarrow> (q, f_mtime f) \<in> set fs)"
  using assms
proof (induction dirs found s rule: list_temp_loop.induct)
  case (2 dir dirs found s)
  let ?es = "dir_entries s dir"
  have r: "read_dir s dir = (Inr ?es, s)" using 2(2,4) by (simp add: read_dir_def)
  have all: "\<forall>q \<in> set ?es. files s q \<noteq> None \<or> q \<in> set (fs_dirs s)"
    by (auto simp: dir_entries_def map_of_eq_None_iff)
  from scan_entries_ok [OF 2(2) all, of found dirs] obtain found' dirs' where
    sc: "scan_entries ?es found dirs s = (Inr (found', dirs'), s)" "set found \<subseteq> set found'" "set dirs \<subseteq> set dirs'"
    and en: "\<forall>q \<in> set ?es. case files s q of Some f \<Rightarrow> (q, f_mtime f) \<in> set found' | None \<Rightarrow> q \<in> set dirs'" by blast
  have sub: "set dirs' \<subseteq> set (fs_dirs s)" using scan_entries_effect [OF sc(1)] 2(4) by auto
  from 2(1) [OF r [symmetric] refl sc(1) [symmetric] refl refl 2(2,3) sub] obtain fs where
    fs: "list_temp_loop dirs' found' s = (Inr fs, s)" "set found' \<subseteq> set fs"
      "\<forall>q f. files s q = Some f \<longrightarrow> (\<exists>d \<in> set dirs'. strict_prefix d q) \<longrightarrow> (q, f_mtime f) \<in> set fs" by blast
  have "(q, f_mtime f) \<in> set fs" if f: "files s q = Some f" and p: "strict_prefix dir q" for q f
  proof -
    from p obtain c rest where q: "q = dir @ c # rest" by (auto elim: strict_prefixE')
    show ?thesis
    proof (cases rest)
      case Nil
      with q f have "q \<in> set ?es" by (force simp: dir_entries_def dest: map_of_SomeD)
      with en f fs(2) show ?thesis by force
    next
      case (Cons a b)
      have d: "dir @ [c] \<in> set (fs_dirs s)" by (rule fs_tree_ancestor [OF 2(3) f]) (simp add: q Cons strict_prefix_def)
      then have "dir @ [c] \<in> set ?es" "files s (dir @ [c]) = None"
        using 2(3) by (auto simp: dir_entries_def fs_tree_def map_of_eq_None_iff)
      with en have "dir @ [c] \<in> set dirs'" by force
      with fs(3) f show ?thesis by (force simp: q Cons strict_prefix_def)
    qed
  qed
  moreover have "(q, f_mtime f) \<in> set fs" if "files s q = Some f" "d \<in> set dirs" "strict_prefix d q" for q f d
    using fs(3) sc(3) that by blast
  ultimately show ?case using fs(1,2) sc r by auto
qed simp

lemma list_temp_files_sound:
  assumes "list_temp_files s temp = (x, s')"
  shows "fs_files s' = fs_files s \<and> (\<forall>fs q t. x = Inr fs \<longrightarrow> (q, t) \<in> set fs \<longrightarrow>
    prefix temp q \<and> (\<exists>f. files s q = Some f \<and> f_mtime f = t))"
proof (cases "fs_exists s temp")
  case False
  with assms show ?thesis by (auto simp: list_temp_files_def)
next
  case True
  with assms have l: "list_temp_loop [temp] [] s = (x, s')" by (simp add: list_temp_files_def)
  show ?thesis using list_temp_loop_sound [OF l] by auto
qed

lemma list_temp_files_complete:
  assumes "fs_faults s = []" and "fs_tree s" and "temp \<in> set (fs_dirs s)"
  shows "\<exists>fs. list_temp_files s temp = (Inr fs, s) \<and> (\<forall>q f. files s q = Some f \<longrightarrow> prefix temp q \<longrightarrow> (q, f_mtime f) \<in> set fs)"
proof -
  from list_temp_loop_complete [OF assms(1,2), of "[temp]" "[]"] assms(3) obtain fs where
    fs: "list_temp_loop [temp] [] s = (Inr fs, s)" "\<forall>q f. files s q = Some f \<longrightarrow> strict_prefix temp q \<longrightarrow> (q, f_mtime f) \<in> set fs" by auto
  have "strict_prefix temp q" if "files s q = Some f" "prefix temp q" for q f
  proof -
    have "q \<in> fst ` set (fs_files s)" using that(1) by (force dest: map_of_SomeD)
    with assms(2,3) have "q \<noteq> temp" by (auto simp: fs_tree_def)
    with that(2) show ?thesis by (simp add: strict_prefix_def)
  qed
  with fs assms(3) show ?thesis by (auto simp: list_temp_files_def fs_exists_def)
qed

context metadata_env
begin

lemma active_upload:
  assumes wf: "uploads_wf E (contents d CF_DEFAULT)" and act: "get_active_upload_ids E d = Inr active"
    and "plain_upload b k u" "b \<noteq> ''part''" "k \<noteq> ''part''" and up: "uploads d (b, k, u) = Some up"
  shows "u \<in> active"
proof -
  from act obtain ups where l: "list_multipart_uploads_with_prefix E d ''mpu:'' = Inr ups" and a: "active = set (map mpu_upload_id ups)"
    by (auto simp: get_active_upload_ids_def list_all_multipart_uploads_def split: sum.splits)
  have "prefix ''mpu:'' (upload_db_key b k u)" by simp
  with list_uploads_ok [OF wf _ l, of up] assms have "up \<in> set ups" by auto
  moreover have "mpu_upload_id up = u"
  proof -
    from up obtain v meta where m: "contents d CF_DEFAULT (upload_db_key b k u) = Some v" "decode (multipart_codec E) v = Inr meta"
      "up = upload_of meta (parts_view E (contents d CF_DEFAULT) b k u)" by (auto simp: upload_view_Some)
    with uploads_wf_upload [OF wf assms(3) m(1)] show ?thesis by (auto simp: upload_of_def)
  qed
  ultimately show ?thesis using a by force
qed

end

text \<open>
  The identifiers of the stored uploads that a listing shows: those of a bucket or an object that is
  called \<open>part\<close> are hidden.
\<close>

definition visible_upload_ids :: "('d, 'v) env \<Rightarrow> (string \<rightharpoonup> 'v) \<Rightarrow> string set" where
  "visible_upload_ids E m =
     {u. \<exists>b k. plain_upload b k u \<and> b \<noteq> ''part'' \<and> k \<noteq> ''part'' \<and> upload_view E m (b, k, u) \<noteq> None}"

context reliable_env
begin

lemma active_uploads_exact:
  assumes wf: "uploads_wf E (contents d CF_DEFAULT)"
  shows "get_active_upload_ids E d = Inr (visible_upload_ids E (contents d CF_DEFAULT))"
proof -
  from list_all_uploads_runs [OF wf] obtain ups where l: "list_all_multipart_uploads E d = Inr ups" by blast
  have i: "mpu_upload_id up = u" if "plain_upload b k u" "uploads d (b, k, u) = Some up" for b k u up
    using that uploads_wf_upload [OF wf that(1)] by (fastforce simp: upload_view_Some upload_of_def)
  have "mpu_upload_id ` set ups = visible_upload_ids E (contents d CF_DEFAULT)"
  proof (intro subset_antisym subsetI)
    fix x assume "x \<in> mpu_upload_id ` set ups"
    with list_all_uploads_exact [OF metadata_env_axioms wf l] i show "x \<in> visible_upload_ids E (contents d CF_DEFAULT)"
      unfolding visible_upload_ids_def by force
  next
    fix x assume "x \<in> visible_upload_ids E (contents d CF_DEFAULT)"
    then obtain b k up where b: "plain_upload b k x" "b \<noteq> ''part''" "k \<noteq> ''part''" "uploads d (b, k, x) = Some up"
      unfolding visible_upload_ids_def by blast
    then have "up \<in> set ups" using list_all_uploads_exact [OF metadata_env_axioms wf l, of up] by blast
    with i [OF b(1,4)] show "x \<in> mpu_upload_id ` set ups" by blast
  qed
  with l show ?thesis by (simp add: get_active_upload_ids_def)
qed

end

lemma keeps_part: "u \<in> active \<Longrightarrow> should_keep_file (part_path base u n) active"
  by (simp add: should_keep_file_def part_path_def parts_dir_def butlast_append)

section \<open>Properties\<close>

text \<open>
  C35: The collector deletes only what is abandoned. Whatever fails, a file that a cycle changes is
  deleted as a whole; it lies below the temporary directory, was last written at least the maximal
  age ago, and is not a part of an upload that is still in progress (of a bucket and an object that
  are not called \<open>part\<close>).
\<close>

theorem gc_deletes_only_abandoned:
  assumes "metadata_env E contents" and "uploads_wf E (contents d CF_DEFAULT)"
    and "run_gc_cycle E d temp config now s = (x, s')" and "files s' q \<noteq> files s q"
  shows "files s' q = None \<and> prefix temp q
    \<and> (\<exists>f. files s q = Some f \<and> int (gc_temp_file_max_age config) \<le> max 0 (now - f_mtime f))
    \<and> (\<forall>b k u n. plain_upload b k u \<longrightarrow> b \<noteq> ''part'' \<longrightarrow> k \<noteq> ''part''
         \<longrightarrow> upload_view E (contents d CF_DEFAULT) (b, k, u) \<noteq> None \<longrightarrow> (\<forall>base. q \<noteq> part_path base u n))"
proof -
  obtain active fs s1 r where act: "get_active_upload_ids E d = Inr active" and l: "list_temp_files s temp = (Inr fs, s1)"
    and g: "gc_loop config now active fs (0, 0) s1 = (r, s')"
  proof -
    show thesis
      using assms(3,4) that list_temp_files_sound [of s temp "fst (list_temp_files s temp)" "snd (list_temp_files s temp)"]
      by (auto simp: run_gc_cycle_def split: sum.splits prod.splits)
  qed
  note sound = list_temp_files_sound [OF l]
  from gc_loop_effect [OF g, of q] sound assms(4) obtain t where
    n: "files s' q = None" and t: "(q, t) \<in> set fs" and c: "collectable config now active q t" by auto
  from sound t obtain f where f: "prefix temp q" "files s q = Some f" "f_mtime f = t" by blast
  have "q \<noteq> part_path base u n"
    if "plain_upload b k u" "b \<noteq> ''part''" "k \<noteq> ''part''" "upload_view E (contents d CF_DEFAULT) (b, k, u) \<noteq> None" for b k u n base
  proof -
    from that(4) obtain up where "upload_view E (contents d CF_DEFAULT) (b, k, u) = Some up" by blast
    from keeps_part [OF metadata_env.active_upload [OF assms(1,2) act that(1-3) this], of base n] c show ?thesis
      by (auto simp: collectable_def)
  qed
  with n f c show ?thesis by (auto simp: collectable_def not_less)
qed

lemma gc_cycle_exact:
  assumes "fs_faults s = []" and "fs_tree s" and "temp \<in> set (fs_dirs s)" and "get_active_upload_ids E d = Inr active"
  shows "\<exists>n s'. run_gc_cycle E d temp config now s = (Inr (n, 0), s')
    \<and> files s' = (\<lambda>q. case files s q of None \<Rightarrow> None
        | Some f \<Rightarrow> if prefix temp q \<and> int (gc_temp_file_max_age config) \<le> max 0 (now - f_mtime f) \<and> \<not> should_keep_file q active
                   then None else Some f)"
proof -
  from list_temp_files_complete [OF assms(1-3)] obtain fs where l: "list_temp_files s temp = (Inr fs, s)"
    and all: "\<forall>q f. files s q = Some f \<longrightarrow> prefix temp q \<longrightarrow> (q, f_mtime f) \<in> set fs" by blast
  obtain r s' where g: "gc_loop config now active fs (0, 0) s = (r, s')" by fastforce
  obtain n k where r: "r = (n, k)" by fastforce
  note fin = gc_loop_complete [OF g assms(1)]
  have "files s' q = (case files s q of None \<Rightarrow> None
      | Some f \<Rightarrow> if prefix temp q \<and> int (gc_temp_file_max_age config) \<le> max 0 (now - f_mtime f) \<and> \<not> should_keep_file q active
                 then None else Some f)" for q
  proof (cases "files s q")
    case None
    with gc_loop_effect [OF g, of q] show ?thesis by auto
  next
    case (Some f)
    show ?thesis
    proof (cases "prefix temp q \<and> collectable config now active q (f_mtime f)")
      case True
      with all fin Some have "files s' q = None" by blast
      with True Some show ?thesis by (auto simp: collectable_def not_less)
    next
      case False
      have "files s' q = files s q"
      proof (rule ccontr)
        assume "files s' q \<noteq> files s q"
        with gc_loop_effect [OF g, of q] obtain t where t: "(q, t) \<in> set fs" "collectable config now active q t" by auto
        from list_temp_files_sound [OF l] t(1) have "prefix temp q" "f_mtime f = t" using Some by fastforce+
        with t(2) False show False by simp
      qed
      with False Some show ?thesis by (auto simp: collectable_def not_less)
    qed
  qed
  moreover have "run_gc_cycle E d temp config now s = (Inr (n, 0), s')"
    using assms(4) l g r fin by (simp add: run_gc_cycle_def)
  ultimately show ?thesis by blast
qed


text \<open>A temporary directory with an abandoned file, and with a part of the upload \<open>u1\<close>.\<close>

definition gc_example_fs :: fs where
  "gc_example_fs =
     \<lparr>fs_files = [([''data'', ''temp'', ''x''], \<lparr>f_data = [1], f_mtime = 0\<rparr>), (part_path [''data''] ''u1'' 1, \<lparr>f_data = [2], f_mtime = 0\<rparr>)],
      fs_dirs = [[''data'', ''temp'', ''parts'', ''u1''], [''data'', ''temp'', ''parts''], [''data'', ''temp''], [''data''], []],
      fs_clock = 0, fs_faults = []\<rparr>"

definition gc_example_config :: GcConfig where
  "gc_example_config = \<lparr>gc_interval = 5, gc_temp_file_max_age = 9\<rparr>"

lemma gc_example_run:
  "case run_gc_cycle mem_env example_upload [''data'', ''temp''] gc_example_config 20 gc_example_fs of (x, s') \<Rightarrow>
     files s' [''data'', ''temp'', ''x''] = None \<and> files s' (part_path [''data''] ''u1'' 1) \<noteq> None"
  by code_simp

theorem gc_deletes_only_abandoned_witness:
  "\<exists>x s'. run_gc_cycle mem_env example_upload [''data'', ''temp''] gc_example_config 20 gc_example_fs = (x, s')
     \<and> files s' [''data'', ''temp'', ''x''] = None \<and> prefix [''data'', ''temp''] [''data'', ''temp'', ''x'']
     \<and> int (gc_temp_file_max_age gc_example_config) \<le> 20"
proof -
  obtain x s' where r: "run_gc_cycle mem_env example_upload [''data'', ''temp''] gc_example_config 20 gc_example_fs = (x, s')"
    by fastforce
  with gc_example_run have "files s' [''data'', ''temp'', ''x''] \<noteq> files gc_example_fs [''data'', ''temp'', ''x'']"
    by (simp add: gc_example_fs_def)
  from gc_deletes_only_abandoned [OF mem_is_env(1), OF example_upload_wf r this] r show ?thesis
    by (auto simp: gc_example_fs_def gc_example_config_def)
qed


text \<open>
  The parts of an upload that the listing hides are not kept: here the object is called \<open>part\<close>,
  the upload is in progress, and the cycle deletes the file of its recorded part.
\<close>

theorem gc_deletes_parts_of_hidden_upload:
  "let d = snd (initiate_multipart_upload mem_env 1 mem_empty ''photos'' ''part'' ''u1'' None) in
     \<not> isl (get_multipart_upload mem_env d ''photos'' ''part'' ''u1'')
     \<and> files gc_example_fs (part_path [''data''] ''u1'' 1) \<noteq> None
     \<and> files (snd (run_gc_cycle mem_env d [''data'', ''temp''] gc_example_config 20 gc_example_fs)) (part_path [''data''] ''u1'' 1) = None"
  by code_simp

end
