(* ===== verification/Raft_Rpc.thy ===== *)
theory Raft_Rpc
  imports Common_Grpc Meta_Types "HOL-Library.AList"
begin

text \<open>
  The calls between the Raft nodes, \<open>crates/save-metadata/src/raft/rpc.rs\<close>, \<open>server.rs\<close> and
  \<open>network.rs\<close>: the translation of openraft's messages to the messages on the wire and back, the
  client with its cached connection, and the server that takes a request apart and hands it to the
  Raft instance. The Raft instance, serde and the connection are parameters; memberships are a type
  parameter as before.
\<close>

section \<open>Messages of openraft\<close>

text \<open>
  A vote is for a term and a candidate, or for no candidate yet; it is committed when a quorum has
  granted it.
\<close>

record Vote =
  vt_term :: u64
  voted_for :: "u64 option"
  vt_committed :: bool

definition Vote_new :: "u64 \<Rightarrow> u64 \<Rightarrow> Vote" where
  "Vote_new t node_id = \<lparr>vt_term = t, voted_for = Some node_id, vt_committed = False\<rparr>"

definition Vote_new_committed :: "u64 \<Rightarrow> u64 \<Rightarrow> Vote" where
  "Vote_new_committed t node_id = \<lparr>vt_term = t, voted_for = Some node_id, vt_committed = True\<rparr>"

record 'mem AppendEntriesRequest =
  ae_vote :: Vote
  ae_prev_log_id :: "LogId option"
  ae_entries :: "'mem Entry list"
  ae_leader_commit :: "LogId option"

datatype AppendEntriesResponse = Success | PartialSuccess "LogId option" | HigherVote Vote | Conflict

record VoteRequest =
  vq_vote :: Vote
  vq_last_log_id :: "LogId option"

record VoteResponse =
  vr_vote :: Vote
  vr_vote_granted :: bool
  vr_last_log_id :: "LogId option"

record 'mem InstallSnapshotRequest =
  is_vote :: Vote
  is_meta :: "'mem SnapshotMeta"
  is_offset :: u64
  is_data :: data
  is_done :: bool

record InstallSnapshotResponse =
  isr_vote :: Vote

section \<open>Messages on the wire\<close>

record ProtoLogId =
  pl_term :: u64
  pl_node_id :: u64
  pl_index :: u64

record ProtoVote =
  pv_term :: u64
  pv_node_id :: "u64 option"
  pv_committed :: bool

record ProtoLogEntry =
  pe_log_id :: "ProtoLogId option"
  pe_payload :: data

record ProtoAppendEntriesRequest =
  pa_vote :: "ProtoVote option"
  pa_prev_log_id :: "ProtoLogId option"
  pa_entries :: "ProtoLogEntry list"
  pa_leader_commit :: "ProtoLogId option"

record ProtoAppendEntriesResponse =
  par_vote :: "ProtoVote option"
  par_success :: bool
  par_conflict :: "ProtoLogId option"

record ProtoVoteRequest =
  pq_vote :: "ProtoVote option"
  pq_last_log_id :: "ProtoLogId option"

record ProtoVoteResponse =
  pr_vote :: "ProtoVote option"
  pr_vote_granted :: bool
  pr_last_log_id :: "ProtoLogId option"

record ProtoSnapshotMeta =
  pm_last_log_id :: "ProtoLogId option"
  pm_last_membership :: "data option"
  pm_snapshot_id :: string

record ProtoInstallSnapshotRequest =
  pi_vote :: "ProtoVote option"
  pi_meta :: "ProtoSnapshotMeta option"
  pi_offset :: u64
  pi_data :: data
  pi_done :: bool

record ProtoInstallSnapshotResponse =
  pir_vote :: "ProtoVote option"

text \<open>The JSON form of payloads and memberships, and the default membership.\<close>

record 'mem json =
  js_payload_to_vec :: "'mem EntryPayload \<Rightarrow> string + data"
  js_payload_from_slice :: "data \<Rightarrow> string + 'mem EntryPayload"
  js_membership_to_vec :: "'mem StoredMembership \<Rightarrow> string + data"
  js_membership_from_slice :: "data \<Rightarrow> string + 'mem StoredMembership"
  js_membership_default :: "'mem StoredMembership"

section \<open>From the wire\<close>

definition convert_vote :: "ProtoVote \<Rightarrow> Vote" where
  "convert_vote v =
     (let node_id = (case pv_node_id v of Some n \<Rightarrow> n | None \<Rightarrow> 0) in
      if pv_committed v then Vote_new_committed (pv_term v) node_id else Vote_new (pv_term v) node_id)"

text \<open>With one leader per term the identifier of the leader is no part of a log id.\<close>

definition convert_log_id :: "ProtoLogId \<Rightarrow> LogId" where
  "convert_log_id i = \<lparr>log_leader_id = \<lparr>leader_term = pl_term i\<rparr>, log_index = pl_index i\<rparr>"

text \<open>Collecting results stops at the first error.\<close>

fun collect_results :: "('e + 'a) list \<Rightarrow> 'e + 'a list" where
  "collect_results [] = Inr []"
| "collect_results (Inl e # _) = Inl e"
| "collect_results (Inr x # rs) = (case collect_results rs of Inl e \<Rightarrow> Inl e | Inr xs \<Rightarrow> Inr (x # xs))"

definition convert_entry :: "'mem json \<Rightarrow> ProtoLogEntry \<Rightarrow> Status + 'mem Entry" where
  "convert_entry js e =
     (case map_option convert_log_id (pe_log_id e) of
        None \<Rightarrow> Inl (invalid_argument ''missing log_id'')
      | Some log_id \<Rightarrow>
        (case js_payload_from_slice js (pe_payload e) of
           Inl msg \<Rightarrow> Inl (invalid_argument (''invalid payload: '' @ msg))
         | Inr payload \<Rightarrow> Inr \<lparr>entry_log_id = log_id, entry_payload = payload\<rparr>))"

definition convert_append_entries_request ::
  "'mem json \<Rightarrow> ProtoAppendEntriesRequest \<Rightarrow> Status + 'mem AppendEntriesRequest" where
  "convert_append_entries_request js req =
     (case pa_vote req of
        None \<Rightarrow> Inl (invalid_argument ''missing vote'')
      | Some vote \<Rightarrow>
        (case collect_results (map (convert_entry js) (pa_entries req)) of
           Inl e \<Rightarrow> Inl e
         | Inr entries \<Rightarrow>
           Inr \<lparr>ae_vote = convert_vote vote, ae_prev_log_id = map_option convert_log_id (pa_prev_log_id req),
                ae_entries = entries, ae_leader_commit = map_option convert_log_id (pa_leader_commit req)\<rparr>))"

definition convert_vote_request :: "ProtoVoteRequest \<Rightarrow> Status + VoteRequest" where
  "convert_vote_request req =
     (case pq_vote req of
        None \<Rightarrow> Inl (invalid_argument ''missing vote'')
      | Some vote \<Rightarrow>
        Inr \<lparr>vq_vote = convert_vote vote, vq_last_log_id = map_option convert_log_id (pq_last_log_id req)\<rparr>)"

definition convert_install_snapshot_request ::
  "'mem json \<Rightarrow> ProtoVote \<Rightarrow> ProtoSnapshotMeta \<Rightarrow> data \<Rightarrow> Status + 'mem InstallSnapshotRequest" where
  "convert_install_snapshot_request js vote meta d =
     (case (case pm_last_membership meta of
              None \<Rightarrow> Inr (js_membership_default js)
            | Some m \<Rightarrow> js_membership_from_slice js m) of
        Inl msg \<Rightarrow> Inl (invalid_argument (''invalid membership: '' @ msg))
      | Inr membership \<Rightarrow>
        Inr \<lparr>is_vote = convert_vote vote,
             is_meta = \<lparr>snap_last_log_id = map_option convert_log_id (pm_last_log_id meta),
                        snap_last_membership = membership, snap_id = pm_snapshot_id meta\<rparr>,
             is_offset = 0, is_data = d, is_done = True\<rparr>)"

section \<open>To the wire\<close>

definition to_proto_vote :: "Vote \<Rightarrow> ProtoVote" where
  "to_proto_vote v = \<lparr>pv_term = vt_term v, pv_node_id = voted_for v, pv_committed = vt_committed v\<rparr>"

definition to_proto_log_id :: "LogId \<Rightarrow> ProtoLogId" where
  "to_proto_log_id i = \<lparr>pl_term = leader_term (log_leader_id i), pl_node_id = 0, pl_index = log_index i\<rparr>"

fun convert_append_entries_response :: "AppendEntriesResponse \<Rightarrow> ProtoAppendEntriesResponse" where
  "convert_append_entries_response Success = \<lparr>par_vote = None, par_success = True, par_conflict = None\<rparr>"
| "convert_append_entries_response (PartialSuccess i) =
     \<lparr>par_vote = None, par_success = True, par_conflict = map_option to_proto_log_id i\<rparr>"
| "convert_append_entries_response (HigherVote v) =
     \<lparr>par_vote = Some (to_proto_vote v), par_success = False, par_conflict = None\<rparr>"
| "convert_append_entries_response Conflict = \<lparr>par_vote = None, par_success = False, par_conflict = None\<rparr>"

definition convert_vote_response :: "VoteResponse \<Rightarrow> ProtoVoteResponse" where
  "convert_vote_response resp =
     \<lparr>pr_vote = Some (to_proto_vote (vr_vote resp)), pr_vote_granted = vr_vote_granted resp,
      pr_last_log_id = map_option to_proto_log_id (vr_last_log_id resp)\<rparr>"

definition convert_install_snapshot_response :: "InstallSnapshotResponse \<Rightarrow> ProtoInstallSnapshotResponse" where
  "convert_install_snapshot_response resp = \<lparr>pir_vote = Some (to_proto_vote (isr_vote resp))\<rparr>"

definition to_proto_entry :: "'mem json \<Rightarrow> 'mem Entry \<Rightarrow> Status + ProtoLogEntry" where
  "to_proto_entry js e =
     (case js_payload_to_vec js (entry_payload e) of
        Inl msg \<Rightarrow> Inl (status_internal (''serialize error: '' @ msg))
      | Inr payload \<Rightarrow> Inr \<lparr>pe_log_id = Some (to_proto_log_id (entry_log_id e)), pe_payload = payload\<rparr>)"

definition to_proto_append_entries_request ::
  "'mem json \<Rightarrow> 'mem AppendEntriesRequest \<Rightarrow> Status + ProtoAppendEntriesRequest" where
  "to_proto_append_entries_request js req =
     (case collect_results (map (to_proto_entry js) (ae_entries req)) of
        Inl e \<Rightarrow> Inl e
      | Inr entries \<Rightarrow>
        Inr \<lparr>pa_vote = Some (to_proto_vote (ae_vote req)), pa_prev_log_id = map_option to_proto_log_id (ae_prev_log_id req),
             pa_entries = entries, pa_leader_commit = map_option to_proto_log_id (ae_leader_commit req)\<rparr>)"

definition to_proto_vote_request :: "VoteRequest \<Rightarrow> ProtoVoteRequest" where
  "to_proto_vote_request req =
     \<lparr>pq_vote = Some (to_proto_vote (vq_vote req)), pq_last_log_id = map_option to_proto_log_id (vq_last_log_id req)\<rparr>"

definition convert_proto_append_entries_response :: "ProtoAppendEntriesResponse \<Rightarrow> Status + AppendEntriesResponse" where
  "convert_proto_append_entries_response resp =
     (if par_success resp then Inr Success
      else (case par_vote resp of
              Some vote \<Rightarrow> Inr (HigherVote (convert_vote vote))
            | None \<Rightarrow> Inr Conflict))"

definition convert_proto_vote_response :: "ProtoVoteResponse \<Rightarrow> Status + VoteResponse" where
  "convert_proto_vote_response resp =
     (case pr_vote resp of
        None \<Rightarrow> Inl (invalid_argument ''missing vote'')
      | Some vote \<Rightarrow>
        Inr \<lparr>vr_vote = convert_vote vote, vr_vote_granted = pr_vote_granted resp,
             vr_last_log_id = map_option convert_log_id (pr_last_log_id resp)\<rparr>)"

definition convert_proto_install_snapshot_response :: "ProtoInstallSnapshotResponse \<Rightarrow> Status + InstallSnapshotResponse" where
  "convert_proto_install_snapshot_response resp =
     (case pir_vote resp of
        None \<Rightarrow> Inl (invalid_argument ''missing vote'')
      | Some vote \<Rightarrow> Inr \<lparr>isr_vote = convert_vote vote\<rparr>)"

section \<open>The server\<close>

text \<open>The Raft instance: each call may fail and changes its state.\<close>

record ('g, 'mem) raft_instance =
  ri_append_entries :: "'mem AppendEntriesRequest \<Rightarrow> 'g \<Rightarrow> (string + AppendEntriesResponse) \<times> 'g"
  ri_vote :: "VoteRequest \<Rightarrow> 'g \<Rightarrow> (string + VoteResponse) \<times> 'g"
  ri_install_snapshot :: "'mem InstallSnapshotRequest \<Rightarrow> 'g \<Rightarrow> (string + InstallSnapshotResponse) \<times> 'g"

definition rpc_append_entries ::
  "'mem json \<Rightarrow> ('g, 'mem) raft_instance \<Rightarrow> ProtoAppendEntriesRequest \<Rightarrow> 'g \<Rightarrow> (Status + ProtoAppendEntriesResponse) \<times> 'g" where
  "rpc_append_entries js R req g =
     (case convert_append_entries_request js req of
        Inl e \<Rightarrow> (Inl e, g)
      | Inr raft_req \<Rightarrow>
        (case ri_append_entries R raft_req g of
           (Inl e, g') \<Rightarrow> (Inl (status_internal e), g')
         | (Inr resp, g') \<Rightarrow> (Inr (convert_append_entries_response resp), g')))"

definition rpc_vote ::
  "('g, 'mem) raft_instance \<Rightarrow> ProtoVoteRequest \<Rightarrow> 'g \<Rightarrow> (Status + ProtoVoteResponse) \<times> 'g" where
  "rpc_vote R req g =
     (case convert_vote_request req of
        Inl e \<Rightarrow> (Inl e, g)
      | Inr raft_req \<Rightarrow>
        (case ri_vote R raft_req g of
           (Inl e, g') \<Rightarrow> (Inl (status_internal e), g')
         | (Inr resp, g') \<Rightarrow> (Inr (convert_vote_response resp), g')))"

text \<open>The vote and the metadata are taken from the first frames up to one that has metadata.\<close>

definition gather_chunk ::
  "data \<times> ProtoSnapshotMeta option \<times> ProtoVote option \<Rightarrow> ProtoInstallSnapshotRequest
    \<Rightarrow> data \<times> ProtoSnapshotMeta option \<times> ProtoVote option" where
  "gather_chunk acc chunk =
     (case acc of (d, meta, vote) \<Rightarrow>
        (case (if meta = None then (pi_meta chunk, pi_vote chunk) else (meta, vote)) of
           (meta', vote') \<Rightarrow> (d @ pi_data chunk, meta', vote')))"

definition do_install_snapshot ::
  "'mem json \<Rightarrow> ('g, 'mem) raft_instance \<Rightarrow> ProtoInstallSnapshotRequest list \<Rightarrow> 'g
    \<Rightarrow> (Status + ProtoInstallSnapshotResponse) \<times> 'g" where
  "do_install_snapshot js R chunks g =
     (case foldl gather_chunk ([], None, None) chunks of
        (snapshot_data, meta, vote) \<Rightarrow>
          (case vote of
             None \<Rightarrow> (Inl (invalid_argument ''missing vote''), g)
           | Some v \<Rightarrow>
             (case meta of
                None \<Rightarrow> (Inl (invalid_argument ''missing snapshot meta''), g)
              | Some m \<Rightarrow>
                (case convert_install_snapshot_request js v m snapshot_data of
                   Inl e \<Rightarrow> (Inl e, g)
                 | Inr raft_req \<Rightarrow>
                   (case ri_install_snapshot R raft_req g of
                      (Inl e, g') \<Rightarrow> (Inl (status_internal e), g')
                    | (Inr resp, g') \<Rightarrow> (Inr (convert_install_snapshot_response resp), g'))))))"

text \<open>The encodings of the messages on the wire.\<close>

record raft_codecs =
  rc_append :: "ProtoAppendEntriesRequest message"
  rc_append_response :: "ProtoAppendEntriesResponse message"
  rc_vote :: "ProtoVoteRequest message"
  rc_vote_response :: "ProtoVoteResponse message"
  rc_snapshot :: "ProtoInstallSnapshotRequest message"
  rc_snapshot_response :: "ProtoInstallSnapshotResponse message"

text \<open>This server puts the status of a success into the headers.\<close>

definition create_response :: "'m message \<Rightarrow> 'm \<Rightarrow> grpc_response" where
  "create_response c msg =
     \<lparr>gr_status = 200, gr_headers = [(''content-type'', ''application/grpc''), (''grpc-status'', ''0'')],
      gr_body = grpc_frame (ms_encode c msg), gr_trailers = []\<rparr>"

definition create_error_response :: "Status \<Rightarrow> grpc_response option" where
  "create_error_response status =
     (if \<not> header_value (st_message status) then None
      else Some
        \<lparr>gr_status = 200,
         gr_headers = [(''content-type'', ''application/grpc''), (''grpc-status'', status_to_code (st_code status)),
           (''grpc-message'', st_message status)],
         gr_body = [], gr_trailers = []\<rparr>)"

definition respond :: "'m message \<Rightarrow> (Status + 'm) \<times> 'g \<Rightarrow> grpc_response option \<times> 'g" where
  "respond c r =
     (case r of
        (Inl e, g) \<Rightarrow> (create_error_response e, g)
      | (Inr m, g) \<Rightarrow> (Some (create_response c m), g))"

definition handle_append_entries ::
  "raft_codecs \<Rightarrow> 'mem json \<Rightarrow> ('g, 'mem) raft_instance \<Rightarrow> data \<Rightarrow> 'g \<Rightarrow> grpc_response option \<times> 'g" where
  "handle_append_entries cs js R body g =
     (case parse_grpc_frame body of
        Inl e \<Rightarrow> (create_error_response e, g)
      | Inr d \<Rightarrow>
        (case ms_decode (rc_append cs) d of
           Inl e \<Rightarrow> (create_error_response (invalid_argument e), g)
         | Inr req \<Rightarrow> respond (rc_append_response cs) (rpc_append_entries js R req g)))"

definition handle_vote ::
  "raft_codecs \<Rightarrow> ('g, 'mem) raft_instance \<Rightarrow> data \<Rightarrow> 'g \<Rightarrow> grpc_response option \<times> 'g" where
  "handle_vote cs R body g =
     (case parse_grpc_frame body of
        Inl e \<Rightarrow> (create_error_response e, g)
      | Inr d \<Rightarrow>
        (case ms_decode (rc_vote cs) d of
           Inl e \<Rightarrow> (create_error_response (invalid_argument e), g)
         | Inr req \<Rightarrow> respond (rc_vote_response cs) (rpc_vote R req g)))"

definition handle_install_snapshot ::
  "raft_codecs \<Rightarrow> 'mem json \<Rightarrow> ('g, 'mem) raft_instance \<Rightarrow> data \<Rightarrow> 'g \<Rightarrow> grpc_response option \<times> 'g" where
  "handle_install_snapshot cs js R body g =
     (case parse_streaming_frames (rc_snapshot cs) body 0 [] of
        Inl e \<Rightarrow> (create_error_response e, g)
      | Inr frames \<Rightarrow> respond (rc_snapshot_response cs) (do_install_snapshot js R frames g))"

definition raft_server_call ::
  "raft_codecs \<Rightarrow> 'mem json \<Rightarrow> ('g, 'mem) raft_instance \<Rightarrow> string \<Rightarrow> data \<Rightarrow> 'g \<Rightarrow> grpc_response option \<times> 'g" where
  "raft_server_call cs js R p body g =
     (if p = ''/raft.RaftRpc/AppendEntries'' then handle_append_entries cs js R body g
      else if p = ''/raft.RaftRpc/Vote'' then handle_vote cs R body g
      else if p = ''/raft.RaftRpc/InstallSnapshot'' then handle_install_snapshot cs js R body g
      else (create_error_response (unimplemented ''unknown method''), g))"

section \<open>The client\<close>

text \<open>
  A client keeps its connection. Connecting and the calls of tonic are parameters: a call has a
  path and one message, or one message of a stream.
\<close>

record 'c RaftRpcClient =
  rr_endpoint :: string
  rr_channel :: "'c option"

definition RaftRpcClient_new :: "string \<Rightarrow> 'c RaftRpcClient" where
  "RaftRpcClient_new e = \<lparr>rr_endpoint = e, rr_channel = None\<rparr>"

definition reset_connection :: "'c RaftRpcClient \<Rightarrow> 'c RaftRpcClient" where
  "reset_connection cl = cl\<lparr>rr_channel := None\<rparr>"

definition raft_get_channel ::
  "(string \<Rightarrow> 's \<Rightarrow> (Status + 'c) \<times> 's) \<Rightarrow> 'c RaftRpcClient \<Rightarrow> 's \<Rightarrow> (Status + 'c) \<times> 'c RaftRpcClient \<times> 's" where
  "raft_get_channel connect cl s =
     (case rr_channel cl of
        Some ch \<Rightarrow> (Inr ch, cl, s)
      | None \<Rightarrow>
        (case connect (rr_endpoint cl) s of
           (Inl e, s') \<Rightarrow> (Inl e, cl, s')
         | (Inr ch, s') \<Rightarrow> (Inr ch, cl\<lparr>rr_channel := Some ch\<rparr>, s')))"

definition raft_is_transport_error :: "Status \<Rightarrow> bool" where
  "raft_is_transport_error e \<longleftrightarrow> st_code e \<in> {Unavailable, Cancelled, DeadlineExceeded, Aborted}"

definition handle_result :: "(Status + 'a) \<times> 'c RaftRpcClient \<times> 's \<Rightarrow> (Status + 'a) \<times> 'c RaftRpcClient \<times> 's" where
  "handle_result r =
     (case r of
        (Inl e, cl, s) \<Rightarrow> (Inl e, if raft_is_transport_error e then reset_connection cl else cl, s)
      | (Inr x, cl, s) \<Rightarrow> (Inr x, cl, s))"

text \<open>A call over a connection: the path, the message, the answer.\<close>

type_synonym ('c, 'req, 'resp, 's) call = "'c \<Rightarrow> string \<Rightarrow> 'req \<Rightarrow> 's \<Rightarrow> (Status + 'resp) \<times> 's"

definition do_append_entries ::
  "'mem json \<Rightarrow> (string \<Rightarrow> 's \<Rightarrow> (Status + 'c) \<times> 's) \<Rightarrow> ('c, ProtoAppendEntriesRequest, ProtoAppendEntriesResponse, 's) call
    \<Rightarrow> 'mem AppendEntriesRequest \<Rightarrow> 'c RaftRpcClient \<Rightarrow> 's \<Rightarrow> (Status + AppendEntriesResponse) \<times> 'c RaftRpcClient \<times> 's" where
  "do_append_entries js connect send_unary req cl s =
     (case raft_get_channel connect cl s of
        (Inl e, cl', s') \<Rightarrow> (Inl e, cl', s')
      | (Inr ch, cl', s') \<Rightarrow>
        (case to_proto_append_entries_request js req of
           Inl e \<Rightarrow> (Inl e, cl', s')
         | Inr proto_req \<Rightarrow>
           (case send_unary ch ''/raft.RaftRpc/AppendEntries'' proto_req s' of
              (Inl e, s'') \<Rightarrow> (Inl e, cl', s'')
            | (Inr resp, s'') \<Rightarrow> (convert_proto_append_entries_response resp, cl', s''))))"

definition client_append_entries ::
  "'mem json \<Rightarrow> (string \<Rightarrow> 's \<Rightarrow> (Status + 'c) \<times> 's) \<Rightarrow> ('c, ProtoAppendEntriesRequest, ProtoAppendEntriesResponse, 's) call
    \<Rightarrow> 'mem AppendEntriesRequest \<Rightarrow> 'c RaftRpcClient \<Rightarrow> 's \<Rightarrow> (Status + AppendEntriesResponse) \<times> 'c RaftRpcClient \<times> 's" where
  "client_append_entries js connect send_unary req cl s = handle_result (do_append_entries js connect send_unary req cl s)"

definition do_vote ::
  "(string \<Rightarrow> 's \<Rightarrow> (Status + 'c) \<times> 's) \<Rightarrow> ('c, ProtoVoteRequest, ProtoVoteResponse, 's) call
    \<Rightarrow> VoteRequest \<Rightarrow> 'c RaftRpcClient \<Rightarrow> 's \<Rightarrow> (Status + VoteResponse) \<times> 'c RaftRpcClient \<times> 's" where
  "do_vote connect send_unary req cl s =
     (case raft_get_channel connect cl s of
        (Inl e, cl', s') \<Rightarrow> (Inl e, cl', s')
      | (Inr ch, cl', s') \<Rightarrow>
        (case send_unary ch ''/raft.RaftRpc/Vote'' (to_proto_vote_request req) s' of
           (Inl e, s'') \<Rightarrow> (Inl e, cl', s'')
         | (Inr resp, s'') \<Rightarrow> (convert_proto_vote_response resp, cl', s'')))"

definition client_vote ::
  "(string \<Rightarrow> 's \<Rightarrow> (Status + 'c) \<times> 's) \<Rightarrow> ('c, ProtoVoteRequest, ProtoVoteResponse, 's) call
    \<Rightarrow> VoteRequest \<Rightarrow> 'c RaftRpcClient \<Rightarrow> 's \<Rightarrow> (Status + VoteResponse) \<times> 'c RaftRpcClient \<times> 's" where
  "client_vote connect send_unary req cl s = handle_result (do_vote connect send_unary req cl s)"

text \<open>The offset and the end mark of the request are not sent; a membership that cannot be written is sent empty.\<close>

definition to_proto_snapshot :: "'mem json \<Rightarrow> 'mem InstallSnapshotRequest \<Rightarrow> ProtoInstallSnapshotRequest" where
  "to_proto_snapshot js req =
     \<lparr>pi_vote = Some (to_proto_vote (is_vote req)),
      pi_meta = Some
        \<lparr>pm_last_log_id = map_option to_proto_log_id (snap_last_log_id (is_meta req)),
         pm_last_membership = Some (case js_membership_to_vec js (snap_last_membership (is_meta req)) of Inr d \<Rightarrow> d | Inl _ \<Rightarrow> []),
         pm_snapshot_id = snap_id (is_meta req)\<rparr>,
      pi_offset = 0, pi_data = is_data req, pi_done = True\<rparr>"

definition client_do_install_snapshot ::
  "'mem json \<Rightarrow> (string \<Rightarrow> 's \<Rightarrow> (Status + 'c) \<times> 's)
    \<Rightarrow> ('c, ProtoInstallSnapshotRequest list, ProtoInstallSnapshotResponse, 's) call
    \<Rightarrow> 'mem InstallSnapshotRequest \<Rightarrow> 'c RaftRpcClient \<Rightarrow> 's \<Rightarrow> (Status + InstallSnapshotResponse) \<times> 'c RaftRpcClient \<times> 's" where
  "client_do_install_snapshot js connect send_client_streaming req cl s =
     (case raft_get_channel connect cl s of
        (Inl e, cl', s') \<Rightarrow> (Inl e, cl', s')
      | (Inr ch, cl', s') \<Rightarrow>
        (case send_client_streaming ch ''/raft.RaftRpc/InstallSnapshot'' [to_proto_snapshot js req] s' of
           (Inl e, s'') \<Rightarrow> (Inl e, cl', s'')
         | (Inr resp, s'') \<Rightarrow> (convert_proto_install_snapshot_response resp, cl', s'')))"

definition client_install_snapshot ::
  "'mem json \<Rightarrow> (string \<Rightarrow> 's \<Rightarrow> (Status + 'c) \<times> 's)
    \<Rightarrow> ('c, ProtoInstallSnapshotRequest list, ProtoInstallSnapshotResponse, 's) call
    \<Rightarrow> 'mem InstallSnapshotRequest \<Rightarrow> 'c RaftRpcClient \<Rightarrow> 's \<Rightarrow> (Status + InstallSnapshotResponse) \<times> 'c RaftRpcClient \<times> 's" where
  "client_install_snapshot js connect send_client_streaming req cl s =
     handle_result (client_do_install_snapshot js connect send_client_streaming req cl s)"

section \<open>The network\<close>

text \<open>The addresses of the peers and one client for each target.\<close>

record SaveNode =
  sn_raft_addr :: string
  sn_http_addr :: string
  sn_replication_addr :: string

record 'c Network =
  nw_peers :: "(u64 \<times> string) list"
  nw_clients :: "(u64 \<times> 'c RaftRpcClient) list"

definition with_peers :: "(u64 \<times> string \<times> string \<times> string) list \<Rightarrow> 'c Network" where
  "with_peers peers =
     \<lparr>nw_peers = foldl (\<lambda>m (i, raft_addr, _, _). AList.update i raft_addr m) [] peers, nw_clients = []\<rparr>"

definition add_peer :: "'c Network \<Rightarrow> u64 \<Rightarrow> string \<Rightarrow> 'c Network" where
  "add_peer nw i addr = nw\<lparr>nw_peers := AList.update i addr (nw_peers nw)\<rparr>"

definition remove_peer :: "'c Network \<Rightarrow> u64 \<Rightarrow> 'c Network" where
  "remove_peer nw i = nw\<lparr>nw_peers := AList.delete i (nw_peers nw)\<rparr>"

definition new_client :: "'c Network \<Rightarrow> u64 \<Rightarrow> SaveNode \<Rightarrow> 'c RaftRpcClient \<times> 'c Network" where
  "new_client nw target node =
     (let endpoint = (case map_of (nw_peers nw) target of
            Some addr \<Rightarrow> addr
          | None \<Rightarrow>
            if prefix ''http://'' (sn_raft_addr node) \<or> prefix ''https://'' (sn_raft_addr node) then sn_raft_addr node
            else ''http://'' @ sn_raft_addr node) in
      case map_of (nw_clients nw) target of
        Some cl \<Rightarrow> (cl, nw)
      | None \<Rightarrow>
        (let cl = RaftRpcClient_new endpoint in (cl, nw\<lparr>nw_clients := AList.update target cl (nw_clients nw)\<rparr>)))"

section \<open>Lemmas\<close>

lemma collect_results_map:
  assumes "collect_results (map f xs) = Inr ys" and "\<And>x y. x \<in> set xs \<Longrightarrow> f x = Inr y \<Longrightarrow> g y = Inr x"
  shows "collect_results (map g ys) = Inr xs"
  using assms
proof (induction xs arbitrary: ys)
  case (Cons x xs)
  then obtain y ys' where y: "f x = Inr y" "collect_results (map f xs) = Inr ys'" "ys = y # ys'"
    by (auto split: sum.splits elim!: collect_results.elims)
  have "g y = Inr x" using Cons.prems(2) y(1) by simp
  with Cons.IH [OF y(2)] Cons.prems(2) y(3) show ?case by simp
qed simp

definition cast :: "Vote \<Rightarrow> bool" where
  "cast v \<longleftrightarrow> voted_for v \<noteq> None"

lemma vote_roundtrip [simp]: "cast v \<Longrightarrow> convert_vote (to_proto_vote v) = v"
  by (auto simp: cast_def convert_vote_def to_proto_vote_def Vote_new_def Vote_new_committed_def)

lemma log_id_roundtrip [simp]: "convert_log_id (to_proto_log_id i) = i"
  by (simp add: convert_log_id_def to_proto_log_id_def)

lemma opt_log_id_roundtrip [simp]: "map_option (convert_log_id \<circ> to_proto_log_id) i = i"
  by (cases i) simp_all

text \<open>What is assumed of the JSON encoder: what it writes it reads back.\<close>

definition json_ok :: "'mem json \<Rightarrow> bool" where
  "json_ok js \<longleftrightarrow>
     (\<forall>p d. js_payload_to_vec js p = Inr d \<longrightarrow> js_payload_from_slice js d = Inr p)
     \<and> (\<forall>m d. js_membership_to_vec js m = Inr d \<longrightarrow> js_membership_from_slice js d = Inr m)"

lemma append_entries_roundtrip:
  assumes "json_ok js" and "cast (ae_vote req)" and "to_proto_append_entries_request js req = Inr m"
  shows "convert_append_entries_request js m = Inr req"
proof -
  obtain es where es: "collect_results (map (to_proto_entry js) (ae_entries req)) = Inr es"
    and m: "m = \<lparr>pa_vote = Some (to_proto_vote (ae_vote req)), pa_prev_log_id = map_option to_proto_log_id (ae_prev_log_id req),
             pa_entries = es, pa_leader_commit = map_option to_proto_log_id (ae_leader_commit req)\<rparr>"
    using assms(3) by (auto simp: to_proto_append_entries_request_def split: sum.splits)
  have "collect_results (map (convert_entry js) es) = Inr (ae_entries req)"
    using assms(1) by (intro collect_results_map [OF es]) (auto simp: to_proto_entry_def convert_entry_def json_ok_def split: sum.splits)
  with assms(2) show ?thesis by (simp add: m convert_append_entries_request_def option.map_comp)
qed

lemma vote_request_roundtrip: "cast (vq_vote req) \<Longrightarrow> convert_vote_request (to_proto_vote_request req) = Inr req"
  by (simp add: convert_vote_request_def to_proto_vote_request_def option.map_comp)

lemma vote_response_roundtrip: "cast (vr_vote r) \<Longrightarrow> convert_proto_vote_response (convert_vote_response r) = Inr r"
  by (simp add: convert_proto_vote_response_def convert_vote_response_def option.map_comp)

text \<open>What the leader makes of the answer of the follower.\<close>

fun as_seen :: "AppendEntriesResponse \<Rightarrow> AppendEntriesResponse" where
  "as_seen (PartialSuccess _) = Success"
| "as_seen r = r"

fun vote_cast_in :: "AppendEntriesResponse \<Rightarrow> bool" where
  "vote_cast_in (HigherVote v) \<longleftrightarrow> cast v"
| "vote_cast_in _ \<longleftrightarrow> True"

lemma append_response_seen:
  "vote_cast_in r \<Longrightarrow> convert_proto_append_entries_response (convert_append_entries_response r) = Inr (as_seen r)"
  by (cases r) (simp_all add: convert_proto_append_entries_response_def)

text \<open>A call that reaches a server and brings back its answer.\<close>

definition unary_link ::
  "'a message \<Rightarrow> 'b message \<Rightarrow> (string \<Rightarrow> data \<Rightarrow> 'g \<Rightarrow> grpc_response option \<times> 'g) \<Rightarrow> ('c, 'a, 'b, 'g) call" where
  "unary_link cq cr srv ch p req g =
     (case srv p (grpc_frame (ms_encode cq req)) g of (r, g') \<Rightarrow> (read_response cr r, g'))"

definition stream_link ::
  "'a message \<Rightarrow> 'b message \<Rightarrow> (string \<Rightarrow> data \<Rightarrow> 'g \<Rightarrow> grpc_response option \<times> 'g) \<Rightarrow> ('c, 'a list, 'b, 'g) call" where
  "stream_link cq cr srv ch p reqs g =
     (case srv p (concat (map (\<lambda>m. grpc_frame (ms_encode cq m)) reqs)) g of (r, g') \<Rightarrow> (read_response cr r, g'))"

lemma read_respond_ok: "fits c m \<Longrightarrow> read_response c (Some (create_response c m)) = Inr m"
  using parse_grpc_frame_ok [of "ms_encode c m" "[]"]
  by (simp add: read_response_def create_response_def fits_def)

lemma read_respond_error:
  assumes "plain_text (st_message e)" and "st_code e \<noteq> CodeOk"
  shows "read_response c (create_error_response e) = Inl e"
  using assms by (cases e; cases "st_code e") (auto simp: read_response_def create_error_response_def code_of_def plain_text_def percent_decode_plain)

lemma append_entries_link:
  assumes "json_ok js" and "cast (ae_vote req)" and "to_proto_append_entries_request js req = Inr m" and "fits (rc_append cs) m"
    and "\<And>e g'. ri_append_entries R req g = (Inl e, g') \<Longrightarrow> plain_text e"
    and "\<And>r g'. ri_append_entries R req g = (Inr r, g') \<Longrightarrow> fits (rc_append_response cs) (convert_append_entries_response r)"
  shows "unary_link (rc_append cs) (rc_append_response cs) (raft_server_call cs js R) ch ''/raft.RaftRpc/AppendEntries'' m g =
    (case ri_append_entries R req g of
       (Inl e, g') \<Rightarrow> (Inl (status_internal e), g')
     | (Inr r, g') \<Rightarrow> (Inr (convert_append_entries_response r), g'))"
proof -
  have d: "ms_decode (rc_append cs) (ms_encode (rc_append cs) m) = Inr m" using assms(4) by (simp add: fits_def)
  have "raft_server_call cs js R ''/raft.RaftRpc/AppendEntries'' (grpc_frame (ms_encode (rc_append cs) m)) g =
      respond (rc_append_response cs) (rpc_append_entries js R m g)"
    by (simp add: raft_server_call_def handle_append_entries_def parse_frame_fits [OF assms(4)] d)
  then show ?thesis
    using assms(5,6) by (auto simp: unary_link_def rpc_append_entries_def append_entries_roundtrip [OF assms(1-3)] respond_def
        read_respond_ok read_respond_error status_internal_def split: prod.splits sum.splits)
qed

lemma vote_link:
  assumes "cast (vq_vote req)" and "fits (rc_vote cs) (to_proto_vote_request req)"
    and "\<And>e g'. ri_vote R req g = (Inl e, g') \<Longrightarrow> plain_text e"
    and "\<And>r g'. ri_vote R req g = (Inr r, g') \<Longrightarrow> fits (rc_vote_response cs) (convert_vote_response r)"
  shows "unary_link (rc_vote cs) (rc_vote_response cs) (raft_server_call cs js R) ch ''/raft.RaftRpc/Vote'' (to_proto_vote_request req) g =
    (case ri_vote R req g of
       (Inl e, g') \<Rightarrow> (Inl (status_internal e), g')
     | (Inr r, g') \<Rightarrow> (Inr (convert_vote_response r), g'))"
proof -
  let ?m = "to_proto_vote_request req"
  have d: "ms_decode (rc_vote cs) (ms_encode (rc_vote cs) ?m) = Inr ?m" using assms(2) by (simp add: fits_def)
  have "raft_server_call cs js R ''/raft.RaftRpc/Vote'' (grpc_frame (ms_encode (rc_vote cs) ?m)) g =
      respond (rc_vote_response cs) (rpc_vote R ?m g)"
    by (simp add: raft_server_call_def handle_vote_def parse_frame_fits [OF assms(2)] d)
  then show ?thesis
    using assms(3,4) by (auto simp: unary_link_def rpc_vote_def vote_request_roundtrip [OF assms(1)] respond_def
        read_respond_ok read_respond_error status_internal_def split: prod.splits sum.splits)
qed

text \<open>The request the follower's Raft gets for a part of a snapshot: it is always taken for a whole one.\<close>

lemma snapshot_arrives:
  assumes "json_ok js" and "cast (is_vote req)" and "fits (rc_snapshot cs) (to_proto_snapshot js req)"
    and "js_membership_to_vec js (snap_last_membership (is_meta req)) = Inr d"
  shows "raft_server_call cs js R ''/raft.RaftRpc/InstallSnapshot'' (grpc_frame (ms_encode (rc_snapshot cs) (to_proto_snapshot js req))) g =
    respond (rc_snapshot_response cs)
      (case ri_install_snapshot R (req\<lparr>is_offset := 0, is_done := True\<rparr>) g of
         (Inl e, g') \<Rightarrow> (Inl (status_internal e), g')
       | (Inr r, g') \<Rightarrow> (Inr (convert_install_snapshot_response r), g'))"
proof -
  let ?m = "to_proto_snapshot js req"
  have f: "parse_streaming_frames (rc_snapshot cs) (grpc_frame (ms_encode (rc_snapshot cs) ?m)) 0 [] = Inr [?m]"
    using parse_streaming_frames_ok [of "[?m]" "rc_snapshot cs" "[]" "[]"] assms(3) by simp
  have e: "\<lparr>is_vote = is_vote req, is_meta = \<lparr>snap_last_log_id = snap_last_log_id (is_meta req),
      snap_last_membership = snap_last_membership (is_meta req), snap_id = snap_id (is_meta req)\<rparr>,
      is_offset = 0, is_data = is_data req, is_done = True\<rparr> = req\<lparr>is_offset := 0, is_done := True\<rparr>"
    by (cases req) simp
  have "do_install_snapshot js R [?m] g =
      (case ri_install_snapshot R (req\<lparr>is_offset := 0, is_done := True\<rparr>) g of
         (Inl e, g') \<Rightarrow> (Inl (status_internal e), g')
       | (Inr r, g') \<Rightarrow> (Inr (convert_install_snapshot_response r), g'))"
    using assms(1,2,4)
    by (simp add: do_install_snapshot_def gather_chunk_def to_proto_snapshot_def convert_install_snapshot_request_def json_ok_def
        option.map_comp e)
  with f show ?thesis by (simp add: raft_server_call_def handle_install_snapshot_def)
qed

section \<open>Properties\<close>

text \<open>
  C12: What a Raft node sends reaches the Raft instance of the other node as it was sent, and the
  answer comes back. Over a connection that delivers, appending entries runs exactly the request on
  the other instance, and a request for a vote likewise; the sender gets the answer of the instance,
  its error as an internal status, and keeps its connection. Of the answers one is not brought back
  as it was: that only a part of the entries was stored is reported as success. The messages have to
  be smaller than four gibibytes, the votes cast for a candidate, and errors plain text.
\<close>

theorem raft_calls_delivered:
  assumes "json_ok js" and "rr_channel cl = Some ch"
    and "cast (ae_vote req)" and "to_proto_append_entries_request js req = Inr m" and "fits (rc_append cs) m"
    and "\<And>e g'. ri_append_entries R req g = (Inl e, g') \<Longrightarrow> plain_text e"
    and "\<And>r g'. ri_append_entries R req g = (Inr r, g') \<Longrightarrow>
      vote_cast_in r \<and> fits (rc_append_response cs) (convert_append_entries_response r)"
    and "cast (vq_vote vreq)" and "fits (rc_vote cs) (to_proto_vote_request vreq)"
    and "\<And>e g'. ri_vote R vreq g = (Inl e, g') \<Longrightarrow> plain_text e"
    and "\<And>r g'. ri_vote R vreq g = (Inr r, g') \<Longrightarrow> cast (vr_vote r) \<and> fits (rc_vote_response cs) (convert_vote_response r)"
  shows "client_append_entries js connect (unary_link (rc_append cs) (rc_append_response cs) (raft_server_call cs js R)) req cl g =
      (case ri_append_entries R req g of
         (Inl e, g') \<Rightarrow> (Inl (status_internal e), cl, g')
       | (Inr r, g') \<Rightarrow> (Inr (as_seen r), cl, g'))
    \<and> client_vote connect (unary_link (rc_vote cs) (rc_vote_response cs) (raft_server_call cs js R)) vreq cl g =
      (case ri_vote R vreq g of
         (Inl e, g') \<Rightarrow> (Inl (status_internal e), cl, g')
       | (Inr r, g') \<Rightarrow> (Inr r, cl, g'))"
proof
  note keep = handle_result_def raft_is_transport_error_def status_internal_def raft_get_channel_def assms(2)
  have "unary_link (rc_append cs) (rc_append_response cs) (raft_server_call cs js R) ch ''/raft.RaftRpc/AppendEntries'' m g =
    (case ri_append_entries R req g of
       (Inl e, g') \<Rightarrow> (Inl (status_internal e), g')
     | (Inr r, g') \<Rightarrow> (Inr (convert_append_entries_response r), g'))"
    by (rule append_entries_link [OF assms(1,3-5)]) (use assms(6,7) in blast)+
  then show "client_append_entries js connect (unary_link (rc_append cs) (rc_append_response cs) (raft_server_call cs js R)) req cl g =
      (case ri_append_entries R req g of
         (Inl e, g') \<Rightarrow> (Inl (status_internal e), cl, g')
       | (Inr r, g') \<Rightarrow> (Inr (as_seen r), cl, g'))"
    using assms(7)
    by (auto simp: client_append_entries_def do_append_entries_def keep assms(4) append_response_seen split: prod.splits sum.splits)
  have "unary_link (rc_vote cs) (rc_vote_response cs) (raft_server_call cs js R) ch ''/raft.RaftRpc/Vote'' (to_proto_vote_request vreq) g =
    (case ri_vote R vreq g of
       (Inl e, g') \<Rightarrow> (Inl (status_internal e), g')
     | (Inr r, g') \<Rightarrow> (Inr (convert_vote_response r), g'))"
    by (rule vote_link [OF assms(8,9)]) (use assms(10,11) in blast)+
  then show "client_vote connect (unary_link (rc_vote cs) (rc_vote_response cs) (raft_server_call cs js R)) vreq cl g =
      (case ri_vote R vreq g of
         (Inl e, g') \<Rightarrow> (Inl (status_internal e), cl, g')
       | (Inr r, g') \<Rightarrow> (Inr r, cl, g'))"
    using assms(11) by (auto simp: client_vote_def do_vote_def keep vote_response_roundtrip split: prod.splits sum.splits)
qed

definition example_vote :: Vote where
  "example_vote = Vote_new_committed 3 1"

definition example_append :: "unit AppendEntriesRequest" where
  "example_append =
     \<lparr>ae_vote = example_vote, ae_prev_log_id = Some \<lparr>log_leader_id = \<lparr>leader_term = 2\<rparr>, log_index = 6\<rparr>,
      ae_entries = [\<lparr>entry_log_id = \<lparr>log_leader_id = \<lparr>leader_term = 3\<rparr>, log_index = 7\<rparr>, entry_payload = Blank\<rparr>],
      ae_leader_commit = None\<rparr>"

definition example_vote_request :: VoteRequest where
  "example_vote_request = \<lparr>vq_vote = Vote_new 4 2, vq_last_log_id = None\<rparr>"

definition example_json :: "unit json" where
  "example_json =
     \<lparr>js_payload_to_vec = (\<lambda>p. if p = Blank then Inr [1] else Inl ''unsupported''),
      js_payload_from_slice = (\<lambda>d. if d = [1] then Inr Blank else Inl ''unsupported''),
      js_membership_to_vec = (\<lambda>m. if sm_log_id m = None then Inr [2] else Inl ''unsupported''),
      js_membership_from_slice = (\<lambda>d. if d = [2] then Inr \<lparr>sm_log_id = None, sm_membership = ()\<rparr> else Inl ''unsupported''),
      js_membership_default = \<lparr>sm_log_id = None, sm_membership = ()\<rparr>\<rparr>"

definition example_append_message :: ProtoAppendEntriesRequest where
  "example_append_message =
     \<lparr>pa_vote = Some (to_proto_vote example_vote), pa_prev_log_id = Some \<lparr>pl_term = 2, pl_node_id = 0, pl_index = 6\<rparr>,
      pa_entries = [\<lparr>pe_log_id = Some \<lparr>pl_term = 3, pl_node_id = 0, pl_index = 7\<rparr>, pe_payload = [1]\<rparr>], pa_leader_commit = None\<rparr>"

definition example_granted :: VoteResponse where
  "example_granted = \<lparr>vr_vote = Vote_new 4 2, vr_vote_granted = True, vr_last_log_id = None\<rparr>"

text \<open>An instance that counts its calls, stores the entries of the first and refuses the second.\<close>

definition example_instance :: "(nat, unit) raft_instance" where
  "example_instance =
     \<lparr>ri_append_entries = (\<lambda>req n. (if n = 0 then Inr Success else Inl ''storage error'', n + length (ae_entries req))),
      ri_vote = (\<lambda>req n. (Inr example_granted, n)),
      ri_install_snapshot = (\<lambda>req n. (Inr \<lparr>isr_vote = is_vote req\<rparr>, length (is_data req)))\<rparr>"

definition example_codecs :: raft_codecs where
  "example_codecs =
     \<lparr>rc_append = table [example_append_message], rc_append_response = table [convert_append_entries_response Success],
      rc_vote = table [to_proto_vote_request example_vote_request], rc_vote_response = table [convert_vote_response example_granted],
      rc_snapshot = table [], rc_snapshot_response = table []\<rparr>"

lemma example_json_ok: "json_ok example_json"
  by (auto simp: json_ok_def example_json_def)

theorem raft_calls_delivered_witness:
  "client_append_entries example_json (\<lambda>_ s. (Inr (), s))
     (unary_link (rc_append example_codecs) (rc_append_response example_codecs) (raft_server_call example_codecs example_json example_instance))
     example_append \<lparr>rr_endpoint = ''node2'', rr_channel = Some ()\<rparr> 0
   = (Inr Success, \<lparr>rr_endpoint = ''node2'', rr_channel = Some ()\<rparr>, 1)"
proof -
  let ?cl = "\<lparr>rr_endpoint = ''node2'', rr_channel = Some ()\<rparr>"
  have m: "to_proto_append_entries_request example_json example_append = Inr example_append_message" by code_simp
  have c: "cast (ae_vote example_append)" "cast (vq_vote example_vote_request)" by code_simp+
  have f: "fits (rc_append example_codecs) example_append_message"
    "fits (rc_vote example_codecs) (to_proto_vote_request example_vote_request)"
    by (simp_all add: example_codecs_def table_fits_0)
  have "client_append_entries example_json (\<lambda>_ s. (Inr (), s))
     (unary_link (rc_append example_codecs) (rc_append_response example_codecs) (raft_server_call example_codecs example_json example_instance))
     example_append ?cl 0 =
      (case ri_append_entries example_instance example_append 0 of
         (Inl e, g') \<Rightarrow> (Inl (status_internal e), ?cl, g')
       | (Inr r, g') \<Rightarrow> (Inr (as_seen r), ?cl, g'))"
    by (rule raft_calls_delivered [THEN conjunct1, OF example_json_ok _ c(1) m f(1) _ _ c(2) f(2)])
      (auto simp: example_instance_def example_codecs_def table_fits_0 example_granted_def cast_def Vote_new_def)
  then show ?thesis by (simp add: example_instance_def example_append_def)
qed

text \<open>
  What the translation loses. A follower that stored only a part of the entries looks like one that
  stored all of them. A later part of a snapshot is sent, and taken, as a whole snapshot that starts
  at the beginning. A vote that is not yet for a candidate arrives as a vote for node zero.
\<close>

theorem partial_success_lost:
  "convert_proto_append_entries_response (convert_append_entries_response (PartialSuccess i)) = Inr Success"
  by (simp add: convert_proto_append_entries_response_def)

theorem snapshot_part_taken_for_whole:
  "is_offset req \<noteq> 0 \<or> \<not> is_done req \<Longrightarrow> convert_install_snapshot_request js v meta d \<noteq> Inr req"
  by (auto simp: convert_install_snapshot_request_def split: sum.splits option.splits)

theorem open_vote_changed: "voted_for (convert_vote (to_proto_vote \<lparr>vt_term = t, voted_for = None, vt_committed = False\<rparr>)) = Some 0"
  by (simp add: convert_vote_def to_proto_vote_def Vote_new_def)

end
