(* ===== verification/Raft_Node.thy ===== *)
theory Raft_Node
  imports Raft_Rpc Raft_Apply Common_Cluster
begin

text \<open>
  The members of the Raft cluster as a node sees and changes them, \<open>crates/save-metadata/src/raft/node.rs\<close>.
  Openraft is a parameter, with its metrics, its calls to change the membership and the passing of
  time; the locale \<open>raft_members\<close> states what its documentation says of these calls. Submitting
  commands is modelled in \<open>Raft_Apply\<close>.
\<close>

section \<open>Openraft\<close>

datatype ServerState = ServerLeader | ServerFollower | ServerCandidate | ServerLearner | ServerShutdown

record RaftMetrics =
  rm_state :: ServerState
  rm_current_term :: u64
  rm_current_leader :: "u64 option"
  rm_last_applied :: "LogId option"
  rm_last_log_index :: "u64 option"
  rm_voter_ids :: "u64 list"
  rm_learner_ids :: "u64 list"
  rm_nodes :: "u64 \<rightharpoonup> SaveNode"

datatype ChangeMembers = AddVoterIds "u64 set" | RemoveVoters "u64 set" | RemoveNodes "u64 set"

text \<open>
  The calls of the Raft instance. The last argument of \<open>or_add_learner\<close> and \<open>or_change_membership\<close>
  is \<open>blocking\<close> and \<open>retain\<close>. Sleeping takes at least the time asked for; it returns by how much it was late.
\<close>

record 'g openraft =
  or_metrics :: "'g \<Rightarrow> RaftMetrics"
  or_initialize :: "(u64 \<rightharpoonup> SaveNode) \<Rightarrow> 'g \<Rightarrow> (string + unit) \<times> 'g"
  or_add_learner :: "u64 \<Rightarrow> SaveNode \<Rightarrow> bool \<Rightarrow> 'g \<Rightarrow> (string + unit) \<times> 'g"
  or_change_membership :: "ChangeMembers \<Rightarrow> bool \<Rightarrow> 'g \<Rightarrow> (string + unit) \<times> 'g"
  or_elect :: "'g \<Rightarrow> (string + unit) \<times> 'g"
  or_sleep :: "nat \<Rightarrow> 'g \<Rightarrow> nat \<times> 'g"

section \<open>The node\<close>

datatype RaftState = Leader | Follower | Candidate | Learner | Shutdown

fun RaftState_from :: "ServerState \<Rightarrow> RaftState" where
  "RaftState_from ServerLeader = Leader"
| "RaftState_from ServerFollower = Follower"
| "RaftState_from ServerCandidate = Candidate"
| "RaftState_from ServerLearner = Learner"
| "RaftState_from ServerShutdown = Shutdown"

record ClusterStatus =
  cs_node_id :: u64
  cs_state :: RaftState
  cs_current_term :: u64
  cs_current_leader :: "u64 option"
  cs_last_applied_index :: "u64 option"
  cs_last_log_index :: "u64 option"
  cs_voters :: "u64 list"
  cs_learners :: "u64 list"
  cs_member_count :: nat
  cs_initialized :: bool

record 'g RaftNode =
  rn_raft :: "'g openraft"
  rn_node_id :: u64

definition raft_error :: "(string + 'a) \<times> 'g \<Rightarrow> (MetadataError + 'a) \<times> 'g" where
  "raft_error r = (case r of (Inl e, g) \<Rightarrow> (Inl (Raft e), g) | (Inr x, g) \<Rightarrow> (Inr x, g))"

definition is_initialized :: "'g RaftNode \<Rightarrow> 'g \<Rightarrow> bool" where
  "is_initialized N g \<longleftrightarrow> rm_voter_ids (or_metrics (rn_raft N) g) \<noteq> []"

definition SaveNode_of :: "PeerInfo \<Rightarrow> SaveNode" where
  "SaveNode_of p = \<lparr>sn_raft_addr = raft_addr p, sn_http_addr = http_addr p, sn_replication_addr = replication_addr p\<rparr>"

definition node_initialize :: "'g RaftNode \<Rightarrow> PeerInfo list \<Rightarrow> 'g \<Rightarrow> (MetadataError + unit) \<times> 'g" where
  "node_initialize N members g =
     (if is_initialized N g then (Inl AlreadyInitialized, g)
      else
        (let nodes = foldl (\<lambda>m peer. m(pi_node_id peer \<mapsto> SaveNode_of peer)) Map.empty members in
         case or_initialize (rn_raft N) nodes g of
           (Inl msg, g') \<Rightarrow>
             (Inl (if contains msg ''not allowed to initialize'' then AlreadyInitialized else Raft msg), g')
         | (Inr _, g') \<Rightarrow> (Inr (), g')))"

definition current_leader :: "'g RaftNode \<Rightarrow> 'g \<Rightarrow> u64 option" where
  "current_leader N g = rm_current_leader (or_metrics (rn_raft N) g)"

definition is_leader :: "'g RaftNode \<Rightarrow> 'g \<Rightarrow> bool" where
  "is_leader N g \<longleftrightarrow> current_leader N g = Some (rn_node_id N)"

definition get_node_raft_addr :: "'g RaftNode \<Rightarrow> 'g \<Rightarrow> u64 \<Rightarrow> string option" where
  "get_node_raft_addr N g i = map_option sn_raft_addr (rm_nodes (or_metrics (rn_raft N) g) i)"

definition get_node_http_addr :: "'g RaftNode \<Rightarrow> 'g \<Rightarrow> u64 \<Rightarrow> string option" where
  "get_node_http_addr N g i = map_option sn_http_addr (rm_nodes (or_metrics (rn_raft N) g) i)"

definition get_node_replication_addr :: "'g RaftNode \<Rightarrow> 'g \<Rightarrow> u64 \<Rightarrow> string option" where
  "get_node_replication_addr N g i = map_option sn_replication_addr (rm_nodes (or_metrics (rn_raft N) g) i)"

definition get_cluster_replication_nodes :: "'g RaftNode \<Rightarrow> 'g \<Rightarrow> (u64 \<times> string) list" where
  "get_cluster_replication_nodes N g =
     (let m = or_metrics (rn_raft N) g in
      List.map_filter (\<lambda>i. if i \<noteq> rn_node_id N then map_option (\<lambda>n. (i, sn_replication_addr n)) (rm_nodes m i) else None)
        (rm_voter_ids m @ rm_learner_ids m))"

definition leader_raft_addr :: "'g RaftNode \<Rightarrow> 'g \<Rightarrow> string option" where
  "leader_raft_addr N g = Option.bind (current_leader N g) (get_node_raft_addr N g)"

definition node_leader_http_addr :: "'g RaftNode \<Rightarrow> 'g \<Rightarrow> string option" where
  "node_leader_http_addr N g = Option.bind (current_leader N g) (get_node_http_addr N g)"

text \<open>Waiting for a leader, with the milliseconds passed so far.\<close>

function await_leader_loop :: "'g RaftNode \<Rightarrow> nat \<Rightarrow> nat \<Rightarrow> 'g \<Rightarrow> (MetadataError + u64) \<times> 'g" where
  "await_leader_loop N timeout elapsed g =
     (case current_leader N g of
        Some leader \<Rightarrow> (Inr leader, g)
      | None \<Rightarrow>
        if elapsed > timeout then (Inl (Raft ''timeout waiting for leader''), g)
        else (case or_sleep (rn_raft N) 100 g of (late, g') \<Rightarrow> await_leader_loop N timeout (elapsed + 100 + late) g'))"
  by pat_completeness auto
termination by (relation "measure (\<lambda>(N, timeout, elapsed, g). Suc timeout - elapsed)") auto

declare await_leader_loop.simps [simp del]

definition node_wait_for_leader :: "'g RaftNode \<Rightarrow> nat \<Rightarrow> 'g \<Rightarrow> (MetadataError + u64) \<times> 'g" where
  "node_wait_for_leader N timeout g = await_leader_loop N timeout 0 g"

definition get_status :: "'g RaftNode \<Rightarrow> 'g \<Rightarrow> ClusterStatus" where
  "get_status N g =
     (let m = or_metrics (rn_raft N) g in
      \<lparr>cs_node_id = rn_node_id N, cs_state = RaftState_from (rm_state m), cs_current_term = rm_current_term m,
       cs_current_leader = rm_current_leader m, cs_last_applied_index = map_option log_index (rm_last_applied m),
       cs_last_log_index = rm_last_log_index m, cs_voters = rm_voter_ids m, cs_learners = rm_learner_ids m,
       cs_member_count = length (rm_voter_ids m) + length (rm_learner_ids m), cs_initialized = rm_voter_ids m \<noteq> []\<rparr>)"

definition node_add_learner ::
  "'g RaftNode \<Rightarrow> u64 \<Rightarrow> string \<Rightarrow> string \<Rightarrow> string \<Rightarrow> 'g \<Rightarrow> (MetadataError + unit) \<times> 'g" where
  "node_add_learner N node_id ra ha pa g =
     raft_error (or_add_learner (rn_raft N) node_id \<lparr>sn_raft_addr = ra, sn_http_addr = ha, sn_replication_addr = pa\<rparr> True g)"

definition node_promote_voters :: "'g RaftNode \<Rightarrow> u64 list \<Rightarrow> 'g \<Rightarrow> (MetadataError + unit) \<times> 'g" where
  "node_promote_voters N ids g = raft_error (or_change_membership (rn_raft N) (AddVoterIds (set ids)) False g)"

definition node_remove_voters :: "'g RaftNode \<Rightarrow> u64 list \<Rightarrow> 'g \<Rightarrow> (MetadataError + unit) \<times> 'g" where
  "node_remove_voters N ids g = raft_error (or_change_membership (rn_raft N) (RemoveVoters (set ids)) False g)"

definition node_remove_node :: "'g RaftNode \<Rightarrow> u64 \<Rightarrow> 'g \<Rightarrow> (MetadataError + unit) \<times> 'g" where
  "node_remove_node N node_id g = raft_error (or_change_membership (rn_raft N) (RemoveNodes {node_id}) False g)"

definition learners :: "'g RaftNode \<Rightarrow> 'g \<Rightarrow> u64 list" where
  "learners N g = rm_learner_ids (or_metrics (rn_raft N) g)"

definition node_trigger_elect :: "'g RaftNode \<Rightarrow> 'g \<Rightarrow> (MetadataError + unit) \<times> 'g" where
  "node_trigger_elect N g = raft_error (or_elect (rn_raft N) g)"

fun parse_peers_to_tuples :: "string list \<Rightarrow> MetadataError + (u64 \<times> string \<times> string \<times> string) list" where
  "parse_peers_to_tuples [] = Inr []"
| "parse_peers_to_tuples (p # ps) =
     (case parse_peer p of
        Inl e \<Rightarrow> Inl (Raft (Error_to_string e))
      | Inr i \<Rightarrow> (case parse_peers_to_tuples ps of Inl e \<Rightarrow> Inl e | Inr ts \<Rightarrow> Inr (to_tuple i # ts)))"

section \<open>What openraft promises\<close>

text \<open>
  The members of the cluster and the voters among them, as the instance knows them. Adding a learner
  adds the node if it was unknown and changes nothing else; only members become voters; voters that
  are removed without \<open>retain\<close> leave the cluster; a node that is still a voter cannot be removed.
\<close>

definition voter_ids :: "'g openraft \<Rightarrow> 'g \<Rightarrow> u64 set" where
  "voter_ids R g = set (rm_voter_ids (or_metrics R g))"

definition member_ids :: "'g openraft \<Rightarrow> 'g \<Rightarrow> u64 set" where
  "member_ids R g = set (rm_voter_ids (or_metrics R g)) \<union> set (rm_learner_ids (or_metrics R g))"

definition address_of :: "'g openraft \<Rightarrow> 'g \<Rightarrow> u64 \<rightharpoonup> SaveNode" where
  "address_of R g = rm_nodes (or_metrics R g)"

locale raft_members =
  fixes R :: "'g openraft"
  assumes members_known: "dom (address_of R g) = member_ids R g"
    and add_learner_ok: "or_add_learner R i n True g = (Inr (), g') \<Longrightarrow>
      voter_ids R g' = voter_ids R g
      \<and> address_of R g' = (if i \<in> member_ids R g then address_of R g else (address_of R g)(i \<mapsto> n))"
    and add_voters_ok: "or_change_membership R (AddVoterIds ids) False g = (Inr (), g') \<Longrightarrow>
      ids \<subseteq> member_ids R g \<and> voter_ids R g' = voter_ids R g \<union> ids \<and> address_of R g' = address_of R g"
    and remove_voters_ok: "or_change_membership R (RemoveVoters ids) False g = (Inr (), g') \<Longrightarrow>
      voter_ids R g' = voter_ids R g - ids \<and> address_of R g' = address_of R g |` (- (ids \<inter> voter_ids R g))"
    and remove_nodes_ok: "or_change_membership R (RemoveNodes ids) False g = (Inr (), g') \<Longrightarrow>
      ids \<inter> voter_ids R g = {} \<and> voter_ids R g' = voter_ids R g \<and> address_of R g' = address_of R g |` (- ids)"
begin

lemma voters_members: "voter_ids R g \<subseteq> member_ids R g"
  by (auto simp: voter_ids_def member_ids_def)

lemma members_dom: "member_ids R g = dom (address_of R g)"
  by (simp add: members_known)

lemma add_learner_members:
  assumes "node_add_learner N i ra ha pa g = (Inr (), g')" and "rn_raft N = R"
  shows "member_ids R g' = insert i (member_ids R g)" and "voter_ids R g' = voter_ids R g"
    and "i \<notin> member_ids R g \<Longrightarrow> address_of R g' i = Some \<lparr>sn_raft_addr = ra, sn_http_addr = ha, sn_replication_addr = pa\<rparr>"
    and "j \<noteq> i \<Longrightarrow> address_of R g' j = address_of R g j"
  using assms add_learner_ok [of i _ g g'] unfolding members_dom
  by (auto simp: node_add_learner_def raft_error_def split: prod.splits sum.splits if_splits)

lemma promote_members:
  assumes "node_promote_voters N ids g = (Inr (), g')" and "rn_raft N = R"
  shows "set ids \<subseteq> member_ids R g" and "voter_ids R g' = voter_ids R g \<union> set ids" and "member_ids R g' = member_ids R g"
  using assms add_voters_ok [of "set ids" g g'] unfolding members_dom
  by (auto simp: node_promote_voters_def raft_error_def split: prod.splits sum.splits)

text \<open>Removing voters takes them out of the cluster; they do not remain as learners.\<close>

lemma remove_voters_members:
  assumes "node_remove_voters N ids g = (Inr (), g')" and "rn_raft N = R"
  shows "voter_ids R g' = voter_ids R g - set ids" and "member_ids R g' = member_ids R g - (set ids \<inter> voter_ids R g)"
  using assms remove_voters_ok [of "set ids" g g'] unfolding members_dom
  by (auto simp: node_remove_voters_def raft_error_def split: prod.splits sum.splits)

lemma remove_node_members:
  assumes "node_remove_node N i g = (Inr (), g')" and "rn_raft N = R"
  shows "i \<notin> voter_ids R g" and "voter_ids R g' = voter_ids R g" and "member_ids R g' = member_ids R g - {i}"
  using assms remove_nodes_ok [of "{i}" g g'] unfolding members_dom
  by (auto simp: node_remove_node_def raft_error_def split: prod.splits sum.splits)

end

text \<open>
  A cluster in which nobody else changes the membership meanwhile: it is the same after sleeping.
  Initializing makes the given nodes the voters.
\<close>

locale quiet_members = raft_members +
  assumes initialize_ok: "or_initialize R nodes g = (Inr (), g') \<Longrightarrow> voter_ids R g' = dom nodes \<and> address_of R g' = nodes"
    and sleep_members: "or_sleep R t g = (late, g') \<Longrightarrow> voter_ids R g' = voter_ids R g \<and> address_of R g' = address_of R g"
begin

lemma await_leader_members:
  assumes "await_leader_loop N timeout elapsed g = (x, g')" and "rn_raft N = R"
  shows "voter_ids R g' = voter_ids R g \<and> address_of R g' = address_of R g"
  using assms
proof (induction N timeout elapsed g rule: await_leader_loop.induct)
  case (1 N timeout elapsed g)
  show ?case
  proof (cases "current_leader N g = None \<and> \<not> elapsed > timeout")
    case True
    obtain late g1 where sl: "or_sleep (rn_raft N) 100 g = (late, g1)" by fastforce
    with 1(2) True have "await_leader_loop N timeout (elapsed + 100 + late) g1 = (x, g')"
      by (simp add: await_leader_loop.simps [of N timeout elapsed])
    from 1(1) [OF _ _ sl [symmetric] this 1(3)] True sleep_members [of 100 g late g1] sl 1(3) show ?thesis by simp
  next
    case False
    with 1(2) show ?thesis by (auto simp: await_leader_loop.simps [of N timeout elapsed] split: option.splits)
  qed
qed

end

section \<open>A membership that keeps the promises\<close>

text \<open>
  The documented behaviour of the calls on a plain table of nodes, in which a single node decides;
  the examples run on it.
\<close>

record table_raft =
  tr_self :: u64
  tr_leader :: "u64 option"
  tr_voters :: "u64 list"
  tr_nodes :: "(u64 \<times> SaveNode) list"

definition tr_voter_ids :: "table_raft \<Rightarrow> u64 list" where
  "tr_voter_ids g = filter (\<lambda>i. i \<in> set (map fst (tr_nodes g))) (tr_voters g)"

definition tr_metrics :: "table_raft \<Rightarrow> RaftMetrics" where
  "tr_metrics g =
     \<lparr>rm_state = (if tr_leader g = Some (tr_self g) then ServerLeader else ServerFollower), rm_current_term = 1,
      rm_current_leader = tr_leader g, rm_last_applied = None, rm_last_log_index = None, rm_voter_ids = tr_voter_ids g,
      rm_learner_ids = filter (\<lambda>i. i \<notin> set (tr_voter_ids g)) (map fst (tr_nodes g)), rm_nodes = map_of (tr_nodes g)\<rparr>"

fun tr_change :: "ChangeMembers \<Rightarrow> table_raft \<Rightarrow> (string + unit) \<times> table_raft" where
  "tr_change (AddVoterIds ids) g =
     (if ids \<subseteq> set (map fst (tr_nodes g)) then
        (Inr (), g\<lparr>tr_voters := tr_voter_ids g @ filter (\<lambda>i. i \<in> ids) (map fst (tr_nodes g))\<rparr>)
      else (Inl ''learner not found'', g))"
| "tr_change (RemoveVoters ids) g =
     (Inr (), g\<lparr>tr_voters := filter (\<lambda>i. i \<notin> ids) (tr_voter_ids g),
                tr_nodes := filter (\<lambda>(i, _). i \<notin> ids \<inter> set (tr_voter_ids g)) (tr_nodes g)\<rparr>)"
| "tr_change (RemoveNodes ids) g =
     (if ids \<inter> set (tr_voter_ids g) = {} then (Inr (), g\<lparr>tr_nodes := filter (\<lambda>(i, _). i \<notin> ids) (tr_nodes g)\<rparr>)
      else (Inl ''learner not found'', g))"

definition only_leader :: "(table_raft \<Rightarrow> (string + unit) \<times> table_raft) \<Rightarrow> table_raft \<Rightarrow> (string + unit) \<times> table_raft" where
  "only_leader op g = (if tr_leader g = Some (tr_self g) then op g else (Inl ''has to forward request to the leader'', g))"

definition table_openraft :: "table_raft openraft" where
  "table_openraft =
     \<lparr>or_metrics = tr_metrics,
      or_initialize = (\<lambda>nodes g.
        if tr_nodes g \<noteq> [] then (Inl ''not allowed to initialize'', g)
        else (case nodes (tr_self g) of
                None \<Rightarrow> (Inl ''not a member'', g)
              | Some n \<Rightarrow>
                if nodes = [tr_self g \<mapsto> n] then
                  (Inr (), g\<lparr>tr_nodes := [(tr_self g, n)], tr_voters := [tr_self g], tr_leader := Some (tr_self g)\<rparr>)
                else (Inl ''not reachable'', g))),
      or_add_learner = (\<lambda>i n _. only_leader (\<lambda>g.
        (Inr (), if i \<in> set (map fst (tr_nodes g)) then g else g\<lparr>tr_voters := tr_voter_ids g, tr_nodes := (i, n) # tr_nodes g\<rparr>))),
      or_change_membership = (\<lambda>c _. only_leader (tr_change c)),
      or_elect = (\<lambda>g. (Inr (), g)),
      or_sleep = (\<lambda>_ g. (0, g))\<rparr>"

lemma map_of_filter_members: "map_of (filter (\<lambda>(i, _). i \<notin> S) xs) = map_of xs |` (- S)"
  by (rule ext) (induction xs, auto simp: restrict_map_def)

lemma table_members: "member_ids table_openraft g = set (map fst (tr_nodes g))"
  by (auto simp: member_ids_def table_openraft_def tr_metrics_def tr_voter_ids_def)

lemma table_voters: "voter_ids table_openraft g = set (tr_voter_ids g)"
  by (simp add: voter_ids_def table_openraft_def tr_metrics_def)

lemma table_address: "address_of table_openraft g = map_of (tr_nodes g)"
  by (simp add: address_of_def table_openraft_def tr_metrics_def)

lemmas table_views = table_members table_voters table_address dom_map_of_conv_image_fst

interpretation table: quiet_members table_openraft
proof
  fix g :: table_raft
  show "dom (address_of table_openraft g) = member_ids table_openraft g" by (simp add: table_views)
next
  fix i n and g g' :: table_raft
  assume "or_add_learner table_openraft i n True g = (Inr (), g')"
  then show "voter_ids table_openraft g' = voter_ids table_openraft g
    \<and> address_of table_openraft g' = (if i \<in> member_ids table_openraft g then address_of table_openraft g
        else (address_of table_openraft g)(i \<mapsto> n))"
    unfolding table_views by (force simp: table_openraft_def only_leader_def tr_voter_ids_def split: if_splits)
next
  fix ids and g g' :: table_raft
  assume "or_change_membership table_openraft (AddVoterIds ids) False g = (Inr (), g')"
  then show "ids \<subseteq> member_ids table_openraft g \<and> voter_ids table_openraft g' = voter_ids table_openraft g \<union> ids
    \<and> address_of table_openraft g' = address_of table_openraft g"
    unfolding table_views by (force simp: table_openraft_def only_leader_def tr_voter_ids_def split: if_splits)
next
  fix ids and g g' :: table_raft
  assume "or_change_membership table_openraft (RemoveVoters ids) False g = (Inr (), g')"
  then have g': "g' = g\<lparr>tr_voters := filter (\<lambda>i. i \<notin> ids) (tr_voter_ids g),
      tr_nodes := filter (\<lambda>(i, _). i \<notin> ids \<inter> set (tr_voter_ids g)) (tr_nodes g)\<rparr>"
    by (simp add: table_openraft_def only_leader_def split: if_splits)
  have "set (tr_voter_ids g') = set (tr_voter_ids g) - ids"
    unfolding g' by (force simp: tr_voter_ids_def)
  then show "voter_ids table_openraft g' = voter_ids table_openraft g - ids
    \<and> address_of table_openraft g' = address_of table_openraft g |` (- (ids \<inter> voter_ids table_openraft g))"
    using map_of_filter_members [of "ids \<inter> set (tr_voter_ids g)" "tr_nodes g"] unfolding table_views by (simp add: g')
next
  fix ids and g g' :: table_raft
  assume "or_change_membership table_openraft (RemoveNodes ids) False g = (Inr (), g')"
  then have d: "ids \<inter> set (tr_voter_ids g) = {}" and g': "g' = g\<lparr>tr_nodes := filter (\<lambda>(i, _). i \<notin> ids) (tr_nodes g)\<rparr>"
    by (simp_all add: table_openraft_def only_leader_def split: if_splits)
  have "set (tr_voter_ids g') = set (tr_voter_ids g)"
    using d unfolding g' by (force simp: tr_voter_ids_def)
  with d show "ids \<inter> voter_ids table_openraft g = {} \<and> voter_ids table_openraft g' = voter_ids table_openraft g
    \<and> address_of table_openraft g' = address_of table_openraft g |` (- ids)"
    unfolding table_views by (simp add: g' map_of_filter_members)
next
  fix nodes and g g' :: table_raft
  assume "or_initialize table_openraft nodes g = (Inr (), g')"
  then show "voter_ids table_openraft g' = dom nodes \<and> address_of table_openraft g' = nodes"
    unfolding table_views by (auto simp: table_openraft_def tr_voter_ids_def split: if_splits option.splits)
next
  fix t late and g g' :: table_raft
  assume "or_sleep table_openraft t g = (late, g')"
  then show "voter_ids table_openraft g' = voter_ids table_openraft g \<and> address_of table_openraft g' = address_of table_openraft g"
    by (simp add: table_openraft_def)
qed

end
