(* ===== verification/Api_Cluster.thy ===== *)
theory Api_Cluster
  imports Raft_Node
begin

text \<open>
  Managing the cluster: the handlers behind \<open>/cluster\<close> (\<open>crates/save-api/src/handlers/cluster\<close>) and
  the administration service for other tools (\<open>internal_api/service.rs\<close>). A handler takes the
  request that was read from JSON and the state of the Raft instance; its result is the status code,
  the document and the new state.
\<close>

section \<open>The handlers\<close>

record MembershipResponse =
  mr_success :: bool
  mr_message :: string

text \<open>\<open>InitializeResponse\<close> has the same fields.\<close>

type_synonym InitializeResponse = MembershipResponse

definition failed :: "string \<Rightarrow> MembershipResponse" where
  "failed msg = \<lparr>mr_success = False, mr_message = msg\<rparr>"

definition succeeded :: "string \<Rightarrow> MembershipResponse" where
  "succeeded msg = \<lparr>mr_success = True, mr_message = msg\<rparr>"

text \<open>\<open>{:?}\<close> of a list of numbers.\<close>

fun debug_ids_from :: "u64 list \<Rightarrow> string" where
  "debug_ids_from [] = ''''"
| "debug_ids_from (i # is) = '', '' @ nat_str (unat i) @ debug_ids_from is"

fun debug_ids :: "u64 list \<Rightarrow> string" where
  "debug_ids [] = ''[]''"
| "debug_ids (i # is) = ''['' @ nat_str (unat i) @ debug_ids_from is @ '']''"

definition not_the_leader :: string where
  "not_the_leader = ''Not the leader. Forward request to the leader node.''"

definition add_learner :: "'g RaftNode \<Rightarrow> string \<Rightarrow> 'g \<Rightarrow> nat \<times> MembershipResponse \<times> 'g" where
  "add_learner N node g =
     (if \<not> is_leader N g then (421, failed not_the_leader, g)
      else
        (case parse_peer node of
           Inl e \<Rightarrow> (400, failed (Error_to_string e), g)
         | Inr p \<Rightarrow>
           (case node_add_learner N (pi_node_id p) (raft_addr p) (http_addr p) (replication_addr p) g of
              (Inr _, g') \<Rightarrow> (200, succeeded (''Node '' @ nat_str (unat (pi_node_id p)) @ '' added as learner''), g')
            | (Inl e, g') \<Rightarrow> (500, failed (''Failed to add learner: '' @ MetadataError_to_string e), g'))))"

definition promote_voters :: "'g RaftNode \<Rightarrow> u64 list \<Rightarrow> 'g \<Rightarrow> nat \<times> MembershipResponse \<times> 'g" where
  "promote_voters N ids g =
     (if \<not> is_leader N g then (421, failed not_the_leader, g)
      else if ids = [] then (400, failed ''node_ids cannot be empty'', g)
      else
        (case node_promote_voters N ids g of
           (Inr _, g') \<Rightarrow> (200, succeeded (''Nodes '' @ debug_ids ids @ '' promoted to voters''), g')
         | (Inl e, g') \<Rightarrow> (500, failed (''Failed to promote voters: '' @ MetadataError_to_string e), g')))"

definition trigger_elect :: "'g RaftNode \<Rightarrow> 'g \<Rightarrow> nat \<times> MembershipResponse \<times> 'g" where
  "trigger_elect N g =
     (case node_trigger_elect N g of
        (Inr _, g') \<Rightarrow> (200, succeeded ''Election triggered'', g')
      | (Inl e, g') \<Rightarrow> (500, failed (''Failed to trigger election: '' @ MetadataError_to_string e), g'))"

definition cannot_remove_leader :: string where
  "cannot_remove_leader = ''Cannot remove the leader node. Transfer leadership first.''"

definition cluster_remove_node :: "'g RaftNode \<Rightarrow> u64 \<Rightarrow> 'g \<Rightarrow> nat \<times> MembershipResponse \<times> 'g" where
  "cluster_remove_node N node_id g =
     (if \<not> is_leader N g then (421, failed not_the_leader, g)
      else if node_id = rn_node_id N then (400, failed cannot_remove_leader, g)
      else
        (case (if node_id \<in> set (cs_voters (get_status N g)) then node_remove_voters N [node_id] g else (Inr (), g)) of
           (Inl e, g') \<Rightarrow> (500, failed (''Failed to demote voter to learner: '' @ MetadataError_to_string e), g')
         | (Inr _, g') \<Rightarrow>
           (case node_remove_node N node_id g' of
              (Inr _, g'') \<Rightarrow> (200, succeeded (''Node '' @ nat_str (unat node_id) @ '' removed from cluster''), g'')
            | (Inl e, g'') \<Rightarrow> (500, failed (''Failed to remove node: '' @ MetadataError_to_string e), g''))))"

definition cluster_status :: "'g RaftNode \<Rightarrow> 'g \<Rightarrow> nat \<times> ClusterStatus" where
  "cluster_status N g = (200, get_status N g)"

text \<open>Adding the other nodes as learners, one after the other.\<close>

fun add_learners :: "'g RaftNode \<Rightarrow> PeerInfo list \<Rightarrow> 'g \<Rightarrow> (u64 \<times> MetadataError) option \<times> 'g" where
  "add_learners N [] g = (None, g)"
| "add_learners N (p # ps) g =
     (case node_add_learner N (pi_node_id p) (raft_addr p) (http_addr p) (replication_addr p) g of
        (Inl e, g') \<Rightarrow> (Some (pi_node_id p, e), g')
      | (Inr _, g') \<Rightarrow> add_learners N ps g')"

definition cluster_initialize :: "'g RaftNode \<Rightarrow> string list \<Rightarrow> 'g \<Rightarrow> nat \<times> InitializeResponse \<times> 'g" where
  "cluster_initialize N request g =
     (if is_initialized N g then (409, failed ''Cluster already initialized'', g)
      else
        (case parse_peers request of
           Inl e \<Rightarrow> (400, failed (Error_to_string e), g)
         | Inr members \<Rightarrow>
           (case find (\<lambda>p. pi_node_id p = rn_node_id N) members of
              None \<Rightarrow>
                (400, failed (''This node (id='' @ nat_str (unat (rn_node_id N)) @ '') must be included in members list''), g)
            | Some my_peer \<Rightarrow>
              (case node_initialize N [my_peer] g of
                 (Inl e, g1) \<Rightarrow> (500, failed (''Failed to initialize: '' @ MetadataError_to_string e), g1)
               | (Inr _, g1) \<Rightarrow>
                 (case node_wait_for_leader N 5000 g1 of
                    (Inl e, g2) \<Rightarrow> (500, failed (''Failed to become leader: '' @ MetadataError_to_string e), g2)
                  | (Inr _, g2) \<Rightarrow>
                    (let others = filter (\<lambda>p. pi_node_id p \<noteq> rn_node_id N) members in
                     if others = [] then (200, succeeded ''Cluster initialized'', g2)
                     else
                       (case add_learners N others g2 of
                          (Some (i, e), g3) \<Rightarrow>
                            (500, failed (''Failed to add learner '' @ nat_str (unat i) @ '': '' @ MetadataError_to_string e), g3)
                        | (None, g3) \<Rightarrow>
                          (case or_sleep (rn_raft N) 100 g3 of (_, g4) \<Rightarrow>
                             (case node_promote_voters N (map pi_node_id others) g4 of
                                (Inl e, g5) \<Rightarrow> (500, failed (''Failed to promote voters: '' @ MetadataError_to_string e), g5)
                              | (Inr _, g5) \<Rightarrow> (200, succeeded ''Cluster initialized'', g5))))))))))"

section \<open>The administration service\<close>

record AddLearnerRequest =
  al_node_id :: u64
  al_raft_address :: string
  al_http_address :: string
  al_replication_address :: string

text \<open>The responses to changes have a flag and an error message.\<close>

record AdminResponse =
  ad_success :: bool
  ad_error_message :: string

record DrainNodeResponse = AdminResponse +
  dr_drained_requests :: u64

record GetStatusResponse =
  gs_node_id :: u64
  gs_initialized :: bool
  gs_state :: nat
  gs_current_term :: u64
  gs_leader_id :: "u64 option"
  gs_voters :: "u64 list"
  gs_learners :: "u64 list"
  gs_last_applied_index :: "u64 option"
  gs_last_log_index :: "u64 option"

definition validate_add_learner_request :: "AddLearnerRequest \<Rightarrow> string option" where
  "validate_add_learner_request req =
     (if al_node_id req = 0 then Some ''node_id must be > 0''
      else if al_raft_address req = [] then Some ''raft_address cannot be empty''
      else if al_http_address req = [] then Some ''http_address cannot be empty''
      else if al_replication_address req = [] then Some ''replication_address cannot be empty''
      else None)"

definition admin_result :: "(MetadataError + unit) \<times> 'g \<Rightarrow> AdminResponse \<times> 'g" where
  "admin_result r =
     (case r of
        (Inr _, g) \<Rightarrow> (\<lparr>ad_success = True, ad_error_message = []\<rparr>, g)
      | (Inl e, g) \<Rightarrow> (\<lparr>ad_success = False, ad_error_message = MetadataError_to_string e\<rparr>, g))"

definition admin_add_learner :: "'g RaftNode \<Rightarrow> AddLearnerRequest \<Rightarrow> 'g \<Rightarrow> AdminResponse \<times> 'g" where
  "admin_add_learner N req g =
     (case validate_add_learner_request req of
        Some msg \<Rightarrow> (\<lparr>ad_success = False, ad_error_message = msg\<rparr>, g)
      | None \<Rightarrow>
        admin_result
          (node_add_learner N (al_node_id req) (al_raft_address req) (al_http_address req) (al_replication_address req) g))"

definition admin_promote_voters :: "'g RaftNode \<Rightarrow> u64 list \<Rightarrow> 'g \<Rightarrow> AdminResponse \<times> 'g" where
  "admin_promote_voters N ids g =
     (if ids = [] then (\<lparr>ad_success = False, ad_error_message = ''node_ids cannot be empty''\<rparr>, g)
      else admin_result (node_promote_voters N ids g))"

definition admin_remove_node :: "'g RaftNode \<Rightarrow> u64 \<Rightarrow> 'g \<Rightarrow> AdminResponse \<times> 'g" where
  "admin_remove_node N node_id g =
     (if node_id = 0 then (\<lparr>ad_success = False, ad_error_message = ''node_id must be > 0''\<rparr>, g)
      else if node_id = rn_node_id N \<and> is_leader N g then
        (\<lparr>ad_success = False, ad_error_message = cannot_remove_leader\<rparr>, g)
      else admin_result (node_remove_node N node_id g))"

definition admin_trigger_elect :: "'g RaftNode \<Rightarrow> 'g \<Rightarrow> AdminResponse \<times> 'g" where
  "admin_trigger_elect N g = admin_result (node_trigger_elect N g)"

text \<open>The numbers of the states in the protocol.\<close>

fun raft_state_to_proto :: "RaftState \<Rightarrow> nat" where
  "raft_state_to_proto Leader = 1"
| "raft_state_to_proto Follower = 2"
| "raft_state_to_proto Candidate = 3"
| "raft_state_to_proto Learner = 4"
| "raft_state_to_proto Shutdown = 5"

definition admin_get_status :: "'g RaftNode \<Rightarrow> 'g \<Rightarrow> GetStatusResponse" where
  "admin_get_status N g =
     (let s = get_status N g in
      \<lparr>gs_node_id = cs_node_id s, gs_initialized = cs_initialized s, gs_state = raft_state_to_proto (cs_state s),
       gs_current_term = cs_current_term s, gs_leader_id = cs_current_leader s, gs_voters = cs_voters s,
       gs_learners = cs_learners s, gs_last_applied_index = cs_last_applied_index s, gs_last_log_index = cs_last_log_index s\<rparr>)"

text \<open>Draining waits until no request is in flight, looking every 100 milliseconds.\<close>

function drain_loop :: "('g \<Rightarrow> nat) \<Rightarrow> (nat \<Rightarrow> 'g \<Rightarrow> nat \<times> 'g) \<Rightarrow> nat \<Rightarrow> nat \<Rightarrow> u64 \<Rightarrow> 'g \<Rightarrow> DrainNodeResponse \<times> 'g" where
  "drain_loop in_flight sleep timeout elapsed drained g =
     (if in_flight g = 0 then (\<lparr>ad_success = True, ad_error_message = [], dr_drained_requests = drained\<rparr>, g)
      else if timeout \<le> elapsed then
        (\<lparr>ad_success = False, ad_error_message = ''Drain timeout: '' @ nat_str (in_flight g) @ '' requests still in flight'',
          dr_drained_requests = drained\<rparr>, g)
      else
        (case sleep 100 g of (late, g') \<Rightarrow>
           drain_loop in_flight sleep timeout (elapsed + 100 + late)
             (if in_flight g' < in_flight g then drained + of_nat (in_flight g - in_flight g') else drained) g'))"
  by pat_completeness auto
termination by (relation "measure (\<lambda>(f, sl, timeout, elapsed, d, g). timeout - elapsed)") auto

declare drain_loop.simps [simp del]

definition drain_node ::
  "('g \<Rightarrow> nat) \<Rightarrow> (nat \<Rightarrow> 'g \<Rightarrow> nat \<times> 'g) \<Rightarrow> u64 \<Rightarrow> u64 \<Rightarrow> 'g \<Rightarrow> DrainNodeResponse \<times> 'g" where
  "drain_node in_flight sleep drain_timeout_secs timeout_secs g =
     drain_loop in_flight sleep (1000 * unat (if timeout_secs = 0 then drain_timeout_secs else timeout_secs)) 0 0 g"

section \<open>What the handlers do to the membership\<close>

context raft_members
begin

lemma add_learner_success:
  assumes "add_learner N node g = (c, resp, g')" and "rn_raft N = R" and "mr_success resp"
  shows "c = 200 \<and> is_leader N g \<and> (\<exists>p. parse_peer node = Inr p \<and> member_ids R g' = insert (pi_node_id p) (member_ids R g)
    \<and> voter_ids R g' = voter_ids R g \<and> (pi_node_id p \<notin> member_ids R g \<longrightarrow> address_of R g' (pi_node_id p) = Some (SaveNode_of p)))"
  using assms
  by (auto simp: add_learner_def failed_def succeeded_def SaveNode_of_def add_learner_members split: if_splits sum.splits prod.splits)

lemma promote_voters_success:
  assumes "promote_voters N ids g = (c, resp, g')" and "rn_raft N = R" and "mr_success resp"
  shows "c = 200 \<and> is_leader N g \<and> ids \<noteq> [] \<and> set ids \<subseteq> member_ids R g \<and> voter_ids R g' = voter_ids R g \<union> set ids
    \<and> member_ids R g' = member_ids R g"
  using assms promote_members
  by (auto simp: promote_voters_def failed_def succeeded_def split: if_splits sum.splits prod.splits)

lemma remove_node_success:
  assumes run: "cluster_remove_node N i g = (c, resp, g')" and R: "rn_raft N = R" and ok: "mr_success resp"
  shows "c = 200 \<and> is_leader N g \<and> i \<noteq> rn_node_id N \<and> voter_ids R g' = voter_ids R g - {i} \<and> member_ids R g' = member_ids R g - {i}"
proof -
  have v: "i \<in> set (cs_voters (get_status N g)) \<longleftrightarrow> i \<in> voter_ids R g" by (simp add: get_status_def Let_def voter_ids_def R)
  have l: "is_leader N g" "i \<noteq> rn_node_id N" using run ok by (auto simp: cluster_remove_node_def failed_def split: if_splits)
  with run ok obtain g1 where 1: "(if i \<in> voter_ids R g then node_remove_voters N [i] g else (Inr (), g)) = (Inr (), g1)"
    and 2: "node_remove_node N i g1 = (Inr (), g')" and c: "c = 200"
    by (auto simp: cluster_remove_node_def v failed_def split: sum.splits prod.splits)
  from 1 have "voter_ids R g1 = voter_ids R g - {i}" "member_ids R g1 - {i} = member_ids R g - {i}"
    using remove_voters_members [of N "[i]" g g1, OF _ R] by (auto split: if_splits)
  with remove_node_members [OF 2 R] l c show ?thesis by simp
qed

text \<open>A request that is refused (status 400, 409 or 421) changes nothing.\<close>

lemma refused_unchanged:
  "add_learner N node g = (c, resp, g') \<Longrightarrow> c < 500 \<Longrightarrow> \<not> mr_success resp \<Longrightarrow> g' = g"
  "promote_voters N ids g = (c, resp, g') \<Longrightarrow> c < 500 \<Longrightarrow> \<not> mr_success resp \<Longrightarrow> g' = g"
  "cluster_remove_node N i g = (c, resp, g') \<Longrightarrow> c < 500 \<Longrightarrow> \<not> mr_success resp \<Longrightarrow> g' = g"
  by (auto simp: add_learner_def promote_voters_def cluster_remove_node_def succeeded_def split: if_splits sum.splits prod.splits)

text \<open>The administration service removes learners only: the request for a voter never succeeds.\<close>

lemma admin_keeps_voters:
  assumes "admin_remove_node N i g = (resp, g')" and "rn_raft N = R" and "i \<in> voter_ids R g"
  shows "\<not> ad_success resp"
  using assms remove_node_members(1) [of N i g] 
  by (auto simp: admin_remove_node_def admin_result_def split: if_splits sum.splits prod.splits)

end

context quiet_members
begin

lemma add_learners_members:
  assumes "add_learners N ps g = (None, g')" and "rn_raft N = R" and "pi_node_id ` set ps \<inter> member_ids R g = {}"
    and "distinct (map pi_node_id ps)"
  shows "voter_ids R g' = voter_ids R g \<and> (\<forall>p \<in> set ps. address_of R g' (pi_node_id p) = Some (SaveNode_of p))
    \<and> (\<forall>i. i \<notin> pi_node_id ` set ps \<longrightarrow> address_of R g' i = address_of R g i)"
  using assms
proof (induction ps arbitrary: g)
  case (Cons p ps)
  obtain g1 where a: "node_add_learner N (pi_node_id p) (raft_addr p) (http_addr p) (replication_addr p) g = (Inr (), g1)"
    and r: "add_learners N ps g1 = (None, g')"
    using Cons.prems(1) by (auto split: sum.splits prod.splits)
  note m = add_learner_members [OF a Cons.prems(2)]
  have "voter_ids R g' = voter_ids R g1 \<and> (\<forall>p \<in> set ps. address_of R g' (pi_node_id p) = Some (SaveNode_of p))
    \<and> (\<forall>i. i \<notin> pi_node_id ` set ps \<longrightarrow> address_of R g' i = address_of R g1 i)"
    using Cons.IH [OF r Cons.prems(2)] Cons.prems(3,4) m(1) by auto
  then show ?case using m Cons.prems(3,4) by (auto simp: SaveNode_of_def)
qed simp

lemma initialize_success:
  assumes run: "cluster_initialize N request g = (c, resp, g')" and R: "rn_raft N = R" and ok: "mr_success resp"
  shows "\<exists>ps. parse_peers request = Inr ps \<and> \<not> is_initialized N g \<and> rn_node_id N \<in> pi_node_id ` set ps
    \<and> (distinct (map pi_node_id ps) \<longrightarrow> voter_ids R g' = pi_node_id ` set ps \<and> member_ids R g' = pi_node_id ` set ps
       \<and> (\<forall>p \<in> set ps. address_of R g' (pi_node_id p) = Some (SaveNode_of p)))"
proof -
  obtain ps me where p: "parse_peers request = Inr ps" "\<not> is_initialized N g" "find (\<lambda>p. pi_node_id p = rn_node_id N) ps = Some me"
    using run ok by (auto simp: cluster_initialize_def failed_def split: if_splits sum.splits option.splits)
  then have me: "me \<in> set ps" "pi_node_id me = rn_node_id N" by (auto simp: find_Some_iff)
  let ?others = "filter (\<lambda>p. pi_node_id p \<noteq> rn_node_id N) ps"
  obtain g1 g2 l where 1: "node_initialize N [me] g = (Inr (), g1)" and 2: "node_wait_for_leader N 5000 g1 = (Inr l, g2)"
    using run ok p by (auto simp: cluster_initialize_def failed_def split: sum.splits prod.splits)
  have i: "voter_ids R g2 = {rn_node_id N}" "address_of R g2 = [rn_node_id N \<mapsto> SaveNode_of me]"
    using 1 2 initialize_ok [of "[rn_node_id N \<mapsto> SaveNode_of me]" g g1] await_leader_members [of N 5000 0 g1 "Inr l" g2]
    by (auto simp: node_initialize_def node_wait_for_leader_def Let_def me(2) R split: if_splits sum.splits prod.splits)
  have "voter_ids R g' = pi_node_id ` set ps \<and> dom (address_of R g') = pi_node_id ` set ps
      \<and> (\<forall>p \<in> set ps. address_of R g' (pi_node_id p) = Some (SaveNode_of p))" if d: "distinct (map pi_node_id ps)"
  proof -
    have me': "p = me" if "p \<in> set ps" "pi_node_id p = rn_node_id N" for p
      using d me that by (metis distinct_map inj_onD)
    have ids: "pi_node_id ` set ps = insert (rn_node_id N) (pi_node_id ` set ?others)" using me by force
    show ?thesis
    proof (cases "?others = []")
      case True
      with run ok p 1 2 have "g' = g2" by (simp add: cluster_initialize_def Let_def)
      moreover have "\<forall>p \<in> set ps. pi_node_id p = rn_node_id N" using True by (simp add: filter_empty_conv)
      then have "set ps = {me}" using me(1) me' by blast
      ultimately show ?thesis using i me by simp
    next
      case False
      with run ok p 1 2 obtain g3 g4 late where 3: "add_learners N ?others g2 = (None, g3)"
        and 4: "or_sleep R 100 g3 = (late, g4)" and 5: "node_promote_voters N (map pi_node_id ?others) g4 = (Inr (), g')"
        by (simp add: cluster_initialize_def Let_def) (auto simp: failed_def R split: sum.splits prod.splits option.splits)
      have m2: "member_ids R g2 = {rn_node_id N}" using i by (simp add: members_dom)
      have ds: "distinct (map pi_node_id ?others)" using d by (simp add: distinct_map_filter)
      have dj: "pi_node_id ` set ?others \<inter> member_ids R g2 = {}" by (auto simp: m2)
      note a = add_learners_members [OF 3 R dj ds]
      from 5 have "or_change_membership R (AddVoterIds (set (map pi_node_id ?others))) False g4 = (Inr (), g')"
        by (auto simp: node_promote_voters_def raft_error_def R split: sum.splits prod.splits)
      from add_voters_ok [OF this] sleep_members [OF 4]
      have b: "voter_ids R g' = voter_ids R g3 \<union> pi_node_id ` set ?others" "address_of R g' = address_of R g3" by simp_all
      have x: "address_of R g3 (pi_node_id p) = Some (SaveNode_of p)" if "p \<in> set ps" for p
      proof (cases "pi_node_id p = rn_node_id N")
        case True
        have "rn_node_id N \<notin> pi_node_id ` set ?others" by auto
        with a i(2) have "address_of R g3 (rn_node_id N) = Some (SaveNode_of me)" by simp
        with True me' [OF that True] show ?thesis by simp
      next
        case False
        with that a show ?thesis by simp
      qed
      have "address_of R g3 j = None" if "j \<notin> pi_node_id ` set ps" for j
        using that a i(2) ids by simp
      then have "dom (address_of R g3) \<subseteq> pi_node_id ` set ps" by (metis domIff subsetI)
      then have "dom (address_of R g3) = pi_node_id ` set ps" using x by auto
      with x b a i(1) ids show ?thesis by simp
    qed
  qed
  moreover have "rn_node_id N \<in> pi_node_id ` set ps" using me by force
  ultimately show ?thesis using p by (auto simp: members_dom)
qed

end

section \<open>Draining\<close>

text \<open>Draining always ends; it succeeds exactly if no request is in flight at the end.\<close>

lemma drain_loop_result:
  "drain_loop in_flight sleep timeout elapsed drained g = (resp, g') \<Longrightarrow> ad_success resp \<longleftrightarrow> in_flight g' = 0"
proof (induction in_flight sleep timeout elapsed drained g arbitrary: g' rule: drain_loop.induct)
  case (1 in_flight sleep timeout elapsed drained g)
  show ?case
  proof (cases "in_flight g = 0 \<or> timeout \<le> elapsed")
    case True
    with 1(2) show ?thesis by (auto simp: drain_loop.simps [of _ _ timeout elapsed] split: if_splits)
  next
    case False
    obtain late g1 where sl: "sleep 100 g = (late, g1)" by fastforce
    from False have f: "in_flight g \<noteq> 0" "\<not> timeout \<le> elapsed" by auto
    with 1(2) sl have "drain_loop in_flight sleep timeout (elapsed + 100 + late)
        (if in_flight g1 < in_flight g then drained + of_nat (in_flight g - in_flight g1) else drained) g1 = (resp, g')"
      by (simp add: drain_loop.simps [of _ _ timeout elapsed])
    from 1(1) [OF f sl [symmetric] this] show ?thesis .
  qed
qed

text \<open>The state and the time after a number of sleeps.\<close>

fun after_sleeps :: "(nat \<Rightarrow> 'g \<Rightarrow> nat \<times> 'g) \<Rightarrow> nat \<Rightarrow> nat \<times> 'g \<Rightarrow> nat \<times> 'g" where
  "after_sleeps sleep 0 tg = tg"
| "after_sleeps sleep (Suc k) tg =
     (case sleep 100 (snd tg) of (late, g') \<Rightarrow> after_sleeps sleep k (fst tg + 100 + late, g'))"

lemma drain_loop_done:
  assumes "in_flight (snd (after_sleeps sleep k (elapsed, g))) = 0"
    and "\<And>j. j < k \<Longrightarrow> fst (after_sleeps sleep j (elapsed, g)) < timeout"
  shows "ad_success (fst (drain_loop in_flight sleep timeout elapsed drained g))"
  using assms
proof (induction k arbitrary: elapsed g drained)
  case 0
  then show ?case by (simp add: drain_loop.simps)
next
  case (Suc k)
  obtain late g1 where sl: "sleep 100 g = (late, g1)" by fastforce
  show ?case
  proof (cases "in_flight g = 0")
    case True
    then show ?thesis by (simp add: drain_loop.simps)
  next
    case False
    have t: "\<not> timeout \<le> elapsed" using Suc.prems(2) [of 0] by simp
    have "ad_success (fst (drain_loop in_flight sleep timeout (elapsed + 100 + late) d g1))" for d
    proof (rule Suc.IH)
      show "in_flight (snd (after_sleeps sleep k (elapsed + 100 + late, g1))) = 0" using Suc.prems(1) sl by simp
      show "fst (after_sleeps sleep j (elapsed + 100 + late, g1)) < timeout" if "j < k" for j
        using Suc.prems(2) [of "Suc j"] that sl by simp
    qed
    with False t sl show ?thesis by (simp add: drain_loop.simps [of _ _ timeout elapsed])
  qed
qed

section \<open>Properties\<close>

text \<open>
  C13: The requests to change the cluster do what they report and nothing else. A success of adding a
  learner, promoting voters or removing a node means that this node is the leader and that the
  membership changed exactly so: the learner is a member with the addresses that were given, the
  promoted nodes were members and are voters, the removed node, which never is the leader itself, is
  neither. A request that is refused changes nothing.
\<close>

theorem membership_changes_exact:
  assumes "raft_members (rn_raft N)"
    and "add_learner N node g = (c1, r1, g1)" and "promote_voters N ids g = (c2, r2, g2)" and "cluster_remove_node N i g = (c3, r3, g3)"
  shows "(mr_success r1 \<longrightarrow> is_leader N g \<and> (\<exists>p. parse_peer node = Inr p
            \<and> member_ids (rn_raft N) g1 = insert (pi_node_id p) (member_ids (rn_raft N) g)
            \<and> voter_ids (rn_raft N) g1 = voter_ids (rn_raft N) g
            \<and> (pi_node_id p \<notin> member_ids (rn_raft N) g \<longrightarrow> address_of (rn_raft N) g1 (pi_node_id p) = Some (SaveNode_of p))))
    \<and> (mr_success r2 \<longrightarrow> is_leader N g \<and> set ids \<subseteq> member_ids (rn_raft N) g
            \<and> voter_ids (rn_raft N) g2 = voter_ids (rn_raft N) g \<union> set ids \<and> member_ids (rn_raft N) g2 = member_ids (rn_raft N) g)
    \<and> (mr_success r3 \<longrightarrow> is_leader N g \<and> i \<noteq> rn_node_id N
            \<and> voter_ids (rn_raft N) g3 = voter_ids (rn_raft N) g - {i} \<and> member_ids (rn_raft N) g3 = member_ids (rn_raft N) g - {i})
    \<and> (\<not> mr_success r1 \<and> c1 < 500 \<longrightarrow> g1 = g) \<and> (\<not> mr_success r2 \<and> c2 < 500 \<longrightarrow> g2 = g) \<and> (\<not> mr_success r3 \<and> c3 < 500 \<longrightarrow> g3 = g)"
proof -
  note a = raft_members.add_learner_success [OF assms(1,2) refl] and b = raft_members.promote_voters_success [OF assms(1,3) refl]
    and c = raft_members.remove_node_success [OF assms(1,4) refl] and d = raft_members.refused_unchanged [OF assms(1)]
  show ?thesis
    using d(1) [OF assms(2)] d(2) [OF assms(3)] d(3) [OF assms(4)] by (intro conjI impI) (use a b c in simp_all)
qed

definition example_leader :: "table_raft RaftNode" where
  "example_leader = \<lparr>rn_raft = table_openraft, rn_node_id = 1\<rparr>"

definition example_address :: SaveNode where
  "example_address = \<lparr>sn_raft_addr = ''http://a:1'', sn_http_addr = ''http://a:2'', sn_replication_addr = ''http://a:3''\<rparr>"

definition example_cluster :: table_raft where
  "example_cluster = \<lparr>tr_self = 1, tr_leader = Some 1, tr_voters = [1, 2], tr_nodes = [(1, example_address), (2, example_address), (3, example_address)]\<rparr>"

definition example_peer :: PeerInfo where
  "example_peer = \<lparr>pi_node_id = 4, pi_host = ''b'', raft_port = 1, http_port = 2, replication_port = 3\<rparr>"

lemma example_views:
  "rn_raft example_leader = table_openraft" "member_ids table_openraft example_cluster = {1, 2, 3}"
  "voter_ids table_openraft example_cluster = {1, 2}" "is_leader example_leader example_cluster"
proof -
  show "rn_raft example_leader = table_openraft" by (simp add: example_leader_def)
  show "member_ids table_openraft example_cluster = {1, 2, 3}" by (auto simp: table_members example_cluster_def)
  show "voter_ids table_openraft example_cluster = {1, 2}" by (auto simp: table_voters example_cluster_def tr_voter_ids_def)
  show "is_leader example_leader example_cluster" by code_simp
qed

lemma example_parse: "parse_peer (peer_str example_peer) = Inr example_peer"
  by (rule parse_peer_str) (simp add: example_peer_def)

lemma example_add:
  obtains c m g' where "add_learner example_leader (peer_str example_peer) example_cluster = (c, m, g')" and "mr_success m"
proof -
  obtain g' where "node_add_learner example_leader (pi_node_id example_peer) (raft_addr example_peer) (http_addr example_peer)
      (replication_addr example_peer) example_cluster = (Inr (), g')"
    by (simp add: node_add_learner_def raft_error_def example_leader_def table_openraft_def only_leader_def example_cluster_def)
  then show ?thesis by (intro that) (auto simp: add_learner_def example_parse example_views succeeded_def)
qed

theorem membership_changes_exact_witness:
  "member_ids table_openraft (snd (snd (add_learner example_leader (peer_str example_peer) example_cluster))) = {1, 2, 3, 4}
   \<and> voter_ids table_openraft (snd (snd (promote_voters example_leader [3] example_cluster))) = {1, 2, 3}
   \<and> member_ids table_openraft (snd (snd (cluster_remove_node example_leader 2 example_cluster))) = {1, 3}"
proof -
  obtain c1 r1 g1 c2 r2 g2 c3 r3 g3 where r: "add_learner example_leader (peer_str example_peer) example_cluster = (c1, r1, g1)"
    "promote_voters example_leader [3] example_cluster = (c2, r2, g2)" "cluster_remove_node example_leader 2 example_cluster = (c3, r3, g3)"
    by (metis surj_pair)
  note p = example_parse
  have "mr_success r1" using r(1) by (auto intro: example_add)
  moreover obtain g'' where "node_promote_voters example_leader [3] example_cluster = (Inr (), g'')"
    by (simp add: node_promote_voters_def raft_error_def example_leader_def table_openraft_def only_leader_def example_cluster_def)
  with r(2) have "mr_success r2" by (auto simp: promote_voters_def example_views succeeded_def)
  moreover have "mr_success r3"
  proof -
    have v: "2 \<in> set (cs_voters (get_status example_leader example_cluster))" by code_simp
    let ?g = "\<lparr>tr_self = 1, tr_leader = Some 1, tr_voters = [1], tr_nodes = [(1, example_address), (3, example_address)]\<rparr>"
    have "node_remove_voters example_leader [2] example_cluster = (Inr (), ?g)"
      by (simp add: node_remove_voters_def raft_error_def example_leader_def table_openraft_def only_leader_def example_cluster_def
          tr_voter_ids_def)
    moreover obtain h where "node_remove_node example_leader 2 ?g = (Inr (), h)"
      by (simp add: node_remove_node_def raft_error_def example_leader_def table_openraft_def only_leader_def tr_voter_ids_def)
    moreover have "rn_node_id example_leader = 1" by (simp add: example_leader_def)
    ultimately show ?thesis using r(3) v by (auto simp: cluster_remove_node_def example_views succeeded_def)
  qed
  ultimately have s: "mr_success r1" "mr_success r2" "mr_success r3" by simp_all
  note x = membership_changes_exact [of example_leader, unfolded example_views, OF table.raft_members_axioms r]
  from x [THEN conjunct1, rule_format, OF s(1)] obtain q where q: "parse_peer (peer_str example_peer) = Inr q"
    "member_ids table_openraft g1 = insert (pi_node_id q) (member_ids table_openraft example_cluster)" by blast
  from q(1) p have "q = example_peer" by simp
  with q(2) have "member_ids table_openraft g1 = insert (pi_node_id example_peer) {1, 2, 3}" by (simp add: example_views)
  then have "member_ids table_openraft g1 = {1, 2, 3, 4}" by (simp add: example_peer_def) blast
  moreover from x [THEN conjunct2, THEN conjunct1] s(2) have "voter_ids table_openraft g2 = voter_ids table_openraft example_cluster \<union> set [3]" by blast
  then have "voter_ids table_openraft g2 = {1, 2, 3}" by (simp add: example_views) blast
  moreover from x [THEN conjunct2, THEN conjunct2, THEN conjunct1] s(3) have "member_ids table_openraft g3 = member_ids table_openraft example_cluster - {2}" by blast
  then have "member_ids table_openraft g3 = {1, 3}" by (simp add: example_views insert_Diff_if)
  ultimately show ?thesis by (simp add: r)
qed

end
