(* ===== verification/Api_Scaling.thy ===== *)
theory Api_Scaling
  imports Api_Cluster Common_Config
begin

text \<open>
  Joining the cluster when a node starts and leaving it when it stops, \<open>crates/save-api/src/scaling.rs\<close>.
  The state \<open>'w\<close> is that of the whole cluster: the node's own Raft instance is a \<open>RaftNode\<close> over it,
  and the HTTP client is a parameter \<open>send\<close>. A reply carries what its body reads as, as either of
  the two documents the code asks for. Time is counted in milliseconds.
\<close>

section \<open>Requests to other nodes\<close>

datatype ScalingError =
    NoPeers
  | ConnectionFailed string
  | NoLeader
  | JoinFailed string
  | LeaveFailed string
  | ScalingTimeout
  | LeadershipTransferTimeout u64
  | VoterRemovalFailed string
  | Http string

fun ScalingError_to_string :: "ScalingError \<Rightarrow> string" where
  "ScalingError_to_string NoPeers = ''No peers configured''"
| "ScalingError_to_string (ConnectionFailed e) = ''Failed to connect to any peer: '' @ e"
| "ScalingError_to_string NoLeader = ''No leader available in cluster''"
| "ScalingError_to_string (JoinFailed e) = ''Join operation failed: '' @ e"
| "ScalingError_to_string (LeaveFailed e) = ''Leave operation failed: '' @ e"
| "ScalingError_to_string ScalingTimeout = ''Operation timed out''"
| "ScalingError_to_string (LeadershipTransferTimeout n) =
     ''Leadership transfer timed out after '' @ nat_str (unat n) @ '' seconds''"
| "ScalingError_to_string (VoterRemovalFailed e) = ''Failed to remove self from voter set: '' @ e"
| "ScalingError_to_string (Http e) = ''HTTP request error: '' @ e"

record ClusterStatusReply =
  sr_node_id :: u64
  sr_current_leader :: "u64 option"
  sr_voters :: "u64 list"
  sr_learners :: "u64 list"

datatype request_json = NoJson | NodeJson string | IdsJson "u64 list"

record http_reply =
  hr_status :: nat
  hr_status_text :: string
  hr_status_doc :: "string + ClusterStatusReply"
  hr_membership_doc :: "string + MembershipResponse"

text \<open>Method, address, body.\<close>

type_synonym 'w http = "string \<Rightarrow> string \<Rightarrow> request_json \<Rightarrow> 'w \<Rightarrow> (string + http_reply) \<times> 'w"

definition is_success :: "nat \<Rightarrow> bool" where
  "is_success s \<longleftrightarrow> 200 \<le> s \<and> s < 300"

definition get_cluster_status :: "'w http \<Rightarrow> string \<Rightarrow> 'w \<Rightarrow> (ScalingError + ClusterStatusReply) \<times> 'w" where
  "get_cluster_status send base_url w =
     (case send ''GET'' (base_url @ ''/cluster/status'') NoJson w of
        (Inl e, w') \<Rightarrow> (Inl (Http e), w')
      | (Inr r, w') \<Rightarrow>
        if \<not> is_success (hr_status r) then (Inl (ConnectionFailed (''Status request failed: '' @ hr_status_text r)), w')
        else
          (case hr_status_doc r of
             Inl e \<Rightarrow> (Inl (ConnectionFailed (''Invalid response: '' @ e)), w')
           | Inr s \<Rightarrow> (Inr s, w')))"

section \<open>Joining\<close>

definition is_member :: "'w RaftNode \<Rightarrow> u64 \<Rightarrow> 'w \<Rightarrow> bool" where
  "is_member N node_id w \<longleftrightarrow>
     node_id \<in> set (cs_voters (get_status N w)) \<or> node_id \<in> set (cs_learners (get_status N w))"

text \<open>The membership document of a reply.\<close>

definition ask_membership ::
  "'w http \<Rightarrow> string \<Rightarrow> string \<Rightarrow> request_json \<Rightarrow> (string \<Rightarrow> ScalingError) \<Rightarrow> 'w \<Rightarrow> (ScalingError + MembershipResponse) \<times> 'w" where
  "ask_membership send method url body invalid w =
     (case send method url body w of
        (Inl e, w') \<Rightarrow> (Inl (Http e), w')
      | (Inr r, w') \<Rightarrow> (case hr_membership_doc r of Inl e \<Rightarrow> (Inl (invalid e), w') | Inr m \<Rightarrow> (Inr m, w')))"

definition sleep :: "'w RaftNode \<Rightarrow> nat \<Rightarrow> 'w \<Rightarrow> 'w" where
  "sleep N ms w = snd (or_sleep (rn_raft N) ms w)"

definition join_via_leader ::
  "'w RaftNode \<Rightarrow> 'w http \<Rightarrow> PeerInfo \<Rightarrow> nat \<Rightarrow> string \<Rightarrow> 'w \<Rightarrow> (ScalingError + bool) \<times> 'w" where
  "join_via_leader N send self_peer catchup leader_url w =
     (case ask_membership send ''POST'' (leader_url @ ''/cluster/members'') (NodeJson (peer_str self_peer))
             (\<lambda>e. JoinFailed (''Invalid response from leader: '' @ e)) w of
        (Inl e, w1) \<Rightarrow> (Inl e, w1)
      | (Inr resp, w1) \<Rightarrow>
        if \<not> mr_success resp then
          (let msg = to_lowercase (mr_message resp) in
           if contains msg ''already'' \<or> contains msg ''exists'' then (Inr False, w1)
           else (Inl (JoinFailed (mr_message resp)), w1))
        else
          (case ask_membership send ''POST'' (leader_url @ ''/cluster/members/promote'') (IdsJson [pi_node_id self_peer])
                  (\<lambda>e. JoinFailed (''Invalid promote response: '' @ e)) (sleep N catchup w1) of
             (Inl e, w2) \<Rightarrow> (Inl e, w2)
           | (Inr _, w2) \<Rightarrow> (Inr True, w2)))"

text \<open>The first seed node with a given identifier.\<close>

fun find_peer :: "string list \<Rightarrow> u64 \<Rightarrow> PeerInfo option" where
  "find_peer [] i = None"
| "find_peer (p # ps) i =
     (case parse_peer p of
        Inr info \<Rightarrow> if pi_node_id info = i then Some info else find_peer ps i
      | Inl _ \<Rightarrow> find_peer ps i)"

fun try_peers ::
  "'w RaftNode \<Rightarrow> 'w http \<Rightarrow> string list \<Rightarrow> PeerInfo \<Rightarrow> nat \<Rightarrow> string list \<Rightarrow> string list \<Rightarrow> 'w \<Rightarrow> (ScalingError + bool) \<times> 'w" where
  "try_peers N send peers self_peer catchup [] connection_errors w =
     (Inl (if connection_errors = [] then NoLeader else ConnectionFailed (join '', '' connection_errors)), w)"
| "try_peers N send peers self_peer catchup (peer # rest) connection_errors w =
     (case parse_peer peer of
        Inl _ \<Rightarrow> try_peers N send peers self_peer catchup rest connection_errors w
      | Inr info \<Rightarrow>
        (case get_cluster_status send (http_addr info) w of
           (Inl e, w') \<Rightarrow>
             try_peers N send peers self_peer catchup rest
               (connection_errors @ [pi_host info @ '': '' @ ScalingError_to_string e]) w'
         | (Inr status, w') \<Rightarrow>
           if sr_current_leader status = Some (pi_node_id info) then
             join_via_leader N send self_peer catchup (http_addr info) w'
           else
             (case Option.bind (sr_current_leader status) (find_peer peers) of
                Some other \<Rightarrow> join_via_leader N send self_peer catchup (http_addr other) w'
              | None \<Rightarrow> try_peers N send peers self_peer catchup rest connection_errors w')))"

definition try_join_cluster ::
  "'w RaftNode \<Rightarrow> 'w http \<Rightarrow> string list \<Rightarrow> PeerInfo \<Rightarrow> nat \<Rightarrow> 'w \<Rightarrow> (ScalingError + bool) \<times> 'w" where
  "try_join_cluster N send peers self_peer catchup w = try_peers N send peers self_peer catchup peers [] w"

text \<open>The delay before a repeated attempt, on 64 bits: it wraps around if there are very many.\<close>

definition join_delay :: "nat \<Rightarrow> u64" where
  "join_delay attempt = 500 * 2 ^ (attempt - 1)"

function join_loop ::
  "'w RaftNode \<Rightarrow> 'w http \<Rightarrow> ClusterConfig \<Rightarrow> PeerInfo \<Rightarrow> nat \<Rightarrow> ScalingError option \<Rightarrow> 'w \<Rightarrow> (ScalingError + bool) \<times> 'w" where
  "join_loop N send config self_peer attempt last_error w =
     (if attempt > unat (clc_join_max_retries config) then
        (Inl (case last_error of Some e \<Rightarrow> e | None \<Rightarrow> JoinFailed ''Unknown error''), w)
      else
        (let w1 = (if attempt > 0 then sleep N (unat (join_delay attempt)) w else w) in
         case try_join_cluster N send (clc_seed_nodes config) self_peer (unat (clc_learner_catchup_delay_ms config)) w1 of
           (Inr joined, w2) \<Rightarrow> (Inr joined, w2)
         | (Inl e, w2) \<Rightarrow> join_loop N send config self_peer (Suc attempt) (Some e) w2))"
  by pat_completeness auto
termination
  by (relation "measure (\<lambda>(N, send, config, self_peer, attempt, e, w). Suc (unat (clc_join_max_retries config)) - attempt)") auto

declare join_loop.simps [simp del]

definition auto_join ::
  "'w RaftNode \<Rightarrow> 'w http \<Rightarrow> ClusterConfig \<Rightarrow> PeerInfo \<Rightarrow> 'w \<Rightarrow> (ScalingError + bool) \<times> 'w" where
  "auto_join N send config self_peer w =
     (if clc_seed_nodes config = [] then (Inl NoPeers, w)
      else if is_member N (pi_node_id self_peer) w then (Inr False, w)
      else join_loop N send config self_peer 0 None w)"

section \<open>The worker in the background\<close>

text \<open>
  One turn of its loop, with the flag \<open>CLUSTER_JOINED\<close> in the state. The two booleans say whether the
  signal to stop has come at the start of the turn and during the delay.
\<close>

datatype worker_next = Return | Again

definition worker_delay :: "nat \<Rightarrow> nat" where
  "worker_delay attempt = min (1000 * 2 ^ (min attempt 5 - 1)) 30000"

definition worker_turn ::
  "'w RaftNode \<Rightarrow> 'w http \<Rightarrow> ClusterConfig \<Rightarrow> PeerInfo \<Rightarrow> nat \<Rightarrow> bool \<times> bool \<Rightarrow> bool \<times> 'w \<Rightarrow> worker_next \<times> bool \<times> 'w" where
  "worker_turn N send config self_peer attempt signals s =
     (case s of (joined, w) \<Rightarrow>
        if fst signals then (Return, joined, w)
        else if is_member N (pi_node_id self_peer) w then (Return, True, w)
        else if joined then (Return, joined, w)
        else
          (case auto_join N send config self_peer w of
             (Inr _, w') \<Rightarrow> (Return, True, w')
           | (Inl _, w') \<Rightarrow>
             if snd signals then (Return, joined, w') else (Again, joined, sleep N (worker_delay attempt) w')))"

text \<open>The loop may run forever; it is followed for as many turns as there are signals given.\<close>

fun worker_loop ::
  "'w RaftNode \<Rightarrow> 'w http \<Rightarrow> ClusterConfig \<Rightarrow> PeerInfo \<Rightarrow> nat \<Rightarrow> (bool \<times> bool) list \<Rightarrow> bool \<times> 'w \<Rightarrow> (bool \<times> 'w) option" where
  "worker_loop N send config self_peer attempt [] s = None"
| "worker_loop N send config self_peer attempt (sig # sigs) s =
     (case worker_turn N send config self_peer (Suc attempt) sig s of
        (Return, s') \<Rightarrow> Some s'
      | (Again, s') \<Rightarrow> worker_loop N send config self_peer (Suc attempt) sigs s')"

definition run_auto_join_worker ::
  "'w RaftNode \<Rightarrow> 'w http \<Rightarrow> ClusterConfig \<Rightarrow> PeerInfo \<Rightarrow> (bool \<times> bool) list \<Rightarrow> bool \<times> 'w \<Rightarrow> (bool \<times> 'w) option" where
  "run_auto_join_worker N send config self_peer signals s =
     (if clc_seed_nodes config = [] then Some (True, snd s) else worker_loop N send config self_peer 0 signals s)"

section \<open>Leaving\<close>

definition remove_via_http :: "'w http \<Rightarrow> string \<Rightarrow> u64 \<Rightarrow> 'w \<Rightarrow> (ScalingError + unit) \<times> 'w" where
  "remove_via_http send base_url node_id w =
     (case ask_membership send ''DELETE'' (base_url @ ''/cluster/members/'' @ nat_str (unat node_id)) NoJson
             (\<lambda>e. LeaveFailed (''Invalid response: '' @ e)) w of
        (Inl e, w') \<Rightarrow> (Inl e, w')
      | (Inr m, w') \<Rightarrow> if mr_success m then (Inr (), w') else (Inl (LeaveFailed (mr_message m)), w'))"

text \<open>Asking every seed node with the identifier of the leader this node knows.\<close>

fun remove_at_known :: "'w http \<Rightarrow> u64 \<Rightarrow> u64 \<Rightarrow> string list \<Rightarrow> 'w \<Rightarrow> bool \<times> 'w" where
  "remove_at_known send node_id leader [] w = (False, w)"
| "remove_at_known send node_id leader (p # ps) w =
     (case parse_peer p of
        Inl _ \<Rightarrow> remove_at_known send node_id leader ps w
      | Inr info \<Rightarrow>
        if pi_node_id info \<noteq> leader then remove_at_known send node_id leader ps w
        else
          (case remove_via_http send (http_addr info) node_id w of
             (Inr _, w') \<Rightarrow> (True, w')
           | (Inl _, w') \<Rightarrow> remove_at_known send node_id leader ps w'))"

text \<open>Asking each seed node for the leader; the first boolean is success, the second whether any leader was named.\<close>

fun remove_by_asking :: "'w http \<Rightarrow> u64 \<Rightarrow> string list \<Rightarrow> string list \<Rightarrow> bool \<Rightarrow> 'w \<Rightarrow> bool \<times> bool \<times> 'w" where
  "remove_by_asking send node_id peers [] found w = (False, found, w)"
| "remove_by_asking send node_id peers (p # ps) found w =
     (case parse_peer p of
        Inl _ \<Rightarrow> remove_by_asking send node_id peers ps found w
      | Inr info \<Rightarrow>
        (case get_cluster_status send (http_addr info) w of
           (Inl _, w') \<Rightarrow> remove_by_asking send node_id peers ps found w'
         | (Inr status, w') \<Rightarrow>
           (case sr_current_leader status of
              None \<Rightarrow> remove_by_asking send node_id peers ps found w'
            | Some leader \<Rightarrow>
              (case (if leader = pi_node_id info then Some info else find_peer peers leader) of
                 None \<Rightarrow> remove_by_asking send node_id peers ps True w'
               | Some target \<Rightarrow>
                 (case remove_via_http send (http_addr target) node_id w' of
                    (Inr _, w'') \<Rightarrow> (True, True, w'')
                  | (Inl _, w'') \<Rightarrow> remove_by_asking send node_id peers ps True w'')))))"

text \<open>
  The loop until the deadline. The clock of the state is read at each turn; the fuel bounds the
  number of turns.
\<close>

fun removal_loop ::
  "nat \<Rightarrow> 'w RaftNode \<Rightarrow> 'w http \<Rightarrow> ('w \<Rightarrow> nat) \<Rightarrow> string list \<Rightarrow> u64 \<Rightarrow> nat \<Rightarrow> nat \<Rightarrow> 'w \<Rightarrow> ((ScalingError + unit) \<times> 'w) option" where
  "removal_loop 0 N send clock peers node_id deadline attempt w = None"
| "removal_loop (Suc fuel) N send clock peers node_id deadline attempt w =
     (let remaining = deadline - clock w in
      if remaining = 0 then Some (Inl ScalingTimeout, w)
      else
        (case (case current_leader N w of Some l \<Rightarrow> remove_at_known send node_id l peers w | None \<Rightarrow> (False, w)) of
           (True, w1) \<Rightarrow> Some (Inr (), w1)
         | (False, w1) \<Rightarrow>
           (case remove_by_asking send node_id peers peers False w1 of
              (True, _, w2) \<Rightarrow> Some (Inr (), w2)
            | (False, found, w2) \<Rightarrow>
              removal_loop fuel N send clock peers node_id deadline (Suc attempt)
                (if found then w2
                 else sleep N (min (min (500 * 2 ^ (min (Suc attempt) 5 - 1)) 5000) remaining) w2))))"

definition request_removal_from_leader ::
  "nat \<Rightarrow> 'w RaftNode \<Rightarrow> 'w http \<Rightarrow> ('w \<Rightarrow> nat) \<Rightarrow> string list \<Rightarrow> u64 \<Rightarrow> nat \<Rightarrow> 'w \<Rightarrow> ((ScalingError + unit) \<times> 'w) option" where
  "request_removal_from_leader fuel N send clock peers node_id timeout w =
     removal_loop fuel N send clock peers node_id (clock w + timeout) 0 w"

definition MAX_TRANSFER_WAIT_SECS :: u64 where
  "MAX_TRANSFER_WAIT_SECS = 10"

function transfer_loop :: "'w RaftNode \<Rightarrow> nat \<Rightarrow> 'w \<Rightarrow> bool \<times> 'w" where
  "transfer_loop N elapsed w =
     (if \<not> is_leader N w then (True, w)
      else if elapsed > 1000 * unat MAX_TRANSFER_WAIT_SECS then (False, w)
      else (case or_sleep (rn_raft N) 100 w of (late, w') \<Rightarrow> transfer_loop N (elapsed + 100 + late) w'))"
  by pat_completeness auto
termination by (relation "measure (\<lambda>(N, elapsed, w). 1000 * unat MAX_TRANSFER_WAIT_SECS + 1 - elapsed)") auto

declare transfer_loop.simps [simp del]

definition graceful_leave ::
  "nat \<Rightarrow> 'w RaftNode \<Rightarrow> 'w http \<Rightarrow> ('w \<Rightarrow> nat) \<Rightarrow> ClusterConfig \<Rightarrow> bool \<times> 'w \<Rightarrow> ((ScalingError + bool) \<times> bool \<times> 'w) option" where
  "graceful_leave fuel N send clock config s =
     (let node_id = clc_node_id config; w = snd s in
      if \<not> is_member N node_id w then Some (Inr False, True, w)
      else
        (let deadline = clock w + 1000 * unat (clc_leave_timeout_secs config);
             ask = (\<lambda>w1.
               (let remaining = deadline - clock w1 in
                if remaining = 0 then Some (Inl ScalingTimeout, True, w1)
                else
                  (case request_removal_from_leader fuel N send clock (clc_seed_nodes config) node_id remaining w1 of
                     None \<Rightarrow> None
                   | Some (Inr _, w2) \<Rightarrow> Some (Inr True, True, w2)
                   | Some (Inl e, w2) \<Rightarrow> Some (Inl e, True, w2)))) in
         if \<not> is_leader N w then ask w
         else if length (cs_voters (get_status N w)) \<le> 1 then
           (case node_remove_node N node_id w of (_, w1) \<Rightarrow> Some (Inr True, True, w1))
         else
           (case node_remove_voters N [node_id] w of
              (Inl e, w1) \<Rightarrow> Some (Inl (VoterRemovalFailed (MetadataError_to_string e)), True, w1)
            | (Inr _, w1) \<Rightarrow>
              (case transfer_loop N 0 w1 of
                 (False, w2) \<Rightarrow> Some (Inl (LeadershipTransferTimeout MAX_TRANSFER_WAIT_SECS), True, w2)
               | (True, w2) \<Rightarrow> ask w2))))"

section \<open>Joining makes a member\<close>

text \<open>
  What joining relies on: the requests for membership go to nodes of one cluster, whose members are
  those of the Raft instance \<open>R\<close>. A success is reported by the handler that ran, and nobody removes
  nodes meanwhile.
\<close>

locale cluster_http = raft_members R for R :: "'g openraft" +
  fixes N :: "'w RaftNode" and send :: "'w http" and raft_of :: "'w \<Rightarrow> 'g"
  assumes learner_added: "send ''POST'' (url @ ''/cluster/members'') (NodeJson node) w = (Inr r, w') \<Longrightarrow>
      hr_membership_doc r = Inr m \<Longrightarrow> mr_success m \<Longrightarrow>
      \<exists>L c. rn_raft L = R \<and> add_learner L node (raft_of w) = (c, m, raft_of w')"
    and promoted: "send ''POST'' (url @ ''/cluster/members/promote'') (IdsJson ids) w = (Inr r, w') \<Longrightarrow>
      member_ids R (raft_of w) \<subseteq> member_ids R (raft_of w')"
    and slept: "or_sleep (rn_raft N) t w = (late, w') \<Longrightarrow> member_ids R (raft_of w) \<subseteq> member_ids R (raft_of w')"
begin

lemma join_via_leader_member:
  assumes "join_via_leader N send self_peer catchup url w = (Inr True, w')" and "CHR '':'' \<notin> set (pi_host self_peer)"
  shows "pi_node_id self_peer \<in> member_ids R (raft_of w')"
proof -
  obtain w1 r m r2 where 1: "send ''POST'' (url @ ''/cluster/members'') (NodeJson (peer_str self_peer)) w = (Inr r, w1)"
    and m: "hr_membership_doc r = Inr m" "mr_success m"
    and 2: "send ''POST'' (url @ ''/cluster/members/promote'') (IdsJson [pi_node_id self_peer]) (sleep N catchup w1) = (Inr r2, w')"
    using assms(1) by (auto simp: join_via_leader_def ask_membership_def Let_def split: prod.splits sum.splits if_splits)
  obtain L c where L: "rn_raft L = R" "add_learner L (peer_str self_peer) (raft_of w) = (c, m, raft_of w1)"
    using learner_added [OF 1 m] by blast
  have "pi_node_id self_peer \<in> member_ids R (raft_of w1)"
    using add_learner_success [OF L(2,1) m(2)] parse_peer_str [OF assms(2)] by auto
  moreover have "member_ids R (raft_of w1) \<subseteq> member_ids R (raft_of (sleep N catchup w1))"
    using slept [of catchup w1] by (cases "or_sleep (rn_raft N) catchup w1") (auto simp: sleep_def)
  ultimately show ?thesis using promoted [OF 2] by blast
qed

lemma try_peers_member:
  assumes "try_peers N send peers self_peer catchup ps errs w = (Inr True, w')" and "CHR '':'' \<notin> set (pi_host self_peer)"
  shows "pi_node_id self_peer \<in> member_ids R (raft_of w')"
  using assms(1)
proof (induction ps arbitrary: errs w)
  case (Cons p ps)
  then show ?case
    using join_via_leader_member [OF _ assms(2)] by (auto split: sum.splits prod.splits if_splits option.splits)
qed simp

lemma join_loop_member:
  assumes "join_loop N send config self_peer attempt e w = (Inr True, w')" and "CHR '':'' \<notin> set (pi_host self_peer)"
  shows "pi_node_id self_peer \<in> member_ids R (raft_of w')"
  using assms(1)
proof (induction "Suc (unat (clc_join_max_retries config)) - attempt" arbitrary: attempt e w)
  case 0
  then show ?case by (simp add: join_loop.simps)
next
  case (Suc n)
  then show ?case
    using try_peers_member [OF _ assms(2)] Suc.hyps(1) [of "Suc attempt"]
    by (subst (asm) (2) join_loop.simps) (auto simp: try_join_cluster_def Let_def split: if_splits prod.splits sum.splits)
qed

end

section \<open>Leaving ends\<close>

definition time_passes :: "'w RaftNode \<Rightarrow> 'w http \<Rightarrow> ('w \<Rightarrow> nat) \<Rightarrow> bool" where
  "time_passes N send clock \<longleftrightarrow>
     (\<forall>m u b w r w'. send m u b w = (r, w') \<longrightarrow> clock w < clock w')
     \<and> (\<forall>t w late w'. or_sleep (rn_raft N) t w = (late, w') \<longrightarrow> clock w + t \<le> clock w')
     \<and> (\<forall>c b w r w'. or_change_membership (rn_raft N) c b w = (r, w') \<longrightarrow> clock w \<le> clock w')"

lemma passes:
  assumes "time_passes N send clock"
  shows "send m u b w = (r, w') \<Longrightarrow> clock w < clock w'"
    and "get_cluster_status send url w = (x, w') \<Longrightarrow> clock w < clock w'"
    and "remove_via_http send url i w = (y, w') \<Longrightarrow> clock w < clock w'"
    and "clock w + k \<le> clock (sleep N k w)"
proof -
  have s: "send m u b w = (r, w') \<Longrightarrow> clock w < clock w'" for m u b w r w' using assms by (simp add: time_passes_def)
  show "send m u b w = (r, w') \<Longrightarrow> clock w < clock w'" by (rule s)
  show "get_cluster_status send url w = (x, w') \<Longrightarrow> clock w < clock w'"
    by (auto simp: get_cluster_status_def dest: s split: prod.splits sum.splits if_splits)
  show "remove_via_http send url i w = (y, w') \<Longrightarrow> clock w < clock w'"
    by (auto simp: remove_via_http_def ask_membership_def dest: s split: prod.splits sum.splits if_splits)
  show "clock w + k \<le> clock (sleep N k w)"
    using assms by (cases "or_sleep (rn_raft N) k w") (auto simp: time_passes_def sleep_def)
qed

lemma remove_at_known_passes:
  assumes "time_passes N send clock" and "remove_at_known send i l ps w = (b, w')"
  shows "clock w \<le> clock w'"
  using assms(2)
proof (induction ps arbitrary: w)
  case (Cons p ps)
  then show ?case
    using passes(3) [OF assms(1)] by (fastforce split: sum.splits if_splits prod.splits dest: Cons.IH)
qed simp

lemma remove_by_asking_passes:
  assumes "time_passes N send clock" and "remove_by_asking send i peers ps found w = (b, found', w')"
  shows "clock w \<le> clock w' \<and> (found' \<and> \<not> found \<longrightarrow> clock w < clock w')"
  using assms(2)
proof (induction ps arbitrary: w found)
  case (Cons p ps)
  note ih = Cons.IH
  show ?case
  proof (cases "parse_peer p")
    case (Inl e)
    with Cons.prems ih [of found w] show ?thesis by simp
  next
    case (Inr info)
    obtain x w1 where g: "get_cluster_status send (http_addr info) w = (x, w1)" by fastforce
    have lt: "clock w < clock w1" by (rule passes(2) [OF assms(1) g])
    have rest: ?thesis if "remove_by_asking send i peers ps f w2 = (b, found', w')" "clock w1 \<le> clock w2" for f w2
      using ih [OF that(1)] that(2) lt by auto
    show ?thesis
    proof (cases "\<exists>status l target. x = Inr status \<and> sr_current_leader status = Some l
        \<and> (if l = pi_node_id info then Some info else find_peer peers l) = Some target")
      case True
      then obtain status l target where st: "x = Inr status" "sr_current_leader status = Some l"
        "(if l = pi_node_id info then Some info else find_peer peers l) = Some target" by blast
      obtain y w2 where rm: "remove_via_http send (http_addr target) i w1 = (y, w2)" by fastforce
      have "clock w1 < clock w2" by (rule passes(3) [OF assms(1) rm])
      with Cons.prems Inr g st rm lt rest [of True w2] show ?thesis by (cases y) auto
    next
      case False
      with Cons.prems Inr g rest [of _ w1] show ?thesis by (auto split: sum.splits option.splits)
    qed
  qed
qed simp

lemma removal_loop_ends:
  assumes "time_passes N send clock" and "deadline \<le> clock w + fuel"
  shows "\<exists>r. removal_loop (Suc fuel) N send clock peers i deadline attempt w = Some r"
  using assms(2)
proof (induction fuel arbitrary: w attempt)
  case 0
  then show ?case by (simp add: Let_def)
next
  case (Suc fuel)
  let ?first = "case current_leader N w of Some l \<Rightarrow> remove_at_known send i l peers w | None \<Rightarrow> (False, w)"
  obtain b w1 where f: "?first = (b, w1)" by fastforce
  have c1: "clock w \<le> clock w1" using f remove_at_known_passes [OF assms(1)] by (auto split: option.splits)
  obtain b2 found w2 where a: "remove_by_asking send i peers peers False w1 = (b2, found, w2)" by (metis surj_pair)
  note c2 = remove_by_asking_passes [OF assms(1) a]
  show ?case
  proof (cases "deadline - clock w = 0")
    case False
    define d where "d = min (min (500 * 2 ^ (min (Suc attempt) 5 - 1)) 5000) (deadline - clock w)"
    define w3 where "w3 = (if found then w2 else sleep N d w2)"
    have "0 < d" using False by (simp add: d_def)
    with c1 c2 passes(4) [OF assms(1), of w2 d] have "clock w < clock w3" by (cases found) (auto simp: w3_def)
    then obtain r where r: "removal_loop (Suc fuel) N send clock peers i deadline (Suc attempt) w3 = Some r"
      using Suc.IH [of w3 "Suc attempt"] Suc.prems by (auto simp del: removal_loop.simps)
    have "removal_loop (Suc (Suc fuel)) N send clock peers i deadline attempt w =
        (if b then Some (Inr (), w1) else if b2 then Some (Inr (), w2)
         else removal_loop (Suc fuel) N send clock peers i deadline (Suc attempt) w3)"
      using False f a unfolding w3_def d_def
      by (subst removal_loop.simps) (cases b; cases b2; simp add: Let_def del: removal_loop.simps)
    with r show ?thesis by (auto simp del: removal_loop.simps)
  qed (simp add: Let_def)
qed

lemma transfer_loop_passes:
  assumes "time_passes N send clock" and "transfer_loop N e w = (b, w')"
  shows "clock w \<le> clock w'"
  using assms
proof (induction N e w arbitrary: w' rule: transfer_loop.induct)
  case (1 N e w)
  obtain late w1 where sl: "or_sleep (rn_raft N) 100 w = (late, w1)" by fastforce
  then have c: "clock w \<le> clock w1" using 1(2) by (fastforce simp: time_passes_def)
  show ?case
  proof (cases "is_leader N w \<and> \<not> e > 1000 * unat MAX_TRANSFER_WAIT_SECS")
    case True
    then have h: "\<not> \<not> is_leader N w" "\<not> e > 1000 * unat MAX_TRANSFER_WAIT_SECS" by auto
    with 1(3) sl have "transfer_loop N (e + 100 + late) w1 = (b, w')" by (subst (asm) transfer_loop.simps) simp
    from 1(1) [OF h sl [symmetric] 1(2) this] c show ?thesis by simp
  next
    case False
    with 1(3) show ?thesis by (subst (asm) transfer_loop.simps) (auto split: if_splits)
  qed
qed

lemma leave_ends:
  assumes "time_passes N send clock"
  shows "\<exists>r. graceful_leave (Suc (1000 * unat (clc_leave_timeout_secs config))) N send clock config s = Some r"
proof -
  let ?T = "1000 * unat (clc_leave_timeout_secs config)" and ?w = "snd s"
  let ?ask = "\<lambda>w1. let remaining = clock ?w + ?T - clock w1 in
     if remaining = 0 then Some (Inl ScalingTimeout, True, w1)
     else (case request_removal_from_leader (Suc ?T) N send clock (clc_seed_nodes config) (clc_node_id config) remaining w1 of
             None \<Rightarrow> None | Some (Inr _, w2) \<Rightarrow> Some (Inr True, True, w2) | Some (Inl e, w2) \<Rightarrow> Some (Inl e, True, w2))"
  have ask: "\<exists>r. ?ask w1 = Some r" if "clock ?w \<le> clock w1" for w1
  proof -
    have "clock w1 + (clock ?w + ?T - clock w1) \<le> clock w1 + ?T" using that by simp
    from removal_loop_ends [OF assms this] obtain r where "request_removal_from_leader (Suc ?T) N send clock (clc_seed_nodes config)
        (clc_node_id config) (clock ?w + ?T - clock w1) w1 = Some r"
      unfolding request_removal_from_leader_def by blast
    then show ?thesis by (cases r; cases "fst r") (auto simp: Let_def)
  qed
  have rv: "clock w \<le> clock w1" if "node_remove_voters N ids w = (x, w1)" for ids x w w1
    using that assms by (fastforce simp: node_remove_voters_def raft_error_def time_passes_def split: prod.splits sum.splits)
  show ?thesis
  proof (cases "is_member N (clc_node_id config) ?w \<and> is_leader N ?w \<and> \<not> length (cs_voters (get_status N ?w)) \<le> 1")
    case True
    obtain x w1 where r: "node_remove_voters N [clc_node_id config] ?w = (x, w1)" by fastforce
    obtain b w2 where l: "transfer_loop N 0 w1 = (b, w2)" by fastforce
    have "clock ?w \<le> clock w2" using rv [OF r] transfer_loop_passes [OF assms l] by simp
    from ask [OF this] True r l show ?thesis by (cases x; cases b) (auto simp: graceful_leave_def Let_def)
  next
    case False
    with ask [of ?w] show ?thesis by (auto simp: graceful_leave_def Let_def split: prod.splits)
  qed
qed

section \<open>Properties\<close>

text \<open>
  C39: A node that has joined is a member. If joining on startup reports that the node joined, then the
  node is a member of the cluster that was asked, as a learner at least: the name under which it
  presents itself is read back by the leader as the peer it is (for hosts without a colon), and the
  handler of the leader adds it.
\<close>

theorem joined_node_is_member:
  assumes "cluster_http R N send raft_of" and "CHR '':'' \<notin> set (pi_host self_peer)"
    and "auto_join N send config self_peer w = (Inr True, w')"
  shows "pi_node_id self_peer \<in> member_ids R (raft_of w')"
proof -
  have "join_loop N send config self_peer 0 None w = (Inr True, w')"
    using assms(3) by (simp add: auto_join_def split: if_splits)
  from cluster_http.join_loop_member [OF assms(1) this assms(2)] show ?thesis .
qed

text \<open>
  The cluster behind the HTTP interface: requests are served by the handlers of a node. Here one
  node answers, under every address.
\<close>

definition serve :: "'g RaftNode \<Rightarrow> 'g http" where
  "serve L method url body g =
     (let reply = (\<lambda>c s m. \<lparr>hr_status = c, hr_status_text = [], hr_status_doc = s, hr_membership_doc = m\<rparr>) in
      case body of
        NoJson \<Rightarrow>
          (case cluster_status L g of (c, st) \<Rightarrow>
             (Inr (reply c (Inr \<lparr>sr_node_id = cs_node_id st, sr_current_leader = cs_current_leader st, sr_voters = cs_voters st,
                sr_learners = cs_learners st\<rparr>) (Inl ''missing field'')), g))
      | NodeJson node \<Rightarrow> (case add_learner L node g of (c, m, g') \<Rightarrow> (Inr (reply c (Inl ''missing field'') (Inr m)), g'))
      | IdsJson ids \<Rightarrow> (case promote_voters L ids g of (c, m, g') \<Rightarrow> (Inr (reply c (Inl ''missing field'') (Inr m)), g')))"

text \<open>A node that is not yet part of the cluster.\<close>

definition joining_node :: "table_raft RaftNode" where
  "joining_node =
     \<lparr>rn_raft = table_openraft\<lparr>or_metrics := (\<lambda>_. \<lparr>rm_state = ServerLearner, rm_current_term = 0, rm_current_leader = None,
        rm_last_applied = None, rm_last_log_index = None, rm_voter_ids = [], rm_learner_ids = [], rm_nodes = Map.empty\<rparr>)\<rparr>,
      rn_node_id = 4\<rparr>"

lemma tr_promote_members:
  "or_change_membership table_openraft (AddVoterIds ids) b g = (r, g') \<Longrightarrow> member_ids table_openraft g' = member_ids table_openraft g"
proof -
  assume "or_change_membership table_openraft (AddVoterIds ids) b g = (r, g')"
  then have "tr_nodes g' = tr_nodes g" by (auto simp: table_openraft_def only_leader_def split: if_splits)
  then show ?thesis by (simp add: table_members)
qed

interpretation served: cluster_http table_openraft joining_node "serve example_leader" "\<lambda>g. g"
proof
  fix url node w r w' m
  assume "serve example_leader ''POST'' (url @ ''/cluster/members'') (NodeJson node) w = (Inr r, w')"
    and "hr_membership_doc r = Inr m"
  then have "\<exists>c. add_learner example_leader node w = (c, m, w')"
    by (auto simp: serve_def Let_def split: prod.splits)
  then show "\<exists>L c. rn_raft L = table_openraft \<and> add_learner L node w = (c, m, w')" using example_views(1) by blast
next
  fix url ids w r w'
  assume "serve example_leader ''POST'' (url @ ''/cluster/members/promote'') (IdsJson ids) w = (Inr r, w')"
  then obtain c m where "promote_voters example_leader ids w = (c, m, w')" by (auto simp: serve_def Let_def split: prod.splits)
  then have "w' = w \<or> (\<exists>x. or_change_membership table_openraft (AddVoterIds (set ids)) False w = (x, w'))"
    by (auto simp: promote_voters_def node_promote_voters_def raft_error_def example_views split: if_splits prod.splits sum.splits)
  with tr_promote_members show "member_ids table_openraft w \<subseteq> member_ids table_openraft w'" by blast
next
  fix t w late w'
  assume "or_sleep (rn_raft joining_node) t w = (late, w')"
  then have "w' = w" by (simp add: joining_node_def table_openraft_def)
  then show "member_ids table_openraft w \<subseteq> member_ids table_openraft w'" by simp
qed

definition example_seed :: PeerInfo where
  "example_seed = \<lparr>pi_node_id = 1, pi_host = ''a'', raft_port = 1, http_port = 2, replication_port = 3\<rparr>"

definition example_join :: ClusterConfig where
  "example_join = ClusterConfig_default\<lparr>clc_node_id := 4, clc_seed_nodes := [peer_str example_seed]\<rparr>"

lemma example_status:
  "get_cluster_status (serve example_leader) url example_cluster =
     (Inr \<lparr>sr_node_id = 1, sr_current_leader = Some 1, sr_voters = [1, 2], sr_learners = [3]\<rparr>, example_cluster)"
  by (simp add: get_cluster_status_def serve_def cluster_status_def is_success_def Let_def get_status_def example_leader_def
      table_openraft_def tr_metrics_def tr_voter_ids_def example_cluster_def)

theorem joined_node_is_member_witness:
  "\<exists>g'. auto_join joining_node (serve example_leader) example_join example_peer example_cluster = (Inr True, g')
    \<and> 4 \<in> member_ids table_openraft g'"
proof -
  obtain c m g1 where add: "add_learner example_leader (peer_str example_peer) example_cluster = (c, m, g1)" "mr_success m"
    by (rule example_add)
  obtain c2 m2 g2 where pr: "promote_voters example_leader [4] g1 = (c2, m2, g2)" by (metis surj_pair)
  have i: "pi_node_id example_peer = 4" "pi_node_id example_seed = 1" by (simp_all add: example_peer_def example_seed_def)
  have sl: "sleep joining_node k g = g" for k g by (simp add: sleep_def joining_node_def table_openraft_def)
  have "join_via_leader joining_node (serve example_leader) example_peer k url example_cluster = (Inr True, g2)" for k url
    by (simp add: join_via_leader_def ask_membership_def serve_def Let_def add pr sl i)
  moreover have "parse_peer (peer_str example_seed) = Inr example_seed" by (rule parse_peer_str) (simp add: example_seed_def)
  ultimately have "try_join_cluster joining_node (serve example_leader) [peer_str example_seed] example_peer k example_cluster = (Inr True, g2)" for k
    by (simp add: try_join_cluster_def example_status i)
  moreover have "\<not> is_member joining_node 4 example_cluster"
    by (simp add: is_member_def get_status_def joining_node_def Let_def)
  ultimately have j: "auto_join joining_node (serve example_leader) example_join example_peer example_cluster = (Inr True, g2)"
    by (simp add: auto_join_def join_loop.simps example_join_def i)
  have h: "CHR '':'' \<notin> set (pi_host example_peer)" by (simp add: example_peer_def)
  from joined_node_is_member [OF served.cluster_http_axioms h j] j i show ?thesis by auto
qed

text \<open>A member of a cluster in which nobody answers, with a clock.\<close>

definition lonely_node :: "nat RaftNode" where
  "lonely_node =
     \<lparr>rn_raft = \<lparr>or_metrics = (\<lambda>_. \<lparr>rm_state = ServerFollower, rm_current_term = 2, rm_current_leader = Some 1,
        rm_last_applied = None, rm_last_log_index = None, rm_voter_ids = [1, 4], rm_learner_ids = [], rm_nodes = Map.empty\<rparr>),
        or_initialize = (\<lambda>_ t. (Inl ''unreachable'', t)), or_add_learner = (\<lambda>_ _ _ t. (Inl ''unreachable'', t)),
        or_change_membership = (\<lambda>_ _ t. (Inl ''unreachable'', t)), or_elect = (\<lambda>t. (Inl ''unreachable'', t)),
        or_sleep = (\<lambda>d t. (1, t + d + 1))\<rparr>,
      rn_node_id = 4\<rparr>"

definition nobody :: "nat http" where
  "nobody m url body t = (Inl ''connection refused'', t + 1)"

text \<open>
  A cluster that refuses because it is already changing its membership is taken for one that has the
  node already: joining is not tried again, and the node counts as joined. The message below is the
  one of openraft with the words the handler puts before it.
\<close>

theorem busy_cluster_counts_as_joined:
  assumes "send ''POST'' (url @ ''/cluster/members'') (NodeJson (peer_str self_peer)) w = (Inr r, w1)"
    and "hr_membership_doc r = Inr (failed (''Failed to add learner: Raft error: the cluster is already undergoing a configuration change'' @ rest))"
  shows "join_via_leader N send self_peer catchup url w = (Inr False, w1)"
proof -
  have "contains (to_lowercase (''Failed to add learner: Raft error: the cluster is already undergoing a configuration change'' @ rest)) ''already''"
    unfolding to_lowercase_def map_append contains_iff
    by (intro exI [of _ "map ascii_lower ''Failed to add learner: Raft error: the cluster is ''"]
        exI [of _ "map ascii_lower '' undergoing a configuration change'' @ map ascii_lower rest"])
      (simp add: ascii_lower_def)
  with assms show ?thesis by (simp add: join_via_leader_def ask_membership_def failed_def Let_def)
qed

end
