(* ===== verification/Api_Answers.thy ===== *)
theory Api_Answers
  imports Api_Requests
begin

text \<open>
  The form of the answers of the S3 interface. The handlers are built from a few combinators, and a
  predicate on answers is checked along this structure, one rule per combinator, like a type: a
  success is a 200, or a 204 without a body; an error has one of the status codes of
  \<open>crates/save-api/src/handlers/error.rs\<close> and an XML document.
\<close>

section \<open>Rules for the combinators\<close>

text \<open>Every result a handler returns with success satisfies the predicate.\<close>

definition answersE :: "('a \<Rightarrow> bool) \<Rightarrow> ('s \<Rightarrow> ('e + 'a) \<times> 's) \<Rightarrow> bool" where
  "answersE T m \<longleftrightarrow> (\<forall>s x s'. m s = (Inr x, s') \<longrightarrow> T x)"

named_theorems answer_rules \<open>rules for the answers of handlers\<close>

lemma answersE_returnE [answer_rules]: "T x \<Longrightarrow> answersE T (returnE x)"
  by (simp add: answersE_def)

lemma answersE_failE [answer_rules]: "answersE T (failE e)"
  by (simp add: answersE_def failE_def)

lemma answersE_bindE [answer_rules]: "(\<And>x. answersE T (f x)) \<Longrightarrow> answersE T (bindE m f)"
  unfolding answersE_def bindE_Inr_iff by blast

lemma answersE_let [answer_rules]: "(\<And>x. answersE T (f x)) \<Longrightarrow> answersE T (let y = c in f y)"
  by (simp add: Let_def)

lemma answersE_if [answer_rules]: "(b \<Longrightarrow> answersE T m) \<Longrightarrow> (\<not> b \<Longrightarrow> answersE T n) \<Longrightarrow> answersE T (if b then m else n)"
  by simp

text \<open>Steps on the state before a return or around a handler do not touch its result.\<close>

lemma answersE_before: "answersE T m \<Longrightarrow> answersE T (\<lambda>st. m (g st))"
  unfolding answersE_def by blast

lemma answersE_return_before [answer_rules]: "T x \<Longrightarrow> answersE T (\<lambda>st. returnE x (g st))"
  by (rule answersE_before) (rule answersE_returnE)

lemma answersE_fail_or [answer_rules]: "answersE T m \<Longrightarrow> answersE T (\<lambda>st. if b st then failE e st else m st)"
  unfolding answersE_def by (simp add: failE_def)

lemma answersE_with_guard [answer_rules]:
  assumes "answersE T m"
  shows "answersE T (with_guard sv rq lt b k m)"
  unfolding with_guard_def
proof (rule answersE_bindE)
  show "answersE T (\<lambda>st. case m st of (x, st') \<Rightarrow> (x, drop_guard sv b k holder st'))" for holder
    using assms unfolding answersE_def by (auto split: prod.splits)
qed

lemma answersE_with_read_guard [answer_rules]: "answersE T m \<Longrightarrow> answersE T (with_read_guard sv rq b k m)"
  unfolding with_read_guard_def by (simp add: answersE_with_guard)

section \<open>The answers\<close>

text \<open>What a client can tell apart in an answer.\<close>

definition s3_success :: "Response \<Rightarrow> bool" where
  "s3_success r \<longleftrightarrow> rs_status r = 200 \<or> (rs_status r = 204 \<and> rs_body r = NoBody)"

definition s3_failure :: "Response \<Rightarrow> bool" where
  "s3_failure r \<longleftrightarrow> rs_status r \<in> {400, 403, 404, 409, 500, 503} \<and> (\<exists>x. rs_body r = Xml x)
     \<and> map_of (rs_headers r) ''content-type'' = Some ''application/xml''"

lemma respond_xml_answers [answer_rules]: "answersE s3_success (respond_xml sv doc)"
  unfolding respond_xml_def by (intro answer_rules) (simp add: s3_success_def)

lemma respond_xml_before [answer_rules]: "answersE s3_success (\<lambda>st. respond_xml sv doc (g st))"
  by (rule answersE_before) (rule respond_xml_answers)

lemmas object_handler_defs = api_put_object_def put_under_lock_def api_get_object_def get_under_lock_def api_head_object_def
  head_under_lock_def api_delete_object_def delete_under_lock_def api_list_objects_def

lemmas bucket_handler_defs = api_create_bucket_def api_delete_bucket_def api_head_bucket_def api_list_buckets_def

lemmas upload_handler_defs = api_initiate_multipart_def api_upload_part_def api_complete_multipart_def complete_under_lock_def
  complete_parts_def api_abort_multipart_def api_list_multipart_uploads_def

lemma object_answers: "answersE s3_success (handle_object sv rq r)"
  by (cases r; simp only: handle_object.simps object_handler_defs split_def)
    (intro answer_rules; simp add: s3_success_def)+

lemma bucket_answers: "answersE s3_success (handle_bucket sv rq r)"
  by (cases r; simp only: handle_bucket.simps bucket_handler_defs)
    (intro answer_rules; simp add: s3_success_def)+

lemma request_answers: "answersE s3_success (handle_request sv rq r)"
proof (cases r)
  case (ObjectRequest x)
  then show ?thesis by (simp only: handle_request.simps object_answers)
next
  case (BucketRequest x)
  then show ?thesis by (simp only: handle_request.simps bucket_answers)
qed (simp only: handle_request.simps upload_handler_defs, intro answer_rules; simp add: s3_success_def)+

lemma error_answers: "s3_failure (ApiError_into_response se_xml i e)"
  by (cases e) (simp_all add: s3_failure_def ApiError_into_response_def Let_def)

end
