(* ===== verification/Api_Auth.thy ===== *)
theory Api_Auth
  imports Api_State "HOL-Library.Product_Lexorder"
begin

text \<open>
  Authentication of requests, \<open>crates/save-api/src/auth.rs\<close>: the authorization header is parsed, the
  request is put in a canonical form, and the signature of that form is computed and compared.

  The hash functions and the parser of dates belong to other crates and are parameters
  (\<open>crypto\<close>). A header is a name in lower case with a value, as in \<open>HeaderMap\<close>; the lookup of a
  name ignores case and yields the first value.
\<close>

section \<open>Strings\<close>

text \<open>\<open>str::split\<close> with the separator of two characters that the header uses.\<close>

fun split_comma_space :: "string \<Rightarrow> string list" where
  "split_comma_space [] = [[]]"
| "split_comma_space [c] = [[c]]"
| "split_comma_space (c # d # s) =
     (if c = CHR '','' \<and> d = CHR '' '' then [] # split_comma_space s
      else (case split_comma_space (d # s) of [] \<Rightarrow> [[c]] | p # ps \<Rightarrow> (c # p) # ps))"

definition strip_prefix :: "string \<Rightarrow> string \<Rightarrow> string option" where
  "strip_prefix p s = (if prefix p s then Some (drop (length p) s) else None)"

text \<open>Non-overlapping replacement of two spaces by one.\<close>

fun replace_double_space :: "string \<Rightarrow> string" where
  "replace_double_space (c # d # s) =
     (if c = CHR '' '' \<and> d = CHR '' '' then CHR '' '' # replace_double_space s else c # replace_double_space (d # s))"
| "replace_double_space s = s"

definition is_space :: "char \<Rightarrow> bool" where
  "is_space c \<longleftrightarrow> c = CHR '' '' \<or> c = CHR 0x09"

definition trim :: "string \<Rightarrow> string" where
  "trim s = rev (dropWhile is_space (rev (dropWhile is_space s)))"

section \<open>Requests\<close>

record request =
  rq_method :: string
  rq_path :: string
  rq_query :: "string option"
  rq_headers :: "(string \<times> string) list"

text \<open>\<open>HeaderValue::to_str\<close>: only visible ASCII characters.\<close>

definition visible :: "char \<Rightarrow> bool" where
  "visible c \<longleftrightarrow> c = CHR 0x09 \<or> (32 \<le> (of_char c :: nat) \<and> (of_char c :: nat) < 127)"

definition to_str :: "string \<Rightarrow> string option" where
  "to_str v = (if list_all visible v then Some v else None)"

definition header :: "(string \<times> string) list \<Rightarrow> string \<Rightarrow> string option" where
  "header hs name = (case map_of hs (to_lowercase name) of None \<Rightarrow> None | Some v \<Rightarrow> to_str v)"

record crypto =
  cr_sha256_hex :: "string \<Rightarrow> string"
  cr_hmac :: "data \<Rightarrow> data \<Rightarrow> data"
  cr_hex :: "data \<Rightarrow> string"
  cr_parse_date :: "string \<Rightarrow> instant option"

section \<open>The steps\<close>

record AuthInfo =
  ai_access_key :: string
  ai_scope :: string
  ai_region :: string
  ai_service :: string
  ai_signed_headers :: "string list"
  ai_signature :: string

definition parse_authorization_header :: "string \<Rightarrow> ApiError + AuthInfo" where
  "parse_authorization_header auth_header =
     (let parts = split_comma_space auth_header in
      if length parts < 3 then Inl (InvalidSignatureException ''Malformed authorization header'')
      else
        (case strip_prefix ''AWS4-HMAC-SHA256 Credential='' (parts ! 0) of
           None \<Rightarrow> Inl (InvalidSignatureException ''Missing Credential in authorization'')
         | Some credential_part \<Rightarrow>
           (let components = split_on CHR ''/'' credential_part in
            if length components \<noteq> 5 then Inl (InvalidSignatureException ''Invalid credential format'')
            else
              (case strip_prefix ''SignedHeaders='' (parts ! 1) of
                 None \<Rightarrow> Inl (InvalidSignatureException ''Missing SignedHeaders in authorization'')
               | Some names \<Rightarrow>
                 (case strip_prefix ''Signature='' (parts ! 2) of
                    None \<Rightarrow> Inl (InvalidSignatureException ''Missing Signature in authorization'')
                  | Some signature \<Rightarrow>
                    Inr \<lparr>ai_access_key = components ! 0,
                         ai_scope = components ! 1 @ ''/'' @ components ! 2 @ ''/'' @ components ! 3 @ ''/aws4_request'',
                         ai_region = components ! 2, ai_service = components ! 3,
                         ai_signed_headers = split_on CHR '';'' names, ai_signature = signature\<rparr>)))))"

text \<open>One parameter of the query, split at its first equals sign.\<close>

definition query_param :: "string \<Rightarrow> string \<times> string" where
  "query_param p =
     (let k = takeWhile (\<lambda>c. c \<noteq> CHR ''='') p in (k, drop (length k + 1) p))"

text \<open>The parameters are sorted by key and then by value, the order on pairs.\<close>

definition canonicalize_query_string :: "string \<Rightarrow> string" where
  "canonicalize_query_string query =
     (if query = [] then []
      else join ''&'' (map (\<lambda>(k, v). if v = [] then k @ ''='' else k @ ''='' @ v)
             (sort (map query_param (split_on CHR ''&'' query)))))"

text \<open>The signed headers that the request has, normalised, by name; a \<open>BTreeMap\<close> is its sorted list of entries.\<close>

definition signed_header_map :: "(string \<times> string) list \<Rightarrow> string list \<Rightarrow> string \<rightharpoonup> string" where
  "signed_header_map hs names =
     foldl (\<lambda>m name. case header hs name of
         None \<Rightarrow> m | Some v \<Rightarrow> m(to_lowercase name \<mapsto> replace_double_space (trim v))) Map.empty names"

definition canonical_header_lines :: "(string \<times> string) list \<Rightarrow> string list \<Rightarrow> string list" where
  "canonical_header_lines hs names =
     (let m = signed_header_map hs names in
      map (\<lambda>k. k @ '':'' @ the (m k))
        (sorted_list_of_set (set (filter (\<lambda>k. m k \<noteq> None) (map to_lowercase names)))))"

definition build_canonical_request ::
  "string \<Rightarrow> string \<Rightarrow> string \<Rightarrow> (string \<times> string) list \<Rightarrow> string list \<Rightarrow> string \<Rightarrow> string" where
  "build_canonical_request method p query hs names payload_hash =
     method @ [CHR 0x0A] @ (if p = [] then ''/'' else p) @ [CHR 0x0A] @ canonicalize_query_string query @ [CHR 0x0A]
       @ join [CHR 0x0A] (canonical_header_lines hs names) @ [CHR 0x0A, CHR 0x0A]
       @ join '';'' names @ [CHR 0x0A] @ payload_hash"

definition build_string_to_sign :: "crypto \<Rightarrow> string \<Rightarrow> string \<Rightarrow> string \<Rightarrow> string" where
  "build_string_to_sign cr amz_date scope canonical_request =
     ''AWS4-HMAC-SHA256'' @ [CHR 0x0A] @ amz_date @ [CHR 0x0A] @ scope @ [CHR 0x0A] @ cr_sha256_hex cr canonical_request"

text \<open>The slice of the date panics if the date is too short.\<close>

definition calculate_signature :: "crypto \<Rightarrow> string \<Rightarrow> string \<Rightarrow> string \<Rightarrow> string \<Rightarrow> string \<Rightarrow> string option" where
  "calculate_signature cr secret amz_date region service string_to_sign =
     (if length amz_date < 8 then None
      else
        (let k_date = cr_hmac cr (as_bytes (''AWS4'' @ secret)) (as_bytes (take 8 amz_date));
             k_region = cr_hmac cr k_date (as_bytes region);
             k_service = cr_hmac cr k_region (as_bytes service);
             k_signing = cr_hmac cr k_service (as_bytes ''aws4_request'') in
         Some (cr_hex cr (cr_hmac cr k_signing (as_bytes string_to_sign)))))"

definition MAX_TIME_SKEW_SECS :: int where
  "MAX_TIME_SKEW_SECS = 15 * 60"

text \<open>
  The clock is read in nanoseconds and dates are whole seconds; the whole seconds of a difference
  are rounded towards zero.
\<close>

definition num_seconds :: "int \<Rightarrow> int" where
  "num_seconds d = (if d < 0 then - (- d div 1000000000) else d div 1000000000)"

definition validate_timestamp :: "crypto \<Rightarrow> instant \<Rightarrow> string \<Rightarrow> ApiError + unit" where
  "validate_timestamp cr now amz_date =
     (case cr_parse_date cr amz_date of
        None \<Rightarrow> Inl (InvalidSignatureException ''Invalid X-Amz-Date format'')
      | Some t \<Rightarrow> if \<bar>num_seconds (now - t * 1000000000)\<bar> > MAX_TIME_SKEW_SECS then Inl RequestTimeTooSkewed else Inr ())"

definition constant_time_compare :: "string \<Rightarrow> string \<Rightarrow> bool" where
  "constant_time_compare a b \<longleftrightarrow>
     length (as_bytes a) = length (as_bytes b)
     \<and> foldl (\<lambda>acc (x, y). or acc (xor x y)) 0 (zip (as_bytes a) (as_bytes b)) = 0"

datatype auth_outcome = Accepted | Rejected ApiError | Panicked

definition validate_sigv4 :: "crypto \<Rightarrow> CredentialsConfig \<Rightarrow> instant \<Rightarrow> request \<Rightarrow> auth_outcome" where
  "validate_sigv4 cr cred now rq =
     (case header (rq_headers rq) ''authorization'' of
        None \<Rightarrow> Rejected Unauthorized
      | Some auth_header \<Rightarrow>
        if \<not> prefix ''AWS4-HMAC-SHA256'' auth_header then
          Rejected (InvalidSignatureException ''Authorization header format is invalid'')
        else
        (case parse_authorization_header auth_header of
           Inl e \<Rightarrow> Rejected e
         | Inr info \<Rightarrow>
           if ai_access_key info \<noteq> access_key cred then Rejected Unauthorized
           else
           (case header (rq_headers rq) ''x-amz-date'' of
              None \<Rightarrow> Rejected (InvalidSignatureException ''Missing x-amz-date header'')
            | Some amz_date \<Rightarrow>
              (case validate_timestamp cr now amz_date of
                 Inl e \<Rightarrow> Rejected e
               | Inr _ \<Rightarrow>
                 (let content_sha256 = (case header (rq_headers rq) ''x-amz-content-sha256'' of Some h \<Rightarrow> h | None \<Rightarrow> ''UNSIGNED-PAYLOAD'');
                      canonical_request = build_canonical_request (rq_method rq) (rq_path rq)
                        (case rq_query rq of Some q \<Rightarrow> q | None \<Rightarrow> []) (rq_headers rq) (ai_signed_headers info) content_sha256;
                      string_to_sign = build_string_to_sign cr amz_date (ai_scope info) canonical_request in
                  case calculate_signature cr (secret_key cred) amz_date (ai_region info) (ai_service info) string_to_sign of
                    None \<Rightarrow> Panicked
                  | Some calculated \<Rightarrow>
                    if \<not> constant_time_compare (ai_signature info) calculated then Rejected SignatureDoesNotMatch
                    else Accepted)))))"

section \<open>Lemmas\<close>

lemma xor_eq_0: "xor x y = (0 :: 'a :: len word) \<longleftrightarrow> x = y"
  by (metis xor.assoc xor.right_neutral xor_self_eq)

lemma fold_or_xor:
  "foldl (\<lambda>acc (x, y). or acc (xor x y)) acc ps = (0 :: u8) \<longleftrightarrow> acc = 0 \<and> (\<forall>(x, y) \<in> set ps. x = y)"
  by (induction ps arbitrary: acc) (auto simp: or_eq_0_iff xor_eq_0)

lemma as_bytes_inject [simp]: "as_bytes a = as_bytes b \<longleftrightarrow> a = b"
proof -
  have "inj (\<lambda>c. of_nat (of_char c) :: u8)"
  proof (rule injI)
    fix c d :: char assume e: "(of_nat (of_char c) :: u8) = of_nat (of_char d)"
    have "unat (of_nat (of_char x) :: u8) = of_char x" for x :: char by (simp add: unat_of_nat)
    with e have "(of_char c :: nat) = of_char d" by metis
    then show "c = d" by simp
  qed
  then show ?thesis by (simp add: as_bytes_def inj_map_eq_map)
qed

lemma constant_time_compare_iff [simp]: "constant_time_compare a b \<longleftrightarrow> a = b"
proof -
  have "constant_time_compare a b \<longleftrightarrow> list_all2 (=) (as_bytes a) (as_bytes b)"
    by (simp add: constant_time_compare_def fold_or_xor list_all2_iff)
  then show ?thesis by (simp add: list.rel_eq)
qed

lemma split_comma_space_no_comma: "CHR '','' \<notin> set s \<Longrightarrow> split_comma_space s = [s]"
proof (induction s)
  case (Cons c s)
  then show ?case by (cases s) auto
qed simp

lemma split_comma_space_sep:
  "CHR '','' \<notin> set s \<Longrightarrow> split_comma_space (s @ '', '' @ t) = s # split_comma_space t"
proof (induction s)
  case Nil
  then show ?case by simp
next
  case (Cons c s)
  then show ?case by (cases s) auto
qed

lemma strip_prefix_append [simp]: "strip_prefix p (p @ s) = Some s"
  by (simp add: strip_prefix_def)

lemma split_on_join:
  "ss \<noteq> [] \<Longrightarrow> \<forall>s \<in> set ss. c \<notin> set s \<Longrightarrow> split_on c (join [c] ss) = ss"
  by (induction "[c]" ss rule: join.induct) (auto simp: split_on_no_sep split_on_sep)

text \<open>The authorization header a client sends.\<close>

definition authorization_header :: "string \<Rightarrow> string \<Rightarrow> string \<Rightarrow> string \<Rightarrow> string list \<Rightarrow> string \<Rightarrow> string" where
  "authorization_header key date region service names signature =
     ''AWS4-HMAC-SHA256 Credential='' @ key @ ''/'' @ date @ ''/'' @ region @ ''/'' @ service @ ''/aws4_request''
       @ '', '' @ ''SignedHeaders='' @ join '';'' names @ '', '' @ ''Signature='' @ signature"

definition plain :: "string \<Rightarrow> bool" where
  "plain s \<longleftrightarrow> CHR '','' \<notin> set s \<and> CHR ''/'' \<notin> set s \<and> CHR '';'' \<notin> set s"

lemma join_chars: "c \<in> set (join sep ss) \<Longrightarrow> c \<in> set sep \<or> (\<exists>s \<in> set ss. c \<in> set s)"
  by (induction sep ss rule: join.induct) auto

lemma parse_authorization_header_print:
  assumes "plain key" "plain date" "plain region" "plain service" and "names \<noteq> []" "\<forall>n \<in> set names. plain n" and "plain signature"
  shows "parse_authorization_header (authorization_header key date region service names signature) =
    Inr \<lparr>ai_access_key = key, ai_scope = date @ ''/'' @ region @ ''/'' @ service @ ''/aws4_request'', ai_region = region,
         ai_service = service, ai_signed_headers = names, ai_signature = signature\<rparr>"
proof -
  let ?cred = "key @ ''/'' @ date @ ''/'' @ region @ ''/'' @ service @ ''/aws4_request''"
  have j: "CHR '','' \<notin> set (join '';'' names)" using assms(6) by (auto simp: plain_def dest!: join_chars)
  have "split_comma_space (authorization_header key date region service names signature)
      = [''AWS4-HMAC-SHA256 Credential='' @ ?cred, ''SignedHeaders='' @ join '';'' names, ''Signature='' @ signature]"
    (is "split_comma_space ?h = [?c, ?s, ?g]")
  proof -
    have h: "?h = ?c @ '', '' @ ?s @ '', '' @ ?g" by (simp add: authorization_header_def)
    have c: "CHR '','' \<notin> set ?c" "CHR '','' \<notin> set ?s" "CHR '','' \<notin> set ?g" using assms j by (simp_all add: plain_def)
    show ?thesis unfolding h split_comma_space_sep [OF c(1)] split_comma_space_sep [OF c(2)] split_comma_space_no_comma [OF c(3)] ..
  qed
  moreover have "split_on CHR ''/'' ?cred = [key, date, region, service, ''aws4_request'']"
    using assms by (simp add: plain_def split_on_sep split_on_no_sep)
  moreover have "split_on CHR '';'' (join '';'' names) = names" using assms(5,6) by (intro split_on_join) (auto simp: plain_def)
  moreover have "strip_prefix ''AWS4-HMAC-SHA256 Credential='' (''AWS4-HMAC-SHA256 Credential='' @ ?cred) = Some ?cred"
    "strip_prefix ''SignedHeaders='' (''SignedHeaders='' @ join '';'' names) = Some (join '';'' names)"
    "strip_prefix ''Signature='' (''Signature='' @ signature) = Some signature" by (simp_all only: strip_prefix_append)
  ultimately show ?thesis by (simp add: parse_authorization_header_def Let_def)
qed

text \<open>The signature that the server computes for a request, as a function of what the authorization header says.\<close>

definition request_signature :: "crypto \<Rightarrow> string \<Rightarrow> request \<Rightarrow> string \<Rightarrow> string \<Rightarrow> string \<Rightarrow> string \<Rightarrow> string list \<Rightarrow> string option" where
  "request_signature cr secret rq amz_date scope region service names =
     calculate_signature cr secret amz_date region service
       (build_string_to_sign cr amz_date scope
         (build_canonical_request (rq_method rq) (rq_path rq) (case rq_query rq of Some q \<Rightarrow> q | None \<Rightarrow> []) (rq_headers rq) names
           (case header (rq_headers rq) ''x-amz-content-sha256'' of Some h \<Rightarrow> h | None \<Rightarrow> ''UNSIGNED-PAYLOAD'')))"

lemma split_comma_space_hd: "split_comma_space s \<noteq> [] \<and> prefix (hd (split_comma_space s)) s"
  by (induction s rule: split_comma_space.induct) (auto split: list.splits)

lemma parse_has_prefix:
  assumes "parse_authorization_header h = Inr info"
  shows "prefix ''AWS4-HMAC-SHA256'' h"
proof -
  from assms have "prefix ''AWS4-HMAC-SHA256 Credential='' (hd (split_comma_space h))"
    using split_comma_space_hd [of h]
    by (auto simp: parse_authorization_header_def strip_prefix_def Let_def hd_conv_nth split: if_splits option.splits)
  then have "prefix (''AWS4-HMAC-SHA256'' @ '' Credential='') h"
    using split_comma_space_hd [of h] by (auto intro: prefix_order.trans)
  then show ?thesis by (rule append_prefixD)
qed

lemma num_seconds_abs [simp]: "\<bar>num_seconds d\<bar> = \<bar>d\<bar> div 1000000000"
  by (auto simp: num_seconds_def pos_imp_zdiv_nonneg_iff)

lemma sigv4_iff:
  "validate_sigv4 cr cred now rq = Accepted \<longleftrightarrow>
     (\<exists>h info date t. header (rq_headers rq) ''authorization'' = Some h \<and> parse_authorization_header h = Inr info
        \<and> ai_access_key info = access_key cred
        \<and> header (rq_headers rq) ''x-amz-date'' = Some date \<and> cr_parse_date cr date = Some t \<and> \<bar>now - t * 1000000000\<bar> div 1000000000 \<le> 900
        \<and> request_signature cr (secret_key cred) rq date (ai_scope info) (ai_region info) (ai_service info) (ai_signed_headers info)
            = Some (ai_signature info))"
  using parse_has_prefix
  by (auto simp: validate_sigv4_def validate_timestamp_def request_signature_def MAX_TIME_SKEW_SECS_def Let_def not_less
      split: option.splits sum.splits if_splits)

lemma to_lowercase_lower [simp]:
  "to_lowercase ''authorization'' = ''authorization''" "to_lowercase ''x-amz-date'' = ''x-amz-date''"
  "to_lowercase ''x-amz-content-sha256'' = ''x-amz-content-sha256''"
  by (simp_all add: to_lowercase_def ascii_lower_def)

text \<open>What is joined with line breaks can be taken apart again.\<close>

abbreviation "nl \<equiv> CHR 0x0A"

lemma last_sep_append_inject:
  assumes "c \<notin> set b" and "c \<notin> set b'"
  shows "a @ c # b = a' @ c # b' \<longleftrightarrow> a = a' \<and> b = b'"
proof -
  have "a @ c # b = a' @ c # b' \<longleftrightarrow> rev b @ c # rev a = rev b' @ c # rev a'"
    by (metis append_Cons append_Nil append_assoc rev_append rev_rev_ident rev_singleton_conv rev.simps(2))
  also have "\<dots> \<longleftrightarrow> rev b = rev b' \<and> rev a = rev a'" using assms by (intro sep_append_inject) auto
  finally show ?thesis by auto
qed

lemma join_inject:
  assumes "join [c] ss = join [c] ts" and "\<forall>s \<in> set ss \<union> set ts. c \<notin> set s \<and> s \<noteq> []"
  shows "ss = ts"
proof (cases "ss = [] \<or> ts = []")
  case True
  have "join [c] us \<noteq> []" if "us \<noteq> []" "\<forall>u \<in> set us. u \<noteq> []" for us
    using that by (induction "[c]" us rule: join.induct) auto
  with True assms show ?thesis by (metis UnI1 UnI2 join.simps(1))
next
  case False
  have "split_on c (join [c] ss) = ss" by (rule split_on_join) (use False assms(2) in simp_all)
  then have "ss = split_on c (join [c] ts)" by (simp only: assms(1))
  also have "\<dots> = ts" by (rule split_on_join) (use False assms(2) in simp_all)
  finally show ?thesis .
qed

lemma query_param_chars:
  assumes "p \<in> set (split_on CHR ''&'' q)"
  shows "set (fst (query_param p)) \<subseteq> set q" "set (snd (query_param p)) \<subseteq> set q"
proof -
  have "set p \<subseteq> set q" using split_on_pieces [OF assms] by auto
  moreover have "set (fst (query_param p)) \<subseteq> set p" "set (snd (query_param p)) \<subseteq> set p"
    by (auto simp: query_param_def Let_def dest: set_takeWhileD in_set_dropD)
  ultimately show "set (fst (query_param p)) \<subseteq> set q" "set (snd (query_param p)) \<subseteq> set q" by blast+
qed

lemma canonical_query_chars:
  assumes "c \<in> set (canonicalize_query_string q)"
  shows "c \<in> set q \<or> c = CHR ''&'' \<or> c = CHR ''=''"
proof -
  have "set (case query_param p of (k, v) \<Rightarrow> if v = [] then k @ ''='' else k @ ''='' @ v) \<subseteq> set q \<union> {CHR ''=''}"
    if "p \<in> set (split_on CHR ''&'' q)" for p
    using query_param_chars [OF that] by (auto simp: split_beta split: if_splits)
  note p = this
  from assms have c: "c \<in> set (join ''&'' (map (\<lambda>(k, v). if v = [] then k @ ''='' else k @ ''='' @ v)
      (sort (map query_param (split_on CHR ''&'' q)))))"
    unfolding canonicalize_query_string_def by (simp only: split: if_splits) simp
  from join_chars [OF c] show ?thesis
  proof
    assume "\<exists>s \<in> set (map (\<lambda>(k, v). if v = [] then k @ ''='' else k @ ''='' @ v) (sort (map query_param (split_on CHR ''&'' q)))). c \<in> set s"
    then obtain x where "x \<in> set (split_on CHR ''&'' q)"
      "c \<in> set (case query_param x of (k, v) \<Rightarrow> if v = [] then k @ ''='' else k @ ''='' @ v)" unfolding set_map set_sort by blast
    with p [of x] show ?thesis by auto
  qed simp
qed

text \<open>The lines of the canonical request for the headers determine the values of the signed headers.\<close>

abbreviation "normalised v \<equiv> replace_double_space (trim v)"

lemma signed_header_map_eq:
  "signed_header_map hs names k =
     (if k \<in> to_lowercase ` set names then map_option (\<lambda>v. normalised v) (case map_of hs k of None \<Rightarrow> None | Some v \<Rightarrow> to_str v) else None)"
proof -
  have "foldl (\<lambda>m name. case header hs name of None \<Rightarrow> m | Some v \<Rightarrow> m(to_lowercase name \<mapsto> normalised v)) m names k =
      (if k \<in> to_lowercase ` set names \<and> (case map_of hs k of None \<Rightarrow> None | Some v \<Rightarrow> to_str v) \<noteq> None
       then map_option (\<lambda>v. normalised v) (case map_of hs k of None \<Rightarrow> None | Some v \<Rightarrow> to_str v) else m k)" for m
    by (induction names arbitrary: m) (auto simp: header_def split: option.splits)
  then show ?thesis by (auto simp: signed_header_map_def)
qed

definition tidy_headers :: "(string \<times> string) list \<Rightarrow> bool" where
  "tidy_headers hs \<longleftrightarrow> (\<forall>(n, v) \<in> set hs. CHR '':'' \<notin> set n \<and> nl \<notin> set n)"

lemma header_lines_inject:
  assumes "map (\<lambda>k. k @ '':'' @ f k) ks = map (\<lambda>k. k @ '':'' @ g k) ls" and "\<forall>k \<in> set ks \<union> set ls. CHR '':'' \<notin> set k"
  shows "ks = ls \<and> (\<forall>k \<in> set ks. f k = g k)"
  using assms
proof (induction ks arbitrary: ls)
  case (Cons k ks)
  then obtain l ls' where l: "ls = l # ls'" by (cases ls) auto
  with Cons.prems have "k = l" "f k = g k" using sep_append_inject [of "CHR '':''" k l "f k" "g l"] by auto
  with Cons l show ?case by simp
qed simp

lemma not_visible_nl [simp]: "\<not> visible nl"
  by (simp add: visible_def)

lemma normalised_chars: "c \<in> set (normalised v) \<Longrightarrow> c \<in> set v"
proof -
  have "set (replace_double_space s) \<subseteq> set s" for s by (induction s rule: replace_double_space.induct) auto
  moreover have "set (trim v) \<subseteq> set v" unfolding trim_def by (metis set_dropWhileD set_rev subsetI)
  ultimately show "c \<in> set (normalised v) \<Longrightarrow> c \<in> set v" by blast
qed

definition signed_keys :: "(string \<times> string) list \<Rightarrow> string list \<Rightarrow> string list" where
  "signed_keys hs names = sorted_list_of_set (set (filter (\<lambda>k. signed_header_map hs names k \<noteq> None) (map to_lowercase names)))"

lemma signed_keys_mem: "k \<in> set (signed_keys hs names) \<longleftrightarrow> signed_header_map hs names k \<noteq> None"
  by (auto simp: signed_keys_def signed_header_map_eq split: if_splits)

lemma canonical_header_lines_eq:
  "canonical_header_lines hs names = map (\<lambda>k. k @ '':'' @ the (signed_header_map hs names k)) (signed_keys hs names)"
  by (simp add: canonical_header_lines_def signed_keys_def Let_def)

lemma signed_key_tidy:
  assumes "tidy_headers hs" and "signed_header_map hs names k = Some v"
  shows "CHR '':'' \<notin> set k" "nl \<notin> set k" "nl \<notin> set v"
proof -
  from assms(2) obtain w where w: "map_of hs k = Some w" "to_str w = Some w" "v = normalised w"
    by (auto simp: signed_header_map_eq to_str_def split: if_splits option.splits)
  from map_of_SomeD [OF w(1)] assms(1) show "CHR '':'' \<notin> set k" "nl \<notin> set k" by (auto simp: tidy_headers_def)
  from w(2) have "nl \<notin> set w" by (auto simp: to_str_def list_all_iff split: if_splits)
  with w(3) normalised_chars show "nl \<notin> set v" by blast
qed

lemma header_lines_tidy:
  "tidy_headers hs \<Longrightarrow> l \<in> set (canonical_header_lines hs names) \<Longrightarrow> nl \<notin> set l \<and> l \<noteq> []"
  using signed_key_tidy(2,3) by (fastforce simp: canonical_header_lines_eq signed_keys_mem)

lemma canonical_lines_determine:
  assumes "canonical_header_lines hs names = canonical_header_lines hs' names" and "tidy_headers hs" "tidy_headers hs'"
  shows "signed_header_map hs names = signed_header_map hs' names"
proof -
  have "signed_keys hs names = signed_keys hs' names \<and> (\<forall>k \<in> set (signed_keys hs names).
      the (signed_header_map hs names k) = the (signed_header_map hs' names k))"
    by (rule header_lines_inject [OF assms(1) [unfolded canonical_header_lines_eq]])
      (use assms(2,3) signed_key_tidy(1) in \<open>auto simp: signed_keys_mem\<close>)
  then show ?thesis using signed_keys_mem [of _ hs names] signed_keys_mem [of _ hs' names]
    by (intro ext) (metis option.exhaust_sel)
qed

text \<open>The parts of a request that are signed, and the canonical form they make up.\<close>

definition query_of :: "request \<Rightarrow> string" where
  "query_of rq = (case rq_query rq of Some q \<Rightarrow> q | None \<Rightarrow> [])"

definition uri_of :: "request \<Rightarrow> string" where
  "uri_of rq = (if rq_path rq = [] then ''/'' else rq_path rq)"

definition content_sha256_of :: "request \<Rightarrow> string" where
  "content_sha256_of rq = (case header (rq_headers rq) ''x-amz-content-sha256'' of Some h \<Rightarrow> h | None \<Rightarrow> ''UNSIGNED-PAYLOAD'')"

definition canonical_of :: "request \<Rightarrow> string list \<Rightarrow> string" where
  "canonical_of rq names =
     build_canonical_request (rq_method rq) (rq_path rq) (query_of rq) (rq_headers rq) names (content_sha256_of rq)"

text \<open>Two requests whose canonical forms have the same signature only if they are the same.\<close>

definition no_collision :: "crypto \<Rightarrow> string \<Rightarrow> request \<Rightarrow> request \<Rightarrow> bool" where
  "no_collision cr secret rq rq' \<longleftrightarrow> (\<forall>date scope region service names signature.
     calculate_signature cr secret date region service (build_string_to_sign cr date scope (canonical_of rq names)) = Some signature \<longrightarrow>
     calculate_signature cr secret date region service (build_string_to_sign cr date scope (canonical_of rq' names)) = Some signature \<longrightarrow>
     canonical_of rq names = canonical_of rq' names)"

definition tidy_request :: "request \<Rightarrow> bool" where
  "tidy_request rq \<longleftrightarrow> nl \<notin> set (rq_method rq) \<and> nl \<notin> set (rq_path rq) \<and> nl \<notin> set (query_of rq) \<and> tidy_headers (rq_headers rq)"

lemma canonical_of_inject:
  assumes e: "canonical_of rq names = canonical_of rq' names" and t: "tidy_request rq" "tidy_request rq'"
  shows "rq_method rq = rq_method rq' \<and> uri_of rq = uri_of rq'
    \<and> canonicalize_query_string (query_of rq) = canonicalize_query_string (query_of rq') \<and> content_sha256_of rq = content_sha256_of rq'
    \<and> signed_header_map (rq_headers rq) names = signed_header_map (rq_headers rq') names"
proof -
  let ?H = "\<lambda>r. join [nl] (canonical_header_lines (rq_headers r) names)"
  let ?R = "\<lambda>r. (?H r @ [nl, nl] @ join '';'' names) @ nl # content_sha256_of r"
  have c: "canonical_of r names = rq_method r @ nl # (uri_of r @ nl # (canonicalize_query_string (query_of r) @ nl # ?R r))" for r
    by (simp add: canonical_of_def build_canonical_request_def uri_of_def)
  have u: "nl \<notin> set (uri_of r)" "nl \<notin> set (canonicalize_query_string (query_of r))" "nl \<notin> set (rq_method r)" "nl \<notin> set (content_sha256_of r)"
    "tidy_headers (rq_headers r)" if "tidy_request r" for r
  proof -
    show "nl \<notin> set (uri_of r)" "nl \<notin> set (rq_method r)" "tidy_headers (rq_headers r)" using that by (auto simp: tidy_request_def uri_of_def)
    show "nl \<notin> set (canonicalize_query_string (query_of r))" using that canonical_query_chars [of nl "query_of r"] by (auto simp: tidy_request_def)
    show "nl \<notin> set (content_sha256_of r)"
      by (auto simp: content_sha256_of_def header_def to_str_def list_all_iff split: option.splits if_splits)
  qed
  note u1 = u [OF t(1)] and u2 = u [OF t(2)]
  from e have m: "rq_method rq = rq_method rq'" and q: "uri_of rq = uri_of rq'"
    "canonicalize_query_string (query_of rq) = canonicalize_query_string (query_of rq')" and r: "?R rq = ?R rq'"
    unfolding c sep_append_inject [OF u1(3) u2(3)] sep_append_inject [OF u1(1) u2(1)] sep_append_inject [OF u1(2) u2(2)] by blast+
  from r have p: "content_sha256_of rq = content_sha256_of rq'" and h: "?H rq = ?H rq'"
    unfolding last_sep_append_inject [OF u1(4) u2(4)] by simp_all
  have "canonical_header_lines (rq_headers rq) names = canonical_header_lines (rq_headers rq') names"
    by (rule join_inject [OF h]) (use header_lines_tidy u1(5) u2(5) in blast)
  from canonical_lines_determine [OF this u1(5) u2(5)] m q p show ?thesis by simp
qed

section \<open>Property\<close>

text \<open>
  C37: A signature covers the request. Two requests with the same authorization header and the same
  date that are both let through have the same method, path, query up to the order of its
  parameters, hash of the contents, and the same signed headers up to white space, unless the hash
  functions collide on them: the signature of one request cannot be used for another one.
\<close>

theorem signature_covers_request:
  assumes "validate_sigv4 cr cred now rq = Accepted" and "validate_sigv4 cr cred now' rq' = Accepted"
    and "header (rq_headers rq) ''authorization'' = header (rq_headers rq') ''authorization''"
    and "header (rq_headers rq) ''x-amz-date'' = header (rq_headers rq') ''x-amz-date''"
    and "tidy_request rq" "tidy_request rq'" and "no_collision cr (secret_key cred) rq rq'"
  shows "rq_method rq = rq_method rq' \<and> uri_of rq = uri_of rq'
    \<and> canonicalize_query_string (query_of rq) = canonicalize_query_string (query_of rq') \<and> content_sha256_of rq = content_sha256_of rq'
    \<and> (\<exists>h info. header (rq_headers rq) ''authorization'' = Some h \<and> parse_authorization_header h = Inr info
         \<and> (\<forall>n \<in> set (ai_signed_headers info). map_option (\<lambda>v. normalised v) (header (rq_headers rq) n)
              = map_option (\<lambda>v. normalised v) (header (rq_headers rq') n)))"
proof -
  have sig: "request_signature cr secret r date scope region service names
      = calculate_signature cr secret date region service (build_string_to_sign cr date scope (canonical_of r names))"
    for secret r date scope region service names
    by (simp add: request_signature_def canonical_of_def query_of_def content_sha256_of_def)
  from assms(1) obtain h info date where h: "header (rq_headers rq) ''authorization'' = Some h" "parse_authorization_header h = Inr info"
    and d: "header (rq_headers rq) ''x-amz-date'' = Some date"
    and s: "request_signature cr (secret_key cred) rq date (ai_scope info) (ai_region info) (ai_service info) (ai_signed_headers info) = Some (ai_signature info)"
    unfolding sigv4_iff by blast
  from assms(2) h d assms(3,4) have
    s': "request_signature cr (secret_key cred) rq' date (ai_scope info) (ai_region info) (ai_service info) (ai_signed_headers info) = Some (ai_signature info)"
    unfolding sigv4_iff by auto
  from assms(7) s s' have "canonical_of rq (ai_signed_headers info) = canonical_of rq' (ai_signed_headers info)"
    unfolding no_collision_def sig by blast
  note c = canonical_of_inject [OF this assms(5,6)]
  have "map_option (\<lambda>v. normalised v) (header hs n) = signed_header_map hs (ai_signed_headers info) (to_lowercase n)"
    if "n \<in> set (ai_signed_headers info)" for hs n
    using that by (simp add: signed_header_map_eq header_def)
  with c h show ?thesis by auto
qed

text \<open>Requests for the examples, with simple functions in place of the hash functions.\<close>

definition example_crypto :: crypto where
  "example_crypto = \<lparr>cr_sha256_hex = (\<lambda>s. s), cr_hmac = (\<lambda>k d. k @ d), cr_hex = (\<lambda>d. ''f0''),
     cr_parse_date = (\<lambda>d. if d = ''20250101T000000Z'' then Some 0 else None)\<rparr>"

definition example_cred :: CredentialsConfig where
  "example_cred = \<lparr>access_key = ''ak'', secret_key = ''sk''\<rparr>"

definition example_rq :: "string \<Rightarrow> request" where
  "example_rq q = \<lparr>rq_method = ''GET'', rq_path = ''/photos'', rq_query = Some q,
     rq_headers = [(''x-amz-date'', ''20250101T000000Z''), (''host'', ''h'')]\<rparr>"

definition signed_rq :: "string \<Rightarrow> request" where
  "signed_rq q = (example_rq q)\<lparr>rq_headers :=
     (''authorization'', authorization_header ''ak'' (take 8 ''20250101T000000Z'') ''r'' ''s3'' [''Host''] ''f0'') # rq_headers (example_rq q)\<rparr>"

theorem signature_covers_request_witness:
  "validate_sigv4 example_crypto example_cred 60000000000 (signed_rq ''b=2&a=1'') = Accepted
   \<and> validate_sigv4 example_crypto example_cred 60000000000 (signed_rq ''a=1&b=2'') = Accepted
   \<and> canonicalize_query_string ''b=2&a=1'' = canonicalize_query_string ''a=1&b=2''"
proof -
  have a: "validate_sigv4 example_crypto example_cred 60000000000 (signed_rq ''b=2&a=1'') = Accepted"
    "validate_sigv4 example_crypto example_cred 60000000000 (signed_rq ''a=1&b=2'') = Accepted" by code_simp+
  have h: "rq_headers (signed_rq ''b=2&a=1'') = rq_headers (signed_rq ''a=1&b=2'')" by (simp add: signed_rq_def example_rq_def)
  have "canonicalize_query_string ''b=2&a=1'' = canonicalize_query_string ''a=1&b=2''" by code_simp
  then have "canonical_of (signed_rq ''b=2&a=1'') names = canonical_of (signed_rq ''a=1&b=2'') names" for names
    using h by (simp add: canonical_of_def build_canonical_request_def query_of_def content_sha256_of_def signed_rq_def example_rq_def)
  then have n: "no_collision example_crypto (secret_key example_cred) (signed_rq ''b=2&a=1'') (signed_rq ''a=1&b=2'')"
    by (simp add: no_collision_def)
  have t: "tidy_request (signed_rq ''b=2&a=1'')" "tidy_request (signed_rq ''a=1&b=2'')" by code_simp+
  from signature_covers_request [OF a _ _ t n] a h show ?thesis by (simp add: query_of_def signed_rq_def example_rq_def)
qed

text \<open>
  What the signature does not cover: a request with an empty list of signed headers is let through,
  the last component of the credential may be anything, and neither the body nor its hash is compared
  with the header \<open>x-amz-content-sha256\<close>.
\<close>

theorem nothing_needs_to_be_signed:
  "validate_sigv4 example_crypto example_cred 60000000000
     \<lparr>rq_method = ''PUT'', rq_path = ''/photos/a'', rq_query = None,
      rq_headers = [(''authorization'', ''AWS4-HMAC-SHA256 Credential=ak/20250101/r/s3/anything, SignedHeaders=, Signature=f0''),
                    (''x-amz-date'', ''20250101T000000Z''), (''x-amz-content-sha256'', ''not a hash'')]\<rparr> = Accepted"
  by code_simp

text \<open>Three spaces become two, where the protocol asks for one.\<close>

lemma three_spaces: "normalised ''a   b'' = ''a  b''"
  by code_simp

end
