(* ===== verification/Api_Health.thy ===== *)
theory Api_Health
  imports Api_State Raft_Node
begin

text \<open>
  The readiness of a node, \<open>crates/save-api/src/handlers/health/readiness.rs\<close>: the checks of its parts
  and the state they add up to. What the operating system says of the disk, the last run of the
  collector and the clock are arguments; percentages are compared in exact arithmetic instead of
  floating point, and the details that are only printed are left out.
\<close>

section \<open>Checks\<close>

datatype ComponentStatus = CompHealthy | CompDegraded | CompUnhealthy

record ComponentHealth =
  ch_status :: ComponentStatus
  ch_message :: string

definition check_rocksdb :: "('d, 'v, 'r, 'h) services \<Rightarrow> ('r, 'd) AppState \<Rightarrow> ComponentHealth" where
  "check_rocksdb sv st =
     (case list_buckets (sv_env sv) (as_metadata st) of
        Inr _ \<Rightarrow> \<lparr>ch_status = CompHealthy, ch_message = ''RocksDB operational''\<rparr>
      | Inl e \<Rightarrow> \<lparr>ch_status = CompUnhealthy, ch_message = ''RocksDB error: '' @ MetadataError_to_string e\<rparr>)"

text \<open>A file is written, replacing what was there, and removed again; a failure to remove it is ignored.\<close>

definition check_filesystem :: "('d, 'v, 'r, 'h) services \<Rightarrow> ('r, 'd) AppState \<Rightarrow> ComponentHealth \<times> ('r, 'd) AppState" where
  "check_filesystem sv st =
     (let p = data_path (sv_config sv) @ [''.health_check''] in
      case file_create (as_fs st) p of
        (Inl e, s) \<Rightarrow> (\<lparr>ch_status = CompUnhealthy, ch_message = ''Filesystem error: '' @ io_msg e\<rparr>, st\<lparr>as_fs := s\<rparr>)
      | (Inr _, s) \<Rightarrow>
        (case file_write s p (as_bytes ''health_check'') of
           (Inl e, s') \<Rightarrow> (\<lparr>ch_status = CompUnhealthy, ch_message = ''Filesystem error: '' @ io_msg e\<rparr>, st\<lparr>as_fs := s'\<rparr>)
         | (Inr _, s') \<Rightarrow>
           (\<lparr>ch_status = CompHealthy, ch_message = ''Filesystem writable''\<rparr>, st\<lparr>as_fs := snd (remove_file s' p)\<rparr>)))"

record statvfs =
  sf_blocks :: nat
  sf_blocks_available :: nat
  sf_block_size :: nat

definition check_disk_space :: "string + statvfs \<Rightarrow> ComponentHealth" where
  "check_disk_space stat =
     (case stat of
        Inl e \<Rightarrow> \<lparr>ch_status = CompDegraded, ch_message = ''Could not check disk space: '' @ e\<rparr>
      | Inr s \<Rightarrow>
        (let total = sf_blocks s * sf_block_size s; available = sf_blocks_available s * sf_block_size s in
         if 100 * available < 5 * total then \<lparr>ch_status = CompUnhealthy, ch_message = ''Critical: Less than 5% disk space available''\<rparr>
         else if 100 * available < 10 * total then
           \<lparr>ch_status = CompDegraded, ch_message = ''Warning: Less than 10% disk space available''\<rparr>
         else \<lparr>ch_status = CompHealthy, ch_message = ''Sufficient disk space available''\<rparr>))"

definition check_cluster_membership :: "bool \<Rightarrow> ClusterConfig \<Rightarrow> ClusterStatus \<Rightarrow> ComponentHealth" where
  "check_cluster_membership is_joined config raft_status =
     (let is_voter = (clc_node_id config \<in> set (cs_voters raft_status)); is_learner = (clc_node_id config \<in> set (cs_learners raft_status)) in
      if is_voter \<or> is_learner then
        \<lparr>ch_status = CompHealthy, ch_message = ''Cluster member ('' @ (if is_voter then ''voter'' else ''learner'') @ '')''\<rparr>
      else if is_joined then \<lparr>ch_status = CompDegraded, ch_message = ''Marked as joined but not in current membership''\<rparr>
      else if clc_seed_nodes config \<noteq> [] then \<lparr>ch_status = CompUnhealthy, ch_message = ''Waiting to join cluster''\<rparr>
      else \<lparr>ch_status = CompDegraded, ch_message = ''Initializing cluster''\<rparr>)"

definition check_gc_worker :: "int \<Rightarrow> int \<Rightarrow> int \<Rightarrow> ComponentHealth" where
  "check_gc_worker gc_last_run now gc_interval =
     (if gc_last_run = 0 then \<lparr>ch_status = CompHealthy, ch_message = ''GC worker not yet run (system recently started)''\<rparr>
      else
        (let since = now - gc_last_run; max_expected = gc_interval * 2 in
         if since > max_expected * 2 then
           \<lparr>ch_status = CompUnhealthy, ch_message = ''GC worker hasn'' @ [CHR 0x27] @ ''t run in '' @ nat_str (nat since) @ '' seconds''\<rparr>
         else if since > max_expected then
           \<lparr>ch_status = CompDegraded, ch_message = ''GC worker delayed, last run '' @ nat_str (nat since) @ '' seconds ago''\<rparr>
         else \<lparr>ch_status = CompHealthy, ch_message = ''GC worker operational''\<rparr>))"

definition overall_status :: "ComponentHealth list \<Rightarrow> ComponentStatus" where
  "overall_status cs =
     (if \<exists>c \<in> set cs. ch_status c = CompUnhealthy then CompUnhealthy
      else if \<exists>c \<in> set cs. ch_status c = CompDegraded then CompDegraded
      else CompHealthy)"

text \<open>What the checks read besides the state of the node.\<close>

record readings =
  rg_joined :: bool
  rg_statvfs :: "string + statvfs"
  rg_gc_last_run :: int
  rg_now_secs :: int

definition readiness_check ::
  "('d, 'v, 'r, 'h) services \<Rightarrow> 'd RaftNode \<Rightarrow> SaveConfig \<Rightarrow> readings \<Rightarrow> ('r, 'd) AppState
    \<Rightarrow> (nat \<times> ComponentStatus \<times> (string \<times> ComponentHealth) list) \<times> ('r, 'd) AppState" where
  "readiness_check sv N config rg st =
     (case check_filesystem sv st of
        (filesystem, st') \<Rightarrow>
          (let components =
             [(''rocksdb'', check_rocksdb sv st), (''filesystem'', filesystem), (''disk_space'', check_disk_space (rg_statvfs rg)),
              (''gc_worker'', check_gc_worker (rg_gc_last_run rg) (rg_now_secs rg) (uint (stc_gc_interval_secs (cfg_storage config)))),
              (''cluster_membership'', check_cluster_membership (rg_joined rg) (cfg_cluster config) (get_status N (as_metadata st)))];
               status = overall_status (map snd components) in
           ((if status = CompUnhealthy then 503 else 200, status, components), st')))"

section \<open>What readiness means\<close>

text \<open>
  A node that reports to be ready can read its metadata, could write to its disk, has at least five
  percent of it left, and is in the cluster unless it has left or has no seed nodes.
\<close>

lemma ready_means:
  assumes "readiness_check sv N config rg st = ((200, status, components), st')"
  shows "\<not> isl (list_buckets (sv_env sv) (as_metadata st)) \<and> ch_status (fst (check_filesystem sv st)) = CompHealthy
    \<and> (\<forall>s. rg_statvfs rg = Inr s \<longrightarrow> 5 * (sf_blocks s * sf_block_size s) \<le> 100 * (sf_blocks_available s * sf_block_size s))
    \<and> (rg_joined rg \<or> clc_seed_nodes (cfg_cluster config) = []
       \<or> clc_node_id (cfg_cluster config) \<in> set (cs_voters (get_status N (as_metadata st))) \<union> set (cs_learners (get_status N (as_metadata st))))"
proof -
  obtain f st1 where f: "check_filesystem sv st = (f, st1)" by fastforce
  have u: "ch_status c \<noteq> CompUnhealthy" if "c \<in> {check_rocksdb sv st, f, check_disk_space (rg_statvfs rg),
      check_cluster_membership (rg_joined rg) (cfg_cluster config) (get_status N (as_metadata st))}" for c
    using assms that by (auto simp: readiness_check_def f Let_def overall_status_def split: if_splits)
  have "\<not> isl (list_buckets (sv_env sv) (as_metadata st))"
    using u [of "check_rocksdb sv st"] by (auto simp: check_rocksdb_def isl_def)
  moreover have "ch_status f = CompHealthy"
    using u [of f] f by (auto simp: check_filesystem_def Let_def split: prod.splits sum.splits)
  moreover have "5 * (sf_blocks s * sf_block_size s) \<le> 100 * (sf_blocks_available s * sf_block_size s)" if "rg_statvfs rg = Inr s" for s
    using u [of "check_disk_space (rg_statvfs rg)"] that by (auto simp: check_disk_space_def Let_def split: if_splits)
  moreover have "rg_joined rg \<or> clc_seed_nodes (cfg_cluster config) = []
       \<or> clc_node_id (cfg_cluster config) \<in> set (cs_voters (get_status N (as_metadata st))) \<union> set (cs_learners (get_status N (as_metadata st)))"
    using u [of "check_cluster_membership (rg_joined rg) (cfg_cluster config) (get_status N (as_metadata st))"]
    by (auto simp: check_cluster_membership_def Let_def split: if_splits)
  ultimately show ?thesis by (simp add: f)
qed

end
