(* ===== verification/Api_Front.thy ===== *)
theory Api_Front
  imports Api_Answers Api_Auth Api_Cluster Api_Health
begin

text \<open>
  The way of a request through a node, from the HTTP server to the handlers: the layers around the
  router (\<open>crates/save-api/src/middleware.rs\<close>, \<open>forward.rs\<close>, \<open>lib.rs\<close>) and the routes
  (\<open>routes/\<close>). Axum is a parameter: the router finds the pattern that a path matches and the
  parameters in it, and the extractors read paths, queries and JSON bodies or reject the request. The
  transport to the leader is a parameter too. Metrics and log messages are left out.
\<close>

section \<open>Routes of the API\<close>

record BucketListQuery =
  bq_prefix :: "string option"
  bq_marker :: "string option"
  bq_max_keys :: "nat option"
  bq_uploads :: "string option"
  bq_list_type :: "string option"
  bq_continuation_token :: "string option"

record MultipartQueryParams =
  mp_part_number :: "u32 option"
  mp_upload_id :: "string option"

record InitiateQuery =
  iq_uploads :: "string option"

text \<open>
  The router and the extractors; \<open>None\<close> is a rejection. \<open>ax_decode\<close> decodes a path parameter, the
  readers of JSON bodies see the content type too, and \<open>ax_not_allowed\<close> is the answer to a method
  that a route does not have. A route for GET serves HEAD too; the server then drops the body.
\<close>

record axum =
  ax_route :: "string list \<Rightarrow> string \<Rightarrow> (string \<times> string list) option"
  ax_decode :: "string \<Rightarrow> string option"
  ax_bucket_query :: "string option \<Rightarrow> BucketListQuery option"
  ax_multipart_query :: "string option \<Rightarrow> MultipartQueryParams option"
  ax_initiate_query :: "string option \<Rightarrow> InitiateQuery option"
  ax_node_id :: "string \<Rightarrow> u64 option"
  ax_members_json :: "string option \<Rightarrow> data \<Rightarrow> (string list) option"
  ax_node_json :: "string option \<Rightarrow> data \<Rightarrow> string option"
  ax_ids_json :: "string option \<Rightarrow> data \<Rightarrow> (u64 list) option"
  ax_rejection :: Response
  ax_not_allowed :: "string list \<Rightarrow> Response"

definition status_only :: "nat \<Rightarrow> Response" where
  "status_only s = \<lparr>rs_status = s, rs_headers = [], rs_body = NoBody\<rparr>"

definition api_patterns :: "string list" where
  "api_patterns = [''/'', ''/{bucket}'', ''/{bucket}/'', ''/{bucket}/{*key}'']"

definition get_bucket_handler :: "axum \<Rightarrow> string \<Rightarrow> string option \<Rightarrow> Response + api_request" where
  "get_bucket_handler A bucket query =
     (case ax_bucket_query A query of
        None \<Rightarrow> Inl (ax_rejection A)
      | Some params \<Rightarrow>
        if bq_uploads params \<noteq> None then Inr (ListUploadsRequest bucket)
        else Inr (ObjectRequest (ListRequest bucket
          \<lparr>q_prefix = bq_prefix params, q_marker = bq_marker params, q_max_keys = bq_max_keys params,
           q_list_type = bq_list_type params, q_continuation_token = bq_continuation_token params\<rparr>)))"

definition put_or_upload_part :: "axum \<Rightarrow> string \<Rightarrow> string \<Rightarrow> string option \<Rightarrow> reader \<Rightarrow> Response + api_request" where
  "put_or_upload_part A bucket key query body =
     (case ax_multipart_query A query of
        None \<Rightarrow> Inl (ax_rejection A)
      | Some params \<Rightarrow>
        (case (mp_part_number params, mp_upload_id params) of
           (Some n, Some upload_id) \<Rightarrow> Inr (UploadPartRequest bucket key upload_id n body)
         | _ \<Rightarrow> Inr (ObjectRequest (PutRequest bucket key body))))"

definition delete_or_abort :: "axum \<Rightarrow> string \<Rightarrow> string \<Rightarrow> string option \<Rightarrow> Response + api_request" where
  "delete_or_abort A bucket key query =
     (case ax_multipart_query A query of
        None \<Rightarrow> Inl (ax_rejection A)
      | Some params \<Rightarrow>
        (case mp_upload_id params of
           Some upload_id \<Rightarrow> Inr (AbortRequest bucket key upload_id)
         | None \<Rightarrow> Inr (ObjectRequest (DeleteRequest bucket key))))"

definition initiate_or_complete ::
  "axum \<Rightarrow> string \<Rightarrow> string \<Rightarrow> string option \<Rightarrow> (string \<times> string) list \<Rightarrow> Response + api_request" where
  "initiate_or_complete A bucket key query hs =
     (case (ax_multipart_query A query, ax_initiate_query A query) of
        (Some params, Some initiate) \<Rightarrow>
          (case mp_upload_id params of
             Some upload_id \<Rightarrow> Inr (CompleteRequest bucket key upload_id)
           | None \<Rightarrow>
             if iq_uploads initiate \<noteq> None then Inr (InitiateRequest bucket key (header hs ''content-type''))
             else Inl (status_only 400))
      | _ \<Rightarrow> Inl (ax_rejection A))"

definition bucket_routes :: "axum \<Rightarrow> string \<Rightarrow> request \<Rightarrow> Response + api_request" where
  "bucket_routes A bucket rq =
     (if rq_method rq = ''PUT'' then Inr (BucketRequest (CreateBucketRequest bucket))
      else if rq_method rq = ''DELETE'' then Inr (BucketRequest (DeleteBucketRequest bucket))
      else if rq_method rq = ''GET'' then get_bucket_handler A bucket (rq_query rq)
      else if rq_method rq = ''HEAD'' then Inr (BucketRequest (HeadBucketRequest bucket))
      else Inl (ax_not_allowed A [''PUT'', ''DELETE'', ''GET'', ''HEAD'']))"

definition object_routes :: "axum \<Rightarrow> string \<Rightarrow> string \<Rightarrow> request \<Rightarrow> reader \<Rightarrow> Response + api_request" where
  "object_routes A bucket key rq body =
     (if rq_method rq = ''GET'' then Inr (ObjectRequest (GetRequest bucket key))
      else if rq_method rq = ''PUT'' then put_or_upload_part A bucket key (rq_query rq) body
      else if rq_method rq = ''DELETE'' then delete_or_abort A bucket key (rq_query rq)
      else if rq_method rq = ''HEAD'' then Inr (ObjectRequest (HeadRequest bucket key))
      else if rq_method rq = ''POST'' then initiate_or_complete A bucket key (rq_query rq) (rq_headers rq)
      else Inl (ax_not_allowed A [''GET'', ''PUT'', ''DELETE'', ''HEAD'', ''POST'']))"

definition route_request :: "axum \<Rightarrow> request \<Rightarrow> reader \<Rightarrow> Response + api_request" where
  "route_request A rq body =
     (case ax_route A api_patterns (rq_path rq) of
        None \<Rightarrow> Inl (status_only 404)
      | Some (pattern, params) \<Rightarrow>
        (case (pattern = ''/'', those (map (ax_decode A) params)) of
           (True, _) \<Rightarrow>
             if rq_method rq \<in> {''GET'', ''HEAD''} then Inr (BucketRequest ListBucketsRequest)
             else Inl (ax_not_allowed A [''GET'', ''HEAD''])
         | (False, Some [bucket]) \<Rightarrow> bucket_routes A bucket rq
         | (False, Some [bucket, key]) \<Rightarrow> object_routes A bucket key rq body
         | (False, _) \<Rightarrow> Inl (ax_rejection A)))"

section \<open>The node\<close>

text \<open>
  What belongs to a node besides its state: its services, Raft, its configuration, the outside code,
  and what the request gets from its surroundings. JSON documents are written by \<open>nd_json\<close>.
\<close>

record ('d, 'v, 'r, 'h) node_parts =
  nd_services :: "('d, 'v, 'r, 'h) services"
  nd_raft :: "'d RaftNode"
  nd_config :: SaveConfig
  nd_axum :: axum
  nd_crypto :: crypto
  nd_error_xml :: "S3Error \<Rightarrow> string option"
  nd_membership_json :: "MembershipResponse \<Rightarrow> data"
  nd_status_json :: "ClusterStatus \<Rightarrow> data"
  nd_readiness_json :: "ComponentStatus \<Rightarrow> (string \<times> ComponentHealth) list \<Rightarrow> data"
  nd_health :: Response
  nd_metrics :: Response

record occasion =
  oc_now :: instant
  oc_request :: surroundings_of_request
  oc_readings :: readings
  oc_error_id :: string
  oc_trace_id :: string
  oc_span_id :: string
  oc_request_id :: string

text \<open>The S3 routes behind the check of the signature.\<close>

definition api_routes ::
  "('d, 'v, 'r, 'h) node_parts \<Rightarrow> occasion \<Rightarrow> request \<Rightarrow> reader \<Rightarrow> ('r, 'd) AppState \<Rightarrow> Response option \<times> ('r, 'd) AppState" where
  "api_routes P oc rq body st =
     (case validate_sigv4 (nd_crypto P) (cfg_credentials (nd_config P)) (oc_now oc) rq of
        Panicked \<Rightarrow> (None, st)
      | Rejected e \<Rightarrow> (Some (ApiError_into_response (nd_error_xml P) (oc_error_id oc) e), st)
      | Accepted \<Rightarrow>
        (case route_request (nd_axum P) rq body of
           Inl resp \<Rightarrow> (Some resp, st)
         | Inr r \<Rightarrow>
           (case handle_request (nd_services P) (oc_request oc) r st of
              (Inr resp, st') \<Rightarrow> (Some resp, st')
            | (Inl e, st') \<Rightarrow> (Some (ApiError_into_response (nd_error_xml P) (oc_error_id oc) e), st'))))"

section \<open>Routes for health and the cluster\<close>

definition ops_patterns :: "string list" where
  "ops_patterns =
     [''/health'', ''/health/ready'', ''/metrics'', ''/cluster/status'', ''/cluster/initialize'', ''/cluster/members'',
      ''/cluster/members/promote'', ''/cluster/members/{node_id}'', ''/cluster/trigger-elect'']"

definition json_response :: "nat \<Rightarrow> data \<Rightarrow> Response" where
  "json_response s d = \<lparr>rs_status = s, rs_headers = [(''content-type'', ''application/json'')], rs_body = Bytes d\<rparr>"

definition ops_methods :: "string \<Rightarrow> string list" where
  "ops_methods pattern =
     (if pattern \<in> {''/health'', ''/health/ready'', ''/metrics'', ''/cluster/status''} then [''GET'', ''HEAD'']
      else if pattern = ''/cluster/members/{node_id}'' then [''DELETE'']
      else [''POST''])"

text \<open>A handler of the cluster on the Raft instance, which is part of the metadata store.\<close>

definition on_raft ::
  "('d, 'v, 'r, 'h) node_parts \<Rightarrow> ('d \<Rightarrow> nat \<times> MembershipResponse \<times> 'd) \<Rightarrow> ('r, 'd) AppState \<Rightarrow> Response \<times> ('r, 'd) AppState" where
  "on_raft P op st =
     (case op (as_metadata st) of (c, m, d) \<Rightarrow> (json_response c (nd_membership_json P m), st\<lparr>as_metadata := d\<rparr>))"

definition with_json ::
  "axum \<Rightarrow> (string option \<Rightarrow> data \<Rightarrow> 'a option) \<Rightarrow> request \<Rightarrow> reader \<Rightarrow> ('a \<Rightarrow> 's \<Rightarrow> Response \<times> 's) \<Rightarrow> 's \<Rightarrow> Response \<times> 's" where
  "with_json A parse rq body k st =
     (case (rd_end body, parse (header (rq_headers rq) ''content-type'') (rd_bytes body)) of
        (Inr _, Some x) \<Rightarrow> k x st
      | _ \<Rightarrow> (ax_rejection A, st))"

definition ops_routes ::
  "('d, 'v, 'r, 'h) node_parts \<Rightarrow> occasion \<Rightarrow> string \<Rightarrow> string list \<Rightarrow> request \<Rightarrow> reader \<Rightarrow> ('r, 'd) AppState
    \<Rightarrow> Response \<times> ('r, 'd) AppState" where
  "ops_routes P oc pattern params rq body st =
     (let A = nd_axum P; N = nd_raft P; get = (rq_method rq \<in> {''GET'', ''HEAD''}); post = (rq_method rq = ''POST'') in
      if pattern = ''/health'' \<and> get then (nd_health P, st)
      else if pattern = ''/health/ready'' \<and> get then
        (case readiness_check (nd_services P) N (nd_config P) (oc_readings oc) st of
           ((c, status, components), st') \<Rightarrow> (json_response c (nd_readiness_json P status components), st'))
      else if pattern = ''/metrics'' \<and> get then (nd_metrics P, st)
      else if pattern = ''/cluster/status'' \<and> get then
        (case cluster_status N (as_metadata st) of (c, s) \<Rightarrow> (json_response c (nd_status_json P s), st))
      else if pattern = ''/cluster/initialize'' \<and> post then
        with_json A (ax_members_json A) rq body (\<lambda>members. on_raft P (cluster_initialize N members)) st
      else if pattern = ''/cluster/members'' \<and> post then
        with_json A (ax_node_json A) rq body (\<lambda>node. on_raft P (add_learner N node)) st
      else if pattern = ''/cluster/members/promote'' \<and> post then
        with_json A (ax_ids_json A) rq body (\<lambda>ids. on_raft P (promote_voters N ids)) st
      else if pattern = ''/cluster/members/{node_id}'' \<and> rq_method rq = ''DELETE'' then
        (case Option.bind (ax_decode A (hd params)) (ax_node_id A) of
           None \<Rightarrow> (ax_rejection A, st)
         | Some i \<Rightarrow> on_raft P (cluster_remove_node N i) st)
      else if pattern = ''/cluster/trigger-elect'' \<and> post then on_raft P (trigger_elect N) st
      else (ax_not_allowed A (ops_methods pattern), st))"

text \<open>The routes for health and the cluster take precedence; everything else goes to the API.\<close>

definition router ::
  "('d, 'v, 'r, 'h) node_parts \<Rightarrow> occasion \<Rightarrow> request \<Rightarrow> reader \<Rightarrow> ('r, 'd) AppState \<Rightarrow> Response option \<times> ('r, 'd) AppState" where
  "router P oc rq body st =
     (case ax_route (nd_axum P) ops_patterns (rq_path rq) of
        Some (pattern, params) \<Rightarrow> (case ops_routes P oc pattern params rq body st of (resp, st') \<Rightarrow> (Some resp, st'))
      | None \<Rightarrow> api_routes P oc rq body st)"

section \<open>The layers\<close>

definition EXEMPT_PATHS :: "string list" where
  "EXEMPT_PATHS =
     [''/cluster/initialize'', ''/cluster/status'', ''/cluster/members'', ''/cluster/members/promote'', ''/cluster/trigger-elect'',
      ''/health'', ''/health/ready'', ''/metrics'']"

definition is_exempt_from_initialization_check :: "string \<Rightarrow> bool" where
  "is_exempt_from_initialization_check p \<longleftrightarrow>
     p \<in> set EXEMPT_PATHS \<or> (starts_with p ''/cluster/members/'' \<and> p \<noteq> ''/cluster/members/promote'')"

definition require_initialized_cluster ::
  "('d, 'v, 'r, 'h) node_parts \<Rightarrow> occasion \<Rightarrow> string \<Rightarrow> request \<Rightarrow> reader \<Rightarrow> ('r, 'd) AppState \<Rightarrow> Response option \<times> ('r, 'd) AppState" where
  "require_initialized_cluster P oc trace_request_id rq body st =
     (if is_exempt_from_initialization_check (rq_path rq) then router P oc rq body st
      else if is_initialized (nd_raft P) (as_metadata st) then router P oc rq body st
      else
        (let e = with_request_id
               (service_unavailable (oc_error_id oc) ''Cluster is not initialized. Please initialize the cluster first.'')
               trace_request_id in
         (Some \<lparr>rs_status = 503,
            rs_headers = [(''content-type'', ''application/xml''), (''x-amz-request-id'', s3_request_id e)],
            rs_body = Xml (S3Error_to_xml (nd_error_xml P) e)\<rparr>, st)))"

text \<open>The trace headers of \<open>save-common/src/tracing.rs\<close>.\<close>

definition TRACE_ID_HEADER :: string where "TRACE_ID_HEADER = ''x-trace-id''"
definition PARENT_SPAN_HEADER :: string where "PARENT_SPAN_HEADER = ''x-parent-span-id''"
definition REQUEST_ID_HEADER :: string where "REQUEST_ID_HEADER = ''x-request-id''"

definition should_forward_header :: "string \<Rightarrow> bool" where
  "should_forward_header name \<longleftrightarrow>
     (let lower = to_lowercase name in
      lower \<in> {''content-type'', ''content-length'', ''authorization'', ''x-amz-date'', ''x-amz-content-sha256'',
               ''x-amz-decoded-content-length'', ''x-amz-meta-'', ''host''}
      \<or> starts_with lower ''x-amz-'' \<or> lower = TRACE_ID_HEADER \<or> lower = PARENT_SPAN_HEADER \<or> lower = REQUEST_ID_HEADER)"

definition is_already_forwarded :: "(string \<times> string) list \<Rightarrow> bool" where
  "is_already_forwarded hs \<longleftrightarrow> map_of hs ''x-forwarded-by'' \<noteq> None"

definition is_write_method :: "string \<Rightarrow> bool" where
  "is_write_method m \<longleftrightarrow> m \<in> {''PUT'', ''POST'', ''DELETE'', ''PATCH''}"

datatype ForwardError = BodyRead string | ForwardRequest string | ResponseRead string | InvalidUri string

fun ForwardError_to_string :: "ForwardError \<Rightarrow> string" where
  "ForwardError_to_string (BodyRead e) = ''failed to read request body: '' @ e"
| "ForwardError_to_string (ForwardRequest e) = ''forward request failed: '' @ e"
| "ForwardError_to_string (ResponseRead e) = ''failed to read response body: '' @ e"
| "ForwardError_to_string (InvalidUri e) = ''invalid target URI: '' @ e"

definition ForwardError_into_response :: "ForwardError \<Rightarrow> Response" where
  "ForwardError_into_response e =
     \<lparr>rs_status = 502, rs_headers = [(''content-type'', ''application/xml'')],
      rs_body = Xml (''<?xml version='' @ debug_str ''1.0'' @ '' encoding='' @ debug_str ''UTF-8'' @ ''?>'' @ [CHR 0x0A]
        @ ''<Error>'' @ [CHR 0x0A] @ ''    <Code>ServiceUnavailable</Code>'' @ [CHR 0x0A]
        @ ''    <Message>'' @ ForwardError_to_string e @ ''</Message>'' @ [CHR 0x0A] @ ''</Error>'')\<rparr>"

text \<open>
  The client to the leader: the parser of addresses and the transport, which is given the method, the
  text of the target, the headers and the body and nothing else of the request, and which changes the
  state of the other nodes.
\<close>

record 'w ForwardingClient =
  fc_parse_uri :: "string \<Rightarrow> string + string"
  fc_send :: "string \<Rightarrow> string \<Rightarrow> (string \<times> string) list \<Rightarrow> data \<Rightarrow> 'w \<Rightarrow> (string + nat \<times> (string \<times> string) list \<times> (string + data)) \<times> 'w"

definition build_target_uri :: "'w ForwardingClient \<Rightarrow> string \<Rightarrow> request \<Rightarrow> ForwardError + string" where
  "build_target_uri F leader_addr rq =
     (let path_and_query = rq_path rq @ (case rq_query rq of Some q \<Rightarrow> ''?'' @ q | None \<Rightarrow> []) in
      case fc_parse_uri F (leader_addr @ path_and_query) of
        Inl e \<Rightarrow> Inl (InvalidUri e)
      | Inr uri \<Rightarrow> Inr uri)"

definition forwarded_headers :: "(string \<times> string) list \<Rightarrow> (string \<times> string) list" where
  "forwarded_headers hs =
     filter (\<lambda>(name, v). to_str v \<noteq> None \<and> should_forward_header name) hs @ [(''x-forwarded-by'', ''save-node'')]"

text \<open>\<open>HeaderMap::insert\<close> replaces the values of a name.\<close>

definition insert_header :: "string \<Rightarrow> string \<Rightarrow> (string \<times> string) list \<Rightarrow> (string \<times> string) list" where
  "insert_header name v hs = filter (\<lambda>(n, _). n \<noteq> name) hs @ [(name, v)]"

definition forward :: "'w ForwardingClient \<Rightarrow> string \<Rightarrow> request \<Rightarrow> reader \<Rightarrow> 'w \<Rightarrow> (ForwardError + Response) \<times> 'w" where
  "forward F leader_addr rq body w =
     (case rd_end body of
        Inl e \<Rightarrow> (Inl (BodyRead (io_msg e)), w)
      | Inr _ \<Rightarrow>
        (case build_target_uri F leader_addr rq of
           Inl e \<Rightarrow> (Inl e, w)
         | Inr uri \<Rightarrow>
           (case fc_send F (rq_method rq) uri (forwarded_headers (rq_headers rq)) (rd_bytes body) w of
              (Inl e, w') \<Rightarrow> (Inl (ForwardRequest e), w')
            | (Inr (_, _, Inl e), w') \<Rightarrow> (Inl (ResponseRead e), w')
            | (Inr (status, hs, Inr bytes), w') \<Rightarrow>
              (Inr \<lparr>rs_status = (if 100 \<le> status \<and> status \<le> 999 then status else 500),
                    rs_headers = insert_header ''x-forwarded-from'' (if header_value leader_addr then leader_addr else ''unknown'')
                      (foldl (\<lambda>acc (n, v). insert_header n v acc) [] hs),
                    rs_body = Bytes bytes\<rparr>, w'))))"

definition forward_to_leader ::
  "('d, 'v, 'r, 'h) node_parts \<Rightarrow> 'w ForwardingClient \<Rightarrow> occasion \<Rightarrow> string \<Rightarrow> request \<Rightarrow> reader \<Rightarrow> ('r, 'd) AppState \<Rightarrow> 'w
    \<Rightarrow> Response option \<times> ('r, 'd) AppState \<times> 'w" where
  "forward_to_leader P F oc trace_request_id rq body st w =
     (let next = (case require_initialized_cluster P oc trace_request_id rq body st of (resp, st') \<Rightarrow> (resp, st', w)); N = nd_raft P in
      if rq_path rq \<in> {''/metrics'', ''/health'', ''/health/ready'', ''/cluster/status''} then next
      else if \<not> is_write_method (rq_method rq) then next
      else if is_already_forwarded (rq_headers rq) then next
      else if is_leader N (as_metadata st) then next
      else
        (case node_leader_http_addr N (as_metadata st) of
           None \<Rightarrow> next
         | Some leader_addr \<Rightarrow>
           (case forward F leader_addr rq body w of
              (Inr resp, w') \<Rightarrow> (Some resp, st, w')
            | (Inl e, w') \<Rightarrow> (Some (ForwardError_into_response e), st, w'))))"

text \<open>The number of requests that are being served.\<close>

record ('r, 'd) server =
  sr_state :: "('r, 'd) AppState"
  sr_in_flight :: u64

text \<open>A handler that panics leaves the count as it is.\<close>

definition track_requests ::
  "('d, 'v, 'r, 'h) node_parts \<Rightarrow> 'w ForwardingClient \<Rightarrow> occasion \<Rightarrow> string \<Rightarrow> request \<Rightarrow> reader \<Rightarrow> ('r, 'd) server \<Rightarrow> 'w
    \<Rightarrow> Response option \<times> ('r, 'd) server \<times> 'w" where
  "track_requests P F oc trace_request_id rq body s w =
     (let should_track = (rq_path rq \<notin> {''/metrics'', ''/health'', ''/health/ready''});
          s1 = (if should_track then s\<lparr>sr_in_flight := sr_in_flight s + 1\<rparr> else s) in
      case forward_to_leader P F oc trace_request_id rq body (sr_state s1) w of
        (resp, st, w') \<Rightarrow>
          (let s2 = s1\<lparr>sr_state := st\<rparr> in
           (resp, if should_track \<and> resp \<noteq> None then s2\<lparr>sr_in_flight := sr_in_flight s2 - 1\<rparr> else s2, w')))"

text \<open>The endpoint under which a request is counted.\<close>

definition normalize_endpoint :: "string \<Rightarrow> string" where
  "normalize_endpoint p =
     (if p = ''/health'' then ''/health''
      else if p = ''/metrics'' then ''/metrics''
      else if p = ''/'' then ''/''
      else if count_list p CHR ''/'' = 1 then ''/{bucket}''
      else ''/{bucket}/{key}'')"

record TraceContext =
  tc_trace_id :: string
  tc_span_id :: string
  tc_parent_span_id :: "string option"
  tc_request_id :: string

definition trace_context_from_headers :: "occasion \<Rightarrow> (string \<times> string) list \<Rightarrow> TraceContext" where
  "trace_context_from_headers oc hs =
     \<lparr>tc_trace_id = (case header hs TRACE_ID_HEADER of Some v \<Rightarrow> v | None \<Rightarrow> oc_trace_id oc),
      tc_span_id = oc_span_id oc,
      tc_parent_span_id = header hs PARENT_SPAN_HEADER,
      tc_request_id = (case header hs REQUEST_ID_HEADER of Some v \<Rightarrow> v | None \<Rightarrow> oc_request_id oc)\<rparr>"

definition add_trace_headers :: "TraceContext \<Rightarrow> (string \<times> string) list \<Rightarrow> (string \<times> string) list" where
  "add_trace_headers tc hs =
     foldl (\<lambda>acc (n, v). if header_value v then insert_header n v acc else acc) hs
       [(REQUEST_ID_HEADER, tc_request_id tc), (TRACE_ID_HEADER, tc_trace_id tc), (PARENT_SPAN_HEADER, tc_span_id tc)]"

text \<open>The whole node: a response (none if the handler panics) and the new state.\<close>

definition app ::
  "('d, 'v, 'r, 'h) node_parts \<Rightarrow> 'w ForwardingClient \<Rightarrow> occasion \<Rightarrow> request \<Rightarrow> reader \<Rightarrow> ('r, 'd) server \<Rightarrow> 'w
    \<Rightarrow> Response option \<times> ('r, 'd) server \<times> 'w" where
  "app P F oc rq body s w =
     (let tc = trace_context_from_headers oc (rq_headers rq) in
      case track_requests P F oc (tc_request_id tc) rq body s w of
        (resp, s', w') \<Rightarrow> (map_option (\<lambda>r. r\<lparr>rs_headers := add_trace_headers tc (rs_headers r)\<rparr>) resp, s', w'))"

section \<open>Lemmas\<close>

text \<open>What the leader reads from a forwarded request.\<close>

definition readable_headers :: "request \<Rightarrow> bool" where
  "readable_headers rq \<longleftrightarrow> list_all (\<lambda>(n, v). should_forward_header n \<longrightarrow> to_str v \<noteq> None) (rq_headers rq)"

lemma to_lowercase_idem: "to_lowercase (to_lowercase s) = to_lowercase s"
  by (simp add: to_lowercase_def ascii_lower_def)

lemma should_forward_lower: "should_forward_header (to_lowercase n) = should_forward_header n"
  by (simp add: should_forward_header_def to_lowercase_idem)

lemma marker_not_forwarded: "\<not> should_forward_header ''x-forwarded-by''"
  by code_simp

lemma map_of_filter_readable:
  "list_all (\<lambda>(n, v). should_forward_header n \<longrightarrow> to_str v \<noteq> None) hs \<Longrightarrow> should_forward_header k \<Longrightarrow>
   map_of (filter (\<lambda>(n, v). to_str v \<noteq> None \<and> should_forward_header n) hs) k = map_of hs k"
  by (induction hs) auto

text \<open>The request that the leader should see.\<close>

definition forwarded_request :: "request \<Rightarrow> request" where
  "forwarded_request rq = rq\<lparr>rq_headers := forwarded_headers (rq_headers rq)\<rparr>"

lemma header_forwarded:
  assumes "readable_headers rq" and "should_forward_header n"
  shows "header (rq_headers (forwarded_request rq)) n = header (rq_headers rq) n"
proof -
  let ?k = "to_lowercase n"
  have k: "should_forward_header ?k" using assms(2) by (simp only: should_forward_lower)
  then have "?k \<noteq> ''x-forwarded-by''" using marker_not_forwarded by metis
  then have "map_of (rq_headers (forwarded_request rq)) ?k = map_of (rq_headers rq) ?k"
    using map_of_filter_readable [OF assms(1) [unfolded readable_headers_def] k]
    by (simp add: forwarded_request_def forwarded_headers_def map_add_def split: option.splits)
  then show ?thesis by (simp add: header_def)
qed

lemma forwarded_names:
  "should_forward_header ''authorization''" "should_forward_header ''x-amz-date''" "should_forward_header ''x-amz-content-sha256''"
  "should_forward_header ''content-type''" "should_forward_header TRACE_ID_HEADER" "should_forward_header PARENT_SPAN_HEADER"
  "should_forward_header REQUEST_ID_HEADER"
  by code_simp+

lemma forwarded_request_simps [simp]:
  "rq_method (forwarded_request rq) = rq_method rq" "rq_path (forwarded_request rq) = rq_path rq"
  "rq_query (forwarded_request rq) = rq_query rq"
  by (simp_all add: forwarded_request_def)

lemma forwarded_is_marked: "is_already_forwarded (rq_headers (forwarded_request rq))"
  by (simp add: is_already_forwarded_def forwarded_request_def forwarded_headers_def)

text \<open>The headers a request signs, if it can be read at all, are among those that are forwarded.\<close>

definition signs_forwarded :: "request \<Rightarrow> bool" where
  "signs_forwarded rq \<longleftrightarrow>
     (case header (rq_headers rq) ''authorization'' of
        None \<Rightarrow> True
      | Some h \<Rightarrow>
        (case parse_authorization_header h of
           Inl _ \<Rightarrow> True
         | Inr info \<Rightarrow> list_all should_forward_header (ai_signed_headers info)))"

lemma signed_header_map_forwarded:
  assumes "readable_headers rq" and "list_all should_forward_header names"
  shows "signed_header_map (rq_headers (forwarded_request rq)) names = signed_header_map (rq_headers rq) names"
  unfolding signed_header_map_def using assms(2)
  by (intro foldl_cong refl) (simp add: list_all_iff header_forwarded [OF assms(1)])

lemma canonical_request_forwarded:
  assumes "readable_headers rq" and "list_all should_forward_header names"
  shows "build_canonical_request m p q (rq_headers (forwarded_request rq)) names h = build_canonical_request m p q (rq_headers rq) names h"
  using signed_header_map_forwarded [OF assms] by (simp add: build_canonical_request_def canonical_header_lines_def)

lemma sigv4_forwarded:
  assumes "readable_headers rq" and "signs_forwarded rq"
  shows "validate_sigv4 cr cred now (forwarded_request rq) = validate_sigv4 cr cred now rq"
proof (cases "\<exists>h info. header (rq_headers rq) ''authorization'' = Some h \<and> parse_authorization_header h = Inr info")
  case True
  then obtain h info where h: "header (rq_headers rq) ''authorization'' = Some h" "parse_authorization_header h = Inr info" by blast
  with assms(2) have "list_all should_forward_header (ai_signed_headers info)" by (simp add: signs_forwarded_def)
  note c = canonical_request_forwarded [OF assms(1) this]
  show ?thesis unfolding validate_sigv4_def header_forwarded [OF assms(1) forwarded_names(1)] header_forwarded [OF assms(1) forwarded_names(2)]
      header_forwarded [OF assms(1) forwarded_names(3)] forwarded_request_simps h option.case sum.case c ..
next
  case False
  then consider "header (rq_headers rq) ''authorization'' = None"
    | h e where "header (rq_headers rq) ''authorization'' = Some h" "parse_authorization_header h = Inl e"
    by (metis not_None_eq obj_sumE)
  then show ?thesis unfolding validate_sigv4_def header_forwarded [OF assms(1) forwarded_names(1)]
    by cases (simp_all only: option.case sum.case)
qed

lemma route_request_forwarded:
  "readable_headers rq \<Longrightarrow> route_request A (forwarded_request rq) body = route_request A rq body"
  unfolding route_request_def bucket_routes_def object_routes_def initiate_or_complete_def
  by (simp only: forwarded_request_simps header_forwarded forwarded_names)

lemma ops_routes_forwarded:
  "readable_headers rq \<Longrightarrow> ops_routes P oc pattern params (forwarded_request rq) body st = ops_routes P oc pattern params rq body st"
  unfolding ops_routes_def with_json_def by (simp only: forwarded_request_simps header_forwarded forwarded_names)

lemma layers_forwarded:
  assumes "readable_headers rq" and "signs_forwarded rq"
  shows "require_initialized_cluster P oc i (forwarded_request rq) body st = require_initialized_cluster P oc i rq body st"
  unfolding require_initialized_cluster_def router_def api_routes_def
  by (simp only: forwarded_request_simps sigv4_forwarded [OF assms] route_request_forwarded [OF assms(1)] ops_routes_forwarded [OF assms(1)])

text \<open>The leader treats a forwarded request like the request itself.\<close>

lemma app_forwarded:
  assumes "readable_headers rq" and "signs_forwarded rq" and "is_leader (nd_raft P) (as_metadata (sr_state s))"
  shows "app P F oc (forwarded_request rq) body s w = app P F oc rq body s w"
proof -
  have "forward_to_leader P F oc i (forwarded_request rq) body (sr_state s) w = forward_to_leader P F oc i rq body (sr_state s) w" for i
    using assms(3) by (simp add: forward_to_leader_def layers_forwarded [OF assms(1,2)] forwarded_is_marked Let_def)
  moreover have "trace_context_from_headers oc (rq_headers (forwarded_request rq)) = trace_context_from_headers oc (rq_headers rq)"
    unfolding trace_context_from_headers_def by (simp only: header_forwarded [OF assms(1)] forwarded_names)
  ultimately show ?thesis by (simp add: app_def track_requests_def Let_def)
qed

text \<open>A path without parameters in the list of routes is found.\<close>

definition static_routes :: "axum \<Rightarrow> bool" where
  "static_routes A \<longleftrightarrow> list_all (\<lambda>p. CHR ''{'' \<in> set p \<or> ax_route A ops_patterns p = Some (p, [])) ops_patterns"

lemma static_routes_found:
  "static_routes A \<Longrightarrow> p \<in> set EXEMPT_PATHS \<Longrightarrow> ax_route A ops_patterns p = Some (p, [])"
  unfolding static_routes_def ops_patterns_def EXEMPT_PATHS_def by auto

lemma api_routes_change:
  assumes "api_routes P oc rq body st = (resp, st')" and "st' \<noteq> st"
  shows "validate_sigv4 (nd_crypto P) (cfg_credentials (nd_config P)) (oc_now oc) rq = Accepted
    \<and> (\<exists>r. route_request (nd_axum P) rq body = Inr r \<and> st' = snd (handle_request (nd_services P) (oc_request oc) r st))"
  using assms unfolding api_routes_def by (auto split: auth_outcome.splits sum.splits prod.splits)

lemma initialized_or_exempt:
  assumes "require_initialized_cluster P oc i rq body st = (resp, st')" and "st' \<noteq> st"
  shows "router P oc rq body st = (resp, st')
    \<and> (is_initialized (nd_raft P) (as_metadata st) \<or> is_exempt_from_initialization_check (rq_path rq))"
  using assms unfolding require_initialized_cluster_def by (auto simp: Let_def split: if_splits)

lemma handled_here:
  assumes "forward_to_leader P F oc i rq body st w = (resp, st', w')" and "st' \<noteq> st"
  shows "require_initialized_cluster P oc i rq body st = (resp, st') \<and> w' = w
    \<and> (rq_path rq \<in> {''/metrics'', ''/health'', ''/health/ready'', ''/cluster/status''} \<or> \<not> is_write_method (rq_method rq)
       \<or> is_already_forwarded (rq_headers rq) \<or> is_leader (nd_raft P) (as_metadata st)
       \<or> node_leader_http_addr (nd_raft P) (as_metadata st) = None)"
  using assms unfolding forward_to_leader_def
  by (auto simp: Let_def split: if_splits option.splits prod.splits sum.splits)

lemma app_state:
  assumes "app P F oc rq body s w = (resp, s', w')"
  obtains i resp' where "forward_to_leader P F oc i rq body (sr_state s) w = (resp', sr_state s', w')"
  using assms unfolding app_def track_requests_def
  by (auto simp: Let_def split: prod.splits if_splits)

section \<open>The form of the answers\<close>

definition valid_status :: "Response \<Rightarrow> bool" where
  "valid_status r \<longleftrightarrow> 100 \<le> rs_status r \<and> rs_status r \<le> 999"

text \<open>The answers of the framework and of the handlers that are parameters have a status of HTTP.\<close>

definition framework_ok :: "('d, 'v, 'r, 'h) node_parts \<Rightarrow> bool" where
  "framework_ok P \<longleftrightarrow> valid_status (ax_rejection (nd_axum P)) \<and> (\<forall>ms. valid_status (ax_not_allowed (nd_axum P) ms))
     \<and> valid_status (nd_health P) \<and> valid_status (nd_metrics P)"

lemma s3_valid_status: "s3_success r \<Longrightarrow> valid_status r" "s3_failure r \<Longrightarrow> valid_status r"
  by (auto simp: s3_success_def s3_failure_def valid_status_def)

lemma status_only_valid [simp]: "valid_status (status_only n) \<longleftrightarrow> 100 \<le> n \<and> n \<le> 999"
  by (simp add: status_only_def valid_status_def)

lemma json_response_valid [simp]: "valid_status (json_response n d) \<longleftrightarrow> 100 \<le> n \<and> n \<le> 999"
  by (simp add: json_response_def valid_status_def)

text \<open>
  The answers that are no documents of the interface: the path is no route; the method is none of the
  route; the framework refuses the arguments in the path or in the query; or a \<open>POST\<close> on an object
  names neither \<open>uploads\<close> nor an upload, which \<open>initiate_or_complete\<close> answers with a bare status.
\<close>

definition unusable_arguments :: "axum \<Rightarrow> request \<Rightarrow> bool" where
  "unusable_arguments A rq \<longleftrightarrow>
     (case ax_route A api_patterns (rq_path rq) of
        None \<Rightarrow> False
      | Some (_, params) \<Rightarrow> those (map (ax_decode A) params) = None \<or> length params \<notin> {1, 2})
     \<or> (rq_method rq = ''GET'' \<and> ax_bucket_query A (rq_query rq) = None)
     \<or> (rq_method rq \<in> {''PUT'', ''DELETE'', ''POST''} \<and> ax_multipart_query A (rq_query rq) = None)
     \<or> (rq_method rq = ''POST'' \<and> ax_initiate_query A (rq_query rq) = None)"

definition names_no_upload :: "axum \<Rightarrow> request \<Rightarrow> bool" where
  "names_no_upload A rq \<longleftrightarrow>
     rq_method rq = ''POST'' \<and> map_option mp_upload_id (ax_multipart_query A (rq_query rq)) = Some None
     \<and> map_option iq_uploads (ax_initiate_query A (rq_query rq)) = Some None"

definition bare_answer :: "axum \<Rightarrow> request \<Rightarrow> Response \<Rightarrow> bool" where
  "bare_answer A rq r \<longleftrightarrow>
     r = status_only 404 \<and> ax_route A api_patterns (rq_path rq) = None
     \<or> (\<exists>ms. r = ax_not_allowed A ms \<and> rq_method rq \<notin> set ms)
     \<or> r = ax_rejection A \<and> unusable_arguments A rq
     \<or> r = status_only 400 \<and> names_no_upload A rq"

lemma those_length: "those xs = Some ys \<Longrightarrow> length ys = length xs"
  by (induction xs arbitrary: ys) (auto split: option.splits)

lemma bucket_routes_rejects:
  assumes "bucket_routes A bucket rq = Inl resp"
  shows "(\<exists>ms. resp = ax_not_allowed A ms \<and> rq_method rq \<notin> set ms) \<or> resp = ax_rejection A \<and> unusable_arguments A rq"
proof (cases "rq_method rq \<in> {''PUT'', ''DELETE'', ''GET'', ''HEAD''}")
  case True
  with assms show ?thesis
    by (auto simp: bucket_routes_def get_bucket_handler_def unusable_arguments_def split: option.splits if_splits)
next
  case False
  with assms have "resp = ax_not_allowed A [''PUT'', ''DELETE'', ''GET'', ''HEAD'']" by (simp add: bucket_routes_def)
  with False show ?thesis by (intro disjI1 exI [of _ "[''PUT'', ''DELETE'', ''GET'', ''HEAD'']"]) simp
qed

lemma object_routes_rejects:
  assumes "object_routes A bucket key rq body = Inl resp"
  shows "(\<exists>ms. resp = ax_not_allowed A ms \<and> rq_method rq \<notin> set ms) \<or> resp = ax_rejection A \<and> unusable_arguments A rq
    \<or> resp = status_only 400 \<and> names_no_upload A rq"
proof (cases "rq_method rq \<in> {''GET'', ''PUT'', ''DELETE'', ''HEAD'', ''POST''}")
  case True
  with assms show ?thesis
    by (auto simp: object_routes_def put_or_upload_part_def delete_or_abort_def initiate_or_complete_def unusable_arguments_def
        names_no_upload_def split: option.splits if_splits prod.splits)
next
  case False
  with assms have "resp = ax_not_allowed A [''GET'', ''PUT'', ''DELETE'', ''HEAD'', ''POST'']" by (simp add: object_routes_def)
  with False show ?thesis by (intro disjI1 exI [of _ "[''GET'', ''PUT'', ''DELETE'', ''HEAD'', ''POST'']"]) simp
qed

lemma route_request_bare:
  assumes "route_request A rq body = Inl resp"
  shows "bare_answer A rq resp"
proof (cases "ax_route A api_patterns (rq_path rq)")
  case None
  with assms show ?thesis by (simp add: route_request_def bare_answer_def)
next
  case (Some pp)
  obtain pattern params where pp: "pp = (pattern, params)" by (cases pp)
  show ?thesis
  proof (cases "pattern = ''/''")
    case True
    with assms Some pp have "resp = ax_not_allowed A [''GET'', ''HEAD'']" "rq_method rq \<notin> set [''GET'', ''HEAD'']"
      by (simp_all add: route_request_def split: if_splits)
    then show ?thesis unfolding bare_answer_def by blast
  next
    case False
    consider "those (map (ax_decode A) params) = None \<or> length params \<notin> {1, 2}"
      | b where "those (map (ax_decode A) params) = Some [b]"
      | b k where "those (map (ax_decode A) params) = Some [b, k]"
    proof (cases "those (map (ax_decode A) params)")
      case (Some ys)
      then have "length ys = length params" by (simp add: those_length)
      with Some that show ?thesis by (cases ys; cases "tl ys"; cases "tl (tl ys)") auto
    qed (use that in blast)
    then show ?thesis
    proof cases
      case 1
      then have "unusable_arguments A rq" using Some pp by (simp add: unusable_arguments_def)
      moreover have "resp = ax_rejection A"
        using 1 assms Some pp False by (auto simp: route_request_def dest!: those_length split: option.splits list.splits)
      ultimately show ?thesis by (simp add: bare_answer_def)
    next
      case (2 b)
      with assms Some pp False have "bucket_routes A b rq = Inl resp" by (simp add: route_request_def)
      from bucket_routes_rejects [OF this] show ?thesis unfolding bare_answer_def by blast
    next
      case (3 b k)
      with assms Some pp False have "object_routes A b k rq body = Inl resp" by (simp add: route_request_def)
      from object_routes_rejects [OF this] show ?thesis unfolding bare_answer_def by blast
    qed
  qed
qed

lemma route_request_rejects:
  "framework_ok P \<Longrightarrow> route_request (nd_axum P) rq body = Inl resp \<Longrightarrow> valid_status resp"
  using route_request_bare [of "nd_axum P" rq body resp] by (auto simp: framework_ok_def bare_answer_def)

lemma api_routes_form:
  assumes "api_routes P oc rq body st = (Some resp, st')"
  shows "(framework_ok P \<longrightarrow> valid_status resp)
    \<and> (s3_success resp \<or> s3_failure resp \<or> bare_answer (nd_axum P) rq resp)"
proof (cases "validate_sigv4 (nd_crypto P) (cfg_credentials (nd_config P)) (oc_now oc) rq")
  case Accepted
  show ?thesis
  proof (cases "route_request (nd_axum P) rq body")
    case (Inl e)
    with Accepted assms show ?thesis by (auto simp: api_routes_def dest: route_request_rejects route_request_bare)
  next
    case (Inr r)
    obtain x st1 where h: "handle_request (nd_services P) (oc_request oc) r st = (x, st1)" by fastforce
    have "s3_success resp \<or> s3_failure resp"
    proof (cases x)
      case (Inl e)
      with Accepted Inr h assms show ?thesis by (auto simp: api_routes_def error_answers)
    next
      case (Inr y)
      with \<open>route_request (nd_axum P) rq body = Inr r\<close> Accepted h assms
      show ?thesis using request_answers [of "nd_services P" "oc_request oc" r]
        by (auto simp: api_routes_def answersE_def)
    qed
    then show ?thesis using s3_valid_status by blast
  qed
next
  case (Rejected e)
  with assms show ?thesis by (auto simp: api_routes_def intro: s3_valid_status error_answers)
qed (use assms in \<open>simp add: api_routes_def\<close>)

lemma cluster_statuses:
  "add_learner N n g = (c, m, g') \<Longrightarrow> c \<in> {200, 400, 421, 500}"
  "promote_voters N ids g = (c, m, g') \<Longrightarrow> c \<in> {200, 400, 421, 500}"
  "cluster_remove_node N i g = (c, m, g') \<Longrightarrow> c \<in> {200, 400, 421, 500}"
  "trigger_elect N g = (c, m, g') \<Longrightarrow> c \<in> {200, 400, 421, 500}"
  by (auto simp: add_learner_def promote_voters_def cluster_remove_node_def trigger_elect_def Let_def
      split: if_splits sum.splits prod.splits)

lemma initialize_statuses: "cluster_initialize N ms g = (c, m, g') \<Longrightarrow> c \<in> {200, 400, 409, 500}"
  by (auto simp: cluster_initialize_def Let_def split: if_splits sum.splits option.splits prod.splits)

lemma on_raft_form:
  assumes "on_raft P op st = (resp, st')" and "\<And>g c m g'. op g = (c, m, g') \<Longrightarrow> 100 \<le> c \<and> c \<le> 999"
  shows "valid_status resp"
  using assms by (auto simp: on_raft_def split: prod.splits)

lemma with_json_form:
  assumes "with_json A parse rq body k st = (resp, st')" and "valid_status (ax_rejection A)"
    and "\<And>x. k x st = (resp, st') \<Longrightarrow> valid_status resp"
  shows "valid_status resp"
  using assms by (auto simp: with_json_def split: sum.splits option.splits)

lemma raft_routes_form:
  "on_raft P (cluster_initialize N ms) st = (resp, st') \<Longrightarrow> valid_status resp"
  "on_raft P (add_learner N n) st = (resp, st') \<Longrightarrow> valid_status resp"
  "on_raft P (promote_voters N ids) st = (resp, st') \<Longrightarrow> valid_status resp"
  "on_raft P (cluster_remove_node N i) st = (resp, st') \<Longrightarrow> valid_status resp"
  "on_raft P (trigger_elect N) st = (resp, st') \<Longrightarrow> valid_status resp"
  by (erule on_raft_form; auto dest!: cluster_statuses initialize_statuses)+

lemma ops_routes_form:
  assumes "framework_ok P" and "ops_routes P oc pattern params rq body st = (resp, st')"
  shows "valid_status resp"
proof -
  note f = assms(1) [unfolded framework_ok_def]
  have j: "valid_status resp" if "with_json (nd_axum P) parse rq body k st = (resp, st')"
    "\<And>x. k x st = (resp, st') \<Longrightarrow> valid_status resp" for parse k
    using with_json_form [OF that(1)] f that(2) by blast
  have r: "valid_status resp" if "(case readiness_check (nd_services P) (nd_raft P) (nd_config P) (oc_readings oc) st of
      ((c, status, components), st') \<Rightarrow> (json_response c (nd_readiness_json P status components), st')) = (resp, st')"
    using that by (auto simp: readiness_check_def Let_def split: prod.splits if_splits)
  show ?thesis
    using assms(2) f r unfolding ops_routes_def Let_def
    by (auto simp: cluster_status_def split: if_splits option.splits elim!: j dest: raft_routes_form)
qed

lemma layers_form:
  assumes "framework_ok P" and "require_initialized_cluster P oc i rq body st = (Some resp, st')"
  shows "valid_status resp
    \<and> (ax_route (nd_axum P) ops_patterns (rq_path rq) = None \<longrightarrow>
         s3_success resp \<or> s3_failure resp \<or> bare_answer (nd_axum P) rq resp)"
proof (cases "is_exempt_from_initialization_check (rq_path rq) \<or> is_initialized (nd_raft P) (as_metadata st)")
  case True
  with assms(2) have r: "router P oc rq body st = (Some resp, st')" by (auto simp: require_initialized_cluster_def split: if_splits)
  show ?thesis
  proof (cases "ax_route (nd_axum P) ops_patterns (rq_path rq)")
    case None
    with r api_routes_form [of P oc rq body st resp st'] assms(1) show ?thesis by (auto simp: router_def)
  next
    case (Some p)
    with r ops_routes_form [OF assms(1)] show ?thesis by (cases p) (auto simp: router_def split: prod.splits)
  qed
next
  case False
  with assms(2) have "s3_failure resp" by (auto simp: require_initialized_cluster_def Let_def s3_failure_def)
  then show ?thesis using s3_valid_status by blast
qed

text \<open>When a node hands a request on.\<close>

definition forwards :: "('d, 'v, 'r, 'h) node_parts \<Rightarrow> request \<Rightarrow> ('r, 'd) AppState \<Rightarrow> bool" where
  "forwards P rq st \<longleftrightarrow> rq_path rq \<notin> {''/metrics'', ''/health'', ''/health/ready'', ''/cluster/status''}
     \<and> is_write_method (rq_method rq) \<and> \<not> is_already_forwarded (rq_headers rq) \<and> \<not> is_leader (nd_raft P) (as_metadata st)
     \<and> node_leader_http_addr (nd_raft P) (as_metadata st) \<noteq> None"

lemma forward_form: "forward F addr rq body w = (Inr resp, w') \<Longrightarrow> valid_status resp"
  by (auto simp: forward_def valid_status_def split: sum.splits prod.splits)

lemma forward_error_form: "valid_status (ForwardError_into_response e)"
  by (simp add: ForwardError_into_response_def valid_status_def)

lemma forward_to_leader_form:
  assumes "framework_ok P" and "forward_to_leader P F oc i rq body st w = (Some resp, st', w')"
  shows "valid_status resp
    \<and> (ax_route (nd_axum P) ops_patterns (rq_path rq) = None \<longrightarrow> \<not> forwards P rq st \<longrightarrow>
         s3_success resp \<or> s3_failure resp \<or> bare_answer (nd_axum P) rq resp)"
proof (cases "forwards P rq st")
  case True
  then obtain addr where "(case forward F addr rq body w of
      (Inr resp, w') \<Rightarrow> (Some resp, st, w') | (Inl e, w') \<Rightarrow> (Some (ForwardError_into_response e), st, w')) = (Some resp, st', w')"
    using assms(2) unfolding forwards_def forward_to_leader_def Let_def by (auto split: option.splits)
  then have "valid_status resp"
    by (cases "forward F addr rq body w"; cases "fst (forward F addr rq body w)") (auto intro: forward_form forward_error_form)
  with True show ?thesis by blast
next
  case False
  then have "require_initialized_cluster P oc i rq body st = (Some resp, st')"
    using assms(2) unfolding forwards_def forward_to_leader_def Let_def by (auto split: if_splits option.splits prod.splits)
  from layers_form [OF assms(1) this] show ?thesis by blast
qed

lemma insert_header_other: "n \<noteq> name \<Longrightarrow> map_of (insert_header name v hs) n = map_of hs n"
  by (induction hs) (auto simp: insert_header_def)

lemma insert_header_same: "map_of (insert_header name v hs) name = Some v"
  by (induction hs) (auto simp: insert_header_def)

lemma trace_headers_other:
  "n \<notin> {REQUEST_ID_HEADER, TRACE_ID_HEADER, PARENT_SPAN_HEADER} \<Longrightarrow> map_of (add_trace_headers tc hs) n = map_of hs n"
  by (simp add: add_trace_headers_def insert_header_other)

lemma trace_headers_request_id:
  "header_value (tc_request_id tc) \<Longrightarrow> map_of (add_trace_headers tc hs) REQUEST_ID_HEADER = Some (tc_request_id tc)"
  by (simp add: add_trace_headers_def insert_header_other insert_header_same REQUEST_ID_HEADER_def TRACE_ID_HEADER_def PARENT_SPAN_HEADER_def)

lemma app_answer:
  assumes "app P F oc rq body s w = (Some resp, s', w')"
  obtains r i st w1 where "forward_to_leader P F oc i rq body (sr_state s) w = (Some r, st, w1)"
    and "resp = r\<lparr>rs_headers := add_trace_headers (trace_context_from_headers oc (rq_headers rq)) (rs_headers r)\<rparr>"
  using assms by (auto simp: app_def track_requests_def Let_def split: prod.splits if_splits)

lemma app_valid_status:
  assumes "framework_ok P" and "app P F oc rq body s w = (Some resp, s', w')"
  shows "valid_status resp"
proof -
  obtain r i st w1 where r: "forward_to_leader P F oc i rq body (sr_state s) w = (Some r, st, w1)"
    and "resp = r\<lparr>rs_headers := add_trace_headers (trace_context_from_headers oc (rq_headers rq)) (rs_headers r)\<rparr>"
    using assms(2) by (rule app_answer)
  with forward_to_leader_form [OF assms(1) r] show ?thesis by (simp add: valid_status_def)
qed

section \<open>Properties\<close>

text \<open>
  C40: Every answer of a node has the form the protocol asks for. Its status is one of HTTP and it
  carries the identifier of the request. The answer to a request for the S3 interface that the node
  handles itself is a success, with status 200 or with status 204 and no body, or an error with a
  status of the interface and an XML document that is labelled as such, with four exceptions that have
  status and body of a bare answer: no route for the path (404), a method that the route does not have
  and arguments that the framework refuses, both answered by the framework, and a \<open>POST\<close> on an object
  that names neither \<open>uploads\<close> nor an upload, which the node answers with status 400 and no document.
\<close>

theorem answers_well_formed:
  assumes "framework_ok P" and "app P F oc rq body s w = (Some resp, s', w')"
  shows "valid_status resp
    \<and> (header_value (tc_request_id (trace_context_from_headers oc (rq_headers rq))) \<longrightarrow>
         map_of (rs_headers resp) REQUEST_ID_HEADER = Some (tc_request_id (trace_context_from_headers oc (rq_headers rq))))
    \<and> (ax_route (nd_axum P) ops_patterns (rq_path rq) = None \<longrightarrow> \<not> forwards P rq (sr_state s) \<longrightarrow>
         s3_success resp \<or> s3_failure resp
         \<or> (\<exists>bare. bare_answer (nd_axum P) rq bare \<and> rs_status resp = rs_status bare \<and> rs_body resp = rs_body bare))"
proof -
  let ?tc = "trace_context_from_headers oc (rq_headers rq)"
  obtain r i st w1 where r: "forward_to_leader P F oc i rq body (sr_state s) w = (Some r, st, w1)"
    and resp: "resp = r\<lparr>rs_headers := add_trace_headers ?tc (rs_headers r)\<rparr>"
    using assms(2) by (rule app_answer)
  have "''content-type'' \<notin> {REQUEST_ID_HEADER, TRACE_ID_HEADER, PARENT_SPAN_HEADER}" by code_simp
  then have "valid_status resp \<longleftrightarrow> valid_status r" "s3_success resp \<longleftrightarrow> s3_success r" "s3_failure resp \<longleftrightarrow> s3_failure r"
    by (simp_all add: resp valid_status_def s3_success_def s3_failure_def trace_headers_other)
  with forward_to_leader_form [OF assms(1) r] trace_headers_request_id [of ?tc] resp show ?thesis by auto
qed

text \<open>
  The bare answer of \<open>initiate_or_complete\<close>: a signed \<open>POST\<close> on an object without \<open>uploads\<close> and
  \<open>uploadId\<close> is answered by the handler of the repository with status 400, no header and no document.
\<close>

theorem post_without_upload_bare:
  assumes "validate_sigv4 (nd_crypto P) (cfg_credentials (nd_config P)) (oc_now oc) rq = Accepted"
    and "ax_route (nd_axum P) api_patterns (rq_path rq) = Some (''/{bucket}/{*key}'', [x, y])"
    and "ax_decode (nd_axum P) x = Some bucket" and "ax_decode (nd_axum P) y = Some key"
    and "names_no_upload (nd_axum P) rq"
  shows "api_routes P oc rq body st = (Some (status_only 400), st) \<and> \<not> s3_failure (status_only 400)"
  using assms
  by (auto simp: api_routes_def route_request_def object_routes_def initiate_or_complete_def names_no_upload_def s3_failure_def status_only_def)

text \<open>
  C8: Only authentic requests act on the data of a node. If serving a request changes the state of
  the node and its path is not one of those for health and the cluster, then its signature was
  accepted; the cluster was initialised, unless the path starts with \<open>/cluster/members/\<close>; it was not
  a write for another node, that is, the node is the leader, or knows none, or the request had been
  forwarded to it; and the change is the one that the handler of the request makes.
\<close>

theorem only_authentic_requests_act:
  assumes "static_routes (nd_axum P)" and "ax_route (nd_axum P) ops_patterns (rq_path rq) = None"
    and "app P F oc rq body s w = (resp, s', w')" and "sr_state s' \<noteq> sr_state s"
  shows "validate_sigv4 (nd_crypto P) (cfg_credentials (nd_config P)) (oc_now oc) rq = Accepted
    \<and> (\<exists>r. route_request (nd_axum P) rq body = Inr r
         \<and> sr_state s' = snd (handle_request (nd_services P) (oc_request oc) r (sr_state s)))
    \<and> (is_initialized (nd_raft P) (as_metadata (sr_state s)) \<or> starts_with (rq_path rq) ''/cluster/members/'')
    \<and> (\<not> is_write_method (rq_method rq) \<or> is_leader (nd_raft P) (as_metadata (sr_state s)) \<or> is_already_forwarded (rq_headers rq)
       \<or> node_leader_http_addr (nd_raft P) (as_metadata (sr_state s)) = None)
    \<and> w' = w"
proof -
  obtain i resp' where "forward_to_leader P F oc i rq body (sr_state s) w = (resp', sr_state s', w')"
    using assms(3) by (rule app_state)
  note h = handled_here [OF this assms(4)]
  then have q: "require_initialized_cluster P oc i rq body (sr_state s) = (resp', sr_state s')" by blast
  note e = initialized_or_exempt [OF q assms(4)]
  then have "api_routes P oc rq body (sr_state s) = (resp', sr_state s')" using assms(2) by (simp add: router_def)
  note a = api_routes_change [OF this assms(4)]
  have "rq_path rq \<notin> set EXEMPT_PATHS" using static_routes_found [OF assms(1)] assms(2) by fastforce
  moreover from this have "(rq_path rq \<in> {''/metrics'', ''/health'', ''/health/ready'', ''/cluster/status''}) = False"
    unfolding EXEMPT_PATHS_def by auto
  ultimately show ?thesis using h e a unfolding is_exempt_from_initialization_check_def by argo
qed

text \<open>
  The parts of an absolute address: what stands between the scheme and the path, the path, and the
  query behind the first question mark.
\<close>

fun after_scheme :: "string \<Rightarrow> string" where
  "after_scheme [] = []"
| "after_scheme (c # t) = (if starts_with (c # t) ''://'' then drop 3 (c # t) else after_scheme t)"

definition in_authority :: "char \<Rightarrow> bool" where
  "in_authority c \<longleftrightarrow> c \<noteq> CHR ''/'' \<and> c \<noteq> CHR ''?''"

definition uri_parts :: "string \<Rightarrow> string \<times> string \<times> string option" where
  "uri_parts t =
     (let pq = dropWhile in_authority (after_scheme t); q = dropWhile (\<lambda>c. c \<noteq> CHR ''?'') pq in
      (takeWhile in_authority (after_scheme t), takeWhile (\<lambda>c. c \<noteq> CHR ''?'') pq, if q = [] then None else Some (tl q)))"

text \<open>
  An address of a node is a scheme and an authority. The parser of addresses keeps the three parts of
  a text with a path, and the client library sends a path and a query as they are written in the text
  if they consist of characters that need no escape and the path has no dot segment.
\<close>

definition node_address :: "string \<Rightarrow> bool" where
  "node_address addr \<longleftrightarrow> after_scheme addr \<noteq> [] \<and> list_all in_authority (after_scheme addr)"

definition parser_keeps_parts :: "'w ForwardingClient \<Rightarrow> bool" where
  "parser_keeps_parts F \<longleftrightarrow>
     (\<forall>t u. fc_parse_uri F t = Inr u \<and> starts_with (fst (snd (uri_parts t))) ''/'' \<longrightarrow> uri_parts u = uri_parts t)"

definition url_char :: "char \<Rightarrow> bool" where
  "url_char c \<longleftrightarrow> (CHR ''a'' \<le> c \<and> c \<le> CHR ''z'') \<or> (CHR ''A'' \<le> c \<and> c \<le> CHR ''Z'') \<or> (CHR ''0'' \<le> c \<and> c \<le> CHR ''9'')
     \<or> c \<in> set ''-._~!$&()*+,;=:@/?''"

definition sent_unchanged :: "string \<Rightarrow> string option \<Rightarrow> bool" where
  "sent_unchanged path query \<longleftrightarrow>
     starts_with path ''/'' \<and> CHR ''?'' \<notin> set path \<and> list_all url_char path
     \<and> list_all (\<lambda>seg. seg \<noteq> ''.'' \<and> seg \<noteq> ''..'') (split_on CHR ''/'' path)
     \<and> (case query of None \<Rightarrow> True | Some q \<Rightarrow> list_all url_char q)"

text \<open>
  The answer of the leader on the wire, and a connection that hands requests to the node with the
  address of the target: all that arrives there is the method, what the text of the target says, the
  headers and the body.
\<close>

fun wire_body :: "body \<Rightarrow> data" where
  "wire_body NoBody = []"
| "wire_body (Bytes d) = d"
| "wire_body (Xml x) = as_bytes x"

definition link_to ::
  "('d, 'v, 'r, 'h) node_parts \<Rightarrow> 'u ForwardingClient \<Rightarrow> occasion \<Rightarrow> string \<Rightarrow> string \<Rightarrow> string \<Rightarrow> (string \<times> string) list \<Rightarrow> data
    \<Rightarrow> ('r, 'd) server \<times> 'u \<Rightarrow> (string + nat \<times> (string \<times> string) list \<times> (string + data)) \<times> ('r, 'd) server \<times> 'u" where
  "link_to P F oc addr m uri hs d w =
     (case uri_parts uri of (authority, path, query) \<Rightarrow>
        if authority \<noteq> after_scheme addr then (Inl ''connection refused'', w)
        else
          (case app P F oc \<lparr>rq_method = m, rq_path = path, rq_query = query, rq_headers = hs\<rparr>
                  \<lparr>rd_bytes = d, rd_end = Inr ()\<rparr> (fst w) (snd w) of
             (None, s, u) \<Rightarrow> (Inl ''connection closed'', s, u)
           | (Some r, s, u) \<Rightarrow> (Inr (rs_status r, rs_headers r, Inr (wire_body (rs_body r))), s, u)))"

definition delivers ::
  "(('r, 'd) server \<times> 'u) ForwardingClient \<Rightarrow> ('d, 'v, 'r, 'h) node_parts \<Rightarrow> 'u ForwardingClient \<Rightarrow> occasion \<Rightarrow> string \<Rightarrow> bool" where
  "delivers F L FL ocl addr \<longleftrightarrow>
     (\<forall>m uri hs d w. sent_unchanged (fst (snd (uri_parts uri))) (snd (snd (uri_parts uri)))
        \<longrightarrow> fc_send F m uri hs d w = link_to L FL ocl addr m uri hs d w)"

lemma after_scheme_append: "after_scheme a \<noteq> [] \<Longrightarrow> after_scheme (a @ t) = after_scheme a @ t"
proof (induction a)
  case (Cons c a)
  have "prefix ''//'' (a @ t) \<Longrightarrow> \<not> prefix ''//'' a \<Longrightarrow> after_scheme a = []"
    by (cases a; cases "tl a") (auto simp: starts_with_def)
  with Cons show ?case by (auto simp: starts_with_def split: if_splits)
qed simp

lemma path_and_query_split:
  assumes "CHR ''?'' \<notin> set p"
  shows "takeWhile (\<lambda>c. c \<noteq> CHR ''?'') (p @ (case q of Some q \<Rightarrow> ''?'' @ q | None \<Rightarrow> [])) = p"
    and "dropWhile (\<lambda>c. c \<noteq> CHR ''?'') (p @ (case q of Some q \<Rightarrow> ''?'' @ q | None \<Rightarrow> [])) = (case q of Some q \<Rightarrow> ''?'' @ q | None \<Rightarrow> [])"
proof -
  have "\<forall>x\<in>set p. x \<noteq> CHR ''?''" using assms by blast
  then show "takeWhile (\<lambda>c. c \<noteq> CHR ''?'') (p @ (case q of Some q \<Rightarrow> ''?'' @ q | None \<Rightarrow> [])) = p"
    "dropWhile (\<lambda>c. c \<noteq> CHR ''?'') (p @ (case q of Some q \<Rightarrow> ''?'' @ q | None \<Rightarrow> [])) = (case q of Some q \<Rightarrow> ''?'' @ q | None \<Rightarrow> [])"
    by (cases q; simp)+
qed

lemma target_parts:
  assumes "node_address addr" and "starts_with p ''/''" and "CHR ''?'' \<notin> set p"
  shows "uri_parts (addr @ p @ (case q of Some q \<Rightarrow> ''?'' @ q | None \<Rightarrow> [])) = (after_scheme addr, p, q)"
proof -
  let ?t = "p @ (case q of Some q \<Rightarrow> ''?'' @ q | None \<Rightarrow> [])"
  have a: "after_scheme (addr @ ?t) = after_scheme addr @ ?t" "\<forall>c\<in>set (after_scheme addr). in_authority c"
    using assms(1) by (simp_all add: node_address_def after_scheme_append list_all_iff)
  obtain r where r: "p = CHR ''/'' # r" using assms(2) by (cases p) (auto simp: starts_with_def)
  then have "\<not> in_authority (hd ?t)" "?t \<noteq> []" by (simp_all add: in_authority_def)
  then have "takeWhile in_authority ?t = []" "dropWhile in_authority ?t = ?t" by (cases ?t; simp)+
  with a show ?thesis
    unfolding uri_parts_def a(1) using path_and_query_split [OF assms(3), of q] by (simp add: Let_def) (auto split: option.splits)
qed

lemma build_target_uri_parts:
  assumes "parser_keeps_parts F" and "node_address addr" and "sent_unchanged (rq_path rq) (rq_query rq)"
    and "build_target_uri F addr rq = Inr uri"
  shows "uri_parts uri = (after_scheme addr, rq_path rq, rq_query rq)"
proof -
  note t = target_parts [OF assms(2), of "rq_path rq" "rq_query rq"]
  have p: "starts_with (rq_path rq) ''/''" "CHR ''?'' \<notin> set (rq_path rq)"
    using assms(3) by (simp_all add: sent_unchanged_def)
  from assms(4) have "fc_parse_uri F (addr @ rq_path rq @ (case rq_query rq of Some q \<Rightarrow> ''?'' @ q | None \<Rightarrow> [])) = Inr uri"
    by (simp add: build_target_uri_def Let_def split: sum.splits)
  with assms(1) t [OF p] p(1) show ?thesis unfolding parser_keeps_parts_def by (metis fst_conv snd_conv)
qed

lemma app_forwards:
  assumes "\<not> is_leader (nd_raft P) (as_metadata (sr_state s))" and "node_leader_http_addr (nd_raft P) (as_metadata (sr_state s)) = Some addr"
    and "is_write_method (rq_method rq)" and "rq_path rq \<notin> {''/metrics'', ''/health'', ''/health/ready'', ''/cluster/status''}"
    and "\<not> is_already_forwarded (rq_headers rq)" and "forward F addr rq body w = (x, w')"
  shows "app P F oc rq body s w =
    (Some (let r = (case x of Inr r \<Rightarrow> r | Inl e \<Rightarrow> ForwardError_into_response e) in
           r\<lparr>rs_headers := add_trace_headers (trace_context_from_headers oc (rq_headers rq)) (rs_headers r)\<rparr>), s, w')"
proof -
  have "forward_to_leader P F oc i rq body (sr_state s) w =
      (Some (case x of Inr r \<Rightarrow> r | Inl e \<Rightarrow> ForwardError_into_response e), sr_state s, w')" for i
    using assms(1-3,5,6) unfolding forward_to_leader_def if_not_P [OF assms(4)] Let_def by (simp split: sum.splits)
  moreover have "rq_path rq \<notin> {''/metrics'', ''/health'', ''/health/ready''}" using assms(4) by blast
  ultimately show ?thesis unfolding app_def track_requests_def by (simp add: Let_def)
qed

text \<open>
  C5: A write sent to a follower has the effect of the same write sent to the leader. The follower
  hands it on with the headers that are needed to check its signature; the leader accepts it exactly
  if it would have accepted the request itself, and its state, its status and the body of its answer
  are those of the direct request, while the follower is left as it was. What the leader sees of path
  and query it reads from the target that the follower builds. The signed headers have to be among the
  forwarded ones and those have to be readable, the follower has to know the leader, path and query
  must not be ones that the client library rewrites (escapes, dot segments), and the connection has to
  deliver.
\<close>


theorem write_through_follower:
  assumes "\<not> is_leader (nd_raft P) (as_metadata (sr_state s))" and "node_leader_http_addr (nd_raft P) (as_metadata (sr_state s)) = Some addr"
    and "is_write_method (rq_method rq)" and "rq_path rq \<notin> {''/metrics'', ''/health'', ''/health/ready'', ''/cluster/status''}"
    and "\<not> is_already_forwarded (rq_headers rq)" and "rd_end body = Inr ()"
    and "build_target_uri F addr rq = Inr uri" and "parser_keeps_parts F" and "node_address addr"
    and "sent_unchanged (rq_path rq) (rq_query rq)" and "delivers F L FL ocl addr"
    and "is_leader (nd_raft L) (as_metadata (sr_state l))" and "framework_ok L"
    and "readable_headers rq" and "signs_forwarded rq"
    and "app L FL ocl rq body l u = (reply, l', u')" and "app P F oc rq body s (l, u) = (resp, s', w')"
  shows "w' = (l', u') \<and> s' = s
    \<and> (case reply of
         None \<Rightarrow> map_option rs_status resp = Some 502
       | Some r \<Rightarrow>
           map_option rs_status resp = Some (rs_status r) \<and> map_option rs_body resp = Some (Bytes (wire_body (rs_body r))))"
proof -
  have b: "body = \<lparr>rd_bytes = rd_bytes body, rd_end = Inr ()\<rparr>" using assms(6) by simp
  have a: "app L FL ocl (forwarded_request rq) body l u = (reply, l', u')"
    using app_forwarded [OF assms(14,15,12)] assms(16) by metis
  note p = build_target_uri_parts [OF assms(8,9,10,7)]
  have q: "\<lparr>rq_method = rq_method rq, rq_path = rq_path rq, rq_query = rq_query rq, rq_headers = forwarded_headers (rq_headers rq)\<rparr>
      = forwarded_request rq" by (cases rq) (simp add: forwarded_request_def)
  have "fc_send F (rq_method rq) uri (forwarded_headers (rq_headers rq)) (rd_bytes body) (l, u)
      = link_to L FL ocl addr (rq_method rq) uri (forwarded_headers (rq_headers rq)) (rd_bytes body) (l, u)"
    using assms(10,11) p by (simp add: delivers_def)
  also have "\<dots> =
      (case reply of None \<Rightarrow> (Inl ''connection closed'', l', u')
       | Some r \<Rightarrow> (Inr (rs_status r, rs_headers r, Inr (wire_body (rs_body r))), l', u'))"
    unfolding link_to_def p prod.case fst_conv snd_conv q b [symmetric] a by (simp split: option.splits)
  finally have "fc_send F (rq_method rq) uri (forwarded_headers (rq_headers rq)) (rd_bytes body) (l, u) =
      (case reply of None \<Rightarrow> (Inl ''connection closed'', l', u')
       | Some r \<Rightarrow> (Inr (rs_status r, rs_headers r, Inr (wire_body (rs_body r))), l', u'))" .
  moreover have "100 \<le> rs_status r \<and> rs_status r \<le> 999" if "reply = Some r" for r
    using app_valid_status [OF assms(13)] assms(16) that unfolding valid_status_def by metis
  ultimately obtain x where "forward F addr rq body (l, u) = (x, l', u')"
    and "case reply of None \<Rightarrow> x = Inl (ForwardRequest ''connection closed'')
         | Some r \<Rightarrow> \<exists>r'. x = Inr r' \<and> rs_body r' = Bytes (wire_body (rs_body r)) \<and> rs_status r' = rs_status r"
    using assms(6,7) by (cases reply) (simp_all add: forward_def)
  with app_forwards [OF assms(1-5), of F body "(l, u)" x "(l', u')" oc] assms(17) show ?thesis
    by (cases reply) (auto simp: Let_def ForwardError_into_response_def)
qed

text \<open>Two nodes for the examples, of which the first is the leader, and a signed write.\<close>

definition example_raft :: "u64 \<Rightarrow> mem_db RaftNode" where
  "example_raft i =
     \<lparr>rn_raft =
        \<lparr>or_metrics = (\<lambda>_.
           \<lparr>rm_state = (if i = 1 then ServerLeader else ServerFollower), rm_current_term = 1, rm_current_leader = Some 1,
            rm_last_applied = None, rm_last_log_index = None, rm_voter_ids = [1, 2], rm_learner_ids = [],
            rm_nodes = map_of [(1, example_address)]\<rparr>),
         or_initialize = (\<lambda>_ g. (Inl ''not allowed'', g)), or_add_learner = (\<lambda>_ _ _ g. (Inl ''not allowed'', g)),
         or_change_membership = (\<lambda>_ _ g. (Inl ''not allowed'', g)), or_elect = (\<lambda>g. (Inr (), g)), or_sleep = (\<lambda>_ g. (0, g))\<rparr>,
      rn_node_id = i\<rparr>"

definition example_axum :: axum where
  "example_axum =
     \<lparr>ax_route = (\<lambda>routes p.
        if p \<in> set routes \<and> CHR ''{'' \<notin> set p then Some (p, [])
        else if routes \<noteq> api_patterns then None
        else (case split_on CHR ''/'' p of
                [_, b] \<Rightarrow> Some (''/{bucket}'', [b])
              | _ # b # ks \<Rightarrow> Some (''/{bucket}/{*key}'', [b, join ''/'' ks])
              | _ \<Rightarrow> None)),
      ax_decode = Some, ax_bucket_query = (\<lambda>_. None),
      ax_multipart_query = (\<lambda>_. Some \<lparr>mp_part_number = None, mp_upload_id = None\<rparr>),
      ax_initiate_query = (\<lambda>_. Some \<lparr>iq_uploads = None\<rparr>), ax_node_id = (\<lambda>_. None), ax_members_json = (\<lambda>_ _. None),
      ax_node_json = (\<lambda>_ _. None), ax_ids_json = (\<lambda>_ _. None), ax_rejection = status_only 400, ax_not_allowed = (\<lambda>_. status_only 405)\<rparr>"

definition example_node :: "u64 \<Rightarrow> (mem_db, mem_value, ObjectStorage, TempObject) node_parts" where
  "example_node i =
     \<lparr>nd_services = example_services, nd_raft = example_raft i, nd_config = SaveConfig_default\<lparr>cfg_credentials := example_cred\<rparr>,
      nd_axum = example_axum, nd_crypto = example_crypto, nd_error_xml = (\<lambda>_. None), nd_membership_json = (\<lambda>_. []),
      nd_status_json = (\<lambda>_. []), nd_readiness_json = (\<lambda>_ _. []), nd_health = status_only 200, nd_metrics = status_only 200\<rparr>"

definition example_occasion :: occasion where
  "example_occasion =
     \<lparr>oc_now = 60000000000, oc_request = example_surroundings,
      oc_readings = \<lparr>rg_joined = True, rg_statvfs = Inl ''unknown'', rg_gc_last_run = 0, rg_now_secs = 0\<rparr>,
      oc_error_id = ''e1'', oc_trace_id = ''t1'', oc_span_id = ''s1'', oc_request_id = ''r1''\<rparr>"

definition example_write :: request where
  "example_write =
     \<lparr>rq_method = ''PUT'', rq_path = ''/photos/a'', rq_query = Some ''x-id=PutObject'',
      rq_headers = [(''host'', ''h''), (''x-amz-date'', ''20250101T000000Z''), (''user-agent'', ''client''),
        (''authorization'', ''AWS4-HMAC-SHA256 Credential=ak/20250101/r/s3/aws4_request, SignedHeaders=host;x-amz-date, Signature=f0'')]\<rparr>"

definition example_server :: "(ObjectStorage, mem_db) server" where
  "example_server = \<lparr>sr_state = example_state, sr_in_flight = 0\<rparr>"

definition no_client :: "unit ForwardingClient" where
  "no_client = \<lparr>fc_parse_uri = Inr, fc_send = (\<lambda>_ _ _ _ w. (Inl ''unreachable'', w))\<rparr>"

lemma example_routes:
  "static_routes example_axum" "ax_route example_axum ops_patterns (rq_path example_write) = None"
  "is_write_method (rq_method example_write)" "\<not> is_already_forwarded (rq_headers example_write)"
  "readable_headers example_write" "signs_forwarded example_write"
  "is_leader (example_raft 1) d" "\<not> is_leader (example_raft 2) d" "node_leader_http_addr (example_raft 2) d = Some ''http://a:2''"
proof -
  show "static_routes example_axum" by code_simp
  show "ax_route example_axum ops_patterns (rq_path example_write) = None" by code_simp
  show "is_write_method (rq_method example_write)" "\<not> is_already_forwarded (rq_headers example_write)" by code_simp+
  show "readable_headers example_write" "signs_forwarded example_write" by code_simp+
  show "is_leader (example_raft 1) d" "\<not> is_leader (example_raft 2) d"
    by (simp_all add: is_leader_def current_leader_def example_raft_def)
  show "node_leader_http_addr (example_raft 2) d = Some ''http://a:2''"
    by (simp add: node_leader_http_addr_def current_leader_def get_node_http_addr_def example_raft_def example_address_def)
qed

lemma example_node_parts:
  "nd_axum (example_node i) = example_axum" "nd_raft (example_node i) = example_raft i"
  "nd_services (example_node i) = example_services" "nd_crypto (example_node i) = example_crypto"
  "cfg_credentials (nd_config (example_node i)) = example_cred" "sr_state example_server = example_state"
  by (simp_all add: example_node_def example_server_def)

lemma example_framework: "framework_ok (example_node i)"
  by (simp add: framework_ok_def example_node_def example_axum_def)

lemma example_stored:
  "case app (example_node 1) no_client example_occasion example_write example_body example_server () of
     (resp, s, _) \<Rightarrow> map_option rs_status resp = Some 200 \<and> length (as_metadata (sr_state s)) = Suc (length (as_metadata example_state))"
  by code_simp

theorem only_authentic_requests_act_witness:
  "\<exists>resp s r. app (example_node 1) no_client example_occasion example_write example_body example_server () = (resp, s, ())
   \<and> validate_sigv4 example_crypto example_cred 60000000000 example_write = Accepted
   \<and> sr_state s \<noteq> example_state \<and> sr_state s = snd (handle_request example_services example_surroundings r example_state)"
proof -
  obtain resp s w where a: "app (example_node 1) no_client example_occasion example_write example_body example_server () = (resp, s, w)"
    by (metis surj_pair)
  with example_stored have n: "sr_state s \<noteq> example_state" by auto
  have o: "oc_now example_occasion = 60000000000" "oc_request example_occasion = example_surroundings"
    by (simp_all add: example_occasion_def)
  from only_authentic_requests_act [of "example_node 1", unfolded example_node_parts, OF example_routes(1,2) a, unfolded example_node_parts o, OF n] n a
  show ?thesis by auto
qed

theorem answers_well_formed_witness:
  "\<exists>resp s w. app (example_node 1) no_client example_occasion example_write example_body example_server () = (Some resp, s, w)
   \<and> valid_status resp \<and> map_of (rs_headers resp) ''x-request-id'' = Some ''r1'' \<and> rs_status resp = 200
   \<and> (s3_success resp \<or> s3_failure resp)"
proof -
  obtain r s w where a: "app (example_node 1) no_client example_occasion example_write example_body example_server () = (Some r, s, w)"
    and c: "rs_status r = 200"
    using example_stored by (auto split: prod.splits)
  have i: "tc_request_id (trace_context_from_headers example_occasion (rq_headers example_write)) = ''r1''" "header_value ''r1''"
    "REQUEST_ID_HEADER = ''x-request-id''" by code_simp+
  have "\<not> forwards (example_node 1) example_write (sr_state example_server)"
    by (simp add: forwards_def example_node_parts example_routes(7))
  moreover have "rs_status bare \<noteq> 200" if "bare_answer example_axum example_write bare" for bare
    using that by (auto simp: bare_answer_def example_axum_def status_only_def)
  ultimately show ?thesis
    using answers_well_formed [OF example_framework a] a i c by (auto simp: example_node_parts example_routes(2))
qed

definition example_client :: "((ObjectStorage, mem_db) server \<times> unit) ForwardingClient" where
  "example_client = \<lparr>fc_parse_uri = Inr, fc_send = link_to (example_node 1) no_client example_occasion ''http://a:2''\<rparr>"

theorem write_through_follower_witness:
  "\<exists>resp l. app (example_node 2) example_client example_occasion example_write example_body example_server (example_server, ())
       = (Some resp, example_server, (l, ()))
   \<and> rs_status resp = 200 \<and> length (as_metadata (sr_state l)) = Suc (length (as_metadata example_state))"
proof -
  obtain r l where a: "app (example_node 1) no_client example_occasion example_write example_body example_server () = (Some r, l, ())"
    and r: "rs_status r = 200" "length (as_metadata (sr_state l)) = Suc (length (as_metadata example_state))"
    using example_stored by (auto split: prod.splits)
  obtain resp s w where b: "app (example_node 2) example_client example_occasion example_write example_body example_server (example_server, ()) = (resp, s, w)"
    by (metis surj_pair)
  have p: "rq_path example_write \<notin> {''/metrics'', ''/health'', ''/health/ready'', ''/cluster/status''}"
    "build_target_uri example_client ''http://a:2'' example_write = Inr ''http://a:2/photos/a?x-id=PutObject''"
    by (simp_all add: example_write_def build_target_uri_def example_client_def)
  have c: "parser_keeps_parts example_client" "delivers example_client (example_node 1) no_client example_occasion ''http://a:2''"
    by (simp_all add: parser_keeps_parts_def delivers_def example_client_def)
  have u: "node_address ''http://a:2''" "sent_unchanged (rq_path example_write) (rq_query example_write)" by code_simp+
  from write_through_follower [of "example_node 2" example_server, unfolded example_node_parts, OF example_routes(8,9,3) p(1) example_routes(4) _ p(2) c(1) u c(2) _
      example_framework example_routes(5,6) a b] r b
  show ?thesis by (auto simp: example_node_parts example_routes(7))
qed

section \<open>Limits of forwarding\<close>

text \<open>
  A request for an election does not reach the Raft instance of the node it is sent to: a follower
  that knows the leader hands it on.
\<close>

theorem election_request_goes_to_leader:
  assumes "\<not> is_leader (nd_raft P) (as_metadata (sr_state s))" and "node_leader_http_addr (nd_raft P) (as_metadata (sr_state s)) = Some addr"
    and "\<not> is_already_forwarded (rq_headers rq)" and "rq_method rq = ''POST''" and "rq_path rq = ''/cluster/trigger-elect''"
  shows "\<exists>resp w'. app P F oc rq body s w = (Some resp, s, w')"
proof -
  obtain x w' where "forward F addr rq body w = (x, w')" by fastforce
  from app_forwards [OF assms(1,2) _ _ assms(3) this] show ?thesis
    by (simp add: assms(4,5) is_write_method_def)
qed

text \<open>The routes of the cluster do not look at the signature.\<close>

theorem member_removed_without_signature:
  assumes "ax_route (nd_axum P) ops_patterns (rq_path rq) = Some (''/cluster/members/{node_id}'', [x])"
    and "ax_decode (nd_axum P) x = Some y" and "ax_node_id (nd_axum P) y = Some i" and "rq_method rq = ''DELETE''"
  shows "as_metadata (snd (router P oc rq body st)) = snd (snd (cluster_remove_node (nd_raft P) i (as_metadata st)))"
  using assms by (simp add: router_def ops_routes_def on_raft_def Let_def split: prod.splits)

text \<open>
  A signature over a header that is not forwarded is accepted by the leader itself and rejected when
  the request comes through a follower.
\<close>

definition length_crypto :: crypto where
  "length_crypto = example_crypto\<lparr>cr_hex := (\<lambda>d. nat_str (length d))\<rparr>"

definition checksum_write :: request where
  "checksum_write =
     \<lparr>rq_method = ''PUT'', rq_path = ''/photos/a'', rq_query = None,
      rq_headers = [(''host'', ''h''), (''x-amz-date'', ''20250101T000000Z''), (''content-md5'', ''XrY7u+Ae7tCTyyK7j1rNww==''),
        (''authorization'',
         ''AWS4-HMAC-SHA256 Credential=ak/20250101/r/s3/aws4_request, SignedHeaders=content-md5;host;x-amz-date, Signature=222'')]\<rparr>"

theorem signed_header_lost:
  "validate_sigv4 length_crypto example_cred 60000000000 checksum_write = Accepted
   \<and> validate_sigv4 length_crypto example_cred 60000000000 (forwarded_request checksum_write) = Rejected SignatureDoesNotMatch"
  by code_simp

end
