(* ===== verification/Api_Admin.thy ===== *)
theory Api_Admin
  imports Api_Front
begin

text \<open>
  The server of the internal API, \<open>crates/save-api/src/internal_api/server.rs\<close>, in front of the
  administration service of \<open>service.rs\<close> (whose operations on the members are in \<open>Api_Cluster\<close>). The
  encoding of the messages and the writers of JSON are parameters; metrics are left out.
\<close>

section \<open>The service\<close>

record GetDebugInfoRequest =
  gd_include_log_entries :: bool
  gd_max_log_entries :: u32

text \<open>The log entries in the answer are always empty.\<close>

record GetDebugInfoResponse =
  gd_node_info :: string
  gd_cluster_info :: string

record debug_json =
  dj_node_info :: "ClusterStatus \<Rightarrow> u64 \<Rightarrow> string"
  dj_cluster_info :: "u64 list \<Rightarrow> u64 list \<Rightarrow> nat \<Rightarrow> nat \<Rightarrow> string"

definition get_debug_info :: "debug_json \<Rightarrow> 'd RaftNode \<Rightarrow> GetDebugInfoRequest \<Rightarrow> ('r, 'd) server \<Rightarrow> GetDebugInfoResponse" where
  "get_debug_info dj N req s =
     (let status = get_status N (as_metadata (sr_state s)) in
      \<lparr>gd_node_info = dj_node_info dj status (sr_in_flight s),
       gd_cluster_info = dj_cluster_info dj (cs_voters status) (cs_learners status) (length (cs_voters status)) (length (cs_learners status))\<rparr>)"

section \<open>The server\<close>

record admin_codecs =
  ac_add :: "AddLearnerRequest message"
  ac_promote :: "(u64 list) message"
  ac_remove :: "u64 message"
  ac_drain :: "u64 message"
  ac_debug :: "GetDebugInfoRequest message"
  ac_elect :: "unit message"
  ac_response :: "AdminResponse message"
  ac_drain_response :: "DrainNodeResponse message"
  ac_status_response :: "GetStatusResponse message"
  ac_debug_response :: "GetDebugInfoResponse message"

text \<open>What the service is made of; sleeping lets the other requests of the node go on.\<close>

record ('d, 'r) admin_parts =
  am_raft :: "'d RaftNode"
  am_codecs :: admin_codecs
  am_json :: debug_json
  am_drain_timeout_secs :: u64
  am_sleep :: "nat \<Rightarrow> ('r, 'd) server \<Rightarrow> nat \<times> ('r, 'd) server"

definition on_members :: "('d \<Rightarrow> 'a \<times> 'd) \<Rightarrow> ('r, 'd) server \<Rightarrow> 'a \<times> ('r, 'd) server" where
  "on_members op s =
     (case op (as_metadata (sr_state s)) of (r, d) \<Rightarrow> (r, s\<lparr>sr_state := (sr_state s)\<lparr>as_metadata := d\<rparr>\<rparr>))"

definition handle_get_status :: "('d, 'r) admin_parts \<Rightarrow> data \<Rightarrow> ('r, 'd) server \<Rightarrow> grpc_response option \<times> ('r, 'd) server" where
  "handle_get_status M body s =
     (if body \<noteq> [] \<and> isl (parse_grpc_frame body) then (create_grpc_error_response (invalid_argument ''invalid grpc frame''), s)
      else (Some (create_grpc_response (ac_status_response (am_codecs M)) (admin_get_status (am_raft M) (as_metadata (sr_state s)))), s))"

definition handle_add_learner where
  "handle_add_learner M = handle_unary (ac_add (am_codecs M)) (ac_response (am_codecs M))
     (\<lambda>s req. on_members (admin_add_learner (am_raft M) req) s)"

definition handle_promote_voters where
  "handle_promote_voters M = handle_unary (ac_promote (am_codecs M)) (ac_response (am_codecs M))
     (\<lambda>s ids. on_members (admin_promote_voters (am_raft M) ids) s)"

definition handle_remove_node where
  "handle_remove_node M = handle_unary (ac_remove (am_codecs M)) (ac_response (am_codecs M))
     (\<lambda>s i. on_members (admin_remove_node (am_raft M) i) s)"

definition handle_drain_node where
  "handle_drain_node M = handle_unary (ac_drain (am_codecs M)) (ac_drain_response (am_codecs M))
     (\<lambda>s timeout_secs. drain_node (\<lambda>s. unat (sr_in_flight s)) (am_sleep M) (am_drain_timeout_secs M) timeout_secs s)"

definition handle_get_debug_info where
  "handle_get_debug_info M = handle_unary (ac_debug (am_codecs M)) (ac_debug_response (am_codecs M))
     (\<lambda>s req. (get_debug_info (am_json M) (am_raft M) req s, s))"

definition handle_trigger_elect where
  "handle_trigger_elect M = handle_unary (ac_elect (am_codecs M)) (ac_response (am_codecs M))
     (\<lambda>s _. on_members (admin_trigger_elect (am_raft M)) s)"

text \<open>With \<open>require_auth\<close> the server only writes a log message.\<close>

definition admin_server_call ::
  "('d, 'r) admin_parts \<Rightarrow> bool \<Rightarrow> string \<Rightarrow> data option \<Rightarrow> ('r, 'd) server \<Rightarrow> grpc_response option \<times> ('r, 'd) server" where
  "admin_server_call M require_auth p collected s =
     (case collected of
        None \<Rightarrow> (create_grpc_error_response (status_internal ''failed to read body''), s)
      | Some body \<Rightarrow>
        if p = ''/cluster.ClusterAdmin/GetStatus'' then handle_get_status M body s
        else if p = ''/cluster.ClusterAdmin/AddLearner'' then handle_add_learner M body s
        else if p = ''/cluster.ClusterAdmin/PromoteVoters'' then handle_promote_voters M body s
        else if p = ''/cluster.ClusterAdmin/RemoveNode'' then handle_remove_node M body s
        else if p = ''/cluster.ClusterAdmin/DrainNode'' then handle_drain_node M body s
        else if p = ''/cluster.ClusterAdmin/GetDebugInfo'' then handle_get_debug_info M body s
        else if p = ''/cluster.ClusterAdmin/TriggerElect'' then handle_trigger_elect M body s
        else (create_grpc_error_response (unimplemented ''unknown method''), s))"

section \<open>What the calls do\<close>

lemmas admin_calls = admin_server_call_def handle_add_learner_def handle_promote_voters_def handle_remove_node_def
  handle_drain_node_def handle_get_debug_info_def handle_trigger_elect_def

lemma promote_over_wire:
  assumes "fits (ac_promote (am_codecs M)) ids" and "admin_promote_voters (am_raft M) ids (as_metadata (sr_state s)) = (resp, d)"
    and "fits (ac_response (am_codecs M)) resp"
  shows "answer (ac_response (am_codecs M)) (admin_server_call M auth ''/cluster.ClusterAdmin/PromoteVoters''
      (Some (grpc_frame (ms_encode (ac_promote (am_codecs M)) ids))) s)
    = (Inr resp, s\<lparr>sr_state := (sr_state s)\<lparr>as_metadata := d\<rparr>\<rparr>)"
  using assms by (simp add: admin_calls handle_unary_answer on_members_def)

text \<open>
  Draining over the wire ends, and it reports success only when no request is in flight. Requests
  that were counted and whose handler panicked stay counted, so that it fails with a timeout then.
\<close>

lemma drain_over_wire:
  assumes "drain_node (\<lambda>s. unat (sr_in_flight s)) (am_sleep M) (am_drain_timeout_secs M) t s = (resp, s')"
    and "fits (ac_drain (am_codecs M)) t" and "fits (ac_drain_response (am_codecs M)) resp"
  shows "answer (ac_drain_response (am_codecs M)) (admin_server_call M auth ''/cluster.ClusterAdmin/DrainNode''
      (Some (grpc_frame (ms_encode (ac_drain (am_codecs M)) t))) s) = (Inr resp, s')
    \<and> (ad_success resp \<longleftrightarrow> sr_in_flight s' = 0)"
proof -
  have "ad_success resp \<longleftrightarrow> unat (sr_in_flight s') = 0" using assms(1) by (auto simp: drain_node_def dest: drain_loop_result)
  then have "ad_success resp \<longleftrightarrow> sr_in_flight s' = 0" by (simp add: unat_eq_zero)
  with assms show ?thesis by (simp add: admin_calls handle_unary_answer)
qed

text \<open>
  A server that is asked to require authentication answers like one that is not: without TLS
  every caller can change the members.
\<close>

theorem admin_authentication_not_required: "admin_server_call M True p body s = admin_server_call M False p body s"
  by (simp add: admin_server_call_def)

end
