(* ===== verification/Sigv4_Rules.thy ===== *)
theory Sigv4_Rules
  imports Api_Auth
begin

text \<open>
  The rules of Signature Version 4 as a client follows them, written down from their description and
  not from \<open>crates/save-api/src/auth.rs\<close>: a client has a path, parameters and headers in plain text,
  sends them encoded, and computes the signature over the canonical form. The property at the end
  compares the server with these rules; only the hash functions and the parser of dates, which belong
  to other crates, are common to both.
\<close>

section \<open>Encoding\<close>

text \<open>\<open>UriEncode\<close>: every byte but the unreserved ones becomes a percent sign and two hexadecimal digits in upper case.\<close>

definition unreserved :: "char \<Rightarrow> bool" where
  "unreserved c \<longleftrightarrow> (CHR ''a'' \<le> c \<and> c \<le> CHR ''z'') \<or> (CHR ''A'' \<le> c \<and> c \<le> CHR ''Z'') \<or> (CHR ''0'' \<le> c \<and> c \<le> CHR ''9'')
     \<or> c \<in> set ''-._~''"

definition percent :: "char \<Rightarrow> string" where
  "percent c = [CHR ''%'', ''0123456789ABCDEF'' ! (of_char c div 16), ''0123456789ABCDEF'' ! (of_char c mod 16)]"

definition uri_encode :: "string \<Rightarrow> string" where
  "uri_encode s = concat (map (\<lambda>c. if unreserved c then [c] else percent c) s)"

text \<open>The slashes of a path stay.\<close>

definition uri_encode_path :: "string \<Rightarrow> string" where
  "uri_encode_path s = concat (map (\<lambda>c. if unreserved c \<or> c = CHR ''/'' then [c] else percent c) s)"

section \<open>The request of a client\<close>

record client_request =
  cl_method :: string
  cl_path :: string
  cl_params :: "(string \<times> string) list"
  cl_headers :: "(string \<times> string) list"

record signing_scope =
  sg_date :: string
  sg_region :: string
  sg_service :: string
  sg_headers :: "string list"

text \<open>What it sends: the parameters in the order the client has them, and the authorization header behind the others.\<close>

definition sent_query :: "(string \<times> string) list \<Rightarrow> string option" where
  "sent_query ps = (if ps = [] then None else Some (join ''&'' (map (\<lambda>(k, v). uri_encode k @ ''='' @ uri_encode v) ps)))"

definition sent_request :: "client_request \<Rightarrow> string \<Rightarrow> request" where
  "sent_request c authorization =
     \<lparr>rq_method = cl_method c, rq_path = uri_encode_path (cl_path c), rq_query = sent_query (cl_params c),
      rq_headers = cl_headers c @ [(''authorization'', authorization)]\<rparr>"

section \<open>The signature\<close>

text \<open>Blanks around a value go, and a blank behind a blank goes.\<close>

fun squeeze :: "string \<Rightarrow> string" where
  "squeeze (c # d # s) = (if c = CHR '' '' \<and> d = CHR '' '' then squeeze (d # s) else c # squeeze (d # s))"
| "squeeze s = s"

definition canonical_parameters :: "(string \<times> string) list \<Rightarrow> string" where
  "canonical_parameters ps =
     join ''&'' (map (\<lambda>(k, v). k @ ''='' @ v) (sort (map (\<lambda>(k, v). (uri_encode k, uri_encode v)) ps)))"

definition canonical_headers :: "(string \<times> string) list \<Rightarrow> string list \<Rightarrow> string" where
  "canonical_headers hs names = concat (map (\<lambda>n. n @ '':'' @ squeeze (trim (the (map_of hs n))) @ [nl]) names)"

definition canonical_request :: "client_request \<Rightarrow> string list \<Rightarrow> string" where
  "canonical_request c names =
     cl_method c @ [nl] @ uri_encode_path (cl_path c) @ [nl] @ canonical_parameters (cl_params c) @ [nl]
       @ canonical_headers (cl_headers c) names @ [nl] @ join '';'' names @ [nl]
       @ the (map_of (cl_headers c) ''x-amz-content-sha256'')"

definition credential_scope :: "signing_scope \<Rightarrow> string" where
  "credential_scope sg = join ''/'' [take 8 (sg_date sg), sg_region sg, sg_service sg, ''aws4_request'']"

definition signing_key :: "crypto \<Rightarrow> string \<Rightarrow> signing_scope \<Rightarrow> data" where
  "signing_key cr secret sg =
     foldl (\<lambda>k part. cr_hmac cr k (as_bytes part)) (as_bytes (''AWS4'' @ secret))
       [take 8 (sg_date sg), sg_region sg, sg_service sg, ''aws4_request'']"

definition signature_of :: "crypto \<Rightarrow> string \<Rightarrow> client_request \<Rightarrow> signing_scope \<Rightarrow> string" where
  "signature_of cr secret c sg =
     cr_hex cr (cr_hmac cr (signing_key cr secret sg)
       (as_bytes (join [nl] [''AWS4-HMAC-SHA256'', sg_date sg, credential_scope sg,
                             cr_sha256_hex cr (canonical_request c (sg_headers sg))])))"

text \<open>
  A request that follows the rules: its path is absolute; its headers have different names in lower
  case and readable values, the date of the signature is among them, and the hash of the contents; the
  signed headers are sorted, all present, and the host is one of them. The parts of the authorization
  header contain none of the separators of that header. Not demanded by the rules, but by this server:
  a signed header has no more than two blanks in a row within its value.
\<close>

fun no_three_blanks :: "string \<Rightarrow> bool" where
  "no_three_blanks (c # d # e # s) \<longleftrightarrow> \<not> (c = CHR '' '' \<and> d = CHR '' '' \<and> e = CHR '' '') \<and> no_three_blanks (d # e # s)"
| "no_three_blanks s \<longleftrightarrow> True"

definition rule_headers :: "(string \<times> string) list \<Rightarrow> signing_scope \<Rightarrow> bool" where
  "rule_headers hs sg \<longleftrightarrow>
     distinct (map fst hs) \<and> ''authorization'' \<notin> fst ` set hs \<and> list_all (\<lambda>(n, v). to_lowercase n = n \<and> list_all visible v) hs
     \<and> map_of hs ''x-amz-date'' = Some (sg_date sg) \<and> map_of hs ''x-amz-content-sha256'' \<noteq> None"

definition rule_signed :: "(string \<times> string) list \<Rightarrow> string list \<Rightarrow> bool" where
  "rule_signed hs names \<longleftrightarrow>
     ''host'' \<in> set names \<and> sorted names \<and> distinct names \<and> set names \<subseteq> fst ` set hs
     \<and> list_all (\<lambda>n. plain n \<and> list_all visible n \<and> no_three_blanks (trim (the (map_of hs n)))) names"

definition rule_scope :: "signing_scope \<Rightarrow> bool" where
  "rule_scope sg \<longleftrightarrow>
     8 \<le> length (sg_date sg)
     \<and> list_all (\<lambda>s. plain s \<and> list_all visible s) [take 8 (sg_date sg), sg_region sg, sg_service sg]"

definition follows_rules :: "client_request \<Rightarrow> signing_scope \<Rightarrow> bool" where
  "follows_rules c sg \<longleftrightarrow>
     starts_with (cl_path c) ''/'' \<and> rule_headers (cl_headers c) sg \<and> rule_signed (cl_headers c) (sg_headers sg) \<and> rule_scope sg"

section \<open>Lemmas\<close>

lemma percent_chars: "x \<in> set (percent c) \<Longrightarrow> x = CHR ''%'' \<or> x \<in> set ''0123456789ABCDEF''"
proof -
  have "of_char c div 16 < (16 :: nat)" "of_char c mod 16 < (16 :: nat)"
    using range_nat_of_char less_mult_imp_div_less [of "of_char c" 16 16] by auto
  then have "''0123456789ABCDEF'' ! (of_char c div 16) \<in> set ''0123456789ABCDEF''" "''0123456789ABCDEF'' ! (of_char c mod 16) \<in> set ''0123456789ABCDEF''"
    by (intro nth_mem; simp)+
  then show "x \<in> set (percent c) \<Longrightarrow> x = CHR ''%'' \<or> x \<in> set ''0123456789ABCDEF''"
    unfolding percent_def by (metis empty_iff empty_set set_ConsD)
qed

lemma uri_encode_plain: "CHR ''&'' \<notin> set (uri_encode s)" "CHR ''='' \<notin> set (uri_encode s)"
proof -
  have "CHR ''&'' \<notin> set (percent c)" "CHR ''='' \<notin> set (percent c)" for c using percent_chars [of _ c] by fastforce+
  moreover have "\<not> unreserved CHR ''&''" "\<not> unreserved CHR ''=''" by code_simp+
  ultimately show "CHR ''&'' \<notin> set (uri_encode s)" "CHR ''='' \<notin> set (uri_encode s)" by (auto simp: uri_encode_def split: if_splits)
qed

lemma query_param_sent: "query_param (uri_encode k @ ''='' @ uri_encode v) = (uri_encode k, uri_encode v)"
proof -
  have "takeWhile (\<lambda>c. c \<noteq> CHR ''='') (uri_encode k @ ''='' @ uri_encode v) = uri_encode k"
    using uri_encode_plain(2) [of k] by (subst takeWhile_append2) auto
  then show ?thesis by (simp add: query_param_def Let_def)
qed

lemma join_nonempty: "ss \<noteq> [] \<Longrightarrow> \<forall>s \<in> set ss. s \<noteq> [] \<Longrightarrow> join sep ss \<noteq> []"
  by (induction sep ss rule: join.induct) auto

lemma canonical_query_sent:
  "canonicalize_query_string (case sent_query ps of Some q \<Rightarrow> q | None \<Rightarrow> []) = canonical_parameters ps"
proof (cases "ps = []")
  case True
  then show ?thesis by (simp add: sent_query_def canonicalize_query_string_def canonical_parameters_def)
next
  case False
  let ?pr = "\<lambda>(k, v). uri_encode k @ ''='' @ uri_encode v"
  have n: "\<forall>s \<in> set (map ?pr ps). s \<noteq> []" "\<forall>s \<in> set (map ?pr ps). CHR ''&'' \<notin> set s"
    using uri_encode_plain(1) by auto
  then have "join ''&'' (map ?pr ps) \<noteq> []" using False by (intro join_nonempty) auto
  moreover have "split_on CHR ''&'' (join ''&'' (map ?pr ps)) = map ?pr ps" using n(2) False by (intro split_on_join) auto
  moreover have "map query_param (map ?pr ps) = map (\<lambda>(k, v). (uri_encode k, uri_encode v)) ps"
    by (simp add: split_beta query_param_sent del: append.simps)
  moreover have "(\<lambda>(k, v). if v = [] then k @ ''='' else k @ ''='' @ v) = (\<lambda>(k, v). k @ ''='' @ v :: string)"
    by (auto simp: fun_eq_iff)
  ultimately show ?thesis
    using False by (simp only: sent_query_def canonicalize_query_string_def canonical_parameters_def if_False option.case)
qed

lemma replace_is_squeeze: "no_three_blanks s \<Longrightarrow> replace_double_space s = squeeze s"
proof (induction s rule: replace_double_space.induct)
  case (1 c d s)
  show ?case
  proof (cases "c = CHR '' '' \<and> d = CHR '' ''")
    case True
    with 1(3) have "s = [] \<or> hd s \<noteq> CHR '' ''" "no_three_blanks s"
      by (cases s; cases "tl s"; cases "tl (tl s)"; simp)+
    with 1(1) True show ?thesis by (cases s) auto
  next
    case False
    from 1(3) have "no_three_blanks (d # s)" by (cases s) auto
    with 1(2) False show ?thesis by auto
  qed
qed simp_all

lemma join_lines: "ls \<noteq> [] \<Longrightarrow> join [nl] ls @ [nl] = concat (map (\<lambda>l. l @ [nl]) ls)"
  by (induction "[nl]" ls rule: join.induct) auto

lemma rule_header:
  assumes "rule_headers hs sg" and "(n, v) \<in> set hs"
  shows "header (hs @ [(''authorization'', a)]) n = Some v" and "to_lowercase n = n" and "map_of hs n = Some v"
proof -
  from assms show l: "to_lowercase n = n" by (auto simp: rule_headers_def list_all_iff)
  from assms show m: "map_of hs n = Some v" by (simp add: rule_headers_def)
  from assms have "list_all visible v" by (auto simp: rule_headers_def list_all_iff)
  with m l show "header (hs @ [(''authorization'', a)]) n = Some v" by (simp add: header_def to_str_def map_add_def)
qed

lemma canonical_header_lines_sent:
  assumes "rule_headers hs sg" and "rule_signed hs names"
  shows "canonical_header_lines (hs @ [(''authorization'', a)]) names = map (\<lambda>n. n @ '':'' @ squeeze (trim (the (map_of hs n)))) names"
proof -
  let ?hs = "hs @ [(''authorization'', a)]"
  have n: "to_lowercase n = n \<and> signed_header_map ?hs names n = Some (squeeze (trim (the (map_of hs n))))" if i: "n \<in> set names" for n
  proof -
    from assms(2) i obtain v where v: "(n, v) \<in> set hs" by (auto simp: rule_signed_def)
    note h = rule_header [OF assms(1) v]
    have "no_three_blanks (trim v)" using assms(2) i h(3) by (auto simp: rule_signed_def list_all_iff)
    moreover have "(case map_of ?hs n of None \<Rightarrow> None | Some v \<Rightarrow> to_str v) = Some v" using h(1) [where a = a] h(2) by (simp add: header_def)
    moreover have "n \<in> to_lowercase ` set names" using h(2) i by force
    ultimately show ?thesis using h(2,3) by (simp add: signed_header_map_eq replace_is_squeeze)
  qed
  then have "map to_lowercase names = names" by (simp add: map_idI)
  moreover have "filter (\<lambda>k. signed_header_map ?hs names k \<noteq> None) names = names" using n by (simp add: filter_id_conv)
  ultimately have "set (filter (\<lambda>k. signed_header_map ?hs names k \<noteq> None) (map to_lowercase names)) = set names" by simp
  moreover have "sorted_list_of_set (set names) = names"
    using assms(2) by (simp add: rule_signed_def sorted_list_of_set.idem_if_sorted_distinct)
  ultimately show ?thesis unfolding canonical_header_lines_def Let_def using n by (intro map_cong) simp_all
qed

lemma canonical_request_sent:
  assumes "follows_rules c sg"
  shows "build_canonical_request (rq_method (sent_request c a)) (rq_path (sent_request c a))
      (case rq_query (sent_request c a) of Some q \<Rightarrow> q | None \<Rightarrow> []) (rq_headers (sent_request c a)) (sg_headers sg)
      (case header (rq_headers (sent_request c a)) ''x-amz-content-sha256'' of Some h \<Rightarrow> h | None \<Rightarrow> ''UNSIGNED-PAYLOAD'')
    = canonical_request c (sg_headers sg)"
proof -
  have f: "starts_with (cl_path c) ''/''" "rule_headers (cl_headers c) sg" "rule_signed (cl_headers c) (sg_headers sg)"
    using assms by (simp_all add: follows_rules_def)
  obtain h where h: "map_of (cl_headers c) ''x-amz-content-sha256'' = Some h" using f(2) by (auto simp: rule_headers_def)
  have p: "uri_encode_path (cl_path c) \<noteq> []" using f(1) by (cases "cl_path c") (auto simp: starts_with_def uri_encode_path_def)
  have n: "sg_headers sg \<noteq> []" using f(3) by (auto simp: rule_signed_def)
  have l: "join [nl] (map (\<lambda>n. n @ '':'' @ squeeze (trim (the (map_of (cl_headers c) n)))) (sg_headers sg)) @ [nl]
      = canonical_headers (cl_headers c) (sg_headers sg)"
    using n by (subst join_lines) (simp_all add: canonical_headers_def comp_def)
  show ?thesis
    using p rule_header(1) [OF f(2) map_of_SomeD [OF h]] h l
    by (simp add: sent_request_def build_canonical_request_def canonical_request_def canonical_query_sent canonical_header_lines_sent [OF f(2,3)])
qed

lemma signature_sent:
  assumes "follows_rules c sg"
  shows "request_signature cr secret (sent_request c a) (sg_date sg) (credential_scope sg) (sg_region sg) (sg_service sg) (sg_headers sg)
    = Some (signature_of cr secret c sg)"
  using assms
  by (simp add: request_signature_def canonical_request_sent calculate_signature_def build_string_to_sign_def signature_of_def
      signing_key_def Let_def follows_rules_def rule_scope_def)

section \<open>Property\<close>

text \<open>
  C11: The server checks the signature that the rules of the protocol define. A request that a client
  has built by the rules, from a path, parameters and headers in plain text, is let through exactly if
  its authorization header names the configured access key, the date is at most fifteen minutes, in
  whole seconds, from the clock of the server, and the signature is the one that the rules give for
  the configured secret: no request built by the rules is turned away, and none with another
  signature is let in. Assumed are that access key, region, service, names of headers and signature
  have no comma, slash or semicolon, that no header comes twice, and that signed values have no three
  blanks in a row, where the server departs from the rules.
\<close>

theorem sigv4_accepts_iff:
  assumes "follows_rules c sg" and "list_all (\<lambda>s. plain s \<and> list_all visible s) [key, signature]"
  shows "validate_sigv4 cr cred now
      (sent_request c (authorization_header key (take 8 (sg_date sg)) (sg_region sg) (sg_service sg) (sg_headers sg) signature)) = Accepted
    \<longleftrightarrow> key = access_key cred
      \<and> (\<exists>t. cr_parse_date cr (sg_date sg) = Some t \<and> \<bar>now - t * 1000000000\<bar> div 1000000000 \<le> 900)
      \<and> signature = signature_of cr (secret_key cred) c sg"
proof -
  let ?h = "authorization_header key (take 8 (sg_date sg)) (sg_region sg) (sg_service sg) (sg_headers sg) signature"
  let ?rq = "sent_request c ?h"
  have f: "rule_headers (cl_headers c) sg" "rule_signed (cl_headers c) (sg_headers sg)" "rule_scope sg"
    using assms(1) by (simp_all add: follows_rules_def)
  have hs: "rq_headers ?rq = cl_headers c @ [(''authorization'', ?h)]" by (simp add: sent_request_def)
  have "list_all visible ?h"
  proof -
    have "visible x" if "x \<in> set (join '';'' (sg_headers sg))" for x
      using join_chars [OF that] f(2) by (auto simp: rule_signed_def list_all_iff visible_def)
    then have "list_all visible (join '';'' (sg_headers sg))" by (simp add: list_all_iff)
    moreover have "list_all visible ''AWS4-HMAC-SHA256 Credential=''" "list_all visible ''/''" "list_all visible ''/aws4_request''"
      "list_all visible '', ''" "list_all visible ''SignedHeaders=''" "list_all visible ''Signature=''" by code_simp+
    ultimately show ?thesis
      using f(3) assms(2) unfolding authorization_header_def rule_scope_def by (simp only: list_all_append list.pred_inject simp_thms)
  qed
  moreover have "map_of (cl_headers c) ''authorization'' = None" using f(1) by (simp add: rule_headers_def map_of_eq_None_iff)
  ultimately have h: "header (rq_headers ?rq) ''authorization'' = Some ?h"
    unfolding hs header_def to_lowercase_lower by (simp add: map_add_def to_str_def)
  have d: "header (rq_headers ?rq) ''x-amz-date'' = Some (sg_date sg)"
    unfolding hs using f(1) by (intro rule_header(1) map_of_SomeD) (auto simp: rule_headers_def)
  have i: "parse_authorization_header ?h =
      Inr \<lparr>ai_access_key = key, ai_scope = credential_scope sg, ai_region = sg_region sg, ai_service = sg_service sg,
        ai_signed_headers = sg_headers sg, ai_signature = signature\<rparr>"
  proof -
    have "credential_scope sg = take 8 (sg_date sg) @ ''/'' @ sg_region sg @ ''/'' @ sg_service sg @ ''/aws4_request''"
      by (simp add: credential_scope_def)
    then show ?thesis using f(2,3) assms(2)
      by (simp only:) (intro parse_authorization_header_print; auto simp: rule_signed_def rule_scope_def list_all_iff)
  qed
  have "(\<exists>h' info. Some ?h = Some h' \<and> parse_authorization_header h' = Inr info \<and> Q info)
      \<longleftrightarrow> Q \<lparr>ai_access_key = key, ai_scope = credential_scope sg, ai_region = sg_region sg, ai_service = sg_service sg,
        ai_signed_headers = sg_headers sg, ai_signature = signature\<rparr>" for Q
    using i by auto
  then show ?thesis unfolding sigv4_iff h d using signature_sent [OF assms(1)] by auto
qed

text \<open>A listing with a prefix that needs an escape, signed by the rules and with a signature of another length.\<close>

definition length_hashes :: crypto where
  "length_hashes = example_crypto\<lparr>cr_hex := (\<lambda>d. nat_str (length d))\<rparr>"

definition example_listing :: client_request where
  "example_listing = \<lparr>cl_method = ''GET'', cl_path = ''/photos'', cl_params = [(''prefix'', ''a&b''), (''list-type'', ''2'')],
     cl_headers = [(''x-amz-date'', ''20250101T000000Z''), (''host'', ''h  1''), (''x-amz-content-sha256'', ''UNSIGNED-PAYLOAD'')]\<rparr>"

definition example_scope :: signing_scope where
  "example_scope = \<lparr>sg_date = ''20250101T000000Z'', sg_region = ''r'', sg_service = ''s3'', sg_headers = [''host'', ''x-amz-date'']\<rparr>"

definition example_authorization :: "string \<Rightarrow> string" where
  "example_authorization signature =
     authorization_header ''ak'' (take 8 (sg_date example_scope)) (sg_region example_scope) (sg_service example_scope)
       (sg_headers example_scope) signature"

lemma example_follows_rules: "follows_rules example_listing example_scope"
  by code_simp

lemma example_signed: "signature_of length_hashes (secret_key example_cred) example_listing example_scope = ''197''"
  by code_simp

theorem sigv4_accepts_iff_witness:
  "validate_sigv4 length_hashes example_cred 60000000000 (sent_request example_listing (example_authorization ''197'')) = Accepted
   \<and> validate_sigv4 length_hashes example_cred 60000000000 (sent_request example_listing (example_authorization ''198'')) \<noteq> Accepted
   \<and> validate_sigv4 length_hashes example_cred 961000000000 (sent_request example_listing (example_authorization ''197'')) \<noteq> Accepted"
proof -
  have p: "list_all (\<lambda>s. plain s \<and> list_all visible s) [''ak'', ''197'']" "list_all (\<lambda>s. plain s \<and> list_all visible s) [''ak'', ''198'']"
    by code_simp+
  have k: "access_key example_cred = ''ak''" "cr_parse_date length_hashes (sg_date example_scope) = Some 0"
    by (simp_all add: example_cred_def length_hashes_def example_crypto_def example_scope_def)
  note a = sigv4_accepts_iff [OF example_follows_rules p(1), of length_hashes example_cred, unfolded example_signed k]
    and b = sigv4_accepts_iff [OF example_follows_rules p(2), of length_hashes example_cred, unfolded example_signed k]
  show ?thesis unfolding example_authorization_def a b by simp
qed

end
