(* ===== verification/Node_Workers.thy ===== *)
theory Node_Workers
  imports Api_Gc Repl_Coordinator Raft_Node
begin

text \<open>
  The tasks a node runs in the background: the collector (\<open>run_gc_worker\<close> of
  \<open>crates/save-api/src/gc.rs\<close>), the cleanup of the bucket cache, of stale prepared writes
  (\<open>run_stale_prepare_cleanup_worker\<close> of \<open>crates/save-storage/src/replication/service.rs\<close>, with a copy in
  \<open>main.rs\<close>) and the synchronisation of the replication coordinator with the members of the Raft
  cluster (\<open>crates/save-api/src/main.rs\<close>). Each is a loop over the ticks of a clock until the signal
  to stop. Metrics are left out.
\<close>

section \<open>Loops over ticks\<close>

text \<open>
  What wakes a worker: a tick, with what the worker reads of the node then, or the signal to stop.
  The state it works on is shared: a tick also carries what the rest of the node did to it since the
  worker was last awake. A run is a finite list of wake-ups; the boolean of the result says whether
  the worker has stopped.
\<close>

datatype ('e, 's) wakeup = Tick 'e "'s \<Rightarrow> 's" | Stop

fun worker_steps :: "('e \<Rightarrow> 's \<Rightarrow> 's) \<Rightarrow> ('e, 's) wakeup list \<Rightarrow> 's \<Rightarrow> 's \<times> bool" where
  "worker_steps tick [] s = (s, False)"
| "worker_steps tick (Tick e meanwhile # es) s = worker_steps tick es (tick e (meanwhile s))"
| "worker_steps tick (Stop # es) s = (s, True)"

text \<open>A clock with a period of zero panics when it is made: the result is \<open>None\<close>.\<close>

definition run_worker :: "u64 \<Rightarrow> ('e \<Rightarrow> 's \<Rightarrow> 's) \<Rightarrow> ('e, 's) wakeup list \<Rightarrow> 's \<Rightarrow> ('s \<times> bool) option" where
  "run_worker interval_secs tick es s = (if interval_secs = 0 then None else Some (worker_steps tick es s))"

section \<open>The workers\<close>

text \<open>A cycle of the collector reads the metadata store and the clock; its errors are only logged.\<close>

definition gc_tick :: "('d, 'v) env \<Rightarrow> path \<Rightarrow> GcConfig \<Rightarrow> 'd \<times> instant \<Rightarrow> fs \<Rightarrow> fs" where
  "gc_tick E temp config = (\<lambda>(metadata, now) s. snd (run_gc_cycle E metadata temp config now s))"

definition run_gc_worker ::
  "('d, 'v) env \<Rightarrow> path \<Rightarrow> u64 \<Rightarrow> u64 \<Rightarrow> ('d \<times> instant, fs) wakeup list \<Rightarrow> fs \<Rightarrow> (fs \<times> bool) option" where
  "run_gc_worker E temp gc_interval_secs gc_temp_file_max_age_secs =
     run_worker gc_interval_secs
       (gc_tick E temp \<lparr>gc_interval = unat gc_interval_secs * 1000000000,
                        gc_temp_file_max_age = unat gc_temp_file_max_age_secs * 1000000000\<rparr>)"

definition run_cache_cleanup_worker ::
  "u64 \<Rightarrow> (instant, BucketCache) wakeup list \<Rightarrow> BucketCache \<Rightarrow> (BucketCache \<times> bool) option" where
  "run_cache_cleanup_worker bucket_cache_ttl_secs = run_worker (max bucket_cache_ttl_secs 60) cleanup_expired"

definition run_stale_prepare_cleanup_worker ::
  "u64 \<Rightarrow> u64 \<Rightarrow> (unit, ReplicationService) wakeup list \<Rightarrow> ReplicationService \<Rightarrow> (ReplicationService \<times> bool) option" where
  "run_stale_prepare_cleanup_worker interval_secs max_age_secs =
     run_worker interval_secs (\<lambda>_ svc. snd (cleanup_stale_prepares svc max_age_secs))"

text \<open>
  The coordinator is synchronised once before the loop, unless no other node is known, and then
  every second. Failures are only logged; what has been changed by then stays.
\<close>

definition sync_tick ::
  "(string \<Rightarrow> ReplicationService \<times> delivery list) \<Rightarrow> 'g RaftNode \<Rightarrow> 'g \<Rightarrow> ReplicationCoordinator \<Rightarrow> ReplicationCoordinator" where
  "sync_tick reach N g co = snd (sync_nodes reach co (get_cluster_replication_nodes N g))"

definition run_coordinator_sync_worker ::
  "(string \<Rightarrow> ReplicationService \<times> delivery list) \<Rightarrow> 'g RaftNode \<Rightarrow> 'g \<Rightarrow> ('g, ReplicationCoordinator) wakeup list
    \<Rightarrow> ReplicationCoordinator \<Rightarrow> (ReplicationCoordinator \<times> bool) option" where
  "run_coordinator_sync_worker reach N g es co =
     run_worker 1 (sync_tick reach N) es
       (if get_cluster_replication_nodes N g \<noteq> [] then sync_tick reach N g co else co)"

section \<open>What a loop keeps\<close>

text \<open>
  A worker keeps what its ticks keep, as long as the rest of the node keeps it too. After the signal
  it does nothing more.
\<close>

fun meanwhile_keeps :: "('s \<Rightarrow> bool) \<Rightarrow> ('e, 's) wakeup \<Rightarrow> bool" where
  "meanwhile_keeps ok Stop \<longleftrightarrow> True"
| "meanwhile_keeps ok (Tick e meanwhile) \<longleftrightarrow> (\<forall>s. ok s \<longrightarrow> ok (meanwhile s))"

locale ticking =
  fixes tick :: "'e \<Rightarrow> 's \<Rightarrow> 's" and ok :: "'s \<Rightarrow> bool"
  assumes tick_inv: "ok s \<Longrightarrow> ok (tick e s)"
begin

lemma steps_inv: "ok s \<Longrightarrow> \<forall>e \<in> set es. meanwhile_keeps ok e \<Longrightarrow> ok (fst (worker_steps tick es s))"
proof (induction es arbitrary: s)
  case (Cons e es)
  then show ?case by (cases e) (simp_all add: tick_inv)
qed simp

lemma run_inv:
  "ok s \<Longrightarrow> \<forall>e \<in> set es. meanwhile_keeps ok e \<Longrightarrow> run_worker n tick es s = Some (s', b) \<Longrightarrow> ok s'"
  using steps_inv [of s es] by (auto simp: run_worker_def split: if_splits)

end

lemma steps_append:
  "Stop \<notin> set es \<Longrightarrow> worker_steps tick (es @ fs) s = worker_steps tick fs (fst (worker_steps tick es s))"
  by (induction tick es s rule: worker_steps.induct) auto

lemma steps_stopped_iff: "snd (worker_steps tick es s) \<longleftrightarrow> Stop \<in> set es"
  by (induction tick es s rule: worker_steps.induct) auto

lemma run_worker_stops: "n \<noteq> 0 \<Longrightarrow> \<exists>s'. run_worker n tick es s = Some (s', Stop \<in> set es)"
  using steps_stopped_iff [of tick es s] by (cases "worker_steps tick es s") (auto simp: run_worker_def)

section \<open>The collector\<close>

lemma gc_tick_keeps: "\<not> prefix temp q \<Longrightarrow> files (gc_tick E temp config e s) q = files s q"
proof (rule ccontr)
  assume a: "\<not> prefix temp q" "files (gc_tick E temp config e s) q \<noteq> files s q"
  obtain d now where e: "e = (d, now)" by fastforce
  obtain l s1 where l: "list_temp_files s temp = (l, s1)" by fastforce
  note sound = list_temp_files_sound [OF l]
  have s1: "files s1 = files s" using sound by (auto simp: fun_eq_iff)
  from a(2) e l s1 obtain active fs where f: "l = Inr fs" and
    g: "files (snd (gc_loop config now active fs (0, 0) s1)) q \<noteq> files s1 q"
    by (cases "get_active_upload_ids E d"; cases l) (auto simp: gc_tick_def run_gc_cycle_def case_prod_beta)
  from gc_loop_effect [of config now active fs "(0, 0)" s1 _ _ q, OF prod.collapse [symmetric]] g obtain t where "(q, t) \<in> set fs" by blast
  with sound f a(1) show False by blast
qed

interpretation collector: ticking "gc_tick E temp config" "\<lambda>s. prefix temp q \<or> files s q = c" for E temp config q c
  by unfold_locales (metis gc_tick_keeps)

lemma collector_keeps_objects:
  assumes "run_gc_worker E temp n m es s = Some (s', b)" and "\<not> prefix temp q"
    and "\<forall>e \<in> set es. meanwhile_keeps (\<lambda>s. files s q = files s0 q) e" and "files s q = files s0 q"
  shows "files s' q = files s0 q"
  using collector.run_inv [of temp q s "files s0 q" es] assms by (simp add: run_gc_worker_def)

section \<open>The coordinator follows the members\<close>

lemma add_node_local: "local_node_id (snd (add_node reach co n addr)) = local_node_id co \<and> co_tls (snd (add_node reach co n addr)) = co_tls co"
  by (auto simp: add_node_def Let_def split: option.splits sum.splits)

lemma add_node_succeeds: "\<not> (\<exists>e. co_tls co = Some (Inl e)) \<Longrightarrow> fst (add_node reach co n addr) = Inr ()"
  by (auto simp: add_node_def Let_def split: option.splits sum.splits)

lemma add_new_nodes_local:
  "local_node_id (snd (add_new_nodes reach current co nodes)) = local_node_id co \<and> co_tls (snd (add_new_nodes reach current co nodes)) = co_tls co"
proof (induction reach current co nodes rule: add_new_nodes.induct)
  case (2 reach current co node_id addr nodes)
  then show ?case using add_node_local [of reach co node_id addr] by (auto split: prod.splits sum.splits)
qed simp

lemma add_new_nodes_succeeds: "\<not> (\<exists>e. co_tls co = Some (Inl e)) \<Longrightarrow> fst (add_new_nodes reach current co nodes) = Inr ()"
proof (induction reach current co nodes rule: add_new_nodes.induct)
  case (2 reach current co node_id addr nodes)
  obtain x co1 where a: "add_node reach co node_id addr = (x, co1)" by fastforce
  with add_node_succeeds [OF 2(3), of reach node_id addr] have "x = Inr ()" by simp
  moreover have "co_tls co1 = co_tls co" using add_node_local [of reach co node_id addr] a by simp
  ultimately show ?case using 2 a by (auto split: if_splits)
qed simp

lemma remove_nodes_tls: "co_tls (foldl remove_node co ns) = co_tls co"
  by (induction ns arbitrary: co) (simp_all add: remove_node_def)

text \<open>A coordinator whose certificates can be read, or that has none.\<close>

definition syncable :: "u64 \<Rightarrow> ReplicationCoordinator \<Rightarrow> bool" where
  "syncable i co \<longleftrightarrow> coordinator_inv co \<and> local_node_id co = i \<and> \<not> (\<exists>e. co_tls co = Some (Inl e))"

lemma sync_nodes_ok:
  assumes "syncable i co"
  shows "syncable i (snd (sync_nodes reach co nodes))
    \<and> set (connected_nodes (snd (sync_nodes reach co nodes))) = fst ` set nodes - {i}"
proof -
  let ?gone = "filter (\<lambda>n. n \<notin> fst ` set nodes) (connected_nodes co)"
  have t: "co_tls (foldl remove_node co ?gone) = co_tls co" "local_node_id (foldl remove_node co ?gone) = local_node_id co"
    using remove_nodes_tls remove_nodes_clients by blast+
  have u: "sync_nodes reach co nodes = add_new_nodes reach (connected_nodes co) (foldl remove_node co ?gone) nodes"
    by (simp add: sync_nodes_def Let_def)
  have "fst (sync_nodes reach co nodes) = Inr ()"
    unfolding u by (rule add_new_nodes_succeeds) (use assms t in \<open>simp add: syncable_def\<close>)
  then have s: "sync_nodes reach co nodes = (Inr (), snd (sync_nodes reach co nodes))" by (simp add: prod_eq_iff)
  have "local_node_id (snd (sync_nodes reach co nodes)) = i" "co_tls (snd (sync_nodes reach co nodes)) = co_tls co"
    using add_new_nodes_local t assms unfolding u syncable_def by metis+
  with sync_nodes_membership [OF _ s] assms show ?thesis by (simp add: syncable_def)
qed

lemma sync_tick_ok: "syncable i co \<Longrightarrow> syncable i (sync_tick reach N g co)"
  using sync_nodes_ok [of i co reach "get_cluster_replication_nodes N g"] by (simp add: sync_tick_def)

interpretation sync: ticking "sync_tick reach N" "syncable i" for reach N i
  by unfold_locales (rule sync_tick_ok)

lemma run_sync: "run_coordinator_sync_worker reach N g es co = Some (worker_steps (sync_tick reach N) es
    (if get_cluster_replication_nodes N g \<noteq> [] then sync_tick reach N g co else co))"
  by (simp add: run_coordinator_sync_worker_def run_worker_def)

text \<open>The other nodes that a node knows from Raft.\<close>

lemma replication_nodes_ids:
  "fst ` set (get_cluster_replication_nodes N g) =
     {i \<in> member_ids (rn_raft N) g. i \<noteq> rn_node_id N \<and> address_of (rn_raft N) g i \<noteq> None}"
proof -
  let ?m = "or_metrics (rn_raft N) g"
  have "fst ` set (List.map_filter (\<lambda>i. if i \<noteq> n then map_option (\<lambda>x. (i, sn_replication_addr x)) (f i) else None) is) =
      {i \<in> set is. i \<noteq> n \<and> f i \<noteq> None}" for n f "is"
    by (induction "is") (auto simp: map_filter_simps split: option.splits)
  from this [of "rn_node_id N" "rm_nodes ?m" "rm_voter_ids ?m @ rm_learner_ids ?m"] show ?thesis
    by (simp add: get_cluster_replication_nodes_def member_ids_def address_of_def Let_def)
qed

text \<open>
  C14: The coordinator follows the membership of the cluster. Whatever the worker did before and
  whatever requests did to the coordinator in between, a tick leaves it connected to exactly the
  other members that Raft knows an address of, and it stays so when the node is told to stop.
\<close>

theorem coordinator_follows_members:
  assumes "syncable (rn_node_id N) co" and "Stop \<notin> set es"
    and "\<forall>e \<in> set es. meanwhile_keeps (syncable (rn_node_id N)) e" and "meanwhile_keeps (syncable (rn_node_id N)) (Tick g f)"
  shows "\<exists>co'. run_coordinator_sync_worker reach N g0 (es @ [Tick g f]) co = Some (co', False)
    \<and> run_coordinator_sync_worker reach N g0 (es @ Tick g f # Stop # rest) co = Some (co', True)
    \<and> set (connected_nodes co') = {i \<in> member_ids (rn_raft N) g. i \<noteq> rn_node_id N \<and> address_of (rn_raft N) g i \<noteq> None}"
proof -
  let ?co0 = "if get_cluster_replication_nodes N g0 \<noteq> [] then sync_tick reach N g0 co else co"
  let ?co1 = "fst (worker_steps (sync_tick reach N) es ?co0)"
  have "syncable (rn_node_id N) ?co0" by (simp add: sync_tick_ok assms(1))
  from sync.steps_inv [OF this assms(3)] have "syncable (rn_node_id N) ?co1" .
  with assms(4) have "syncable (rn_node_id N) (f ?co1)" by simp
  from sync_nodes_ok [OF this] have "set (connected_nodes (sync_tick reach N g (f ?co1))) =
      fst ` set (get_cluster_replication_nodes N g) - {rn_node_id N}" by (simp add: sync_tick_def)
  then have "set (connected_nodes (sync_tick reach N g (f ?co1))) =
      {i \<in> member_ids (rn_raft N) g. i \<noteq> rn_node_id N \<and> address_of (rn_raft N) g i \<noteq> None}"
    by (auto simp: replication_nodes_ids)
  then show ?thesis using assms(2) by (simp add: run_sync steps_append)
qed

text \<open>A node that has learned of two others, one of which has left when the worker wakes up again.\<close>

definition sync_example :: "u64 list \<Rightarrow> table_raft" where
  "sync_example is = \<lparr>tr_self = 1, tr_leader = Some 1, tr_voters = is,
     tr_nodes = map (\<lambda>i. (i, \<lparr>sn_raft_addr = ''r'', sn_http_addr = ''h'', sn_replication_addr = ''p''\<rparr>)) is\<rparr>"

theorem coordinator_follows_members_witness:
  "\<exists>co. run_coordinator_sync_worker (\<lambda>_. (example_service, [])) \<lparr>rn_raft = table_openraft, rn_node_id = 1\<rparr>
       (sync_example [1, 2, 3]) [Tick (sync_example [1, 2, 3]) (\<lambda>co. co\<lparr>request_counter := 7\<rparr>), Tick (sync_example [1, 3]) (\<lambda>co. co)]
       (ReplicationCoordinator_new 1 (with_replication_factor 3)) = Some (co, False)
     \<and> set (connected_nodes co) = {3}"
proof -
  let ?N = "\<lparr>rn_raft = table_openraft, rn_node_id = 1 :: u64\<rparr>"
  have s: "syncable (rn_node_id ?N) (ReplicationCoordinator_new 1 (with_replication_factor 3))"
    by (simp add: syncable_def ReplicationCoordinator_new_def coordinator_inv_def)
  have k: "\<forall>e \<in> set [Tick (sync_example [1, 2, 3]) (\<lambda>co. co\<lparr>request_counter := 7\<rparr>)]. meanwhile_keeps (syncable (rn_node_id ?N)) e"
    "meanwhile_keeps (syncable (rn_node_id ?N)) (Tick (sync_example [1, 3]) (\<lambda>co. co))"
    by (auto simp: syncable_def coordinator_inv_def image_iff)
  have "{i \<in> member_ids table_openraft (sync_example [1, 3]). i \<noteq> 1 \<and> address_of table_openraft (sync_example [1, 3]) i \<noteq> None} = {3}"
    by (auto simp: table_views sync_example_def)
  with coordinator_follows_members [OF s _ k] show ?thesis by fastforce
qed

text \<open>
  The intervals of the collector and of the cleanup of stale writes are not validated: a
  configuration with zero is accepted and the worker panics when it starts.
\<close>

lemma zero_interval_panics:
  "run_gc_worker E temp 0 m es s = None" "run_stale_prepare_cleanup_worker 0 m es' svc = None"
  by (simp_all add: run_gc_worker_def run_stale_prepare_cleanup_worker_def run_worker_def)

end
