(* ===== verification/Raft_Writes.thy ===== *)
theory Raft_Writes
  imports Raft_Apply
begin

text \<open>
  What openraft may do to the store while it starts or initializes a group. It has the store only
  through the operations of \<open>RaftStorage\<close> (\<open>crates/save-metadata/src/raft/storage.rs\<close>, modelled in
  \<open>Raft_Log\<close> and \<open>Raft_Apply\<close>); those that it uses there, where no command of a client is applied, write
  votes, entries of the log and memberships, and keep the metadata.
\<close>

section \<open>The operations\<close>

definition without_commands :: "(instant \<times> 'mem Entry) list \<Rightarrow> bool" where
  "without_commands es \<longleftrightarrow> list_all (\<lambda>(_, e). case entry_payload e of Normal _ \<Rightarrow> False | _ \<Rightarrow> True) es"

inductive raft_writes :: "('d, 'v) env \<Rightarrow> ('vote, 'mem, 'd, 'v) raft_codecs \<Rightarrow> 'd \<Rightarrow> 'd \<Rightarrow> bool" for E C where
  no_write: "raft_writes E C d d"
| voted: "raft_writes E C d d1 \<Longrightarrow> raft_writes E C d (snd (save_vote E C d1 vote))"
| appended: "raft_writes E C d d1 \<Longrightarrow> raft_writes E C d (snd (append_to_log E C d1 es))"
| conflicts_deleted: "raft_writes E C d d1 \<Longrightarrow> raft_writes E C d (snd (delete_conflict_logs_since E C d1 i))"
| purged: "raft_writes E C d d1 \<Longrightarrow> raft_writes E C d (snd (purge_logs_upto E C d1 i))"
| applied: "raft_writes E C d d1 \<Longrightarrow> without_commands es \<Longrightarrow> raft_writes E C d (snd (apply_to_state_machine E C d1 es))"

section \<open>They keep the metadata\<close>

lemma raft_families: "CF_RAFT_LOG \<noteq> CF_DEFAULT" "CF_RAFT_STATE \<noteq> CF_DEFAULT"
  by (simp_all add: cf_defs)

definition same_metadata :: "('d \<Rightarrow> string \<Rightarrow> string \<rightharpoonup> 'v) \<Rightarrow> 'd \<Rightarrow> 'd \<Rightarrow> bool" where
  "same_metadata contents d d' \<longleftrightarrow> contents d' CF_DEFAULT = contents d CF_DEFAULT"

lemma raft_writes_err_Inr: "write_err x = Inr y \<longleftrightarrow> x = Inr y"
  by (cases x) auto

context metadata_env
begin

abbreviation "same_data \<equiv> same_metadata contents"

lemma same_refl [simp]: "same_data d d"
  by (simp add: same_metadata_def)

lemma same_trans: "same_data d d1 \<Longrightarrow> same_data d1 d2 \<Longrightarrow> same_data d d2"
  by (simp add: same_metadata_def)

lemma put_same: "db_put E d cf k v = Inr d' \<Longrightarrow> cf \<noteq> CF_DEFAULT \<Longrightarrow> same_data d d'"
  by (drule put_law) (simp add: same_metadata_def)

lemma delete_same: "db_delete E d cf k = Inr d' \<Longrightarrow> cf \<noteq> CF_DEFAULT \<Longrightarrow> same_data d d'"
  by (drule delete_law) (simp add: same_metadata_def)

lemma same_step:
  assumes "same_data d d1" and "\<And>r d'. x = (r, d') \<Longrightarrow> same_data d1 d'"
  shows "same_data d (snd x)"
  using assms by (metis prod.collapse same_trans)

lemma state_writes_same:
  "write_log_id E C d key i = (r, d') \<Longrightarrow> same_data d d'"
  "delete_key E d key = (r, d') \<Longrightarrow> same_data d d'"
  "save_vote E C d vote = (r, d') \<Longrightarrow> same_data d d'"
  using raft_families
  by (auto simp: write_log_id_def delete_key_def save_vote_def state_cf_def raft_writes_err_Inr intro: put_same delete_same
      split: sum.splits if_splits)

lemma append_loop_same: "append_loop E C d cf es l = (r, d') \<Longrightarrow> cf \<noteq> CF_DEFAULT \<Longrightarrow> same_data d d'"
  by (induction es arbitrary: d l) (auto simp: raft_writes_err_Inr intro: same_trans put_same split: sum.splits)

lemma append_to_log_same: "append_to_log E C d es = (r, d') \<Longrightarrow> same_data d d'"
proof -
  assume a: "append_to_log E C d es = (r, d')"
  obtain x d1 where l: "append_loop E C d CF_RAFT_LOG es None = (x, d1)" by fastforce
  have "d' = d \<or> d' = d1 \<or> (\<exists>i y. write_log_id E C d1 ''last_log_id'' i = (y, d'))"
    using a l by (auto simp: append_to_log_def append_log_def log_cf_def split: sum.splits if_splits prod.splits option.splits)
  with append_loop_same [OF l raft_families(1)] show ?thesis by (auto intro: same_trans state_writes_same(1))
qed

lemma delete_range_loop_same: "delete_range_loop E d cf a b = (r, d') \<Longrightarrow> cf \<noteq> CF_DEFAULT \<Longrightarrow> same_data d d'"
proof (induction "unat b - unat a" arbitrary: d a rule: less_induct)
  case less
  show ?case
  proof (cases "a < b")
    case True
    then have m: "unat b - unat (a + 1) < unat b - unat a" by (simp add: less_word_succ_measure)
    from True less.prems(1) obtain d1 where "d' = d \<or> db_delete E d cf (index_to_key a) = Inr d1 \<and> delete_range_loop E d1 cf (a + 1) b = (r, d')"
      by (subst (asm) delete_range_loop.simps) (auto simp: raft_writes_err_Inr split: sum.splits if_splits)
    with less.hyps [OF m] less.prems(2) show ?thesis by (auto intro: same_trans delete_same)
  next
    case False
    with less.prems show ?thesis
      by (subst (asm) delete_range_loop.simps) (auto simp: raft_writes_err_Inr intro: delete_same split: sum.splits if_splits)
  qed
qed

lemma delete_range_same: "delete_range E d a b = (r, d') \<Longrightarrow> same_data d d'"
  using raft_families by (auto simp: delete_range_def log_cf_def dest: delete_range_loop_same split: sum.splits if_splits)

lemma log_deletions_same:
  "delete_conflict_logs_since E C d i = (r, d') \<Longrightarrow> same_data d d'"
  "purge_logs_upto E C d i = (r, d') \<Longrightarrow> same_data d d'"
  by (auto simp: delete_conflict_logs_since_def purge_logs_upto_def Let_def dest: delete_range_same
      intro: same_trans state_writes_same(1,2) split: sum.splits if_splits prod.splits option.splits)

lemma apply_entry_same:
  assumes "apply_entry E C now d e = (r, d')" and "case entry_payload e of Normal _ \<Rightarrow> False | _ \<Rightarrow> True"
  shows "same_data d d'"
  using assms raft_families
  by (auto simp: apply_entry_def state_cf_def Let_def raft_writes_err_Inr intro: put_same split: EntryPayload.splits sum.splits if_splits)

lemma apply_loop_same: "apply_loop E C d es l rs = (r, d') \<Longrightarrow> without_commands es \<Longrightarrow> same_data d d'"
proof (induction es arbitrary: d l rs)
  case (Cons x es)
  obtain now e where x: "x = (now, e)" by fastforce
  obtain y d1 where y: "apply_entry E C now d e = (y, d1)" by fastforce
  have "same_data d d1" using apply_entry_same [OF y] Cons.prems(2) by (simp add: without_commands_def x)
  with Cons.prems Cons.IH [of d1] x y show ?case by (auto simp: without_commands_def intro: same_trans split: sum.splits)
qed simp

lemma apply_to_state_machine_same:
  "apply_to_state_machine E C d es = (r, d') \<Longrightarrow> without_commands es \<Longrightarrow> same_data d d'"
  by (auto simp: apply_to_state_machine_def dest: apply_loop_same intro: same_trans state_writes_same(1)
      split: sum.splits prod.splits option.splits)

lemma raft_writes_same: "raft_writes E C d d' \<Longrightarrow> same_data d d'"
  by (induction rule: raft_writes.induct; (rule same_step)?)
    (auto dest: state_writes_same(3) append_to_log_same log_deletions_same apply_to_state_machine_same)

end

lemma raft_writes_keep_data:
  assumes "metadata_env E contents" and "raft_writes E C d d'"
  shows "contents d' CF_DEFAULT = contents d CF_DEFAULT"
  using metadata_env.raft_writes_same [OF assms] by (simp add: same_metadata_def)

end
