(* ===== verification/Common_Backoff.thy ===== *)
theory Common_Backoff
  imports Complex_Main Common_Retry Common_Config
begin

text \<open>
  The delays between the attempts of a retried operation, \<open>delay_for_attempt\<close> and \<open>apply_jitter\<close> of
  \<open>crates/save-common/src/retry.rs\<close>, and the conversion from the settings of the configuration
  (\<open>crates/save-common/src/lib.rs\<close>). The two floating-point fields of the configuration, which only the
  delays use, extend the record of \<open>Common_Retry\<close>. Floating-point numbers are rational numbers here:
  multiplying by a power of two is exact in both, and the rounding of the jitter is below a
  millisecond for every delay below \<open>2 ^ 52\<close> milliseconds. Durations are in milliseconds.
\<close>

section \<open>Configuration\<close>

record BackoffConfig = RetryConfig +
  multiplier :: rat
  jitter :: rat

definition BackoffConfig_default :: BackoffConfig where
  "BackoffConfig_default = RetryConfig.extend RetryConfig_default \<lparr>multiplier = 2, jitter = 1 / 5\<rparr>"

record JitteredSettings = RetrySettings +
  rts_jitter :: rat

definition RetryConfig_from :: "'a RetrySettings_scheme \<Rightarrow> RetryConfig" where
  "RetryConfig_from settings =
     \<lparr>max_retries = rts_max_attempts settings, initial_delay_ms = unat (rts_initial_delay_ms settings),
      max_delay_ms = unat (rts_max_delay_ms settings)\<rparr>"

definition BackoffConfig_from :: "JitteredSettings \<Rightarrow> BackoffConfig" where
  "BackoffConfig_from settings =
     RetryConfig.extend (RetryConfig_from settings) \<lparr>multiplier = 2, jitter = rts_jitter settings\<rparr>"

section \<open>Delays\<close>

text \<open>Rust's \<open>as u64\<close> of a floating-point number cuts off the fraction and saturates.\<close>

definition as_u64 :: "rat \<Rightarrow> nat" where
  "as_u64 x = min (2 ^ 64 - 1) (nat \<lfloor>x\<rfloor>)"

text \<open>
  The random number \<open>r\<close> lies between 0 and 1; \<open>random_range\<close> scales it to the given range, and panics
  (here \<open>None\<close>) when the range is empty.
\<close>

definition random_range :: "rat \<Rightarrow> rat \<Rightarrow> rat \<Rightarrow> rat option" where
  "random_range r lo hi = (if lo < hi then Some (lo + r * (hi - lo)) else None)"

definition apply_jitter :: "'a BackoffConfig_scheme \<Rightarrow> rat \<Rightarrow> nat \<Rightarrow> nat option" where
  "apply_jitter config r delay =
     (if jitter config \<le> 0 then Some delay
      else
        (let jitter_range = of_nat delay * jitter config in
         case random_range r (- jitter_range) jitter_range of
           None \<Rightarrow> None
         | Some jitter_offset \<Rightarrow> Some (as_u64 (max (of_nat delay + jitter_offset) 1))))"

definition base_delay :: "'a BackoffConfig_scheme \<Rightarrow> u32 \<Rightarrow> nat" where
  "base_delay config attempt =
     (if attempt = 0 then initial_delay_ms config
      else min (as_u64 (of_nat (initial_delay_ms config) * power_int (multiplier config) (sint attempt))) (max_delay_ms config))"

definition delay_for_attempt :: "'a BackoffConfig_scheme \<Rightarrow> rat \<Rightarrow> u32 \<Rightarrow> nat option" where
  "delay_for_attempt config r attempt = apply_jitter config r (base_delay config attempt)"

section \<open>Bounds\<close>

lemma as_u64_of_nat [simp]: "n < 2 ^ 64 \<Longrightarrow> as_u64 (of_nat n) = n"
  by (simp add: as_u64_def)

lemma jitter_bounds:
  assumes "0 \<le> r" "r < 1" "0 < jitter c" "jitter c \<le> 1" "0 < b" "2 * b < 2 ^ 64"
  shows "\<exists>d. apply_jitter c r b = Some d \<and> 1 \<le> d \<and> (1 - jitter c) * of_nat b - 1 < of_nat d
    \<and> of_nat d \<le> max 1 ((1 + jitter c) * of_nat b)"
proof -
  let ?j = "of_nat b * jitter c" and ?x = "of_nat b + (- (of_nat b * jitter c) + r * (of_nat b * jitter c - - (of_nat b * jitter c)))"
  have j: "0 < ?j" "?j \<le> of_nat b" using assms by (simp_all add: mult_left_le)
  have x: "(1 - jitter c) * of_nat b \<le> ?x" "?x \<le> (1 + jitter c) * of_nat b" "?x \<le> 2 * of_nat b"
  proof -
    have "0 \<le> r * (2 * ?j)" "r * (2 * ?j) \<le> 2 * ?j" using assms j by (simp_all add: mult_left_le_one_le)
    then show "(1 - jitter c) * of_nat b \<le> ?x" "?x \<le> (1 + jitter c) * of_nat b" "?x \<le> 2 * of_nat b"
      using j by (simp_all add: algebra_simps)
  qed
  define m where "m = \<lfloor>max ?x 1\<rfloor>"
  have m1: "1 \<le> m" by (simp add: m_def le_floor_iff)
  have "max ?x 1 \<le> of_nat (2 * b)" using x(3) assms(5) by simp
  then have "m \<le> int (2 * b)" unfolding m_def by (metis floor_mono floor_of_nat)
  then have m2: "nat m < 2 ^ 64" using assms(6) m1 by linarith
  have a: "apply_jitter c r b = Some (nat m)"
    using assms j m2 by (simp add: apply_jitter_def random_range_def Let_def as_u64_def m_def)
  have n: "of_nat (nat m) = (of_int m :: rat)" using m1 by simp
  have "of_int m \<le> max ?x 1" "max ?x 1 < of_int m + 1" unfolding m_def by linarith+
  with x n have "(1 - jitter c) * of_nat b - 1 < of_nat (nat m)" "of_nat (nat m) \<le> max 1 ((1 + jitter c) * of_nat b)" by linarith+
  with a m1 show ?thesis by auto
qed

lemma base_delay_eq:
  assumes "multiplier c = 2" "sint attempt = int n" "initial_delay_ms c \<le> max_delay_ms c" "max_delay_ms c < 2 ^ 64"
  shows "base_delay c attempt = min (initial_delay_ms c * 2 ^ n) (max_delay_ms c)"
proof (cases "attempt = 0")
  case True
  with assms show ?thesis by (simp add: base_delay_def)
next
  case False
  have "of_nat (initial_delay_ms c) * power_int 2 (sint attempt) = (of_nat (initial_delay_ms c * 2 ^ n) :: rat)"
    by (simp add: assms(2))
  then have "base_delay c attempt = min (as_u64 (of_nat (initial_delay_ms c * 2 ^ n))) (max_delay_ms c)"
    using False assms(1) by (simp add: base_delay_def del: of_nat_mult of_nat_power)
  moreover have "as_u64 (of_nat (initial_delay_ms c * 2 ^ n)) = min (2 ^ 64 - 1) (initial_delay_ms c * 2 ^ n)"
    unfolding as_u64_def floor_of_nat nat_int ..
  ultimately show ?thesis using assms(4) by (simp add: min_def)
qed

section \<open>Properties\<close>

text \<open>
  The delay before the next attempt doubles with each attempt up to the configured maximum, and
  the jitter moves it by at most its fraction: it is at least one millisecond, and, up to the cut-off
  of the fraction of a millisecond, between \<open>1 - jitter\<close> and \<open>1 + jitter\<close> times the doubled delay.
\<close>

theorem delay_within_jitter:
  assumes "multiplier c = 2" and "0 < jitter c" and "jitter c \<le> 1" and "0 < initial_delay_ms c"
    and "initial_delay_ms c \<le> max_delay_ms c" and "2 * max_delay_ms c < 2 ^ 64" and "0 \<le> r" and "r < 1" and "attempt < 2 ^ 31"
  shows "\<exists>d b. delay_for_attempt c r attempt = Some d \<and> b = min (initial_delay_ms c * 2 ^ unat attempt) (max_delay_ms c)
    \<and> 1 \<le> d \<and> (1 - jitter c) * of_nat b - 1 < of_nat d \<and> of_nat d \<le> max 1 ((1 + jitter c) * of_nat b)"
proof -
  let ?b = "min (initial_delay_ms c * 2 ^ unat attempt) (max_delay_ms c)"
  have "uint attempt < 2 ^ 31" using assms(9) by (simp add: word_less_def)
  then have "sint attempt = int (unat attempt)" by (simp add: sint_uint signed_take_bit_int_eq_self order_trans [OF _ uint_ge_0])
  from base_delay_eq [OF assms(1) this assms(5)] assms(6) have b: "base_delay c attempt = ?b" by simp
  have "0 < ?b" using assms(4,5) by simp
  moreover have "2 * ?b < 2 ^ 64" using assms(6) by simp
  ultimately show ?thesis
    using jitter_bounds [OF assms(7,8,2,3), of ?b] unfolding delay_for_attempt_def b by blast
qed

theorem delay_within_jitter_witness:
  "\<exists>d. delay_for_attempt BackoffConfig_default (1 / 2) 4 = Some d \<and> (4 / 5) * 1600 - 1 < (of_nat d :: rat) \<and> of_nat d \<le> (6 / 5) * (1600 :: rat)"
  using delay_within_jitter [of BackoffConfig_default "1 / 2" 4]
  by (auto simp: BackoffConfig_default_def RetryConfig_default_def RetryConfig.defs)

text \<open>
  The first delay is not capped by the maximum, and the jitter is added after capping, so a delay may
  be longer than the maximum.
\<close>

lemma delay_over_maximum:
  "delay_for_attempt \<lparr>max_retries = 3, initial_delay_ms = 100, max_delay_ms = 50, multiplier = 2, jitter = 0\<rparr> 0 0 = Some 100"
  "delay_for_attempt BackoffConfig_default (3 / 4) 9 = Some 5500"
  by (simp_all add: delay_for_attempt_def base_delay_def apply_jitter_def random_range_def as_u64_def
      BackoffConfig_default_def RetryConfig_default_def RetryConfig.defs Let_def)

text \<open>An initial delay of zero, which the configuration accepts, makes the jitter panic.\<close>

lemma zero_delay_panics:
  "0 < jitter c \<Longrightarrow> initial_delay_ms c = 0 \<Longrightarrow> delay_for_attempt c r attempt = None"
  by (simp add: delay_for_attempt_def base_delay_def apply_jitter_def random_range_def as_u64_def Let_def)

end
