(* ===== verification/Node_Main.thy ===== *)
theory Node_Main
  imports Node_Workers Api_Scaling Raft_Snapshot Raft_Writes Common_Backoff
begin

text \<open>
  Starting and stopping a node: \<open>crates/save-api/src/main.rs\<close>, the factory of the storage backend
  (\<open>crates/save-storage/src/factory.rs\<close>), opening the metadata store (\<open>crates/save-metadata/src/lib.rs\<close>) and
  creating the Raft node (\<open>crates/save-metadata/src/raft/node.rs\<close>). RocksDB, openraft and the sockets are
  outside code: a parameter says how each answers. Tasks that the source spawns are listed with
  what they are given; what they do is modelled in \<open>Node_Workers\<close>, \<open>Api_Scaling\<close>, \<open>Raft_Rpc\<close>,
  \<open>Repl_Server\<close>, \<open>Api_Admin\<close> and \<open>Api_Front\<close>.
\<close>

section \<open>The storage backend\<close>

text \<open>
  The trait object is one of the two backends. The coordinator that the source shares between the
  backend and the setup is the one value in both places.
\<close>

record StorageSetup =
  setup_backend :: "ObjectStorage + ReplicatedBackend"
  setup_coordinator :: "ReplicationCoordinator option"
  setup_replication_storage :: "ObjectStorage option"

definition create_storage_backend :: "path \<Rightarrow> string \<Rightarrow> ClusterConfig \<Rightarrow> fs \<Rightarrow> (StorageError + StorageSetup) \<times> fs" where
  "create_storage_backend base mode cluster_config s =
     (let n = unat (rpc_replication_factor (clc_replication cluster_config)) in
      if n \<le> 1 then
        (case new_with_fsync_mode s base mode of
           (Inl e, s') \<Rightarrow> (Inl e, s')
         | (Inr backend, s') \<Rightarrow>
             (Inr \<lparr>setup_backend = Inl backend, setup_coordinator = None, setup_replication_storage = None\<rparr>, s'))
      else
        (case new_with_fsync_mode s base mode of
           (Inl e, s') \<Rightarrow> (Inl e, s')
         | (Inr storage, s') \<Rightarrow>
             (let quorum_config = with_replication_factor n;
                  coordinator = (ReplicationCoordinator_new (clc_node_id cluster_config) quorum_config)
                    \<lparr>co_retry_config := RetryConfig_from (rpc_retry (clc_replication cluster_config))\<rparr>;
                  backend = \<lparr>rb_local = storage, rb_coordinator = coordinator, rb_quorum_config = quorum_config\<rparr> in
              (Inr \<lparr>setup_backend = Inr backend, setup_coordinator = Some coordinator,
                    setup_replication_storage = Some storage\<rparr>, s'))))"

section \<open>The metadata store\<close>

text \<open>
  The options given to RocksDB: those of the database, and those of each column family. Sizes are
  multiplied at the width of \<open>usize\<close>; an overflow panics in a build with overflow checks and wraps in
  others, which is what the words do.
\<close>

record BlockOptions =
  bo_cache_size :: u64
  bo_bloom_bits :: nat
  bo_block_size :: u64

record DbOptions =
  db_create_if_missing :: bool
  db_create_missing_column_families :: bool
  db_write_buffer_size :: "u64 option"
  db_max_write_buffer_number :: "int option"
  db_min_write_buffer_number_to_merge :: "int option"
  db_block_options :: "BlockOptions option"
  db_max_background_jobs :: "int option"
  db_statistics :: bool
  db_stats_dump_period_sec :: "nat option"

definition DbOptions_default :: DbOptions where
  "DbOptions_default =
     \<lparr>db_create_if_missing = False, db_create_missing_column_families = False, db_write_buffer_size = None,
      db_max_write_buffer_number = None, db_min_write_buffer_number_to_merge = None, db_block_options = None,
      db_max_background_jobs = None, db_statistics = False, db_stats_dump_period_sec = None\<rparr>"

type_synonym 'd open_db = "DbOptions \<Rightarrow> string \<Rightarrow> (string \<times> DbOptions) list \<Rightarrow> 'd \<Rightarrow> (string + unit) \<times> 'd"

definition new_with_config :: "'d open_db \<Rightarrow> string \<Rightarrow> MetadataConfig \<Rightarrow> 'd \<Rightarrow> (MetadataError + unit) \<times> 'd" where
  "new_with_config open_cf_descriptors p config d =
     (let block_opts = \<lparr>bo_cache_size = mdc_block_cache_size_mb config * 1024 * 1024, bo_bloom_bits = 10, bo_block_size = 16 * 1024\<rparr>;
          opts = DbOptions_default
            \<lparr>db_create_if_missing := True, db_create_missing_column_families := True,
             db_write_buffer_size := Some (mdc_write_buffer_size_mb config * 1024 * 1024),
             db_max_write_buffer_number := Some (mdc_max_write_buffer_number config),
             db_min_write_buffer_number_to_merge := Some 2, db_block_options := Some block_opts,
             db_max_background_jobs := Some (mdc_max_background_jobs config), db_statistics := True,
             db_stats_dump_period_sec := Some 300\<rparr>;
          cfs = map (\<lambda>name. (name, DbOptions_default)) [CF_DEFAULT, CF_RAFT_LOG, CF_RAFT_STATE, CF_RAFT_SNAPSHOT] in
      case open_cf_descriptors opts p cfs d of
        (Inl e, d') \<Rightarrow> (Inl (Database e), d')
      | (Inr _, d') \<Rightarrow> (Inr (), d'))"

section \<open>The Raft node\<close>

record RaftConfig =
  rc_heartbeat_interval :: u64
  rc_election_timeout_min :: u64
  rc_election_timeout_max :: u64
  rc_max_in_snapshot_log_to_keep :: u64

text \<open>
  Creating the instance reads the store; it gives the state of the group as the node finds it, or
  fails with a message. The instance keeps the store and writes to it: \<open>store_of\<close> is the store in the
  state of the group.
\<close>

type_synonym ('d, 'g) raft_new =
  "u64 \<Rightarrow> RaftConfig \<Rightarrow> (u64 \<times> string \<times> string \<times> string) list \<Rightarrow> 'd \<Rightarrow> (string + 'g) \<times> 'd"

definition with_config ::
  "'g openraft \<Rightarrow> ('d, 'g) raft_new \<Rightarrow> u64 \<Rightarrow> (u64 \<times> string \<times> string \<times> string) list \<Rightarrow> RaftConfig \<Rightarrow> 'd
     \<Rightarrow> (MetadataError + 'g RaftNode \<times> 'g) \<times> 'd" where
  "with_config R raft_new node_id peers config d =
     (case raft_new node_id config peers d of
        (Inl e, d') \<Rightarrow> (Inl (Raft e), d')
      | (Inr g, d') \<Rightarrow> (Inr (\<lparr>rn_raft = R, rn_node_id = node_id\<rparr>, g), d'))"

definition raft_config :: "ClusterConfig \<Rightarrow> RaftConfig" where
  "raft_config c =
     \<lparr>rc_heartbeat_interval = clc_heartbeat_interval_ms c, rc_election_timeout_min = clc_election_timeout_min_ms c,
      rc_election_timeout_max = clc_election_timeout_max_ms c, rc_max_in_snapshot_log_to_keep = 1000\<rparr>"

definition from_cluster_config ::
  "'g openraft \<Rightarrow> ('d, 'g) raft_new \<Rightarrow> ClusterConfig \<Rightarrow> 'd \<Rightarrow> (MetadataError + 'g RaftNode \<times> 'g) \<times> 'd" where
  "from_cluster_config R raft_new cluster_config d =
     (case parse_peers_to_tuples (clc_seed_nodes cluster_config) of
        Inl e \<Rightarrow> (Inl e, d)
      | Inr peers \<Rightarrow> with_config R raft_new (clc_node_id cluster_config) peers (raft_config cluster_config) d)"

datatype StartError = StorageFailed StorageError | MetadataFailed MetadataError | Failed string | Panicked string

definition self_peer_of :: "SaveConfig \<Rightarrow> Error + PeerInfo" where
  "self_peer_of config =
     from_bind_addrs (clc_node_id (cfg_cluster config)) (clc_raft_bind_addr (cfg_cluster config))
       (srv_bind_address (cfg_server config)) (rpc_bind_addr (clc_replication (cfg_cluster config)))"

text \<open>A node without seed nodes makes itself the only member, unless the store has a membership.\<close>

definition bootstrap_standalone :: "SaveConfig \<Rightarrow> 'g RaftNode \<times> 'g \<Rightarrow> (StartError + 'g RaftNode) \<times> 'g" where
  "bootstrap_standalone config Ng =
     (case Ng of (N, g) \<Rightarrow>
        if clc_seed_nodes (cfg_cluster config) = [] \<and> \<not> is_initialized N g then
          (case self_peer_of config of
             Inl e \<Rightarrow> (Inl (Failed (''Invalid bind address configuration: '' @ Error_to_string e)), g)
           | Inr peer \<Rightarrow>
             (case node_initialize N [peer] g of
                (Inr _, g') \<Rightarrow> (Inr N, g')
              | (Inl AlreadyInitialized, g') \<Rightarrow> (Inr N, g')
              | (Inl e, g') \<Rightarrow> (Inl (MetadataFailed e), g')))
        else (Inr N, g))"

definition bootstrapped :: "('g \<Rightarrow> 'd) \<Rightarrow> (StartError + 'g RaftNode) \<times> 'g \<Rightarrow> (StartError + 'g RaftNode \<times> 'g) \<times> 'd" where
  "bootstrapped store_of r = (case r of (Inl e, g) \<Rightarrow> (Inl e, store_of g) | (Inr N, g) \<Rightarrow> (Inr (N, g), store_of g))"

definition init_raft_node ::
  "('d, 'v) env \<Rightarrow> 'g openraft \<Rightarrow> ('g \<Rightarrow> 'd) \<Rightarrow> ('d, 'g) raft_new \<Rightarrow> SaveConfig \<Rightarrow> 'd \<Rightarrow> (StartError + 'g RaftNode \<times> 'g) \<times> 'd" where
  "init_raft_node E R store_of raft_new config d =
     (case from_cluster_config R raft_new (cfg_cluster config) d of
        (Inr Ng, d1) \<Rightarrow> bootstrapped store_of (bootstrap_standalone config Ng)
      | (Inl e, d1) \<Rightarrow>
        if is_recoverable_raft_corruption e then
          (case clear_raft_state E d1 of
             (Inl _, d2) \<Rightarrow> (Inl (MetadataFailed e), d2)
           | (Inr _, d2) \<Rightarrow>
             (case from_cluster_config R raft_new (cfg_cluster config) d2 of
                (Inl e', d3) \<Rightarrow> (Inl (MetadataFailed e'), d3)
              | (Inr Ng, d3) \<Rightarrow> bootstrapped store_of (bootstrap_standalone config Ng)))
        else (Inl (MetadataFailed e), d1))"

section \<open>Starting\<close>

text \<open>
  What the node is started in. The outcome of starting a server is what \<open>select!\<close> finds: \<open>None\<close> when
  the server is taken to run (for the Raft server also when it has not ended yet), otherwise how the
  task ended.
\<close>

datatype server_end = ServerFailed string | ServerPanicked string | ServerExited

record ('d, 'v, 'g) outside =
  out_env :: "('d, 'v) env"
  out_open_db :: "'d open_db"
  out_openraft :: "'g openraft"
  out_raft_new :: "('d, 'g) raft_new"
  out_store :: "'g \<Rightarrow> 'd"
  out_socket_addr :: "string \<Rightarrow> string + unit"
  out_raft_server :: "server_end option"
  out_internal_api :: "server_end option"
  out_listen :: "string \<Rightarrow> string + unit"

datatype task =
    RaftServer
  | ReplicationServer "TlsConfig option"
  | StalePrepareCleanup u64 u64
  | InternalApiServer "TlsConfig option" bool
  | GcWorker path u64 u64
  | MetricsWorker u64
  | CacheCleanupWorker u64
  | AutoJoinWorker PeerInfo
  | CoordinatorSyncWorker

record ('d, 'g) Node =
  nd_state :: "(ObjectStorage + ReplicatedBackend, 'd) AppState"
  nd_coordinator :: "ReplicationCoordinator option"
  nd_replication_service :: "ReplicationService option"
  nd_raft_node :: "'g RaftNode"
  nd_group :: 'g
  nd_joined :: bool
  nd_tasks :: "task list"

text \<open>A path of the configuration, taken apart at the slashes.\<close>

definition path_of :: "string \<Rightarrow> path" where
  "path_of s = filter (\<lambda>c. c \<noteq> []) (split_on CHR ''/'' s)"

definition init_storage ::
  "('d, 'v, 'g) outside \<Rightarrow> SaveConfig \<Rightarrow> fs \<times> 'd \<Rightarrow> (StartError + StorageSetup) \<times> fs \<times> 'd" where
  "init_storage out config sd =
     (case sd of (s, d) \<Rightarrow>
        case create_storage_backend (path_of (stc_data_path (cfg_storage config))) (stc_fsync_mode (cfg_storage config))
               (cfg_cluster config) s of
          (Inl e, s') \<Rightarrow> (Inl (StorageFailed e), s', d)
        | (Inr su, s') \<Rightarrow>
          (case new_with_config (out_open_db out) (stc_metadata_path (cfg_storage config)) (cfg_metadata config) d of
             (Inl e, d') \<Rightarrow> (Inl (MetadataFailed e), s', d')
           | (Inr _, d') \<Rightarrow> (Inr su, s', d')))"

definition parse_addr :: "('d, 'v, 'g) outside \<Rightarrow> string \<Rightarrow> StartError + unit" where
  "parse_addr out addr = (case out_socket_addr out addr of Inl e \<Rightarrow> Inl (Failed e) | Inr _ \<Rightarrow> Inr ())"

definition start_raft_server :: "('d, 'v, 'g) outside \<Rightarrow> StartError + task list" where
  "start_raft_server out =
     (case out_raft_server out of
        None \<Rightarrow> Inr [RaftServer]
      | Some (ServerFailed e) \<Rightarrow> Inl (Failed (''Raft server failed to start: '' @ e))
      | Some (ServerPanicked e) \<Rightarrow> Inl (Failed (''Raft server task panicked: '' @ e))
      | Some ServerExited \<Rightarrow> Inl (Failed ''Raft server exited unexpectedly''))"

text \<open>The address is looked at only when there is a replicated backend.\<close>

definition start_replication_server :: "('d, 'v, 'g) outside \<Rightarrow> StorageSetup \<Rightarrow> SaveConfig \<Rightarrow> StartError + task list" where
  "start_replication_server out su config =
     (let rep = clc_replication (cfg_cluster config) in
      case setup_replication_storage su of
        None \<Rightarrow> Inr []
      | Some storage \<Rightarrow>
        (case parse_addr out (rpc_bind_addr rep) of
           Inl e \<Rightarrow> Inl e
         | Inr _ \<Rightarrow>
             Inr [ReplicationServer (rpc_tls rep),
                  StalePrepareCleanup (rpc_stale_prepare_cleanup_interval_secs rep) (rpc_stale_prepare_max_age_secs rep)]))"

text \<open>A failure of the internal API is logged in its task, which then ends like one that exited.\<close>

definition start_internal_api_server :: "('d, 'v, 'g) outside \<Rightarrow> SaveConfig \<Rightarrow> StartError + task list" where
  "start_internal_api_server out config =
     (let api = clc_internal_api (cfg_cluster config) in
      if iac_bind_addr api = [] then Inr []
      else
        (case parse_addr out (iac_bind_addr api) of
           Inl e \<Rightarrow> Inl e
         | Inr _ \<Rightarrow>
           (case out_internal_api out of
              None \<Rightarrow>
                Inr [InternalApiServer
                       (case iac_tls api of Some tls \<Rightarrow> Some tls | None \<Rightarrow> rpc_tls (clc_replication (cfg_cluster config)))
                       (iac_require_auth api)]
            | Some (ServerPanicked e) \<Rightarrow> Inl (Failed (''Internal API server task panicked: '' @ e))
            | Some _ \<Rightarrow> Inl (Failed ''Internal API server exited unexpectedly''))))"

definition spawn_background_workers :: "SaveConfig \<Rightarrow> path \<Rightarrow> task list" where
  "spawn_background_workers config temp =
     [GcWorker temp (stc_gc_interval_secs (cfg_storage config)) (stc_gc_temp_file_max_age_secs (cfg_storage config)),
      MetricsWorker (srv_metrics_interval_secs (cfg_server config)),
      CacheCleanupWorker (max (srv_bucket_cache_ttl_secs (cfg_server config)) 60)]"

definition spawn_auto_join_worker :: "SaveConfig \<Rightarrow> StartError + task list" where
  "spawn_auto_join_worker config =
     (if clc_seed_nodes (cfg_cluster config) = [] then Inr []
      else
        (case self_peer_of config of
           Inl e \<Rightarrow> Inl (Panicked (''Invalid bind address configuration in spawn_auto_join_worker: '' @ Error_to_string e))
         | Inr self_peer \<Rightarrow> Inr [AutoJoinWorker self_peer]))"

definition setup_temp_dir :: "StorageSetup \<Rightarrow> path" where
  "setup_temp_dir su =
     temp_dir (layout (case setup_backend su of Inl storage \<Rightarrow> storage | Inr backend \<Rightarrow> rb_local backend))"

text \<open>The whole of \<open>async_main_with_config\<close> up to serving requests.\<close>

definition start_node :: "('d, 'v, 'g) outside \<Rightarrow> SaveConfig \<Rightarrow> fs \<times> 'd \<Rightarrow> (StartError + ('d, 'g) Node) \<times> fs \<times> 'd" where
  "start_node out config =
     bindE (init_storage out config) (\<lambda>su.
     bindE (\<lambda>(s, d). case init_raft_node (out_env out) (out_openraft out) (out_store out) (out_raft_new out) config d of (r, d') \<Rightarrow> (r, s, d')) (\<lambda>(N, g).
     bindE (\<lambda>sd. (parse_addr out (clc_raft_bind_addr (cfg_cluster config)), sd)) (\<lambda>_.
     bindE (\<lambda>sd. (start_raft_server out, sd)) (\<lambda>raft_handle.
     bindE (\<lambda>sd. (start_replication_server out su config, sd)) (\<lambda>replication_handle.
     bindE (\<lambda>sd. (start_internal_api_server out config, sd)) (\<lambda>internal_api_handle.
     bindE (\<lambda>sd. (parse_addr out (srv_bind_address (cfg_server config)), sd)) (\<lambda>_.
     bindE (\<lambda>sd. (case out_listen out (srv_bind_address (cfg_server config)) of Inl e \<Rightarrow> Inl (Failed e) | Inr _ \<Rightarrow> Inr (), sd)) (\<lambda>_.
     bindE (\<lambda>sd. (spawn_auto_join_worker config, sd)) (\<lambda>auto_join_handle.
       (\<lambda>(s, d). (Inr \<lparr>nd_state = AppState_with_storage (setup_backend su) s d (uint (srv_bucket_cache_ttl_secs (cfg_server config))),
          nd_coordinator = setup_coordinator su,
          nd_replication_service = map_option (\<lambda>storage. ReplicationService_new storage s) (setup_replication_storage su),
          nd_raft_node = N, nd_group = g, nd_joined = (clc_seed_nodes (cfg_cluster config) = []),
          nd_tasks = raft_handle @ replication_handle @ internal_api_handle
            @ spawn_background_workers config (setup_temp_dir su) @ auto_join_handle
            @ (if setup_coordinator su = None then [] else [CoordinatorSyncWorker])\<rparr>, s, d)))))))))))"

text \<open>
  \<open>main\<close>: the configuration is read, or the default is taken when there is no file; the runtime panics
  when it is given no threads.
\<close>

definition read_config ::
  "(string \<Rightarrow> bool) \<Rightarrow> (string \<Rightarrow> string + string) \<Rightarrow> (string \<Rightarrow> string + raw_SaveConfig) \<Rightarrow> string \<Rightarrow> StartError + SaveConfig" where
  "read_config path_exists read_to_string from_str config_path =
     (if path_exists config_path then
        (case load read_to_string from_str config_path of Inl e \<Rightarrow> Inl (Failed (Error_to_string e)) | Inr config \<Rightarrow> Inr config)
      else Inr SaveConfig_default)"

definition build_runtime :: "SaveConfig \<Rightarrow> StartError + unit" where
  "build_runtime config =
     (if srv_worker_threads (cfg_server config) = 0 then Inl (Panicked ''Worker threads cannot be set to 0'')
      else if srv_max_blocking_threads (cfg_server config) = 0 then Inl (Panicked ''Max blocking threads cannot be set to 0'')
      else Inr ())"

definition save_main ::
  "('d, 'v, 'g) outside \<Rightarrow> (string \<Rightarrow> bool) \<Rightarrow> (string \<Rightarrow> string + string) \<Rightarrow> (string \<Rightarrow> string + raw_SaveConfig) \<Rightarrow> string
     \<Rightarrow> fs \<times> 'd \<Rightarrow> (StartError + ('d, 'g) Node) \<times> fs \<times> 'd" where
  "save_main out path_exists read_to_string from_str config_path =
     bindE (\<lambda>sd. (read_config path_exists read_to_string from_str config_path, sd)) (\<lambda>config.
     bindE (\<lambda>sd. (build_runtime config, sd)) (\<lambda>_.
       start_node out config))"

section \<open>What starting leaves\<close>

lemma new_storage_ok:
  assumes "new_with_fsync_mode s base mode = (x, s')"
  shows "fs_files s' = fs_files s"
    and "x = Inr st \<Longrightarrow> base @ [''objects''] \<in> set (fs_dirs s') \<and> base @ [''temp''] \<in> set (fs_dirs s') \<and> layout st = \<lparr>base_path = base\<rparr>"
proof -
  obtain r1 s1 where 1: "create_dir_all s (base @ [''objects'']) = (r1, s1)" by fastforce
  obtain r2 s2 where 2: "create_dir_all s1 (base @ [''temp'']) = (r2, s2)" by fastforce
  note e = create_dir_all_effect [OF 1] create_dir_all_effect [OF 2]
  show "fs_files s' = fs_files s" using assms e 1 2
    by (auto simp: new_with_fsync_mode_def Let_def objects_dir_def temp_dir_def split: sum.splits)
  show "base @ [''objects''] \<in> set (fs_dirs s') \<and> base @ [''temp''] \<in> set (fs_dirs s') \<and> layout st = \<lparr>base_path = base\<rparr>" if "x = Inr st"
    using assms e 1 2 that by (auto simp: new_with_fsync_mode_def Let_def objects_dir_def temp_dir_def split: sum.splits)
qed

text \<open>What the factory makes, in terms of the storage it opened.\<close>

lemma create_storage_backend_Inr:
  assumes "create_storage_backend base mode c s = (Inr su, s')"
  obtains st where "new_with_fsync_mode s base mode = (Inr st, s')"
    and "unat (rpc_replication_factor (clc_replication c)) \<le> 1 \<Longrightarrow>
      su = \<lparr>setup_backend = Inl st, setup_coordinator = None, setup_replication_storage = None\<rparr>"
    and "\<not> unat (rpc_replication_factor (clc_replication c)) \<le> 1 \<Longrightarrow> \<exists>co rb.
      su = \<lparr>setup_backend = Inr rb, setup_coordinator = Some co, setup_replication_storage = Some st\<rparr>
      \<and> rb_local rb = st \<and> rb_coordinator rb = co \<and> rb_quorum_config rb = co_config co \<and> co_tls co = None \<and> clients co = []
      \<and> syncable (clc_node_id c) co \<and> co_config co = with_replication_factor (unat (rpc_replication_factor (clc_replication c)))"
proof -
  obtain x s1 where n: "new_with_fsync_mode s base mode = (x, s1)" by fastforce
  with assms obtain st where x: "x = Inr st" "s1 = s'" by (cases x) (auto simp: create_storage_backend_def Let_def split: if_splits)
  have "syncable i ((ReplicationCoordinator_new i q)\<lparr>co_retry_config := r\<rparr>)" for i q r
    by (simp add: syncable_def coordinator_inv_def ReplicationCoordinator_new_def)
  with that [of st] n x assms show thesis
    by (auto simp: create_storage_backend_def Let_def ReplicationCoordinator_new_def split: if_splits)
qed

lemma from_cluster_config_id:
  "from_cluster_config R rn c d = (Inr (N, g), d') \<Longrightarrow> rn_node_id N = clc_node_id c \<and> rn_raft N = R"
  by (auto simp: from_cluster_config_def with_config_def split: sum.splits prod.splits)

lemma bootstrap_node: "bootstrap_standalone config (N, g) = (Inr N', g') \<Longrightarrow> N' = N"
  by (auto simp: bootstrap_standalone_def split: if_splits sum.splits prod.splits MetadataError.splits)

lemma bootstrapped_node: "bootstrapped store_of (bootstrap_standalone config (N, g)) = (Inr (N', g'), d) \<Longrightarrow> N' = N \<and> d = store_of g'"
  by (auto simp: bootstrapped_def dest: bootstrap_node split: prod.splits sum.splits)

lemma init_raft_node_id:
  "init_raft_node E R store_of rn config d = (Inr (N, g), d') \<Longrightarrow>
     rn_node_id N = clc_node_id (cfg_cluster config) \<and> rn_raft N = R \<and> d' = store_of g"
  by (auto simp: init_raft_node_def dest!: bootstrapped_node from_cluster_config_id split: if_splits sum.splits prod.splits)

text \<open>The tasks of each part.\<close>

lemma started_tasks:
  shows "start_raft_server out = Inr ts \<Longrightarrow> ts = [RaftServer]"
    and "start_replication_server out su config = Inr ts \<Longrightarrow>
      ts = (if setup_replication_storage su = None then []
            else [ReplicationServer (rpc_tls (clc_replication (cfg_cluster config))),
                  StalePrepareCleanup (rpc_stale_prepare_cleanup_interval_secs (clc_replication (cfg_cluster config)))
                    (rpc_stale_prepare_max_age_secs (clc_replication (cfg_cluster config)))])"
    and "start_internal_api_server out config = Inr ts \<Longrightarrow>
      ts = (if iac_bind_addr (clc_internal_api (cfg_cluster config)) = [] then []
            else [InternalApiServer (case iac_tls (clc_internal_api (cfg_cluster config)) of Some tls \<Rightarrow> Some tls
                      | None \<Rightarrow> rpc_tls (clc_replication (cfg_cluster config)))
                    (iac_require_auth (clc_internal_api (cfg_cluster config)))])"
    and "spawn_auto_join_worker config = Inr ts \<Longrightarrow>
      (clc_seed_nodes (cfg_cluster config) = [] \<and> ts = []
       \<or> clc_seed_nodes (cfg_cluster config) \<noteq> [] \<and> (\<exists>p. ts = [AutoJoinWorker p] \<and> self_peer_of config = Inr p))"
  by (auto simp: start_raft_server_def start_replication_server_def start_internal_api_server_def spawn_auto_join_worker_def
      self_peer_of_def from_bind_addrs_def Let_def split: option.splits sum.splits prod.splits server_end.splits if_splits)

lemma start_node_parts:
  assumes "start_node out config (s, d) = (Inr nd, s', d')"
  obtains su d1 rh ph ih jh where
    "create_storage_backend (path_of (stc_data_path (cfg_storage config))) (stc_fsync_mode (cfg_storage config)) (cfg_cluster config) s = (Inr su, s')"
    and "init_raft_node (out_env out) (out_openraft out) (out_store out) (out_raft_new out) config d1 = (Inr (nd_raft_node nd, nd_group nd), d')"
    and "start_raft_server out = Inr rh"
    and "start_replication_server out su config = Inr ph"
    and "start_internal_api_server out config = Inr ih"
    and "spawn_auto_join_worker config = Inr jh"
    and "nd_tasks nd = rh @ ph @ ih @ spawn_background_workers config (setup_temp_dir su) @ jh
       @ (if setup_coordinator su = None then [] else [CoordinatorSyncWorker])"
    and "nd_coordinator nd = setup_coordinator su"
    and "as_storage (nd_state nd) = setup_backend su"
    and "as_fs (nd_state nd) = s'"
    and "as_metadata (nd_state nd) = d'"
    and "nd_joined nd = (clc_seed_nodes (cfg_cluster config) = [])"
    and "nd_replication_service nd = map_option (\<lambda>st. ReplicationService_new st s') (setup_replication_storage su)"
proof -
  from assms obtain su s1 d1 where i: "init_storage out config (s, d) = (Inr su, s1, d1)"
    by (auto simp: start_node_def bindE_Inr_iff)
  obtain x d2 where r: "init_raft_node (out_env out) (out_openraft out) (out_store out) (out_raft_new out) config d1 = (x, d2)" by fastforce
  have c: "create_storage_backend (path_of (stc_data_path (cfg_storage config))) (stc_fsync_mode (cfg_storage config)) (cfg_cluster config) s = (Inr su, s1)"
    using i by (auto simp: init_storage_def split: prod.splits sum.splits)
  show thesis using assms that [of su d1] c r
    by (auto simp: start_node_def bindE_Inr_iff i AppState_with_storage_def)
qed

section \<open>Stopping\<close>

text \<open>
  Draining looks every 100 milliseconds whether a request is in flight; \<open>elapsed\<close> is the time since
  it started.
\<close>

function drain_requests :: "('w \<Rightarrow> nat) \<Rightarrow> (nat \<Rightarrow> 'w \<Rightarrow> nat \<times> 'w) \<Rightarrow> nat \<Rightarrow> nat \<Rightarrow> 'w \<Rightarrow> bool \<times> 'w" where
  "drain_requests in_flight slp timeout elapsed w =
     (if in_flight w = 0 then (True, w)
      else if timeout \<le> elapsed then (False, w)
      else (case slp 100 w of (late, w') \<Rightarrow> drain_requests in_flight slp timeout (elapsed + 100 + late) w'))"
  by pat_completeness auto
termination by (relation "measure (\<lambda>(f, slp, timeout, elapsed, w). timeout - elapsed)") auto

declare drain_requests.simps [simp del]

text \<open>
  \<open>tokio::time::timeout\<close> on a task: \<open>task_ends\<close> says after which time the task will have ended, if it ends at
  all. The waiting takes until then, but at most for the given time, and says whether the task ended.
\<close>

definition await_task :: "(nat \<Rightarrow> 'w \<Rightarrow> nat \<times> 'w) \<Rightarrow> ('w \<Rightarrow> nat option) \<Rightarrow> nat \<Rightarrow> 'w \<Rightarrow> bool \<times> 'w" where
  "await_task slp task_ends timeout w =
     (case task_ends w of
        Some t \<Rightarrow> if t \<le> timeout then (True, snd (slp t w)) else (False, snd (slp timeout w))
      | None \<Rightarrow> (False, snd (slp timeout w)))"

datatype shutdown_event = ShutdownSent | JoinEnded bool | RequestsDrained bool | LeaveEnded "ScalingError + bool"

text \<open>
  \<open>handle_graceful_shutdown\<close> after the signal. \<open>join_ends\<close> is when the task that joins the cluster ends. The
  flag is \<open>CLUSTER_JOINED\<close>. The events are the steps in their order.
\<close>

definition handle_graceful_shutdown ::
  "nat \<Rightarrow> 'w RaftNode \<Rightarrow> 'w http \<Rightarrow> ('w \<Rightarrow> nat) \<Rightarrow> ('w \<Rightarrow> nat) \<Rightarrow> ('w \<Rightarrow> nat option) \<Rightarrow> bool \<Rightarrow> SaveConfig
     \<Rightarrow> bool \<times> 'w \<Rightarrow> (shutdown_event list \<times> bool \<times> 'w) option" where
  "handle_graceful_shutdown fuel N send clock in_flight join_ends auto_join_handle config s =
     (case s of (joined, w) \<Rightarrow>
        let (joining, w1) =
              (if auto_join_handle then
                 (case await_task (or_sleep (rn_raft N)) join_ends (1000 * unat (clc_join_timeout_secs (cfg_cluster config))) w of
                    (ended, w') \<Rightarrow> ([JoinEnded ended], w'))
               else ([], w));
            (drained, w2) =
              drain_requests in_flight (or_sleep (rn_raft N)) (1000 * unat (shd_drain_timeout_secs (cfg_shutdown config))) 0 w1;
            events = ShutdownSent # joining @ [RequestsDrained drained] in
        if clc_seed_nodes (cfg_cluster config) \<noteq> [] then
          (case graceful_leave fuel N send clock (cfg_cluster config) (joined, w2) of
             None \<Rightarrow> None
           | Some (r, s') \<Rightarrow> Some (events @ [LeaveEnded r], s'))
        else Some (events, joined, w2))"

text \<open>
  The looks at the requests in flight: draining ends at the first one that finds none or comes when the
  time is over. Sleeping is late by at most \<open>L\<close> milliseconds.
\<close>

lemma after_sleeps_Suc:
  "after_sleeps slp (Suc k) tg = (case after_sleeps slp k tg of (t, w) \<Rightarrow> case slp 100 w of (late, w') \<Rightarrow> (t + 100 + late, w'))"
proof (induction k arbitrary: tg)
  case (Suc k)
  obtain late g where s: "slp 100 (snd tg) = (late, g)" by fastforce
  have "after_sleeps slp (Suc (Suc k)) tg = after_sleeps slp (Suc k) (fst tg + 100 + late, g)"
    by (subst after_sleeps.simps(2)) (simp only: s prod.case)
  also have "\<dots> = (case after_sleeps slp k (fst tg + 100 + late, g) of (t, w) \<Rightarrow> case slp 100 w of (late, w') \<Rightarrow> (t + 100 + late, w'))"
    by (rule Suc.IH)
  also have "after_sleeps slp k (fst tg + 100 + late, g) = after_sleeps slp (Suc k) tg" by (simp add: s)
  finally show ?case .
qed (simp add: split_beta)

lemma drain_requests_polls:
  assumes "drain_requests in_flight slp timeout elapsed w = (b, w')"
  shows "\<exists>k t. after_sleeps slp k (elapsed, w) = (t, w') \<and> (b \<longleftrightarrow> in_flight w' = 0) \<and> (\<not> b \<longrightarrow> timeout \<le> t)
    \<and> (\<forall>j<k. in_flight (snd (after_sleeps slp j (elapsed, w))) \<noteq> 0 \<and> fst (after_sleeps slp j (elapsed, w)) < timeout)"
  using assms
proof (induction in_flight slp timeout elapsed w rule: drain_requests.induct)
  case (1 in_flight slp timeout elapsed w)
  note unf = drain_requests.simps [of in_flight slp timeout elapsed w]
  obtain late w1 where sl: "slp 100 w = (late, w1)" by fastforce
  show ?case
  proof (cases "in_flight w = 0 \<or> timeout \<le> elapsed")
    case True
    with 1(2) have "w' = w" "b \<longleftrightarrow> in_flight w = 0" "\<not> b \<longrightarrow> timeout \<le> elapsed" by (auto simp: unf split: if_splits)
    then show ?thesis by (intro exI [of _ 0] exI [of _ elapsed]) simp
  next
    case False
    then have f: "in_flight w \<noteq> 0" "\<not> timeout \<le> elapsed" by auto
    with 1(2) sl have r: "drain_requests in_flight slp timeout (elapsed + 100 + late) w1 = (b, w')" by (simp add: unf)
    from 1(1) [OF f sl [symmetric] r] obtain k t where
      k: "after_sleeps slp k (elapsed + 100 + late, w1) = (t, w')" "b \<longleftrightarrow> in_flight w' = 0" "\<not> b \<longrightarrow> timeout \<le> t"
      "\<forall>j<k. in_flight (snd (after_sleeps slp j (elapsed + 100 + late, w1))) \<noteq> 0 \<and> fst (after_sleeps slp j (elapsed + 100 + late, w1)) < timeout"
      by blast
    have "in_flight (snd (after_sleeps slp j (elapsed, w))) \<noteq> 0 \<and> fst (after_sleeps slp j (elapsed, w)) < timeout" if "j < Suc k" for j
      using that k(4) f sl by (cases j) auto
    with k sl show ?thesis by (intro exI [of _ "Suc k"] exI [of _ t]) auto
  qed
qed

definition sleeps_late :: "(nat \<Rightarrow> 'w \<Rightarrow> nat \<times> 'w) \<Rightarrow> ('w \<Rightarrow> nat) \<Rightarrow> nat \<Rightarrow> bool" where
  "sleeps_late slp clock L \<longleftrightarrow> (\<forall>t w late w'. slp t w = (late, w') \<longrightarrow> clock w' = clock w + t + late \<and> late \<le> L)"

lemma after_sleeps_clock:
  assumes "sleeps_late slp clock L" and "after_sleeps slp k (e, w) = (t, w')"
  shows "clock w' + e = clock w + t"
  using assms(2)
proof (induction k arbitrary: t w')
  case (Suc k)
  obtain t1 w1 where a: "after_sleeps slp k (e, w) = (t1, w1)" by fastforce
  obtain late w2 where s: "slp 100 w1 = (late, w2)" by fastforce
  from Suc.prems a s have "t = t1 + 100 + late" "w' = w2" by (simp_all only: after_sleeps_Suc prod.case prod.inject)
  with Suc.IH [OF a] assms(1) s show ?case unfolding sleeps_late_def by fastforce
qed simp

lemma drain_time:
  assumes "sleeps_late slp clock L" and "drain_requests in_flight slp timeout 0 w = (b, w')"
  shows "(b \<longleftrightarrow> in_flight w' = 0) \<and> (\<not> b \<longrightarrow> clock w + timeout \<le> clock w') \<and> clock w \<le> clock w' \<and> clock w' \<le> clock w + timeout + 100 + L
    \<and> (\<exists>k. w' = snd (after_sleeps slp k (0, w)) \<and> (\<forall>j<k. in_flight (snd (after_sleeps slp j (0, w))) \<noteq> 0))"
proof -
  from drain_requests_polls [OF assms(2)] obtain k t where a: "after_sleeps slp k (0, w) = (t, w')" and b: "b \<longleftrightarrow> in_flight w' = 0" "\<not> b \<longrightarrow> timeout \<le> t"
    and j: "\<forall>j<k. in_flight (snd (after_sleeps slp j (0, w))) \<noteq> 0 \<and> fst (after_sleeps slp j (0, w)) < timeout" by blast
  have c: "clock w' = clock w + t" using after_sleeps_clock [OF assms(1) a] by simp
  have "t \<le> timeout + 100 + L"
  proof (cases k)
    case 0
    with a show ?thesis by simp
  next
    case (Suc m)
    obtain t1 w1 where m: "after_sleeps slp m (0, w) = (t1, w1)" by fastforce
    obtain late w2 where s: "slp 100 w1 = (late, w2)" by fastforce
    have "t = t1 + 100 + late" using a m s unfolding Suc by (simp only: after_sleeps_Suc prod.case prod.inject)
    moreover have "t1 < timeout" using j m Suc by fastforce
    moreover have "late \<le> L" using assms(1) s unfolding sleeps_late_def by blast
    ultimately show ?thesis by simp
  qed
  with a b c j show ?thesis by (intro conjI exI [of _ k]) auto
qed

lemma await_time:
  assumes "sleeps_late slp clock L" and "await_task slp task_ends timeout w = (ended, w')"
  shows "(ended \<longleftrightarrow> (\<exists>t \<le> timeout. task_ends w = Some t)) \<and> clock w' \<le> clock w + timeout + L
    \<and> (\<not> ended \<longrightarrow> clock w + timeout \<le> clock w') \<and> (\<forall>t \<le> timeout. task_ends w = Some t \<longrightarrow> clock w' \<le> clock w + t + L)"
proof -
  have s: "clock w + t \<le> clock (snd (slp t w)) \<and> clock (snd (slp t w)) \<le> clock w + t + L" for t
    using assms(1) unfolding sleeps_late_def by (metis add_le_mono1 le_add1 add.commute nat_add_left_cancel_le prod.collapse)
  show ?thesis using assms(2) s by (auto simp: await_task_def intro: order_trans [OF conjunct2 [OF s]] split: option.splits if_splits)
qed

text \<open>The backend of a started node.\<close>

lemma started_backend:
  assumes "create_storage_backend base mode c s = (Inr su, s')"
  shows "fs_files s' = fs_files s \<and> {base @ [''objects''], base @ [''temp'']} \<subseteq> set (fs_dirs s') \<and> setup_temp_dir su = base @ [''temp'']"
proof -
  from create_storage_backend_Inr [OF assms] obtain st where n: "new_with_fsync_mode s base mode = (Inr st, s')"
    and "(case setup_backend su of Inl st' \<Rightarrow> st' | Inr rb \<Rightarrow> rb_local rb) = st" by fastforce
  with new_storage_ok(1) [OF n] new_storage_ok(2) [OF n refl] show ?thesis by (simp add: setup_temp_dir_def temp_dir_def)
qed

section \<open>Properties\<close>

text \<open>
  C16: A node that has started is set up and runs exactly the tasks that its configuration says.
  Starting changes no file. With a replication factor above one the backend is the replicated one, the
  coordinator has the identifier of the Raft node, knows no node yet and has write quorums any two of
  which overlap, and there are a replication server with the TLS settings of the replication section,
  the cleanup of stale writes with its interval and age, and the synchronisation of the coordinator;
  otherwise there is none of these. The Raft server always runs; the internal API server runs if it has
  an address, with its own TLS settings or else those of the replication section; the collector works in
  the temporary directory with its interval and age, the metrics and the cleanup of the cache have
  theirs, the latter at least a minute. The node joins a cluster exactly if it has seed nodes, under
  the identifier and the addresses of its configuration, and counts as joined from the start
  otherwise. No other task is started. The directories for objects and temporary files exist, and the
  store that the handlers use is the one of the Raft instance.
\<close>

theorem started_node:
  assumes "start_node out config (s, d) = (Inr nd, s', d')" and "cl = cfg_cluster config" and "rep = clc_replication cl"
    and "api = clc_internal_api cl" and "n = unat (rpc_replication_factor rep)" and "base = path_of (stc_data_path (cfg_storage config))"
  shows "fs_files s' = fs_files s \<and> {base @ [''objects''], base @ [''temp'']} \<subseteq> set (fs_dirs s')
    \<and> rn_node_id (nd_raft_node nd) = clc_node_id cl \<and> as_metadata (nd_state nd) = out_store out (nd_group nd)
    \<and> (n \<le> 1 \<longrightarrow> isl (as_storage (nd_state nd)) \<and> nd_coordinator nd = None \<and> nd_replication_service nd = None)
    \<and> (1 < n \<longrightarrow> (\<exists>co rb. nd_coordinator nd = Some co \<and> as_storage (nd_state nd) = Inr rb \<and> rb_coordinator rb = co
        \<and> syncable (rn_node_id (nd_raft_node nd)) co \<and> clients co = [] \<and> n < 2 * write_quorum (co_config co)
        \<and> nd_replication_service nd = Some (ReplicationService_new (rb_local rb) s')))
    \<and> (nd_joined nd \<longleftrightarrow> clc_seed_nodes cl = [])
    \<and> nd_tasks nd = [RaftServer]
        @ (if n \<le> 1 then []
           else [ReplicationServer (rpc_tls rep), StalePrepareCleanup (rpc_stale_prepare_cleanup_interval_secs rep) (rpc_stale_prepare_max_age_secs rep)])
        @ (if iac_bind_addr api = [] then []
           else [InternalApiServer (case iac_tls api of Some tls \<Rightarrow> Some tls | None \<Rightarrow> rpc_tls rep) (iac_require_auth api)])
        @ [GcWorker (base @ [''temp'']) (stc_gc_interval_secs (cfg_storage config)) (stc_gc_temp_file_max_age_secs (cfg_storage config)),
           MetricsWorker (srv_metrics_interval_secs (cfg_server config)),
           CacheCleanupWorker (max (srv_bucket_cache_ttl_secs (cfg_server config)) 60)]
        @ (if clc_seed_nodes cl = [] then []
           else [AutoJoinWorker (projr (from_bind_addrs (clc_node_id cl) (clc_raft_bind_addr cl) (srv_bind_address (cfg_server config)) (rpc_bind_addr rep)))])
        @ (if n \<le> 1 then [] else [CoordinatorSyncWorker])"
proof -
  from assms(1) obtain su d1 rh ph ih jh where
    c: "create_storage_backend base (stc_fsync_mode (cfg_storage config)) cl s = (Inr su, s')"
    and r: "init_raft_node (out_env out) (out_openraft out) (out_store out) (out_raft_new out) config d1 = (Inr (nd_raft_node nd, nd_group nd), d')"
    and h: "start_raft_server out = Inr rh" "start_replication_server out su config = Inr ph"
      "start_internal_api_server out config = Inr ih" "spawn_auto_join_worker config = Inr jh"
    and t: "nd_tasks nd = rh @ ph @ ih @ spawn_background_workers config (setup_temp_dir su) @ jh
       @ (if setup_coordinator su = None then [] else [CoordinatorSyncWorker])"
    and f: "nd_coordinator nd = setup_coordinator su" "as_storage (nd_state nd) = setup_backend su" "as_metadata (nd_state nd) = d'"
      "nd_joined nd = (clc_seed_nodes cl = [])"
      "nd_replication_service nd = map_option (\<lambda>st. ReplicationService_new st s') (setup_replication_storage su)"
    unfolding assms(2,6) by (rule start_node_parts)
  note h' = started_tasks(1) [OF h(1)] started_tasks(2) [OF h(2), folded assms(2), folded assms(3)]
    started_tasks(3) [OF h(3), folded assms(2), folded assms(3,4)] started_tasks(4) [OF h(4), folded assms(2)]
  have id: "rn_node_id (nd_raft_node nd) = clc_node_id cl" "d' = out_store out (nd_group nd)"
    using init_raft_node_id [OF r] assms(2) by simp_all
  note new = started_backend [OF c]
  have jh: "jh = (if clc_seed_nodes cl = [] then []
      else [AutoJoinWorker (projr (from_bind_addrs (clc_node_id cl) (clc_raft_bind_addr cl) (srv_bind_address (cfg_server config)) (rpc_bind_addr rep)))])"
    using h'(4) by (auto simp: self_peer_of_def assms(2,3))
  show ?thesis
  proof (cases "n \<le> 1")
    case True
    with create_storage_backend_Inr [OF c] obtain st where
      su: "su = \<lparr>setup_backend = Inl st, setup_coordinator = None, setup_replication_storage = None\<rparr>" unfolding assms(3,5) by metis
    with True id new h'(1-3) show ?thesis by (simp add: t f jh spawn_background_workers_def)
  next
    case False
    with create_storage_backend_Inr [OF c] obtain st co rb where
      su: "su = \<lparr>setup_backend = Inr rb, setup_coordinator = Some co, setup_replication_storage = Some st\<rparr>"
      and co: "rb_local rb = st" "rb_coordinator rb = co" "clients co = []" "syncable (clc_node_id cl) co" "co_config co = with_replication_factor n"
      unfolding assms(3,5) by metis
    have "n < 2 * write_quorum (co_config co)" by (simp add: co with_replication_factor_def)
    with False id new h'(1-3) co su show ?thesis by (simp add: t f jh spawn_background_workers_def)
  qed
qed

text \<open>
  C15: A standalone node whose Raft state cannot be read comes up with its data. Assumed is of openraft
  that it fails on the store with a message that counts as corruption; that it opens a store without
  any Raft state as one of a group without voters and can then initialize it; that the voters of a
  group are then the nodes it was given; and that in these calls it writes to the store only through
  the repository's storage, without applying commands (\<open>raft_writes\<close>). Then the second attempt
  succeeds: the node is the only member of its cluster, under its own addresses, and buckets, objects,
  uploads and locks are as before. Of the Raft state nothing is kept: what the store holds of it at the
  end openraft has written to a store without any, which has the data of the old one.
\<close>

theorem corrupted_node_recovers:
  assumes env: "reliable_env E contents"
    and "clc_seed_nodes (cfg_cluster config) = []" and "self_peer_of config = Inr peer"
    and "i = clc_node_id (cfg_cluster config)" and "open_raft = raft_new i (raft_config (cfg_cluster config)) []"
    and bad: "open_raft d = (Inl msg, d1)" "raft_writes E C d d1" and rec: "is_recoverable_raft_corruption (Raft msg)"
    and fresh: "\<And>d. contents d CF_RAFT_LOG = Map.empty \<Longrightarrow> contents d CF_RAFT_STATE = Map.empty \<Longrightarrow> contents d CF_RAFT_SNAPSHOT = Map.empty \<Longrightarrow>
      \<exists>g d'. open_raft d = (Inr g, d') \<and> store_of g = d' \<and> raft_writes E C d d' \<and> voter_ids R g = {}
        \<and> (\<forall>a. \<exists>g'. or_initialize R [i \<mapsto> a] g = (Inr (), g') \<and> raft_writes E C (store_of g) (store_of g'))"
    and members: "\<And>ns g g'. or_initialize R ns g = (Inr (), g') \<Longrightarrow> voter_ids R g' = dom ns \<and> address_of R g' = ns"
  shows "\<exists>g d'. init_raft_node E R store_of raft_new config d = (Inr (\<lparr>rn_raft = R, rn_node_id = i\<rparr>, g), d')
    \<and> d' = store_of g \<and> contents d' CF_DEFAULT = contents d CF_DEFAULT
    \<and> voter_ids R g = {i} \<and> address_of R g = [i \<mapsto> SaveNode_of peer]
    \<and> (\<exists>d2 d3. contents d2 CF_DEFAULT = contents d CF_DEFAULT \<and> contents d2 CF_RAFT_LOG = Map.empty \<and> contents d2 CF_RAFT_STATE = Map.empty
         \<and> contents d2 CF_RAFT_SNAPSHOT = Map.empty \<and> raft_writes E C d2 d3 \<and> raft_writes E C d3 d')"
proof -
  have menv: "metadata_env E contents" using env by (rule reliable_env.axioms(1))
  from clear_raft_state_keeps_data [OF env, of d1] obtain d2 where d2: "clear_raft_state E d1 = (Inr (), d2)"
    "contents d2 CF_DEFAULT = contents d1 CF_DEFAULT" "contents d2 CF_RAFT_LOG = Map.empty" "contents d2 CF_RAFT_STATE = Map.empty"
    "contents d2 CF_RAFT_SNAPSHOT = Map.empty" by blast
  from fresh [OF d2(3-5)] obtain g d3 g' where o: "open_raft d2 = (Inr g, d3)" "store_of g = d3" "raft_writes E C d2 d3" and v: "voter_ids R g = {}"
    and g': "or_initialize R [i \<mapsto> SaveNode_of peer] g = (Inr (), g')" "raft_writes E C (store_of g) (store_of g')" by blast
  have from_cfg: "from_cluster_config R raft_new (cfg_cluster config) x = with_config R raft_new i [] (raft_config (cfg_cluster config)) x" for x
    using assms(2,4) by (simp add: from_cluster_config_def)
  have p: "pi_node_id peer = i" using assms(3,4) by (auto simp: self_peer_of_def from_bind_addrs_def split: sum.splits prod.splits)
  have "\<not> is_initialized \<lparr>rn_raft = R, rn_node_id = i\<rparr> g" using v by (simp add: is_initialized_def voter_ids_def)
  with g' p assms(2,3) have b: "bootstrap_standalone config (\<lparr>rn_raft = R, rn_node_id = i\<rparr>, g) = (Inr \<lparr>rn_raft = R, rn_node_id = i\<rparr>, g')"
    by (simp add: bootstrap_standalone_def node_initialize_def)
  have r: "init_raft_node E R store_of raft_new config d = (Inr (\<lparr>rn_raft = R, rn_node_id = i\<rparr>, g'), store_of g')"
    using bad o rec d2(1) b assms(5) by (simp add: init_raft_node_def from_cfg with_config_def bootstrapped_def)
  have data: "contents d2 CF_DEFAULT = contents d CF_DEFAULT" using raft_writes_keep_data [OF menv bad(2)] d2(2) by simp
  moreover have "contents (store_of g') CF_DEFAULT = contents d2 CF_DEFAULT"
    using raft_writes_keep_data [OF menv o(3)] raft_writes_keep_data [OF menv g'(2)] o(2) by simp
  moreover have "voter_ids R g' = {i}" "address_of R g' = [i \<mapsto> SaveNode_of peer]" using members [OF g'(1)] by auto
  ultimately show ?thesis using r d2(3-5) o(2,3) g'(2) by (intro exI [of _ g'] exI [of _ "store_of g'"]) auto
qed


section \<open>Examples and what modelling showed\<close>

text \<open>
  A store in memory and the table of members for openraft, which keeps the store, saves a vote and
  appends the membership to the log when a group is initialized, and cannot be opened when the store
  has a vote; every address is accepted and every server starts.
\<close>

definition on_table :: "(table_raft \<Rightarrow> (string + unit) \<times> table_raft) \<Rightarrow> mem_db \<times> table_raft \<Rightarrow> (string + unit) \<times> mem_db \<times> table_raft" where
  "on_table f g = (case f (snd g) of (r, t) \<Rightarrow> (r, fst g, t))"

definition first_entry :: "nat Entry" where
  "first_entry = \<lparr>entry_log_id = log_id_at 0 0, entry_payload = Membership 1\<rparr>"

definition stored_openraft :: "(mem_db \<times> table_raft) openraft" where
  "stored_openraft =
     \<lparr>or_metrics = (\<lambda>g. or_metrics table_openraft (snd g)),
      or_initialize = (\<lambda>ns g. case or_initialize table_openraft ns (snd g) of
          (Inl e, t) \<Rightarrow> (Inl e, fst g, t)
        | (Inr _, t) \<Rightarrow> (Inr (), snd (append_to_log mem_env mem_raft (snd (save_vote mem_env mem_raft (fst g) 1)) [first_entry]), t)),
      or_add_learner = (\<lambda>i n b. on_table (or_add_learner table_openraft i n b)),
      or_change_membership = (\<lambda>c b. on_table (or_change_membership table_openraft c b)),
      or_elect = on_table (or_elect table_openraft),
      or_sleep = (\<lambda>_ g. (0, g))\<rparr>"

definition example_raft_new :: "(mem_db, mem_db \<times> table_raft) raft_new" where
  "example_raft_new i c ps d =
     (case mem_contents d CF_RAFT_STATE ''vote'' of
        Some _ \<Rightarrow> (Inl ''missing field committed'', d)
      | None \<Rightarrow> (Inr (d, \<lparr>tr_self = i, tr_leader = None, tr_voters = [], tr_nodes = []\<rparr>), d))"

definition example_outside :: "(mem_db, mem_value, mem_db \<times> table_raft) outside" where
  "example_outside =
     \<lparr>out_env = mem_env, out_open_db = (\<lambda>_ _ _ d. (Inr (), d)), out_openraft = stored_openraft, out_raft_new = example_raft_new,
      out_store = fst, out_socket_addr = (\<lambda>_. Inr ()), out_raft_server = None, out_internal_api = None, out_listen = (\<lambda>_. Inr ())\<rparr>"

definition example_cluster_config :: SaveConfig where
  "example_cluster_config = SaveConfig_default\<lparr>cfg_cluster := ClusterConfig_default
     \<lparr>clc_node_id := 3, clc_seed_nodes := [''2:b:7000:8000:9000''],
      clc_replication := ReplicationConfig_default\<lparr>rpc_replication_factor := 3,
        rpc_tls := Some \<lparr>tls_cert_path = ''c'', tls_key_path = ''k'', tls_ca_cert_path = ''a''\<rparr>\<rparr>\<rparr>\<rparr>"

lemma default_addresses: "\<exists>p. from_bind_addrs i DEFAULT_RAFT_BIND DEFAULT_HTTP_BIND DEFAULT_REPLICATION_BIND = Inr p"
  by (simp add: from_bind_addrs_def parse_bind_addr_def parse_u16_def parse_uint_def digit_val_def
      DEFAULT_RAFT_BIND_def DEFAULT_HTTP_BIND_def DEFAULT_REPLICATION_BIND_def)

lemma example_starts: "\<exists>nd s' d'. start_node example_outside example_cluster_config (example_fs, mem_empty) = (Inr nd, s', d')"
proof -
  let ?c = example_cluster_config
  have "\<exists>su s'. create_storage_backend (path_of (stc_data_path (cfg_storage ?c))) (stc_fsync_mode (cfg_storage ?c)) (cfg_cluster ?c) example_fs
      = (Inr su, s')"
    by (simp add: create_storage_backend_def Let_def new_with_fsync_mode_def create_dir_all_def next_fault_def example_fs_def
        list_ex_iff example_cluster_config_def)
  then obtain su s' where su: "init_storage example_outside ?c (example_fs, mem_empty) = (Inr su, s', mem_empty)"
    by (auto simp: init_storage_def new_with_config_def example_outside_def Let_def)
  have "\<exists>ts. parse_peers_to_tuples (clc_seed_nodes (cfg_cluster ?c)) = Inr ts"
    by (simp add: example_cluster_config_def parse_peer_def parse_u64_def parse_u16_def parse_uint_def digit_val_def)
  then have r: "\<exists>N g. init_raft_node mem_env stored_openraft fst example_raft_new ?c mem_empty = (Inr (N, g), mem_empty)"
    by (auto simp: init_raft_node_def from_cluster_config_def with_config_def example_raft_new_def mem_eval bootstrap_standalone_def
        bootstrapped_def example_cluster_config_def)
  have "\<exists>p. self_peer_of ?c = Inr p"
    using default_addresses [of 3] by (simp add: self_peer_of_def example_cluster_config_def SaveConfig_default_def
        ClusterConfig_default_def ReplicationConfig_default_def)
  then show ?thesis using su r
    by (auto simp: start_node_def bindE_def example_outside_def parse_addr_def start_raft_server_def start_replication_server_def
        start_internal_api_server_def spawn_auto_join_worker_def Let_def split: option.splits)
qed

theorem started_node_witness:
  "\<exists>nd s' d' p. start_node example_outside example_cluster_config (example_fs, mem_empty) = (Inr nd, s', d')
     \<and> rn_node_id (nd_raft_node nd) = 3 \<and> nd_coordinator nd \<noteq> None \<and> \<not> nd_joined nd
     \<and> {CoordinatorSyncWorker, AutoJoinWorker p, StalePrepareCleanup 300 3600} \<subseteq> set (nd_tasks nd)"
proof -
  from example_starts obtain nd s' d' where r: "start_node example_outside example_cluster_config (example_fs, mem_empty) = (Inr nd, s', d')"
    by blast
  note started_node [OF r refl refl refl refl refl]
  moreover have "clc_node_id (cfg_cluster example_cluster_config) = 3" "clc_seed_nodes (cfg_cluster example_cluster_config) \<noteq> []"
    "unat (rpc_replication_factor (clc_replication (cfg_cluster example_cluster_config))) = 3"
    "rpc_stale_prepare_cleanup_interval_secs (clc_replication (cfg_cluster example_cluster_config)) = 300"
    "rpc_stale_prepare_max_age_secs (clc_replication (cfg_cluster example_cluster_config)) = 3600"
    by (simp_all add: example_cluster_config_def ReplicationConfig_default_def)
  ultimately show ?thesis using r by auto
qed

lemma stored_views: "voter_ids stored_openraft g = voter_ids table_openraft (snd g)" "address_of stored_openraft g = address_of table_openraft (snd g)"
  by (simp_all add: voter_ids_def address_of_def stored_openraft_def)

lemma stored_initialize:
  assumes "or_initialize stored_openraft ns g = (Inr (), g')"
  shows "or_initialize table_openraft ns (snd g) = (Inr (), snd g')"
  using assms by (auto simp: stored_openraft_def split: prod.splits sum.splits)

text \<open>The vote of the old Raft state is gone, the new one is written, and the data are there.\<close>

theorem corrupted_node_recovers_witness:
  "\<exists>g d'. init_raft_node mem_env stored_openraft fst example_raft_new SaveConfig_default
       [(CF_RAFT_STATE, ''vote'', VVote 7), (CF_DEFAULT, ''x'', VVote 2)]
       = (Inr (\<lparr>rn_raft = stored_openraft, rn_node_id = 1\<rparr>, g), d')
     \<and> mem_contents d' CF_DEFAULT ''x'' = Some (VVote 2) \<and> voter_ids stored_openraft g = {1}"
proof -
  let ?d = "[(CF_RAFT_STATE, ''vote'', VVote 7), (CF_DEFAULT, ''x'', VVote 2)]"
  let ?open = "example_raft_new 1 (raft_config (cfg_cluster SaveConfig_default)) []"
  from default_addresses obtain peer where p: "self_peer_of SaveConfig_default = Inr peer"
    by (auto simp: self_peer_of_def SaveConfig_default_def ClusterConfig_default_def ReplicationConfig_default_def)
  have "mem_contents ?d CF_RAFT_STATE ''vote'' \<noteq> None" by code_simp
  then have b: "?open ?d = (Inl ''missing field committed'', ?d)" by (auto simp: example_raft_new_def)
  have m: "is_recoverable_raft_corruption (Raft ''missing field committed'')" by code_simp
  have i: "clc_seed_nodes (cfg_cluster SaveConfig_default) = []" "1 = clc_node_id (cfg_cluster SaveConfig_default)"
    by (simp_all add: SaveConfig_default_def ClusterConfig_default_def)
  have f: "\<exists>g d'. ?open d = (Inr g, d') \<and> fst g = d' \<and> raft_writes mem_env mem_raft d d' \<and> voter_ids stored_openraft g = {}
      \<and> (\<forall>a. \<exists>g'. or_initialize stored_openraft [1 \<mapsto> a] g = (Inr (), g') \<and> raft_writes mem_env mem_raft (fst g) (fst g'))"
    if "mem_contents d CF_RAFT_STATE = Map.empty" for d
  proof -
    let ?t = "\<lparr>tr_self = 1, tr_leader = None, tr_voters = [], tr_nodes = []\<rparr> :: table_raft"
    have "?open d = (Inr (d, ?t), d)" using that by (simp add: example_raft_new_def)
    moreover have "voter_ids stored_openraft (d, ?t) = {}" by (simp add: stored_views table_voters tr_voter_ids_def)
    moreover have "\<exists>t. or_initialize stored_openraft [1 \<mapsto> a] (d, ?t) =
        (Inr (), snd (append_to_log mem_env mem_raft (snd (save_vote mem_env mem_raft d 1)) [first_entry]), t)" for a
      by (simp add: stored_openraft_def table_openraft_def)
    ultimately show ?thesis
      by (intro exI [of _ "(d, ?t)"] exI [of _ d]) (fastforce intro: raft_writes.intros)
  qed
  have "mem_contents ?d CF_DEFAULT ''x'' = Some (VVote 2)" by code_simp
  moreover have "\<exists>g d'. init_raft_node mem_env stored_openraft fst example_raft_new SaveConfig_default ?d
      = (Inr (\<lparr>rn_raft = stored_openraft, rn_node_id = 1\<rparr>, g), d') \<and> d' = fst g \<and> mem_contents d' CF_DEFAULT = mem_contents ?d CF_DEFAULT
      \<and> voter_ids stored_openraft g = {1} \<and> address_of stored_openraft g = [1 \<mapsto> SaveNode_of peer]
      \<and> (\<exists>d2 d3. mem_contents d2 CF_DEFAULT = mem_contents ?d CF_DEFAULT \<and> mem_contents d2 CF_RAFT_LOG = Map.empty
         \<and> mem_contents d2 CF_RAFT_STATE = Map.empty \<and> mem_contents d2 CF_RAFT_SNAPSHOT = Map.empty
         \<and> raft_writes mem_env mem_raft d2 d3 \<and> raft_writes mem_env mem_raft d3 d')"
    by (rule corrupted_node_recovers [where open_raft = ?open and raft_new = example_raft_new and store_of = fst and C = mem_raft,
          OF mem_is_env(2) i(1) p i(2) refl b raft_writes.no_write m])
      (use f table.initialize_ok in \<open>auto simp: stored_views dest!: stored_initialize\<close>)
  ultimately show ?thesis by metis
qed


text \<open>
  The certificates of the replication section are given to the server, but the factory does not give
  them to the coordinator, whose clients connect without TLS.
\<close>

lemma coordinator_without_tls:
  assumes "create_storage_backend base mode c s = (Inr su, s')" and "setup_coordinator su = Some co"
  shows "co_tls co = None"
  using create_storage_backend_Inr [OF assms(1)] assms(2) by (metis (no_types, lifting) StorageSetup.select_convs(2) option.inject option.distinct(1))

text \<open>
  The sizes, the bloom filter and the number of jobs are set on the options of the database; every
  column family is opened with default options, so that they do not apply to it.
\<close>

lemma column_families_have_defaults:
  "\<exists>opts. new_with_config open_cf p config d =
     (case open_cf opts p (map (\<lambda>name. (name, DbOptions_default)) [CF_DEFAULT, CF_RAFT_LOG, CF_RAFT_STATE, CF_RAFT_SNAPSHOT]) d of
        (Inl e, d') \<Rightarrow> (Inl (Database e), d') | (Inr _, d') \<Rightarrow> (Inr (), d'))"
  unfolding new_with_config_def Let_def by blast

text \<open>A message that says that something is unexpected counts as corruption, and the Raft state is cleared.\<close>

lemma unexpected_counts_as_corruption: "is_recoverable_raft_corruption (Raft ''IO error: unexpected end of file'')"
  by code_simp

text \<open>Every node runs with a valid configuration.\<close>

lemma started_config_valid:
  "save_main out ex rd parse p sd = (Inr nd, sd') \<Longrightarrow> \<exists>config. valid_config config \<and> start_node out config sd = (Inr nd, sd')"
  using default_valid
  by (auto simp: save_main_def bindE_Inr_iff read_config_def load_def validate_iff split: if_splits sum.splits)

text \<open>A valid configuration may have no threads for the runtime; the process then panics.\<close>

lemma no_threads_panics:
  "validate (c\<lparr>cfg_server := cfg_server c\<lparr>srv_worker_threads := 0\<rparr>\<rparr>) = validate c
   \<and> build_runtime (c\<lparr>cfg_server := cfg_server c\<lparr>srv_worker_threads := 0\<rparr>\<rparr>) = Inl (Panicked ''Worker threads cannot be set to 0'')"
  by (simp add: validate_def build_runtime_def)

text \<open>
  A node announces itself to the others under the host of its bind address; with the default address
  that is one that only the node itself can reach.
\<close>

lemma announces_bind_address: "\<exists>p. self_peer_of SaveConfig_default = Inr p \<and> pi_host p = ''0.0.0.0''"
  by (simp add: self_peer_of_def SaveConfig_default_def ClusterConfig_default_def ReplicationConfig_default_def
      from_bind_addrs_def parse_bind_addr_def parse_u16_def parse_uint_def digit_val_def
      DEFAULT_RAFT_BIND_def DEFAULT_HTTP_BIND_def DEFAULT_REPLICATION_BIND_def)

end
