(* ===== verification/Node_Metrics.thy ===== *)
theory Node_Metrics
  imports Node_Workers Cluster_Manager
begin

text \<open>
  What the metrics worker reads and records: \<open>collect_metrics\<close> of \<open>crates/save-api/src/lib.rs\<close>, the
  collection functions of \<open>metrics/cluster.rs\<close> and \<open>metrics/storage.rs\<close>, and the loop of \<open>main.rs\<close>. A registry
  of gauges maps the name of a metric and its labels to the last value; the counters and histograms
  that requests update are left out, nothing reads them. Gauges of the disk usage hold floating-point
  numbers in the source; they are exact here, as they are there below \<open>2 ^ 53\<close> bytes.
\<close>

section \<open>Gauges\<close>

type_synonym gauges = "string \<times> string list \<rightharpoonup> int"

definition set_gauge :: "string \<Rightarrow> string list \<Rightarrow> int \<Rightarrow> gauges \<Rightarrow> gauges" where
  "set_gauge name labels v G = G((name, labels) \<mapsto> v)"

text \<open>A 64-bit number stored in a gauge, \<open>as i64\<close>.\<close>

definition set_u64 :: "string \<Rightarrow> string list \<Rightarrow> u64 \<Rightarrow> gauges \<Rightarrow> gauges" where
  "set_u64 name labels v = set_gauge name labels (sint v)"

definition set_if_known :: "string \<Rightarrow> string list \<Rightarrow> u64 option \<Rightarrow> gauges \<Rightarrow> gauges" where
  "set_if_known name labels v G = (case v of None \<Rightarrow> G | Some n \<Rightarrow> set_u64 name labels n G)"

text \<open>The loops that set the current one of several labels to one and the others to zero.\<close>

definition set_current :: "string \<Rightarrow> string list \<Rightarrow> string list \<Rightarrow> string \<Rightarrow> gauges \<Rightarrow> gauges" where
  "set_current name before labels current =
     fold (\<lambda>l. set_gauge name (before @ [l]) (if l = current then 1 else 0)) labels"

section \<open>Raft and the cluster\<close>

definition RAFT_STATE_LABELS :: "string list" where
  "RAFT_STATE_LABELS = [''leader'', ''follower'', ''candidate'', ''learner'', ''shutdown'']"

fun raft_state_to_label :: "RaftState \<Rightarrow> string" where
  "raft_state_to_label Leader = ''leader''"
| "raft_state_to_label Follower = ''follower''"
| "raft_state_to_label Candidate = ''candidate''"
| "raft_state_to_label Learner = ''learner''"
| "raft_state_to_label Shutdown = ''shutdown''"

definition NODE_HEALTH_LABELS :: "string list" where
  "NODE_HEALTH_LABELS = [''healthy'', ''degraded'', ''unreachable'', ''unknown'']"

fun node_health_to_label :: "NodeHealth \<Rightarrow> string" where
  "node_health_to_label NodeHealthy = ''healthy''"
| "node_health_to_label NodeDegraded = ''degraded''"
| "node_health_to_label NodeUnreachable = ''unreachable''"
| "node_health_to_label NodeUnknown = ''unknown''"

definition PARTITION_STATUS_LABELS :: "string list" where
  "PARTITION_STATUS_LABELS = [''connected'', ''minority'', ''possible_minority'', ''unknown'']"

fun partition_status_to_label :: "PartitionStatus \<Rightarrow> string" where
  "partition_status_to_label Connected = ''connected''"
| "partition_status_to_label Minority = ''minority''"
| "partition_status_to_label PossibleMinority = ''possible_minority''"
| "partition_status_to_label PartitionUnknown = ''unknown''"

record CollectedRaft =
  cr_term :: u64
  cr_state :: RaftState
  cr_last_applied_index :: "u64 option"
  cr_last_log_index :: "u64 option"
  cr_voters_count :: nat
  cr_learners_count :: nat

definition collect_raft_metrics :: "CollectedRaft \<Rightarrow> gauges \<Rightarrow> gauges" where
  "collect_raft_metrics data =
     set_u64 ''save_raft_members'' [''learners''] (of_nat (cr_learners_count data))
     \<circ> set_u64 ''save_raft_members'' [''voters''] (of_nat (cr_voters_count data))
     \<circ> set_if_known ''save_raft_log_index'' [''last_log''] (cr_last_log_index data)
     \<circ> set_if_known ''save_raft_log_index'' [''last_applied''] (cr_last_applied_index data)
     \<circ> set_current ''save_raft_state'' [] RAFT_STATE_LABELS (raft_state_to_label (cr_state data))
     \<circ> set_u64 ''save_raft_term'' [] (cr_term data)"

definition collect_raft_metrics_from_node :: "'g RaftNode \<Rightarrow> 'g \<Rightarrow> gauges \<Rightarrow> gauges" where
  "collect_raft_metrics_from_node N g =
     (let status = get_status N g in
      collect_raft_metrics \<lparr>cr_term = cs_current_term status, cr_state = cs_state status,
        cr_last_applied_index = cs_last_applied_index status, cr_last_log_index = cs_last_log_index status,
        cr_voters_count = length (cs_voters status), cr_learners_count = length (cs_learners status)\<rparr>)"

definition collect_cluster_health_metrics :: "(u64 \<times> NodeHealth) list \<Rightarrow> bool \<Rightarrow> PartitionStatus \<Rightarrow> gauges \<Rightarrow> gauges" where
  "collect_cluster_health_metrics ns quorum status =
     fold (\<lambda>(node_id, health). set_current ''save_cluster_node_status'' [nat_str (unat node_id)] NODE_HEALTH_LABELS
       (node_health_to_label health)) ns
     \<circ> set_current ''save_cluster_partition_status'' [] PARTITION_STATUS_LABELS (partition_status_to_label status)
     \<circ> set_gauge ''save_cluster_quorum_status'' [] (if quorum then 1 else 0)"

section \<open>Disks, database and temporary files\<close>

record DatabaseStats =
  ds_block_cache_hits :: "u64 option"
  ds_block_cache_misses :: "u64 option"
  ds_memtable_size_bytes :: "u64 option"
  ds_table_readers_mem_bytes :: "u64 option"
  ds_estimate_num_keys :: "u64 option"

definition collect_database_stats :: "DatabaseStats \<Rightarrow> gauges \<Rightarrow> gauges" where
  "collect_database_stats stats =
     set_if_known ''save_rocksdb_stats'' [''estimate_num_keys''] (ds_estimate_num_keys stats)
     \<circ> set_if_known ''save_rocksdb_stats'' [''memtable_size_bytes''] (ds_memtable_size_bytes stats)
     \<circ> set_if_known ''save_rocksdb_stats'' [''table_readers_mem_bytes''] (ds_table_readers_mem_bytes stats)
     \<circ> set_if_known ''save_rocksdb_stats'' [''block_cache_misses''] (ds_block_cache_misses stats)
     \<circ> set_if_known ''save_rocksdb_stats'' [''block_cache_hits''] (ds_block_cache_hits stats)"

text \<open>
  The answer of \<open>statvfs\<close>: blocks, available blocks and the size of a block. The products are those of
  words; an overflow panics in a build with overflow checks.
\<close>

definition collect_disk_usage :: "(u64 \<times> u64 \<times> u64) option \<Rightarrow> string \<Rightarrow> gauges \<Rightarrow> gauges" where
  "collect_disk_usage stat label G =
     (case stat of
        None \<Rightarrow> G
      | Some (blocks, available, block_size) \<Rightarrow>
        (let total_bytes = blocks * block_size;
             available_bytes = available * block_size;
             used_bytes = total_bytes - available_bytes in
         set_gauge ''save_disk_usage_bytes'' [label, ''available''] (uint available_bytes)
           (set_gauge ''save_disk_usage_bytes'' [label, ''used''] (uint used_bytes)
             (set_gauge ''save_disk_usage_bytes'' [label, ''total''] (uint total_bytes) G))))"

text \<open>The walk over the temporary directory; what cannot be read is skipped.\<close>

fun stat_entries :: "path list \<Rightarrow> int \<times> u64 \<Rightarrow> path list \<Rightarrow> fs \<Rightarrow> (int \<times> u64) \<times> path list \<times> fs" where
  "stat_entries [] acc dirs s = (acc, dirs, snd (next_fault s))"
| "stat_entries (q # qs) (n, sz) dirs s =
     (case next_fault s of
        (Some _, s1) \<Rightarrow> stat_entries qs (n, sz) dirs s1
      | (None, s1) \<Rightarrow>
        (case fs_metadata s1 q of
           (Inl _, s2) \<Rightarrow> stat_entries qs (n, sz) dirs s2
         | (Inr (IsFile len), s2) \<Rightarrow> stat_entries qs (n + 1, sz + len) dirs s2
         | (Inr IsDir, s2) \<Rightarrow> stat_entries qs (n, sz) (q # dirs) s2))"

lemma stat_entries_effect:
  assumes "stat_entries qs acc dirs s = (acc', dirs', s')"
  shows "fs_files s' = fs_files s \<and> fs_dirs s' = fs_dirs s \<and> (\<exists>new. dirs' = new @ dirs \<and> set new \<subseteq> set qs \<inter> set (fs_dirs s))"
  using assms
proof (induction qs arbitrary: acc dirs s)
  case Nil
  then show ?case using next_fault_eq [of s "fst (next_fault s)" "snd (next_fault s)"] by auto
next
  case (Cons q qs)
  obtain n sz where acc: "acc = (n, sz)" by fastforce
  obtain y s1 where n: "next_fault s = (y, s1)" by fastforce
  obtain z s2 where m: "fs_metadata s1 q = (z, s2)" by fastforce
  note e = next_fault_eq [OF n] fs_metadata_effect [OF m]
  have isdir: "q \<in> set (fs_dirs s)" if "z = Inr IsDir"
    using m that e by (auto simp: fs_metadata_def dest!: next_fault_eq split: prod.splits option.splits if_splits)
  consider (skip) f where "y = Some f" | (error) er where "y = None" "z = Inl er" | (is_file) k where "y = None" "z = Inr (IsFile k)"
    | (dir) "y = None" "z = Inr IsDir" by (cases y; cases z; cases "projr z") auto
  then show ?case
  proof cases
    case skip
    with Cons.prems n acc have "stat_entries qs acc dirs s1 = (acc', dirs', s')" by simp
    from Cons.IH [OF this] e show ?thesis by auto
  next
    case error
    with Cons.prems n m acc have "stat_entries qs acc dirs s2 = (acc', dirs', s')" by simp
    from Cons.IH [OF this] e show ?thesis by auto
  next
    case is_file
    with Cons.prems n m acc have "stat_entries qs (n + 1, sz + k) dirs s2 = (acc', dirs', s')" by simp
    from Cons.IH [OF this] e show ?thesis by auto
  next
    case dir
    with Cons.prems n m acc have "stat_entries qs acc (q # dirs) s2 = (acc', dirs', s')" by simp
    from Cons.IH [OF this] e isdir [OF dir(2)] show ?thesis by auto
  qed
qed

lemma temp_stats_decreases:
  shows "read_dir s dir = (Inl e, s1) \<Longrightarrow>
      (image_mset (depth_left s1) (mset dirs), image_mset (depth_left s) (mset (dir # dirs))) \<in> mult less_than"
    and "read_dir s dir = (Inr es, s1) \<Longrightarrow> stat_entries es acc dirs s1 = (acc', dirs', s2) \<Longrightarrow>
      (image_mset (depth_left s2) (mset dirs'), image_mset (depth_left s) (mset (dir # dirs))) \<in> mult less_than"
proof -
  show "(image_mset (depth_left s1) (mset dirs), image_mset (depth_left s) (mset (dir # dirs))) \<in> mult less_than"
    if "read_dir s dir = (Inl e, s1)"
    using dirs_decrease [of "[]" s dir s1 dirs] read_dir_effect [OF that] by simp
  show "(image_mset (depth_left s2) (mset dirs'), image_mset (depth_left s) (mset (dir # dirs))) \<in> mult less_than"
    if r: "read_dir s dir = (Inr es, s1)" and t: "stat_entries es acc dirs s1 = (acc', dirs', s2)"
  proof -
    from stat_entries_effect [OF t] read_dir_effect [OF r] obtain new where
      "dirs' = new @ dirs" "set new \<subseteq> set (dir_entries s dir) \<inter> set (fs_dirs s)" "fs_dirs s2 = fs_dirs s" by auto
    with dirs_decrease [of new s dir s2 dirs] show ?thesis by simp
  qed
qed

function temp_stats_loop :: "path list \<Rightarrow> int \<times> u64 \<Rightarrow> fs \<Rightarrow> (int \<times> u64) \<times> fs" where
  "temp_stats_loop [] acc s = (acc, s)"
| "temp_stats_loop (dir # dirs) acc s =
     (case read_dir s dir of
        (Inl _, s1) \<Rightarrow> temp_stats_loop dirs acc s1
      | (Inr es, s1) \<Rightarrow> (case stat_entries es acc dirs s1 of (acc', dirs', s2) \<Rightarrow> temp_stats_loop dirs' acc' s2))"
  by pat_completeness auto
termination
  by (relation "inv_image (mult less_than) (\<lambda>(dirs, _, s). image_mset (depth_left s) (mset dirs))")
    (auto intro: wf_mult wf_less_than temp_stats_decreases [simplified] dest: sym)

definition collect_temp_file_stats :: "path \<Rightarrow> fs \<Rightarrow> gauges \<Rightarrow> gauges \<times> fs" where
  "collect_temp_file_stats temp s G =
     (case temp_stats_loop [temp] (0, 0) s of ((n, total_size), s') \<Rightarrow>
        (set_u64 ''save_temp_files_size_bytes'' [] total_size (set_gauge ''save_temp_files_count'' [] n G), s'))"

text \<open>A round of the worker. The readings of the system are arguments.\<close>

record readings =
  rd_data_disk :: "(u64 \<times> u64 \<times> u64) option"
  rd_metadata_disk :: "(u64 \<times> u64 \<times> u64) option"
  rd_database :: DatabaseStats

definition collect_metrics :: "path \<Rightarrow> 'g RaftNode \<Rightarrow> readings \<times> 'g \<Rightarrow> gauges \<times> fs \<Rightarrow> gauges \<times> fs" where
  "collect_metrics base N rg Gs =
     (case (rg, Gs) of ((rd, g), (G, s)) \<Rightarrow>
        let G1 = collect_disk_usage (rd_data_disk rd) ''data'' G;
            G2 = collect_disk_usage (rd_metadata_disk rd) ''metadata'' G1;
            G3 = collect_database_stats (rd_database rd) G2 in
        case collect_temp_file_stats (base @ [''temp'']) s G3 of
          (G4, s') \<Rightarrow> (collect_raft_metrics_from_node N g G4, s'))"

definition run_metrics_worker ::
  "u64 \<Rightarrow> path \<Rightarrow> 'g RaftNode \<Rightarrow> (readings \<times> 'g, gauges \<times> fs) wakeup list \<Rightarrow> gauges \<times> fs \<Rightarrow> ((gauges \<times> fs) \<times> bool) option" where
  "run_metrics_worker metrics_interval_secs base N = run_worker metrics_interval_secs (collect_metrics base N)"

section \<open>What is recorded\<close>

lemma set_current_gauge:
  "distinct labels \<Longrightarrow> set_current name before labels current G k =
     (if \<exists>l \<in> set labels. k = (name, before @ [l]) then Some (if k = (name, before @ [current]) then 1 else 0) else G k)"
proof (induction labels arbitrary: G)
  case (Cons l labels)
  let ?G = "set_gauge name (before @ [l]) (if l = current then 1 else 0) G"
  have "set_current name before (l # labels) current G k = set_current name before labels current ?G k"
    by (simp add: set_current_def)
  also have "\<dots> = (if \<exists>l \<in> set labels. k = (name, before @ [l]) then Some (if k = (name, before @ [current]) then 1 else 0) else ?G k)"
    using Cons by simp
  finally show ?case by (simp add: set_gauge_def)
qed (simp add: set_current_def)

text \<open>Exactly one of the labels is set: the current state.\<close>

definition one_hot :: "string \<Rightarrow> string list \<Rightarrow> string list \<Rightarrow> string \<Rightarrow> gauges \<Rightarrow> bool" where
  "one_hot name before labels current G \<longleftrightarrow>
     current \<in> set labels \<and> (\<forall>l \<in> set labels. G (name, before @ [l]) = Some (if l = current then 1 else 0))"

lemma set_current_one_hot: "distinct labels \<Longrightarrow> current \<in> set labels \<Longrightarrow> one_hot name before labels current (set_current name before labels current G)"
  by (auto simp: one_hot_def set_current_gauge)

lemmas metric_labels = RAFT_STATE_LABELS_def NODE_HEALTH_LABELS_def PARTITION_STATUS_LABELS_def

lemma labels_ok:
  "distinct RAFT_STATE_LABELS" "raft_state_to_label st \<in> set RAFT_STATE_LABELS"
  "distinct NODE_HEALTH_LABELS" "node_health_to_label h \<in> set NODE_HEALTH_LABELS"
  "distinct PARTITION_STATUS_LABELS" "partition_status_to_label p \<in> set PARTITION_STATUS_LABELS"
  subgoal by (simp add: metric_labels)
  subgoal by (cases st) (simp_all add: metric_labels)
  subgoal by (simp add: metric_labels)
  subgoal by (cases h) (simp_all add: metric_labels)
  subgoal by (simp add: metric_labels)
  subgoal by (cases p) (simp_all add: metric_labels)
  done

text \<open>The walk counts what the collector lists, when nothing fails.\<close>

lemma stat_entries_scan:
  assumes "fs_faults s = []" and "scan_entries qs found dirs s = (Inr (found', dirs'), s')"
  shows "s' = s \<and> (\<exists>sz'. stat_entries qs (int (length found), sz) dirs s = ((int (length found'), sz'), dirs', s))"
  using assms(2)
proof (induction qs arbitrary: found dirs sz)
  case Nil
  with assms(1) show ?case by simp
next
  case (Cons q qs)
  obtain z s2 where m: "fs_metadata s q = (z, s2)" by fastforce
  have s2: "s2 = s" using m assms(1) by (auto simp: fs_metadata_def split: option.splits if_splits)
  show ?case
  proof (cases "file_at s q")
    case None
    with Cons.prems m s2 assms(1) have "scan_entries qs found (q # dirs) s = (Inr (found', dirs'), s')" "z = Inr IsDir"
      by (auto simp: fs_metadata_def split: if_splits)
    with Cons.IH [of found "q # dirs" sz] m s2 assms(1) show ?thesis by simp
  next
    case (Some f)
    then have z: "z = Inr (IsFile (of_nat (length (f_data f))))" using m assms(1) by (auto simp: fs_metadata_def)
    with Cons.prems m s2 Some assms(1) have "scan_entries qs (found @ [(q, f_mtime f)]) dirs s = (Inr (found', dirs'), s')" by simp
    from Cons.IH [OF this, of "sz + of_nat (length (f_data f))"] m s2 z assms(1) show ?thesis by (simp add: add.commute)
  qed
qed

lemma temp_stats_list:
  assumes "fs_faults s = []" and "list_temp_loop dirs found s = (Inr fs, s')"
  shows "\<exists>sz'. temp_stats_loop dirs (int (length found), sz) s = ((int (length fs), sz'), s')"
  using assms
proof (induction dirs found s arbitrary: sz rule: list_temp_loop.induct)
  case (2 dir dirs found s)
  obtain x s1 where r: "read_dir s dir = (x, s1)" by fastforce
  with 2(3) obtain es where x: "x = Inr es" by (cases x) auto
  have s1: "s1 = s" using r 2(2) by (auto simp: read_dir_def split: if_splits)
  obtain y s2 where sc: "scan_entries es found dirs s1 = (y, s2)" by fastforce
  with 2(3) r x obtain found' dirs' where y: "y = Inr (found', dirs')" by (cases y) auto
  from stat_entries_scan [of s es found dirs found' dirs' s2 sz] 2(2) sc y s1 obtain sz' where
    st: "s2 = s" "stat_entries es (int (length found), sz) dirs s = ((int (length found'), sz'), dirs', s)" by auto
  have "list_temp_loop dirs' found' s2 = (Inr fs, s')" using 2(3) r x sc y by simp
  from 2(1) [OF r [symmetric] x sc [symmetric] y refl _ this, of sz'] 2(2) st show ?case by (simp add: r x s1)
qed simp

section \<open>Properties\<close>

text \<open>
  After a round of the worker the gauges describe the node: of the states of Raft exactly the current
  one is set, voters and learners are counted, and, when no file operation fails, the gauge of
  temporary files holds the number of files that the collector of abandoned files would look at.
\<close>

theorem collected_metrics_describe_node:
  assumes "collect_metrics base N (rd, g) (G, s) = (G', s')"
  shows "one_hot ''save_raft_state'' [] RAFT_STATE_LABELS (raft_state_to_label (cs_state (get_status N g))) G'"
    and "length (cs_voters (get_status N g)) < 2 ^ 63 \<Longrightarrow>
      G' (''save_raft_members'', [''voters'']) = Some (int (length (cs_voters (get_status N g))))"
    and "fs_faults s = [] \<Longrightarrow> base @ [''temp''] \<in> set (fs_dirs s) \<Longrightarrow> list_temp_files s (base @ [''temp'']) = (Inr fs, s'') \<Longrightarrow>
      G' (''save_temp_files_count'', []) = Some (int (length fs)) \<and> s' = s''"
proof -
  define G3 where "G3 = collect_database_stats (rd_database rd) (collect_disk_usage (rd_metadata_disk rd) ''metadata''
    (collect_disk_usage (rd_data_disk rd) ''data'' G))"
  obtain n sz where t: "temp_stats_loop [base @ [''temp'']] (0, 0) s = ((n, sz), s')"
    and G': "G' = collect_raft_metrics_from_node N g (set_u64 ''save_temp_files_size_bytes'' [] sz (set_gauge ''save_temp_files_count'' [] n G3))"
    using assms by (auto simp: collect_metrics_def collect_temp_file_stats_def G3_def Let_def split: prod.splits)
  note raft = collect_raft_metrics_from_node_def collect_raft_metrics_def set_u64_def set_if_known_def set_gauge_def Let_def
  show "one_hot ''save_raft_state'' [] RAFT_STATE_LABELS (raft_state_to_label (cs_state (get_status N g))) G'"
    by (auto simp: G' raft one_hot_def set_current_gauge labels_ok split: option.splits)
  show "G' (''save_raft_members'', [''voters'']) = Some (int (length (cs_voters (get_status N g))))"
    if "length (cs_voters (get_status N g)) < 2 ^ 63"
  proof -
    have "sint (of_nat k :: u64) = int k" if "k < 2 ^ 63" for k
    proof -
      have "uint (of_nat k :: u64) = int k" using that by (simp add: uint_nat unat_of_nat)
      with that show ?thesis by (simp add: sint_uint signed_take_bit_int_eq_self)
    qed
    with that show ?thesis by (simp add: G' raft)
  qed
  show "G' (''save_temp_files_count'', []) = Some (int (length fs)) \<and> s' = s''"
    if "fs_faults s = []" "base @ [''temp''] \<in> set (fs_dirs s)" "list_temp_files s (base @ [''temp'']) = (Inr fs, s'')"
  proof -
    have "list_temp_loop [base @ [''temp'']] [] s = (Inr fs, s'')" using that(2,3) by (simp add: list_temp_files_def fs_exists_def)
    from temp_stats_list [OF that(1) this, of 0] t have "n = int (length fs)" "s' = s''" by auto
    then show ?thesis by (auto simp: G' raft set_current_gauge labels_ok split: option.splits)
  qed
qed

end
