(* ===== verification/Spec2Isabelle.thy ===== *)
theory Spec2Isabelle
  imports Lock_Protocol Raft_Snapshot Cluster_Manager Repl_Server Api_Requests Api_Gc Api_Scaling Api_Admin
    Sigv4_Rules Node_Main Node_Metrics
begin

text \<open>
  A verification development for Save, an object store with the S3 interface that runs as a cluster
  of nodes (the Rust crates under \<open>src/crates\<close>).

  \<^bold>\<open>The program.\<close> A node answers S3 requests over HTTP. It keeps the metadata of buckets, objects and
  multipart uploads in RocksDB and changes it through Raft (openraft), so that all nodes have the
  same; it keeps the contents of objects in files, on itself only or on several nodes through a
  two-phase commit. Requests for one object are serialised by locks that are entries of the
  replicated metadata. A node that is not the leader forwards writes to the leader. Nodes join and
  leave the cluster over HTTP; an administrator uses a gRPC interface. Workers in the background
  collect abandoned files, clean up caches and prepared writes, and connect the node to the others.

  \<^bold>\<open>How it is modelled.\<close> Data are records and datatypes with the fields and constructors of the
  source, fields with a prefix for the struct; integers are words of their width where they may
  wrap, and natural numbers or integers elsewhere; strings are lists of bytes. An operation is a
  function that takes the state it works on and returns its result, \<open>Inl\<close> an error of the source, with
  the new state; every early return is a branch. Code outside the repository is a parameter: RocksDB
  and the serialisation are the record \<open>env\<close>, openraft the records \<open>raft_handle\<close>, \<open>raft_codecs\<close> and \<open>openraft\<close>,
  HTTP and gRPC connections are functions, cryptography and the XML serialiser are functions. What
  the program relies on is stated as the assumptions of locales, and each locale is interpreted on
  definitions of the development. The file system is modelled in \<open>Std_Fs\<close> with a list of faults in its
  state, so that each operation may fail in each place. Tasks that run at the same time are
  sequences of steps.

  \<^bold>\<open>Theories and sources.\<close>

  \<^item> \<open>Save_Prelude\<close>: machine integers, Rust's string operations, generic lemmas. \<open>Std_Fs\<close>: the file system.

  \<^item> \<open>Common_Validation\<close> (\<open>save-common/src/validation.rs\<close>, \<open>error.rs\<close>), \<open>Common_Retry\<close> and \<open>Common_Backoff\<close> (\<open>retry.rs\<close>),
    \<open>Common_Cluster\<close> (\<open>cluster.rs\<close>), \<open>Common_Grpc\<close> (\<open>grpc.rs\<close>), \<open>Common_Config\<close> (\<open>config.rs\<close>).

  \<^item> \<open>Meta_Types\<close>, \<open>Meta_Env\<close> (the parameter \<open>env\<close>, locales \<open>metadata_env\<close> and \<open>reliable_env\<close>, the store in memory
    \<open>mem_env\<close>), \<open>Meta_Bucket\<close>, \<open>Meta_Object\<close>, \<open>Meta_Multipart\<close>, \<open>Meta_Lock\<close>: the files of \<open>save-metadata/src\<close> with these
    names. Each has an abstraction of the store to maps (\<open>bucket_view\<close>, \<open>object_view\<close>, \<open>upload_view\<close>, \<open>lock_view\<close>),
    a well-formedness invariant and the exact effect of each operation on the maps.

  \<^item> \<open>Raft_Log\<close> (\<open>raft/log_store.rs\<close>, \<open>raft/storage.rs\<close>; locales \<open>raft_store\<close>, \<open>reliable_raft\<close>), \<open>Raft_Apply\<close>
    (\<open>raft/state_machine.rs\<close> and the writing side of \<open>raft/node.rs\<close>), \<open>Raft_Snapshot\<close> (\<open>raft/snapshot.rs\<close>, \<open>lib.rs\<close>),
    \<open>Raft_Writes\<close> (what openraft does to the store while a group is started: a relation over the storage operations),
    \<open>Raft_Rpc\<close> (\<open>raft/rpc.rs\<close>, \<open>server.rs\<close>, \<open>network.rs\<close>), \<open>Raft_Node\<close> (membership in \<open>raft/node.rs\<close>; locales \<open>raft_members\<close>,
    \<open>quiet_members\<close>). \<open>Lock_Protocol\<close>: the lock managers of all nodes as a step relation over the replicated
    lock table, with an invariant by rule induction.

  \<^item> \<open>Object_Storage\<close> (\<open>save-storage/src/lib.rs\<close>, \<open>layout.rs\<close>, \<open>local_backend.rs\<close>; locales \<open>object_backend\<close>, \<open>object_ids\<close>),
    \<open>Repl_Service\<close>, \<open>Repl_Client\<close>, \<open>Repl_Coordinator\<close>, \<open>Repl_Server\<close> (\<open>replication/*.rs\<close>; locale \<open>participant\<close>),
    \<open>Replicated_Backend\<close>, \<open>Storage_Backend\<close> (\<open>backend.rs\<close>, both implementations of the trait; locale \<open>staged_backend\<close>),
    \<open>Cluster_Manager\<close> (\<open>cluster/*.rs\<close>).

  \<^item> \<open>Api_Responses\<close>, \<open>Api_State\<close> (errors, state and helpers of the handlers; locales \<open>raft_client\<close>, \<open>api_node\<close>),
    \<open>Api_Spec\<close> (the abstract node), \<open>Api_Object\<close>, \<open>Api_Bucket\<close>, \<open>Api_Multipart\<close> (\<open>save-api/src/handlers\<close>), \<open>Api_Requests\<close>
    (uploads as a whole, sequences of requests), \<open>Api_Answers\<close> (the form of the answers), \<open>Api_Gc\<close> (\<open>gc.rs\<close>),
    \<open>Api_Auth\<close> (\<open>auth.rs\<close>), \<open>Sigv4_Rules\<close> (the published rules of the signature, as a client follows them), \<open>Api_Cluster\<close> (\<open>handlers/cluster\<close>, \<open>internal_api/service.rs\<close>), \<open>Api_Admin\<close>
    (\<open>internal_api/server.rs\<close>), \<open>Api_Scaling\<close> (\<open>scaling.rs\<close>; locale \<open>cluster_http\<close>), \<open>Api_Health\<close> (\<open>handlers/health\<close>),
    \<open>Api_Front\<close> (\<open>lib.rs\<close>, \<open>middleware.rs\<close>, \<open>forward.rs\<close>, \<open>routes\<close>).

  \<^item> \<open>Node_Workers\<close> (the loops in the background; locale \<open>ticking\<close>), \<open>Node_Metrics\<close> (\<open>metrics\<close>), \<open>Node_Main\<close> (\<open>main.rs\<close>,
    \<open>factory.rs\<close>): a node from its start to its end.

  \<^bold>\<open>What the lemmas show.\<close>

  \<^item> For clients: an object that was stored is fetched as it was stored, an upload becomes the
    object its parts make, pages of a listing are complete, and every state a node reaches has the
    contents of each object it lists. The handlers refine \<open>Api_Spec\<close>, with all failures. Answers are well
    formed, but for the bare answers that are listed with the property. Only requests with an accepted
    signature act, the signature covers the request and is the one of the published rules, and a write
    through a follower is as good as one to the leader, which sees of its path and query what the
    target built by the follower says.

  \<^item> For the cluster: replicas that apply the same entries agree; a snapshot transfers the data;
    locks exclude; a replicated write is all or nothing on each node as long as the disks work, and
    quorums overlap; the calls between nodes deliver what was sent; membership changes do exactly
    what they report; after a round of its heartbeat the cluster manager accepts writes exactly if it
    heard a majority in time, so that two managers that heard no node in common do not both accept
    them; the coordinator follows the members; joining and leaving.

  \<^item> For a node: files are never torn and failed writes leave nothing, the collector deletes exactly
    the old files that belong to no upload the store lists, configurations are loaded exactly if they
    are valid, a node runs exactly the tasks its configuration says, recovers from a corrupted Raft
    state with its data, and its shutdown waits no longer than its timeouts.

  The remaining theorems show where the code does something else than its comments say, on
  concrete inputs.

  \<^bold>\<open>Bounds and fuel.\<close> Loops over data are structural or have a measure. The loop that asks other nodes to
  remove a node may run as long as its deadline: \<open>graceful_leave\<close> has fuel, and one more than the
  timeout in milliseconds suffices, because every request takes time (lemma \<open>leave_ends\<close>). Draining, waiting
  for a leader and waiting for a transfer count the time that passes and end by a measure. Retrying
  ends by the bound on the attempts. The lock acquisition and the worker that joins the cluster may
  run forever; they are followed for a given list of attempts. Workers run over a given list of
  wake-ups.

  \<^bold>\<open>Not modelled.\<close> The counters and histograms of the metrics and their text encoding, and logging: no
  code reads them. The liveness and metrics endpoints, parameters of the routes. TLS (\<open>tls.rs\<close>), sockets and
  the accept loops of the servers: they hand bytes to the modelled dispatch. The messages generated
  from the proto files, which are records here with their encoding as a parameter. The command line
  client (\<open>save-cli\<close>), a thin layer over a library. The failpoints, which are compiled for tests only.
  The timeouts of single calls appear as outcomes of the network, not as times. A stream of a replica
  is delivered as a whole or not at all; an error of the transport in the middle of it is not
  modelled. Floating-point numbers are rational numbers where they occur; the jitter of the retry
  settings is in \<open>Common_Backoff\<close> only.
\<close>

end
